(* ===== verification/Prelude.thy ===== *)
theory Prelude
  imports Main "HOL-Library.Char_ord"
begin

text \<open>
  Shared vocabulary of the development: Python strings and the string methods the SDK calls,
  insertion-ordered dictionaries, and the exception-and-state monad in which the step, group
  and function code is written.

  A Python \<open>str\<close> is a list of characters (code points below 256) and a Python \<open>bytes\<close>
  value is the same type; \<open>utf8\<close> is the encoding between them.  A value that a Python
  function \<^emph>\<open>returns\<close> and that may be an exception (the SDK's \<open>MaybeError\<close>) is a sum
  with the error on the left.
\<close>

named_theorems pydict \<open>laws of insertion-ordered dictionaries\<close>
named_theorems monad_simps \<open>unfolding rules of the exception-and-state monad\<close>

type_synonym bytes = string

section \<open>Strings\<close>

definition py_lower_char :: "char \<Rightarrow> char" where
  "py_lower_char c = (let n = (of_char c :: nat) in
     if (65 \<le> n \<and> n \<le> 90) \<or> (192 \<le> n \<and> n \<le> 222 \<and> n \<noteq> 215) then char_of (n + 32) else c)"

definition py_lower :: "string \<Rightarrow> string" where
  "py_lower s = map py_lower_char s"

definition is_space :: "char \<Rightarrow> bool" where
  "is_space c = (let n = (of_char c :: nat) in
     (9 \<le> n \<and> n \<le> 13) \<or> (28 \<le> n \<and> n \<le> 32) \<or> n = 133 \<or> n = 160)"

definition is_digit :: "char \<Rightarrow> bool" where
  "is_digit c = (let n = (of_char c :: nat) in 48 \<le> n \<and> n \<le> 57)"

definition digit_val :: "char \<Rightarrow> nat" where
  "digit_val c = of_char c - 48"

text \<open>\<open>str.strip(chars)\<close>: drop the leading and trailing characters that satisfy a predicate.\<close>

definition strip_where :: "(char \<Rightarrow> bool) \<Rightarrow> string \<Rightarrow> string" where
  "strip_where p s = rev (dropWhile p (rev (dropWhile p s)))"

definition rstrip_where :: "(char \<Rightarrow> bool) \<Rightarrow> string \<Rightarrow> string" where
  "rstrip_where p s = rev (dropWhile p (rev s))"

abbreviation py_strip :: "string \<Rightarrow> string" where
  "py_strip \<equiv> strip_where is_space"

fun starts_with :: "string \<Rightarrow> string \<Rightarrow> bool" where
  "starts_with s [] = True"
| "starts_with [] (p # ps) = False"
| "starts_with (c # cs) (p # ps) = (c = p \<and> starts_with cs ps)"

fun contains_str :: "string \<Rightarrow> string \<Rightarrow> bool" where
  "contains_str p [] = (p = [])"
| "contains_str p (c # cs) = (starts_with (c # cs) p \<or> contains_str p cs)"

fun split_first :: "char \<Rightarrow> string \<Rightarrow> string \<times> string option" where
  \<comment> \<open>the part before the first separator, and the part after it when there is one\<close>
  "split_first x [] = ([], None)"
| "split_first x (c # cs) =
     (if c = x then ([], Some cs)
      else (case split_first x cs of (a, b) \<Rightarrow> (c # a, b)))"

fun split_all :: "char \<Rightarrow> string \<Rightarrow> string list" where
  "split_all x [] = [[]]"
| "split_all x (c # cs) =
     (if c = x then [] # split_all x cs
      else (case split_all x cs of [] \<Rightarrow> [[c]] | w # ws \<Rightarrow> (c # w) # ws))"

fun join_with :: "string \<Rightarrow> string list \<Rightarrow> string" where
  "join_with sep [] = []"
| "join_with sep [w] = w"
| "join_with sep (w # ws) = w @ sep @ join_with sep ws"

fun str_of_nat :: "nat \<Rightarrow> string" where
  "str_of_nat n = (if n < 10 then [char_of (48 + n)]
                   else str_of_nat (n div 10) @ [char_of (48 + n mod 10)])"

declare str_of_nat.simps [simp del]

definition str_of_int :: "int \<Rightarrow> string" where
  "str_of_int i = (if i < 0 then CHR ''-'' # str_of_nat (nat (- i)) else str_of_nat (nat i))"

fun nat_of_digits :: "nat \<Rightarrow> string \<Rightarrow> nat" where
  "nat_of_digits acc [] = acc"
| "nat_of_digits acc (c # cs) = nat_of_digits (acc * 10 + digit_val c) cs"

text \<open>
  \<open>int(s)\<close> on a decimal string: surrounding white space is dropped, one sign is accepted, and
  single underscores may separate digits.
\<close>

fun drop_underscores :: "string \<Rightarrow> string option" where
  \<comment> \<open>digits with single underscores between them, or \<open>None\<close>\<close>
  "drop_underscores [] = None"
| "drop_underscores [c] = (if is_digit c then Some [c] else None)"
| "drop_underscores (c # d # cs) =
     (if \<not> is_digit c then None
      else if d = CHR ''_'' then map_option ((#) c) (drop_underscores cs)
      else map_option ((#) c) (drop_underscores (d # cs)))"

definition py_int :: "string \<Rightarrow> int option" where
  "py_int s =
     (case py_strip s of
        [] \<Rightarrow> None
      | c # cs \<Rightarrow>
          (if c = CHR ''-'' then map_option (\<lambda>d. - int (nat_of_digits 0 d)) (drop_underscores cs)
           else if c = CHR ''+'' then map_option (\<lambda>d. int (nat_of_digits 0 d)) (drop_underscores cs)
           else map_option (\<lambda>d. int (nat_of_digits 0 d)) (drop_underscores (c # cs))))"

definition utf8_char :: "char \<Rightarrow> bytes" where
  "utf8_char c = (let n = (of_char c :: nat) in
     if n < 128 then [c] else [char_of (192 + n div 64), char_of (128 + n mod 64)])"

definition utf8 :: "string \<Rightarrow> bytes" where
  "utf8 s = concat (map utf8_char s)"

section \<open>Truthiness of optional strings\<close>

text \<open>Python's \<open>a or b\<close> on optional strings: the first operand unless it is \<open>None\<close> or empty.\<close>

definition truthy_str :: "string option \<Rightarrow> bool" where
  "truthy_str v = (case v of None \<Rightarrow> False | Some s \<Rightarrow> s \<noteq> [])"

definition or_str :: "string option \<Rightarrow> string option \<Rightarrow> string option" where
  "or_str a b = (if truthy_str a then a else b)"

section \<open>Insertion-ordered dictionaries\<close>

type_synonym ('k, 'v) dict = "('k \<times> 'v) list"

fun dget :: "('k, 'v) dict \<Rightarrow> 'k \<Rightarrow> 'v option" where
  "dget [] k = None"
| "dget ((k', v) # d) k = (if k' = k then Some v else dget d k)"

fun dset :: "('k, 'v) dict \<Rightarrow> 'k \<Rightarrow> 'v \<Rightarrow> ('k, 'v) dict" where
  "dset [] k v = [(k, v)]"
| "dset ((k', v') # d) k v = (if k' = k then (k', v) # d else (k', v') # dset d k v)"

definition ddel :: "('k, 'v) dict \<Rightarrow> 'k \<Rightarrow> ('k, 'v) dict" where
  "ddel d k = filter (\<lambda>(k', v). k' \<noteq> k) d"

definition dkeys :: "('k, 'v) dict \<Rightarrow> 'k list" where
  "dkeys d = map fst d"

definition dhas :: "('k, 'v) dict \<Rightarrow> 'k \<Rightarrow> bool" where
  "dhas d k = (k \<in> set (dkeys d))"

definition dmerge :: "('k, 'v) dict \<Rightarrow> ('k, 'v) dict \<Rightarrow> ('k, 'v) dict" where
  \<comment> \<open>the display \<open>{**a, **b}\<close>\<close>
  "dmerge a b = foldl (\<lambda>d (k, v). dset d k v) a b"

definition dvalues :: "('k, 'v) dict \<Rightarrow> 'v list" where
  "dvalues d = map snd d"

definition dict_inv :: "('k, 'v) dict \<Rightarrow> bool" where
  "dict_inv d = distinct (dkeys d)"

lemma dget_dset [simp, pydict]: "dget (dset d k v) k' = (if k' = k then Some v else dget d k')"
  by (induction d k v rule: dset.induct) auto

lemma dget_ddel [simp, pydict]: "dget (ddel d k) k' = (if k' = k then None else dget d k')"
  by (induction d) (auto simp: ddel_def)

lemma dhas_iff_dget [pydict]: "dhas d k \<longleftrightarrow> dget d k \<noteq> None"
  by (induction d k rule: dget.induct) (auto simp: dhas_def dkeys_def split: if_splits)

lemma dget_None_iff: "dget d k = None \<longleftrightarrow> k \<notin> set (dkeys d)"
  using dhas_iff_dget [of d k] by (simp add: dhas_def)

lemma dkeys_dset: "dkeys (dset d k v) = (if dhas d k then dkeys d else dkeys d @ [k])"
  by (induction d k v rule: dset.induct) (auto simp: dkeys_def dhas_def)

lemma dset_dset_same: "dset (dset d k v) k w = dset d k w"
  by (induction d k v rule: dset.induct) auto

lemma dset_same: "dget d k = Some v \<Longrightarrow> dset d k v = d"
  by (induction d k rule: dget.induct) (auto split: if_splits)

lemma dset_fresh: "\<not> dhas d k \<Longrightarrow> dset d k v = d @ [(k, v)]"
  by (induction d k v rule: dset.induct) (auto simp: dhas_def dkeys_def)

lemma dict_inv_Nil [simp, intro]: "dict_inv []"
  by (simp add: dict_inv_def dkeys_def)

lemma dict_inv_dset [simp, intro]: "dict_inv d \<Longrightarrow> dict_inv (dset d k v)"
  by (auto simp: dict_inv_def dkeys_dset dhas_def)

lemma dict_inv_ddel [simp, intro]: "dict_inv d \<Longrightarrow> dict_inv (ddel d k)"
  by (induction d) (auto simp: dict_inv_def ddel_def dkeys_def)

lemma ddel_notin: "\<not> dhas d k \<Longrightarrow> ddel d k = d"
  by (induction d) (auto simp: ddel_def dhas_def dkeys_def)

lemma length_ddel: "dict_inv d \<Longrightarrow> dget d k = Some v \<Longrightarrow> Suc (length (ddel d k)) = length d"
proof (induction d)
  case (Cons p d)
  obtain k' w where p: "p = (k', w)" by (cases p)
  from Cons.prems(1) have inv: "dict_inv d" and fresh: "k' \<notin> set (dkeys d)"
    by (auto simp: p dict_inv_def dkeys_def)
  show ?case
  proof (cases "k' = k")
    case True
    with fresh have "ddel d k = d" by (intro ddel_notin) (simp add: dhas_def)
    with True show ?thesis by (simp add: p ddel_def)
  next
    case False
    with Cons.IH [OF inv] Cons.prems(2) show ?thesis by (simp add: p ddel_def)
  qed
qed simp

lemma utf8_ascii: "list_all (\<lambda>c. (of_char c :: nat) < 128) s \<Longrightarrow> utf8 s = s"
  by (induction s) (auto simp: utf8_def utf8_char_def)

lemma utf8_inj: "utf8 s = utf8 t \<longleftrightarrow> s = t"
proof
  show "utf8 s = utf8 t \<Longrightarrow> s = t"
  proof (induction s arbitrary: t)
    case Nil
    then show ?case by (cases t) (auto simp: utf8_def utf8_char_def Let_def split: if_splits)
  next
    case (Cons c s)
    then obtain d u where t: "t = d # u" by (cases t) (auto simp: utf8_def utf8_char_def Let_def split: if_splits)
    have eq: "utf8_char c @ utf8 s = utf8_char d @ utf8 u" using Cons.prems by (simp add: t utf8_def)
    have bound: "(of_char x :: nat) < 256" for x :: char by simp
    have lead: "(192 + of_char x div 64) mod 256 = (192 + of_char x div 64 :: nat)" for x :: char
      by (rule mod_less) (use bound [of x] in linarith)
    have "c = d \<and> utf8 s = utf8 u"
    proof (cases "(of_char c :: nat) < 128 \<longleftrightarrow> (of_char d :: nat) < 128")
      case True
      then show ?thesis
      proof (cases "(of_char c :: nat) < 128")
        case False
        with True eq have e: "(192 + of_char c div 64) mod 256 = (192 + of_char d div 64 :: nat) mod 256"
          "of_char c mod 64 = (of_char d mod 64 :: nat)" "utf8 s = utf8 u"
          by (simp_all add: utf8_char_def Let_def)
        from e(1) have "(of_char c :: nat) div 64 = of_char d div 64" unfolding lead by simp
        with e(2) have "(of_char c :: nat) = of_char d" by (metis div_mult_mod_eq)
        with e(3) show ?thesis by simp
      qed (use eq in \<open>auto simp: utf8_char_def Let_def\<close>)
    next
      case False
      have "hd (utf8_char c @ utf8 s) \<noteq> hd (utf8_char d @ utf8 u)"
      proof
        assume "hd (utf8_char c @ utf8 s) = hd (utf8_char d @ utf8 u)"
        then have "(of_char (hd (utf8_char c @ utf8 s)) :: nat) = of_char (hd (utf8_char d @ utf8 u))" by simp
        with False show False by (auto simp: utf8_char_def Let_def lead split: if_splits)
      qed
      with eq show ?thesis by simp
    qed
    with Cons.IH t show ?case by simp
  qed
qed simp

lemma dget_map_of: "dget d = map_of d"
proof
  show "dget d k = map_of d k" for k by (induction d) auto
qed

lemma dget_dmerge [simp]:
  "dict_inv b \<Longrightarrow> dget (dmerge a b) k = (case dget b k of None \<Rightarrow> dget a k | Some v \<Rightarrow> Some v)"
proof (induction b arbitrary: a)
  case Nil
  then show ?case by (simp add: dmerge_def)
next
  case (Cons p b)
  obtain k' v where p: "p = (k', v)" by (cases p)
  from Cons.prems have inv: "dict_inv b" and fresh: "k' \<notin> set (dkeys b)"
    by (auto simp: p dict_inv_def dkeys_def)
  have step: "dmerge a (p # b) = dmerge (dset a k' v) b"
    by (simp add: dmerge_def p)
  from fresh have none: "dget b k' = None" by (simp add: dget_None_iff)
  show ?case
    unfolding step Cons.IH [OF inv] using none by (auto simp: p split: option.split)
qed

lemma dict_inv_dmerge [simp, intro]: "dict_inv a \<Longrightarrow> dict_inv (dmerge a b)"
  by (induction b arbitrary: a) (auto simp: dmerge_def)

subsection \<open>The key-value interface\<close>

text \<open>
  What the memo store, the step counters, the reply buffer and the pending requests rely on when
  they keep their state in a dictionary.
\<close>

locale key_value =
  fixes look :: "'s \<Rightarrow> 'k \<Rightarrow> 'v option"
    and put :: "'s \<Rightarrow> 'k \<Rightarrow> 'v \<Rightarrow> 's"
    and rem :: "'s \<Rightarrow> 'k \<Rightarrow> 's"
    and ok :: "'s \<Rightarrow> bool"
  assumes look_put: "look (put s k v) k' = (if k' = k then Some v else look s k')"
    and look_rem: "look (rem s k) k' = (if k' = k then None else look s k')"
    and ok_put: "ok s \<Longrightarrow> ok (put s k v)"
    and ok_rem: "ok s \<Longrightarrow> ok (rem s k)"
begin

lemma put_put_same: "look (put (put s k v) k w) = look (put s k w)"
  by (rule ext) (simp add: look_put)

lemma put_commute: "k \<noteq> l \<Longrightarrow> look (put (put s k v) l w) = look (put (put s l w) k v)"
  by (rule ext) (simp add: look_put)

lemma rem_put_same: "look (rem (put s k v) k) = look (rem s k)"
  by (rule ext) (simp add: look_put look_rem)

lemma rem_idem: "look (rem (rem s k) k) = look (rem s k)"
  by (rule ext) (simp add: look_rem)

lemma fold_put: "look (foldl (\<lambda>s (k, v). put s k v) s kvs) k =
    (case map_of (rev kvs) k of None \<Rightarrow> look s k | Some v \<Rightarrow> Some v)"
  by (induction kvs arbitrary: s) (auto simp: look_put map_add_def split: option.splits)

end

interpretation dict: key_value dget dset ddel dict_inv
  by unfold_locales simp_all

section \<open>The exception-and-state monad\<close>

text \<open>
  A Python call that reads and writes state \<open>'s\<close> and may raise: the left of the result is the
  raised value.  \<open>bindM\<close> is sequencing, \<open>catchM\<close> is \<open>try/except\<close> (the handler
  decides what to re-raise) and \<open>finallyM\<close> is \<open>try/finally\<close>: its second part runs on both
  outcomes, and what it raises replaces the outcome.
\<close>

type_synonym ('s, 'e, 'a) M = "'s \<Rightarrow> ('e + 'a) \<times> 's"

definition retM :: "'a \<Rightarrow> ('s, 'e, 'a) M" where
  "retM x = (\<lambda>s. (Inr x, s))"

definition raiseM :: "'e \<Rightarrow> ('s, 'e, 'a) M" where
  "raiseM e = (\<lambda>s. (Inl e, s))"

definition bindM :: "('s, 'e, 'a) M \<Rightarrow> ('a \<Rightarrow> ('s, 'e, 'b) M) \<Rightarrow> ('s, 'e, 'b) M" where
  "bindM m f = (\<lambda>s. case m s of (Inl e, s') \<Rightarrow> (Inl e, s') | (Inr x, s') \<Rightarrow> f x s')"

definition seqM :: "('s, 'e, 'a) M \<Rightarrow> ('s, 'e, 'b) M \<Rightarrow> ('s, 'e, 'b) M" where
  "seqM m n = bindM m (\<lambda>_. n)"

definition getM :: "('s \<Rightarrow> 'a) \<Rightarrow> ('s, 'e, 'a) M" where
  "getM f = (\<lambda>s. (Inr (f s), s))"

definition modifyM :: "('s \<Rightarrow> 's) \<Rightarrow> ('s, 'e, unit) M" where
  "modifyM f = (\<lambda>s. (Inr (), f s))"

definition catchM :: "('s, 'e, 'a) M \<Rightarrow> ('e \<Rightarrow> ('s, 'e, 'a) M) \<Rightarrow> ('s, 'e, 'a) M" where
  "catchM m h = (\<lambda>s. case m s of (Inl e, s') \<Rightarrow> h e s' | (Inr x, s') \<Rightarrow> (Inr x, s'))"

definition finallyM :: "('s, 'e, 'a) M \<Rightarrow> ('s, 'e, unit) M \<Rightarrow> ('s, 'e, 'a) M" where
  "finallyM m f = (\<lambda>s. case m s of (r, s') \<Rightarrow>
     (case f s' of (Inl e, s'') \<Rightarrow> (Inl e, s'') | (Inr _, s'') \<Rightarrow> (r, s'')))"

text \<open>A statement that reports failure by \<^emph>\<open>raising\<close> what a helper returned as an error.\<close>

definition raise_ifM :: "('x \<Rightarrow> 'e) \<Rightarrow> 'x + 'a \<Rightarrow> ('s, 'e, 'a) M" where
  "raise_ifM wrap r = (case r of Inl e \<Rightarrow> raiseM (wrap e) | Inr a \<Rightarrow> retM a)"

lemmas [monad_simps] =
  retM_def raiseM_def bindM_def seqM_def getM_def modifyM_def catchM_def finallyM_def raise_ifM_def

lemma bindM_retM [simp]: "bindM (retM x) f = f x"
  by (simp add: monad_simps)

lemma bindM_raiseM [simp]: "bindM (raiseM e) f = raiseM e"
  by (simp add: monad_simps)

lemma bindM_retM_right [simp]: "bindM m retM = m"
  by (rule ext) (simp add: monad_simps split: prod.splits sum.splits)

lemma bindM_assoc: "bindM (bindM m f) g = bindM m (\<lambda>x. bindM (f x) g)"
  by (rule ext) (simp add: monad_simps split: prod.splits sum.splits)

lemma catchM_retM [simp]: "catchM (retM x) h = retM x"
  by (simp add: monad_simps)

lemma catchM_raiseM [simp]: "catchM (raiseM e) h = h e"
  by (simp add: monad_simps)

lemma bindM_cong_step:
  "m s = (Inr x, s') \<Longrightarrow> bindM m f s = f x s'"
  by (simp add: bindM_def)

lemma bindM_raise_step:
  "m s = (Inl e, s') \<Longrightarrow> bindM m f s = (Inl e, s')"
  by (simp add: bindM_def)

section \<open>Lists of fallible results\<close>

fun map_sum_list :: "('a \<Rightarrow> 'e + 'b) \<Rightarrow> 'a list \<Rightarrow> 'e + 'b list" where
  "map_sum_list f [] = Inr []"
| "map_sum_list f (x # xs) =
     (case f x of Inl e \<Rightarrow> Inl e
      | Inr y \<Rightarrow> (case map_sum_list f xs of Inl e \<Rightarrow> Inl e | Inr ys \<Rightarrow> Inr (y # ys)))"

lemma map_sum_list_Inr_length: "map_sum_list f xs = Inr ys \<Longrightarrow> length ys = length xs"
  by (induction xs arbitrary: ys) (auto split: sum.splits)

lemma map_sum_list_all_Inr:
  "(\<And>x. x \<in> set xs \<Longrightarrow> f x = Inr (g x)) \<Longrightarrow> map_sum_list f xs = Inr (map g xs)"
  by (induction xs) auto

lemma map_sum_list_Inl:
  "map_sum_list f xs = Inl e \<Longrightarrow> \<exists>x \<in> set xs. f x = Inl e"
  by (induction xs) (auto split: sum.splits)

section \<open>Round trips of numbers and strings\<close>

lemma is_digit_char: "(n::nat) < 10 \<Longrightarrow> is_digit (char_of (48 + n))"
  by (simp add: is_digit_def Let_def)

lemma digit_val_char: "n < 10 \<Longrightarrow> digit_val (char_of (48 + n)) = n"
  by (simp add: digit_val_def)

lemma str_of_nat_nonempty [simp]: "str_of_nat n \<noteq> []"
  by (subst str_of_nat.simps) simp

lemma str_of_nat_digits: "list_all is_digit (str_of_nat n)"
proof (induction n rule: str_of_nat.induct)
  case (1 n)
  then show ?case
    by (subst str_of_nat.simps) (auto simp: is_digit_char)
qed

lemma nat_of_digits_append:
  "nat_of_digits a (xs @ ys) = nat_of_digits (nat_of_digits a xs) ys"
  by (induction xs arbitrary: a) auto

lemma nat_of_str_of_nat: "nat_of_digits 0 (str_of_nat n) = n"
proof (induction n rule: str_of_nat.induct)
  case (1 n)
  show ?case
  proof (cases "n < 10")
    case True
    then show ?thesis by (subst str_of_nat.simps) (simp add: digit_val_char)
  next
    case False
    with 1 have "nat_of_digits 0 (str_of_nat (n div 10)) = n div 10" by simp
    with False show ?thesis
      by (subst str_of_nat.simps) (simp add: nat_of_digits_append digit_val_char)
  qed
qed

lemma drop_underscores_digits: "s \<noteq> [] \<Longrightarrow> list_all is_digit s \<Longrightarrow> drop_underscores s = Some s"
  by (induction s rule: drop_underscores.induct) (auto simp: is_digit_def)

lemma digit_not_space: "is_digit c \<Longrightarrow> \<not> is_space c"
  by (auto simp: is_digit_def is_space_def Let_def)

lemma strip_no_space: "list_all (\<lambda>c. \<not> p c) s \<Longrightarrow> strip_where p s = s"
proof -
  have *: "list_all (\<lambda>c. \<not> p c) t \<Longrightarrow> dropWhile p t = t" for t
    by (cases t) auto
  assume "list_all (\<lambda>c. \<not> p c) s"
  then show ?thesis by (simp add: strip_where_def * list_all_rev)
qed

lemma py_int_str_of_nat: "py_int (str_of_nat n) = Some (int n)"
proof -
  let ?s = "str_of_nat n"
  have digits: "list_all is_digit ?s" by (rule str_of_nat_digits)
  then have "list_all (\<lambda>c. \<not> is_space c) ?s"
    by (auto simp: list_all_iff dest: digit_not_space)
  then have strip: "py_strip ?s = ?s" by (rule strip_no_space)
  obtain c cs where s: "?s = c # cs" by (cases ?s) auto
  with digits have "is_digit c" by simp
  then have "c \<noteq> CHR ''-''" and "c \<noteq> CHR ''+''" by (auto simp: is_digit_def)
  moreover have "drop_underscores (c # cs) = Some (c # cs)"
    using digits s drop_underscores_digits [of "c # cs"] by simp
  moreover have "nat_of_digits 0 (c # cs) = n"
    using nat_of_str_of_nat [of n] s by simp
  ultimately show ?thesis
    using strip by (simp add: py_int_def s)
qed

end
