(* ===== verification/PyObj.thy ===== *)
theory PyObj
  imports Prelude
begin

text \<open>
  The Python values that flow through the SDK: the JSON values, the \<open>types.empty_sentinel\<close> marker
  of \<open>_internal/types.py\<close> and opaque objects that no JSON encoder accepts.  A float is kept
  as the text that \<open>json.dumps\<close> prints for it.  \<open>json_dumps\<close> is \<open>json.dumps\<close> with its default
  arguments: it either renders the value or names the type of the first object it cannot encode.
\<close>

datatype pyobj =
    PNone
  | PBool bool
  | PInt int
  | PFloat string
  | PStr string
  | PList "pyobj list"
  | PDict "(string \<times> pyobj) list"
  | PEmpty
  | POpaque string

text \<open>Python's truth value.\<close>

fun truthy :: "pyobj \<Rightarrow> bool" where
  "truthy PNone = False"
| "truthy (PBool b) = b"
| "truthy (PInt i) = (i \<noteq> 0)"
| "truthy (PFloat r) = (r \<noteq> ''0.0'' \<and> r \<noteq> ''-0.0'')"
| "truthy (PStr s) = (s \<noteq> [])"
| "truthy (PList xs) = (xs \<noteq> [])"
| "truthy (PDict d) = (d \<noteq> [])"
| "truthy PEmpty = True"
| "truthy (POpaque t) = True"

definition is_PDict :: "pyobj \<Rightarrow> bool" where
  "is_PDict v = (case v of PDict d \<Rightarrow> True | _ \<Rightarrow> False)"

text \<open>An optional string as a value, as in a model dump.\<close>

definition opt_str :: "string option \<Rightarrow> pyobj" where
  "opt_str v = (case v of None \<Rightarrow> PNone | Some s \<Rightarrow> PStr s)"

definition opt_int :: "int option \<Rightarrow> pyobj" where
  "opt_int v = (case v of None \<Rightarrow> PNone | Some i \<Rightarrow> PInt i)"

section \<open>JSON encoding\<close>

definition hex_digit :: "nat \<Rightarrow> char" where
  "hex_digit n = (if n < 10 then char_of (48 + n) else char_of (87 + n))"

definition json_escape_char :: "char \<Rightarrow> string" where
  "json_escape_char c = (let n = (of_char c :: nat) in
     if n = 34 then [char_of (92::nat), char_of (34::nat)]
     else if n = 92 then [char_of (92::nat), char_of (92::nat)]
     else if n = 10 then char_of (92::nat) # ''n''
     else if n = 13 then char_of (92::nat) # ''r''
     else if n = 9 then char_of (92::nat) # ''t''
     else if n = 12 then char_of (92::nat) # ''f''
     else if n = 8 then char_of (92::nat) # ''b''
     else if n < 32 \<or> 126 < n
       then char_of (92::nat) # ''u00'' @ [hex_digit (n div 16), hex_digit (n mod 16)]
     else [c])"

definition json_string :: "string \<Rightarrow> string" where
  "json_string s = [char_of (34::nat)] @ concat (map json_escape_char s) @ [char_of (34::nat)]"

fun json_dumps :: "pyobj \<Rightarrow> string + string"
  and json_dumps_list :: "pyobj list \<Rightarrow> string + string list"
  and json_dumps_items :: "(string \<times> pyobj) list \<Rightarrow> string + string list"
where
  "json_dumps PNone = Inr ''null''"
| "json_dumps (PBool b) = Inr (if b then ''true'' else ''false'')"
| "json_dumps (PInt i) = Inr (str_of_int i)"
| "json_dumps (PFloat r) = Inr r"
| "json_dumps (PStr s) = Inr (json_string s)"
| "json_dumps (PList xs) =
     (case json_dumps_list xs of Inl t \<Rightarrow> Inl t
      | Inr ws \<Rightarrow> Inr (''['' @ join_with '', '' ws @ '']''))"
| "json_dumps (PDict d) =
     (case json_dumps_items d of Inl t \<Rightarrow> Inl t
      | Inr ws \<Rightarrow> Inr (''{'' @ join_with '', '' ws @ ''}''))"
| "json_dumps PEmpty = Inl ''EmptySentinel''"
| "json_dumps (POpaque t) = Inl t"
| "json_dumps_list [] = Inr []"
| "json_dumps_list (x # xs) =
     (case json_dumps x of Inl t \<Rightarrow> Inl t
      | Inr w \<Rightarrow> (case json_dumps_list xs of Inl t \<Rightarrow> Inl t | Inr ws \<Rightarrow> Inr (w # ws)))"
| "json_dumps_items [] = Inr []"
| "json_dumps_items ((k, v) # d) =
     (case json_dumps v of Inl t \<Rightarrow> Inl t
      | Inr w \<Rightarrow> (case json_dumps_items d of Inl t \<Rightarrow> Inl t
          | Inr ws \<Rightarrow> Inr ((json_string k @ '': '' @ w) # ws)))"

text \<open>The values \<open>json.dumps\<close> accepts.\<close>

fun serializable :: "pyobj \<Rightarrow> bool" where
  "serializable (PList xs) = list_all serializable xs"
| "serializable (PDict d) = list_all (\<lambda>(k, v). serializable v) d"
| "serializable PEmpty = False"
| "serializable (POpaque t) = False"
| "serializable v = True"

lemma json_dumps_serializable:
  shows "(\<exists>w. json_dumps v = Inr w) = serializable v"
    and "(\<exists>ws. json_dumps_list xs = Inr ws) = list_all serializable xs"
    and "(\<exists>ws. json_dumps_items d = Inr ws) = list_all (\<lambda>(k, v). serializable v) d"
proof (induction v and xs and d rule: json_dumps_json_dumps_list_json_dumps_items.induct)
  case (6 xs)
  then show ?case by (auto split: sum.splits)
next
  case (7 d)
  then show ?case by (auto split: sum.splits)
next
  case (11 x xs)
  then show ?case by (auto split: sum.splits)
next
  case (13 k v d)
  then show ?case by (auto split: sum.splits)
qed auto

lemma json_dumps_Inr_iff: "isl (json_dumps v) = (\<not> serializable v)"
  using json_dumps_serializable(1) [of v] by (cases "json_dumps v") auto

end
