(* ===== verification/Consts.thy ===== *)
theory Consts
  imports PyObj
begin

text \<open>
  The enumerations of \<open>_internal/server_lib/consts.py\<close> and \<open>_internal/const.py\<close>: one datatype
  per \<open>enum.Enum\<close> class (its members with the class's initials as prefix) and one function for the
  member's \<open>.value\<close>.  Calling the class on a string (\<open>ServerKind(value)\<close>, which raises
  \<open>ValueError\<close> on an unknown value) is \<open>enum_of\<close> over the list of members.
\<close>

text \<open>The member with a given value, if there is one.\<close>

definition enum_of :: "('a \<Rightarrow> string) \<Rightarrow> 'a list \<Rightarrow> string \<Rightarrow> 'a option" where
  "enum_of val members s = find (\<lambda>m. val m = s) members"

locale py_enum =
  fixes val :: "'a \<Rightarrow> string" and members :: "'a list"
  assumes val_distinct: "distinct (map val members)"
    and members_all: "m \<in> set members"
begin

lemma val_inj: "val m = val n \<longleftrightarrow> m = n"
  using val_distinct members_all by (metis distinct_map inj_onD)

lemma enum_of_val: "enum_of val members (val m) = Some m"
proof -
  have "(\<lambda>n. val n = val m) = (\<lambda>n. n = m)" by (simp add: val_inj)
  moreover have "find (\<lambda>n. n = m) ms = Some m" if "m \<in> set ms" for ms
    using that by (induction ms) auto
  ultimately show ?thesis using members_all by (simp add: enum_of_def)
qed

lemma enum_of_Some: "enum_of val members s = Some m \<longleftrightarrow> s = val m"
proof
  assume "enum_of val members s = Some m"
  then show "s = val m" by (auto simp: enum_of_def find_Some_iff)
qed (simp add: enum_of_val)

lemma enum_of_None: "enum_of val members s = None \<longleftrightarrow> s \<notin> range val"
  using members_all by (auto simp: enum_of_def find_None_iff)

end

datatype deploy_type =
    DT_PING

fun deploy_type_value :: "deploy_type \<Rightarrow> string" where
  "deploy_type_value DT_PING = ''ping''"

definition deploy_type_members :: "deploy_type list" where
  "deploy_type_members = [DT_PING]"

interpretation deploy_type: py_enum deploy_type_value deploy_type_members
proof
  show "distinct (map deploy_type_value deploy_type_members)" by (simp add: deploy_type_members_def)
  show "m \<in> set deploy_type_members" for m by (cases m) (simp_all add: deploy_type_members_def)
qed

datatype error_code =
    EC_ASYNC_UNSUPPORTED
  | EC_BODY_INVALID
  | EC_EVENT_KEY_UNSPECIFIED
  | EC_FUNCTION_CONFIG_INVALID
  | EC_FUNCTION_NOT_FOUND
  | EC_HEADER_MISSING
  | EC_NON_RETRIABLE_ERROR
  | EC_OUTPUT_UNSERIALIZABLE
  | EC_QUERY_PARAM_MISSING
  | EC_REGISTRATION_FAILED
  | EC_RETRY_AFTER_ERROR
  | EC_SEND_EVENT_FAILED
  | EC_SERVER_KIND_MISMATCH
  | EC_SIGNING_KEY_UNSPECIFIED
  | EC_SIG_VERIFICATION_FAILED
  | EC_STEP_ERRORED
  | EC_STEP_NESTED
  | EC_STEP_UNEXPECTED
  | EC_UNKNOWN
  | EC_URL_INVALID

fun error_code_value :: "error_code \<Rightarrow> string" where
  "error_code_value EC_ASYNC_UNSUPPORTED = ''async_unsupported''"
| "error_code_value EC_BODY_INVALID = ''body_invalid''"
| "error_code_value EC_EVENT_KEY_UNSPECIFIED = ''event_key_unspecified''"
| "error_code_value EC_FUNCTION_CONFIG_INVALID = ''function_config_invalid''"
| "error_code_value EC_FUNCTION_NOT_FOUND = ''function_not_found''"
| "error_code_value EC_HEADER_MISSING = ''header_missing''"
| "error_code_value EC_NON_RETRIABLE_ERROR = ''non_retriable_error''"
| "error_code_value EC_OUTPUT_UNSERIALIZABLE = ''output_unserializable''"
| "error_code_value EC_QUERY_PARAM_MISSING = ''query_param_missing''"
| "error_code_value EC_REGISTRATION_FAILED = ''registration_failed''"
| "error_code_value EC_RETRY_AFTER_ERROR = ''retry_after_error''"
| "error_code_value EC_SEND_EVENT_FAILED = ''send_event_failed''"
| "error_code_value EC_SERVER_KIND_MISMATCH = ''server_kind_mismatch''"
| "error_code_value EC_SIGNING_KEY_UNSPECIFIED = ''signing_key_unspecified''"
| "error_code_value EC_SIG_VERIFICATION_FAILED = ''sig_verification_failed''"
| "error_code_value EC_STEP_ERRORED = ''step_errored''"
| "error_code_value EC_STEP_NESTED = ''step_nested''"
| "error_code_value EC_STEP_UNEXPECTED = ''step_unexpected''"
| "error_code_value EC_UNKNOWN = ''unknown''"
| "error_code_value EC_URL_INVALID = ''url_invalid''"

definition error_code_members :: "error_code list" where
  "error_code_members = [EC_ASYNC_UNSUPPORTED, EC_BODY_INVALID, EC_EVENT_KEY_UNSPECIFIED, EC_FUNCTION_CONFIG_INVALID, EC_FUNCTION_NOT_FOUND, EC_HEADER_MISSING, EC_NON_RETRIABLE_ERROR, EC_OUTPUT_UNSERIALIZABLE, EC_QUERY_PARAM_MISSING, EC_REGISTRATION_FAILED, EC_RETRY_AFTER_ERROR, EC_SEND_EVENT_FAILED, EC_SERVER_KIND_MISMATCH, EC_SIGNING_KEY_UNSPECIFIED, EC_SIG_VERIFICATION_FAILED, EC_STEP_ERRORED, EC_STEP_NESTED, EC_STEP_UNEXPECTED, EC_UNKNOWN, EC_URL_INVALID]"

interpretation error_code: py_enum error_code_value error_code_members
proof
  show "distinct (map error_code_value error_code_members)" by (simp add: error_code_members_def)
  show "m \<in> set error_code_members" for m by (cases m) (simp_all add: error_code_members_def)
qed

datatype execution_version =
    EV_V0
  | EV_V1
  | EV_V2

fun execution_version_value :: "execution_version \<Rightarrow> string" where
  "execution_version_value EV_V0 = ''0''"
| "execution_version_value EV_V1 = ''1''"
| "execution_version_value EV_V2 = ''2''"

definition execution_version_members :: "execution_version list" where
  "execution_version_members = [EV_V0, EV_V1, EV_V2]"

interpretation execution_version: py_enum execution_version_value execution_version_members
proof
  show "distinct (map execution_version_value execution_version_members)" by (simp add: execution_version_members_def)
  show "m \<in> set execution_version_members" for m by (cases m) (simp_all add: execution_version_members_def)
qed

datatype framework =
    FW_CONNECT
  | FW_DIGITAL_OCEAN
  | FW_DJANGO
  | FW_FAST_API
  | FW_FLASK
  | FW_TORNADO

fun framework_value :: "framework \<Rightarrow> string" where
  "framework_value FW_CONNECT = ''connect''"
| "framework_value FW_DIGITAL_OCEAN = ''digitalocean''"
| "framework_value FW_DJANGO = ''django''"
| "framework_value FW_FAST_API = ''fast_api''"
| "framework_value FW_FLASK = ''flask''"
| "framework_value FW_TORNADO = ''tornado''"

definition framework_members :: "framework list" where
  "framework_members = [FW_CONNECT, FW_DIGITAL_OCEAN, FW_DJANGO, FW_FAST_API, FW_FLASK, FW_TORNADO]"

interpretation framework: py_enum framework_value framework_members
proof
  show "distinct (map framework_value framework_members)" by (simp add: framework_members_def)
  show "m \<in> set framework_members" for m by (cases m) (simp_all add: framework_members_def)
qed

datatype header_key =
    HK_AUTHORIZATION
  | HK_CONTENT_TYPE
  | HK_ENV
  | HK_EVENT_ID_SEED
  | HK_EXPECTED_SERVER_KIND
  | HK_FRAMEWORK
  | HK_NO_RETRY
  | HK_REQUEST_VERSION
  | HK_RETRY_AFTER
  | HK_SDK
  | HK_SERVER_KIND
  | HK_SERVER_TIMING
  | HK_SIGNATURE
  | HK_SYNC_KIND
  | HK_USER_AGENT

fun header_key_value :: "header_key \<Rightarrow> string" where
  "header_key_value HK_AUTHORIZATION = ''authorization''"
| "header_key_value HK_CONTENT_TYPE = ''content-type''"
| "header_key_value HK_ENV = ''x-inngest-env''"
| "header_key_value HK_EVENT_ID_SEED = ''x-inngest-event-id-seed''"
| "header_key_value HK_EXPECTED_SERVER_KIND = ''x-inngest-expected-server-kind''"
| "header_key_value HK_FRAMEWORK = ''x-inngest-framework''"
| "header_key_value HK_NO_RETRY = ''x-inngest-no-retry''"
| "header_key_value HK_REQUEST_VERSION = ''x-inngest-req-version''"
| "header_key_value HK_RETRY_AFTER = ''retry-after''"
| "header_key_value HK_SDK = ''x-inngest-sdk''"
| "header_key_value HK_SERVER_KIND = ''x-inngest-server-kind''"
| "header_key_value HK_SERVER_TIMING = ''server-timing''"
| "header_key_value HK_SIGNATURE = ''x-inngest-signature''"
| "header_key_value HK_SYNC_KIND = ''x-inngest-sync-kind''"
| "header_key_value HK_USER_AGENT = ''user-agent''"

definition header_key_members :: "header_key list" where
  "header_key_members = [HK_AUTHORIZATION, HK_CONTENT_TYPE, HK_ENV, HK_EVENT_ID_SEED, HK_EXPECTED_SERVER_KIND, HK_FRAMEWORK, HK_NO_RETRY, HK_REQUEST_VERSION, HK_RETRY_AFTER, HK_SDK, HK_SERVER_KIND, HK_SERVER_TIMING, HK_SIGNATURE, HK_SYNC_KIND, HK_USER_AGENT]"

interpretation header_key: py_enum header_key_value header_key_members
proof
  show "distinct (map header_key_value header_key_members)" by (simp add: header_key_members_def)
  show "m \<in> set header_key_members" for m by (cases m) (simp_all add: header_key_members_def)
qed

datatype internal_event =
    IE_FUNCTION_FAILED

fun internal_event_value :: "internal_event \<Rightarrow> string" where
  "internal_event_value IE_FUNCTION_FAILED = ''inngest/function.failed''"

definition internal_event_members :: "internal_event list" where
  "internal_event_members = [IE_FUNCTION_FAILED]"

interpretation internal_event: py_enum internal_event_value internal_event_members
proof
  show "distinct (map internal_event_value internal_event_members)" by (simp add: internal_event_members_def)
  show "m \<in> set internal_event_members" for m by (cases m) (simp_all add: internal_event_members_def)
qed

datatype opcode =
    OP_AI_GATEWAY
  | OP_INVOKE
  | OP_PLANNED
  | OP_SLEEP
  | OP_STEP_RUN
  | OP_STEP_ERROR
  | OP_WAIT_FOR_EVENT
  | OP_STEP_FAILED

fun opcode_value :: "opcode \<Rightarrow> string" where
  "opcode_value OP_AI_GATEWAY = ''AIGateway''"
| "opcode_value OP_INVOKE = ''InvokeFunction''"
| "opcode_value OP_PLANNED = ''StepPlanned''"
| "opcode_value OP_SLEEP = ''Sleep''"
| "opcode_value OP_STEP_RUN = ''StepRun''"
| "opcode_value OP_STEP_ERROR = ''StepError''"
| "opcode_value OP_WAIT_FOR_EVENT = ''WaitForEvent''"
| "opcode_value OP_STEP_FAILED = ''StepFailed''"

definition opcode_members :: "opcode list" where
  "opcode_members = [OP_AI_GATEWAY, OP_INVOKE, OP_PLANNED, OP_SLEEP, OP_STEP_RUN, OP_STEP_ERROR, OP_WAIT_FOR_EVENT, OP_STEP_FAILED]"

interpretation opcode: py_enum opcode_value opcode_members
proof
  show "distinct (map opcode_value opcode_members)" by (simp add: opcode_members_def)
  show "m \<in> set opcode_members" for m by (cases m) (simp_all add: opcode_members_def)
qed

datatype opt_key =
    OK_PARALLEL_MODE

fun opt_key_value :: "opt_key \<Rightarrow> string" where
  "opt_key_value OK_PARALLEL_MODE = ''parallelMode''"

definition opt_key_members :: "opt_key list" where
  "opt_key_members = [OK_PARALLEL_MODE]"

interpretation opt_key: py_enum opt_key_value opt_key_members
proof
  show "distinct (map opt_key_value opt_key_members)" by (simp add: opt_key_members_def)
  show "m \<in> set opt_key_members" for m by (cases m) (simp_all add: opt_key_members_def)
qed

datatype query_param_key =
    QP_FUNCTION_ID
  | QP_PROBE
  | QP_STEP_ID
  | QP_SYNC_ID

fun query_param_key_value :: "query_param_key \<Rightarrow> string" where
  "query_param_key_value QP_FUNCTION_ID = ''fnId''"
| "query_param_key_value QP_PROBE = ''probe''"
| "query_param_key_value QP_STEP_ID = ''stepId''"
| "query_param_key_value QP_SYNC_ID = ''deployId''"

definition query_param_key_members :: "query_param_key list" where
  "query_param_key_members = [QP_FUNCTION_ID, QP_PROBE, QP_STEP_ID, QP_SYNC_ID]"

interpretation query_param_key: py_enum query_param_key_value query_param_key_members
proof
  show "distinct (map query_param_key_value query_param_key_members)" by (simp add: query_param_key_members_def)
  show "m \<in> set query_param_key_members" for m by (cases m) (simp_all add: query_param_key_members_def)
qed

datatype probe =
    PB_TRUST

fun probe_value :: "probe \<Rightarrow> string" where
  "probe_value PB_TRUST = ''trust''"

definition probe_members :: "probe list" where
  "probe_members = [PB_TRUST]"

interpretation probe: py_enum probe_value probe_members
proof
  show "distinct (map probe_value probe_members)" by (simp add: probe_members_def)
  show "m \<in> set probe_members" for m by (cases m) (simp_all add: probe_members_def)
qed

datatype server_kind =
    SK_CLOUD
  | SK_DEV_SERVER

fun server_kind_value :: "server_kind \<Rightarrow> string" where
  "server_kind_value SK_CLOUD = ''cloud''"
| "server_kind_value SK_DEV_SERVER = ''dev''"

definition server_kind_members :: "server_kind list" where
  "server_kind_members = [SK_CLOUD, SK_DEV_SERVER]"

interpretation server_kind: py_enum server_kind_value server_kind_members
proof
  show "distinct (map server_kind_value server_kind_members)" by (simp add: server_kind_members_def)
  show "m \<in> set server_kind_members" for m by (cases m) (simp_all add: server_kind_members_def)
qed

datatype sync_kind =
    SY_IN_BAND
  | SY_OUT_OF_BAND

fun sync_kind_value :: "sync_kind \<Rightarrow> string" where
  "sync_kind_value SY_IN_BAND = ''in_band''"
| "sync_kind_value SY_OUT_OF_BAND = ''out_of_band''"

definition sync_kind_members :: "sync_kind list" where
  "sync_kind_members = [SY_IN_BAND, SY_OUT_OF_BAND]"

interpretation sync_kind: py_enum sync_kind_value sync_kind_members
proof
  show "distinct (map sync_kind_value sync_kind_members)" by (simp add: sync_kind_members_def)
  show "m \<in> set sync_kind_members" for m by (cases m) (simp_all add: sync_kind_members_def)
qed

datatype parallel_mode =
    PM_RACE
  | PM_WAIT

fun parallel_mode_value :: "parallel_mode \<Rightarrow> string" where
  "parallel_mode_value PM_RACE = ''race''"
| "parallel_mode_value PM_WAIT = ''wait''"

definition parallel_mode_members :: "parallel_mode list" where
  "parallel_mode_members = [PM_RACE, PM_WAIT]"

interpretation parallel_mode: py_enum parallel_mode_value parallel_mode_members
proof
  show "distinct (map parallel_mode_value parallel_mode_members)" by (simp add: parallel_mode_members_def)
  show "m \<in> set parallel_mode_members" for m by (cases m) (simp_all add: parallel_mode_members_def)
qed

datatype env_key =
    EK_ALLOW_IN_BAND_SYNC
  | EK_API_BASE_URL
  | EK_BASE_URL
  | EK_DEV
  | EK_EVENT_API_BASE_URL
  | EK_EVENT_KEY
  | EK_ENV
  | EK_THREAD_POOL_MAX_WORKERS
  | EK_RAILWAY_GIT_BRANCH
  | EK_RENDER_GIT_BRANCH
  | EK_SERVE_ORIGIN
  | EK_SERVE_PATH
  | EK_SIGNING_KEY
  | EK_SIGNING_KEY_FALLBACK
  | EK_STREAMING
  | EK_VERCEL_GIT_BRANCH
  | EK_CONNECT_MAX_WORKER_CONCURRENCY

fun env_key_value :: "env_key \<Rightarrow> string" where
  "env_key_value EK_ALLOW_IN_BAND_SYNC = ''INNGEST_ALLOW_IN_BAND_SYNC''"
| "env_key_value EK_API_BASE_URL = ''INNGEST_API_BASE_URL''"
| "env_key_value EK_BASE_URL = ''INNGEST_BASE_URL''"
| "env_key_value EK_DEV = ''INNGEST_DEV''"
| "env_key_value EK_EVENT_API_BASE_URL = ''INNGEST_EVENT_API_BASE_URL''"
| "env_key_value EK_EVENT_KEY = ''INNGEST_EVENT_KEY''"
| "env_key_value EK_ENV = ''INNGEST_ENV''"
| "env_key_value EK_THREAD_POOL_MAX_WORKERS = ''INNGEST_THREAD_POOL_MAX_WORKERS''"
| "env_key_value EK_RAILWAY_GIT_BRANCH = ''RAILWAY_GIT_BRANCH''"
| "env_key_value EK_RENDER_GIT_BRANCH = ''RENDER_GIT_BRANCH''"
| "env_key_value EK_SERVE_ORIGIN = ''INNGEST_SERVE_ORIGIN''"
| "env_key_value EK_SERVE_PATH = ''INNGEST_SERVE_PATH''"
| "env_key_value EK_SIGNING_KEY = ''INNGEST_SIGNING_KEY''"
| "env_key_value EK_SIGNING_KEY_FALLBACK = ''INNGEST_SIGNING_KEY_FALLBACK''"
| "env_key_value EK_STREAMING = ''INNGEST_STREAMING''"
| "env_key_value EK_VERCEL_GIT_BRANCH = ''VERCEL_GIT_COMMIT_REF''"
| "env_key_value EK_CONNECT_MAX_WORKER_CONCURRENCY = ''INNGEST_CONNECT_MAX_WORKER_CONCURRENCY''"

definition env_key_members :: "env_key list" where
  "env_key_members = [EK_ALLOW_IN_BAND_SYNC, EK_API_BASE_URL, EK_BASE_URL, EK_DEV, EK_EVENT_API_BASE_URL, EK_EVENT_KEY, EK_ENV, EK_THREAD_POOL_MAX_WORKERS, EK_RAILWAY_GIT_BRANCH, EK_RENDER_GIT_BRANCH, EK_SERVE_ORIGIN, EK_SERVE_PATH, EK_SIGNING_KEY, EK_SIGNING_KEY_FALLBACK, EK_STREAMING, EK_VERCEL_GIT_BRANCH, EK_CONNECT_MAX_WORKER_CONCURRENCY]"

interpretation env_key: py_enum env_key_value env_key_members
proof
  show "distinct (map env_key_value env_key_members)" by (simp add: env_key_members_def)
  show "m \<in> set env_key_members" for m by (cases m) (simp_all add: env_key_members_def)
qed

datatype streaming =
    ST_DISABLE
  | ST_FORCE

fun streaming_value :: "streaming \<Rightarrow> string" where
  "streaming_value ST_DISABLE = ''disable''"
| "streaming_value ST_FORCE = ''force''"

definition streaming_members :: "streaming list" where
  "streaming_members = [ST_DISABLE, ST_FORCE]"

interpretation streaming: py_enum streaming_value streaming_members
proof
  show "distinct (map streaming_value streaming_members)" by (simp add: streaming_members_def)
  show "m \<in> set streaming_members" for m by (cases m) (simp_all add: streaming_members_def)
qed

section \<open>Constants\<close>

definition PREFERRED_EXECUTION_VERSION :: string where
  "PREFERRED_EXECUTION_VERSION = execution_version_value EV_V2"

definition UNSPECIFIED_STEP_ID :: string where "UNSPECIFIED_STEP_ID = ''step''"

definition ROOT_STEP_ID :: string where "ROOT_STEP_ID = ''step''"

definition AUTHOR :: string where "AUTHOR = ''inngest''"

definition DEFAULT_API_ORIGIN :: string where "DEFAULT_API_ORIGIN = ''https://api.inngest.com/''"

definition DEFAULT_EVENT_API_ORIGIN :: string where "DEFAULT_EVENT_API_ORIGIN = ''https://inn.gs/''"

definition DEFAULT_SERVE_PATH :: string where "DEFAULT_SERVE_PATH = ''/api/inngest''"

definition DEV_SERVER_ORIGIN :: string where "DEV_SERVER_ORIGIN = ''http://127.0.0.1:8288/''"

definition LANGUAGE :: string where "LANGUAGE = ''py''"

lemmas const_defs = PREFERRED_EXECUTION_VERSION_def UNSPECIFIED_STEP_ID_def ROOT_STEP_ID_def AUTHOR_def
  DEFAULT_API_ORIGIN_def DEFAULT_EVENT_API_ORIGIN_def DEFAULT_SERVE_PATH_def DEV_SERVER_ORIGIN_def
  LANGUAGE_def

end
