(* ===== verification/Errors.thy ===== *)
theory Errors
  imports Consts
begin

text \<open>
  \<open>_internal/errors.py\<close>: the SDK's exception classes with the attributes the rest of the code
  reads (\<open>code\<close>, \<open>message\<close>, \<open>name\<close>, \<open>is_retriable\<close>, \<open>include_stack\<close>, \<open>quiet\<close>).  An
  exception that is not one of the SDK's is \<open>PyExc\<close> with its type's name and its \<open>str\<close>.
  A point in time is an integer number of microseconds since the epoch.  The rendering of a
  Python traceback is a parameter (\<open>tb\<close>) of the definitions that use it.
\<close>

datatype err_class =
    C_Error | C_FunctionConfigInvalidError | C_AsyncUnsupportedError | C_SigVerificationFailedError
  | C_BodyInvalidError | C_EventKeyUnspecifiedError | C_FunctionNotFoundError | C_HeaderMissingError
  | C_QueryParamMissingError | C_SigningKeyMissingError | C_RegistrationFailedError | C_UnknownError
  | C_StepUnexpectedError | C_OutputUnserializableError

type_synonym datetime = int

datatype exc =
    PyExc string string
  | LibErr err_class string
  | CodedError string error_code string bool
  | NonRetriableError "string option" bool
  | RetryAfterError "string option" datetime bool
  | SendEventsError string "string list"
  | StepError string string "string option"

abbreviation Exception :: "string \<Rightarrow> exc" where
  "Exception \<equiv> PyExc ''Exception''"

fun err_class_name :: "err_class \<Rightarrow> string" where
  "err_class_name C_Error = ''Error''"
| "err_class_name C_FunctionConfigInvalidError = ''FunctionConfigInvalidError''"
| "err_class_name C_AsyncUnsupportedError = ''AsyncUnsupportedError''"
| "err_class_name C_SigVerificationFailedError = ''SigVerificationFailedError''"
| "err_class_name C_BodyInvalidError = ''BodyInvalidError''"
| "err_class_name C_EventKeyUnspecifiedError = ''EventKeyUnspecifiedError''"
| "err_class_name C_FunctionNotFoundError = ''FunctionNotFoundError''"
| "err_class_name C_HeaderMissingError = ''HeaderMissingError''"
| "err_class_name C_QueryParamMissingError = ''QueryParamMissingError''"
| "err_class_name C_SigningKeyMissingError = ''SigningKeyMissingError''"
| "err_class_name C_RegistrationFailedError = ''RegistrationFailedError''"
| "err_class_name C_UnknownError = ''UnknownError''"
| "err_class_name C_StepUnexpectedError = ''StepUnexpectedError''"
| "err_class_name C_OutputUnserializableError = ''OutputUnserializableError''"

text \<open>The class attribute \<open>code\<close> of each class.\<close>

fun err_class_code :: "err_class \<Rightarrow> error_code" where
  "err_class_code C_Error = EC_UNKNOWN"
| "err_class_code C_FunctionConfigInvalidError = EC_FUNCTION_CONFIG_INVALID"
| "err_class_code C_AsyncUnsupportedError = EC_ASYNC_UNSUPPORTED"
| "err_class_code C_SigVerificationFailedError = EC_SIG_VERIFICATION_FAILED"
| "err_class_code C_BodyInvalidError = EC_BODY_INVALID"
| "err_class_code C_EventKeyUnspecifiedError = EC_EVENT_KEY_UNSPECIFIED"
| "err_class_code C_FunctionNotFoundError = EC_FUNCTION_NOT_FOUND"
| "err_class_code C_HeaderMissingError = EC_HEADER_MISSING"
| "err_class_code C_QueryParamMissingError = EC_QUERY_PARAM_MISSING"
| "err_class_code C_SigningKeyMissingError = EC_SIGNING_KEY_UNSPECIFIED"
| "err_class_code C_RegistrationFailedError = EC_REGISTRATION_FAILED"
| "err_class_code C_UnknownError = EC_UNKNOWN"
| "err_class_code C_StepUnexpectedError = EC_STEP_UNEXPECTED"
| "err_class_code C_OutputUnserializableError = EC_OUTPUT_UNSERIALIZABLE"

text \<open>\<open>str(err)\<close>: \<open>Exception(None)\<close> prints \<open>None\<close>.\<close>

definition str_or_None :: "string option \<Rightarrow> string" where
  "str_or_None m = (case m of None \<Rightarrow> ''None'' | Some s \<Rightarrow> s)"

fun exc_str :: "exc \<Rightarrow> string" where
  "exc_str (PyExc t s) = s"
| "exc_str (LibErr c s) = s"
| "exc_str (CodedError t c s r) = s"
| "exc_str (NonRetriableError m q) = str_or_None m"
| "exc_str (RetryAfterError m t q) = str_or_None m"
| "exc_str (SendEventsError s ids) = s"
| "exc_str (StepError m n st) = m"

text \<open>\<open>type(err).__name__\<close>.\<close>

fun exc_type_name :: "exc \<Rightarrow> string" where
  "exc_type_name (PyExc t s) = t"
| "exc_type_name (LibErr c s) = err_class_name c"
| "exc_type_name (CodedError t c s r) = t"
| "exc_type_name (NonRetriableError m q) = ''NonRetriableError''"
| "exc_type_name (RetryAfterError m t q) = ''RetryAfterError''"
| "exc_type_name (SendEventsError s ids) = ''SendEventsError''"
| "exc_type_name (StepError m n st) = ''StepError''"

text \<open>\<open>isinstance(err, errors.Error)\<close>.\<close>

fun is_Error :: "exc \<Rightarrow> bool" where
  "is_Error (PyExc t s) = False"
| "is_Error e = True"

text \<open>The attribute \<open>code\<close> of an \<open>Error\<close>.\<close>

fun exc_code :: "exc \<Rightarrow> error_code" where
  "exc_code (PyExc t s) = EC_UNKNOWN"
| "exc_code (LibErr c s) = err_class_code c"
| "exc_code (CodedError t c s r) = c"
| "exc_code (NonRetriableError m q) = EC_NON_RETRIABLE_ERROR"
| "exc_code (RetryAfterError m t q) = EC_RETRY_AFTER_ERROR"
| "exc_code (SendEventsError s ids) = EC_SEND_EVENT_FAILED"
| "exc_code (StepError m n st) = EC_STEP_ERRORED"

text \<open>The properties \<open>message\<close>, \<open>name\<close> and \<open>stack\<close>, which \<open>StepError\<close> overrides.\<close>

fun exc_message :: "exc \<Rightarrow> string" where
  "exc_message (StepError m n st) = m"
| "exc_message e = exc_str e"

fun exc_name :: "exc \<Rightarrow> string" where
  "exc_name (StepError m n st) = n"
| "exc_name e = exc_type_name e"

fun exc_include_stack :: "exc \<Rightarrow> bool" where
  "exc_include_stack (LibErr C_StepUnexpectedError s) = False"
| "exc_include_stack e = True"

definition exc_stack :: "(exc \<Rightarrow> string) \<Rightarrow> exc \<Rightarrow> string option" where
  "exc_stack tb e =
     (case e of StepError m n st \<Rightarrow> st
      | _ \<Rightarrow> if exc_include_stack e = False then None else Some (tb e))"

text \<open>The attribute \<open>is_retriable\<close> of an \<open>Error\<close>.\<close>

fun exc_is_retriable :: "exc \<Rightarrow> bool" where
  "exc_is_retriable (LibErr c s) = (c \<noteq> C_OutputUnserializableError)"
| "exc_is_retriable (CodedError t c s r) = r"
| "exc_is_retriable (NonRetriableError m q) = False"
| "exc_is_retriable (StepError m n st) = False"
| "exc_is_retriable e = True"

definition is_retriable :: "exc \<Rightarrow> bool" where
  "is_retriable e = (if is_Error e then exc_is_retriable e else True)"

text \<open>\<open>isinstance(err, _Quietable)\<close> holds for the classes with an attribute \<open>quiet\<close>.\<close>

fun is_quiet :: "exc \<Rightarrow> bool" where
  "is_quiet (NonRetriableError m q) = q"
| "is_quiet (RetryAfterError m t q) = q"
| "is_quiet e = False"

text \<open>
  The constructor of \<open>RetryAfterError\<close>: a number of milliseconds or a time delta is taken from
  \<open>now\<close>, a date is kept.
\<close>

datatype retry_after = RA_int int | RA_timedelta int | RA_datetime datetime

definition mk_RetryAfterError ::
  "datetime \<Rightarrow> string option \<Rightarrow> retry_after \<Rightarrow> bool \<Rightarrow> exc" where
  "mk_RetryAfterError now message retry_after quiet =
     (case retry_after of
        RA_int ms \<Rightarrow> RetryAfterError message (now + ms * 1000) quiet
      | RA_timedelta us \<Rightarrow> RetryAfterError message (now + us) quiet
      | RA_datetime t \<Rightarrow> RetryAfterError message t quiet)"

text \<open>
  \<open>FunctionConfigInvalidError.from_validation_error\<close>: \<open>errors\<close> is pydantic's list of errors, each a
  location (\<open>None\<close> when missing; its parts are field names or integer positions) and a message.
\<close>

datatype loc_part = LocField string | LocIndex int

fun loc_has_index :: "loc_part list \<Rightarrow> bool" where
  "loc_has_index [] = False"
| "loc_has_index (LocIndex i # ps) = True"
| "loc_has_index (LocField f # ps) = loc_has_index ps"

definition from_validation_error ::
  "string \<Rightarrow> (loc_part list option \<times> string option) list \<Rightarrow> exc" where
  "from_validation_error err_str errors =
     (let default = LibErr C_FunctionConfigInvalidError err_str in
      case errors of [] \<Rightarrow> default
      | (loc, msg) # _ \<Rightarrow>
          (case loc of None \<Rightarrow> default
           | Some [] \<Rightarrow> default
           | Some (LocIndex i # ps) \<Rightarrow> default
           | Some (LocField f # ps) \<Rightarrow>
               if loc_has_index ps then default
               else (case msg of None \<Rightarrow> default
                     | Some m \<Rightarrow> LibErr C_FunctionConfigInvalidError (f @ '': '' @ m))))"

lemma non_retriable_iff:
  "is_retriable e = False \<longleftrightarrow>
     (\<exists>s. e = LibErr C_OutputUnserializableError s) \<or> (\<exists>m q. e = NonRetriableError m q) \<or>
     (\<exists>m n st. e = StepError m n st) \<or> (\<exists>t c s. e = CodedError t c s False)"
  by (cases e) (auto simp: is_retriable_def)

text \<open>Raised where a text has a character above 255, for which the model has none.\<close>

definition outside_model :: exc where
  "outside_model = PyExc ''OutsideModel'' []"

end
