(* ===== verification/Transforms.thy ===== *)
theory Transforms
  imports Errors
begin

text \<open>
  \<open>_internal/transforms.py\<close>.  The digest functions of \<open>hashlib\<close> are parameters that
  give the hexadecimal digest of a byte string, and so is the canonical-JSON encoder of the third-party
  package \<open>jcs\<close> applied to the parsed body.  A result \<open>Inl\<close> is a returned exception unless the
  definition's comment says that it is raised.
\<close>

section \<open>Hashing\<close>

definition hash_event_key :: "(bytes \<Rightarrow> string) \<Rightarrow> string \<Rightarrow> string" where
  "hash_event_key sha256 key = sha256 (utf8 key)"

text \<open>The word characters of \<open>re\<close> among the first 256 code points.\<close>

definition is_word_char :: "char \<Rightarrow> bool" where
  "is_word_char c = (let n = (of_char c :: nat) in
     (48 \<le> n \<and> n \<le> 57) \<or> (65 \<le> n \<and> n \<le> 90) \<or> (97 \<le> n \<and> n \<le> 122) \<or> n = 95
     \<or> n \<in> {170, 178, 179, 181, 185, 186, 188, 189, 190}
     \<or> (192 \<le> n \<and> n \<le> 214) \<or> (216 \<le> n \<and> n \<le> 246) \<or> (248 \<le> n \<and> n \<le> 255))"

text \<open>
  The match of \<open>^signkey-[\w]+-\<close> is the literal, the longest run of word characters (a run holds
  no \<open>-\<close>, so backtracking never helps) and a \<open>-\<close>.
\<close>

definition signkey_prefix_length :: "string \<Rightarrow> nat" where
  "signkey_prefix_length key =
     (if starts_with key ''signkey-'' then
        (let rest = drop 8 key; w = takeWhile is_word_char rest in
         if w \<noteq> [] \<and> starts_with (drop (length w) rest) ''-'' then 8 + length w + 1 else 0)
      else 0)"

definition remove_signing_key_prefix :: "string \<Rightarrow> string" where
  "remove_signing_key_prefix key = drop (signkey_prefix_length key) key"

text \<open>\<open>bytearray.fromhex\<close>: white space is skipped between byte values; anything else raises.\<close>

definition hex_val :: "char \<Rightarrow> nat option" where
  "hex_val c = (let n = (of_char c :: nat) in
     if 48 \<le> n \<and> n \<le> 57 then Some (n - 48)
     else if 97 \<le> n \<and> n \<le> 102 then Some (n - 87)
     else if 65 \<le> n \<and> n \<le> 70 then Some (n - 55) else None)"

definition is_ascii_space :: "char \<Rightarrow> bool" where
  "is_ascii_space c = (let n = (of_char c :: nat) in (9 \<le> n \<and> n \<le> 13) \<or> n = 32)"

fun fromhex :: "string \<Rightarrow> bytes option" where
  "fromhex [] = Some []"
| "fromhex [c] = (if is_ascii_space c then Some [] else None)"
| "fromhex (c # d # cs) =
     (if is_ascii_space c then fromhex (d # cs)
      else (case (hex_val c, hex_val d) of
              (Some h, Some l) \<Rightarrow> map_option ((#) (char_of (16 * h + l))) (fromhex cs)
            | _ \<Rightarrow> None))"

definition hash_signing_key :: "(bytes \<Rightarrow> string) \<Rightarrow> string \<Rightarrow> exc + string" where
  \<comment> \<open>the left is raised by \<open>fromhex\<close>\<close>
  "hash_signing_key sha256 key =
     (case fromhex (remove_signing_key_prefix key) of
        None \<Rightarrow> Inl (PyExc ''ValueError'' ''non-hexadecimal number found in fromhex() arg'')
      | Some b \<Rightarrow> Inr (sha256 b))"

definition hash_step_id :: "(bytes \<Rightarrow> string) \<Rightarrow> string \<Rightarrow> string" where
  "hash_step_id sha1 step_id = sha1 (utf8 step_id)"

section \<open>JSON\<close>

definition dump_json :: "pyobj \<Rightarrow> exc + string" where
  "dump_json obj =
     (case json_dumps obj of
        Inl t \<Rightarrow> Inl (LibErr C_OutputUnserializableError
                       (''Object of type '' @ t @ '' is not JSON serializable''))
      | Inr s \<Rightarrow> Inr s)"

text \<open>
  \<open>loads_jcs\<close> is \<open>jcs.canonicalize(json.loads(value))\<close>: the left carries the text of the error
  that either call raised.
\<close>

definition canonicalize :: "(bytes \<Rightarrow> string + bytes) \<Rightarrow> bytes \<Rightarrow> exc + bytes" where
  "canonicalize loads_jcs value =
     (if length value = 0 then Inr value
      else (case loads_jcs value of
              Inl e \<Rightarrow> Inl (Exception (''failed to canonicalize: '' @ e))
            | Inr b \<Rightarrow> Inr b))"

fun deep_strip_none :: "pyobj \<Rightarrow> pyobj"
  and strip_none_list :: "pyobj list \<Rightarrow> pyobj list"
  and strip_none_items :: "(string \<times> pyobj) list \<Rightarrow> (string \<times> pyobj) list"
where
  "deep_strip_none (PDict d) = PDict (strip_none_items d)"
| "deep_strip_none (PList xs) = PList (strip_none_list xs)"
| "deep_strip_none v = v"
| "strip_none_list [] = []"
| "strip_none_list (v # xs) =
     (if v \<noteq> PNone then deep_strip_none v # strip_none_list xs else strip_none_list xs)"
| "strip_none_items [] = []"
| "strip_none_items ((k, v) # d) =
     (if v \<noteq> PNone then (k, deep_strip_none v) # strip_none_items d else strip_none_items d)"

section \<open>Durations and dates\<close>

definition Duration_second :: "int \<Rightarrow> int" where "Duration_second count = count * 1000"
definition Duration_minute :: "int \<Rightarrow> int" where "Duration_minute count = count * Duration_second 60"
definition Duration_hour :: "int \<Rightarrow> int" where "Duration_hour count = count * Duration_minute 60"
definition Duration_day :: "int \<Rightarrow> int" where "Duration_day count = count * Duration_hour 24"
definition Duration_week :: "int \<Rightarrow> int" where "Duration_week count = count * Duration_day 7"

lemmas Duration_defs = Duration_second_def Duration_minute_def Duration_hour_def Duration_day_def
  Duration_week_def

text \<open>
  Python's floats are IEEE doubles: a fraction is rounded to 53 significant bits, ties to even.
  \<open>fl n d\<close> is the double nearest to \<open>n / d\<close> for \<open>n \<ge> 0\<close> and \<open>d > 0\<close>, as a
  mantissa and a power of two.  (The range of the exponent plays no role for durations.)
\<close>

function bit_length :: "int \<Rightarrow> nat" where
  "bit_length n = (if n \<le> 0 then 0 else Suc (bit_length (n div 2)))"
  by pat_completeness auto
termination
  by (relation "measure nat") auto

declare bit_length.simps [simp del]

definition round_half_even :: "int \<Rightarrow> int \<Rightarrow> int" where
  "round_half_even n d = (let q = n div d; r = n mod d in
     if 2 * r < d then q else if d < 2 * r then q + 1 else if even q then q else q + 1)"

definition fl :: "int \<Rightarrow> int \<Rightarrow> int \<times> int" where
  "fl n d =
     (if n mod d = 0 \<and> n div d \<le> 2 ^ 53 then (n div d, 0)
      else (let e0 = int (bit_length n) - int (bit_length d) - 53;
                m0 = n * 2 ^ nat (- e0) div (d * 2 ^ nat e0);
                e = (if 2 ^ 53 \<le> m0 then e0 + 1 else e0)
            in (round_half_even (n * 2 ^ nat (- e)) (d * 2 ^ nat e), e)))"

definition fl_num :: "int \<times> int \<Rightarrow> int" where "fl_num x = fst x * 2 ^ nat (snd x)"
definition fl_den :: "int \<times> int \<Rightarrow> int" where "fl_den x = 2 ^ nat (- snd x)"

text \<open>\<open>int(td.total_seconds() * 1000)\<close> for a time delta of \<open>us\<close> microseconds.\<close>

definition timedelta_ms :: "int \<Rightarrow> int" where
  "timedelta_ms us =
     (let seconds = fl \<bar>us\<bar> 1000000;
          ms = fl (fl_num seconds * 1000) (fl_den seconds)
      in sgn us * (fl_num ms div fl_den ms))"

datatype duration = Millis int | Timedelta int

definition duration_units :: "(int \<times> char) list" where
  "duration_units = [(Duration_week 1, CHR ''w''), (Duration_day 1, CHR ''d''),
     (Duration_hour 1, CHR ''h''), (Duration_minute 1, CHR ''m''), (Duration_second 1, CHR ''s'')]"

definition to_duration_str :: "duration \<Rightarrow> exc + string" where
  "to_duration_str d =
     (let ms = (case d of Millis n \<Rightarrow> n | Timedelta us \<Rightarrow> timedelta_ms us) in
      if ms < Duration_second 1
      then Inl (LibErr C_FunctionConfigInvalidError ''duration must be at least 1 second'')
      else (case find (\<lambda>(unit, suffix). ms mod unit = 0) duration_units of
              Some (unit, suffix) \<Rightarrow> Inr (str_of_int (ms div unit) @ [suffix])
            | None \<Rightarrow> Inl (LibErr C_FunctionConfigInvalidError
                            ''duration must be a whole number of seconds'')))"

definition to_maybe_duration_str :: "duration option \<Rightarrow> exc + string option" where
  "to_maybe_duration_str d =
     (case d of None \<Rightarrow> Inr None
      | Some d \<Rightarrow> (case to_duration_str d of Inl e \<Rightarrow> Inl e | Inr s \<Rightarrow> Inr (Some s)))"

text \<open>The Gregorian date of a number of days since 1970-01-01.\<close>

definition civil_from_days :: "int \<Rightarrow> int \<times> int \<times> int" where
  "civil_from_days days =
     (let z = days + 719468;
          era = z div 146097;
          doe = z mod 146097;
          yoe = (doe - doe div 1460 + doe div 36524 - doe div 146096) div 365;
          doy = doe - (365 * yoe + yoe div 4 - yoe div 100);
          mp = (5 * doy + 2) div 153;
          day = doy - (153 * mp + 2) div 5 + 1;
          month = (if mp < 10 then mp + 3 else mp - 9);
          year = yoe + era * 400 + (if month \<le> 2 then 1 else 0)
      in (year, month, day))"

definition pad_left :: "nat \<Rightarrow> string \<Rightarrow> string" where
  "pad_left n s = replicate (n - length s) (CHR ''0'') @ s"

definition to_iso_utc :: "datetime \<Rightarrow> string" where
  "to_iso_utc us =
     (let days = us div 86400000000; tod = us mod 86400000000;
          secs = tod div 1000000; micro = tod mod 1000000;
          (year, month, day) = civil_from_days days;
          text = str_of_int year @ ''-'' @ pad_left 2 (str_of_int month) @ ''-''
                 @ pad_left 2 (str_of_int day) @ ''T'' @ pad_left 2 (str_of_int (secs div 3600))
                 @ '':'' @ pad_left 2 (str_of_int (secs div 60 mod 60)) @ '':''
                 @ pad_left 2 (str_of_int (secs mod 60)) @ ''.'' @ pad_left 6 (str_of_int micro)
      in take (length text - 3) text @ ''Z'')"

section \<open>Parsing\<close>

definition to_int :: "string \<Rightarrow> exc + int" where
  "to_int value = (case py_int value of
      None \<Rightarrow> Inl (PyExc ''ValueError''
        (''invalid integer: invalid literal for int() with base 10: '' @ value))
    | Some i \<Rightarrow> Inr i)"

definition get_major_version :: "string \<Rightarrow> exc + int" where
  "get_major_version version = to_int (hd (split_all (CHR ''.'') version))"

definition get_server_kind :: "(string, string) dict \<Rightarrow> exc + server_kind option" where
  "get_server_kind headers =
     (case dget headers (header_key_value HK_SERVER_KIND) of
        None \<Rightarrow> Inr None
      | Some value \<Rightarrow>
          (case enum_of server_kind_value server_kind_members value of
             Some k \<Rightarrow> Inr (Some k)
           | None \<Rightarrow> Inl (Exception (''invalid server kind: '' @ value))))"

section \<open>Awaiting and tracebacks\<close>

text \<open>A value, or an awaitable with what awaiting it gives.\<close>

datatype 'a maybe_awaitable = PlainValue 'a | Awaitable "exc + 'a"

definition maybe_await :: "'a maybe_awaitable \<Rightarrow> exc + 'a" where
  "maybe_await value = (case value of PlainValue v \<Rightarrow> Inr v | Awaitable r \<Rightarrow> r)"

text \<open>The frames of an exception's traceback, outermost first; no traceback is no frame.\<close>

definition remove_first_traceback_frame :: "'f list \<Rightarrow> 'f list" where
  "remove_first_traceback_frame tb = (case tb of [] \<Rightarrow> [] | f # next_frames \<Rightarrow> next_frames)"

section \<open>Properties of the transforms\<close>

text \<open>Reading a duration string back, as the Inngest server does: a count and a unit letter.\<close>

definition duration_unit :: "char \<Rightarrow> int option" where
  "duration_unit c = map_option fst (find (\<lambda>(u, s). s = c) duration_units)"



lemma duration_units_eq:
  "duration_units = [(604800000, CHR ''w''), (86400000, CHR ''d''), (3600000, CHR ''h''),
     (60000, CHR ''m''), (1000, CHR ''s'')]"
  by (simp add: duration_units_def Duration_defs)

lemma duration_unit_simps [simp]:
  "duration_unit (CHR ''w'') = Some 604800000" "duration_unit (CHR ''d'') = Some 86400000"
  "duration_unit (CHR ''h'') = Some 3600000" "duration_unit (CHR ''m'') = Some 60000"
  "duration_unit (CHR ''s'') = Some 1000"
  by (simp_all add: duration_unit_def duration_units_eq)









text \<open>A time delta of 1001 milliseconds, which given as an integer is rejected, is truncated to 1000 and accepted as one second.\<close>

lemma to_duration_str_timedelta:
  "to_duration_str (Timedelta 1001000) = Inr ''1s''" "isl (to_duration_str (Millis 1001))"
  by code_simp+

text \<open>The values with no \<open>None\<close> inside a container.\<close>

fun none_free :: "pyobj \<Rightarrow> bool" where
  "none_free (PList xs) = list_all (\<lambda>v. v \<noteq> PNone \<and> none_free v) xs"
| "none_free (PDict d) = list_all (\<lambda>(k, v). v \<noteq> PNone \<and> none_free v) d"
| "none_free v = True"

lemma deep_strip_none_eq_PNone [simp]: "deep_strip_none v = PNone \<longleftrightarrow> v = PNone"
  by (cases v) auto

lemma strip_none_free:
  "none_free (deep_strip_none v)"
  "list_all (\<lambda>v. v \<noteq> PNone \<and> none_free v) (strip_none_list xs)"
  "list_all (\<lambda>(k, v). v \<noteq> PNone \<and> none_free v) (strip_none_items d)"
  by (induction v and xs and d rule: deep_strip_none_strip_none_list_strip_none_items.induct) auto

lemma strip_none_id:
  "none_free v \<Longrightarrow> deep_strip_none v = v"
  "list_all (\<lambda>v. v \<noteq> PNone \<and> none_free v) xs \<Longrightarrow> strip_none_list xs = xs"
  "list_all (\<lambda>(k, v). v \<noteq> PNone \<and> none_free v) d \<Longrightarrow> strip_none_items d = d"
  by (induction v and xs and d rule: deep_strip_none_strip_none_list_strip_none_items.induct) auto

lemma strip_none_serializable:
  "serializable v \<Longrightarrow> serializable (deep_strip_none v)"
  "list_all serializable xs \<Longrightarrow> list_all serializable (strip_none_list xs)"
  "list_all (\<lambda>(k, v). serializable v) d \<Longrightarrow> list_all (\<lambda>(k, v). serializable v) (strip_none_items d)"
  by (induction v and xs and d rule: deep_strip_none_strip_none_list_strip_none_items.induct) auto

lemma dget_strip_none_items:
  "dict_inv d \<Longrightarrow> dget (strip_none_items d) k =
     (case dget d k of Some PNone \<Rightarrow> None | v \<Rightarrow> map_option deep_strip_none v)"
proof (induction d)
  case (Cons p d)
  obtain k' v where p: "p = (k', v)" by (cases p)
  from Cons.prems have "dict_inv d" and "dget d k' = None"
    by (auto simp: p dict_inv_def dkeys_def dget_None_iff)
  with Cons.IH show ?case
    by (auto simp: p split: option.splits pyobj.splits)
qed simp

text \<open>Stripping removes every \<open>None\<close> held by a container at any depth, changes nothing else of
  a dictionary's entries, keeps the value encodable, and a second pass changes nothing.\<close>

lemma deep_strip_none_correct:
  "none_free (deep_strip_none v) \<and> deep_strip_none (deep_strip_none v) = deep_strip_none v
   \<and> (serializable v \<longrightarrow> serializable (deep_strip_none v))
   \<and> (dict_inv d \<longrightarrow> (\<exists>d'. deep_strip_none (PDict d) = PDict d' \<and>
        (\<forall>k. dget d' k = (case dget d k of Some PNone \<Rightarrow> None | w \<Rightarrow> map_option deep_strip_none w))))"
  by (auto simp: strip_none_free strip_none_id strip_none_serializable dget_strip_none_items)

lemma deep_strip_none_example:
  "serializable (deep_strip_none (PList [PNone, PInt 1])) \<and>
   (\<exists>d'. deep_strip_none (PDict [(''a'', PNone), (''b'', PInt 2)]) = PDict d' \<and>
      dget d' ''a'' = None \<and> dget d' ''b'' = Some (PInt 2))"
  using deep_strip_none_correct [of "PList [PNone, PInt 1]" "[(''a'', PNone), (''b'', PInt 2)]"]
  by (auto simp: dict_inv_def dkeys_def)

lemma takeWhile_word: "list_all is_word_char w \<Longrightarrow> takeWhile is_word_char (w @ CHR ''-'' # k) = w"
  by (induction w) (auto simp: is_word_char_def)

lemma starts_with_append [simp]: "starts_with (p @ s) p"
  by (induction p) auto

lemma remove_signing_key_prefix_prefixed:
  assumes "w \<noteq> []" and "list_all is_word_char w"
  shows "remove_signing_key_prefix (''signkey-'' @ w @ ''-'' @ k) = k"
proof -
  have "signkey_prefix_length (''signkey-'' @ w @ ''-'' @ k) = 8 + length w + 1"
    using assms starts_with_append [of "''signkey-''" "w @ ''-'' @ k"]
    by (simp add: signkey_prefix_length_def takeWhile_word Let_def)
  moreover have "drop (8 + length w + 1) (''signkey-'' @ w @ ''-'' @ k) = k"
  proof -
    have "''signkey-'' @ w @ ''-'' @ k = (''signkey-'' @ w @ ''-'') @ k" by simp
    moreover have "length (''signkey-'' @ w @ ''-'') = 8 + length w + 1" by simp
    ultimately show ?thesis by (metis append_eq_conv_conj)
  qed
  ultimately show ?thesis
    unfolding remove_signing_key_prefix_def by (simp only:)
qed

lemma remove_signing_key_prefix_plain:
  "\<not> starts_with key ''signkey-'' \<Longrightarrow> remove_signing_key_prefix key = key"
  by (simp add: remove_signing_key_prefix_def signkey_prefix_length_def)

end
