(* ===== verification/Server.thy ===== *)
theory Server
  imports Transforms
begin

text \<open>
  The wire types of \<open>_internal/server_lib\<close> (\<open>event.py\<close>, \<open>execution_request.py\<close>, \<open>registration.py\<close>,
  \<open>inspection.py\<close>) and the base model of \<open>_internal/types.py\<close>.  A pydantic class is a record with the
  class's fields; \<open>model_validate\<close> in strict mode is a function from a value to the record or a
  \<open>ValidationError\<close>, and \<open>to_dict\<close> lists the fields in declaration order under their serialization
  aliases.  The JSON parser inside pydantic is the parameter \<open>pyd_json\<close>.
\<close>

abbreviation ValidationError :: "string \<Rightarrow> exc" where
  "ValidationError \<equiv> PyExc ''ValidationError''"

section \<open>types.BaseModel\<close>

text \<open>\<open>from_raw\<close>: text is parsed first, then the value is validated; any exception is returned.\<close>

definition from_raw ::
  "(bytes \<Rightarrow> exc + pyobj) \<Rightarrow> (pyobj \<Rightarrow> exc + 'a) \<Rightarrow> pyobj \<Rightarrow> exc + 'a" where
  "from_raw pyd_json validate raw =
     (case raw of
        PStr s \<Rightarrow> (case pyd_json s of Inl e \<Rightarrow> Inl e | Inr v \<Rightarrow> validate v)
      | _ \<Rightarrow> validate raw)"

definition field_or_missing :: "(string, pyobj) dict \<Rightarrow> string \<Rightarrow> exc + pyobj" where
  "field_or_missing d k = (case dget d k of
      None \<Rightarrow> Inl (ValidationError (k @ '': Field required'')) | Some v \<Rightarrow> Inr v)"

definition as_str :: "string \<Rightarrow> pyobj \<Rightarrow> exc + string" where
  "as_str k v = (case v of PStr s \<Rightarrow> Inr s
     | _ \<Rightarrow> Inl (ValidationError (k @ '': Input should be a valid string'')))"

definition as_int :: "string \<Rightarrow> pyobj \<Rightarrow> exc + int" where
  "as_int k v = (case v of PInt i \<Rightarrow> Inr i
     | _ \<Rightarrow> Inl (ValidationError (k @ '': Input should be a valid integer'')))"

definition as_bool :: "string \<Rightarrow> pyobj \<Rightarrow> exc + bool" where
  "as_bool k v = (case v of PBool b \<Rightarrow> Inr b
     | _ \<Rightarrow> Inl (ValidationError (k @ '': Input should be a valid boolean'')))"

definition as_dict :: "string \<Rightarrow> pyobj \<Rightarrow> exc + (string, pyobj) dict" where
  "as_dict k v = (case v of PDict d \<Rightarrow> Inr d
     | _ \<Rightarrow> Inl (ValidationError (k @ '': Input should be a valid dictionary'')))"

definition as_list :: "string \<Rightarrow> pyobj \<Rightarrow> exc + pyobj list" where
  "as_list k v = (case v of PList xs \<Rightarrow> Inr xs
     | _ \<Rightarrow> Inl (ValidationError (k @ '': Input should be a valid list'')))"

definition bindE :: "'e + 'a \<Rightarrow> ('a \<Rightarrow> 'e + 'b) \<Rightarrow> 'e + 'b" where
  "bindE r f = (case r of Inl e \<Rightarrow> Inl e | Inr x \<Rightarrow> f x)"

definition required :: "(string \<Rightarrow> pyobj \<Rightarrow> exc + 'a) \<Rightarrow> (string, pyobj) dict \<Rightarrow> string \<Rightarrow> exc + 'a" where
  "required conv d k = bindE (field_or_missing d k) (conv k)"

definition with_default ::
  "(string \<Rightarrow> pyobj \<Rightarrow> exc + 'a) \<Rightarrow> 'a \<Rightarrow> (string, pyobj) dict \<Rightarrow> string \<Rightarrow> exc + 'a" where
  "with_default conv dflt d k = (case dget d k of None \<Rightarrow> Inr dflt | Some v \<Rightarrow> conv k v)"

text \<open>A field of type \<open>X | None\<close> with default \<open>None\<close>.\<close>

definition optional ::
  "(string \<Rightarrow> pyobj \<Rightarrow> exc + 'a) \<Rightarrow> (string, pyobj) dict \<Rightarrow> string \<Rightarrow> exc + 'a option" where
  "optional conv d k = (case dget d k of None \<Rightarrow> Inr None | Some PNone \<Rightarrow> Inr None
     | Some v \<Rightarrow> bindE (conv k v) (\<lambda>x. Inr (Some x)))"

lemma bindE_simps [simp]: "bindE (Inl e) f = Inl e" "bindE (Inr x) f = f x"
  by (simp_all add: bindE_def)

lemmas validation_defs = field_or_missing_def as_str_def as_int_def as_bool_def as_dict_def
  as_list_def required_def with_default_def optional_def

text \<open>\<open>to_dict\<close> with \<open>mode="json"\<close> refuses a value that JSON cannot hold.\<close>

definition to_dict_json :: "(string, pyobj) dict \<Rightarrow> exc + (string, pyobj) dict" where
  "to_dict_json d = (case json_dumps (PDict d) of
      Inl t \<Rightarrow> Inl (PyExc ''PydanticSerializationError'' (''Unable to serialize unknown type: '' @ t))
    | Inr s \<Rightarrow> Inr d)"

lemma to_dict_json_Inr: "serializable (PDict d) \<Longrightarrow> to_dict_json d = Inr d"
  using json_dumps_Inr_iff [of "PDict d"] by (auto simp: to_dict_json_def split: sum.split)

section \<open>Events\<close>

record event =
  ev_data :: "(string, pyobj) dict"
  ev_id :: string
  ev_name :: string
  ev_ts :: int

text \<open>The validator \<open>_ensure_dict\<close> runs first: any false value becomes the empty dictionary.\<close>

definition ensure_dict :: "pyobj \<Rightarrow> pyobj" where
  "ensure_dict v = (if truthy v then v else PDict [])"

definition Event_validate :: "pyobj \<Rightarrow> exc + event" where
  "Event_validate v =
     bindE (as_dict ''Event'' v) (\<lambda>d.
     bindE (with_default (\<lambda>k v. as_dict k (ensure_dict v)) [] d ''data'') (\<lambda>data.
     bindE (with_default as_str [] d ''id'') (\<lambda>id.
     bindE (required as_str d ''name'') (\<lambda>name.
     bindE (with_default as_int 0 d ''ts'') (\<lambda>ts.
       Inr \<lparr>ev_data = data, ev_id = id, ev_name = name, ev_ts = ts\<rparr>)))))"

definition Event_to_dict :: "event \<Rightarrow> exc + (string, pyobj) dict" where
  "Event_to_dict e = to_dict_json
     [(''data'', PDict (ev_data e)), (''id'', PStr (ev_id e)), (''name'', PStr (ev_name e)),
      (''ts'', PInt (ev_ts e))]"

section \<open>Execution requests\<close>

record server_request_ctx =
  ctx_attempt :: int
  ctx_disable_immediate_execution :: bool
  ctx_max_attempts :: "int option"
  ctx_run_id :: string
  ctx_stack :: "string list option"

record server_request =
  req_ctx :: server_request_ctx
  req_event :: event
  req_events :: "event list option"
  req_steps :: "(string, pyobj) dict"
  req_use_api :: bool

definition ServerRequestCtxStack_validate :: "string \<Rightarrow> pyobj \<Rightarrow> exc + string list option" where
  "ServerRequestCtxStack_validate k v =
     bindE (as_dict k v) (\<lambda>d.
     optional (\<lambda>k v. bindE (as_list k v) (map_sum_list (as_str k))) d ''stack'')"

definition ServerRequestCtx_validate :: "string \<Rightarrow> pyobj \<Rightarrow> exc + server_request_ctx" where
  "ServerRequestCtx_validate k v =
     bindE (as_dict k v) (\<lambda>d.
     bindE (required as_int d ''attempt'') (\<lambda>attempt.
     bindE (required as_bool d ''disable_immediate_execution'') (\<lambda>disable.
     bindE (optional as_int d ''max_attempts'') (\<lambda>max_attempts.
     bindE (required as_str d ''run_id'') (\<lambda>run_id.
     bindE (required ServerRequestCtxStack_validate d ''stack'') (\<lambda>stack.
       Inr \<lparr>ctx_attempt = attempt, ctx_disable_immediate_execution = disable,
            ctx_max_attempts = max_attempts, ctx_run_id = run_id, ctx_stack = stack\<rparr>))))))"

definition ServerRequest_validate :: "pyobj \<Rightarrow> exc + server_request" where
  "ServerRequest_validate v =
     bindE (as_dict ''ServerRequest'' v) (\<lambda>d.
     bindE (required ServerRequestCtx_validate d ''ctx'') (\<lambda>ctx.
     bindE (required (\<lambda>k. Event_validate) d ''event'') (\<lambda>event.
     bindE (optional (\<lambda>k v. bindE (as_list k v) (map_sum_list Event_validate)) d ''events'') (\<lambda>events.
     bindE (required as_dict d ''steps'') (\<lambda>steps.
     bindE (required as_bool d ''use_api'') (\<lambda>use_api.
       Inr \<lparr>req_ctx = ctx, req_event = event, req_events = events, req_steps = steps,
            req_use_api = use_api\<rparr>))))))"

section \<open>Function configuration\<close>

record batch =
  batch_max_size :: int
  batch_timeout :: "duration option"
  batch_key :: "string option"
  batch_if_exp :: "string option"

record cancel =
  cancel_event :: string
  cancel_if_exp :: "string option"
  cancel_timeout :: "duration option"

record concurrency =
  conc_key :: "string option"
  conc_limit :: int
  conc_scope :: "string option"

record debounce =
  deb_key :: "string option"
  deb_period :: duration
  deb_timeout :: "duration option"

record rate_limit =
  rate_key :: "string option"
  rate_limit_limit :: int
  rate_period :: duration

record runtime =
  rt_type :: string
  rt_url :: string

record step_config =
  sc_id :: string
  sc_name :: string
  sc_retries :: "int option"
  sc_runtime :: runtime

record throttle =
  thr_key :: "string option"
  thr_limit :: int
  thr_period :: duration
  thr_burst :: "int option"

record timeouts =
  to_start :: "duration option"
  to_finish :: "duration option"

record singleton =
  sing_key :: "string option"
  sing_mode :: string

datatype trigger =
    TriggerCron string "string option"
  | TriggerEvent string "string option"

record function_config =
  fc_batch_events :: "batch option"
  fc_cancel :: "cancel list option"
  fc_concurrency :: "concurrency list option"
  fc_debounce :: "debounce option"
  fc_id :: string
  fc_idempotency :: "string option"
  fc_name :: "string option"
  fc_priority :: "string option"
  fc_rate_limit :: "rate_limit option"
  fc_steps :: "(string, step_config) dict"
  fc_throttle :: "throttle option"
  fc_timeouts :: "timeouts option"
  fc_singleton :: "singleton option"
  fc_triggers :: "trigger list"

text \<open>
  The field serializers of durations: \<open>None\<close> stays, an error of \<open>to_duration_str\<close> is raised and
  reaches the caller of \<open>to_dict\<close> as pydantic's serialization error.
\<close>

definition serialize_duration :: "string \<Rightarrow> duration option \<Rightarrow> exc + pyobj" where
  "serialize_duration fn v =
     (case v of None \<Rightarrow> Inr PNone
      | Some d \<Rightarrow> (case to_duration_str d of
          Inl e \<Rightarrow> Inl (PyExc ''PydanticSerializationError''
                     (''Error calling function `'' @ fn @ ''`: '' @ exc_type_name e @ '': '' @ exc_str e))
        | Inr s \<Rightarrow> Inr (PStr s)))"

definition Batch_to_dict :: "batch \<Rightarrow> exc + pyobj" where
  "Batch_to_dict b = bindE (serialize_duration ''serialize_timeout'' (batch_timeout b)) (\<lambda>timeout.
     Inr (PDict [(''maxSize'', PInt (batch_max_size b)), (''timeout'', timeout),
       (''key'', opt_str (batch_key b)), (''if'', opt_str (batch_if_exp b))]))"

definition Cancel_to_dict :: "cancel \<Rightarrow> exc + pyobj" where
  "Cancel_to_dict c = bindE (serialize_duration ''serialize_timeout'' (cancel_timeout c)) (\<lambda>timeout.
     Inr (PDict [(''event'', PStr (cancel_event c)), (''if'', opt_str (cancel_if_exp c)),
       (''timeout'', timeout)]))"

definition Concurrency_to_dict :: "concurrency \<Rightarrow> exc + pyobj" where
  "Concurrency_to_dict c = Inr (PDict [(''key'', opt_str (conc_key c)),
     (''limit'', PInt (conc_limit c)), (''scope'', opt_str (conc_scope c))])"

definition Debounce_to_dict :: "debounce \<Rightarrow> exc + pyobj" where
  "Debounce_to_dict d =
     bindE (serialize_duration ''serialize_period'' (Some (deb_period d))) (\<lambda>period.
     bindE (serialize_duration ''serialize_timeout'' (deb_timeout d)) (\<lambda>timeout.
     Inr (PDict [(''key'', opt_str (deb_key d)), (''period'', period), (''timeout'', timeout)])))"

definition RateLimit_to_dict :: "rate_limit \<Rightarrow> exc + pyobj" where
  "RateLimit_to_dict r = bindE (serialize_duration ''serialize_period'' (Some (rate_period r))) (\<lambda>period.
     Inr (PDict [(''key'', opt_str (rate_key r)), (''limit'', PInt (rate_limit_limit r)),
       (''period'', period)]))"

definition Runtime_to_dict :: "runtime \<Rightarrow> pyobj" where
  "Runtime_to_dict r = PDict [(''type'', PStr (rt_type r)), (''url'', PStr (rt_url r))]"

definition Step_to_dict :: "step_config \<Rightarrow> pyobj" where
  "Step_to_dict s = PDict [(''id'', PStr (sc_id s)), (''name'', PStr (sc_name s)),
     (''retries'', (case sc_retries s of None \<Rightarrow> PNone | Some n \<Rightarrow> PDict [(''attempts'', PInt n)])),
     (''runtime'', Runtime_to_dict (sc_runtime s))]"

definition Throttle_to_dict :: "throttle \<Rightarrow> exc + pyobj" where
  "Throttle_to_dict t = bindE (serialize_duration ''serialize_period'' (Some (thr_period t))) (\<lambda>period.
     Inr (PDict [(''key'', opt_str (thr_key t)), (''limit'', PInt (thr_limit t)),
       (''period'', period), (''burst'', opt_int (thr_burst t))]))"

definition Timeouts_to_dict :: "timeouts \<Rightarrow> exc + pyobj" where
  "Timeouts_to_dict t = bindE (serialize_duration ''serialize_start'' (to_start t)) (\<lambda>start.
     bindE (serialize_duration ''serialize_finish'' (to_finish t)) (\<lambda>finish.
     Inr (PDict [(''start'', start), (''finish'', finish)])))"

definition Singleton_to_dict :: "singleton \<Rightarrow> exc + pyobj" where
  "Singleton_to_dict s = Inr (PDict [(''key'', opt_str (sing_key s)), (''mode'', PStr (sing_mode s))])"

definition Trigger_to_dict :: "trigger \<Rightarrow> pyobj" where
  "Trigger_to_dict t = (case t of
     TriggerCron c j \<Rightarrow> PDict [(''cron'', PStr c), (''jitter'', opt_str j)]
   | TriggerEvent e x \<Rightarrow> PDict [(''event'', PStr e), (''expression'', opt_str x)])"

definition opt_dump :: "('a \<Rightarrow> exc + pyobj) \<Rightarrow> 'a option \<Rightarrow> exc + pyobj" where
  "opt_dump f v = (case v of None \<Rightarrow> Inr PNone | Some x \<Rightarrow> f x)"

definition list_dump :: "('a \<Rightarrow> exc + pyobj) \<Rightarrow> 'a list \<Rightarrow> exc + pyobj" where
  "list_dump f xs = bindE (map_sum_list f xs) (\<lambda>ys. Inr (PList ys))"

definition FunctionConfig_to_dict :: "function_config \<Rightarrow> exc + pyobj" where
  "FunctionConfig_to_dict c =
     bindE (opt_dump Batch_to_dict (fc_batch_events c)) (\<lambda>batch_events.
     bindE (opt_dump (list_dump Cancel_to_dict) (fc_cancel c)) (\<lambda>cancel.
     bindE (opt_dump (list_dump Concurrency_to_dict) (fc_concurrency c)) (\<lambda>concurrency.
     bindE (opt_dump Debounce_to_dict (fc_debounce c)) (\<lambda>debounce.
     bindE (opt_dump RateLimit_to_dict (fc_rate_limit c)) (\<lambda>rate_limit.
     bindE (opt_dump Throttle_to_dict (fc_throttle c)) (\<lambda>throttle.
     bindE (opt_dump Timeouts_to_dict (fc_timeouts c)) (\<lambda>timeouts.
     bindE (opt_dump Singleton_to_dict (fc_singleton c)) (\<lambda>singleton.
     Inr (PDict
       [(''batchEvents'', batch_events), (''cancel'', cancel), (''concurrency'', concurrency),
        (''debounce'', debounce), (''id'', PStr (fc_id c)), (''idempotency'', opt_str (fc_idempotency c)),
        (''name'', opt_str (fc_name c)),
        (''priority'', (case fc_priority c of None \<Rightarrow> PNone | Some r \<Rightarrow> PDict [(''run'', PStr r)])),
        (''rateLimit'', rate_limit),
        (''steps'', PDict (map (\<lambda>(k, s). (k, Step_to_dict s)) (fc_steps c))),
        (''throttle'', throttle), (''timeouts'', timeouts), (''singleton'', singleton),
        (''triggers'', PList (map Trigger_to_dict (fc_triggers c)))])))))))))"

text \<open>\<open>Retries(attempts=n)\<close>: the constraint \<open>ge=0\<close> fails as \<open>FunctionConfigInvalidError\<close>.\<close>

definition mk_Retries :: "int \<Rightarrow> exc + int" where
  "mk_Retries n = (if 0 \<le> n then Inr n
     else Inl (LibErr C_FunctionConfigInvalidError
       ''attempts: Input should be greater than or equal to 0''))"

section \<open>Inspection and synchronization\<close>

definition Capabilities_to_dict :: pyobj where
  "Capabilities_to_dict = PDict [(''connect'', PStr ''v1''), (''in_band_sync'', PStr ''v1''),
     (''trust_probe'', PStr ''v1'')]"

record unauthenticated_inspection =
  ui_function_count :: int
  ui_has_event_key :: bool
  ui_has_signing_key :: bool
  ui_has_signing_key_fallback :: bool
  ui_mode :: server_kind

record authenticated_inspection =
  ai_api_origin :: string
  ai_app_id :: string
  ai_env :: "string option"
  ai_event_api_origin :: string
  ai_event_key_hash :: "string option"
  ai_framework :: string
  ai_function_count :: int
  ai_has_event_key :: bool
  ai_has_signing_key :: bool
  ai_has_signing_key_fallback :: bool
  ai_mode :: server_kind
  ai_serve_origin :: "string option"
  ai_serve_path :: "string option"
  ai_signing_key_fallback_hash :: "string option"
  ai_signing_key_hash :: "string option"

definition UnauthenticatedInspection_to_dict :: "unauthenticated_inspection \<Rightarrow> (string, pyobj) dict" where
  "UnauthenticatedInspection_to_dict u =
     [(''schema_version'', PStr ''2024-05-24''), (''function_count'', PInt (ui_function_count u)),
      (''has_event_key'', PBool (ui_has_event_key u)), (''has_signing_key'', PBool (ui_has_signing_key u)),
      (''has_signing_key_fallback'', PBool (ui_has_signing_key_fallback u)),
      (''mode'', PStr (server_kind_value (ui_mode u)))]"

text \<open>\<open>version\<close> is \<open>const.VERSION\<close>, the version of the installed package.\<close>

definition AuthenticatedInspection_to_dict ::
  "string \<Rightarrow> authenticated_inspection \<Rightarrow> (string, pyobj) dict" where
  "AuthenticatedInspection_to_dict version a =
     [(''schema_version'', PStr ''2024-05-24''), (''api_origin'', PStr (ai_api_origin a)),
      (''app_id'', PStr (ai_app_id a)), (''authentication_succeeded'', PBool True),
      (''capabilities'', Capabilities_to_dict), (''env'', opt_str (ai_env a)),
      (''event_api_origin'', PStr (ai_event_api_origin a)),
      (''event_key_hash'', opt_str (ai_event_key_hash a)), (''framework'', PStr (ai_framework a)),
      (''function_count'', PInt (ai_function_count a)), (''has_event_key'', PBool (ai_has_event_key a)),
      (''has_signing_key'', PBool (ai_has_signing_key a)),
      (''has_signing_key_fallback'', PBool (ai_has_signing_key_fallback a)),
      (''mode'', PStr (server_kind_value (ai_mode a))), (''sdk_language'', PStr LANGUAGE),
      (''sdk_version'', PStr version), (''serve_origin'', opt_str (ai_serve_origin a)),
      (''serve_path'', opt_str (ai_serve_path a)),
      (''signing_key_fallback_hash'', opt_str (ai_signing_key_fallback_hash a)),
      (''signing_key_hash'', opt_str (ai_signing_key_hash a))]"

record synchronize_request =
  sr_app_name :: string
  sr_app_version :: "string option"
  sr_framework :: framework
  sr_functions :: "function_config list"
  sr_sdk :: string
  sr_url :: string
  sr_v :: string

definition SynchronizeRequest_to_dict :: "synchronize_request \<Rightarrow> exc + pyobj" where
  "SynchronizeRequest_to_dict s =
     bindE (list_dump FunctionConfig_to_dict (sr_functions s)) (\<lambda>functions.
     Inr (PDict [(''appname'', PStr (sr_app_name s)), (''appVersion'', opt_str (sr_app_version s)),
       (''capabilities'', Capabilities_to_dict), (''deploy_type'', PStr (deploy_type_value DT_PING)),
       (''framework'', PStr (framework_value (sr_framework s))), (''functions'', functions),
       (''sdk'', PStr (sr_sdk s)), (''url'', PStr (sr_url s)), (''v'', PStr (sr_v s))]))"

definition InBandSynchronizeRequest_validate :: "pyobj \<Rightarrow> exc + string" where
  "InBandSynchronizeRequest_validate v =
     bindE (as_dict ''InBandSynchronizeRequest'' v) (\<lambda>d. required as_str d ''url'')"

record in_band_response =
  ib_app_id :: string
  ib_app_version :: "string option"
  ib_env :: "string option"
  ib_framework :: framework
  ib_functions :: "function_config list"
  ib_inspection :: authenticated_inspection
  ib_platform :: "string option"
  ib_url :: string

definition InBandSynchronizeResponse_to_dict :: "string \<Rightarrow> in_band_response \<Rightarrow> exc + pyobj" where
  "InBandSynchronizeResponse_to_dict version r =
     bindE (list_dump FunctionConfig_to_dict (ib_functions r)) (\<lambda>functions.
     Inr (PDict [(''app_id'', PStr (ib_app_id r)), (''appVersion'', opt_str (ib_app_version r)),
       (''env'', opt_str (ib_env r)), (''framework'', PStr (framework_value (ib_framework r))),
       (''functions'', functions),
       (''inspection'', PDict (AuthenticatedInspection_to_dict version (ib_inspection r))),
       (''platform'', opt_str (ib_platform r)), (''sdk_author'', PStr AUTHOR),
       (''sdk_language'', PStr LANGUAGE), (''sdk_version'', PStr version), (''url'', PStr (ib_url r))]))"

end
