(* ===== verification/StepBase.thy ===== *)
theory StepBase
  imports Server
begin

text \<open>
  \<open>_internal/step_lib/base.py\<close>: memoized step output, the step identifier counter, step descriptions
  and responses, and the interrupts, which derive from \<open>BaseException\<close> so that user code does not
  catch them.  \<open>raised\<close> is what can propagate out of a Python call here.
\<close>

section \<open>Memoized output\<close>

record memoized_error =
  me_message :: string
  me_name :: string
  me_stack :: "string option"

record step_output =
  out_data :: pyobj
  out_error :: "memoized_error option"

definition MemoizedError_validate :: "string \<Rightarrow> pyobj \<Rightarrow> exc + memoized_error" where
  "MemoizedError_validate k v =
     bindE (as_dict k v) (\<lambda>d.
     bindE (required as_str d ''message'') (\<lambda>message.
     bindE (required as_str d ''name'') (\<lambda>name.
     bindE (optional as_str d ''stack'') (\<lambda>stack.
       Inr \<lparr>me_message = message, me_name = name, me_stack = stack\<rparr>))))"

definition MemoizedError_from_error :: "(exc \<Rightarrow> string) \<Rightarrow> exc \<Rightarrow> memoized_error" where
  "MemoizedError_from_error tb err =
     \<lparr>me_message = exc_str err, me_name = exc_type_name err, me_stack = Some (tb err)\<rparr>"

text \<open>\<open>extra="forbid"\<close>: a dictionary with any other key is not an \<open>Output\<close>.\<close>

definition Output_validate :: "pyobj \<Rightarrow> exc + step_output" where
  "Output_validate v =
     bindE (as_dict ''Output'' v) (\<lambda>d.
     if \<not> list_all (\<lambda>k. k = ''data'' \<or> k = ''error'') (dkeys d)
     then Inl (ValidationError ''Extra inputs are not permitted'')
     else bindE (with_default (\<lambda>k x. Inr x) PNone d ''data'') (\<lambda>data.
          bindE (optional MemoizedError_validate d ''error'') (\<lambda>error.
            Inr \<lparr>out_data = data, out_error = error\<rparr>)))"

type_synonym memos = "(string, step_output) dict"

definition StepMemos_size :: "memos \<Rightarrow> nat" where
  "StepMemos_size m = length m"

definition StepMemos_pop :: "memos \<Rightarrow> string \<Rightarrow> step_output option \<times> memos" where
  \<comment> \<open>\<open>None\<close> is \<open>types.empty_sentinel\<close>\<close>
  "StepMemos_pop m hashed_id =
     (case dget m hashed_id of
        Some memo \<Rightarrow> (Some memo, ddel m hashed_id)
      | None \<Rightarrow> (None, m))"

text \<open>A raw value that is not shaped like an \<open>Output\<close> becomes the data of one.\<close>

definition memo_of_raw :: "(bytes \<Rightarrow> exc + pyobj) \<Rightarrow> pyobj \<Rightarrow> step_output" where
  "memo_of_raw pyd_json v =
     (case from_raw pyd_json Output_validate v of
        Inl e \<Rightarrow> \<lparr>out_data = v, out_error = None\<rparr>
      | Inr output \<Rightarrow> output)"

definition StepMemos_from_raw :: "(bytes \<Rightarrow> exc + pyobj) \<Rightarrow> (string, pyobj) dict \<Rightarrow> memos" where
  "StepMemos_from_raw pyd_json raw = map (\<lambda>(k, v). (k, memo_of_raw pyd_json v)) raw"

section \<open>Step identifiers\<close>

type_synonym id_counts = "(string, nat) dict"

definition StepIDCounter_increment :: "id_counts \<Rightarrow> string \<Rightarrow> nat \<times> id_counts" where
  "StepIDCounter_increment counts sid =
     (let counts1 = (if dhas counts sid then counts else dset counts sid 0);
          n = (case dget counts1 sid of Some n \<Rightarrow> n | None \<Rightarrow> 0) + 1
      in (n, dset counts1 sid n))"

record step_userland_info =
  ul_id :: string
  ul_index :: "nat option"

record parsed_step_id =
  ps_hashed :: string
  ps_user_facing :: string
  ps_index :: "nat option"

definition userland_info :: "parsed_step_id \<Rightarrow> step_userland_info" where
  "userland_info p = \<lparr>ul_id = ps_user_facing p, ul_index = ps_index p\<rparr>"

definition parse_step_id :: "(bytes \<Rightarrow> string) \<Rightarrow> id_counts \<Rightarrow> string \<Rightarrow> parsed_step_id \<times> id_counts" where
  "parse_step_id sha1 counts step_id =
     (let (id_count, counts') = StepIDCounter_increment counts step_id;
          pre_hashed = (if id_count > 1 then step_id @ '':'' @ str_of_nat (id_count - 1) else step_id)
      in (\<lparr>ps_hashed = hash_step_id sha1 pre_hashed, ps_user_facing = step_id,
           ps_index = (if id_count > 1 then Some (id_count - 1) else None)\<rparr>, counts'))"

section \<open>Step descriptions, responses and interrupts\<close>

record step_info =
  si_display_name :: string
  si_id :: string
  si_name :: "string option"
  si_op :: opcode
  si_opts :: "(string, pyobj) dict option"
  si_userland :: "step_userland_info option"

definition set_parallel_mode :: "parallel_mode \<Rightarrow> step_info \<Rightarrow> step_info" where
  "set_parallel_mode parallel_mode s =
     (if parallel_mode \<noteq> PM_RACE then s
      else (let opts = (case si_opts s of None \<Rightarrow> [] | Some d \<Rightarrow> d) in
            s\<lparr>si_opts := Some (dset opts (opt_key_value OK_PARALLEL_MODE)
                                    (PStr (parallel_mode_value parallel_mode)))\<rparr>))"

definition userland_to_pyobj :: "step_userland_info option \<Rightarrow> pyobj" where
  "userland_to_pyobj u = (case u of None \<Rightarrow> PNone
     | Some i \<Rightarrow> PDict [(''id'', PStr (ul_id i)), (''index'', opt_int (map_option int (ul_index i)))])"

definition StepInfo_to_dict :: "step_info \<Rightarrow> exc + (string, pyobj) dict" where
  "StepInfo_to_dict s = to_dict_json
     [(''displayName'', PStr (si_display_name s)), (''id'', PStr (si_id s)),
      (''name'', opt_str (si_name s)), (''op'', PStr (opcode_value (si_op s))),
      (''opts'', (case si_opts s of None \<Rightarrow> PNone | Some d \<Rightarrow> PDict d)),
      (''userland'', userland_to_pyobj (si_userland s))]"

record step_response =
  sp_output :: pyobj
  sp_original_error :: "exc option"
  sp_step :: step_info

text \<open>\<open>StepResponse(step=...)\<close> with the defaults of the other fields.\<close>

definition mk_StepResponse :: "step_info \<Rightarrow> step_response" where
  "mk_StepResponse step = \<lparr>sp_output = PNone, sp_original_error = None, sp_step = step\<rparr>"

datatype raised =
    Raised exc
  | ResponseInterrupt "step_response list"
  | SkipInterrupt string
  | NestedStepInterrupt

definition set_step_info :: "step_info \<Rightarrow> step_response list \<Rightarrow> step_response list" where
  "set_step_info step_info responses = map (\<lambda>r. r\<lparr>sp_step := step_info\<rparr>) responses"

section \<open>Lemmas\<close>

text \<open>\<open>pop\<close> removes exactly the memo it returns, so no memo is delivered twice.\<close>

lemma StepMemos_pop_hit:
  "dget m k = Some memo \<Longrightarrow> StepMemos_pop m k = (Some memo, ddel m k)"
  by (simp add: StepMemos_pop_def)

lemma StepMemos_pop_miss: "dget m k = None \<Longrightarrow> StepMemos_pop m k = (None, m)"
  by (simp add: StepMemos_pop_def)

lemma StepMemos_pop_frame:
  "dget (snd (StepMemos_pop m k)) k' = (if k' = k then None else dget m k')"
  by (simp add: StepMemos_pop_def split: option.split)

lemma StepMemos_pop_inv: "dict_inv m \<Longrightarrow> dict_inv (snd (StepMemos_pop m k))"
  by (auto simp: StepMemos_pop_def split: option.split)

lemma StepMemos_pop_size:
  "dict_inv m \<Longrightarrow> StepMemos_size m =
     StepMemos_size (snd (StepMemos_pop m k)) + (if fst (StepMemos_pop m k) = None then 0 else 1)"
  by (auto simp: StepMemos_pop_def StepMemos_size_def dest: length_ddel split: option.split)

lemma StepIDCounter_increment_eq:
  "StepIDCounter_increment counts sid =
     (Suc (case dget counts sid of None \<Rightarrow> 0 | Some n \<Rightarrow> n),
      dset (if dhas counts sid then counts else dset counts sid 0) sid
        (Suc (case dget counts sid of None \<Rightarrow> 0 | Some n \<Rightarrow> n)))"
  by (auto simp: StepIDCounter_increment_def dhas_iff_dget split: option.split)

lemma dget_increment:
  "dget (snd (StepIDCounter_increment counts sid)) sid' =
     (if sid' = sid then Some (Suc (case dget counts sid of None \<Rightarrow> 0 | Some n \<Rightarrow> n)) else dget counts sid')"
  by (simp add: StepIDCounter_increment_eq)

text \<open>The text that is hashed for the \<open>n\<close>-th use (from 1) of a step identifier.\<close>

definition pre_hash :: "string \<Rightarrow> nat \<Rightarrow> string" where
  "pre_hash step_id n = (if n > 1 then step_id @ '':'' @ str_of_nat (n - 1) else step_id)"

lemma parse_step_id_eq:
  "parse_step_id sha1 counts step_id =
     (let n = fst (StepIDCounter_increment counts step_id) in
      (\<lparr>ps_hashed = hash_step_id sha1 (pre_hash step_id n), ps_user_facing = step_id,
        ps_index = (if n > 1 then Some (n - 1) else None)\<rparr>,
       snd (StepIDCounter_increment counts step_id)))"
  by (simp add: parse_step_id_def pre_hash_def Let_def split: prod.split)

text \<open>Successive identifiers: run \<open>parse_step_id\<close> over a list of user identifiers.\<close>

fun parse_all :: "(bytes \<Rightarrow> string) \<Rightarrow> id_counts \<Rightarrow> string list \<Rightarrow> parsed_step_id list" where
  "parse_all sha1 counts [] = []"
| "parse_all sha1 counts (s # ss) =
     (case parse_step_id sha1 counts s of (p, counts') \<Rightarrow> p # parse_all sha1 counts' ss)"

lemma parse_all_nth:
  "i < length ss \<Longrightarrow> parse_all sha1 counts ss ! i =
     (let n = Suc (count_list (take i ss) (ss ! i)
                   + (case dget counts (ss ! i) of None \<Rightarrow> 0 | Some n \<Rightarrow> n)) in
      \<lparr>ps_hashed = hash_step_id sha1 (pre_hash (ss ! i) n), ps_user_facing = ss ! i,
       ps_index = (if n > 1 then Some (n - 1) else None)\<rparr>)"
proof (induction ss arbitrary: counts i)
  case (Cons s ss)
  show ?case
  proof (cases i)
    case 0
    then show ?thesis
      by (simp add: parse_step_id_eq StepIDCounter_increment_eq Let_def)
  next
    case (Suc j)
    with Cons.prems have j: "j < length ss" by simp
    show ?thesis
      using Cons.IH [OF j, of "snd (StepIDCounter_increment counts s)"] Suc
      by (simp add: parse_step_id_eq dget_increment Let_def)
  qed
qed simp

lemma length_parse_all: "length (parse_all sha1 counts ss) = length ss"
  by (induction ss arbitrary: counts) (auto split: prod.split)

text \<open>Two uses hash the same text only when one identifier imitates the other's suffix.\<close>

lemma str_of_nat_inj: "str_of_nat m = str_of_nat n \<Longrightarrow> m = n"
  by (metis nat_of_str_of_nat)

lemma count_list_take_less:
  "i < j \<Longrightarrow> j < length ss \<Longrightarrow> ss ! i = ss ! j
   \<Longrightarrow> count_list (take i ss) (ss ! i) < count_list (take j ss) (ss ! j)"
proof -
  assume ij: "i < j" "j < length ss" and eq: "ss ! i = ss ! j"
  then have len: "i < length (take j ss)" by simp
  have tail: "drop i (take j ss) = (ss ! i) # drop (Suc i) (take j ss)"
    using Cons_nth_drop_Suc [OF len] ij by simp
  have "count_list (take j ss) (ss ! j) =
      count_list (take i (take j ss) @ drop i (take j ss)) (ss ! j)"
    by (simp only: append_take_drop_id)
  also have "\<dots> = count_list (take i ss) (ss ! j) + Suc (count_list (drop (Suc i) (take j ss)) (ss ! j))"
    using ij eq by (simp add: tail count_list_append min_def)
  finally show ?thesis using eq by simp
qed

lemma count_list_take_nth:
  "i < length ss \<Longrightarrow> count_list (take i ss) (ss ! i) < count_list ss (ss ! i)"
  by (subst (2) id_take_nth_drop [of i ss]) (simp_all add: count_list_append)

lemma count_list_occurrence:
  "k < count_list ss s \<Longrightarrow> \<exists>j < length ss. ss ! j = s \<and> count_list (take j ss) s = k"
proof (induction ss rule: rev_induct)
  case (snoc x ss)
  show ?case
  proof (cases "k < count_list ss s")
    case True
    with snoc.IH obtain j where "j < length ss" "ss ! j = s" "count_list (take j ss) s = k" by blast
    then show ?thesis by (intro exI [of _ j]) (simp add: nth_append)
  next
    case False
    with snoc.prems show ?thesis
      by (intro exI [of _ "length ss"]) (auto simp: count_list_append split: if_splits)
  qed
qed simp

text \<open>A suffix of the form \<open>:n\<close> can be read off the end of a text.\<close>

lemma colon_suffix_inj:
  assumes "a @ '':'' @ str_of_nat m = b @ '':'' @ str_of_nat n"
  shows "a = b \<and> m = n"
proof -
  have digits: "CHR '':'' \<notin> set (str_of_nat k)" for k
    using str_of_nat_digits [of k] by (auto simp: list_all_iff is_digit_def)
  have tw: "takeWhile (\<lambda>c. c \<noteq> CHR '':'') (rev (x @ '':'' @ str_of_nat k)) = rev (str_of_nat k)" for x k
    using digits [of k] by (subst rev_append) (auto simp: takeWhile_append2 takeWhile_tail)
  from assms tw [of a m] tw [of b n] have "str_of_nat m = str_of_nat n" by simp
  with assms show ?thesis by (auto dest: str_of_nat_inj)
qed

text \<open>The texts that are hashed for a run, and when two of them are equal.\<close>

definition step_text :: "string list \<Rightarrow> nat \<Rightarrow> string" where
  "step_text ss i = pre_hash (ss ! i) (Suc (count_list (take i ss) (ss ! i)))"

definition imitated :: "string list \<Rightarrow> bool" where
  "imitated ss = (\<exists>s \<in> set ss. \<exists>k \<in> {0<..<count_list ss s}. s @ '':'' @ str_of_nat k \<in> set ss)"

lemma step_text_equal:
  assumes ij: "i < j" "j < length ss" and eq: "step_text ss i = step_text ss j"
  shows "imitated ss"
proof -
  let ?m = "count_list (take i ss) (ss ! i)" and ?n = "count_list (take j ss) (ss ! j)"
  note less = count_list_take_less [OF ij]
  have mem: "ss ! i \<in> set ss" "ss ! j \<in> set ss" and count: "?m < count_list ss (ss ! i)" "?n < count_list ss (ss ! j)"
    using ij count_list_take_nth [of i ss] count_list_take_nth [of j ss] by simp_all
  consider "?m = 0" "?n = 0" | "?m = 0" "0 < ?n" | "0 < ?m" "?n = 0" | "0 < ?m" "0 < ?n" by blast
  then show ?thesis
  proof cases
    case 1
    then have "ss ! i = ss ! j" using eq by (simp add: step_text_def pre_hash_def)
    with less 1 show ?thesis by simp
  next
    case 2
    then have "ss ! i = ss ! j @ '':'' @ str_of_nat ?n" using eq by (simp add: step_text_def pre_hash_def)
    with 2 mem count show ?thesis unfolding imitated_def by (metis greaterThanLessThan_iff)
  next
    case 3
    then have "ss ! j = ss ! i @ '':'' @ str_of_nat ?m" using eq by (simp add: step_text_def pre_hash_def)
    with 3 mem count show ?thesis unfolding imitated_def by (metis greaterThanLessThan_iff)
  next
    case 4
    then have "ss ! i @ '':'' @ str_of_nat ?m = ss ! j @ '':'' @ str_of_nat ?n" using eq by (simp add: step_text_def pre_hash_def)
    from colon_suffix_inj [OF this] less show ?thesis by auto
  qed
qed

lemma imitated_texts:
  assumes "imitated ss"
  obtains i j where "i < length ss" "j < length ss" "i \<noteq> j" "step_text ss i = step_text ss j"
proof -
  obtain s k where k: "0 < k" "k < count_list ss s" and t: "s @ '':'' @ str_of_nat k \<in> set ss"
    using assms by (auto simp: imitated_def)
  then have "0 < count_list ss (s @ '':'' @ str_of_nat k)" by (metis count_list_0_iff gr0I)
  from count_list_occurrence [OF this] count_list_occurrence [OF k(2)] obtain i j where
    i: "i < length ss" "ss ! i = s @ '':'' @ str_of_nat k" "count_list (take i ss) (ss ! i) = 0" and
    j: "j < length ss" "ss ! j = s" "count_list (take j ss) s = k"
    by metis
  moreover have "step_text ss i = step_text ss j" using i j k by (simp add: step_text_def pre_hash_def)
  moreover have "i \<noteq> j" using i j by auto
  ultimately show thesis by (intro that)
qed

lemma hashed_text:
  "i < length ss \<Longrightarrow> ps_hashed (parse_all sha1 [] ss ! i) = sha1 (utf8 (step_text ss i))"
  by (simp add: parse_all_nth hash_step_id_def step_text_def Let_def)

lemma step_text_mem:
  "i < length ss \<Longrightarrow> step_text ss i \<in> {pre_hash s n |s n. s \<in> set ss \<and> n \<le> length ss}"
  using count_list_take_nth [of i ss] count_le_length [of ss "ss ! i"] unfolding step_text_def
  by (auto intro!: exI [of _ "ss ! i"] exI [of _ "Suc (count_list (take i ss) (ss ! i))"])

lemma parse_all_hashed_iff:
  assumes inj: "inj_on sha1 (utf8 ` {pre_hash s n |s n. s \<in> set ss \<and> n \<le> length ss})"
  shows "distinct (map ps_hashed (parse_all sha1 [] ss)) \<longleftrightarrow> \<not> imitated ss"
proof -
  have eq: "ps_hashed (parse_all sha1 [] ss ! i) = ps_hashed (parse_all sha1 [] ss ! j) \<longleftrightarrow> step_text ss i = step_text ss j"
    if "i < length ss" "j < length ss" for i j
    using that inj_on_eq_iff [OF inj imageI [OF step_text_mem] imageI [OF step_text_mem], of i j]
    by (simp add: hashed_text utf8_inj)
  have "distinct (map ps_hashed (parse_all sha1 [] ss))
      \<longleftrightarrow> (\<forall>i < length ss. \<forall>j < length ss. i \<noteq> j \<longrightarrow> step_text ss i \<noteq> step_text ss j)"
    by (auto simp: distinct_conv_nth length_parse_all eq)
  also have "\<dots> \<longleftrightarrow> \<not> imitated ss"
    using step_text_equal [of _ _ ss] imitated_texts [of ss] by (metis linorder_neqE_nat)
  finally show ?thesis .
qed

lemma parse_all_hashed_distinct:
  assumes inj: "\<And>x y. sha1 x = sha1 y \<Longrightarrow> x = y"
    and ascii: "\<And>s. s \<in> set ss \<Longrightarrow> list_all (\<lambda>c. (of_char c :: nat) < 128 \<and> c \<noteq> CHR '':'') s"
  shows "distinct (map ps_hashed (parse_all sha1 [] ss))"
proof -
  have "CHR '':'' \<notin> set s" if "s \<in> set ss" for s using ascii [OF that] by (auto simp: list_all_iff)
  then have "\<not> imitated ss" by (force simp: imitated_def)
  moreover have "inj_on sha1 A" for A using inj by (auto simp: inj_on_def)
  ultimately show ?thesis by (simp add: parse_all_hashed_iff)
qed

text \<open>C32: Reused step identifiers are told apart, with one exception.  When the hash has no collision on the texts that the run
  hashes, the steps of a run get pairwise different hashed identifiers, however identifiers are reused and whatever
  characters they are made of, exactly unless one of the identifiers is another one followed by a colon and the number
  of one of its reuses.\<close>

theorem parse_all_distinct:
  assumes "inj_on sha1 (utf8 ` {pre_hash s n |s n. s \<in> set ss \<and> n \<le> length ss})"
  shows "distinct (map ps_hashed (parse_all sha1 [] ss))
    \<longleftrightarrow> \<not> (\<exists>s \<in> set ss. \<exists>k \<in> {0<..<count_list ss s}. s @ '':'' @ str_of_nat k \<in> set ss)"
  using parse_all_hashed_iff [OF assms] by (simp only: imitated_def)

text \<open>Three uses of one identifier beside another are told apart; the identifiers \<open>a\<close>, \<open>a\<close> and \<open>a:1\<close> are not.\<close>

theorem parse_all_distinct_witness:
  "distinct (map ps_hashed (parse_all (\<lambda>b. b) [] [''a'', ''b'', ''a'', ''a'']))
   \<and> \<not> distinct (map ps_hashed (parse_all (\<lambda>b. b) [] [''a'', ''a'', ''a:1'']))"
proof -
  have "str_of_nat 1 = ''1''" "str_of_nat 2 = ''2''" by code_simp+
  then show ?thesis
    using parse_all_distinct [of "\<lambda>b. b" "[''a'', ''b'', ''a'', ''a'']"] parse_all_distinct [of "\<lambda>b. b" "[''a'', ''a'', ''a:1'']"]
    by (auto simp: greaterThanLessThan_def numeral_3_eq_3)
qed

lemma reused_id_collides:
  "map ps_hashed (parse_all sha1 [] [''a'', ''a'', ''a:1'']) = [sha1 ''a'', sha1 ''a:1'', sha1 ''a:1'']"
  by code_simp

end
