(* ===== verification/Middleware.thy ===== *)
theory Middleware
  imports StepBase
begin

text \<open>
  \<open>_internal/middleware_lib\<close> and \<open>_internal/log.py\<close>.  A middleware is a record of its hooks.  A hook
  may read and change what lies outside the SDK (\<open>outside\<close>: whether replay-safe logging is on,
  what was logged, and the state \<open>'u\<close> of the user's own code) and the mutable arguments it is given,
  and it may raise; Python's \<open>iscoroutinefunction\<close> of each hook and \<open>isinstance(m, Middleware)\<close> are
  data of the middleware.  Timing headers are not part of the state.
\<close>

section \<open>Outside state and logging\<close>

record 'u outside =
  logging_enabled :: bool
  logged :: "string list"
  user :: 'u

definition enable_logging :: "'u outside \<Rightarrow> 'u outside" where
  "enable_logging w = w\<lparr>logging_enabled := True\<rparr>"

definition disable_logging :: "'u outside \<Rightarrow> 'u outside" where
  "disable_logging w = w\<lparr>logging_enabled := False\<rparr>"

text \<open>
  A call of one of the proxied methods on \<open>ctx.logger\<close>: a \<open>FilteredLogger\<close> drops it while logging is
  disabled, any other logger emits it.
\<close>

definition logger_call :: "bool \<Rightarrow> string \<Rightarrow> 'u outside \<Rightarrow> 'u outside" where
  "logger_call filtered msg w =
     (if filtered \<and> \<not> logging_enabled w then w else w\<lparr>logged := logged w @ [msg]\<rparr>)"

section \<open>Middleware\<close>

record fn_context =
  cx_attempt :: int
  cx_event :: event
  cx_events :: "event list"
  cx_logger_filtered :: bool
  cx_run_id :: string

record send_events_result =
  ser_error :: "string option"
  ser_ids :: "string list"

record transform_output_step_info =
  ts_id :: string
  ts_op :: opcode
  ts_opts :: "(string, pyobj) dict option"

record transform_output_result =
  tr_error :: "exc option"
  tr_output :: pyobj
  tr_step :: "transform_output_step_info option"

definition has_output :: "transform_output_result \<Rightarrow> bool" where
  "has_output r = (tr_output r \<noteq> PEmpty)"

datatype hook = H_after_execution | H_after_send_events | H_before_execution | H_before_response
  | H_before_send_events | H_transform_input | H_transform_output

text \<open>
  A hook's state is the mutable arguments it receives together with the outside.  The \<open>opts\<close> of a
  \<open>transform_output\<close> result is the dictionary of the step description itself, so what the hook leaves
  there is what the step description holds afterwards.
\<close>

record 'u middleware =
  mw_isinstance_Middleware :: bool
  mw_is_coroutine :: "hook \<Rightarrow> bool"
  mw_after_execution :: "('u outside, exc, unit) M"
  mw_after_send_events :: "send_events_result \<Rightarrow> ('u outside, exc, unit) M"
  mw_before_execution :: "('u outside, exc, unit) M"
  mw_before_response :: "('u outside, exc, unit) M"
  mw_before_send_events :: "(event list \<times> 'u outside, exc, unit) M"
  mw_transform_input :: "((fn_context \<times> memos) \<times> 'u outside, exc, unit) M"
  mw_transform_output :: "(transform_output_result \<times> 'u outside, exc, unit) M"

text \<open>The base classes: every hook returns \<open>None\<close>; those of \<open>Middleware\<close> are coroutine functions.\<close>

definition base_Middleware :: "'u middleware" where
  "base_Middleware = \<lparr>mw_isinstance_Middleware = True, mw_is_coroutine = (\<lambda>h. True),
     mw_after_execution = retM (), mw_after_send_events = (\<lambda>r. retM ()),
     mw_before_execution = retM (), mw_before_response = retM (), mw_before_send_events = retM (),
     mw_transform_input = retM (), mw_transform_output = retM ()\<rparr>"

definition base_MiddlewareSync :: "'u middleware" where
  "base_MiddlewareSync = \<lparr>mw_isinstance_Middleware = False, mw_is_coroutine = (\<lambda>h. False),
     mw_after_execution = retM (), mw_after_send_events = (\<lambda>r. retM ()),
     mw_before_execution = retM (), mw_before_response = retM (), mw_before_send_events = retM (),
     mw_transform_input = retM (), mw_transform_output = retM ()\<rparr>"

text \<open>An \<open>UninitializedMiddleware\<close> is called with the client and the raw request and may raise.\<close>

type_synonym 'u uninit = "('u outside, exc, 'u middleware) M"

definition LoggerMiddleware :: "'u uninit" where
  "LoggerMiddleware = seqM (modifyM disable_logging)
     (retM (base_MiddlewareSync\<lparr>
        mw_before_execution := modifyM enable_logging,
        mw_transform_input := modifyM (\<lambda>((ctx, steps), w). ((ctx\<lparr>cx_logger_filtered := True\<rparr>, steps), w))\<rparr>))"

section \<open>The client's data\<close>

record serializer =
  srz_serialize :: "pyobj \<Rightarrow> string \<Rightarrow> exc + pyobj"
  srz_deserialize :: "pyobj \<Rightarrow> string \<Rightarrow> exc + pyobj"

record 'u client =
  cl_app_id :: string
  cl_app_version :: "string option"
  cl_api_origin :: string
  cl_env :: "string option"
  cl_event_api_origin :: string
  cl_event_key :: "string option"
  cl_is_production :: bool
  cl_middleware :: "'u uninit list"
  cl_mode :: server_kind
  cl_serializer :: "serializer option"
  cl_signing_key :: "string option"
  cl_signing_key_fallback :: "string option"
  cl_httpx_timeout :: int

text \<open>\<open>Inngest._serialize\<close> and \<open>_deserialize\<close>; a type of \<open>None\<close> is \<open>types.EmptySentinel\<close>.\<close>

definition client_serialize :: "'u client \<Rightarrow> pyobj \<Rightarrow> string option \<Rightarrow> exc + pyobj" where
  "client_serialize client obj typ =
     (case cl_serializer client of None \<Rightarrow> Inr obj
      | Some s \<Rightarrow> (case typ of None \<Rightarrow> Inr obj | Some t \<Rightarrow> srz_serialize s obj t))"

definition client_deserialize :: "'u client \<Rightarrow> pyobj \<Rightarrow> string option \<Rightarrow> exc + pyobj" where
  "client_deserialize client obj typ =
     (case cl_serializer client of None \<Rightarrow> Inr obj
      | Some s \<Rightarrow> (case typ of None \<Rightarrow> Inr obj | Some t \<Rightarrow> srz_deserialize s obj t))"

section \<open>The middleware manager\<close>

record 'u manager =
  mg_middleware :: "'u middleware list"
  mg_disabled_hooks :: "string list"

definition mismatched_sync :: exc where
  "mismatched_sync = LibErr C_AsyncUnsupportedError ''encountered async middleware in non-async context''"

definition new_manager :: "'u manager" where
  "new_manager = \<lparr>mg_middleware = [], mg_disabled_hooks = []\<rparr>"

definition manager_add :: "'u uninit \<Rightarrow> 'u manager \<Rightarrow> ('u outside, exc, 'u manager) M" where
  "manager_add m mgr = bindM m (\<lambda>mw. retM (mgr\<lparr>mg_middleware := mg_middleware mgr @ [mw]\<rparr>))"

fun manager_add_all :: "'u uninit list \<Rightarrow> 'u manager \<Rightarrow> ('u outside, exc, 'u manager) M" where
  "manager_add_all [] mgr = retM mgr"
| "manager_add_all (m # ms) mgr = bindM (manager_add m mgr) (manager_add_all ms)"

definition DEFAULT_CLIENT_MIDDLEWARE :: "'u uninit list" where
  "DEFAULT_CLIENT_MIDDLEWARE = [LoggerMiddleware]"

definition from_client :: "'u client \<Rightarrow> ('u outside, exc, 'u manager) M" where
  "from_client client =
     bindM (manager_add_all DEFAULT_CLIENT_MIDDLEWARE new_manager) (manager_add_all (cl_middleware client))"

definition from_manager :: "'u manager \<Rightarrow> 'u manager" where
  "from_manager mgr = foldl (\<lambda>n m. n\<lparr>mg_middleware := mg_middleware n @ [m]\<rparr>) new_manager (mg_middleware mgr)"

text \<open>A loop over hooks that stops at the first exception; the exception is returned.\<close>

fun run_hooks :: "('u middleware \<Rightarrow> ('s, exc, unit) M) \<Rightarrow> 'u middleware list \<Rightarrow> ('s, exc, unit) M" where
  "run_hooks f [] = retM ()"
| "run_hooks f (m # ms) = seqM (f m) (run_hooks f ms)"

text \<open>The same loop in a non-async context: \<open>bad m\<close> ends it with \<open>_mismatched_sync\<close>.\<close>

fun run_hooks_sync :: "('u middleware \<Rightarrow> bool) \<Rightarrow> ('u middleware \<Rightarrow> ('s, exc, unit) M)
    \<Rightarrow> 'u middleware list \<Rightarrow> ('s, exc, unit) M" where
  "run_hooks_sync bad f [] = retM ()"
| "run_hooks_sync bad f (m # ms) =
     (if bad m then raiseM mismatched_sync else seqM (f m) (run_hooks_sync bad f ms))"

definition after_execution :: "'u manager \<Rightarrow> ('u outside, exc, unit) M" where
  "after_execution mgr = run_hooks mw_after_execution (rev (mg_middleware mgr))"

definition after_execution_sync :: "'u manager \<Rightarrow> ('u outside, exc, unit) M" where
  "after_execution_sync mgr =
     run_hooks_sync (\<lambda>m. mw_is_coroutine m H_after_execution) mw_after_execution (rev (mg_middleware mgr))"

definition after_send_events :: "'u manager \<Rightarrow> send_events_result \<Rightarrow> ('u outside, exc, unit) M" where
  "after_send_events mgr result = run_hooks (\<lambda>m. mw_after_send_events m result) (rev (mg_middleware mgr))"

text \<open>
  The check looks at \<open>m.after_execution\<close>.  When that one is not a coroutine function but
  \<open>after_send_events\<close> is, the call only creates a coroutine object, which nobody awaits.
\<close>

definition after_send_events_sync :: "'u manager \<Rightarrow> send_events_result \<Rightarrow> ('u outside, exc, unit) M" where
  "after_send_events_sync mgr result =
     run_hooks_sync (\<lambda>m. mw_is_coroutine m H_after_execution)
       (\<lambda>m. if mw_is_coroutine m H_after_send_events then retM () else mw_after_send_events m result)
       (rev (mg_middleware mgr))"

definition before_execution :: "('u manager \<times> 'u outside, exc, unit) M" where
  "before_execution = (\<lambda>(mgr, w).
     if ''before_execution'' \<in> set (mg_disabled_hooks mgr) then (Inr (), (mgr, w))
     else (let mgr' = mgr\<lparr>mg_disabled_hooks := ''before_execution'' # mg_disabled_hooks mgr\<rparr> in
           case run_hooks mw_before_execution (mg_middleware mgr') w of (r, w') \<Rightarrow> (r, (mgr', w'))))"

definition before_execution_sync :: "('u manager \<times> 'u outside, exc, unit) M" where
  "before_execution_sync = (\<lambda>(mgr, w).
     if ''before_execution'' \<in> set (mg_disabled_hooks mgr) then (Inr (), (mgr, w))
     else (let mgr' = mgr\<lparr>mg_disabled_hooks := ''before_execution'' # mg_disabled_hooks mgr\<rparr> in
           case run_hooks_sync (\<lambda>m. mw_is_coroutine m H_before_execution) mw_before_execution
                  (mg_middleware mgr') w of (r, w') \<Rightarrow> (r, (mgr', w'))))"

definition before_response :: "'u manager \<Rightarrow> ('u outside, exc, unit) M" where
  "before_response mgr = run_hooks mw_before_response (mg_middleware mgr)"

definition before_response_sync :: "'u manager \<Rightarrow> ('u outside, exc, unit) M" where
  "before_response_sync mgr =
     run_hooks_sync (\<lambda>m. mw_is_coroutine m H_before_response) mw_before_response (mg_middleware mgr)"

definition before_send_events :: "'u manager \<Rightarrow> (event list \<times> 'u outside, exc, unit) M" where
  "before_send_events mgr = run_hooks mw_before_send_events (mg_middleware mgr)"

definition before_send_events_sync :: "'u manager \<Rightarrow> (event list \<times> 'u outside, exc, unit) M" where
  "before_send_events_sync mgr =
     run_hooks_sync (\<lambda>m. mw_is_coroutine m H_before_send_events) mw_before_send_events (mg_middleware mgr)"

definition transform_input :: "'u manager \<Rightarrow> ((fn_context \<times> memos) \<times> 'u outside, exc, unit) M" where
  "transform_input mgr = run_hooks mw_transform_input (mg_middleware mgr)"

definition transform_input_sync :: "'u manager \<Rightarrow> ((fn_context \<times> memos) \<times> 'u outside, exc, unit) M" where
  "transform_input_sync mgr =
     run_hooks_sync (\<lambda>m. mw_is_coroutine m H_transform_input) mw_transform_input (mg_middleware mgr)"

section \<open>Results of a call and their transformation\<close>

text \<open>\<open>CallResult\<close> of \<open>execution_lib/models.py\<close>.\<close>

datatype call_result = CallResult
  (cr_error: "exc option") (cr_multi: "call_result list option") (cr_output: pyobj)
  (cr_step: "step_info option")

definition CallResult_error :: "exc \<Rightarrow> call_result" where
  "CallResult_error e = CallResult (Some e) None PEmpty None"

definition CallResult_output :: "pyobj \<Rightarrow> call_result" where
  "CallResult_output v = CallResult None None v None"

definition is_empty :: "call_result \<Rightarrow> bool" where
  "is_empty r = (cr_error r = None \<and> cr_multi r = None \<and> cr_output r = PEmpty \<and> cr_step r = None)"

definition from_responses :: "step_response list \<Rightarrow> call_result" where
  "from_responses responses = CallResult None
     (Some (map (\<lambda>r. CallResult (sp_original_error r) None (sp_output r) (Some (sp_step r))) responses))
     PEmpty None"

definition transform_output_start :: "call_result \<Rightarrow> transform_output_result" where
  "transform_output_start r = \<lparr>tr_error = cr_error r, tr_output = cr_output r,
     tr_step = map_option (\<lambda>s. \<lparr>ts_id = si_display_name s, ts_op = si_op s, ts_opts = si_opts s\<rparr>) (cr_step r)\<rparr>"

text \<open>
  After the hooks: the (possibly) mutated error and output are copied back; the dictionary \<open>opts\<close> is
  shared with the step description.
\<close>

definition transform_output_finish :: "call_result \<Rightarrow> transform_output_result \<Rightarrow> call_result" where
  "transform_output_finish r result = CallResult (tr_error result) (cr_multi r) (tr_output result)
     (map_option (\<lambda>s. s\<lparr>si_opts := (case (si_opts s, tr_step result) of
        (Some d, Some ts) \<Rightarrow> ts_opts ts | _ \<Rightarrow> si_opts s)\<rparr>) (cr_step r))"

text \<open>
  The left is the returned exception.  \<open>call_res.multi[0]\<close> raises on an empty list; that
  \<open>IndexError\<close> is outside the \<open>try\<close> and is the left of the outer sum.
\<close>

definition transform_output_single ::
  "(transform_output_result \<times> 'u outside, exc, unit) M \<Rightarrow> call_result \<Rightarrow> ('u outside, exc, call_result) M" where
  "transform_output_single hooks r = (\<lambda>w.
     if is_empty r then (Inr r, w)
     else (case hooks (transform_output_start r, w) of
             (Inl e, (result, w')) \<Rightarrow> (Inl e, w')
           | (Inr _, (result, w')) \<Rightarrow> (Inr (transform_output_finish r result), w')))"

definition transform_output_with ::
  "(transform_output_result \<times> 'u outside, exc, unit) M \<Rightarrow> call_result
    \<Rightarrow> 'u outside \<Rightarrow> (exc + (exc + call_result)) \<times> 'u outside" where
  "transform_output_with hooks call_res = (\<lambda>w.
     case cr_multi call_res of
       None \<Rightarrow> (case transform_output_single hooks call_res w of (r, w') \<Rightarrow> (Inr r, w'))
     | Some [] \<Rightarrow> (Inl (PyExc ''IndexError'' ''list index out of range''), w)
     | Some [r] \<Rightarrow> (case transform_output_single hooks r w of
           (Inl e, w') \<Rightarrow> (Inr (Inl e), w')
         | (Inr r', w') \<Rightarrow>
             (Inr (Inr (CallResult (cr_error call_res) (Some [r']) (cr_output call_res) (cr_step call_res))), w'))
     | Some (r1 # r2 # rs) \<Rightarrow> (Inr (Inr call_res), w))"

definition transform_output ::
  "'u manager \<Rightarrow> call_result \<Rightarrow> 'u outside \<Rightarrow> (exc + (exc + call_result)) \<times> 'u outside" where
  "transform_output mgr = transform_output_with (run_hooks mw_transform_output (rev (mg_middleware mgr)))"

text \<open>Here the check is \<open>isinstance(m, Middleware)\<close>; an unawaited coroutine of another class has no effect.\<close>

definition transform_output_sync ::
  "'u manager \<Rightarrow> call_result \<Rightarrow> 'u outside \<Rightarrow> (exc + (exc + call_result)) \<times> 'u outside" where
  "transform_output_sync mgr = transform_output_with
     (run_hooks_sync mw_isinstance_Middleware
        (\<lambda>m. if mw_is_coroutine m H_transform_output then retM () else mw_transform_output m)
        (rev (mg_middleware mgr)))"

section \<open>Lemmas\<close>

lemma run_hooks_append: "run_hooks f (ms @ ns) = seqM (run_hooks f ms) (run_hooks f ns)"
  by (induction ms) (simp_all add: seqM_def bindM_assoc)

lemma run_hooks_sync_eq: "list_all (\<lambda>m. \<not> bad m) ms \<Longrightarrow> run_hooks_sync bad f ms = run_hooks f ms"
  by (induction ms) auto

lemma run_hooks_cong: "(\<And>m. m \<in> set ms \<Longrightarrow> f m = g m) \<Longrightarrow> run_hooks f ms = run_hooks g ms"
  by (induction ms) auto

text \<open>A hook loop whose hooks are all the base class's does nothing.\<close>

lemma run_hooks_ret: "(\<And>m. m \<in> set ms \<Longrightarrow> f m = retM ()) \<Longrightarrow> run_hooks f ms = retM ()"
  by (induction ms) (auto simp: seqM_def)

text \<open>The middleware of a manager that a non-async context accepts throughout.\<close>

definition sync_ok :: "'u manager \<Rightarrow> bool" where
  "sync_ok mgr = list_all (\<lambda>m. \<not> mw_isinstance_Middleware m \<and> (\<forall>h. \<not> mw_is_coroutine m h)) (mg_middleware mgr)"

lemma before_execution_once:
  "before_execution (snd (before_execution s)) = (Inr (), snd (before_execution s))"
  by (auto simp: before_execution_def Let_def split: prod.splits if_splits)

lemma manager_sync_facts:
  assumes ok: "sync_ok mgr"
  shows "after_execution_sync mgr = after_execution mgr"
    and "after_send_events_sync mgr r = after_send_events mgr r"
    and "before_execution_sync (mgr, w) = before_execution (mgr, w)"
    and "before_response_sync mgr = before_response mgr"
    and "before_send_events_sync mgr = before_send_events mgr"
    and "transform_input_sync mgr = transform_input mgr"
    and "transform_output_sync mgr = transform_output mgr"
proof -
  have all: "list_all (\<lambda>m. \<not> mw_is_coroutine m h) (mg_middleware mgr)"
    "list_all (\<lambda>m. \<not> mw_isinstance_Middleware m) (mg_middleware mgr)" for h
    using ok by (auto simp: sync_ok_def list_all_iff)
  show "after_execution_sync mgr = after_execution mgr"
    using all by (simp add: after_execution_sync_def after_execution_def run_hooks_sync_eq list_all_rev)
  have "run_hooks (\<lambda>m. if mw_is_coroutine m H_after_send_events then retM () else mw_after_send_events m r)
      (rev (mg_middleware mgr)) = run_hooks (\<lambda>m. mw_after_send_events m r) (rev (mg_middleware mgr))"
    by (rule run_hooks_cong) (use all in \<open>auto simp: list_all_iff\<close>)
  then show "after_send_events_sync mgr r = after_send_events mgr r"
    using all by (simp add: after_send_events_sync_def after_send_events_def run_hooks_sync_eq list_all_rev)
  show "before_execution_sync (mgr, w) = before_execution (mgr, w)"
    using all by (simp add: before_execution_sync_def before_execution_def run_hooks_sync_eq)
  show "before_response_sync mgr = before_response mgr"
    using all by (simp add: before_response_sync_def before_response_def run_hooks_sync_eq)
  show "before_send_events_sync mgr = before_send_events mgr"
    using all by (simp add: before_send_events_sync_def before_send_events_def run_hooks_sync_eq)
  show "transform_input_sync mgr = transform_input mgr"
    using all by (simp add: transform_input_sync_def transform_input_def run_hooks_sync_eq)
  have "run_hooks (\<lambda>m. if mw_is_coroutine m H_transform_output then retM () else mw_transform_output m)
      (rev (mg_middleware mgr)) = run_hooks mw_transform_output (rev (mg_middleware mgr))"
    by (rule run_hooks_cong) (use all in \<open>auto simp: list_all_iff\<close>)
  then show "transform_output_sync mgr = transform_output mgr"
    using all by (simp add: transform_output_sync_def transform_output_def run_hooks_sync_eq list_all_rev)
qed

text \<open>With middleware that is synchronous throughout, every hook runner of the manager does the same in
  a non-async context as in an async one: same effects, same error, same result.\<close>

lemma manager_sync_twins:
  assumes ok: "sync_ok mgr"
  shows "after_execution_sync mgr = after_execution mgr \<and>
    after_send_events_sync mgr r = after_send_events mgr r \<and>
    before_execution_sync (mgr, w) = before_execution (mgr, w) \<and>
    before_response_sync mgr = before_response mgr \<and>
    before_send_events_sync mgr = before_send_events mgr \<and>
    transform_input_sync mgr = transform_input mgr \<and>
    transform_output_sync mgr = transform_output mgr"
  using manager_sync_facts [OF ok] by blast

text \<open>A manager with one user middleware whose \<open>before_response\<close> counts its calls.\<close>

definition counting_manager :: "nat manager" where
  "counting_manager = \<lparr>mg_middleware =
     [base_MiddlewareSync\<lparr>mw_before_response := modifyM (\<lambda>w. w\<lparr>user := Suc (user w)\<rparr>)\<rparr>], mg_disabled_hooks = []\<rparr>"

lemma manager_sync_example:
  "before_response_sync counting_manager \<lparr>logging_enabled = True, logged = [], user = 3\<rparr>
   = (Inr (), \<lparr>logging_enabled = True, logged = [], user = 4\<rparr>)"
proof -
  have ok: "sync_ok counting_manager"
    by (simp add: sync_ok_def counting_manager_def base_MiddlewareSync_def)
  have eq: "before_response_sync counting_manager = before_response counting_manager"
    using manager_sync_twins [OF ok] by blast
  show ?thesis
    unfolding eq by (simp add: before_response_def counting_manager_def monad_simps)
qed

text \<open>The non-async \<open>after_send_events\<close> loop tests the wrong hook: a middleware whose \<open>after_execution\<close>
  is synchronous and whose \<open>after_send_events\<close> is a coroutine function is neither reported as mismatched
  nor run, while the async loop runs it.\<close>

theorem after_send_events_sync_skips:
  assumes "mg_middleware mgr = [m]"
    and "\<not> mw_is_coroutine m H_after_execution" and "mw_is_coroutine m H_after_send_events"
  shows "after_send_events_sync mgr r w = (Inr (), w)
    \<and> after_send_events mgr r w = mw_after_send_events m r w"
  using assms by (auto simp: after_send_events_sync_def after_send_events_def monad_simps split: prod.split sum.split)

theorem after_send_events_sync_skips_witness:
  "after_send_events_sync \<lparr>mg_middleware = [base_MiddlewareSync\<lparr>
       mw_is_coroutine := (\<lambda>h. h = H_after_send_events),
       mw_after_send_events := (\<lambda>r. modifyM (\<lambda>w. w\<lparr>user := (7::nat)\<rparr>))\<rparr>], mg_disabled_hooks = []\<rparr>
     \<lparr>ser_error = None, ser_ids = []\<rparr> \<lparr>logging_enabled = True, logged = [], user = 3\<rparr>
   = (Inr (), \<lparr>logging_enabled = True, logged = [], user = 3\<rparr>)"
  by (rule after_send_events_sync_skips [THEN conjunct1], simp) (simp_all add: base_MiddlewareSync_def)

end
