(* ===== verification/Execution.thy ===== *)
theory Execution
  imports Middleware
begin

text \<open>
  \<open>_internal/execution_lib\<close>: the per-request state, \<open>ExecutionV0.report_step\<close>, the \<open>with\<close> block around
  a reported step (\<open>ReportedStep.__aenter__\<close> and \<open>__aexit__\<close>) and \<open>ExecutionV0.run\<close>, with their
  non-async twins.  The context variables \<open>in_parallel\<close>, \<open>in_step\<close> and the step context are fields of
  the state; a request's code is run as one sequence of steps (no task runs beside it).
\<close>

record 'u world =
  w_memos :: memos
  w_counts :: id_counts
  w_in_parallel :: bool
  w_in_step :: bool
  w_step_context :: bool
  w_mgr :: "'u manager"
  w_out :: "'u outside"

type_synonym ('u, 'a) step_m = "('u world, raised, 'a) M"

text \<open>The constructor arguments of an execution and of the \<open>Step\<close> object that the code reads.\<close>

record 'u exe =
  ex_client :: "'u client"
  ex_request :: server_request
  ex_target_hashed_id :: "string option"
  ex_sha1 :: "bytes \<Rightarrow> string"

text \<open>Running a manager or outside operation on the state; what it returns as an error is a value.\<close>

definition on_outside :: "('u outside, exc, 'a) M \<Rightarrow> ('u, exc + 'a) step_m" where
  "on_outside m = (\<lambda>w. case m (w_out w) of (r, o') \<Rightarrow> (Inr r, w\<lparr>w_out := o'\<rparr>))"

definition on_manager :: "('u manager \<times> 'u outside, exc, 'a) M \<Rightarrow> ('u, exc + 'a) step_m" where
  "on_manager m = (\<lambda>w. case m (w_mgr w, w_out w) of
     (r, (mgr', o')) \<Rightarrow> (Inr r, w\<lparr>w_mgr := mgr', w_out := o'\<rparr>))"

text \<open>Operations of a middleware manager that return an error, on this request's manager.\<close>

definition with_manager :: "('u manager \<Rightarrow> ('u outside, exc, 'a) M) \<Rightarrow> ('u, exc + 'a) step_m" where
  "with_manager f = (\<lambda>w. on_outside (f (w_mgr w)) w)"

section \<open>Reporting a step\<close>

record reported_step =
  rs_error :: "exc option"
  rs_info :: step_info
  rs_output :: pyobj
  rs_skip :: bool

definition new_ReportedStep :: "step_info \<Rightarrow> reported_step" where
  "new_ReportedStep step_info = \<lparr>rs_error = None, rs_info = step_info, rs_output = PEmpty, rs_skip = False\<rparr>"

definition handle_skip :: "'u exe \<Rightarrow> step_info \<Rightarrow> ('u, unit) step_m" where
  "handle_skip exe step_info =
     (let is_targeting_enabled = (ex_target_hashed_id exe \<noteq> None);
          is_targeted = (ex_target_hashed_id exe = Some (si_id step_info))
      in if is_targeting_enabled \<and> \<not> is_targeted
         then raiseM (SkipInterrupt (si_display_name step_info)) else retM ())"

definition pop_memo :: "string \<Rightarrow> ('u, step_output option) step_m" where
  "pop_memo hashed_id = (\<lambda>w. case StepMemos_pop (w_memos w) hashed_id of
     (memo, memos') \<Rightarrow> (Inr memo, w\<lparr>w_memos := memos'\<rparr>))"

definition apply_memo :: "reported_step \<Rightarrow> step_output \<Rightarrow> reported_step" where
  "apply_memo step memo =
     (case out_error memo of
        Some e \<Rightarrow> step\<lparr>rs_error := Some (StepError (me_message e) (me_name e) (me_stack e))\<rparr>
      | None \<Rightarrow> if out_data memo \<noteq> PEmpty then step\<lparr>rs_output := out_data memo\<rparr> else step)"

definition plan_if_run :: "step_info \<Rightarrow> step_info" where
  "plan_if_run s = (if si_op s = OP_STEP_RUN then s\<lparr>si_op := OP_PLANNED\<rparr> else s)"

text \<open>What \<open>report_step\<close> does with a step that has no memo, after the targeting check.\<close>

definition report_new_step :: "'u exe \<Rightarrow> step_info \<Rightarrow> reported_step \<Rightarrow> ('u, reported_step) step_m" where
  "report_new_step exe step_info step =
     (let is_targeting_enabled = (ex_target_hashed_id exe \<noteq> None) in
      bindM (getM w_in_parallel) (\<lambda>in_parallel.
      if in_parallel \<and> \<not> is_targeting_enabled
      then raiseM (ResponseInterrupt [mk_StepResponse (plan_if_run step_info)])
      else if si_op step_info = OP_STEP_RUN
              \<and> ctx_disable_immediate_execution (req_ctx (ex_request exe)) = True
              \<and> \<not> is_targeting_enabled
      then raiseM (ResponseInterrupt [mk_StepResponse (step_info\<lparr>si_op := OP_PLANNED\<rparr>)])
      else if si_op step_info = OP_STEP_RUN then retM step
      else raiseM (ResponseInterrupt [mk_StepResponse step_info])))"

definition report_step :: "'u exe \<Rightarrow> step_info \<Rightarrow> ('u, reported_step) step_m" where
  "report_step exe step_info =
     (let step = new_ReportedStep step_info in
      bindM (pop_memo (si_id step_info)) (\<lambda>memo.
      bindM (getM (\<lambda>w. StepMemos_size (w_memos w))) (\<lambda>size.
      seqM (if size = 0 then seqM (on_manager before_execution) (retM ()) else retM ())
      (case memo of
         Some memo \<Rightarrow> retM (apply_memo step memo)
       | None \<Rightarrow> seqM (handle_skip exe step_info) (report_new_step exe step_info step)))))"

definition report_step_sync :: "'u exe \<Rightarrow> step_info \<Rightarrow> ('u, reported_step) step_m" where
  "report_step_sync exe step_info =
     (let step = new_ReportedStep step_info in
      bindM (pop_memo (si_id step_info)) (\<lambda>memo.
      bindM (getM (\<lambda>w. StepMemos_size (w_memos w))) (\<lambda>size.
      seqM (if size = 0 then seqM (on_manager before_execution_sync) (retM ()) else retM ())
      (case memo of
         Some memo \<Rightarrow> retM (apply_memo step memo)
       | None \<Rightarrow> seqM (handle_skip exe step_info) (report_new_step exe step_info step)))))"

text \<open>Entering and leaving \<open>with\<close> on a reported step.\<close>

definition ReportedStep_enter :: "('u, unit) step_m" where
  "ReportedStep_enter = bindM (getM w_in_step) (\<lambda>in_step.
     if in_step = True then raiseM NestedStepInterrupt else modifyM (\<lambda>w. w\<lparr>w_in_step := True\<rparr>))"

text \<open>\<open>_in_step.reset(token)\<close> restores the value before \<open>set\<close>, which the guard above fixed to false.\<close>

definition ReportedStep_exit :: "('u, unit) step_m" where
  "ReportedStep_exit = modifyM (\<lambda>w. w\<lparr>w_in_step := False\<rparr>)"

definition with_step :: "('u, reported_step) step_m \<Rightarrow> (reported_step \<Rightarrow> ('u, 'a) step_m) \<Rightarrow> ('u, 'a) step_m" where
  "with_step report body = bindM report (\<lambda>step.
     seqM ReportedStep_enter (finallyM (body step) ReportedStep_exit))"

section \<open>Running a function\<close>

definition world_transform_input ::
  "((fn_context \<times> memos) \<times> 'u outside, exc, unit) M \<Rightarrow> fn_context \<Rightarrow> ('u, exc + fn_context) step_m" where
  "world_transform_input m ctx = (\<lambda>w. case m ((ctx, w_memos w), w_out w) of
     (Inl e, ((ctx', memos'), o')) \<Rightarrow> (Inr (Inl e), w\<lparr>w_memos := memos', w_out := o'\<rparr>)
   | (Inr _, ((ctx', memos'), o')) \<Rightarrow> (Inr (Inr ctx'), w\<lparr>w_memos := memos', w_out := o'\<rparr>))"

type_synonym 'u handler = "fn_context \<Rightarrow> ('u, pyobj) step_m"

text \<open>
  The outcome of the user's handler and of the final hook, as a \<open>CallResult\<close>.  Exceptions of the
  handler or of the serializer are wrapped in \<open>UserError\<close> and unwrapped again; \<open>ResponseInterrupt\<close> and
  \<open>SkipInterrupt\<close> are caught; a \<open>NestedStepInterrupt\<close> is a \<open>BaseException\<close> that nothing here catches.
\<close>

definition ExecutionV0_finish ::
  "('u, exc + unit) step_m \<Rightarrow> ('u, pyobj) step_m \<Rightarrow> ('u, call_result) step_m" where
  "ExecutionV0_finish after handler =
     catchM
       (bindM handler (\<lambda>output.
        bindM after (\<lambda>err.
          (case err of Inl e \<Rightarrow> retM (CallResult_error e) | Inr _ \<Rightarrow> retM (CallResult_output output)))))
       (\<lambda>r. case r of
          ResponseInterrupt responses \<Rightarrow>
            bindM after (\<lambda>err.
              (case err of Inl e \<Rightarrow> retM (CallResult_error e) | Inr _ \<Rightarrow> retM (from_responses responses)))
        | Raised err \<Rightarrow> retM (CallResult_error err)
        | SkipInterrupt step_id \<Rightarrow> retM (CallResult_error (LibErr C_StepUnexpectedError
            (''found step '' @ [char_of (34::nat)] @ step_id @ [char_of (34::nat)]
              @ '' when targeting a different step'')))
        | NestedStepInterrupt \<Rightarrow> raiseM NestedStepInterrupt)"

definition serialize_output :: "'u client \<Rightarrow> string option \<Rightarrow> pyobj \<Rightarrow> ('u, pyobj) step_m" where
  "serialize_output client output_type output = raise_ifM Raised (client_serialize client output output_type)"

definition ExecutionV0_run ::
  "'u exe \<Rightarrow> fn_context \<Rightarrow> 'u handler \<Rightarrow> string option \<Rightarrow> ('u, call_result) step_m" where
  "ExecutionV0_run exe ctx handler output_type =
     bindM (\<lambda>w. world_transform_input (transform_input (w_mgr w)) ctx w) (\<lambda>middleware_err.
     case middleware_err of
       Inl e \<Rightarrow> retM (CallResult_error e)
     | Inr ctx \<Rightarrow>
         bindM (getM (\<lambda>w. StepMemos_size (w_memos w))) (\<lambda>size.
         bindM (if size = 0 then on_manager before_execution else retM (Inr ())) (\<lambda>err.
         case err of
           Inl e \<Rightarrow> retM (CallResult_error e)
         | Inr _ \<Rightarrow>
             ExecutionV0_finish (with_manager after_execution)
               (bindM (handler ctx) (serialize_output (ex_client exe) output_type)))))"

definition ExecutionV0Sync_run ::
  "'u exe \<Rightarrow> fn_context \<Rightarrow> 'u handler \<Rightarrow> string option \<Rightarrow> ('u, call_result) step_m" where
  "ExecutionV0Sync_run exe ctx handler output_type =
     bindM (\<lambda>w. world_transform_input (transform_input_sync (w_mgr w)) ctx w) (\<lambda>middleware_err.
     case middleware_err of
       Inl e \<Rightarrow> retM (CallResult_error e)
     | Inr ctx \<Rightarrow>
         bindM (getM (\<lambda>w. StepMemos_size (w_memos w))) (\<lambda>size.
         bindM (if size = 0 then on_manager before_execution_sync else retM (Inr ())) (\<lambda>err.
         case err of
           Inl e \<Rightarrow> retM (CallResult_error e)
         | Inr _ \<Rightarrow>
             ExecutionV0_finish (with_manager after_execution_sync)
               (bindM (handler ctx) (serialize_output (ex_client exe) output_type)))))"

section \<open>The step context\<close>

definition set_step_context :: "('u, 'a) step_m \<Rightarrow> ('u, 'a) step_m" where
  "set_step_context body = bindM (getM w_step_context) (\<lambda>is_set.
     if is_set then raiseM (Raised (Exception ''Step context already set''))
     else seqM (modifyM (\<lambda>w. w\<lparr>w_step_context := True\<rparr>))
            (finallyM body (modifyM (\<lambda>w. w\<lparr>w_step_context := False\<rparr>))))"

text \<open>The decorator \<open>step(step_id)\<close>: \<open>step_run\<close> is \<open>step.run\<close> of the step in the context.\<close>

definition step_decorator ::
  "(string \<Rightarrow> ('u, pyobj) step_m \<Rightarrow> ('u, pyobj) step_m) \<Rightarrow> string \<Rightarrow> ('u, pyobj) step_m \<Rightarrow> ('u, pyobj) step_m" where
  "step_decorator step_run step_id handler = bindM (getM w_step_context) (\<lambda>is_set.
     if is_set = False then handler else step_run step_id handler)"

section \<open>Lemmas\<close>

lemmas report_defs = report_step_def report_new_step_def pop_memo_def handle_skip_def Let_def

text \<open>The request's state without what a hook may touch outside.\<close>

lemma with_step_raise: "report w = (Inl e, w') \<Longrightarrow> with_step report body w = (Inl e, w')"
  by (simp add: with_step_def monad_simps)

lemma with_step_enter:
  "report w = (Inr step, w') \<Longrightarrow> \<not> w_in_step w' \<Longrightarrow>
   with_step report body w = finallyM (body step) ReportedStep_exit (w'\<lparr>w_in_step := True\<rparr>)"
  by (simp add: with_step_def ReportedStep_enter_def monad_simps)

lemma with_step_nested:
  "report w = (Inr step, w') \<Longrightarrow> w_in_step w' \<Longrightarrow> with_step report body w = (Inl NestedStepInterrupt, w')"
  by (simp add: with_step_def ReportedStep_enter_def monad_simps)

lemma finally_exit:
  "body w = (r, w') \<Longrightarrow> finallyM body ReportedStep_exit w = (r, w'\<lparr>w_in_step := False\<rparr>)"
  by (simp add: ReportedStep_exit_def monad_simps)

end
