(* ===== verification/Steps.thy ===== *)
theory Steps
  imports Execution
begin

text \<open>
  \<open>_internal/step_lib/step_async.py\<close> and the async \<open>Group\<close> of \<open>group.py\<close>: the step methods a user
  calls.  Sending events over the network is the argument \<open>send\<close> (modelled with the client), an
  AI adapter is a record of the methods of \<open>experimental/ai/base.py\<close>, the current time is an argument.
\<close>

record adapter =
  ad_auth_key :: string
  ad_format :: string
  ad_headers :: "(string, string) dict"
  ad_on_call :: "(string, pyobj) dict \<Rightarrow> (string, pyobj) dict"
  ad_url_infer :: string

section \<open>Options of the step kinds\<close>

definition InvokeOpts_to_dict ::
  "string \<Rightarrow> pyobj \<Rightarrow> string option \<Rightarrow> string option \<Rightarrow> exc + (string, pyobj) dict" where
  "InvokeOpts_to_dict function_id data v timeout = to_dict_json
     [(''function_id'', PStr function_id), (''payload'', PDict [(''data'', data), (''v'', opt_str v)]),
      (''timeout'', opt_str timeout)]"

definition WaitForEventOpts_to_dict :: "string option \<Rightarrow> string \<Rightarrow> exc + (string, pyobj) dict" where
  "WaitForEventOpts_to_dict if_exp timeout = to_dict_json
     [(''if'', opt_str if_exp), (''timeout'', PStr timeout)]"

definition AIInferOpts_to_dict :: "adapter \<Rightarrow> (string, pyobj) dict \<Rightarrow> exc + (string, pyobj) dict" where
  "AIInferOpts_to_dict a body = to_dict_json
     [(''auth_key'', PStr (ad_auth_key a)), (''body'', PDict body), (''format'', PStr (ad_format a)),
      (''headers'', PDict (map (\<lambda>(k, v). (k, PStr v)) (ad_headers a))), (''type'', PStr ''step.ai.infer''),
      (''url'', PStr (ad_url_infer a))]"

section \<open>Pieces shared by the step methods\<close>

definition parse_step_id_m :: "'u exe \<Rightarrow> string \<Rightarrow> ('u, parsed_step_id) step_m" where
  "parse_step_id_m exe step_id = (\<lambda>w. case parse_step_id (ex_sha1 exe) (w_counts w) step_id of
     (p, counts') \<Rightarrow> (Inr p, w\<lparr>w_counts := counts'\<rparr>))"

definition mk_StepInfo ::
  "parsed_step_id \<Rightarrow> string \<Rightarrow> opcode \<Rightarrow> (string, pyobj) dict option \<Rightarrow> step_info" where
  "mk_StepInfo p name op opts = \<lparr>si_display_name = ps_user_facing p, si_id = ps_hashed p, si_name = Some name,
     si_op = op, si_opts = opts, si_userland = Some (userland_info p)\<rparr>"

text \<open>
  The body of the \<open>with\<close> block of every step but \<open>run\<close>: deliver the memo.  \<open>None\<close> falls out of the
  block into \<open>raise Exception("unreachable")\<close>.
\<close>

definition deliver_memo :: "parsed_step_id \<Rightarrow> reported_step \<Rightarrow> ('u, pyobj option) step_m" where
  "deliver_memo p step =
     (if rs_skip step then raiseM (SkipInterrupt (ps_user_facing p))
      else (case rs_error step of
              Some e \<Rightarrow> raiseM (Raised e)
            | None \<Rightarrow> if rs_output step \<noteq> PEmpty then retM (Some (rs_output step)) else retM None))"

definition or_unreachable :: "'a option \<Rightarrow> ('u, 'a) step_m" where
  "or_unreachable r = (case r of Some v \<Rightarrow> retM v | None \<Rightarrow> raiseM (Raised (Exception ''unreachable'')))"

text \<open>The response of a step whose handler returned, and of one whose handler raised.\<close>

definition output_response :: "step_info \<Rightarrow> pyobj \<Rightarrow> raised" where
  "output_response s output = ResponseInterrupt [(mk_StepResponse s)\<lparr>sp_output := output\<rparr>]"

definition error_response :: "step_info \<Rightarrow> opcode \<Rightarrow> exc \<Rightarrow> raised" where
  "error_response s op err = ResponseInterrupt [(mk_StepResponse (s\<lparr>si_op := op\<rparr>))\<lparr>sp_original_error := Some err\<rparr>]"

definition nested_step_error :: exc where
  "nested_step_error = CodedError ''CodedError'' EC_STEP_NESTED ''Nested steps are not supported.'' False"

text \<open>The opcode of a failed attempt: the last allowed attempt fails the step.\<close>

definition failure_op :: "server_request_ctx \<Rightarrow> opcode" where
  "failure_op ctx = (case ctx_max_attempts ctx of
      Some max_attempts \<Rightarrow> if ctx_attempt ctx + 1 \<ge> max_attempts then OP_STEP_FAILED else OP_STEP_ERROR
    | None \<Rightarrow> OP_STEP_ERROR)"

section \<open>Step\<close>

definition Step_invoke_by_id :: "'u exe \<Rightarrow> string \<Rightarrow> string option \<Rightarrow> string \<Rightarrow> pyobj \<Rightarrow> duration option
    \<Rightarrow> string option \<Rightarrow> ('u, pyobj) step_m" where
  "Step_invoke_by_id exe step_id app_id function_id data timeout v =
     (let app_id = (case app_id of None \<Rightarrow> cl_app_id (ex_client exe) | Some a \<Rightarrow> a) in
      bindM (parse_step_id_m exe step_id) (\<lambda>p.
      bindM (raise_ifM Raised (to_maybe_duration_str timeout)) (\<lambda>timeout_str.
      bindM (raise_ifM Raised (InvokeOpts_to_dict (app_id @ ''-'' @ function_id) data v timeout_str)) (\<lambda>opts.
      bindM (with_step (report_step exe (mk_StepInfo p (ps_user_facing p) OP_INVOKE (Some opts))) (deliver_memo p))
        or_unreachable))))"

text \<open>The invoked function contributes its local identifier and its output type.\<close>

definition Step_invoke :: "'u exe \<Rightarrow> string \<Rightarrow> string \<times> string option \<Rightarrow> pyobj \<Rightarrow> duration option
    \<Rightarrow> string option \<Rightarrow> ('u, pyobj) step_m" where
  "Step_invoke exe step_id function data timeout v =
     bindM (Step_invoke_by_id exe step_id (Some (cl_app_id (ex_client exe))) (fst function) data timeout v) (\<lambda>output.
     raise_ifM Raised (client_deserialize (ex_client exe) output (snd function)))"

text \<open>The body of \<open>run\<close>'s block for a step without a memo.\<close>

definition Step_run_handler ::
  "'u exe \<Rightarrow> step_info \<Rightarrow> string option \<Rightarrow> ('u, pyobj) step_m \<Rightarrow> ('u, pyobj) step_m" where
  "Step_run_handler exe step_info output_type handler =
     catchM
       (bindM handler (\<lambda>output.
        bindM (serialize_output (ex_client exe) output_type output) (\<lambda>output.
        raiseM (output_response step_info output))))
       (\<lambda>r. case r of
          Raised (NonRetriableError m q) \<Rightarrow> raiseM r
        | Raised (RetryAfterError m t q) \<Rightarrow> raiseM r
        | Raised err \<Rightarrow> raiseM (error_response step_info (failure_op (req_ctx (ex_request exe))) err)
        | NestedStepInterrupt \<Rightarrow> raiseM (error_response step_info OP_STEP_ERROR nested_step_error)
        | _ \<Rightarrow> raiseM r)"

definition Step_run :: "'u exe \<Rightarrow> string \<Rightarrow> string option \<Rightarrow> ('u, pyobj) step_m \<Rightarrow> ('u, pyobj) step_m" where
  "Step_run exe step_id output_type handler =
     bindM (parse_step_id_m exe step_id) (\<lambda>p.
     let step_info = mk_StepInfo p (ps_user_facing p) OP_STEP_RUN None in
     with_step (report_step exe step_info) (\<lambda>step.
       if rs_skip step then raiseM (SkipInterrupt (ps_user_facing p))
       else (case rs_error step of
               Some e \<Rightarrow> raiseM (Raised e)
             | None \<Rightarrow>
                 if rs_output step \<noteq> PEmpty
                 then raise_ifM Raised (client_deserialize (ex_client exe) (rs_output step) output_type)
                 else Step_run_handler exe step_info output_type handler)))"

text \<open>
  The function that \<open>send_event\<close> runs as a step, for events given as a list (not as one event):
  \<open>before_send_events\<close> may change the list in place,
  and \<open>after_send_events\<close> runs on success and on failure; what it returns replaces the outcome.
\<close>

definition Step_send_event_fn ::
  "(event list \<Rightarrow> ('u, string list) step_m) \<Rightarrow> event list \<Rightarrow> ('u, pyobj) step_m" where
  "Step_send_event_fn send events =
     bindM (with_manager (\<lambda>mgr w. case before_send_events mgr (events, w) of
        (Inl e, (events', w')) \<Rightarrow> (Inl e, w') | (Inr _, (events', w')) \<Rightarrow> (Inr events', w'))) (\<lambda>r.
     bindM (raise_ifM Raised r) (\<lambda>events.
     bindM (catchM (bindM (send events) (\<lambda>ids. retM (Inr ids)))
        (\<lambda>r. case r of Raised err \<Rightarrow> retM (Inl err) | _ \<Rightarrow> raiseM r)) (\<lambda>sent.
     let result = (case sent of
          Inr ids \<Rightarrow> \<lparr>ser_error = None, ser_ids = ids\<rparr>
        | Inl (SendEventsError m ids) \<Rightarrow> \<lparr>ser_error = Some m, ser_ids = ids\<rparr>
        | Inl err \<Rightarrow> \<lparr>ser_error = Some (exc_str err), ser_ids = []\<rparr>) in
     bindM (with_manager (\<lambda>mgr. after_send_events mgr result)) (\<lambda>r.
     bindM (raise_ifM Raised r) (\<lambda>_.
     (case sent of Inl err \<Rightarrow> raiseM (Raised err)
      | Inr ids \<Rightarrow> retM (PList (map PStr ids))))))))"

definition Step_send_event ::
  "'u exe \<Rightarrow> (event list \<Rightarrow> ('u, string list) step_m) \<Rightarrow> string \<Rightarrow> event list \<Rightarrow> ('u, pyobj) step_m" where
  "Step_send_event exe send step_id events = Step_run exe step_id None (Step_send_event_fn send events)"

definition Step_sleep_until :: "'u exe \<Rightarrow> string \<Rightarrow> datetime \<Rightarrow> ('u, pyobj) step_m" where
  "Step_sleep_until exe step_id until =
     bindM (parse_step_id_m exe step_id) (\<lambda>p.
     bindM (with_step (report_step exe (mk_StepInfo p (to_iso_utc until) OP_SLEEP None)) (deliver_memo p))
       or_unreachable)"

definition Step_sleep :: "datetime \<Rightarrow> 'u exe \<Rightarrow> string \<Rightarrow> duration \<Rightarrow> ('u, pyobj) step_m" where
  "Step_sleep now exe step_id duration =
     Step_sleep_until exe step_id
       (case duration of Millis ms \<Rightarrow> now + ms * 1000 | Timedelta us \<Rightarrow> now + us)"

definition Step_wait_for_event ::
  "'u exe \<Rightarrow> string \<Rightarrow> string \<Rightarrow> string option \<Rightarrow> duration \<Rightarrow> ('u, event option) step_m" where
  "Step_wait_for_event exe step_id event_name if_exp timeout =
     bindM (parse_step_id_m exe step_id) (\<lambda>p.
     bindM (raise_ifM Raised (to_duration_str timeout)) (\<lambda>timeout_str.
     bindM (raise_ifM Raised (WaitForEventOpts_to_dict if_exp timeout_str)) (\<lambda>opts.
     bindM (with_step (report_step exe (mk_StepInfo p event_name OP_WAIT_FOR_EVENT (Some opts))) (\<lambda>step.
       bindM (deliver_memo p step) (\<lambda>memo.
       case memo of
         None \<Rightarrow> retM None
       | Some v \<Rightarrow> if v = PNone then retM (Some None)
                   else bindM (raise_ifM Raised (Event_validate v)) (\<lambda>e. retM (Some (Some e))))))
       or_unreachable)))"

definition Step_ai_infer ::
  "'u exe \<Rightarrow> string \<Rightarrow> adapter \<Rightarrow> (string, pyobj) dict \<Rightarrow> ('u, pyobj) step_m" where
  "Step_ai_infer exe step_id adapter body =
     bindM (parse_step_id_m exe step_id) (\<lambda>p.
     bindM (raise_ifM Raised (AIInferOpts_to_dict adapter (ad_on_call adapter body))) (\<lambda>opts.
     bindM (with_step (report_step exe (mk_StepInfo p (ps_user_facing p) OP_AI_GATEWAY (Some opts))) (deliver_memo p))
       or_unreachable))"

section \<open>Group\<close>

text \<open>The loop over the callables collects outputs and responses; any other exception leaves it.\<close>

fun Group_parallel_loop :: "('u, 'a) step_m list \<Rightarrow> 'a list \<Rightarrow> step_response list
    \<Rightarrow> ('u, 'a list \<times> step_response list) step_m" where
  "Group_parallel_loop [] outputs responses = retM (outputs, responses)"
| "Group_parallel_loop (cb # cbs) outputs responses =
     bindM (catchM (bindM cb (\<lambda>output. retM (outputs @ [output], responses)))
        (\<lambda>r. case r of
           ResponseInterrupt rs \<Rightarrow> retM (outputs, responses @ rs)
         | SkipInterrupt step_id \<Rightarrow> retM (outputs, responses)
         | _ \<Rightarrow> raiseM r))
       (\<lambda>(outputs, responses). Group_parallel_loop cbs outputs responses)"

definition Group_parallel :: "('u, 'a) step_m list \<Rightarrow> parallel_mode \<Rightarrow> ('u, 'a list) step_m" where
  "Group_parallel callables parallel_mode =
     bindM (getM w_in_parallel) (\<lambda>token.
     seqM (modifyM (\<lambda>w. w\<lparr>w_in_parallel := True\<rparr>))
       (finallyM
         (bindM (Group_parallel_loop callables [] []) (\<lambda>(outputs, responses).
            if length responses > 0
            then raiseM (ResponseInterrupt
                   (map (\<lambda>r. r\<lparr>sp_step := set_parallel_mode parallel_mode (sp_step r)\<rparr>) responses))
            else retM outputs))
         (modifyM (\<lambda>w. w\<lparr>w_in_parallel := token\<rparr>))))"

end
