(* ===== verification/StepProps.thy ===== *)
theory StepProps
  imports StepsSync
begin

text \<open>
  What the step methods promise.  The interface between the execution and the step methods is the
  locale \<open>step_reporter\<close>: reporting a step touches nothing of the request's state but its memo, and its
  answer is the memo or the decision of \<open>report_decision\<close>.  Both executions interpret it, so each
  fact about the methods is proved once.
\<close>

section \<open>The interface of an execution\<close>

text \<open>The decision on a step without a memo, as a function of the request and the parallel flag.\<close>

definition report_decision :: "'u exe \<Rightarrow> bool \<Rightarrow> step_info \<Rightarrow> raised + reported_step" where
  "report_decision exe in_parallel s =
     (if ex_target_hashed_id exe \<noteq> None \<and> ex_target_hashed_id exe \<noteq> Some (si_id s)
      then Inl (SkipInterrupt (si_display_name s))
      else if ex_target_hashed_id exe = None \<and> in_parallel
      then Inl (ResponseInterrupt [mk_StepResponse (plan_if_run s)])
      else if ex_target_hashed_id exe = None \<and> si_op s = OP_STEP_RUN
              \<and> ctx_disable_immediate_execution (req_ctx (ex_request exe))
      then Inl (ResponseInterrupt [mk_StepResponse (s\<lparr>si_op := OP_PLANNED\<rparr>)])
      else if si_op s = OP_STEP_RUN then Inr (new_ReportedStep s)
      else Inl (ResponseInterrupt [mk_StepResponse s]))"

definition same_flags :: "'u world \<Rightarrow> 'u world \<Rightarrow> bool" where
  "same_flags w w' \<longleftrightarrow> w_in_step w' = w_in_step w \<and> w_in_parallel w' = w_in_parallel w
     \<and> w_step_context w' = w_step_context w"

locale step_reporter =
  fixes report :: "'u exe \<Rightarrow> step_info \<Rightarrow> ('u, reported_step) step_m"
  assumes report_flags: "same_flags w (snd (report exe s w))"
    and report_counts: "w_counts (snd (report exe s w)) = w_counts w"
    and report_memos: "w_memos (snd (report exe s w)) = snd (StepMemos_pop (w_memos w) (si_id s))"
    and report_answer: "fst (report exe s w) =
      (case dget (w_memos w) (si_id s) of
         Some memo \<Rightarrow> Inr (apply_memo (new_ReportedStep s) memo)
       | None \<Rightarrow> report_decision exe (w_in_parallel w) s)"
begin

lemma report_in_step: "report exe s w = (r, w') \<Longrightarrow> w_in_step w' = w_in_step w"
  using report_flags [of w exe s] by (simp add: same_flags_def)

lemma with_report_memo:
  assumes "dget (w_memos w) (si_id s) = Some memo" and "\<not> w_in_step w"
  shows "with_step (report exe s) body w =
    finallyM (body (apply_memo (new_ReportedStep s) memo)) ReportedStep_exit
      ((snd (report exe s w))\<lparr>w_in_step := True\<rparr>)"
proof -
  have "report exe s w = (Inr (apply_memo (new_ReportedStep s) memo), snd (report exe s w))"
    using assms(1) report_answer [of exe s w] by (simp add: prod_eq_iff)
  then show ?thesis
    using assms(2) with_step_enter [of "report exe s" w] report_in_step by metis
qed

lemma with_report_stop:
  assumes "dget (w_memos w) (si_id s) = None" and "report_decision exe (w_in_parallel w) s = Inl e"
  shows "with_step (report exe s) body w = (Inl e, snd (report exe s w))"
proof -
  have "report exe s w = (Inl e, snd (report exe s w))"
    using assms report_answer [of exe s w] by (simp add: prod_eq_iff)
  then show ?thesis by (rule with_step_raise)
qed

lemma with_report_execute:
  assumes "dget (w_memos w) (si_id s) = None"
    and "report_decision exe (w_in_parallel w) s = Inr step" and "\<not> w_in_step w"
  shows "with_step (report exe s) body w =
    finallyM (body step) ReportedStep_exit ((snd (report exe s w))\<lparr>w_in_step := True\<rparr>)"
proof -
  have "report exe s w = (Inr step, snd (report exe s w))"
    using assms report_answer [of exe s w] by (simp add: prod_eq_iff)
  then show ?thesis
    using assms(3) with_step_enter [of "report exe s" w] report_in_step by metis
qed

text \<open>The block leaves the flags as it found them when its body does.\<close>

lemma with_report_flags:
  assumes body: "\<And>step w. same_flags w (snd (body step w))"
  shows "same_flags w (snd (with_step (report exe s) body w))"
proof (cases "report exe s w")
  case (Pair r w1)
  then have flags: "same_flags w w1" using report_flags [of w exe s] by simp
  show ?thesis
  proof (cases r)
    case (Inl e)
    with Pair flags show ?thesis by (simp add: with_step_raise)
  next
    case (Inr step)
    show ?thesis
    proof (cases "w_in_step w1")
      case True
      with Pair Inr flags show ?thesis by (simp add: with_step_nested)
    next
      case False
      obtain r2 w2 where b: "body step (w1\<lparr>w_in_step := True\<rparr>) = (r2, w2)"
        by (cases "body step (w1\<lparr>w_in_step := True\<rparr>)")
      have "same_flags (w1\<lparr>w_in_step := True\<rparr>) w2"
        using body [of "w1\<lparr>w_in_step := True\<rparr>" step] b by simp
      with Pair Inr False flags b show ?thesis
        by (simp add: with_step_enter finally_exit same_flags_def)
    qed
  qed
qed

end

lemma on_manager_frame:
  "w_in_step (snd (on_manager m w)) = w_in_step w" "w_in_parallel (snd (on_manager m w)) = w_in_parallel w"
  "w_step_context (snd (on_manager m w)) = w_step_context w" "w_counts (snd (on_manager m w)) = w_counts w"
  "w_memos (snd (on_manager m w)) = w_memos w"
  by (simp_all add: on_manager_def split: prod.split)

lemma on_manager_Inr: "\<exists>r w'. on_manager m w = (Inr r, w')"
  by (simp add: on_manager_def split: prod.split)

text \<open>The state after the memo of a step is popped and, when none is left, the hooks have run.\<close>

definition after_pop :: "('u manager \<times> 'u outside, exc, unit) M \<Rightarrow> string \<Rightarrow> 'u world \<Rightarrow> 'u world" where
  "after_pop before k w = (let w1 = w\<lparr>w_memos := snd (StepMemos_pop (w_memos w) k)\<rparr> in
     if w_memos w1 = [] then snd (on_manager before w1) else w1)"

lemma report_new_step_eq:
  "seqM (handle_skip exe s) (report_new_step exe s (new_ReportedStep s)) w
   = (report_decision exe (w_in_parallel w) s, w)"
  by (auto simp: handle_skip_def report_new_step_def report_decision_def monad_simps Let_def plan_if_run_def)

lemma after_pop_frame:
  "same_flags w (after_pop b k w)" "w_counts (after_pop b k w) = w_counts w"
  "w_memos (after_pop b k w) = snd (StepMemos_pop (w_memos w) k)"
  by (simp_all add: after_pop_def same_flags_def Let_def on_manager_frame)

lemma report_generic:
  "bindM (pop_memo (si_id s)) (\<lambda>memo.
      bindM (getM (\<lambda>w. StepMemos_size (w_memos w))) (\<lambda>size.
      seqM (if size = 0 then seqM (on_manager before) (retM ()) else retM ())
      (case memo of
         Some memo \<Rightarrow> retM (apply_memo (new_ReportedStep s) memo)
       | None \<Rightarrow> seqM (handle_skip exe s) (report_new_step exe s (new_ReportedStep s))))) w =
   ((case dget (w_memos w) (si_id s) of
       Some memo \<Rightarrow> Inr (apply_memo (new_ReportedStep s) memo)
     | None \<Rightarrow> report_decision exe (w_in_parallel w) s), after_pop before (si_id s) w)"
proof -
  let ?w1 = "w\<lparr>w_memos := snd (StepMemos_pop (w_memos w) (si_id s))\<rparr>"
  have pop: "pop_memo (si_id s) w = (Inr (dget (w_memos w) (si_id s)), ?w1)"
    by (simp add: pop_memo_def StepMemos_pop_def split: option.split)
  have hooks: "seqM (if StepMemos_size (w_memos ?w1) = 0 then seqM (on_manager before) (retM ()) else retM ()) n ?w1
      = n (after_pop before (si_id s) w)" for n :: "('a, reported_step) step_m"
    using on_manager_Inr [of before ?w1]
    by (auto simp: after_pop_def Let_def StepMemos_size_def monad_simps)
  show ?thesis
    unfolding bindM_cong_step [where m = "pop_memo (si_id s)", OF pop]
    apply (simp only: bindM_def getM_def prod.case sum.case hooks)
    using after_pop_frame(1) [of w before "si_id s"]
    by (auto simp: retM_def report_new_step_eq same_flags_def split: option.split)
qed

lemma report_step_eq:
  "report_step exe s w =
   ((case dget (w_memos w) (si_id s) of
       Some memo \<Rightarrow> Inr (apply_memo (new_ReportedStep s) memo)
     | None \<Rightarrow> report_decision exe (w_in_parallel w) s), after_pop before_execution (si_id s) w)"
  unfolding report_step_def Let_def by (rule report_generic)

lemma report_step_sync_eq:
  "report_step_sync exe s w =
   ((case dget (w_memos w) (si_id s) of
       Some memo \<Rightarrow> Inr (apply_memo (new_ReportedStep s) memo)
     | None \<Rightarrow> report_decision exe (w_in_parallel w) s), after_pop before_execution_sync (si_id s) w)"
  unfolding report_step_sync_def Let_def by (rule report_generic)

interpretation exe_async: step_reporter report_step
  by unfold_locales (simp_all add: report_step_eq after_pop_frame)

interpretation exe_sync: step_reporter report_step_sync
  by unfold_locales (simp_all add: report_step_sync_eq after_pop_frame)

section \<open>step.run\<close>

text \<open>The description of the step that a call of \<open>run\<close> reports, and the state after the identifier is counted.\<close>

definition run_parsed :: "'u exe \<Rightarrow> string \<Rightarrow> 'u world \<Rightarrow> parsed_step_id" where
  "run_parsed exe step_id w = fst (parse_step_id (ex_sha1 exe) (w_counts w) step_id)"

definition run_counted :: "'u exe \<Rightarrow> string \<Rightarrow> 'u world \<Rightarrow> 'u world" where
  "run_counted exe step_id w = w\<lparr>w_counts := snd (parse_step_id (ex_sha1 exe) (w_counts w) step_id)\<rparr>"

definition run_info :: "parsed_step_id \<Rightarrow> step_info" where
  "run_info p = mk_StepInfo p (ps_user_facing p) OP_STEP_RUN None"

definition run_reported :: "'u exe \<Rightarrow> string \<Rightarrow> 'u world \<Rightarrow> 'u world" where
  "run_reported exe step_id w =
     after_pop before_execution (ps_hashed (run_parsed exe step_id w)) (run_counted exe step_id w)"

lemma parse_step_id_m_eq:
  "parse_step_id_m exe step_id w = (Inr (run_parsed exe step_id w), run_counted exe step_id w)"
  by (simp add: parse_step_id_m_def run_parsed_def run_counted_def split: prod.split)

lemma run_info_sel [simp]:
  "si_id (run_info p) = ps_hashed p" "si_op (run_info p) = OP_STEP_RUN"
  "si_display_name (run_info p) = ps_user_facing p"
  by (simp_all add: run_info_def mk_StepInfo_def)

lemma run_parsed_user_facing [simp]: "ps_user_facing (run_parsed exe step_id w) = step_id"
  by (simp add: run_parsed_def parse_step_id_def Let_def split: prod.split)

lemma run_counted_sel [simp]:
  "w_memos (run_counted exe step_id w) = w_memos w" "w_in_step (run_counted exe step_id w) = w_in_step w"
  "w_in_parallel (run_counted exe step_id w) = w_in_parallel w" "w_mgr (run_counted exe step_id w) = w_mgr w"
  "w_out (run_counted exe step_id w) = w_out w" "w_step_context (run_counted exe step_id w) = w_step_context w"
  by (simp_all add: run_counted_def)

lemma run_reported_sel [simp]:
  "w_in_step (run_reported exe step_id w) = w_in_step w"
  "w_in_parallel (run_reported exe step_id w) = w_in_parallel w"
  using after_pop_frame(1) [of "run_counted exe step_id w" before_execution]
  by (simp_all add: run_reported_def same_flags_def)

lemma snd_report_step: "snd (report_step exe s w) = after_pop before_execution (si_id s) w"
  by (simp add: report_step_eq)

text \<open>The block of \<open>run\<close> after the step is reported.\<close>

definition run_body ::
  "'u exe \<Rightarrow> parsed_step_id \<Rightarrow> string option \<Rightarrow> ('u, pyobj) step_m \<Rightarrow> reported_step \<Rightarrow> ('u, pyobj) step_m" where
  "run_body exe p ty handler step =
     (if rs_skip step then raiseM (SkipInterrupt (ps_user_facing p))
      else (case rs_error step of
              Some e \<Rightarrow> raiseM (Raised e)
            | None \<Rightarrow>
                if rs_output step \<noteq> PEmpty
                then raise_ifM Raised (client_deserialize (ex_client exe) (rs_output step) ty)
                else Step_run_handler exe (run_info p) ty handler))"

lemma Step_run_eq:
  "Step_run exe step_id ty handler w =
     with_step (report_step exe (run_info (run_parsed exe step_id w)))
       (run_body exe (run_parsed exe step_id w) ty handler) (run_counted exe step_id w)"
  unfolding Step_run_def bindM_cong_step [where m = "parse_step_id_m exe step_id", OF parse_step_id_m_eq]
  unfolding Let_def run_body_def [abs_def] run_info_def by (rule refl)

lemma Step_run_memo:
  assumes memo: "dget (w_memos w) (ps_hashed (run_parsed exe step_id w)) = Some memo"
    and ok: "out_error memo = None" "out_data memo \<noteq> PEmpty"
    and idle: "\<not> w_in_step w"
  shows "Step_run exe step_id ty handler w =
    (case client_deserialize (ex_client exe) (out_data memo) ty of Inl e \<Rightarrow> Inl (Raised e) | Inr v \<Rightarrow> Inr v,
     run_reported exe step_id w)"
proof -
  let ?p = "run_parsed exe step_id w"
  have body: "run_body exe ?p ty handler (apply_memo (new_ReportedStep (run_info ?p)) memo) w' =
     (case client_deserialize (ex_client exe) (out_data memo) ty of Inl e \<Rightarrow> Inl (Raised e) | Inr v \<Rightarrow> Inr v, w')" for w'
    using ok by (simp add: run_body_def apply_memo_def new_ReportedStep_def monad_simps split: sum.split)
  have "Step_run exe step_id ty handler w =
    finallyM (run_body exe ?p ty handler (apply_memo (new_ReportedStep (run_info ?p)) memo)) ReportedStep_exit
      ((run_reported exe step_id w)\<lparr>w_in_step := True\<rparr>)"
    unfolding Step_run_eq
    by (subst exe_async.with_report_memo)
       (use memo idle in \<open>simp_all add: snd_report_step run_reported_def\<close>)
  also have "\<dots> = (case client_deserialize (ex_client exe) (out_data memo) ty of Inl e \<Rightarrow> Inl (Raised e) | Inr v \<Rightarrow> Inr v,
     (run_reported exe step_id w)\<lparr>w_in_step := False\<rparr>)"
    by (simp add: finally_exit [of "run_body exe ?p ty handler (apply_memo (new_ReportedStep (run_info ?p)) memo)",
          OF body])
  finally show ?thesis using idle by simp
qed

text \<open>C3: A memoized step is not run again.  When the request carries the output of a step, \<open>step.run\<close>
  returns that output (through the client's deserializer) whatever the handler is, and its only effects
  are to count the identifier, consume the memo and, if no memo is left, run the \<open>before_execution\<close> hooks.\<close>

theorem step_run_replays:
  assumes memo: "dget (w_memos w) (ps_hashed (run_parsed exe step_id w)) = Some memo"
    and ok: "out_error memo = None" "out_data memo \<noteq> PEmpty"
    and idle: "\<not> w_in_step w"
  shows "Step_run exe step_id ty handler w =
    (case client_deserialize (ex_client exe) (out_data memo) ty of Inl e \<Rightarrow> Inl (Raised e) | Inr v \<Rightarrow> Inr v,
     run_reported exe step_id w)"
  using assms by (rule Step_run_memo)

text \<open>A step whose memo is an error raises that error as a \<open>StepError\<close>, which is never retriable, and
  does not run the handler.\<close>

lemma step_run_replays_error:
  assumes memo: "dget (w_memos w) (ps_hashed (run_parsed exe step_id w)) = Some memo"
    and err: "out_error memo = Some e" and idle: "\<not> w_in_step w"
  shows "Step_run exe step_id ty handler w =
      (Inl (Raised (StepError (me_message e) (me_name e) (me_stack e))), run_reported exe step_id w)
    \<and> is_retriable (StepError (me_message e) (me_name e) (me_stack e)) = False"
proof -
  let ?p = "run_parsed exe step_id w"
  have body: "run_body exe ?p ty handler (apply_memo (new_ReportedStep (run_info ?p)) memo) w' =
     (Inl (Raised (StepError (me_message e) (me_name e) (me_stack e))), w')" for w'
    using err by (simp add: run_body_def apply_memo_def new_ReportedStep_def monad_simps)
  have "Step_run exe step_id ty handler w =
    finallyM (run_body exe ?p ty handler (apply_memo (new_ReportedStep (run_info ?p)) memo)) ReportedStep_exit
      ((run_reported exe step_id w)\<lparr>w_in_step := True\<rparr>)"
    unfolding Step_run_eq
    by (subst exe_async.with_report_memo)
       (use memo idle in \<open>simp_all add: snd_report_step run_reported_def\<close>)
  with idle show ?thesis
    by (simp add: is_retriable_def
          finally_exit [of "run_body exe ?p ty handler (apply_memo (new_ReportedStep (run_info ?p)) memo)", OF body])
qed

text \<open>What a step whose handler is executed answers.\<close>

definition run_outcome :: "'u exe \<Rightarrow> step_info \<Rightarrow> string option \<Rightarrow> raised + pyobj \<Rightarrow> raised" where
  "run_outcome exe s ty r =
     (case r of
        Inr v \<Rightarrow> (case client_serialize (ex_client exe) v ty of
            Inr out \<Rightarrow> output_response s out
          | Inl e \<Rightarrow> (if (\<exists>m q. e = NonRetriableError m q) \<or> (\<exists>m t q. e = RetryAfterError m t q) then Raised e
                      else error_response s (failure_op (req_ctx (ex_request exe))) e))
      | Inl (Raised e) \<Rightarrow> (if (\<exists>m q. e = NonRetriableError m q) \<or> (\<exists>m t q. e = RetryAfterError m t q) then Raised e
                      else error_response s (failure_op (req_ctx (ex_request exe))) e)
      | Inl NestedStepInterrupt \<Rightarrow> error_response s OP_STEP_ERROR nested_step_error
      | Inl r \<Rightarrow> r)"

lemma Step_run_handler_eq:
  "handler w = (r, w') \<Longrightarrow> Step_run_handler exe s ty handler w = (Inl (run_outcome exe s ty r), w')"
  by (cases r)
     (auto simp: Step_run_handler_def run_outcome_def serialize_output_def output_response_def
        error_response_def monad_simps split: sum.splits raised.splits exc.splits)

lemma report_decision_run:
  "si_op s = OP_STEP_RUN \<Longrightarrow> report_decision exe par s =
     (if ex_target_hashed_id exe \<noteq> None \<and> ex_target_hashed_id exe \<noteq> Some (si_id s)
      then Inl (SkipInterrupt (si_display_name s))
      else if ex_target_hashed_id exe = None
              \<and> (par \<or> ctx_disable_immediate_execution (req_ctx (ex_request exe)))
      then Inl (ResponseInterrupt [mk_StepResponse (s\<lparr>si_op := OP_PLANNED\<rparr>)])
      else Inr (new_ReportedStep s))"
  by (simp add: report_decision_def plan_if_run_def)

lemma Step_run_fresh:
  assumes new: "dget (w_memos w) (ps_hashed (run_parsed exe step_id w)) = None"
  shows "Step_run exe step_id ty handler w =
    (let p = run_parsed exe step_id w; s = run_info p; w1 = run_reported exe step_id w in
     if ex_target_hashed_id exe \<noteq> None \<and> ex_target_hashed_id exe \<noteq> Some (ps_hashed p)
     then (Inl (SkipInterrupt step_id), w1)
     else if ex_target_hashed_id exe = None
             \<and> (w_in_parallel w \<or> ctx_disable_immediate_execution (req_ctx (ex_request exe)))
     then (Inl (ResponseInterrupt [mk_StepResponse (s\<lparr>si_op := OP_PLANNED\<rparr>)]), w1)
     else if w_in_step w then (Inl NestedStepInterrupt, w1)
     else (case handler (w1\<lparr>w_in_step := True\<rparr>) of
             (r, w2) \<Rightarrow> (Inl (run_outcome exe s ty r), w2\<lparr>w_in_step := False\<rparr>)))"
proof -
  let ?p = "run_parsed exe step_id w" and ?w1 = "run_reported exe step_id w"
  let ?s = "run_info ?p" and ?w0 = "run_counted exe step_id w"
  have none: "dget (w_memos ?w0) (si_id ?s) = None" using new by simp
  have snd: "snd (report_step exe ?s ?w0) = ?w1" by (simp add: snd_report_step run_reported_def)
  consider (stop) e where "report_decision exe (w_in_parallel w) ?s = Inl e"
    | (exec) "report_decision exe (w_in_parallel w) ?s = Inr (new_ReportedStep ?s)"
  proof (cases "report_decision exe (w_in_parallel w) ?s")
    case (Inr step)
    then have "step = new_ReportedStep ?s"
      by (simp add: report_decision_run split: if_split_asm)
    with Inr that(2) show thesis by simp
  qed (use that(1) in blast)
  then show ?thesis
  proof cases
    case stop
    have "Step_run exe step_id ty handler w = (Inl e, ?w1)"
      unfolding Step_run_eq using exe_async.with_report_stop [of ?w0 ?s exe e] none stop snd by simp
    with stop show ?thesis
      by (auto simp: report_decision_run Let_def split: if_split_asm)
  next
    case exec
    then have cond: "\<not> (ex_target_hashed_id exe \<noteq> None \<and> ex_target_hashed_id exe \<noteq> Some (ps_hashed ?p))"
      "\<not> (ex_target_hashed_id exe = None
         \<and> (w_in_parallel w \<or> ctx_disable_immediate_execution (req_ctx (ex_request exe))))"
      by (auto simp: report_decision_run split: if_split_asm)
    have report: "report_step exe ?s ?w0 = (Inr (new_ReportedStep ?s), ?w1)"
      using none exec by (simp add: report_step_eq run_reported_def)
    show ?thesis
    proof (cases "w_in_step w")
      case True
      with report have "Step_run exe step_id ty handler w = (Inl NestedStepInterrupt, ?w1)"
        unfolding Step_run_eq by (intro with_step_nested) auto
      with True cond show ?thesis by (simp add: Let_def)
    next
      case False
      obtain r w2 where h: "handler (?w1\<lparr>w_in_step := True\<rparr>) = (r, w2)"
        by (cases "handler (?w1\<lparr>w_in_step := True\<rparr>)")
      have "run_body exe ?p ty handler (new_ReportedStep ?s) (?w1\<lparr>w_in_step := True\<rparr>)
          = (Inl (run_outcome exe ?s ty r), w2)"
        using Step_run_handler_eq [of handler _ r w2 exe ?s ty] h
        by (simp add: run_body_def new_ReportedStep_def)
      then have "Step_run exe step_id ty handler w
          = (Inl (run_outcome exe ?s ty r), w2\<lparr>w_in_step := False\<rparr>)"
        unfolding Step_run_eq using report False by (simp add: with_step_enter finally_exit)
      with False cond h show ?thesis by (auto simp: Let_def)
    qed
  qed
qed

text \<open>C4: What \<open>step.run\<close> does with a step it has no output for.  Another targeted step skips it; without a target
  it is only planned in parallel mode or when immediate execution is disabled; inside another step it is refused;
  otherwise the handler runs exactly once, and its result, its failure or its refusal is what the step answers.
  In every case but the last the handler has no effect.\<close>

theorem step_run_new:
  assumes new: "dget (w_memos w) (ps_hashed (run_parsed exe step_id w)) = None"
  shows "Step_run exe step_id ty handler w =
    (let p = run_parsed exe step_id w; s = run_info p; w1 = run_reported exe step_id w in
     if ex_target_hashed_id exe \<noteq> None \<and> ex_target_hashed_id exe \<noteq> Some (ps_hashed p)
     then (Inl (SkipInterrupt step_id), w1)
     else if ex_target_hashed_id exe = None
             \<and> (w_in_parallel w \<or> ctx_disable_immediate_execution (req_ctx (ex_request exe)))
     then (Inl (ResponseInterrupt [mk_StepResponse (s\<lparr>si_op := OP_PLANNED\<rparr>)]), w1)
     else if w_in_step w then (Inl NestedStepInterrupt, w1)
     else (case handler (w1\<lparr>w_in_step := True\<rparr>) of
             (r, w2) \<Rightarrow> (Inl (run_outcome exe s ty r), w2\<lparr>w_in_step := False\<rparr>)))"
  using assms by (rule Step_run_fresh)

section \<open>A concrete request\<close>

text \<open>A client, a request and an idle state, on which the hypotheses of the properties can be met.  The
  user state is the list of the effects that handlers performed.\<close>

definition demo_client :: "string list client" where
  "demo_client = \<lparr>cl_app_id = ''app'', cl_app_version = None, cl_api_origin = DEFAULT_API_ORIGIN,
     cl_env = None, cl_event_api_origin = DEFAULT_EVENT_API_ORIGIN, cl_event_key = None,
     cl_is_production = True, cl_middleware = [], cl_mode = SK_CLOUD, cl_serializer = None,
     cl_signing_key = None, cl_signing_key_fallback = None,
     cl_httpx_timeout = 30000000\<rparr>"

definition demo_request :: "int \<Rightarrow> server_request" where
  "demo_request attempt = \<lparr>req_ctx = \<lparr>ctx_attempt = attempt, ctx_disable_immediate_execution = False,
       ctx_max_attempts = Some 3, ctx_run_id = ''run'', ctx_stack = None\<rparr>,
     req_event = \<lparr>ev_data = [], ev_id = [], ev_name = ''e'', ev_ts = 0\<rparr>, req_events = Some [],
     req_steps = [], req_use_api = False\<rparr>"

definition demo_exe :: "int \<Rightarrow> string option \<Rightarrow> string list exe" where
  "demo_exe attempt target = \<lparr>ex_client = demo_client, ex_request = demo_request attempt,
     ex_target_hashed_id = target, ex_sha1 = (\<lambda>b. b)\<rparr>"

definition demo_world :: "memos \<Rightarrow> string list world" where
  "demo_world memos = \<lparr>w_memos = memos, w_counts = [], w_in_parallel = False, w_in_step = False,
     w_step_context = True, w_mgr = new_manager,
     w_out = \<lparr>logging_enabled = False, logged = [], user = []\<rparr>\<rparr>"

text \<open>A handler that records that it ran and returns 1.\<close>

definition demo_handler :: "(string list, pyobj) step_m" where
  "demo_handler = seqM (modifyM (\<lambda>w. w\<lparr>w_out := (w_out w)\<lparr>user := user (w_out w) @ [''ran'']\<rparr>\<rparr>)) (retM (PInt 1))"

lemmas demo_defs = demo_client_def demo_request_def demo_exe_def demo_world_def

lemma demo_parsed [simp]:
  "run_parsed (demo_exe n t) ''a'' (demo_world m) = \<lparr>ps_hashed = ''a'', ps_user_facing = ''a'', ps_index = None\<rparr>"
  by (simp add: run_parsed_def parse_step_id_def StepIDCounter_increment_def demo_defs hash_step_id_def
      utf8_def utf8_char_def dhas_def dkeys_def Let_def)

theorem step_run_replays_witness:
  "fst (Step_run (demo_exe 0 None) ''a'' None demo_handler
     (demo_world [(''a'', \<lparr>out_data = PInt 7, out_error = None\<rparr>)])) = Inr (PInt 7)"
  by (subst step_run_replays [where memo = "\<lparr>out_data = PInt 7, out_error = None\<rparr>"])
     (simp_all, simp_all add: demo_defs client_deserialize_def)

lemma step_run_replays_error_witness:
  "fst (Step_run (demo_exe 0 None) ''a'' None demo_handler
     (demo_world [(''a'', \<lparr>out_data = PNone, out_error = Some \<lparr>me_message = ''m'', me_name = ''n'', me_stack = None\<rparr>\<rparr>)]))
   = Inl (Raised (StepError ''m'' ''n'' None))"
proof -
  let ?w = "demo_world [(''a'', \<lparr>out_data = PNone,
     out_error = Some \<lparr>me_message = ''m'', me_name = ''n'', me_stack = None\<rparr>\<rparr>)]"
  have memo: "dget (w_memos ?w) (ps_hashed (run_parsed (demo_exe 0 None) ''a'' ?w)) =
     Some \<lparr>out_data = PNone, out_error = Some \<lparr>me_message = ''m'', me_name = ''n'', me_stack = None\<rparr>\<rparr>"
    by simp (simp add: demo_world_def)
  show ?thesis
    using step_run_replays_error [OF memo, of _ None demo_handler] by (simp add: demo_world_def)
qed

theorem step_run_new_witness:
  "user (w_out (snd (Step_run (demo_exe 0 None) ''a'' None demo_handler (demo_world [])))) = [''ran'']
   \<and> user (w_out (snd (Step_run (demo_exe 0 (Some ''b'')) ''a'' None demo_handler (demo_world [])))) = []"
proof -
  have new: "dget (w_memos (demo_world [])) (ps_hashed (run_parsed (demo_exe 0 t) ''a'' (demo_world []))) = None" for t
    by (simp add: demo_world_def)
  have reported: "run_reported (demo_exe 0 t) ''a'' (demo_world []) =
     (demo_world [])\<lparr>w_counts := [(''a'', 1)],
        w_mgr := \<lparr>mg_middleware = [], mg_disabled_hooks = [''before_execution'']\<rparr>\<rparr>" for t
    by (simp add: run_reported_def after_pop_def run_counted_def parse_step_id_def StepIDCounter_increment_def
        StepMemos_pop_def dhas_def dkeys_def on_manager_def before_execution_def new_manager_def retM_def
        demo_world_def Let_def)
  show ?thesis
    unfolding step_run_new [OF new]
    by (simp add: reported, simp add: demo_handler_def monad_simps demo_defs Let_def)
qed

end
