(* ===== verification/Urls.thy ===== *)
theory Urls
  imports Transforms
begin

text \<open>
  What the SDK uses of Python's \<open>urllib.parse\<close>: \<open>urlparse\<close>, \<open>urlunparse\<close>, \<open>urljoin\<close> with a rooted path,
  \<open>urlencode\<close> and \<open>parse_qs\<close>.  Percent decoding yields the UTF-8 bytes of the decoded text.  Not
  modelled: the address check of a bracketed host and the Unicode normalization check of a host.
\<close>

record parsed_url =
  u_scheme :: string
  u_netloc :: string
  u_path :: string
  u_params :: string
  u_query :: string
  u_fragment :: string

definition is_ascii_alpha :: "char \<Rightarrow> bool" where
  "is_ascii_alpha c = (let n = (of_char c :: nat) in (65 \<le> n \<and> n \<le> 90) \<or> (97 \<le> n \<and> n \<le> 122))"

definition is_scheme_char :: "char \<Rightarrow> bool" where
  "is_scheme_char c = (is_ascii_alpha c \<or> is_digit c \<or> c \<in> set ''+-.'')"

definition uses_netloc :: "string list" where
  "uses_netloc = ['''', ''ftp'', ''http'', ''gopher'', ''nntp'', ''telnet'', ''imap'', ''wais'', ''file'',
     ''mms'', ''https'', ''shttp'', ''snews'', ''prospero'', ''rtsp'', ''rtsps'', ''rtspu'', ''rsync'', ''svn'',
     ''svn+ssh'', ''sftp'', ''nfs'', ''git'', ''git+ssh'', ''ws'', ''wss'']"

definition uses_relative :: "string list" where
  "uses_relative = ['''', ''ftp'', ''http'', ''gopher'', ''nntp'', ''imap'', ''wais'', ''file'', ''https'',
     ''shttp'', ''mms'', ''prospero'', ''rtsp'', ''rtsps'', ''rtspu'', ''sftp'', ''svn'', ''svn+ssh'', ''ws'', ''wss'']"

definition uses_params :: "string list" where
  "uses_params = ['''', ''ftp'', ''hdl'', ''prospero'', ''http'', ''https'', ''shttp'', ''rtsp'', ''rtsps'',
     ''rtspu'', ''sip'', ''sips'', ''mms'', ''sftp'', ''tel'']"

definition split_scheme :: "string \<Rightarrow> string \<times> string" where
  "split_scheme url = (case split_first (CHR '':'') url of
      (s, Some rest) \<Rightarrow> if s \<noteq> [] \<and> is_ascii_alpha (hd s) \<and> list_all is_scheme_char s
                        then (py_lower s, rest) else ([], url)
    | (s, None) \<Rightarrow> ([], url))"

definition split_netloc :: "string \<Rightarrow> string \<times> string" where
  "split_netloc url = (if take 2 url = ''//''
     then (takeWhile (\<lambda>c. c \<notin> set ''/?#'') (drop 2 url), dropWhile (\<lambda>c. c \<notin> set ''/?#'') (drop 2 url))
     else ([], url))"

definition opt_part :: "string option \<Rightarrow> string" where
  "opt_part p = (case p of None \<Rightarrow> [] | Some s \<Rightarrow> s)"

definition split_params :: "string \<Rightarrow> string \<times> string" where
  "split_params path =
     (let tail = rev (takeWhile (\<lambda>c. c \<noteq> CHR ''/'') (rev path));
          front = take (length path - length tail) path
      in case split_first (CHR '';'') tail of (a, None) \<Rightarrow> (path, []) | (a, Some b) \<Rightarrow> (front @ a, b))"

definition strip_url :: "string \<Rightarrow> string" where
  "strip_url url = filter (\<lambda>c. c \<notin> set [char_of (9::nat), char_of (10::nat), char_of (13::nat)])
     (dropWhile (\<lambda>c. (of_char c :: nat) \<le> 32) url)"

text \<open>The left is the message of the \<open>ValueError\<close> that is raised.\<close>

definition urlparse :: "string \<Rightarrow> string + parsed_url" where
  "urlparse url0 =
     (let (scheme, rest) = split_scheme (strip_url url0);
          (netloc, rest) = split_netloc rest in
      if (CHR ''['' \<in> set netloc) \<noteq> (CHR '']'' \<in> set netloc) then Inl ''Invalid IPv6 URL''
      else (let (rest, fragment) = split_first (CHR ''#'') rest;
                (path, query) = split_first (CHR ''?'') rest;
                (path, params) = (if scheme \<in> set uses_params then split_params path else (path, []))
            in Inr \<lparr>u_scheme = scheme, u_netloc = netloc, u_path = path, u_params = params,
                    u_query = opt_part query, u_fragment = opt_part fragment\<rparr>))"

definition urlunparse :: "parsed_url \<Rightarrow> string" where
  "urlunparse u =
     (let url = (if u_params u \<noteq> [] then u_path u @ '';'' @ u_params u else u_path u);
          url = (if u_netloc u \<noteq> [] \<or> (u_scheme u \<noteq> [] \<and> u_scheme u \<in> set uses_netloc \<and> take 2 url \<noteq> ''//'')
                 then ''//'' @ u_netloc u @ (if url \<noteq> [] \<and> take 1 url \<noteq> ''/'' then ''/'' @ url else url)
                 else url);
          url = (if u_scheme u \<noteq> [] then u_scheme u @ '':'' @ url else url);
          url = (if u_query u \<noteq> [] then url @ ''?'' @ u_query u else url)
      in if u_fragment u \<noteq> [] then url @ ''#'' @ u_fragment u else url)"

text \<open>\<open>urljoin(base, url)\<close> for a \<open>url\<close> that starts with one slash and has no scheme or host.\<close>

fun resolve_dots :: "string list \<Rightarrow> string list \<Rightarrow> string list" where
  "resolve_dots acc [] = rev acc"
| "resolve_dots acc (s # ss) =
     (if s = ''..'' then resolve_dots (tl acc) ss
      else if s = ''.'' then resolve_dots acc ss else resolve_dots (s # acc) ss)"

definition join_path :: "string \<Rightarrow> string" where
  "join_path path =
     (let segments = split_all (CHR ''/'') path;
          resolved = resolve_dots [] segments;
          resolved = (if last segments \<in> {''.'', ''..''} then resolved @ [''''] else resolved);
          out = join_with ''/'' resolved
      in if out = [] then ''/'' else out)"

definition urljoin_rooted :: "string \<Rightarrow> string \<Rightarrow> string + string" where
  "urljoin_rooted base url =
     (if base = [] then Inr url
      else (case (urlparse base, urlparse url) of
        (Inl e, _) \<Rightarrow> Inl e
      | (_, Inl e) \<Rightarrow> Inl e
      | (Inr b, Inr u) \<Rightarrow>
          if u_scheme b \<notin> set uses_relative then Inr url
          else Inr (urlunparse (u\<lparr>u_scheme := u_scheme b,
                 u_netloc := (if u_scheme b \<in> set uses_netloc then u_netloc b else u_netloc u),
                 u_path := join_path (u_path u)\<rparr>))))"

section \<open>Query strings\<close>

definition hex_upper :: "nat \<Rightarrow> char" where
  "hex_upper n = (if n < 10 then char_of (48 + n) else char_of (55 + n))"

definition is_unreserved :: "char \<Rightarrow> bool" where
  "is_unreserved c = (is_ascii_alpha c \<or> is_digit c \<or> c \<in> set ''_.-~'')"

definition quote_byte :: "char \<Rightarrow> string" where
  "quote_byte c = (if is_unreserved c then [c] else if c = CHR '' '' then ''+''
     else (let n = (of_char c :: nat) in [CHR ''%'', hex_upper (n div 16), hex_upper (n mod 16)]))"

definition quote_plus :: "string \<Rightarrow> string" where
  "quote_plus s = concat (map quote_byte (utf8 s))"

definition urlencode :: "(string \<times> string) list \<Rightarrow> string" where
  "urlencode kvs = join_with ''&'' (map (\<lambda>(k, v). quote_plus k @ ''='' @ quote_plus v) kvs)"

fun unquote_plus :: "string \<Rightarrow> bytes" where
  "unquote_plus [] = []"
| "unquote_plus [c] = (if c = CHR ''+'' then '' '' else [c])"
| "unquote_plus [c, d] = (if c = CHR ''+'' then CHR '' '' # unquote_plus [d] else c # unquote_plus [d])"
| "unquote_plus (c # d # e # cs) =
     (if c = CHR ''+'' then CHR '' '' # unquote_plus (d # e # cs)
      else if c = CHR ''%'' then
        (case (hex_val d, hex_val e) of
           (Some h, Some l) \<Rightarrow> char_of (16 * h + l) # unquote_plus cs
         | _ \<Rightarrow> c # unquote_plus (d # e # cs))
      else c # unquote_plus (d # e # cs))"

definition parse_qsl :: "string \<Rightarrow> (bytes \<times> bytes) list" where
  "parse_qsl qs = List.map_filter (\<lambda>part.
     (case split_first (CHR ''='') part of
        (k, Some v) \<Rightarrow> if v = [] then None else Some (unquote_plus k, unquote_plus v)
      | (k, None) \<Rightarrow> None)) (split_all (CHR ''&'') qs)"

text \<open>\<open>parse_qs(qs)[key][0]\<close>, when the key is present.\<close>

definition qs_first :: "string \<Rightarrow> string \<Rightarrow> bytes option" where
  "qs_first qs key = map_of (parse_qsl qs) key"

section \<open>Round trip of query strings\<close>

lemma hex_upper_val: "n < 16 \<Longrightarrow> hex_val (hex_upper n) = Some n"
  by (auto simp: hex_val_def hex_upper_def Let_def)

lemma of_char_less: "(of_char c :: nat) < 256"
  by (rule nat_of_char_less_256)

lemma hex_digits_bound: "(of_char c :: nat) div 16 < 16" "(of_char c :: nat) mod 16 < 16"
  using of_char_less [of c] by (simp_all add: less_mult_imp_div_less)

lemma unquote_plus_plain: "c \<noteq> CHR ''%'' \<Longrightarrow> c \<noteq> CHR ''+'' \<Longrightarrow> unquote_plus (c # cs) = c # unquote_plus cs"
  by (cases "(c # cs, cs)" rule: prod.exhaust, cases cs rule: list.exhaust) (auto, (cases "tl cs"; auto)+)

lemma unquote_plus_space: "unquote_plus (CHR ''+'' # cs) = CHR '' '' # unquote_plus cs"
proof (cases cs)
  case (Cons d ds)
  then show ?thesis by (cases ds) auto
qed simp

lemma unreserved_plain: "is_unreserved c \<Longrightarrow> c \<noteq> CHR ''%'' \<and> c \<noteq> CHR ''+'' \<and> c \<noteq> CHR ''&'' \<and> c \<noteq> CHR ''=''"
  by (auto simp: is_unreserved_def is_ascii_alpha_def is_digit_def)

lemma unquote_quote_byte: "unquote_plus (quote_byte c @ cs) = c # unquote_plus cs"
proof -
  have esc: "unquote_plus (CHR ''%'' # hex_upper (of_char c div 16) # hex_upper (of_char c mod 16) # cs)
      = char_of (16 * (of_char c div 16) + of_char c mod 16 :: nat) # unquote_plus cs"
    by (simp add: hex_upper_val hex_digits_bound)
  have "16 * (of_char c div 16) + of_char c mod 16 = (of_char c :: nat)"
    by (rule mult_div_mod_eq)
  with esc show ?thesis
    by (auto simp: quote_byte_def unquote_plus_space Let_def dest: unreserved_plain
        intro: unquote_plus_plain simp del: unquote_plus.simps)
qed

lemma unquote_quote: "unquote_plus (concat (map quote_byte s)) = s"
  by (induction s) (simp_all add: unquote_quote_byte)

lemma unquote_quote_plus: "unquote_plus (quote_plus s) = utf8 s"
  by (simp add: quote_plus_def unquote_quote)

lemma quote_byte_chars: "d \<in> set (quote_byte c) \<Longrightarrow> d \<noteq> CHR ''&'' \<and> d \<noteq> CHR ''=''"
proof -
  have hex: "hex_upper n \<noteq> CHR ''&'' \<and> hex_upper n \<noteq> CHR ''=''" if "n < 16" for n
    using hex_upper_val [OF that] by (auto simp: hex_val_def)
  with hex hex_digits_bound [of c] show "d \<in> set (quote_byte c) \<Longrightarrow> d \<noteq> CHR ''&'' \<and> d \<noteq> CHR ''=''"
    by (auto simp: quote_byte_def Let_def dest: unreserved_plain split: if_splits)
qed

lemma quote_plus_chars: "CHR ''&'' \<notin> set (quote_plus s)" "CHR ''='' \<notin> set (quote_plus s)"
  by (auto simp: quote_plus_def dest: quote_byte_chars)

lemma split_first_append: "x \<notin> set a \<Longrightarrow> split_first x (a @ x # b) = (a, Some b)"
  by (induction a) auto

lemma split_all_none: "x \<notin> set a \<Longrightarrow> split_all x a = [a]"
  by (induction a) auto

lemma split_all_append: "x \<notin> set a \<Longrightarrow> split_all x (a @ x # b) = a # split_all x b"
  by (induction a) auto

lemma quote_byte_nonempty: "quote_byte c \<noteq> []"
  by (auto simp: quote_byte_def Let_def)

lemma quote_plus_nonempty: "s \<noteq> [] \<Longrightarrow> quote_plus s \<noteq> []"
  by (cases s) (auto simp: quote_plus_def utf8_def utf8_char_def quote_byte_nonempty Let_def)

lemma parse_part:
  "v \<noteq> [] \<Longrightarrow> (case split_first (CHR ''='') (quote_plus k @ ''='' @ quote_plus v) of
        (k, Some v) \<Rightarrow> if v = [] then None else Some (unquote_plus k, unquote_plus v)
      | (k, None) \<Rightarrow> None) = Some (utf8 k, utf8 v)"
  using split_first_append [OF quote_plus_chars(2), of k "quote_plus v"]
  by (simp add: quote_plus_nonempty unquote_quote_plus)

lemma split_all_urlencode:
  "kvs \<noteq> [] \<Longrightarrow> split_all (CHR ''&'') (urlencode kvs) = map (\<lambda>(k, v). quote_plus k @ ''='' @ quote_plus v) kvs"
proof (induction kvs rule: induct_list012)
  case (2 p)
  then show ?case
    by (cases p) (simp add: urlencode_def quote_plus_chars split_all_none)
next
  case (3 p q kvs)
  obtain k v where p: "p = (k, v)" by (cases p)
  have enc: "urlencode (p # q # kvs) = (quote_plus k @ ''='' @ quote_plus v) @ CHR ''&'' # urlencode (q # kvs)"
    by (simp add: urlencode_def p)
  have "CHR ''&'' \<notin> set (quote_plus k @ ''='' @ quote_plus v)"
    by (simp add: quote_plus_chars)
  then have "split_all (CHR ''&'') (urlencode (p # q # kvs))
      = (quote_plus k @ ''='' @ quote_plus v) # split_all (CHR ''&'') (urlencode (q # kvs))"
    unfolding enc by (rule split_all_append)
  then show ?case
    using 3(2) by (simp add: p)
qed simp

lemma parse_qsl_urlencode:
  assumes "\<And>k v. (k, v) \<in> set kvs \<Longrightarrow> v \<noteq> []" and "kvs \<noteq> []"
  shows "parse_qsl (urlencode kvs) = map (\<lambda>(k, v). (utf8 k, utf8 v)) kvs"
proof -
  have "List.map_filter (\<lambda>part.
     (case split_first (CHR ''='') part of
        (k, Some v) \<Rightarrow> if v = [] then None else Some (unquote_plus k, unquote_plus v)
      | (k, None) \<Rightarrow> None)) (map (\<lambda>(k, v). quote_plus k @ ''='' @ quote_plus v) kvs)
     = map (\<lambda>(k, v). (utf8 k, utf8 v)) kvs"
    using assms(1)
  proof (induction kvs)
    case (Cons p kvs)
    obtain k v where p: "p = (k, v)" by (cases p)
    with Cons.prems have "v \<noteq> []" by auto
    then show ?case
      using parse_part [of v k] Cons.IH Cons.prems by (auto simp: p map_filter_simps)
  qed (simp add: map_filter_simps)
  with assms(2) show ?thesis by (simp add: parse_qsl_def split_all_urlencode)
qed

end
