(* ===== verification/Func.thy ===== *)
theory Func
  imports StepProps Urls
begin

text \<open>
  \<open>_internal/function.py\<close>: a function's options, its construction, its call in both modes and the
  configuration it is registered with.  A handler is a function of the context together with
  \<open>iscoroutinefunction\<close> of it; the step object it uses is the \<open>exe\<close> it was built for.
\<close>

section \<open>Functions\<close>

type_synonym 'u fn_handler = "('u exe \<Rightarrow> 'u handler) \<times> bool"

record 'u function_opts =
  fo_batch_events :: "batch option"
  fo_cancel :: "cancel list option"
  fo_concurrency :: "concurrency list option"
  fo_debounce :: "debounce option"
  fo_fully_qualified_id :: string
  fo_idempotency :: "string option"
  fo_local_id :: string
  fo_name :: string
  fo_on_failure :: "'u fn_handler option"
  fo_priority :: "string option"
  fo_rate_limit :: "rate_limit option"
  fo_retries :: "int option"
  fo_throttle :: "throttle option"
  fo_timeouts :: "timeouts option"
  fo_singleton :: "singleton option"

record 'u inngest_fn =
  fn_handler :: "'u fn_handler"
  fn_on_failure_fn_id :: "string option"
  fn_opts :: "'u function_opts"
  fn_triggers :: "trigger list"
  fn_output_type :: "string option"
  fn_middleware :: "'u uninit list"

abbreviation fn_id :: "'u inngest_fn \<Rightarrow> string" where
  "fn_id fn \<equiv> fo_fully_qualified_id (fn_opts fn)"

definition is_handler_async :: "'u inngest_fn \<Rightarrow> bool" where
  "is_handler_async fn = snd (fn_handler fn)"

definition is_on_failure_handler_async :: "'u inngest_fn \<Rightarrow> bool option" where
  "is_on_failure_handler_async fn = map_option snd (fo_on_failure (fn_opts fn))"

definition mk_Function :: "'u function_opts \<Rightarrow> trigger list \<Rightarrow> 'u fn_handler \<Rightarrow> string option
    \<Rightarrow> 'u uninit list option \<Rightarrow> exc + 'u inngest_fn" where
  "mk_Function opts trigger handler output_type middleware =
     (let fn = \<lparr>fn_handler = handler, fn_on_failure_fn_id = None, fn_opts = opts, fn_triggers = trigger,
                fn_output_type = output_type,
                fn_middleware = (case middleware of None \<Rightarrow> [] | Some ms \<Rightarrow> ms)\<rparr> in
      if fo_on_failure opts \<noteq> None then
        (if is_handler_async fn \<and> is_on_failure_handler_async fn = Some False
         then Inl (LibErr C_Error
           (''an async function cannot have a non-async on_failure handler (function '' @ fo_local_id opts @ '')''))
         else if is_handler_async fn = False \<and> is_on_failure_handler_async fn = Some True
         then Inl (LibErr C_Error
           (''a non-async function cannot have an async on_failure handler (function '' @ fo_local_id opts @ '')''))
         else Inr (fn\<lparr>fn_on_failure_fn_id := Some (fo_fully_qualified_id opts @ ''-failure'')\<rparr>))
      else Inr fn)"

definition get_id :: "'u inngest_fn \<Rightarrow> string" where
  "get_id fn = fo_fully_qualified_id (fn_opts fn)"

section \<open>Calling a function\<close>

definition add_middleware :: "'u uninit \<Rightarrow> ('u, unit) step_m" where
  "add_middleware m = (\<lambda>w. case manager_add m (w_mgr w) (w_out w) of
     (Inl e, o') \<Rightarrow> (Inl (Raised e), w\<lparr>w_out := o'\<rparr>)
   | (Inr mgr', o') \<Rightarrow> (Inr (), w\<lparr>w_mgr := mgr', w_out := o'\<rparr>))"

fun add_each_middleware :: "'u uninit list \<Rightarrow> ('u, unit) step_m" where
  "add_each_middleware [] = retM ()"
| "add_each_middleware (m # ms) = seqM (add_middleware m) (add_each_middleware ms)"

text \<open>The handler a function identifier selects and the type its output is serialized as.\<close>

definition select_handler :: "'u inngest_fn \<Rightarrow> string \<Rightarrow> exc + ('u fn_handler \<times> string option)" where
  "select_handler fn fnid =
     (if fn_id fn = fnid then Inr (fn_handler fn, fn_output_type fn)
      else if fn_on_failure_fn_id fn = Some fnid then
        (case fo_on_failure (fn_opts fn) of
           None \<Rightarrow> Inl (LibErr C_FunctionNotFoundError ''on_failure not defined'')
         | Some h \<Rightarrow> Inr (h, Some ''object''))
      else Inl (LibErr C_FunctionNotFoundError ''function ID mismatch''))"

text \<open>\<open>transform_output\<close> on the result: what it returns as an error is a value, what it raises is raised.\<close>

definition world_transform_output ::
  "('u manager \<Rightarrow> call_result \<Rightarrow> 'u outside \<Rightarrow> (exc + (exc + call_result)) \<times> 'u outside)
    \<Rightarrow> call_result \<Rightarrow> ('u, exc + call_result) step_m" where
  "world_transform_output transform call_res = (\<lambda>w. case transform (w_mgr w) call_res (w_out w) of
     (Inl e, o') \<Rightarrow> (Inl (Raised e), w\<lparr>w_out := o'\<rparr>)
   | (Inr r, o') \<Rightarrow> (Inr r, w\<lparr>w_out := o'\<rparr>))"

definition Function_call :: "'u inngest_fn \<Rightarrow> 'u exe \<Rightarrow> fn_context \<Rightarrow> string \<Rightarrow> ('u, call_result) step_m" where
  "Function_call fn exe ctx fnid =
     seqM (add_each_middleware (fn_middleware fn))
     (case select_handler fn fnid of
        Inl e \<Rightarrow> retM (CallResult_error e)
      | Inr (handler, output_type) \<Rightarrow>
          if \<not> snd handler then raiseM (Raised (PyExc ''UnreachableError'' ''handler is not async''))
          else
            bindM (set_step_context (ExecutionV0_run exe ctx (fst handler exe) output_type)) (\<lambda>call_res.
            bindM (world_transform_output transform_output call_res) (\<lambda>err.
            case err of
              Inl e \<Rightarrow> retM (CallResult_error e)
            | Inr call_res \<Rightarrow>
                bindM (with_manager before_response) (\<lambda>err.
                case err of Inl e \<Rightarrow> retM (CallResult_error e) | Inr _ \<Rightarrow> retM call_res))))"

definition Function_call_sync :: "'u inngest_fn \<Rightarrow> 'u exe \<Rightarrow> fn_context \<Rightarrow> string \<Rightarrow> ('u, call_result) step_m" where
  "Function_call_sync fn exe ctx fnid =
     seqM (add_each_middleware (fn_middleware fn))
     (case select_handler fn fnid of
        Inl e \<Rightarrow> retM (CallResult_error e)
      | Inr (handler, output_type) \<Rightarrow>
          if snd handler then raiseM (Raised (PyExc ''UnreachableError'' ''handler is not sync''))
          else
            bindM (set_step_context (ExecutionV0Sync_run exe ctx (fst handler exe) output_type)) (\<lambda>call_res.
            bindM (world_transform_output transform_output_sync call_res) (\<lambda>err.
            case err of
              Inl e \<Rightarrow> retM (CallResult_error e)
            | Inr call_res \<Rightarrow>
                bindM (with_manager before_response_sync) (\<lambda>err.
                case err of Inl e \<Rightarrow> retM (CallResult_error e) | Inr _ \<Rightarrow> retM call_res))))"

section \<open>Registration\<close>

record fn_config =
  cfg_main :: function_config
  cfg_on_failure :: "function_config option"

definition config_url :: "string \<Rightarrow> string \<Rightarrow> string" where
  "config_url app_url fnid = app_url @ ''?'' @ urlencode [(''fnId'', fnid), (''stepId'', ROOT_STEP_ID)]"

definition get_config :: "'u inngest_fn \<Rightarrow> string \<Rightarrow> exc + fn_config" where
  "get_config fn app_url =
     (let opts = fn_opts fn; fnid = fo_fully_qualified_id opts; name = fo_name opts in
      bindE (case fo_retries opts of None \<Rightarrow> Inr None
             | Some n \<Rightarrow> bindE (mk_Retries n) (\<lambda>r. Inr (Some r))) (\<lambda>retries.
      let url = config_url app_url fnid;
          runtime_type = (if starts_with url ''wss://'' then ''ws'' else ''http'');
          main = \<lparr>fc_batch_events = fo_batch_events opts, fc_cancel = fo_cancel opts,
             fc_concurrency = fo_concurrency opts, fc_debounce = fo_debounce opts, fc_id = fnid,
             fc_idempotency = fo_idempotency opts, fc_name = Some name, fc_priority = fo_priority opts,
             fc_rate_limit = fo_rate_limit opts,
             fc_steps = [(ROOT_STEP_ID, \<lparr>sc_id = ROOT_STEP_ID, sc_name = ROOT_STEP_ID, sc_retries = retries,
                sc_runtime = \<lparr>rt_type = runtime_type, rt_url = url\<rparr>\<rparr>)],
             fc_throttle = fo_throttle opts, fc_timeouts = fo_timeouts opts, fc_singleton = fo_singleton opts,
             fc_triggers = fn_triggers fn\<rparr>;
          on_failure = map_option (\<lambda>failure_id.
             \<lparr>fc_batch_events = None, fc_cancel = Some [], fc_concurrency = Some [], fc_debounce = None,
              fc_id = failure_id, fc_idempotency = None, fc_name = Some (name @ '' (failure)''),
              fc_priority = None, fc_rate_limit = None,
              fc_steps = [(ROOT_STEP_ID, \<lparr>sc_id = ROOT_STEP_ID, sc_name = ROOT_STEP_ID, sc_retries = Some 0,
                sc_runtime = \<lparr>rt_type = ''http'', rt_url = config_url app_url failure_id\<rparr>\<rparr>)],
              fc_throttle = None, fc_timeouts = None, fc_singleton = None,
              fc_triggers = [TriggerEvent (internal_event_value IE_FUNCTION_FAILED)
                 (Some (''event.data.function_id == '' @ [char_of (39::nat)] @ fnid @ [char_of (39::nat)]))]\<rparr>)
             (fn_on_failure_fn_id fn)
      in Inr \<lparr>cfg_main = main, cfg_on_failure = on_failure\<rparr>))"

text \<open>Options, a function and a context on which the properties can be instantiated.\<close>

definition demo_opts :: "'u function_opts" where
  "demo_opts = \<lparr>fo_batch_events = None, fo_cancel = None, fo_concurrency = None, fo_debounce = None,
     fo_fully_qualified_id = ''app-fn'', fo_idempotency = None, fo_local_id = ''fn'', fo_name = ''fn'',
     fo_on_failure = None, fo_priority = None, fo_rate_limit = None, fo_retries = None, fo_throttle = None,
     fo_timeouts = None, fo_singleton = None\<rparr>"

definition demo_fn :: "('u exe \<Rightarrow> 'u handler) \<Rightarrow> 'u inngest_fn" where
  "demo_fn h = \<lparr>fn_handler = (h, True), fn_on_failure_fn_id = None, fn_opts = demo_opts,
     fn_triggers = [TriggerEvent ''e'' None], fn_output_type = None, fn_middleware = []\<rparr>"

definition demo_ctx :: fn_context where
  "demo_ctx = \<lparr>cx_attempt = 0, cx_event = \<lparr>ev_data = [], ev_id = [], ev_name = ''e'', ev_ts = 0\<rparr>,
     cx_events = [], cx_logger_filtered = False, cx_run_id = ''run''\<rparr>"

end
