(* ===== verification/MockTrigger.thy ===== *)
theory MockTrigger
  imports Func
begin

text \<open>
  \<open>experimental/mocked\<close>: the client whose \<open>send\<close> reaches nobody, and \<open>trigger\<close>, which runs a function
  the way the Inngest server does: call it, keep the outputs of its steps, and call it again until it
  returns.  The planned steps are a Python set; \<open>pop\<close> says which position of the list of them
  \<open>set.pop\<close> takes.  The event loop that drives an async function is not modelled.
\<close>

section \<open>The mocked client\<close>

datatype events_arg = OneEvent event | ManyEvents "event list"

text \<open>Iterating an \<open>Event\<close> yields one pair per field of the model: \<open>data\<close>, \<open>id\<close>, \<open>name\<close>, \<open>ts\<close>.\<close>

definition iteration_count :: "events_arg \<Rightarrow> nat" where
  "iteration_count events = (case events of OneEvent e \<Rightarrow> 4 | ManyEvents es \<Rightarrow> length es)"

definition mock_send :: "events_arg \<Rightarrow> string list" where
  "mock_send events = replicate (iteration_count events) ''00000000000000000000000000''"

section \<open>The executor loop\<close>

datatype mock_status = COMPLETED | FAILED

fun mock_status_value :: "mock_status \<Rightarrow> string" where
  "mock_status_value COMPLETED = ''Completed''"
| "mock_status_value FAILED = ''Failed''"

datatype stub = StubTimeout | StubValue pyobj

record mock_result =
  mr_error :: "exc option"
  mr_output :: pyobj
  mr_status :: mock_status

record mock_state =
  ms_stack :: "string list"
  ms_steps :: "(string, pyobj) dict"
  ms_planned :: "string list"
  ms_attempt :: int

definition UnstubbedStepError :: "string \<Rightarrow> exc" where
  "UnstubbedStepError step_id = PyExc ''UnstubbedStepError'' (''step '' @ step_id @ '' is not stubbed'')"

text \<open>What one turn of the loop decides: go on, return a result, or let an exception out.\<close>

datatype mock_next = Again mock_state | Finished mock_result | Aborted raised

definition mock_init :: mock_state where
  "mock_init = \<lparr>ms_stack = [], ms_steps = [], ms_planned = [], ms_attempt = 0\<rparr>"

definition failed_result :: "exc \<Rightarrow> mock_result" where
  "failed_result e = \<lparr>mr_error = Some e, mr_output = PNone, mr_status = FAILED\<rparr>"

definition keep_step :: "string \<Rightarrow> pyobj \<Rightarrow> mock_state \<Rightarrow> mock_state" where
  "keep_step k v st = st\<lparr>ms_steps := dset (ms_steps st) k v, ms_stack := ms_stack st @ [k]\<rparr>"

fun mock_handle_steps :: "int \<Rightarrow> (string, stub) dict \<Rightarrow> call_result list \<Rightarrow> mock_state \<Rightarrow> mock_next" where
  "mock_handle_steps max_attempt stubs [] st = Again st"
| "mock_handle_steps max_attempt stubs (r # rs) st =
     (case cr_step r of
        None \<Rightarrow> mock_handle_steps max_attempt stubs rs st
      | Some s \<Rightarrow>
          (case cr_error r of
             Some e \<Rightarrow>
               if ms_attempt st \<ge> max_attempt then Finished (failed_result e)
               else mock_handle_steps max_attempt stubs rs (st\<lparr>ms_attempt := ms_attempt st + 1\<rparr>)
           | None \<Rightarrow>
               (case dget stubs (si_display_name s) of
                  Some stub \<Rightarrow> mock_handle_steps max_attempt stubs rs
                    (keep_step (si_id s) (case stub of StubTimeout \<Rightarrow> PNone | StubValue v \<Rightarrow> v) st)
                | None \<Rightarrow>
                    if si_op s = OP_PLANNED then mock_handle_steps max_attempt stubs rs
                      (st\<lparr>ms_planned := List.insert (si_id s) (ms_planned st)\<rparr>)
                    else if si_op s = OP_SLEEP then
                      mock_handle_steps max_attempt stubs rs (keep_step (si_id s) PNone st)
                    else if si_op s = OP_STEP_RUN then
                      mock_handle_steps max_attempt stubs rs (keep_step (si_id s) (cr_output r) st)
                    else Aborted (Raised (UnstubbedStepError (si_display_name s))))))"

text \<open>\<open>if res.error\<close> and \<open>if res.multi\<close>: an exception object is true, an empty list is false.\<close>

definition mock_handle_result ::
  "int \<Rightarrow> (string, stub) dict \<Rightarrow> call_result \<Rightarrow> mock_state \<Rightarrow> mock_next" where
  "mock_handle_result max_attempt stubs res st =
     (case cr_error res of
        Some e \<Rightarrow>
          if ms_attempt st \<ge> max_attempt then Finished (failed_result e)
          else Again (st\<lparr>ms_attempt := ms_attempt st + 1\<rparr>)
      | None \<Rightarrow>
          (case cr_multi res of
             Some (r # rs) \<Rightarrow> mock_handle_steps max_attempt stubs (r # rs) st
           | _ \<Rightarrow> Finished \<lparr>mr_error = None, mr_output = cr_output res, mr_status = COMPLETED\<rparr>))"

definition mock_request :: "event list \<Rightarrow> mock_state \<Rightarrow> server_request" where
  "mock_request events st =
     \<lparr>req_ctx = \<lparr>ctx_attempt = ms_attempt st, ctx_disable_immediate_execution = True, ctx_max_attempts = None,
        ctx_run_id = ''test'', ctx_stack = Some (ms_stack st)\<rparr>,
      req_event = hd events, req_events = Some events, req_steps = ms_steps st, req_use_api = False\<rparr>"

text \<open>What the loop is given: the environment's parsers and hash, and the arguments of \<open>trigger\<close>.\<close>

record 'u mock_args =
  ma_json :: "bytes \<Rightarrow> exc + pyobj"
  ma_sha1 :: "bytes \<Rightarrow> string"
  ma_pop :: "string list \<Rightarrow> nat"
  ma_fn :: "'u inngest_fn"
  ma_events :: "event list"
  ma_client :: "'u client"
  ma_stubs :: "(string, stub) dict"

definition mock_pop :: "(string list \<Rightarrow> nat) \<Rightarrow> string list \<Rightarrow> string option \<times> string list" where
  "mock_pop pop planned =
     (if planned = [] then (None, [])
      else (let k = planned ! (pop planned mod length planned) in (Some k, removeAll k planned)))"

definition max_attempt :: "'u inngest_fn \<Rightarrow> int" where
  "max_attempt fn = (case fo_retries (fn_opts fn) of None \<Rightarrow> 4 | Some r \<Rightarrow> r)"

definition mock_exe :: "'u mock_args \<Rightarrow> mock_state \<Rightarrow> string option \<Rightarrow> 'u exe" where
  "mock_exe a st step_id = \<lparr>ex_client = ma_client a, ex_request = mock_request (ma_events a) st,
     ex_target_hashed_id = step_id, ex_sha1 = ma_sha1 a\<rparr>"

definition mock_context :: "'u mock_args \<Rightarrow> mock_state \<Rightarrow> fn_context" where
  "mock_context a st = \<lparr>cx_attempt = ms_attempt st, cx_event = hd (ma_events a), cx_events = ma_events a,
     cx_logger_filtered = False, cx_run_id = ''test''\<rparr>"

definition mock_world :: "'u mock_args \<Rightarrow> mock_state \<Rightarrow> 'u manager \<Rightarrow> 'u outside \<Rightarrow> 'u world" where
  "mock_world a st mgr out = \<lparr>w_memos = StepMemos_from_raw (ma_json a) (ms_steps st), w_counts = [],
     w_in_parallel = False, w_in_step = False, w_step_context = False, w_mgr = mgr, w_out = out\<rparr>"

definition mock_call :: "'u mock_args \<Rightarrow> mock_state \<Rightarrow> string option \<Rightarrow> ('u, call_result) step_m" where
  "mock_call a st step_id =
     (if is_handler_async (ma_fn a)
      then Function_call (ma_fn a) (mock_exe a st step_id) (mock_context a st) (fn_id (ma_fn a))
      else Function_call_sync (ma_fn a) (mock_exe a st step_id) (mock_context a st) (fn_id (ma_fn a)))"

text \<open>One turn of the loop.\<close>

definition mock_turn :: "'u mock_args \<Rightarrow> mock_state \<Rightarrow> 'u outside \<Rightarrow> mock_next \<times> 'u outside" where
  "mock_turn a st0 out =
     (let (step_id, planned) = mock_pop (ma_pop a) (ms_planned st0);
          st = st0\<lparr>ms_planned := planned\<rparr> in
      case from_client (ma_client a) out of
        (Inl e, out1) \<Rightarrow> (Aborted (Raised e), out1)
      | (Inr mgr, out1) \<Rightarrow>
          (case mock_call a st step_id (mock_world a st mgr out1) of
             (Inl r, w) \<Rightarrow> (Aborted r, w_out w)
           | (Inr res, w) \<Rightarrow> (mock_handle_result (max_attempt (ma_fn a)) (ma_stubs a) res st, w_out w)))"

text \<open>The \<open>while True\<close> loop; \<open>None\<close> is a loop that does not end.\<close>

partial_function (option) mock_loop ::
  "'u mock_args \<Rightarrow> mock_state \<Rightarrow> 'u outside \<Rightarrow> ((raised + mock_result) \<times> 'u outside) option" where
  "mock_loop a st out =
     (case mock_turn a st out of
        (Again st', out') \<Rightarrow> mock_loop a st' out'
      | (Finished r, out') \<Rightarrow> Some (Inr r, out')
      | (Aborted e, out') \<Rightarrow> Some (Inl e, out'))"

text \<open>\<open>trigger\<close>; a single event is the list of it.\<close>

definition trigger_fn :: "'u mock_args \<Rightarrow> 'u outside \<Rightarrow> ((raised + mock_result) \<times> 'u outside) option" where
  "trigger_fn a out =
     (if ma_events a = [] then Some (Inl (Raised (Exception ''Must provide at least 1 event'')), out)
      else mock_loop a mock_init out)"

end
