(* ===== verification/Durable.thy ===== *)
theory Durable
  imports MockTrigger
begin

text \<open>
  Durable execution.  A sequential Inngest function is a \<open>prog\<close>: it returns, fails, or performs a step
  and continues with its value; its effects on the outside are inside steps.  The executor calls it
  again and again, each time from its first line, with the outputs kept so far.  \<open>direct\<close> is what the
  function means: every step is performed once, in order, and a step that fails with a retriable error is
  retried while attempts are left.  The theorem at the end says that the executor loop ends and computes the same,
  unless an error that must not be retried ends the run: those the loop retries too.
\<close>

section \<open>Programs\<close>

datatype 'u prog =
    P_return pyobj
  | P_fail exc
  | P_run string "'u \<Rightarrow> (exc + pyobj) \<times> 'u" "pyobj \<Rightarrow> 'u prog"
  | P_sleep string datetime "pyobj \<Rightarrow> 'u prog"
  | P_invoke string string pyobj "pyobj \<Rightarrow> 'u prog"

text \<open>A step's function acts on the user's state.\<close>

definition on_user :: "('u \<Rightarrow> (exc + pyobj) \<times> 'u) \<Rightarrow> ('u, pyobj) step_m" where
  "on_user h = (\<lambda>w. case h (user (w_out w)) of (r, u) \<Rightarrow>
     (case r of Inl e \<Rightarrow> Inl (Raised e) | Inr v \<Rightarrow> Inr v, w\<lparr>w_out := (w_out w)\<lparr>user := u\<rparr>\<rparr>))"

primrec run_prog :: "'u prog \<Rightarrow> 'u exe \<Rightarrow> ('u, pyobj) step_m" where
  "run_prog (P_return v) exe = retM v"
| "run_prog (P_fail e) exe = raiseM (Raised e)"
| "run_prog (P_run sid h k) exe = bindM (Step_run exe sid None (on_user h)) (\<lambda>v. run_prog (k v) exe)"
| "run_prog (P_sleep sid t k) exe = bindM (Step_sleep_until exe sid t) (\<lambda>v. run_prog (k v) exe)"
| "run_prog (P_invoke sid fid d k) exe =
     bindM (Step_invoke_by_id exe sid None fid d None None) (\<lambda>v. run_prog (k v) exe)"

section \<open>The direct meaning\<close>

text \<open>\<open>again\<close> says which errors are tried again while retries are left.  With \<open>is_retriable\<close> this is what the errors
  promise their users; the loop of \<open>trigger\<close> is shown to run with \<open>\<lambda>_. True\<close>.\<close>

fun retry :: "(exc \<Rightarrow> bool) \<Rightarrow> ('u \<Rightarrow> (exc + pyobj) \<times> 'u) \<Rightarrow> nat \<Rightarrow> 'u \<Rightarrow> (exc + pyobj) \<times> nat \<times> 'u" where
  "retry again h left u = (case h u of
      (Inr v, u') \<Rightarrow> (Inr v, left, u')
    | (Inl e, u') \<Rightarrow> (case left of 0 \<Rightarrow> (Inl e, 0, u') | Suc l \<Rightarrow> if again e then retry again h l u' else (Inl e, left, u')))"

declare retry.simps [simp del]

definition stub_value :: "stub \<Rightarrow> pyobj" where
  "stub_value s = (case s of StubTimeout \<Rightarrow> PNone | StubValue v \<Rightarrow> v)"

definition completed :: "pyobj \<Rightarrow> mock_result" where
  "completed v = \<lparr>mr_error = None, mr_output = v, mr_status = COMPLETED\<rparr>"

text \<open>\<open>left\<close> is the number of retries left.\<close>

primrec direct :: "(exc \<Rightarrow> bool) \<Rightarrow> 'u prog \<Rightarrow> (string, stub) dict \<Rightarrow> nat \<Rightarrow> 'u \<Rightarrow> (raised + mock_result) \<times> 'u" where
  "direct again (P_return v) stubs left u = (Inr (completed v), u)"
| "direct again (P_fail e) stubs left u = (Inr (failed_result e), u)"
| "direct again (P_run sid h k) stubs left u =
     (case dget stubs sid of
        Some s \<Rightarrow> direct again (k (stub_value s)) stubs left u
      | None \<Rightarrow> (case retry again h left u of
            (Inr v, left', u') \<Rightarrow> direct again (k v) stubs left' u'
          | (Inl e, left', u') \<Rightarrow> (Inr (failed_result e), u')))"
| "direct again (P_sleep sid t k) stubs left u =
     direct again (k (case dget stubs sid of Some s \<Rightarrow> stub_value s | None \<Rightarrow> PNone)) stubs left u"
| "direct again (P_invoke sid fid d k) stubs left u =
     (case dget stubs sid of
        Some s \<Rightarrow> direct again (k (stub_value s)) stubs left u
      | None \<Rightarrow> (Inl (Raised (UnstubbedStepError sid)), u))"

text \<open>A run that ends with an error that must not be retried.\<close>

definition fails_finally :: "raised + mock_result \<Rightarrow> bool" where
  "fails_finally r = (case r of Inl e \<Rightarrow> False
     | Inr m \<Rightarrow> (case mr_error m of None \<Rightarrow> False | Some e \<Rightarrow> \<not> is_retriable e))"

lemma retry_all_errors:
  assumes "\<And>e. fst (retry again h left u) = Inl e \<Longrightarrow> again e"
  shows "retry (\<lambda>_. True) h left u = retry again h left u"
  using assms
proof (induction left arbitrary: u)
  case 0
  then show ?case by (simp add: retry.simps [of _ h] split: prod.split sum.split)
next
  case (Suc left)
  show ?case
  proof (cases "h u")
    case (Pair r u')
    show ?thesis
    proof (cases r)
      case (Inl e)
      have again: "again e"
        using Suc.prems [of e] Pair Inl by (cases "again e") (simp_all add: retry.simps [of again h "Suc left"])
      with Suc.IH [of u'] Suc.prems Pair Inl show ?thesis by (simp add: retry.simps [of _ h "Suc left"])
    next
      case (Inr v)
      with Pair show ?thesis by (simp add: retry.simps [of _ h "Suc left"])
    qed
  qed
qed

lemma direct_all_errors:
  assumes "\<not> fails_finally (fst (direct is_retriable p stubs left u))"
  shows "direct (\<lambda>_. True) p stubs left u = direct is_retriable p stubs left u"
  using assms
proof (induction p arbitrary: left u)
  case (P_run sid h k)
  show ?case
  proof (cases "dget stubs sid")
    case None
    obtain r left' u' where r: "retry is_retriable h left u = (r, left', u')" by (cases "retry is_retriable h left u") auto
    have "retry (\<lambda>_. True) h left u = retry is_retriable h left u"
      by (rule retry_all_errors) (use P_run.prems None r in \<open>auto simp: fails_finally_def failed_result_def\<close>)
    with None r P_run.prems P_run.IH show ?thesis by (cases r) auto
  next
    case (Some s)
    with P_run show ?thesis by simp
  qed
next
  case (P_invoke sid fid d k)
  then show ?case by (auto split: option.splits)
qed auto

section \<open>Which programs\<close>

text \<open>
  A value is kept faithfully when the memo store reads back that value: it is not a dictionary of the
  shape of an \<open>Output\<close>, nor a text that pydantic parses to one, nor the empty sentinel.
\<close>

definition kept :: "(bytes \<Rightarrow> exc + pyobj) \<Rightarrow> pyobj \<Rightarrow> bool" where
  "kept json v \<longleftrightarrow> memo_of_raw json v = \<lparr>out_data = v, out_error = None\<rparr> \<and> v \<noteq> PEmpty"

definition plain_id :: "string \<Rightarrow> bool" where
  "plain_id s = list_all (\<lambda>c. (of_char c :: nat) < 128 \<and> c \<noteq> CHR '':'') s"

primrec ok_prog :: "'u prog \<Rightarrow> (pyobj \<Rightarrow> bool) \<Rightarrow> bool" where
  "ok_prog (P_return v) P = True"
| "ok_prog (P_fail e) P = True"
| "ok_prog (P_run sid h k) P =
     (plain_id sid \<and> (\<forall>u v u'. h u = (Inr v, u') \<longrightarrow> P v) \<and> (\<forall>v. P v \<longrightarrow> ok_prog (k v) P))"
| "ok_prog (P_sleep sid t k) P = (plain_id sid \<and> (\<forall>v. P v \<longrightarrow> ok_prog (k v) P))"
| "ok_prog (P_invoke sid fid d k) P =
     (plain_id sid \<and> serializable d \<and> (\<forall>v. P v \<longrightarrow> ok_prog (k v) P))"

lemma kept_PNone: "kept json PNone"
  by (simp add: kept_def memo_of_raw_def from_raw_def Output_validate_def as_dict_def)

section \<open>What a function is called with\<close>

definition logger_mw :: "'u middleware" where
  "logger_mw = base_MiddlewareSync\<lparr>
        mw_before_execution := modifyM enable_logging,
        mw_transform_input := modifyM (\<lambda>((ctx, steps), w). ((ctx\<lparr>cx_logger_filtered := True\<rparr>, steps), w))\<rparr>"

lemma from_client_default:
  "cl_middleware client = [] \<Longrightarrow>
   from_client client out = (Inr \<lparr>mg_middleware = [logger_mw], mg_disabled_hooks = []\<rparr>, disable_logging out)"
  by (simp add: from_client_def DEFAULT_CLIENT_MIDDLEWARE_def LoggerMiddleware_def manager_add_def
      new_manager_def logger_mw_def monad_simps)

lemma logger_mw_sel [simp]:
  "mw_before_execution logger_mw = modifyM enable_logging"
  "mw_transform_input logger_mw = modifyM (\<lambda>((ctx, steps), w). ((ctx\<lparr>cx_logger_filtered := True\<rparr>, steps), w))"
  "mw_after_execution logger_mw = retM ()" "mw_before_response logger_mw = retM ()"
  "mw_transform_output logger_mw = retM ()"
  by (simp_all add: logger_mw_def base_MiddlewareSync_def)

text \<open>A state between steps: no flag is set and the only middleware is the logger's.\<close>

definition quiet :: "'u world \<Rightarrow> bool" where
  "quiet w \<longleftrightarrow> \<not> w_in_step w \<and> \<not> w_in_parallel w \<and> mg_middleware (w_mgr w) = [logger_mw]"

lemma before_execution_quiet:
  assumes "mg_middleware mgr = [logger_mw]"
  shows "\<exists>mgr' w'. before_execution (mgr, w) = (Inr (), (mgr', w'))
    \<and> mg_middleware mgr' = [logger_mw] \<and> user w' = user w"
  using assms by (auto simp: before_execution_def monad_simps enable_logging_def Let_def)

lemma quiet_after_pop:
  assumes "quiet w"
  shows "quiet (after_pop before_execution k w)" "user (w_out (after_pop before_execution k w)) = user (w_out w)"
proof -
  from assms have mg: "mg_middleware (w_mgr w) = [logger_mw]" by (simp add: quiet_def)
  from before_execution_quiet [OF mg, of "w_out w"]
  have "quiet (after_pop before_execution k w) \<and> user (w_out (after_pop before_execution k w)) = user (w_out w)"
    using assms by (auto simp: after_pop_def on_manager_def quiet_def Let_def)
  then show "quiet (after_pop before_execution k w)" "user (w_out (after_pop before_execution k w)) = user (w_out w)"
    by simp_all
qed

lemma quiet_run_counted: "quiet (run_counted exe sid w) = quiet w"
  by (simp add: quiet_def)

text \<open>The state after a step is reported; it does not depend on the kind of the step.\<close>

lemma quiet_run_reported:
  assumes "quiet w"
  shows "quiet (run_reported exe sid w)" "user (w_out (run_reported exe sid w)) = user (w_out w)"
    "w_memos (run_reported exe sid w) = snd (StepMemos_pop (w_memos w) (ps_hashed (run_parsed exe sid w)))"
    "w_counts (run_reported exe sid w) = snd (parse_step_id (ex_sha1 exe) (w_counts w) sid)"
  using assms quiet_after_pop [of "run_counted exe sid w" "ps_hashed (run_parsed exe sid w)"]
  by (simp_all add: run_reported_def quiet_run_counted after_pop_frame)
     (simp add: run_counted_def)

section \<open>One step of a program\<close>

lemma wait_step_memo:
  assumes memo: "dget (w_memos w) (si_id s) = Some \<lparr>out_data = v, out_error = None\<rparr>"
    and s: "si_id s = ps_hashed (run_parsed exe sid w)" and v: "v \<noteq> PEmpty" and w: "\<not> w_in_step w"
  shows "bindM (with_step (report_step exe s) (deliver_memo p)) or_unreachable (run_counted exe sid w)
    = (Inr v, run_reported exe sid w)"
proof -
  let ?step = "apply_memo (new_ReportedStep s) \<lparr>out_data = v, out_error = None\<rparr>"
  have body: "deliver_memo p ?step w' = (Inr (Some v), w')" for w' :: "'a world"
    using v by (simp add: deliver_memo_def apply_memo_def new_ReportedStep_def retM_def)
  have "with_step (report_step exe s) (deliver_memo p) (run_counted exe sid w)
      = finallyM (deliver_memo p ?step) ReportedStep_exit ((run_reported exe sid w)\<lparr>w_in_step := True\<rparr>)"
    by (subst exe_async.with_report_memo [where memo = "\<lparr>out_data = v, out_error = None\<rparr>"])
       (use memo s w in \<open>simp_all add: snd_report_step run_reported_def\<close>)
  also have "\<dots> = (Inr (Some v), (run_reported exe sid w)\<lparr>w_in_step := False\<rparr>)"
    by (rule finally_exit [of "deliver_memo p ?step", OF body, THEN trans]) simp
  also have "\<dots> = (Inr (Some v), run_reported exe sid w)"
    using w by simp
  finally show ?thesis by (simp add: bindM_cong_step or_unreachable_def retM_def)
qed

lemma wait_step_new:
  assumes new: "dget (w_memos w) (si_id s) = None" and s: "si_id s = ps_hashed (run_parsed exe sid w)"
    and op: "si_op s \<noteq> OP_STEP_RUN" and t: "ex_target_hashed_id exe = None"
  shows "bindM (with_step (report_step exe s) (deliver_memo p)) or_unreachable (run_counted exe sid w)
    = (Inl (ResponseInterrupt [mk_StepResponse s]), run_reported exe sid w)"
proof -
  have "report_decision exe (w_in_parallel (run_counted exe sid w)) s = Inl (ResponseInterrupt [mk_StepResponse s])"
    using op t by (simp add: report_decision_def plan_if_run_def)
  moreover have "dget (w_memos (run_counted exe sid w)) (si_id s) = None"
    using new by simp
  ultimately have "with_step (report_step exe s) (deliver_memo p) (run_counted exe sid w)
    = (Inl (ResponseInterrupt [mk_StepResponse s]), run_reported exe sid w)"
    by (subst exe_async.with_report_stop) (simp_all add: snd_report_step run_reported_def s)
  then show ?thesis by (rule bindM_raise_step)
qed

definition sleep_info :: "parsed_step_id \<Rightarrow> datetime \<Rightarrow> step_info" where
  "sleep_info p t = mk_StepInfo p (to_iso_utc t) OP_SLEEP None"

lemma sleep_info_sel [simp]:
  "si_id (sleep_info p t) = ps_hashed p" "si_op (sleep_info p t) = OP_SLEEP"
  "si_display_name (sleep_info p t) = ps_user_facing p"
  by (simp_all add: sleep_info_def mk_StepInfo_def)

lemma Step_sleep_until_eq:
  "Step_sleep_until exe sid t w =
     bindM (with_step (report_step exe (sleep_info (run_parsed exe sid w) t)) (deliver_memo (run_parsed exe sid w)))
       or_unreachable (run_counted exe sid w)"
  unfolding Step_sleep_until_def bindM_cong_step [where m = "parse_step_id_m exe sid", OF parse_step_id_m_eq]
    sleep_info_def by (rule refl)

text \<open>The options of an invocation of serializable data.\<close>

definition invoke_opts :: "'u exe \<Rightarrow> string \<Rightarrow> pyobj \<Rightarrow> (string, pyobj) dict" where
  "invoke_opts exe fid d = [(''function_id'', PStr (cl_app_id (ex_client exe) @ ''-'' @ fid)),
     (''payload'', PDict [(''data'', d), (''v'', PNone)]), (''timeout'', PNone)]"

definition invoke_info :: "'u exe \<Rightarrow> parsed_step_id \<Rightarrow> string \<Rightarrow> pyobj \<Rightarrow> step_info" where
  "invoke_info exe p fid d = mk_StepInfo p (ps_user_facing p) OP_INVOKE (Some (invoke_opts exe fid d))"

lemma invoke_info_sel [simp]:
  "si_id (invoke_info exe p fid d) = ps_hashed p" "si_op (invoke_info exe p fid d) = OP_INVOKE"
  "si_display_name (invoke_info exe p fid d) = ps_user_facing p"
  by (simp_all add: invoke_info_def mk_StepInfo_def)

lemma InvokeOpts_ok:
  "serializable d \<Longrightarrow>
   InvokeOpts_to_dict (cl_app_id (ex_client exe) @ ''-'' @ fid) d None None = Inr (invoke_opts exe fid d)"
  by (simp add: InvokeOpts_to_dict_def invoke_opts_def to_dict_json_Inr opt_str_def)

lemma Step_invoke_by_id_eq:
  assumes d: "serializable d"
  shows "Step_invoke_by_id exe sid None fid d None None w =
     bindM (with_step (report_step exe (invoke_info exe (run_parsed exe sid w) fid d))
       (deliver_memo (run_parsed exe sid w))) or_unreachable (run_counted exe sid w)"
  unfolding Step_invoke_by_id_def Let_def option.case
    bindM_cong_step [where m = "parse_step_id_m exe sid", OF parse_step_id_m_eq]
    InvokeOpts_ok [OF d] to_maybe_duration_str_def raise_ifM_def sum.case bindM_retM invoke_info_def
  by (rule refl)

text \<open>The next step of a program and its identifier.\<close>

fun next_id :: "'u prog \<Rightarrow> string option" where
  "next_id (P_run sid h k) = Some sid"
| "next_id (P_sleep sid t k) = Some sid"
| "next_id (P_invoke sid fid d k) = Some sid"
| "next_id p = None"

fun continue :: "'u prog \<Rightarrow> pyobj \<Rightarrow> 'u prog" where
  "continue (P_run sid h k) v = k v"
| "continue (P_sleep sid t k) v = k v"
| "continue (P_invoke sid fid d k) v = k v"
| "continue p v = p"

fun sendable :: "'u prog \<Rightarrow> bool" where
  "sendable (P_invoke sid fid d k) = serializable d"
| "sendable p = True"

lemma ok_prog_next:
  assumes "ok_prog p P"
  shows "sendable p" "next_id p = Some sid \<Longrightarrow> plain_id sid" "P v \<Longrightarrow> ok_prog (continue p v) P"
  using assms by (cases p; auto)+

lemma run_prog_memo:
  assumes sid: "next_id p = Some sid" and p: "sendable p" and w: "quiet w" and v: "v \<noteq> PEmpty"
    and memo: "dget (w_memos w) (ps_hashed (run_parsed exe sid w)) = Some \<lparr>out_data = v, out_error = None\<rparr>"
    and ser: "cl_serializer (ex_client exe) = None"
  shows "run_prog p exe w = run_prog (continue p v) exe (run_reported exe sid w)"
proof (cases p)
  case (P_run s h k)
  have "Step_run exe sid None (on_user h) w = (Inr v, run_reported exe sid w)"
    using Step_run_memo [OF memo, of None "on_user h"] v w ser by (simp add: quiet_def client_deserialize_def)
  with P_run sid show ?thesis by (simp add: bindM_cong_step)
next
  case (P_sleep s t k)
  have "Step_sleep_until exe sid t w = (Inr v, run_reported exe sid w)"
    unfolding Step_sleep_until_eq by (rule wait_step_memo) (use memo v w in \<open>simp_all add: quiet_def\<close>)
  with P_sleep sid show ?thesis by (simp add: bindM_cong_step)
next
  case (P_invoke s fid d k)
  with p have "serializable d" by simp
  then have "Step_invoke_by_id exe sid None fid d None None w = (Inr v, run_reported exe sid w)"
    by (subst Step_invoke_by_id_eq, assumption, intro wait_step_memo) (use memo v w in \<open>simp_all add: quiet_def\<close>)
  with P_invoke sid show ?thesis by (simp add: bindM_cong_step)
qed (use sid in simp_all)

section \<open>Replaying the kept steps\<close>

type_synonym history = "(string \<times> pyobj) list"

fun counts_after :: "(bytes \<Rightarrow> string) \<Rightarrow> id_counts \<Rightarrow> string list \<Rightarrow> id_counts" where
  "counts_after sha1 c [] = c"
| "counts_after sha1 c (s # ss) = counts_after sha1 (snd (parse_step_id sha1 c s)) ss"

definition kept_memo :: "pyobj \<Rightarrow> step_output" where
  "kept_memo v = \<lparr>out_data = v, out_error = None\<rparr>"

definition hist_ids :: "(bytes \<Rightarrow> string) \<Rightarrow> id_counts \<Rightarrow> history \<Rightarrow> string list" where
  "hist_ids sha1 c hist = map ps_hashed (parse_all sha1 c (map fst hist))"

definition memos_of :: "(bytes \<Rightarrow> string) \<Rightarrow> id_counts \<Rightarrow> history \<Rightarrow> memos" where
  "memos_of sha1 c hist = zip (hist_ids sha1 c hist) (map (kept_memo \<circ> snd) hist)"

fun after_hist :: "'u prog \<Rightarrow> history \<Rightarrow> 'u prog option" where
  "after_hist p [] = Some p"
| "after_hist p ((sid, v) # hist) = (if next_id p = Some sid then after_hist (continue p v) hist else None)"

lemma hist_ids_simps [simp]:
  "hist_ids sha1 c [] = []"
  "hist_ids sha1 c ((s, v) # hist) =
     ps_hashed (fst (parse_step_id sha1 c s)) # hist_ids sha1 (snd (parse_step_id sha1 c s)) hist"
  by (simp_all add: hist_ids_def split: prod.split)

lemma memos_of_simps [simp]:
  "memos_of sha1 c [] = []"
  "memos_of sha1 c ((s, v) # hist) =
     (ps_hashed (fst (parse_step_id sha1 c s)), kept_memo v) # memos_of sha1 (snd (parse_step_id sha1 c s)) hist"
  by (simp_all add: memos_of_def)

lemma dkeys_memos_of: "dkeys (memos_of sha1 c hist) = hist_ids sha1 c hist"
  by (induction hist arbitrary: c) (auto simp: dkeys_def)

lemma replay:
  assumes "after_hist p hist = Some q" and "ok_prog p P" and "list_all (\<lambda>(s, v). P v) hist"
    and P: "\<And>v. P v \<Longrightarrow> v \<noteq> PEmpty" and ser: "cl_serializer (ex_client exe) = None"
    and "quiet w" and "w_memos w = memos_of (ex_sha1 exe) (w_counts w) hist"
    and "distinct (hist_ids (ex_sha1 exe) (w_counts w) hist)"
  shows "\<exists>w'. run_prog p exe w = run_prog q exe w' \<and> quiet w' \<and> w_memos w' = []
     \<and> w_counts w' = counts_after (ex_sha1 exe) (w_counts w) (map fst hist)
     \<and> user (w_out w') = user (w_out w) \<and> ok_prog q P"
  using assms
proof (induction hist arbitrary: p w)
  case (Cons x hist)
  obtain sid v where x: "x = (sid, v)" by (cases x)
  let ?h = "ps_hashed (run_parsed exe sid w)" and ?w1 = "run_reported exe sid w"
  from Cons.prems(1) have nxt: "next_id p = Some sid" and after: "after_hist (continue p v) hist = Some q"
    by (simp_all add: x split: if_splits)
  from Cons.prems(3) have v: "P v" and rest: "list_all (\<lambda>(s, v). P v) hist" by (simp_all add: x)
  from Cons.prems(7) have memos: "w_memos w =
      (?h, kept_memo v) # memos_of (ex_sha1 exe) (snd (parse_step_id (ex_sha1 exe) (w_counts w) sid)) hist"
    by (simp add: x run_parsed_def)
  from Cons.prems(8) have dist: "?h \<notin> set (hist_ids (ex_sha1 exe) (snd (parse_step_id (ex_sha1 exe) (w_counts w) sid)) hist)"
     "distinct (hist_ids (ex_sha1 exe) (snd (parse_step_id (ex_sha1 exe) (w_counts w) sid)) hist)"
    by (simp_all add: x run_parsed_def)
  have memo: "dget (w_memos w) ?h = Some \<lparr>out_data = v, out_error = None\<rparr>"
    by (simp add: memos kept_memo_def)
  have "run_prog p exe w = run_prog (continue p v) exe ?w1"
    by (rule run_prog_memo [OF nxt ok_prog_next(1) [OF Cons.prems(2)] Cons.prems(6) P [OF v] memo ser])
  moreover have "w_memos ?w1 = memos_of (ex_sha1 exe) (w_counts ?w1) hist"
    using dist(1) ddel_notin [of "memos_of (ex_sha1 exe) (snd (parse_step_id (ex_sha1 exe) (w_counts w) sid)) hist" ?h]
    by (simp add: quiet_run_reported [OF Cons.prems(6)] memos StepMemos_pop_def ddel_def dhas_def dkeys_memos_of)
  moreover have "ok_prog (continue p v) P"
    by (rule ok_prog_next(3) [OF Cons.prems(2) v])
  ultimately show ?case
    using Cons.IH [OF after _ rest P ser quiet_run_reported(1) [OF Cons.prems(6)]] dist(2)
    by (simp add: x quiet_run_reported [OF Cons.prems(6)])
qed auto

section \<open>The step where the replay ends\<close>

definition planned_info :: "'u exe \<Rightarrow> 'u prog \<Rightarrow> string \<Rightarrow> 'u world \<Rightarrow> step_info" where
  "planned_info exe p sid w = (let q = run_parsed exe sid w in
     (case p of P_sleep s t k \<Rightarrow> sleep_info q t | P_invoke s fid d k \<Rightarrow> invoke_info exe q fid d
      | _ \<Rightarrow> (run_info q)\<lparr>si_op := OP_PLANNED\<rparr>))"

lemma run_prog_new:
  assumes sid: "next_id p = Some sid" and p: "sendable p" and w: "quiet w"
    and new: "dget (w_memos w) (ps_hashed (run_parsed exe sid w)) = None"
    and t: "ex_target_hashed_id exe = None" and d: "ctx_disable_immediate_execution (req_ctx (ex_request exe))"
  shows "run_prog p exe w = (Inl (ResponseInterrupt [mk_StepResponse (planned_info exe p sid w)]), run_reported exe sid w)"
proof (cases p)
  case (P_run s h k)
  have "Step_run exe sid None (on_user h) w
     = (Inl (ResponseInterrupt [mk_StepResponse (planned_info exe p sid w)]), run_reported exe sid w)"
    unfolding Step_run_fresh [OF new] using t d P_run by (simp add: planned_info_def Let_def)
  with P_run sid show ?thesis by (simp add: bindM_raise_step)
next
  case (P_sleep s u k)
  have "Step_sleep_until exe sid u w
     = (Inl (ResponseInterrupt [mk_StepResponse (planned_info exe p sid w)]), run_reported exe sid w)"
    unfolding Step_sleep_until_eq planned_info_def P_sleep prog.case Let_def
    by (rule wait_step_new) (use new w t in simp_all)
  with P_sleep sid show ?thesis by (simp add: bindM_raise_step)
next
  case (P_invoke s fid a k)
  with p have "serializable a" by simp
  then have "Step_invoke_by_id exe sid None fid a None None w
     = (Inl (ResponseInterrupt [mk_StepResponse (planned_info exe p sid w)]), run_reported exe sid w)"
    by (subst Step_invoke_by_id_eq, assumption, unfold planned_info_def P_invoke prog.case Let_def,
        intro wait_step_new) (use new w t in simp_all)
  with P_invoke sid show ?thesis by (simp add: bindM_raise_step)
qed (use sid in simp_all)

text \<open>The targeted step runs, once.\<close>

lemma run_prog_targeted:
  assumes w: "quiet w" and new: "dget (w_memos w) (ps_hashed (run_parsed exe sid w)) = None"
    and t: "ex_target_hashed_id exe = Some (ps_hashed (run_parsed exe sid w))"
    and h: "h (user (w_out w)) = (r, u)"
  shows "\<exists>w'. run_prog (P_run sid h k) exe w =
      (Inl (run_outcome exe (run_info (run_parsed exe sid w)) None (case r of Inl e \<Rightarrow> Inl (Raised e) | Inr v \<Rightarrow> Inr v)), w')
    \<and> quiet w' \<and> user (w_out w') = u"
proof -
  let ?w1 = "run_reported exe sid w"
  note q = quiet_run_reported [OF w, of exe sid]
  have "on_user h (?w1\<lparr>w_in_step := True\<rparr>) = (case r of Inl e \<Rightarrow> Inl (Raised e) | Inr v \<Rightarrow> Inr v,
      ?w1\<lparr>w_in_step := True, w_out := (w_out ?w1)\<lparr>user := u\<rparr>\<rparr>)"
    using h q(2) by (simp add: on_user_def)
  then have "Step_run exe sid None (on_user h) w =
     (Inl (run_outcome exe (run_info (run_parsed exe sid w)) None (case r of Inl e \<Rightarrow> Inl (Raised e) | Inr v \<Rightarrow> Inr v)),
      ?w1\<lparr>w_in_step := False, w_out := (w_out ?w1)\<lparr>user := u\<rparr>\<rparr>)"
    unfolding Step_run_fresh [OF new] using t w by (simp add: quiet_def Let_def)
  with q(1) show ?thesis by (simp add: bindM_raise_step quiet_def)
qed

section \<open>One call of the function\<close>

text \<open>The result of a call, from what the program answers.\<close>

definition outcome :: "raised + pyobj \<Rightarrow> call_result" where
  "outcome r = (case r of Inr v \<Rightarrow> CallResult_output v | Inl (Raised e) \<Rightarrow> CallResult_error e
     | Inl (ResponseInterrupt rs) \<Rightarrow> from_responses rs | Inl _ \<Rightarrow> CallResult_error (Exception []))"

definition proper :: "raised + pyobj \<Rightarrow> bool" where
  "proper r = (case r of Inr v \<Rightarrow> True | Inl (Raised e) \<Rightarrow> True
     | Inl (ResponseInterrupt rs) \<Rightarrow> rs \<noteq> [] | Inl _ \<Rightarrow> False)"

lemma transform_finish_start: "transform_output_finish r (transform_output_start r) = r"
proof (cases "cr_step r")
  case (Some s)
  have "s\<lparr>si_opts := (case si_opts s of None \<Rightarrow> si_opts s | Some d \<Rightarrow> si_opts s)\<rparr> = s"
    by (cases s; cases "si_opts s") simp_all
  with Some show ?thesis
    by (cases r; cases "si_opts s") (simp_all add: transform_output_finish_def transform_output_start_def)
qed (cases r; simp add: transform_output_finish_def transform_output_start_def)

lemma transform_single_noop: "transform_output_single (retM ()) r w = (Inr r, w)"
  by (simp add: transform_output_single_def retM_def transform_finish_start)

lemma transform_noop:
  assumes mg: "mg_middleware mgr = [logger_mw]"
    and r: "cr_multi r \<noteq> Some []"
  shows "transform_output mgr r w = (Inr (Inr r), w)"
proof -
  have "run_hooks mw_transform_output (rev (mg_middleware mgr)) = retM ()"
    by (rule run_hooks_ret) (simp add: mg)
  with r show ?thesis
    by (cases r) (auto simp: transform_output_def transform_output_with_def transform_single_noop split: option.split list.split)
qed

lemma outcome_multi:
  "proper r \<Longrightarrow> cr_multi (outcome r) \<noteq> Some []"
  by (auto simp: outcome_def proper_def CallResult_output_def CallResult_error_def from_responses_def
      split: sum.splits raised.splits)

lemma finish_outcome:
  assumes h: "handler w = (r, w2)" and q: "quiet w2" and r: "proper r"
  shows "ExecutionV0_finish (with_manager after_execution) handler w = (Inr (outcome r), w2)"
proof -
  have after: "with_manager after_execution w2 = (Inr (Inr ()), w2)"
    using q by (simp add: with_manager_def on_outside_def after_execution_def quiet_def monad_simps)
  show ?thesis
  proof (cases r)
    case (Inl e)
    with h r after show ?thesis
      by (cases e) (auto simp: ExecutionV0_finish_def outcome_def proper_def bindM_def catchM_def retM_def)
  next
    case (Inr v)
    with h after show ?thesis
      by (simp add: ExecutionV0_finish_def outcome_def bindM_def catchM_def retM_def)
  qed
qed

text \<open>The state in which the handler starts.\<close>

definition entered :: "'u world \<Rightarrow> 'u world \<Rightarrow> bool" where
  "entered w w1 \<longleftrightarrow> quiet w1 \<and> w_memos w1 = w_memos w \<and> w_counts w1 = w_counts w
     \<and> user (w_out w1) = user (w_out w)"

lemma run_enters:
  assumes q: "quiet w" and ser: "cl_serializer (ex_client exe) = None"
  shows "\<exists>ctx1 w1. entered w w1 \<and>
     (\<forall>r w2. handler ctx1 w1 = (r, w2) \<longrightarrow> quiet w2 \<longrightarrow> proper r \<longrightarrow>
        ExecutionV0_run exe ctx handler ty w = (Inr (outcome r), w2))"
proof -
  let ?ctx1 = "ctx\<lparr>cx_logger_filtered := True\<rparr>"
  from q have mg: "mg_middleware (w_mgr w) = [logger_mw]" by (simp add: quiet_def)
  have ti: "world_transform_input (transform_input (w_mgr w)) ctx w = (Inr (Inr ?ctx1), w)"
    by (simp add: world_transform_input_def transform_input_def mg monad_simps)
  obtain w1 where be: "(if StepMemos_size (w_memos w) = 0 then on_manager before_execution else retM (Inr ())) w
      = (Inr (Inr ()), w1)" and w1: "entered w w1"
  proof (cases "StepMemos_size (w_memos w) = 0")
    case True
    with before_execution_quiet [OF mg, of "w_out w"] q that show thesis
      by (auto simp: on_manager_def entered_def quiet_def)
  qed (use q that in \<open>auto simp: entered_def retM_def\<close>)
  have "ExecutionV0_run exe ctx handler ty w = (Inr (outcome r), w2)"
    if h: "handler ?ctx1 w1 = (r, w2)" "quiet w2" "proper r" for r w2
  proof -
    have ser_ret: "serialize_output (ex_client exe) ty = retM"
      using ser by (simp add: fun_eq_iff serialize_output_def client_serialize_def raise_ifM_def)
    have "ExecutionV0_run exe ctx handler ty w
        = ExecutionV0_finish (with_manager after_execution) (handler ?ctx1) w1"
      unfolding ExecutionV0_run_def ser_ret bindM_retM_right
      by (simp add: getM_def bindM_def ti be)
    also have "\<dots> = (Inr (outcome r), w2)" by (rule finish_outcome) (rule h)+
    finally show ?thesis .
  qed
  with w1 show ?thesis by blast
qed

lemma call_enters:
  assumes q: "quiet w" and ser: "cl_serializer (ex_client exe) = None" and c: "\<not> w_step_context w"
    and fn: "fn_middleware fn = []" "fn_handler fn = (\<lambda>exe ctx. m exe, True)"
  shows "\<exists>w1. entered w w1 \<and>
     (\<forall>r w2. m exe w1 = (r, w2) \<longrightarrow> quiet w2 \<longrightarrow> proper r \<longrightarrow>
       (\<exists>w3. Function_call fn exe ctx (fn_id fn) w = (Inr (outcome r), w3) \<and> user (w_out w3) = user (w_out w2)))"
proof -
  let ?w = "w\<lparr>w_step_context := True\<rparr>"
  let ?h = "\<lambda>ctx. m exe"
  have q': "quiet ?w" using q by (simp add: quiet_def)
  obtain w1 where w1: "entered ?w w1" and run: "\<And>r w2. m exe w1 = (r, w2) \<Longrightarrow> quiet w2 \<Longrightarrow> proper r \<Longrightarrow>
        ExecutionV0_run exe ctx ?h (fn_output_type fn) ?w = (Inr (outcome r), w2)"
    using run_enters [OF q' ser, of ?h ctx "fn_output_type fn"] by blast
  have "\<exists>w3. Function_call fn exe ctx (fn_id fn) w = (Inr (outcome r), w3) \<and> user (w_out w3) = user (w_out w2)"
    if r: "m exe w1 = (r, w2)" "quiet w2" "proper r" for r w2
  proof -
    let ?w3 = "w2\<lparr>w_step_context := False\<rparr>"
    from r(2) have mg: "mg_middleware (w_mgr ?w3) = [logger_mw]" by (simp add: quiet_def)
    have set: "set_step_context (ExecutionV0_run exe ctx ?h (fn_output_type fn)) w = (Inr (outcome r), ?w3)"
      using c run [OF r] by (simp add: set_step_context_def monad_simps)
    have out: "world_transform_output transform_output (outcome r) ?w3 = (Inr (Inr (outcome r)), ?w3)"
      using transform_noop [OF mg outcome_multi [OF r(3)]] by (simp add: world_transform_output_def)
    have resp: "with_manager before_response ?w3 = (Inr (Inr ()), ?w3)"
      using mg by (simp add: with_manager_def on_outside_def before_response_def monad_simps)
    have "Function_call fn exe ctx (fn_id fn) w = (Inr (outcome r), ?w3)"
      by (simp add: Function_call_def fn select_handler_def seqM_def bindM_def set out resp retM_def)
    then show ?thesis by simp
  qed
  moreover have "entered w w1" using w1 by (simp add: entered_def)
  ultimately show ?thesis by blast
qed

section \<open>One turn of the executor loop\<close>

definition raw_of :: "(bytes \<Rightarrow> string) \<Rightarrow> history \<Rightarrow> (string, pyobj) dict" where
  "raw_of sha1 hist = zip (hist_ids sha1 [] hist) (map snd hist)"

definition next_key :: "(bytes \<Rightarrow> string) \<Rightarrow> history \<Rightarrow> string \<Rightarrow> string" where
  "next_key sha1 hist sid = ps_hashed (fst (parse_step_id sha1 (counts_after sha1 [] (map fst hist)) sid))"

text \<open>An async function without middleware or serializer; \<open>m\<close> is what its handler does.\<close>

definition plain_args :: "'u mock_args \<Rightarrow> ('u exe \<Rightarrow> ('u, pyobj) step_m) \<Rightarrow> bool" where
  "plain_args a m \<longleftrightarrow> fn_handler (ma_fn a) = (\<lambda>exe ctx. m exe, True)
     \<and> fn_middleware (ma_fn a) = [] \<and> cl_middleware (ma_client a) = [] \<and> cl_serializer (ma_client a) = None"

definition prog_args :: "'u mock_args \<Rightarrow> 'u prog \<Rightarrow> bool" where
  "prog_args a p \<longleftrightarrow> plain_args a (run_prog p) \<and> (\<forall>x y. ma_sha1 a x = ma_sha1 a y \<longrightarrow> x = y)
     \<and> ok_prog p (kept (ma_json a))
     \<and> (\<forall>k s. dget (ma_stubs a) k = Some s \<longrightarrow> kept (ma_json a) (stub_value s))"

text \<open>The loop's state after the steps \<open>hist\<close>, where \<open>q\<close> is what the program has left to do.\<close>

definition loop_inv :: "'u mock_args \<Rightarrow> 'u prog \<Rightarrow> mock_state \<Rightarrow> history \<Rightarrow> 'u prog \<Rightarrow> bool" where
  "loop_inv a p st hist q \<longleftrightarrow> prog_args a p \<and> ms_steps st = raw_of (ma_sha1 a) hist
     \<and> after_hist p hist = Some q \<and> list_all (\<lambda>(s, v). plain_id s \<and> kept (ma_json a) v) hist"

lemma length_hist_ids: "length (hist_ids sha1 c hist) = length hist"
  by (simp add: hist_ids_def length_parse_all)

lemma hist_ids_append:
  "hist_ids sha1 c (hist @ [(s, v)]) =
     hist_ids sha1 c hist @ [ps_hashed (fst (parse_step_id sha1 (counts_after sha1 c (map fst hist)) s))]"
  by (induction hist arbitrary: c) auto

lemma raw_of_append: "raw_of sha1 (hist @ [(s, v)]) = raw_of sha1 hist @ [(next_key sha1 hist s, v)]"
  by (simp add: raw_of_def hist_ids_append length_hist_ids next_key_def)

lemma dkeys_raw_of: "dkeys (raw_of sha1 hist) = hist_ids sha1 [] hist"
  by (simp add: raw_of_def dkeys_def length_hist_ids)

lemma after_hist_append:
  "after_hist p hist = Some q \<Longrightarrow> next_id q = Some sid \<Longrightarrow>
   after_hist p (hist @ [(sid, v)]) = Some (continue q v)"
  by (induction hist arbitrary: p) (auto split: if_splits)

lemma hist_ids_distinct:
  assumes "\<forall>x y. sha1 x = sha1 y \<longrightarrow> x = y" and "list_all (\<lambda>(s, v). plain_id s) hist"
  shows "distinct (hist_ids sha1 [] hist)"
  unfolding hist_ids_def
proof (rule parse_all_hashed_distinct)
  show "\<And>x y. sha1 x = sha1 y \<Longrightarrow> x = y" using assms(1) by blast
  show "list_all (\<lambda>c. (of_char c :: nat) < 128 \<and> c \<noteq> CHR '':'') s" if "s \<in> set (map fst hist)" for s
  proof -
    from that obtain v where "(s, v) \<in> set hist" by auto
    with assms(2) have "plain_id s" by (auto simp: list_all_iff)
    then show ?thesis unfolding plain_id_def .
  qed
qed

lemma from_raw_of:
  "list_all (\<lambda>(s, v). kept json v) hist \<Longrightarrow> StepMemos_from_raw json (raw_of sha1 hist) = memos_of sha1 [] hist"
proof -
  have "StepMemos_from_raw json (zip ks (map snd hist)) = zip ks (map (kept_memo \<circ> snd) hist)"
    if "list_all (\<lambda>(s, v). kept json v) hist" for ks
    using that
  proof (induction hist arbitrary: ks)
    case (Cons x hist)
    obtain s v where x: "x = (s, v)" by (cases x)
    show ?case
    proof (cases ks)
      case (Cons k ks')
      have "StepMemos_from_raw json (zip ks' (map snd hist)) = zip ks' (map (kept_memo \<circ> snd) hist)"
        by (rule Cons.IH) (use Cons.prems in simp)
      moreover have "memo_of_raw json v = kept_memo v"
        using Cons.prems by (simp add: x kept_def kept_memo_def)
      ultimately show ?thesis by (simp add: Cons x StepMemos_from_raw_def comp_def)
    qed (simp add: StepMemos_from_raw_def)
  qed (simp add: StepMemos_from_raw_def)
  then show "list_all (\<lambda>(s, v). kept json v) hist \<Longrightarrow> ?thesis"
    by (simp add: raw_of_def memos_of_def)
qed

lemma loop_inv_ok:
  assumes "loop_inv a p st hist q"
  shows "ok_prog q (kept (ma_json a))"
proof -
  have "ok_prog q P" if "after_hist p hist = Some q" "ok_prog p P" "list_all (\<lambda>(s, v). P v) hist" for P
    using that
  proof (induction hist arbitrary: p)
    case (Cons x hist)
    then show ?case
      by (cases x) (auto split: if_splits intro: ok_prog_next(3))
  qed simp
  moreover from assms have "list_all (\<lambda>(s, v). kept (ma_json a) v) hist"
    by (auto simp: loop_inv_def list_all_iff)
  ultimately show ?thesis using assms by (auto simp: loop_inv_def prog_args_def)
qed

lemma loop_inv_fresh:
  assumes inv: "loop_inv a p st hist q" and sid: "next_id q = Some sid"
  shows "next_key (ma_sha1 a) hist sid \<notin> set (hist_ids (ma_sha1 a) [] hist)"
proof -
  have "plain_id sid" using ok_prog_next(2) [OF loop_inv_ok [OF inv] sid] .
  with inv have "list_all (\<lambda>(s, v). plain_id s) (hist @ [(sid, PNone)])"
    by (auto simp: loop_inv_def list_all_iff)
  with inv have "distinct (hist_ids (ma_sha1 a) [] (hist @ [(sid, PNone)]))"
    by (intro hist_ids_distinct) (simp_all add: loop_inv_def prog_args_def)
  then show ?thesis by (simp add: hist_ids_append next_key_def)
qed

text \<open>Keeping a step's value extends the history.\<close>

lemma loop_inv_keep:
  assumes inv: "loop_inv a p st hist q" and sid: "next_id q = Some sid" and v: "kept (ma_json a) v"
  shows "loop_inv a p (keep_step (next_key (ma_sha1 a) hist sid) v st) (hist @ [(sid, v)]) (continue q v)"
proof -
  have "\<not> dhas (raw_of (ma_sha1 a) hist) (next_key (ma_sha1 a) hist sid)"
    using loop_inv_fresh [OF inv sid] by (simp add: dhas_def dkeys_raw_of)
  moreover have "plain_id sid" using ok_prog_next(2) [OF loop_inv_ok [OF inv] sid] .
  ultimately show ?thesis
    using inv v after_hist_append [of p hist q sid v] sid
    by (auto simp: loop_inv_def keep_step_def dset_fresh raw_of_append)
qed

lemma loop_inv_frame:
  "loop_inv a p st hist q \<Longrightarrow> ms_steps st' = ms_steps st \<Longrightarrow> loop_inv a p st' hist q"
  by (simp add: loop_inv_def)

text \<open>A turn of the loop calls the handler in a quiet state with the kept memos and no identifier counted.\<close>

lemma turn_calls:
  assumes args: "plain_args a m" and pop: "mock_pop (ma_pop a) (ms_planned st) = (t, pl)"
  defines "st1 \<equiv> st\<lparr>ms_planned := pl\<rparr>"
  shows "\<exists>w1. quiet w1 \<and> w_memos w1 = StepMemos_from_raw (ma_json a) (ms_steps st) \<and> w_counts w1 = []
    \<and> user (w_out w1) = user out
    \<and> (\<forall>r w2. m (mock_exe a st1 t) w1 = (r, w2) \<longrightarrow> quiet w2 \<longrightarrow> proper r \<longrightarrow>
        (\<exists>out'. mock_turn a st out = (mock_handle_result (max_attempt (ma_fn a)) (ma_stubs a) (outcome r) st1, out')
           \<and> user out' = user (w_out w2)))"
proof -
  let ?mgr = "\<lparr>mg_middleware = [logger_mw], mg_disabled_hooks = []\<rparr>" and ?exe = "mock_exe a st1 t"
  let ?w = "mock_world a st1 ?mgr (disable_logging out)"
  have w: "quiet ?w" "\<not> w_step_context ?w" "w_counts ?w = []" "user (w_out ?w) = user out"
    "w_memos ?w = StepMemos_from_raw (ma_json a) (ms_steps st)"
    by (simp_all add: quiet_def mock_world_def disable_logging_def st1_def)
  have ser: "cl_serializer (ex_client ?exe) = None" using args by (simp add: plain_args_def mock_exe_def)
  obtain w0 where w0: "entered ?w w0" and call: "\<And>r w2. m ?exe w0 = (r, w2) \<Longrightarrow> quiet w2 \<Longrightarrow> proper r \<Longrightarrow>
      \<exists>w3. Function_call (ma_fn a) ?exe (mock_context a st1) (fn_id (ma_fn a)) ?w = (Inr (outcome r), w3)
        \<and> user (w_out w3) = user (w_out w2)"
    using call_enters [OF w(1) ser w(2), of "ma_fn a" m "mock_context a st1"] args
    unfolding plain_args_def by blast
  have "\<exists>out'. mock_turn a st out = (mock_handle_result (max_attempt (ma_fn a)) (ma_stubs a) (outcome r) st1, out')
           \<and> user out' = user (w_out w2)"
    if "m ?exe w0 = (r, w2)" "quiet w2" "proper r" for r w2
  proof -
    from call [of r w2] that obtain w3 where
      w3: "Function_call (ma_fn a) ?exe (mock_context a st1) (fn_id (ma_fn a)) ?w = (Inr (outcome r), w3)"
        "user (w_out w3) = user (w_out w2)" by auto
    have "is_handler_async (ma_fn a)" using args by (simp add: plain_args_def is_handler_async_def)
    then have "mock_call a st1 t ?w = (Inr (outcome r), w3)"
      using w3(1) by (simp add: mock_call_def)
    moreover have "from_client (ma_client a) out = (Inr ?mgr, disable_logging out)"
      using args by (intro from_client_default) (simp add: plain_args_def)
    ultimately show ?thesis
      using w3(2) pop by (simp add: mock_turn_def st1_def)
  qed
  with w0 w show ?thesis by (intro exI [of _ w0]) (auto simp: entered_def)
qed

lemma turn_enters:
  assumes inv: "loop_inv a p st hist q" and pop: "mock_pop (ma_pop a) (ms_planned st) = (t, pl)"
  defines "st1 \<equiv> st\<lparr>ms_planned := pl\<rparr>"
  shows "\<exists>w1. quiet w1 \<and> w_memos w1 = [] \<and> w_counts w1 = counts_after (ma_sha1 a) [] (map fst hist)
    \<and> user (w_out w1) = user out
    \<and> (\<forall>r w2. run_prog q (mock_exe a st1 t) w1 = (r, w2) \<longrightarrow> quiet w2 \<longrightarrow> proper r \<longrightarrow>
        (\<exists>out'. mock_turn a st out = (mock_handle_result (max_attempt (ma_fn a)) (ma_stubs a) (outcome r) st1, out')
           \<and> user out' = user (w_out w2)))"
proof -
  let ?exe = "mock_exe a st1 t"
  from inv have args: "prog_args a p" and steps: "ms_steps st = raw_of (ma_sha1 a) hist"
    and after: "after_hist p hist = Some q" and kept: "list_all (\<lambda>(s, v). kept (ma_json a) v) hist"
    by (auto simp: loop_inv_def list_all_iff)
  from args have plain: "plain_args a (run_prog p)" and ok: "ok_prog p (kept (ma_json a))"
    by (simp_all add: prog_args_def)
  obtain w0 where w0: "quiet w0" "w_memos w0 = memos_of (ma_sha1 a) [] hist" "w_counts w0 = []" "user (w_out w0) = user out"
    and call: "\<And>r w2. run_prog p ?exe w0 = (r, w2) \<Longrightarrow> quiet w2 \<Longrightarrow> proper r \<Longrightarrow>
      \<exists>out'. mock_turn a st out = (mock_handle_result (max_attempt (ma_fn a)) (ma_stubs a) (outcome r) st1, out')
           \<and> user out' = user (w_out w2)"
    using turn_calls [OF plain pop, of out] unfolding st1_def steps from_raw_of [OF kept] by blast
  have ser: "cl_serializer (ex_client ?exe) = None" using plain by (simp add: plain_args_def mock_exe_def)
  have dist: "distinct (hist_ids (ma_sha1 a) [] hist)"
    by (rule hist_ids_distinct)
       (use inv args in \<open>auto simp: loop_inv_def prog_args_def list_all_iff\<close>)
  have sha: "ex_sha1 ?exe = ma_sha1 a" by (simp add: mock_exe_def)
  have ne: "v \<noteq> PEmpty" if "kept (ma_json a) v" for v using that by (simp add: kept_def)
  obtain w1 where w1: "run_prog p ?exe w0 = run_prog q ?exe w1" "quiet w1" "w_memos w1 = []"
      "w_counts w1 = counts_after (ma_sha1 a) [] (map fst hist)" "user (w_out w1) = user (w_out w0)"
    using replay [OF after ok kept ne ser, of w0] w0 dist unfolding sha by auto
  with w0 call show ?thesis by (intro exI [of _ w1]) simp
qed

lemma handle_one:
  "mock_handle_result mx stubs (outcome (Inl (ResponseInterrupt [r]))) st =
     mock_handle_steps mx stubs [CallResult (sp_original_error r) None (sp_output r) (Some (sp_step r))] st"
  by (simp add: outcome_def from_responses_def mock_handle_result_def)

text \<open>A turn without a target ends at the first step that is not kept.\<close>

definition untargeted :: "'u mock_args \<Rightarrow> 'u prog \<Rightarrow> mock_state \<Rightarrow> history \<Rightarrow> mock_next" where
  "untargeted a q st hist = (case q of
      P_return v \<Rightarrow> Finished (completed v)
    | P_fail e \<Rightarrow> (if ms_attempt st \<ge> max_attempt (ma_fn a) then Finished (failed_result e)
                  else Again (st\<lparr>ms_attempt := ms_attempt st + 1\<rparr>))
    | P_run sid h k \<Rightarrow> (case dget (ma_stubs a) sid of
          Some s \<Rightarrow> Again (keep_step (next_key (ma_sha1 a) hist sid) (stub_value s) st)
        | None \<Rightarrow> Again (st\<lparr>ms_planned := [next_key (ma_sha1 a) hist sid]\<rparr>))
    | P_sleep sid t k \<Rightarrow> Again (keep_step (next_key (ma_sha1 a) hist sid)
          (case dget (ma_stubs a) sid of Some s \<Rightarrow> stub_value s | None \<Rightarrow> PNone) st)
    | P_invoke sid fid d k \<Rightarrow> (case dget (ma_stubs a) sid of
          Some s \<Rightarrow> Again (keep_step (next_key (ma_sha1 a) hist sid) (stub_value s) st)
        | None \<Rightarrow> Aborted (Raised (UnstubbedStepError sid))))"

lemma mock_state_same: "ms_planned st = [] \<Longrightarrow> st\<lparr>ms_planned := []\<rparr> = (st :: mock_state)"
  by (cases st) simp

lemma turn_untargeted:
  assumes inv: "loop_inv a p st hist q" and pl: "ms_planned st = []"
  shows "\<exists>out'. mock_turn a st out = (untargeted a q st hist, out') \<and> user out' = user out"
proof -
  let ?exe = "mock_exe a st None"
  have pop: "mock_pop (ma_pop a) (ms_planned st) = (None, [])" by (simp add: mock_pop_def pl)
  note st = mock_state_same [OF pl]
  obtain w1 where w1: "quiet w1" "w_memos w1 = []" "w_counts w1 = counts_after (ma_sha1 a) [] (map fst hist)"
      "user (w_out w1) = user out"
    and turn: "\<And>r w2. run_prog q ?exe w1 = (r, w2) \<Longrightarrow> quiet w2 \<Longrightarrow> proper r \<Longrightarrow>
        \<exists>out'. mock_turn a st out = (mock_handle_result (max_attempt (ma_fn a)) (ma_stubs a) (outcome r) st, out')
           \<and> user out' = user (w_out w2)"
    using turn_enters [OF inv pop, of out] unfolding st by blast
  show ?thesis
  proof (cases "next_id q")
    case None
    then consider (ret) v where "q = P_return v" | (fail) e where "q = P_fail e" by (cases q) auto
    then show ?thesis
    proof cases
      case ret
      with turn [of "Inr v" w1] w1 show ?thesis
        by (auto simp: retM_def proper_def outcome_def mock_handle_result_def CallResult_output_def
            untargeted_def completed_def)
    next
      case fail
      with turn [of "Inl (Raised e)" w1] w1 show ?thesis
        by (auto simp: raiseM_def proper_def outcome_def mock_handle_result_def CallResult_error_def untargeted_def)
    qed
  next
    case (Some sid)
    let ?s = "planned_info ?exe q sid w1"
    have key: "ps_hashed (run_parsed ?exe sid w1) = next_key (ma_sha1 a) hist sid"
      by (simp add: run_parsed_def next_key_def w1 mock_exe_def)
    have "run_prog q ?exe w1 = (Inl (ResponseInterrupt [mk_StepResponse ?s]), run_reported ?exe sid w1)"
      by (rule run_prog_new [OF Some ok_prog_next(1) [OF loop_inv_ok [OF inv]] w1(1)])
         (simp_all add: w1 mock_exe_def mock_request_def)
    from turn [OF this quiet_run_reported(1) [OF w1(1)]] obtain out' where
      out': "mock_turn a st out = (mock_handle_result (max_attempt (ma_fn a)) (ma_stubs a)
          (outcome (Inl (ResponseInterrupt [mk_StepResponse ?s]))) st, out')" "user out' = user out"
      by (auto simp: proper_def quiet_run_reported [OF w1(1)] w1)
    have "si_display_name ?s = sid" "si_id ?s = next_key (ma_sha1 a) hist sid"
      "si_op ?s = (case q of P_sleep s t k \<Rightarrow> OP_SLEEP | P_invoke s fid d k \<Rightarrow> OP_INVOKE | _ \<Rightarrow> OP_PLANNED)"
      by (cases q; use Some key in \<open>simp add: planned_info_def Let_def\<close>)+
    then have "mock_handle_result (max_attempt (ma_fn a)) (ma_stubs a)
          (outcome (Inl (ResponseInterrupt [mk_StepResponse ?s]))) st = untargeted a q st hist"
      unfolding handle_one using Some pl
      by (cases q) (auto simp: mk_StepResponse_def untargeted_def stub_value_def split: option.split stub.split)
    with out' show ?thesis by simp
  qed
qed

text \<open>A turn whose target is the program's next step runs that step.\<close>

definition targeted :: "int \<Rightarrow> string \<Rightarrow> exc + pyobj \<Rightarrow> mock_state \<Rightarrow> mock_next" where
  "targeted mx key r st = (case r of
      Inr v \<Rightarrow> Again (keep_step key v st)
    | Inl e \<Rightarrow> (if ms_attempt st \<ge> mx then Finished (failed_result e)
               else Again (st\<lparr>ms_attempt := ms_attempt st + 1\<rparr>)))"

lemma run_outcome_handled:
  assumes ser: "cl_serializer (ex_client exe) = None" and name: "dget stubs (si_display_name s) = None"
    and op: "si_op s = OP_STEP_RUN"
    and o': "o' = Inl (run_outcome exe s None (case r of Inl e \<Rightarrow> Inl (Raised e) | Inr v \<Rightarrow> Inr v))"
  shows "proper o' \<and> mock_handle_result mx stubs (outcome o') st = targeted mx (si_id s) r st"
proof (cases r)
  case (Inr v)
  with ser have "o' = Inl (ResponseInterrupt [(mk_StepResponse s)\<lparr>sp_output := v\<rparr>])"
    by (simp add: o' run_outcome_def client_serialize_def output_response_def)
  with Inr name op show ?thesis
    unfolding targeted_def by (simp add: handle_one mk_StepResponse_def proper_def)
next
  case (Inl e)
  then consider (out) "o' = Inl (Raised e)"
    | (step) x where "o' = Inl (ResponseInterrupt [(mk_StepResponse (s\<lparr>si_op := x\<rparr>))\<lparr>sp_original_error := Some e\<rparr>])"
    by (cases "(\<exists>m q. e = NonRetriableError m q) \<or> (\<exists>m t q. e = RetryAfterError m t q)")
       (auto simp: o' run_outcome_def error_response_def)
  then show ?thesis
  proof cases
    case out
    with Inl show ?thesis
      by (simp add: targeted_def proper_def outcome_def mock_handle_result_def CallResult_error_def)
  next
    case step
    with Inl name show ?thesis
      unfolding targeted_def by (simp add: handle_one mk_StepResponse_def proper_def)
  qed
qed

lemma turn_targeted:
  assumes inv: "loop_inv a p st hist (P_run sid h k)" and pl: "ms_planned st = [next_key (ma_sha1 a) hist sid]"
    and stub: "dget (ma_stubs a) sid = None" and h: "h (user out) = (r, u)"
  shows "\<exists>out'. mock_turn a st out = (targeted (max_attempt (ma_fn a)) (next_key (ma_sha1 a) hist sid) r
      (st\<lparr>ms_planned := []\<rparr>), out') \<and> user out' = u"
proof -
  let ?key = "next_key (ma_sha1 a) hist sid"
  let ?st = "st\<lparr>ms_planned := []\<rparr>" and ?exe = "mock_exe a (st\<lparr>ms_planned := []\<rparr>) (Some ?key)"
  have pop: "mock_pop (ma_pop a) (ms_planned st) = (Some ?key, [])" by (simp add: mock_pop_def pl)
  obtain w1 where w1: "quiet w1" "w_memos w1 = []" "w_counts w1 = counts_after (ma_sha1 a) [] (map fst hist)"
      "user (w_out w1) = user out"
    and turn: "\<And>r w2. run_prog (P_run sid h k) ?exe w1 = (r, w2) \<Longrightarrow> quiet w2 \<Longrightarrow> proper r \<Longrightarrow>
        \<exists>out'. mock_turn a st out = (mock_handle_result (max_attempt (ma_fn a)) (ma_stubs a) (outcome r) ?st, out')
           \<and> user out' = user (w_out w2)"
    using turn_enters [OF inv pop, of out] by blast
  have key: "ps_hashed (run_parsed ?exe sid w1) = ?key"
    by (simp add: run_parsed_def next_key_def w1 mock_exe_def)
  let ?s = "run_info (run_parsed ?exe sid w1)"
  let ?o = "Inl (run_outcome ?exe ?s None (case r of Inl e \<Rightarrow> Inl (Raised e) | Inr v \<Rightarrow> Inr v)) :: raised + pyobj"
  obtain w2 where w2: "run_prog (P_run sid h k) ?exe w1 = (?o, w2)" "quiet w2" "user (w_out w2) = u"
    using run_prog_targeted [OF w1(1), of ?exe sid h r u k] key w1 h by (auto simp: mock_exe_def)
  have ser: "cl_serializer (ex_client ?exe) = None"
    using inv by (simp add: loop_inv_def prog_args_def plain_args_def mock_exe_def)
  have handled: "proper ?o \<and> mock_handle_result (max_attempt (ma_fn a)) (ma_stubs a) (outcome ?o) ?st
      = targeted (max_attempt (ma_fn a)) (si_id ?s) r ?st"
    by (rule run_outcome_handled [OF ser]) (simp_all add: stub)
  with turn [OF w2(1,2)] w2(3) key show ?thesis by auto
qed

section \<open>The loop\<close>

definition retries_left :: "'u mock_args \<Rightarrow> mock_state \<Rightarrow> nat" where
  "retries_left a st = nat (max_attempt (ma_fn a) - ms_attempt st)"

definition loop_gives :: "'u mock_args \<Rightarrow> mock_state \<Rightarrow> 'u outside \<Rightarrow> (raised + mock_result) \<times> 'u \<Rightarrow> bool" where
  "loop_gives a st out res \<longleftrightarrow> (\<exists>out'. mock_loop a st out = Some (fst res, out') \<and> user out' = snd res)"

lemma loop_again:
  assumes "mock_turn a st out = (Again st', out')" and "loop_gives a st' out' res"
  shows "loop_gives a st out res"
  using assms by (simp add: loop_gives_def mock_loop.simps [of a st])

lemma loop_finished: "mock_turn a st out = (Finished r, out') \<Longrightarrow> loop_gives a st out (Inr r, user out')"
  by (simp add: loop_gives_def mock_loop.simps [of a st])

lemma loop_aborted: "mock_turn a st out = (Aborted e, out') \<Longrightarrow> loop_gives a st out (Inl e, user out')"
  by (simp add: loop_gives_def mock_loop.simps [of a st])

text \<open>A program that has failed fails again until no attempt is left.\<close>

lemma loop_fail:
  assumes "loop_inv a p st hist (P_fail e)" and "ms_planned st = []" and "retries_left a st = n"
  shows "loop_gives a st out (Inr (failed_result e), user out)"
  using assms
proof (induction n arbitrary: st out)
  case 0
  from turn_untargeted [OF 0(1,2), of out] 0(3) show ?case
    by (auto simp: untargeted_def retries_left_def dest: loop_finished)
next
  case (Suc n)
  let ?st = "st\<lparr>ms_attempt := ms_attempt st + 1\<rparr>"
  from turn_untargeted [OF Suc.prems(1,2), of out] Suc.prems(3) obtain out' where
    out': "mock_turn a st out = (Again ?st, out')" "user out' = user out"
    by (auto simp: untargeted_def retries_left_def)
  have "loop_gives a ?st out' (Inr (failed_result e), user out')"
    by (rule Suc.IH) (use Suc.prems loop_inv_frame [OF Suc.prems(1)] in \<open>simp_all add: retries_left_def\<close>)
  with out' show ?case by (metis loop_again)
qed

text \<open>The two turns of a step that is not stubbed: it is planned, then it runs.\<close>

lemma two_turns:
  assumes inv: "loop_inv a p st hist (P_run sid h k)" and pl: "ms_planned st = []"
    and stub: "dget (ma_stubs a) sid = None" and h: "h (user out) = (r, u)"
  shows "\<exists>o2. user o2 = u \<and> (\<forall>res.
      (case r of
         Inr v \<Rightarrow> loop_gives a (keep_step (next_key (ma_sha1 a) hist sid) v st) o2 res
       | Inl e \<Rightarrow> if retries_left a st = 0 then res = (Inr (failed_result e), u)
                 else loop_gives a (st\<lparr>ms_attempt := ms_attempt st + 1\<rparr>) o2 res)
      \<longrightarrow> loop_gives a st out res)"
proof -
  let ?st = "st\<lparr>ms_planned := [next_key (ma_sha1 a) hist sid]\<rparr>"
  let ?goal = "\<lambda>o2 res. case r of
         Inr v \<Rightarrow> loop_gives a (keep_step (next_key (ma_sha1 a) hist sid) v st) o2 res
       | Inl e \<Rightarrow> if retries_left a st = 0 then res = (Inr (failed_result e), u)
                 else loop_gives a (st\<lparr>ms_attempt := ms_attempt st + 1\<rparr>) o2 res"
  from turn_untargeted [OF inv pl, of out] stub obtain o1 where
    o1: "mock_turn a st out = (Again ?st, o1)" "user o1 = user out" by (auto simp: untargeted_def)
  have inv': "loop_inv a p ?st hist (P_run sid h k)" by (rule loop_inv_frame [OF inv]) simp
  obtain o2 where o2: "mock_turn a ?st o1 = (targeted (max_attempt (ma_fn a)) (next_key (ma_sha1 a) hist sid) r st, o2)"
      "user o2 = u"
    using turn_targeted [OF inv' _ stub, of o1 r u] h o1(2) mock_state_same [OF pl] by auto
  have "loop_gives a ?st o1 res" if g: "?goal o2 res" for res
  proof (cases r)
    case (Inl e)
    show ?thesis
    proof (cases "retries_left a st = 0")
      case True
      with Inl o2(1) have "mock_turn a ?st o1 = (Finished (failed_result e), o2)"
        by (simp add: targeted_def retries_left_def)
      from loop_finished [OF this] o2(2) g Inl True show ?thesis by simp
    next
      case False
      with Inl o2(1) have "mock_turn a ?st o1 = (Again (st\<lparr>ms_attempt := ms_attempt st + 1\<rparr>), o2)"
        by (simp add: targeted_def retries_left_def)
      from loop_again [OF this] g Inl False show ?thesis by simp
    qed
  next
    case (Inr v)
    with o2(1) have "mock_turn a ?st o1 = (Again (keep_step (next_key (ma_sha1 a) hist sid) v st), o2)"
      by (simp add: targeted_def)
    from loop_again [OF this] g Inr show ?thesis by simp
  qed
  then have "\<forall>res. ?goal o2 res \<longrightarrow> loop_gives a st out res"
    using loop_again [OF o1(1)] by blast
  with o2(2) show ?thesis by (intro exI [of _ o2] conjI)
qed

text \<open>A step that is not stubbed is planned and run until it succeeds or no attempt is left.\<close>

lemma loop_run:
  assumes inv: "loop_inv a p st hist (P_run sid h k)" and pl: "ms_planned st = []"
    and stub: "dget (ma_stubs a) sid = None"
    and rest: "\<And>v st' out'. kept (ma_json a) v \<Longrightarrow> loop_inv a p st' (hist @ [(sid, v)]) (k v) \<Longrightarrow>
        ms_planned st' = [] \<Longrightarrow>
        loop_gives a st' out' (direct (\<lambda>_. True) (k v) (ma_stubs a) (retries_left a st') (user out'))"
    and left: "retries_left a st = n"
  shows "loop_gives a st out (direct (\<lambda>_. True) (P_run sid h k) (ma_stubs a) n (user out))"
proof -
  have keep: "loop_gives a (keep_step (next_key (ma_sha1 a) hist sid) v st') o2
        (direct (\<lambda>_. True) (k v) (ma_stubs a) (retries_left a st') (user o2))"
    if "loop_inv a p st' hist (P_run sid h k)" "ms_planned st' = []" "h u = (Inr v, u')" for v st' o2 u u'
  proof -
    have v: "kept (ma_json a) v" using loop_inv_ok [OF that(1)] that(3) by auto
    have "loop_inv a p (keep_step (next_key (ma_sha1 a) hist sid) v st') (hist @ [(sid, v)]) (k v)"
      using loop_inv_keep [OF that(1) _ v, of sid] by simp
    from rest [OF v this, of o2] that(2) show ?thesis by (simp add: keep_step_def retries_left_def)
  qed
  from inv pl left show ?thesis
  proof (induction n arbitrary: st out)
    case (0 st out)
    obtain r u where h: "h (user out) = (r, u)" by (cases "h (user out)")
    obtain o2 where o2: "user o2 = u" and res: "\<And>res. (case r of
         Inr v \<Rightarrow> loop_gives a (keep_step (next_key (ma_sha1 a) hist sid) v st) o2 res
       | Inl e \<Rightarrow> if retries_left a st = 0 then res = (Inr (failed_result e), u)
                 else loop_gives a (st\<lparr>ms_attempt := ms_attempt st + 1\<rparr>) o2 res)
      \<Longrightarrow> loop_gives a st out res"
      using two_turns [OF 0(1,2) stub h] by blast
    show ?case
      by (rule res, cases r) (use h stub 0 o2 keep [OF 0(1,2), of "user out"] in
        \<open>auto simp: retry.simps [of _ h]\<close>)
  next
    case (Suc n st out)
    let ?st' = "st\<lparr>ms_attempt := ms_attempt st + 1\<rparr>"
    obtain r u where h: "h (user out) = (r, u)" by (cases "h (user out)")
    have inv': "loop_inv a p ?st' hist (P_run sid h k)" by (rule loop_inv_frame [OF Suc.prems(1)]) simp
    have again: "loop_gives a ?st' o2 (direct (\<lambda>_. True) (P_run sid h k) (ma_stubs a) n (user o2))" for o2
      by (rule Suc.IH [OF inv']) (use Suc.prems in \<open>simp_all add: retries_left_def\<close>)
    obtain o2 where o2: "user o2 = u" and res: "\<And>res. (case r of
         Inr v \<Rightarrow> loop_gives a (keep_step (next_key (ma_sha1 a) hist sid) v st) o2 res
       | Inl e \<Rightarrow> if retries_left a st = 0 then res = (Inr (failed_result e), u)
                 else loop_gives a ?st' o2 res) \<Longrightarrow> loop_gives a st out res"
      using two_turns [OF Suc.prems(1,2) stub h] by blast
    show ?case
      by (rule res, cases r) (use h stub Suc.prems o2 again [of o2] keep [OF Suc.prems(1,2), of "user out"] in
        \<open>auto simp: retry.simps [of _ h "Suc n"]\<close>)
  qed
qed

lemma loop_direct:
  assumes "loop_inv a p st hist q" and "ms_planned st = []"
  shows "loop_gives a st out (direct (\<lambda>_. True) q (ma_stubs a) (retries_left a st) (user out))"
  using assms
proof (induction q arbitrary: hist st out)
  case (P_return v)
  from turn_untargeted [OF P_return, of out] show ?case
    by (auto simp: untargeted_def dest: loop_finished)
next
  case (P_fail e)
  from loop_fail [OF P_fail refl, of out] show ?case by simp
next
  case (P_run sid h k)
  show ?case
  proof (cases "dget (ma_stubs a) sid")
    case None
    then show ?thesis
      by (intro loop_run [OF P_run.prems None _ refl] P_run.IH) auto
  next
    case (Some s)
    let ?st' = "keep_step (next_key (ma_sha1 a) hist sid) (stub_value s) st"
    have v: "kept (ma_json a) (stub_value s)" using P_run.prems Some by (auto simp: loop_inv_def prog_args_def)
    obtain o1 where o1: "mock_turn a st out = (Again ?st', o1)" "user o1 = user out"
      using turn_untargeted [OF P_run.prems, of out] Some by (auto simp: untargeted_def)
    have "loop_gives a ?st' o1 (direct (\<lambda>_. True) (k (stub_value s)) (ma_stubs a) (retries_left a ?st') (user o1))"
      by (rule P_run.IH) (use loop_inv_keep [OF P_run.prems(1) _ v, of sid] P_run.prems(2) in
          \<open>simp_all add: keep_step_def\<close>)
    from loop_again [OF o1(1) this] Some o1(2) show ?thesis by (simp add: keep_step_def retries_left_def)
  qed
next
  case (P_sleep sid t k)
  define v where "v = (case dget (ma_stubs a) sid of Some s \<Rightarrow> stub_value s | None \<Rightarrow> PNone)"
  let ?st' = "keep_step (next_key (ma_sha1 a) hist sid) v st"
  have v: "kept (ma_json a) v"
    using P_sleep.prems by (auto simp: v_def loop_inv_def prog_args_def kept_PNone split: option.split)
  obtain o1 where o1: "mock_turn a st out = (Again ?st', o1)" "user o1 = user out"
    using turn_untargeted [OF P_sleep.prems, of out] by (auto simp: untargeted_def v_def)
  have "loop_gives a ?st' o1 (direct (\<lambda>_. True) (k v) (ma_stubs a) (retries_left a ?st') (user o1))"
    by (rule P_sleep.IH) (use loop_inv_keep [OF P_sleep.prems(1) _ v, of sid] P_sleep.prems(2) in
        \<open>simp_all add: keep_step_def\<close>)
  from loop_again [OF o1(1) this] o1(2) show ?case by (simp add: keep_step_def retries_left_def v_def)
next
  case (P_invoke sid fid d k)
  show ?case
  proof (cases "dget (ma_stubs a) sid")
    case None
    with turn_untargeted [OF P_invoke.prems, of out] show ?thesis
      by (auto simp: untargeted_def dest: loop_aborted)
  next
    case (Some s)
    let ?st' = "keep_step (next_key (ma_sha1 a) hist sid) (stub_value s) st"
    have v: "kept (ma_json a) (stub_value s)" using P_invoke.prems Some by (auto simp: loop_inv_def prog_args_def)
    obtain o1 where o1: "mock_turn a st out = (Again ?st', o1)" "user o1 = user out"
      using turn_untargeted [OF P_invoke.prems, of out] Some by (auto simp: untargeted_def)
    have "loop_gives a ?st' o1 (direct (\<lambda>_. True) (k (stub_value s)) (ma_stubs a) (retries_left a ?st') (user o1))"
      by (rule P_invoke.IH) (use loop_inv_keep [OF P_invoke.prems(1) _ v, of sid] P_invoke.prems(2) in
          \<open>simp_all add: keep_step_def\<close>)
    from loop_again [OF o1(1) this] Some o1(2) show ?thesis by (simp add: keep_step_def retries_left_def)
  qed
qed

text \<open>The loop does not look at \<open>is_retriable\<close>: whatever the errors, it computes the direct run in which every error is retried.\<close>

lemma loop_retries_all_errors:
  assumes "prog_args a p" and "ma_events a \<noteq> []"
  shows "\<exists>out'. trigger_fn a out =
      Some (fst (direct (\<lambda>_. True) p (ma_stubs a) (nat (max_attempt (ma_fn a))) (user out)), out')
    \<and> user out' = snd (direct (\<lambda>_. True) p (ma_stubs a) (nat (max_attempt (ma_fn a))) (user out))"
proof -
  have "loop_inv a p mock_init [] p"
    using assms(1) by (simp add: loop_inv_def mock_init_def raw_of_def)
  from loop_direct [OF this, of out] show ?thesis
    using assms(2) by (simp add: loop_gives_def trigger_fn_def retries_left_def mock_init_def)
qed

text \<open>C1: Durable execution.  For a sequential async function whose effects are inside its steps, the
  executor loop, which calls the function again and again and replays the kept outputs, ends, and its
  result and its effects on the user's state are those of running the function once, each step once and in
  order, a step that fails with a retriable error retried while attempts are left.  This holds unless that direct run
  ends with an error that is not retriable: the loop retries such an error like any other (it does not look at
  \<open>is_retriable\<close>; see \<open>non_retriable_step_retried\<close>).  The identifiers of the steps may be reused but
  contain no colon, the hash has no collision, and the values of steps and stubs are read back from the
  memo store as they are.\<close>

theorem durable_execution:
  assumes "prog_args a p" and "ma_events a \<noteq> []"
    and "\<not> fails_finally (fst (direct is_retriable p (ma_stubs a) (nat (max_attempt (ma_fn a))) (user out)))"
  shows "\<exists>out'. trigger_fn a out =
      Some (fst (direct is_retriable p (ma_stubs a) (nat (max_attempt (ma_fn a))) (user out)), out')
    \<and> user out' = snd (direct is_retriable p (ma_stubs a) (nat (max_attempt (ma_fn a))) (user out))"
  using loop_retries_all_errors [OF assms(1,2), of out] direct_all_errors [OF assms(3)] by simp

text \<open>A program that runs the step \<open>a\<close>, which fails the first time, sleeps, and runs another \<open>a\<close>.\<close>

definition flaky :: "string list \<Rightarrow> (exc + pyobj) \<times> string list" where
  "flaky u = (if u = [] then (Inl (Exception ''boom''), [''failed'']) else (Inr (PInt 1), u @ [''ran'']))"

definition demo_prog :: "string list prog" where
  "demo_prog = P_run ''a'' flaky (\<lambda>x. P_sleep ''s'' 0 (\<lambda>_. P_run ''a'' (\<lambda>u. (Inr (PInt 2), u @ [''again'']))
     (\<lambda>y. P_return (PList [x, y]))))"

definition demo_args :: "string list mock_args" where
  "demo_args = \<lparr>ma_json = (\<lambda>b. Inl (Exception [])), ma_sha1 = (\<lambda>b. b), ma_pop = (\<lambda>xs. 0),
     ma_fn = \<lparr>fn_handler = (\<lambda>exe ctx. run_prog demo_prog exe, True), fn_on_failure_fn_id = None,
       fn_opts = demo_opts, fn_triggers = [], fn_output_type = None, fn_middleware = []\<rparr>,
     ma_events = [\<lparr>ev_data = [], ev_id = [], ev_name = ''e'', ev_ts = 0\<rparr>],
     ma_client = demo_client, ma_stubs = []\<rparr>"

lemma kept_PInt: "kept json (PInt i)"
  by (simp add: kept_def memo_of_raw_def from_raw_def Output_validate_def as_dict_def)

lemma is_retriable_Exception [simp]: "is_retriable (Exception m)"
  by (simp add: is_retriable_def)

lemma demo_prog_args: "prog_args demo_args demo_prog"
  by (auto simp: prog_args_def plain_args_def demo_args_def demo_client_def demo_prog_def plain_id_def kept_PInt flaky_def
      split: if_splits)

theorem durable_execution_witness:
  "\<exists>out'. trigger_fn demo_args \<lparr>logging_enabled = True, logged = [], user = []\<rparr> =
      Some (Inr (completed (PList [PInt 1, PInt 2])), out')
    \<and> user out' = [''failed'', ''ran'', ''again'']"
proof -
  have "ma_events demo_args \<noteq> []" by (simp add: demo_args_def)
  moreover have run: "direct is_retriable demo_prog (ma_stubs demo_args) (nat (max_attempt (ma_fn demo_args))) []
      = (Inr (completed (PList [PInt 1, PInt 2])), [''failed'', ''ran'', ''again''])"
    by (simp add: demo_prog_def demo_args_def demo_opts_def max_attempt_def retry.simps flaky_def nat_numeral
        split: nat.split)
  moreover have "\<not> fails_finally (Inr (completed (PList [PInt 1, PInt 2])))"
    by (simp add: fails_finally_def completed_def)
  ultimately show ?thesis
    using durable_execution [of demo_args demo_prog "\<lparr>logging_enabled = True, logged = [], user = []\<rparr>"] demo_prog_args by simp
qed

section \<open>An error that must not be retried\<close>

text \<open>A step that raises a \<open>NonRetriableError\<close> the first time: the direct run fails with it, the loop runs the step again and completes.\<close>

definition stubborn :: "string list \<Rightarrow> (exc + pyobj) \<times> string list" where
  "stubborn u = (if u = [] then (Inl (NonRetriableError (Some ''no'') False), [''failed'']) else (Inr (PInt 1), u @ [''ran'']))"

definition stubborn_prog :: "string list prog" where
  "stubborn_prog = P_run ''a'' stubborn P_return"

definition stubborn_args :: "string list mock_args" where
  "stubborn_args = demo_args\<lparr>ma_fn := (ma_fn demo_args)\<lparr>fn_handler := (\<lambda>exe ctx. run_prog stubborn_prog exe, True)\<rparr>\<rparr>"

lemma non_retriable_step_retried:
  "direct is_retriable stubborn_prog [] 4 [] = (Inr (failed_result (NonRetriableError (Some ''no'') False)), [''failed''])"
  "\<exists>out'. trigger_fn stubborn_args \<lparr>logging_enabled = True, logged = [], user = []\<rparr> = Some (Inr (completed (PInt 1)), out')
    \<and> user out' = [''failed'', ''ran'']"
proof -
  have "is_retriable (NonRetriableError (Some ''no'') False) = False" by (simp add: is_retriable_def)
  then show "direct is_retriable stubborn_prog [] 4 [] = (Inr (failed_result (NonRetriableError (Some ''no'') False)), [''failed''])"
    by (simp add: stubborn_prog_def stubborn_def retry.simps [of is_retriable] split: nat.split)
  have "prog_args stubborn_args stubborn_prog"
    by (auto simp: prog_args_def plain_args_def stubborn_args_def demo_args_def demo_client_def stubborn_prog_def plain_id_def kept_PInt
        stubborn_def split: if_splits)
  moreover have "ma_events stubborn_args \<noteq> []" by (simp add: stubborn_args_def demo_args_def)
  moreover have "direct (\<lambda>_. True) stubborn_prog (ma_stubs stubborn_args) (nat (max_attempt (ma_fn stubborn_args))) []
      = (Inr (completed (PInt 1)), [''failed'', ''ran''])"
    by (simp add: stubborn_prog_def stubborn_args_def demo_args_def demo_opts_def max_attempt_def retry.simps stubborn_def nat_numeral
        split: nat.split)
  ultimately show "\<exists>out'. trigger_fn stubborn_args \<lparr>logging_enabled = True, logged = [], user = []\<rparr> = Some (Inr (completed (PInt 1)), out')
    \<and> user out' = [''failed'', ''ran'']"
    using loop_retries_all_errors [of stubborn_args stubborn_prog "\<lparr>logging_enabled = True, logged = [], user = []\<rparr>"] by simp
qed

end
