(* ===== verification/DurableGroups.thy ===== *)
theory DurableGroups
  imports Durable
begin

text \<open>
  Durable execution with parallel groups.  A function's blocks are single steps and groups of steps
  (\<open>group.parallel\<close>), each made of \<open>step.run\<close> and \<open>step.sleep_until\<close>.  The executor plans the open steps of a
  block, runs them one call at a time in an order that \<open>set.pop\<close> chooses, and plans the failed ones again.
  \<open>block_runs\<close> and \<open>group_direct\<close> say what the function means: the open steps of a block run in
  some order, each until it succeeds (an error is retried when \<open>again\<close> says so), and the block's value has the outputs in
  the order of the callables.  The theorem at the end says that the executor loop ends and computes one of these runs, unless
  an error that must not be retried can end one.
\<close>

section \<open>Programs\<close>

datatype 'u item = It_run string "'u \<Rightarrow> (exc + pyobj) \<times> 'u" | It_sleep string datetime

datatype 'u block = Single "'u item" | Parallel "'u item list" parallel_mode

datatype 'u group_prog = GP_return pyobj | GP_fail exc | GP_block "'u block" "pyobj list \<Rightarrow> 'u group_prog"

fun item_id :: "'u item \<Rightarrow> string" where
  "item_id (It_run sid h) = sid"
| "item_id (It_sleep sid t) = sid"

fun items_of :: "'u block \<Rightarrow> 'u item list" where
  "items_of (Single it) = [it]"
| "items_of (Parallel its mode) = its"

abbreviation block_ids :: "'u block \<Rightarrow> string list" where
  "block_ids b \<equiv> map item_id (items_of b)"

fun run_item :: "'u exe \<Rightarrow> 'u item \<Rightarrow> ('u, pyobj) step_m" where
  "run_item exe (It_run sid h) = Step_run exe sid None (on_user h)"
| "run_item exe (It_sleep sid t) = Step_sleep_until exe sid t"

fun run_block :: "'u exe \<Rightarrow> 'u block \<Rightarrow> ('u, pyobj list) step_m" where
  "run_block exe (Single it) = bindM (run_item exe it) (\<lambda>v. retM [v])"
| "run_block exe (Parallel its mode) = Group_parallel (map (run_item exe) its) mode"

primrec run_group_prog :: "'u group_prog \<Rightarrow> 'u exe \<Rightarrow> ('u, pyobj) step_m" where
  "run_group_prog (GP_return v) exe = retM v"
| "run_group_prog (GP_fail e) exe = raiseM (Raised e)"
| "run_group_prog (GP_block b k) exe = bindM (run_block exe b) (\<lambda>vs. run_group_prog (k vs) exe)"

section \<open>The direct meaning\<close>

text \<open>What a step is that needs no run of user code: stubbed, or a sleep.\<close>

definition fixed_value :: "(string, stub) dict \<Rightarrow> 'u item \<Rightarrow> pyobj option" where
  "fixed_value stubs it = (case dget stubs (item_id it) of
     Some s \<Rightarrow> Some (stub_value s) | None \<Rightarrow> (case it of It_sleep sid t \<Rightarrow> Some PNone | It_run sid h \<Rightarrow> None))"

text \<open>
  The steps of a block: \<open>vals\<close> are the outputs so far and \<open>left\<close> the retries left.  Any open step may go
  on; a failing one stays open while retries are left.
\<close>

inductive block_runs :: "(exc \<Rightarrow> bool) \<Rightarrow> (string, stub) dict \<Rightarrow> 'u item list \<Rightarrow> pyobj option list \<Rightarrow> nat \<Rightarrow> 'u
    \<Rightarrow> exc + pyobj list \<Rightarrow> nat \<Rightarrow> 'u \<Rightarrow> bool" for again stubs its where
  all_done: "block_runs again stubs its (map Some vs) left u (Inr vs) left u"
| fixed: "i < length its \<Longrightarrow> vals ! i = None \<Longrightarrow> fixed_value stubs (its ! i) = Some v \<Longrightarrow>
    block_runs again stubs its (vals[i := Some v]) left u r left' u' \<Longrightarrow> block_runs again stubs its vals left u r left' u'"
| succeeds: "i < length its \<Longrightarrow> vals ! i = None \<Longrightarrow> fixed_value stubs (its ! i) = None \<Longrightarrow> its ! i = It_run sid h \<Longrightarrow>
    h u = (Inr v, u1) \<Longrightarrow> block_runs again stubs its (vals[i := Some v]) left u1 r left' u' \<Longrightarrow>
    block_runs again stubs its vals left u r left' u'"
| fails: "i < length its \<Longrightarrow> vals ! i = None \<Longrightarrow> fixed_value stubs (its ! i) = None \<Longrightarrow> its ! i = It_run sid h \<Longrightarrow>
    h u = (Inl e, u1) \<Longrightarrow> again e \<Longrightarrow> block_runs again stubs its vals left u1 r left' u' \<Longrightarrow>
    block_runs again stubs its vals (Suc left) u r left' u'"
| gives_up: "i < length its \<Longrightarrow> vals ! i = None \<Longrightarrow> fixed_value stubs (its ! i) = None \<Longrightarrow> its ! i = It_run sid h \<Longrightarrow>
    h u = (Inl e, u1) \<Longrightarrow> left = 0 \<or> \<not> again e \<Longrightarrow> block_runs again stubs its vals left u (Inl e) left u1"

abbreviation open_block :: "'u block \<Rightarrow> pyobj option list" where
  "open_block b \<equiv> replicate (length (items_of b)) None"

inductive group_direct :: "(exc \<Rightarrow> bool) \<Rightarrow> (string, stub) dict \<Rightarrow> 'u group_prog \<Rightarrow> nat \<Rightarrow> 'u \<Rightarrow> mock_result \<Rightarrow> 'u \<Rightarrow> bool" for again stubs where
  returns: "group_direct again stubs (GP_return v) left u (completed v) u"
| raises: "group_direct again stubs (GP_fail e) left u (failed_result e) u"
| block_done: "block_runs again stubs (items_of b) (open_block b) left u (Inr vs) left' u1 \<Longrightarrow>
    group_direct again stubs (k vs) left' u1 r u' \<Longrightarrow> group_direct again stubs (GP_block b k) left u r u'"
| block_failed: "block_runs again stubs (items_of b) (open_block b) left u (Inl e) left' u' \<Longrightarrow>
    group_direct again stubs (GP_block b k) left u (failed_result e) u'"

text \<open>A run in which every error is retried is a run of this kind, unless a step fails with an error that is not to be retried.\<close>

lemma block_runs_all_errors:
  "block_runs (\<lambda>_. True) stubs its vals left u r left' u' \<Longrightarrow> block_runs again stubs its vals left u r left' u'
    \<or> (\<exists>e l v. \<not> again e \<and> block_runs again stubs its vals left u (Inl e) l v)"
proof (induction rule: block_runs.induct)
  case (all_done vs left u)
  show ?case by (blast intro: block_runs.all_done)
next
  case (fixed i vals v left u r left' u')
  then show ?case by (blast intro: block_runs.fixed)
next
  case (succeeds i vals sid h u v u1 left r left' u')
  then show ?case by (blast intro: block_runs.succeeds)
next
  case (fails i vals sid h u e u1 left r left' u')
  show ?case
  proof (cases "again e")
    case True
    with fails show ?thesis by (blast intro: block_runs.fails)
  next
    case False
    with block_runs.gives_up [OF fails.hyps(1-5), of "Suc left" again] show ?thesis by blast
  qed
next
  case (gives_up i vals sid h u e u1 left)
  then show ?case by (blast intro: block_runs.gives_up)
qed

lemma group_direct_all_errors:
  "group_direct (\<lambda>_. True) stubs p left u r u' \<Longrightarrow> group_direct again stubs p left u r u'
    \<or> (\<exists>e v. \<not> again e \<and> group_direct again stubs p left u (failed_result e) v)"
proof (induction rule: group_direct.induct)
  case (block_done b left u vs left' u1 k r u')
  from block_runs_all_errors [OF block_done.hyps(1), of again] block_done.IH show ?case
    by (blast intro: group_direct.block_done group_direct.block_failed)
next
  case (block_failed b left u e left' u' k)
  from block_runs_all_errors [OF block_failed.hyps(1), of again] show ?case
    by (blast intro: group_direct.block_failed)
qed (blast intro: group_direct.returns group_direct.raises)+

text \<open>The programs considered: plain identifiers and outputs that the memo store reads back.\<close>

fun ok_item :: "(pyobj \<Rightarrow> bool) \<Rightarrow> 'u item \<Rightarrow> bool" where
  "ok_item P (It_run sid h) = (plain_id sid \<and> (\<forall>u v u'. h u = (Inr v, u') \<longrightarrow> P v))"
| "ok_item P (It_sleep sid t) = plain_id sid"

primrec ok_group_prog :: "(pyobj \<Rightarrow> bool) \<Rightarrow> 'u group_prog \<Rightarrow> bool" where
  "ok_group_prog P (GP_return v) = True"
| "ok_group_prog P (GP_fail e) = True"
| "ok_group_prog P (GP_block b k) = (list_all (ok_item P) (items_of b)
     \<and> (\<forall>vs. length vs = length (items_of b) \<longrightarrow> list_all P vs \<longrightarrow> ok_group_prog P (k vs)))"

lemma ok_item_id: "ok_item P it \<Longrightarrow> plain_id (item_id it)"
  by (cases it) simp_all

section \<open>One step of a block\<close>

text \<open>A state between the steps of a block; \<open>par\<close> says whether it is a group.\<close>

definition idle :: "bool \<Rightarrow> 'u world \<Rightarrow> bool" where
  "idle par w \<longleftrightarrow> \<not> w_in_step w \<and> w_in_parallel w = par \<and> mg_middleware (w_mgr w) = [logger_mw]"

lemma idle_quiet: "idle False w = quiet w"
  by (auto simp: idle_def quiet_def)

lemma idle_reported:
  assumes "idle par w"
  shows "idle par (run_reported exe sid w)" "user (w_out (run_reported exe sid w)) = user (w_out w)"
    "w_memos (run_reported exe sid w) = snd (StepMemos_pop (w_memos w) (ps_hashed (run_parsed exe sid w)))"
    "w_counts (run_reported exe sid w) = snd (parse_step_id (ex_sha1 exe) (w_counts w) sid)"
proof -
  let ?k = "ps_hashed (run_parsed exe sid w)" and ?w0 = "run_counted exe sid w"
  from assms have mg: "mg_middleware (w_mgr ?w0) = [logger_mw]" by (simp add: idle_def)
  from before_execution_quiet [OF mg, of "w_out ?w0"]
  have "mg_middleware (w_mgr (after_pop before_execution ?k ?w0)) = [logger_mw]
      \<and> user (w_out (after_pop before_execution ?k ?w0)) = user (w_out w)"
    using mg by (auto simp: after_pop_def on_manager_def Let_def)
  with assms show "idle par (run_reported exe sid w)" "user (w_out (run_reported exe sid w)) = user (w_out w)"
    by (simp_all add: idle_def) (simp_all add: run_reported_def)
  show "w_memos (run_reported exe sid w) = snd (StepMemos_pop (w_memos w) ?k)"
    by (simp add: run_reported_def after_pop_frame)
  show "w_counts (run_reported exe sid w) = snd (parse_step_id (ex_sha1 exe) (w_counts w) sid)"
    by (simp add: run_reported_def after_pop_frame) (simp add: run_counted_def)
qed

lemma item_memo:
  assumes "idle par w" and "v \<noteq> PEmpty" and "cl_serializer (ex_client exe) = None"
    and "dget (w_memos w) (ps_hashed (run_parsed exe (item_id it) w)) = Some (kept_memo v)"
  shows "run_item exe it w = (Inr v, run_reported exe (item_id it) w)"
proof (cases it)
  case (It_run sid h)
  with Step_run_memo [of w exe sid "kept_memo v" None "on_user h"] assms show ?thesis
    by (simp add: idle_def kept_memo_def client_deserialize_def)
next
  case (It_sleep sid t)
  have "Step_sleep_until exe sid t w = (Inr v, run_reported exe sid w)"
    unfolding Step_sleep_until_eq by (rule wait_step_memo) (use assms It_sleep in \<open>simp_all add: idle_def kept_memo_def\<close>)
  with It_sleep show ?thesis by simp
qed

text \<open>The description of a step that is reported without a target.\<close>

definition item_info :: "'u item \<Rightarrow> parsed_step_id \<Rightarrow> step_info" where
  "item_info it p = (case it of It_run sid h \<Rightarrow> (run_info p)\<lparr>si_op := OP_PLANNED\<rparr> | It_sleep sid t \<Rightarrow> sleep_info p t)"

lemma item_info_sel [simp]:
  "si_id (item_info it p) = ps_hashed p" "si_display_name (item_info it p) = ps_user_facing p"
  "si_op (item_info it p) = (case it of It_run sid h \<Rightarrow> OP_PLANNED | It_sleep sid t \<Rightarrow> OP_SLEEP)"
  by (simp_all add: item_info_def split: item.split)

lemma item_open:
  assumes new: "dget (w_memos w) (ps_hashed (run_parsed exe (item_id it) w)) = None"
    and t: "ex_target_hashed_id exe = None" and d: "ctx_disable_immediate_execution (req_ctx (ex_request exe))"
  shows "run_item exe it w = (Inl (ResponseInterrupt [mk_StepResponse (item_info it (run_parsed exe (item_id it) w))]),
     run_reported exe (item_id it) w)"
proof (cases it)
  case (It_run sid h)
  with new t d show ?thesis by (simp add: Step_run_fresh item_info_def Let_def)
next
  case (It_sleep sid u)
  have "Step_sleep_until exe sid u w
     = (Inl (ResponseInterrupt [mk_StepResponse (sleep_info (run_parsed exe sid w) u)]), run_reported exe sid w)"
    unfolding Step_sleep_until_eq by (rule wait_step_new) (use It_sleep new t in simp_all)
  with It_sleep show ?thesis by (simp add: item_info_def)
qed

lemma item_skipped:
  assumes new: "dget (w_memos w) (ps_hashed (run_parsed exe (item_id it) w)) = None"
    and t: "ex_target_hashed_id exe = Some t" "t \<noteq> ps_hashed (run_parsed exe (item_id it) w)"
  shows "run_item exe it w = (Inl (SkipInterrupt (item_id it)), run_reported exe (item_id it) w)"
proof (cases it)
  case (It_run sid h)
  with new t show ?thesis by (simp add: Step_run_fresh Let_def)
next
  case (It_sleep sid u)
  let ?s = "sleep_info (run_parsed exe sid w) u"
  have "report_decision exe (w_in_parallel (run_counted exe sid w)) ?s = Inl (SkipInterrupt sid)"
    using t It_sleep by (simp add: report_decision_def)
  then have "with_step (report_step exe ?s) (deliver_memo (run_parsed exe sid w)) (run_counted exe sid w)
     = (Inl (SkipInterrupt sid), run_reported exe sid w)"
    by (subst exe_async.with_report_stop) (use new It_sleep in \<open>simp_all add: snd_report_step run_reported_def\<close>)
  with It_sleep show ?thesis by (simp add: Step_sleep_until_eq bindM_raise_step)
qed

text \<open>A targeted step runs once; what it answers is \<open>run_outcome\<close>.\<close>

lemma item_targeted:
  assumes w: "idle par w" and new: "dget (w_memos w) (ps_hashed (run_parsed exe sid w)) = None"
    and t: "ex_target_hashed_id exe = Some (ps_hashed (run_parsed exe sid w))" and h: "h (user (w_out w)) = (r, u)"
  shows "\<exists>w'. run_item exe (It_run sid h) w =
      (Inl (run_outcome exe (run_info (run_parsed exe sid w)) None (case r of Inl e \<Rightarrow> Inl (Raised e) | Inr v \<Rightarrow> Inr v)), w')
    \<and> idle par w' \<and> user (w_out w') = u \<and> w_memos w' = w_memos (run_reported exe sid w)
    \<and> w_counts w' = w_counts (run_reported exe sid w)"
proof -
  let ?w1 = "run_reported exe sid w"
  note q = idle_reported [OF w, of exe sid]
  have "on_user h (?w1\<lparr>w_in_step := True\<rparr>) = (case r of Inl e \<Rightarrow> Inl (Raised e) | Inr v \<Rightarrow> Inr v,
      ?w1\<lparr>w_in_step := True, w_out := (w_out ?w1)\<lparr>user := u\<rparr>\<rparr>)"
    using h q(2) by (simp add: on_user_def)
  then have "Step_run exe sid None (on_user h) w =
     (Inl (run_outcome exe (run_info (run_parsed exe sid w)) None (case r of Inl e \<Rightarrow> Inl (Raised e) | Inr v \<Rightarrow> Inr v)),
      ?w1\<lparr>w_in_step := False, w_out := (w_out ?w1)\<lparr>user := u\<rparr>\<rparr>)"
    unfolding Step_run_fresh [OF new] using t w by (simp add: idle_def Let_def)
  with q(1) show ?thesis by (simp add: idle_def)
qed

section \<open>The steps of a block, one after the other\<close>

definition keys_of :: "(bytes \<Rightarrow> string) \<Rightarrow> id_counts \<Rightarrow> string list \<Rightarrow> string list" where
  "keys_of sha1 c ids = map ps_hashed (parse_all sha1 c ids)"

lemma keys_of_simps [simp]:
  "keys_of sha1 c [] = []"
  "keys_of sha1 c (s # ids) = ps_hashed (fst (parse_step_id sha1 c s)) # keys_of sha1 (snd (parse_step_id sha1 c s)) ids"
  by (simp_all add: keys_of_def split: prod.split)

lemma keys_of_append: "keys_of sha1 c (xs @ ys) = keys_of sha1 c xs @ keys_of sha1 (counts_after sha1 c xs) ys"
  by (induction xs arbitrary: c) simp_all

lemma counts_after_append: "counts_after sha1 c (xs @ ys) = counts_after sha1 (counts_after sha1 c xs) ys"
  by (induction xs arbitrary: c) simp_all

lemma length_keys_of [simp]: "length (keys_of sha1 c ids) = length ids"
  by (simp add: keys_of_def length_parse_all)

text \<open>The memos that the request still holds for the steps to come; a step without an output has none.\<close>

definition agrees :: "'u exe \<Rightarrow> string list \<Rightarrow> pyobj option list \<Rightarrow> 'u world \<Rightarrow> bool" where
  "agrees exe ids vals w \<longleftrightarrow> distinct (keys_of (ex_sha1 exe) (w_counts w) ids)
     \<and> list_all2 (\<lambda>k v. dget (w_memos w) k = map_option kept_memo v) (keys_of (ex_sha1 exe) (w_counts w) ids) vals"

lemma agrees_head: "agrees exe (s # ids) (v # vals) w \<Longrightarrow>
    dget (w_memos w) (ps_hashed (run_parsed exe s w)) = map_option kept_memo v"
  by (simp add: agrees_def run_parsed_def)

lemma agrees_tail:
  assumes a: "agrees exe (s # ids) (v # vals) w" and w: "idle par w"
    and w': "w_memos w' = w_memos (run_reported exe s w)" "w_counts w' = w_counts (run_reported exe s w)"
  shows "agrees exe ids vals w'"
proof -
  let ?k = "ps_hashed (fst (parse_step_id (ex_sha1 exe) (w_counts w) s))"
  let ?ks = "keys_of (ex_sha1 exe) (snd (parse_step_id (ex_sha1 exe) (w_counts w) s)) ids"
  have counts: "keys_of (ex_sha1 exe) (w_counts w') ids = ?ks" using w' idle_reported(4) [OF w] by simp
  have "dget (w_memos w') k = dget (w_memos w) k" if "k \<in> set ?ks" for k
  proof -
    have "k \<noteq> ?k" using a that by (auto simp: agrees_def)
    then show ?thesis using w' idle_reported(3) [OF w, of exe s] by (simp add: StepMemos_pop_frame run_parsed_def)
  qed
  moreover have "list_all2 (\<lambda>k v. dget (w_memos w) k = map_option kept_memo v) ?ks vals" using a by (simp add: agrees_def)
  ultimately have "list_all2 (\<lambda>k v. dget (w_memos w') k = map_option kept_memo v) ?ks vals"
    by (auto simp: list_all2_conv_all_nth)
  with a show ?thesis by (simp add: agrees_def counts)
qed

fun open_infos :: "(bytes \<Rightarrow> string) \<Rightarrow> id_counts \<Rightarrow> 'u item list \<Rightarrow> pyobj option list \<Rightarrow> step_info list" where
  "open_infos sha1 c (it # its) (v # vals) = (case parse_step_id sha1 c (item_id it) of (p, c') \<Rightarrow>
     (case v of None \<Rightarrow> [item_info it p] | Some x \<Rightarrow> []) @ open_infos sha1 c' its vals)"
| "open_infos sha1 c _ _ = []"

definition outputs_of :: "pyobj option list \<Rightarrow> pyobj list" where
  "outputs_of vals = concat (map (\<lambda>v. case v of None \<Rightarrow> [] | Some x \<Rightarrow> [x]) vals)"

lemma outputs_of_simps [simp]: "outputs_of [] = []" "outputs_of (None # vals) = outputs_of vals"
  "outputs_of (Some x # vals) = x # outputs_of vals" "outputs_of (map Some vs) = vs"
  by (simp_all add: outputs_of_def comp_def)

text \<open>Requests in which none of the given steps is executed.\<close>

definition untouched :: "'u exe \<Rightarrow> string list \<Rightarrow> bool" where
  "untouched exe ks \<longleftrightarrow> (case ex_target_hashed_id exe of
     None \<Rightarrow> ctx_disable_immediate_execution (req_ctx (ex_request exe)) | Some t \<Rightarrow> t \<notin> set ks)"

lemma Group_loop_step:
  "cb w = (r, w1) \<Longrightarrow> Group_parallel_loop (cb # cbs) outs rs w =
     (case r of Inr v \<Rightarrow> Group_parallel_loop cbs (outs @ [v]) rs w1
      | Inl (ResponseInterrupt xs) \<Rightarrow> Group_parallel_loop cbs outs (rs @ xs) w1
      | Inl (SkipInterrupt s) \<Rightarrow> Group_parallel_loop cbs outs rs w1
      | Inl e \<Rightarrow> (Inl e, w1))"
  by (auto simp: bindM_def catchM_def retM_def raiseM_def split: sum.split raised.split)

lemma Group_loop_append:
  "Group_parallel_loop (xs @ ys) outs rs w = bindM (Group_parallel_loop xs outs rs) (\<lambda>(outs, rs). Group_parallel_loop ys outs rs) w"
proof (induction xs arbitrary: outs rs w)
  case (Cons x xs)
  obtain r w1 where "x w = (r, w1)" by (cases "x w")
  then show ?case
    by (auto simp: Group_loop_step bindM_def Cons.IH simp del: Group_parallel_loop.simps split: sum.split raised.split)
qed (simp add: bindM_def retM_def)

lemma Group_loop_untouched:
  assumes "agrees exe (map item_id its @ ids) (vals @ vals') w" and "length vals = length its"
    and "None \<in> set vals \<Longrightarrow> untouched exe (keys_of (ex_sha1 exe) (w_counts w) (map item_id its))"
    and "idle True w" and "Some PEmpty \<notin> set vals" and ser: "cl_serializer (ex_client exe) = None"
  shows "\<exists>w'. Group_parallel_loop (map (run_item exe) its) outs rs w =
      (Inr (outs @ outputs_of vals, rs @ (if ex_target_hashed_id exe = None
         then map mk_StepResponse (open_infos (ex_sha1 exe) (w_counts w) its vals) else [])), w')
    \<and> idle True w' \<and> agrees exe ids vals' w' \<and> w_counts w' = counts_after (ex_sha1 exe) (w_counts w) (map item_id its)
    \<and> user (w_out w') = user (w_out w)"
  using assms
proof (induction its arbitrary: vals w outs rs)
  case Nil
  then show ?case by (simp add: retM_def)
next
  case (Cons it its)
  from Cons.prems(2) obtain v vs where vals: "vals = v # vs" and len: "length vs = length its"
    by (cases vals) auto
  let ?w1 = "run_reported exe (item_id it) w" and ?key = "ps_hashed (run_parsed exe (item_id it) w)"
  note q = idle_reported [OF Cons.prems(4), of exe "item_id it"]
  note a = Cons.prems(1) [unfolded vals list.map append_Cons]
  have memo: "dget (w_memos w) ?key = map_option kept_memo v" by (rule agrees_head [OF a])
  have tail: "agrees exe (map item_id its @ ids) (vs @ vals') ?w1" by (rule agrees_tail [OF a Cons.prems(4)]) simp_all
  have pas: "untouched exe (keys_of (ex_sha1 exe) (w_counts ?w1) (map item_id its))" if "None \<in> set vs"
    using Cons.prems(3) q(4) that vals by (auto simp: untouched_def split: option.splits)
  have ne: "Some PEmpty \<notin> set vs" using Cons.prems(5) vals by simp
  note IH = Cons.IH [OF tail len pas q(1) ne ser]
  have parsed: "parse_step_id (ex_sha1 exe) (w_counts w) (item_id it) = (run_parsed exe (item_id it) w, w_counts ?w1)"
    using q(4) by (simp add: run_parsed_def)
  show ?case
  proof (cases v)
    case (Some x)
    have "run_item exe it w = (Inr x, ?w1)"
      by (rule item_memo [OF Cons.prems(4) _ ser]) (use memo Some Cons.prems(5) vals in auto)
    with IH [of "outs @ [x]" rs] Some vals parsed q(2) show ?thesis
      by (cases "ex_target_hashed_id exe") (simp_all add: Group_loop_step del: Group_parallel_loop.simps)
  next
    case None
    show ?thesis
    proof (cases "ex_target_hashed_id exe")
      case target: None
      have "run_item exe it w = (Inl (ResponseInterrupt [mk_StepResponse (item_info it (run_parsed exe (item_id it) w))]), ?w1)"
        by (rule item_open) (use memo None target Cons.prems(3) vals in \<open>simp_all add: untouched_def\<close>)
      with IH [of outs "rs @ [mk_StepResponse (item_info it (run_parsed exe (item_id it) w))]"] None target vals parsed q(2)
      show ?thesis by (simp add: Group_loop_step del: Group_parallel_loop.simps)
    next
      case target: (Some t)
      have "run_item exe it w = (Inl (SkipInterrupt (item_id it)), ?w1)"
        by (rule item_skipped [OF _ target]) (use memo None target Cons.prems(3) vals in \<open>simp_all add: untouched_def run_parsed_def\<close>)
      with IH [of outs rs] None target vals parsed q(2) show ?thesis
        by (simp add: Group_loop_step del: Group_parallel_loop.simps)
    qed
  qed
qed

text \<open>What a block makes of the interrupt of its steps.\<close>

definition mark_responses :: "'u block \<Rightarrow> raised \<Rightarrow> raised" where
  "mark_responses b r = (case (b, r) of
     (Parallel its mode, ResponseInterrupt rs) \<Rightarrow>
       ResponseInterrupt (map (\<lambda>r. r\<lparr>sp_step := set_parallel_mode mode (sp_step r)\<rparr>) rs)
   | _ \<Rightarrow> r)"

lemma set_parallel_mode_sel [simp]:
  "si_id (set_parallel_mode mode s) = si_id s" "si_op (set_parallel_mode mode s) = si_op s"
  "si_display_name (set_parallel_mode mode s) = si_display_name s"
  by (simp_all add: set_parallel_mode_def Let_def)

text \<open>A group is its loop with the flag set, whatever the loop answers.\<close>

lemma Group_parallel_eq:
  assumes "Group_parallel_loop cbs [] [] (w\<lparr>w_in_parallel := True\<rparr>) = (r, w1)"
  shows "Group_parallel cbs mode w =
    (case r of Inl e \<Rightarrow> Inl e
     | Inr (outs, rs) \<Rightarrow> if rs = [] then Inr outs
         else Inl (ResponseInterrupt (map (\<lambda>r. r\<lparr>sp_step := set_parallel_mode mode (sp_step r)\<rparr>) rs)),
     w1\<lparr>w_in_parallel := w_in_parallel w\<rparr>)"
  using assms by (auto simp: Group_parallel_def monad_simps split: sum.split)

lemma idle_par: "idle True (w\<lparr>w_in_parallel := True\<rparr>) = idle (w_in_parallel w) w"
  "idle True w \<Longrightarrow> quiet (w\<lparr>w_in_parallel := False\<rparr>)"
  by (simp_all add: idle_def quiet_def)

lemma agrees_par [simp]: "agrees exe ids vals (w\<lparr>w_in_parallel := b\<rparr>) = agrees exe ids vals w"
  by (simp add: agrees_def)

lemma outputs_of_all: "None \<notin> set vals \<Longrightarrow> map Some (outputs_of vals) = vals"
proof (induction vals)
  case (Cons v vals)
  then show ?case by (cases v) simp_all
qed simp

lemma open_infos_nil: "length vals = length its \<Longrightarrow> open_infos sha1 c its vals = [] \<longleftrightarrow> None \<notin> set vals"
  by (induction its vals arbitrary: c rule: list_induct2') (auto split: prod.split option.split)

text \<open>A group none of whose open steps is executed.\<close>

lemma group_untouched:
  assumes a: "agrees exe (map item_id its @ ids) (vals @ vals') w" and len: "length vals = length its"
    and t: "None \<in> set vals \<Longrightarrow> untouched exe (keys_of (ex_sha1 exe) (w_counts w) (map item_id its))"
    and w: "quiet w" and ne: "Some PEmpty \<notin> set vals" and ser: "cl_serializer (ex_client exe) = None"
    and rs: "rs = (if ex_target_hashed_id exe = None then map mk_StepResponse (open_infos (ex_sha1 exe) (w_counts w) its vals) else [])"
  shows "\<exists>w'. run_block exe (Parallel its mode) w =
      (if rs = [] then Inr (outputs_of vals) else Inl (mark_responses (Parallel its mode) (ResponseInterrupt rs)), w')
    \<and> quiet w' \<and> agrees exe ids vals' w' \<and> w_counts w' = counts_after (ex_sha1 exe) (w_counts w) (map item_id its)
    \<and> user (w_out w') = user (w_out w)"
proof -
  let ?w0 = "w\<lparr>w_in_parallel := True\<rparr>"
  have a0: "agrees exe (map item_id its @ ids) (vals @ vals') ?w0" and i0: "idle True ?w0"
    using a w by (simp_all add: idle_par idle_quiet quiet_def [of w] idle_def)
  have t0: "None \<in> set vals \<Longrightarrow> untouched exe (keys_of (ex_sha1 exe) (w_counts ?w0) (map item_id its))" using t by simp
  obtain w1 where w1: "Group_parallel_loop (map (run_item exe) its) [] [] ?w0 = (Inr (outputs_of vals, rs), w1)"
     "idle True w1" "agrees exe ids vals' w1" "w_counts w1 = counts_after (ex_sha1 exe) (w_counts w) (map item_id its)"
     "user (w_out w1) = user (w_out w)"
    using Group_loop_untouched [OF a0 len t0 i0 ne ser, of "[]" "[]"] by (auto simp: rs)
  then show ?thesis
    using w by (intro exI [of _ "w1\<lparr>w_in_parallel := False\<rparr>"])
       (simp add: Group_parallel_eq [OF w1(1)] idle_par mark_responses_def quiet_def [of w])
qed

text \<open>A block all of whose steps have outputs is their list.\<close>

lemma block_replayed:
  assumes a: "agrees exe (block_ids b @ ids) (map Some vs @ vals') w" and len: "length vs = length (items_of b)"
    and w: "quiet w" and ne: "PEmpty \<notin> set vs" and ser: "cl_serializer (ex_client exe) = None"
  shows "\<exists>w'. run_block exe b w = (Inr vs, w') \<and> quiet w' \<and> agrees exe ids vals' w'
    \<and> w_counts w' = counts_after (ex_sha1 exe) (w_counts w) (block_ids b) \<and> user (w_out w') = user (w_out w)"
proof (cases b)
  case (Single it)
  with len obtain v where vs: "vs = [v]" by (cases vs) auto
  let ?w1 = "run_reported exe (item_id it) w"
  from w have i: "idle False w" by (simp add: idle_quiet)
  note a' = a [unfolded Single vs items_of.simps list.map append_Cons append_Nil]
  have "run_item exe it w = (Inr v, ?w1)"
    by (rule item_memo [OF i _ ser]) (use agrees_head [OF a'] ne vs in auto)
  then have "run_block exe b w = (Inr vs, ?w1)" by (simp add: Single vs bindM_def retM_def)
  with agrees_tail [OF a' i, of ?w1] idle_reported [OF i, of exe "item_id it"] Single show ?thesis
    by (intro exI [of _ ?w1]) (simp add: idle_quiet)
next
  case (Parallel its mode)
  have "open_infos (ex_sha1 exe) (w_counts w) its (map Some vs) = []"
    using len Parallel by (subst open_infos_nil) auto
  moreover have "Some PEmpty \<notin> set (map Some vs)" using ne by auto
  ultimately show ?thesis
    using group_untouched [OF _ _ _ w _ ser refl, of its ids "map Some vs" vals' mode] a len Parallel by auto
qed

text \<open>Without a target an unfinished block answers with its open steps.\<close>

lemma block_open:
  assumes a: "agrees exe (block_ids b) vals w" and len: "length vals = length (items_of b)" and op: "None \<in> set vals"
    and t: "ex_target_hashed_id exe = None" "ctx_disable_immediate_execution (req_ctx (ex_request exe))"
    and w: "quiet w" and ne: "Some PEmpty \<notin> set vals" and ser: "cl_serializer (ex_client exe) = None"
  shows "\<exists>w'. run_block exe b w = (Inl (mark_responses b (ResponseInterrupt
        (map mk_StepResponse (open_infos (ex_sha1 exe) (w_counts w) (items_of b) vals)))), w')
    \<and> quiet w' \<and> user (w_out w') = user (w_out w)"
proof (cases b)
  case (Single it)
  with len op have vals: "vals = [None]" by (cases vals) auto
  from w have i: "idle False w" by (simp add: idle_quiet)
  have "run_item exe it w = (Inl (ResponseInterrupt [mk_StepResponse (item_info it (run_parsed exe (item_id it) w))]),
      run_reported exe (item_id it) w)"
    by (rule item_open [OF _ t]) (use a vals Single in \<open>simp add: agrees_head\<close>)
  then show ?thesis
    using idle_reported [OF i, of exe "item_id it"]
    by (auto simp: Single vals bindM_raise_step mark_responses_def run_parsed_def idle_quiet split: prod.split)
next
  case (Parallel its mode)
  have "open_infos (ex_sha1 exe) (w_counts w) its vals \<noteq> []" using len op Parallel by (simp add: open_infos_nil)
  then show ?thesis
    using group_untouched [OF _ _ _ w ne ser refl, of its "[]" "[]" mode] a len t
    by (auto simp: Parallel untouched_def)
qed

text \<open>With a target the step runs, and the block answers what the step answers.\<close>

lemma step_answer:
  assumes ser: "cl_serializer (ex_client exe) = None"
    and o': "o' = run_outcome exe s None (case r of Inl e \<Rightarrow> Inl (Raised e) | Inr v \<Rightarrow> Inr v)"
  shows "(\<exists>e. o' = Raised e) \<or> (\<exists>x. o' = ResponseInterrupt [x])"
proof (cases r)
  case (Inr v)
  with ser show ?thesis by (simp add: o' run_outcome_def client_serialize_def output_response_def)
next
  case (Inl e)
  then show ?thesis by (simp add: o' run_outcome_def error_response_def)
qed

lemma group_loop_targeted:
  assumes a: "agrees exe (map item_id its) vals w" and len: "length vals = length its"
    and i: "i < length its" "vals ! i = None" "its ! i = It_run sid h"
    and t: "ex_target_hashed_id exe = Some (keys_of (ex_sha1 exe) (w_counts w) (map item_id its) ! i)"
    and w: "idle True w" and h: "h (user (w_out w)) = (r, u)"
    and ne: "Some PEmpty \<notin> set vals" and ser: "cl_serializer (ex_client exe) = None"
  shows "\<exists>p w'. ps_hashed p = keys_of (ex_sha1 exe) (w_counts w) (map item_id its) ! i \<and> ps_user_facing p = sid
    \<and> idle True w' \<and> user (w_out w') = u
    \<and> (case run_outcome exe (run_info p) None (case r of Inl e \<Rightarrow> Inl (Raised e) | Inr v \<Rightarrow> Inr v) of
         ResponseInterrupt rs \<Rightarrow> \<exists>outs. Group_parallel_loop (map (run_item exe) its) [] [] w = (Inr (outs, rs), w')
       | e \<Rightarrow> Group_parallel_loop (map (run_item exe) its) [] [] w = (Inl e, w'))"
proof -
  let ?sha = "ex_sha1 exe" and ?c = "w_counts w"
  let ?ks = "keys_of ?sha ?c (map item_id its)"
  define pre post vpre vpost where "pre = take i its" and "post = drop (Suc i) its"
    and "vpre = take i vals" and "vpost = drop (Suc i) vals"
  have its: "its = pre @ It_run sid h # post" using id_take_nth_drop [OF i(1)] i(3) by (simp add: pre_def post_def)
  have vals: "vals = vpre @ None # vpost" using id_take_nth_drop [of i vals] i len by (simp add: vpre_def vpost_def)
  have lens: "length vpre = length pre" "length vpost = length post" "length pre = i"
    using len i by (simp_all add: pre_def post_def vpre_def vpost_def)
  have ks: "?ks = keys_of ?sha ?c (map item_id pre) @ (?ks ! i)
      # keys_of ?sha (counts_after ?sha ?c (map item_id pre @ [sid])) (map item_id post)"
    using keys_of_append [of ?sha ?c "map item_id pre" "sid # map item_id post"] lens
      keys_of_append [of ?sha ?c "map item_id pre @ [sid]" "map item_id post"]
      keys_of_append [of ?sha ?c "map item_id pre" "[sid]"]
    by (simp add: its nth_append)
  have dist: "distinct ?ks" using a by (simp add: agrees_def)
  have a1: "agrees exe (map item_id pre @ sid # map item_id post) (vpre @ None # vpost) w"
    using a by (simp add: its vals)
  have un: "untouched exe (keys_of ?sha ?c (map item_id pre))"
    using dist t by (subst (asm) ks) (simp add: untouched_def)
  obtain w1 where w1: "Group_parallel_loop (map (run_item exe) pre) [] [] w = (Inr (outputs_of vpre, []), w1)"
    "idle True w1" "agrees exe (sid # map item_id post) (None # vpost) w1"
    "w_counts w1 = counts_after ?sha ?c (map item_id pre)" "user (w_out w1) = user (w_out w)"
    using Group_loop_untouched [OF a1 lens(1) un w _ ser, of "[]" "[]"] ne t by (auto simp: vals)
  let ?p = "run_parsed exe sid w1" and ?r = "case r of Inl e \<Rightarrow> Inl (Raised e) | Inr v \<Rightarrow> Inr v"
  have p: "ps_hashed ?p = ?ks ! i" using ks w1(4) lens by (simp add: run_parsed_def keys_of_append its nth_append)
  have new: "dget (w_memos w1) (ps_hashed ?p) = None" using agrees_head [OF w1(3)] by simp
  obtain w2 where w2: "run_item exe (It_run sid h) w1 = (Inl (run_outcome exe (run_info ?p) None ?r), w2)"
    "idle True w2" "user (w_out w2) = u" "w_memos w2 = w_memos (run_reported exe sid w1)"
    "w_counts w2 = w_counts (run_reported exe sid w1)"
    using item_targeted [where exe = exe, OF w1(2) new, of h r u] t p h w1(5) by auto
  have a2: "agrees exe (map item_id post) vpost w2" by (rule agrees_tail [OF w1(3,2) w2(4,5)])
  have c2: "w_counts w2 = counts_after ?sha ?c (map item_id pre @ [sid])"
    using w2(5) idle_reported(4) [OF w1(2), of exe sid] w1(4)
    by (metis counts_after_append counts_after.simps)
  have un2: "untouched exe (keys_of ?sha (w_counts w2) (map item_id post))"
    using dist t by (subst (asm) ks) (simp add: untouched_def c2)
  have split: "Group_parallel_loop (map (run_item exe) its) [] [] w =
     Group_parallel_loop (run_item exe (It_run sid h) # map (run_item exe) post) (outputs_of vpre) [] w1"
    unfolding its map_append list.map(2) Group_loop_append by (simp add: bindM_def w1(1) del: Group_parallel_loop.simps)
  from step_answer [OF ser refl, of "run_info ?p" r] show ?thesis
  proof (elim disjE exE)
    fix e assume e: "run_outcome exe (run_info ?p) None ?r = Raised e"
    show ?thesis
      by (rule exI [of _ ?p], rule exI [of _ w2])
         (use p w2 e split in \<open>simp add: Group_loop_step del: Group_parallel_loop.simps\<close>)
  next
    fix x assume x: "run_outcome exe (run_info ?p) None ?r = ResponseInterrupt [x]"
    obtain w3 where w3: "Group_parallel_loop (map (run_item exe) post) (outputs_of vpre) [x] w2
        = (Inr (outputs_of vpre @ outputs_of vpost, [x]), w3)" "idle True w3" "user (w_out w3) = u"
      using Group_loop_untouched [where ids = "[]" and vals' = "[]", simplified, OF a2 lens(2) un2 w2(2) _ ser, of "outputs_of vpre" "[x]"]
        ne t w2(3) by (auto simp: vals)
    show ?thesis
      by (rule exI [of _ ?p], rule exI [of _ w3])
         (use p w2(1) w3 x split in \<open>simp add: Group_loop_step del: Group_parallel_loop.simps\<close>)
  qed
qed

lemma block_targeted:
  assumes a: "agrees exe (block_ids b) vals w" and len: "length vals = length (items_of b)"
    and i: "i < length (items_of b)" "vals ! i = None" "items_of b ! i = It_run sid h"
    and t: "ex_target_hashed_id exe = Some (keys_of (ex_sha1 exe) (w_counts w) (block_ids b) ! i)"
    and w: "quiet w" and h: "h (user (w_out w)) = (r, u)"
    and ne: "Some PEmpty \<notin> set vals" and ser: "cl_serializer (ex_client exe) = None"
  shows "\<exists>p w'. ps_hashed p = keys_of (ex_sha1 exe) (w_counts w) (block_ids b) ! i \<and> ps_user_facing p = sid
    \<and> run_block exe b w = (Inl (mark_responses b (run_outcome exe (run_info p) None
         (case r of Inl e \<Rightarrow> Inl (Raised e) | Inr v \<Rightarrow> Inr v))), w')
    \<and> quiet w' \<and> user (w_out w') = u"
proof (cases b)
  case (Single it)
  with i have it: "it = It_run sid h" "i = 0" by simp_all
  from len i it Single have vals: "vals = [None]" by (cases vals) auto
  let ?p = "run_parsed exe sid w"
  from w have id: "idle False w" by (simp add: idle_quiet)
  have new: "dget (w_memos w) (ps_hashed ?p) = None" using a by (simp add: Single it vals agrees_head)
  obtain w1 where "run_item exe (It_run sid h) w = (Inl (run_outcome exe (run_info ?p) None
      (case r of Inl e \<Rightarrow> Inl (Raised e) | Inr v \<Rightarrow> Inr v)), w1)" "idle False w1" "user (w_out w1) = u"
    using item_targeted [where exe = exe, OF id new, of h r u] t h by (auto simp: Single it run_parsed_def)
  then show ?thesis
    by (intro exI [of _ ?p] exI [of _ w1])
       (simp add: Single it bindM_raise_step mark_responses_def idle_quiet flip: run_parsed_def)
next
  case (Parallel its mode)
  let ?w0 = "w\<lparr>w_in_parallel := True\<rparr>" and ?r = "case r of Inl e \<Rightarrow> Inl (Raised e) | Inr v \<Rightarrow> Inr v"
  have w0: "idle True ?w0" using w by (simp add: idle_par idle_quiet quiet_def [of w] idle_def)
  obtain p w1 where p: "ps_hashed p = keys_of (ex_sha1 exe) (w_counts w) (map item_id its) ! i" "ps_user_facing p = sid"
    and w1: "idle True w1" "user (w_out w1) = u"
    and loop: "case run_outcome exe (run_info p) None ?r of
         ResponseInterrupt rs \<Rightarrow> \<exists>outs. Group_parallel_loop (map (run_item exe) its) [] [] ?w0 = (Inr (outs, rs), w1)
       | e \<Rightarrow> Group_parallel_loop (map (run_item exe) its) [] [] ?w0 = (Inl e, w1)"
    using group_loop_targeted [of exe its vals ?w0 i sid h r u] a len i t w0 h ne ser Parallel by auto
  have par: "w_in_parallel w = False" using w by (simp add: quiet_def)
  from step_answer [OF ser refl, of "run_info p" r] loop
  have "run_block exe b w = (Inl (mark_responses b (run_outcome exe (run_info p) None ?r)), w1\<lparr>w_in_parallel := False\<rparr>)"
    by (auto simp: Parallel Group_parallel_eq mark_responses_def par)
  with p w1 Parallel show ?thesis
    by (intro exI [of _ p] exI [of _ "w1\<lparr>w_in_parallel := False\<rparr>"]) (simp add: idle_par)
qed

section \<open>Replaying the finished blocks\<close>

text \<open>The outputs of the finished blocks, what the program has left, and the identifiers so far.\<close>

fun after_blocks :: "'u group_prog \<Rightarrow> pyobj list list \<Rightarrow> 'u group_prog option" where
  "after_blocks p [] = Some p"
| "after_blocks (GP_block b k) (vs # hist) = (if length vs = length (items_of b) then after_blocks (k vs) hist else None)"
| "after_blocks p (vs # hist) = None"

fun ids_so_far :: "'u group_prog \<Rightarrow> pyobj list list \<Rightarrow> string list" where
  "ids_so_far (GP_block b k) (vs # hist) = block_ids b @ ids_so_far (k vs) hist"
| "ids_so_far p hist = []"

lemma replay_blocks:
  assumes "after_blocks p hist = Some q" and "agrees exe (ids_so_far p hist @ ids) (map Some (concat hist) @ vals) w"
    and "quiet w" and "PEmpty \<notin> set (concat hist)" and ser: "cl_serializer (ex_client exe) = None"
  shows "\<exists>w'. run_group_prog p exe w = run_group_prog q exe w' \<and> quiet w' \<and> agrees exe ids vals w'
    \<and> w_counts w' = counts_after (ex_sha1 exe) (w_counts w) (ids_so_far p hist) \<and> user (w_out w') = user (w_out w)"
  using assms
proof (induction p hist arbitrary: w rule: after_blocks.induct)
  case (1 p)
  then show ?case by auto
next
  case (2 b k vs hist)
  from "2.prems"(1) have len: "length vs = length (items_of b)" and after: "after_blocks (k vs) hist = Some q"
    by (simp_all split: if_splits)
  obtain w1 where w1: "run_block exe b w = (Inr vs, w1)" "quiet w1"
    "agrees exe (ids_so_far (k vs) hist @ ids) (map Some (concat hist) @ vals) w1"
    "w_counts w1 = counts_after (ex_sha1 exe) (w_counts w) (block_ids b)" "user (w_out w1) = user (w_out w)"
    using block_replayed [OF _ len "2.prems"(3) _ ser, of "ids_so_far (k vs) hist @ ids" "map Some (concat hist) @ vals"]
      "2.prems"(2,4) by auto
  from "2.IH" [OF len after w1(3,2) _ ser] "2.prems"(4) obtain w2 where
    w2: "run_group_prog (k vs) exe w1 = run_group_prog q exe w2" "quiet w2" "agrees exe ids vals w2"
    "w_counts w2 = counts_after (ex_sha1 exe) (w_counts w1) (ids_so_far (k vs) hist)" "user (w_out w2) = user (w_out w1)"
    by auto
  with w1 show ?case by (auto simp: bindM_def counts_after_append)
qed auto

section \<open>One turn of the executor loop\<close>

definition group_args :: "'u mock_args \<Rightarrow> 'u group_prog \<Rightarrow> bool" where
  "group_args a p \<longleftrightarrow> plain_args a (run_group_prog p) \<and> (\<forall>x y. ma_sha1 a x = ma_sha1 a y \<longrightarrow> x = y)
     \<and> ok_group_prog (kept (ma_json a)) p
     \<and> (\<forall>k s. dget (ma_stubs a) k = Some s \<longrightarrow> kept (ma_json a) (stub_value s))"

fun next_items :: "'u group_prog \<Rightarrow> 'u item list" where
  "next_items (GP_block b k) = items_of b"
| "next_items p = []"

definition next_keys :: "'u mock_args \<Rightarrow> 'u group_prog \<Rightarrow> pyobj list list \<Rightarrow> 'u group_prog \<Rightarrow> string list" where
  "next_keys a p hist q = keys_of (ma_sha1 a) (counts_after (ma_sha1 a) [] (ids_so_far p hist)) (map item_id (next_items q))"

text \<open>
  The loop's state after the finished blocks \<open>hist\<close>, where \<open>q\<close> is what is left and \<open>vals\<close> are the outputs of its
  first block so far: exactly these outputs are kept, under the keys of their steps.
\<close>

definition all_keys :: "'u mock_args \<Rightarrow> 'u group_prog \<Rightarrow> pyobj list list \<Rightarrow> 'u group_prog \<Rightarrow> string list" where
  "all_keys a p hist q = keys_of (ma_sha1 a) [] (ids_so_far p hist @ map item_id (next_items q))"

definition group_inv :: "'u mock_args \<Rightarrow> 'u group_prog \<Rightarrow> (string, pyobj) dict \<Rightarrow> pyobj list list \<Rightarrow> 'u group_prog
    \<Rightarrow> pyobj option list \<Rightarrow> bool" where
  "group_inv a p steps hist q vals \<longleftrightarrow> group_args a p \<and> after_blocks p hist = Some q
     \<and> list_all plain_id (ids_so_far p hist) \<and> ok_group_prog (kept (ma_json a)) q
     \<and> (\<forall>v. Some v \<in> set (map Some (concat hist) @ vals) \<longrightarrow> kept (ma_json a) v)
     \<and> list_all2 (\<lambda>k v. dget steps k = v) (all_keys a p hist q) (map Some (concat hist) @ vals)
     \<and> length vals = length (next_items q)
     \<and> (\<forall>k. k \<notin> set (all_keys a p hist q) \<longrightarrow> dget steps k = None)"

lemma length_ids_so_far: "after_blocks p hist = Some q \<Longrightarrow> length (ids_so_far p hist) = length (concat hist)"
  by (induction p hist rule: after_blocks.induct) (auto split: if_splits)

lemma ok_next_ids: "ok_group_prog P q \<Longrightarrow> list_all plain_id (map item_id (next_items q))"
  by (cases q) (auto simp: list_all_iff dest: ok_item_id)

lemma plain_keys_distinct:
  assumes "\<forall>x y. sha1 x = sha1 y \<longrightarrow> x = y" and "list_all plain_id ids"
  shows "distinct (keys_of sha1 [] ids)"
  unfolding keys_of_def
proof (rule parse_all_hashed_distinct)
  show "\<And>x y. sha1 x = sha1 y \<Longrightarrow> x = y" using assms(1) by blast
  show "list_all (\<lambda>c. (of_char c :: nat) < 128 \<and> c \<noteq> CHR '':'') s" if "s \<in> set ids" for s
  proof -
    from assms(2) that have "plain_id s" by (simp only: list_all_iff)
    then show ?thesis unfolding plain_id_def .
  qed
qed

lemma group_inv_distinct:
  assumes "group_inv a p steps hist q vals"
  shows "distinct (all_keys a p hist q)"
  unfolding all_keys_def
  by (rule plain_keys_distinct)
     (use assms ok_next_ids [of "kept (ma_json a)" q] in \<open>simp_all add: group_inv_def group_args_def\<close>)

lemma all_keys_eq: "all_keys a p hist q = keys_of (ma_sha1 a) [] (ids_so_far p hist) @ next_keys a p hist q"
  by (simp add: all_keys_def next_keys_def keys_of_append)

lemma group_inv_next:
  assumes "group_inv a p steps hist q vals"
  shows "length (next_keys a p hist q) = length vals" "distinct (next_keys a p hist q)"
    "list_all2 (\<lambda>k v. dget steps k = v) (next_keys a p hist q) vals"
    "set (keys_of (ma_sha1 a) [] (ids_so_far p hist)) \<inter> set (next_keys a p hist q) = {}"
    "list_all2 (\<lambda>k v. dget steps k = v) (keys_of (ma_sha1 a) [] (ids_so_far p hist)) (map Some (concat hist))"
    "\<forall>v. Some v \<in> set vals \<longrightarrow> kept (ma_json a) v" "Some PEmpty \<notin> set vals" "PEmpty \<notin> set (concat hist)"
proof -
  from assms have inv: "after_blocks p hist = Some q" "length vals = length (next_items q)"
    "list_all2 (\<lambda>k v. dget steps k = v) (all_keys a p hist q) (map Some (concat hist) @ vals)"
    and kept: "\<forall>v. Some v \<in> set (map Some (concat hist) @ vals) \<longrightarrow> kept (ma_json a) v"
    by (simp_all add: group_inv_def)
  then have len: "length (keys_of (ma_sha1 a) [] (ids_so_far p hist)) = length (map Some (concat hist))"
    by (simp add: length_ids_so_far)
  show "length (next_keys a p hist q) = length vals" by (simp add: next_keys_def inv)
  show "distinct (next_keys a p hist q)" "set (keys_of (ma_sha1 a) [] (ids_so_far p hist)) \<inter> set (next_keys a p hist q) = {}"
    using group_inv_distinct [OF assms] by (simp_all add: all_keys_eq)
  show "list_all2 (\<lambda>k v. dget steps k = v) (next_keys a p hist q) vals"
    "list_all2 (\<lambda>k v. dget steps k = v) (keys_of (ma_sha1 a) [] (ids_so_far p hist)) (map Some (concat hist))"
    using inv(3) len by (simp_all add: all_keys_eq list_all2_append)
  show "\<forall>v. Some v \<in> set vals \<longrightarrow> kept (ma_json a) v" using kept by auto
  have "\<not> kept (ma_json a) PEmpty" by (simp add: kept_def)
  with kept show "Some PEmpty \<notin> set vals" "PEmpty \<notin> set (concat hist)" by (auto simp del: set_concat)
qed

lemma dget_from_raw: "dget (StepMemos_from_raw json steps) k = map_option (memo_of_raw json) (dget steps k)"
  by (induction steps) (auto simp: StepMemos_from_raw_def)

lemma group_turn_enters:
  assumes inv: "group_inv a p (ms_steps st) hist q vals" and pop: "mock_pop (ma_pop a) (ms_planned st) = (t, pl)"
  defines "st1 \<equiv> st\<lparr>ms_planned := pl\<rparr>"
  shows "\<exists>w1. quiet w1 \<and> agrees (mock_exe a st1 t) (map item_id (next_items q)) vals w1
    \<and> w_counts w1 = counts_after (ma_sha1 a) [] (ids_so_far p hist) \<and> user (w_out w1) = user out
    \<and> (\<forall>r w2. run_group_prog q (mock_exe a st1 t) w1 = (r, w2) \<longrightarrow> quiet w2 \<longrightarrow> proper r \<longrightarrow>
        (\<exists>out'. mock_turn a st out = (mock_handle_result (max_attempt (ma_fn a)) (ma_stubs a) (outcome r) st1, out')
           \<and> user out' = user (w_out w2)))"
proof -
  let ?exe = "mock_exe a st1 t" and ?ids = "ids_so_far p hist @ map item_id (next_items q)"
  from inv have plain: "plain_args a (run_group_prog p)" and after: "after_blocks p hist = Some q"
    and kept: "\<forall>v. Some v \<in> set (map Some (concat hist) @ vals) \<longrightarrow> kept (ma_json a) v"
    and steps: "list_all2 (\<lambda>k v. dget (ms_steps st) k = v) (all_keys a p hist q) (map Some (concat hist) @ vals)"
    by (simp_all add: group_inv_def group_args_def)
  from turn_calls [OF plain pop, of out, folded st1_def]
  obtain w0 where w0: "quiet w0" "w_memos w0 = StepMemos_from_raw (ma_json a) (ms_steps st)" "w_counts w0 = []" "user (w_out w0) = user out"
    and call: "\<And>r w2. run_group_prog p ?exe w0 = (r, w2) \<Longrightarrow> quiet w2 \<Longrightarrow> proper r \<Longrightarrow>
      \<exists>out'. mock_turn a st out = (mock_handle_result (max_attempt (ma_fn a)) (ma_stubs a) (outcome r) st1, out')
           \<and> user out' = user (w_out w2)" by blast
  have sha: "ex_sha1 ?exe = ma_sha1 a" and ser: "cl_serializer (ex_client ?exe) = None"
    using plain by (simp_all add: mock_exe_def plain_args_def)
  have "list_all2 (\<lambda>k v. dget (w_memos w0) k = map_option kept_memo v) (all_keys a p hist q) (map Some (concat hist) @ vals)"
    using steps
  proof (rule list.rel_mono_strong)
    fix k v assume "v \<in> set (map Some (concat hist) @ vals)" and "dget (ms_steps st) k = v"
    with kept show "dget (w_memos w0) k = map_option kept_memo v"
      by (cases v) (auto simp: w0(2) dget_from_raw kept_def kept_memo_def)
  qed
  then have agr: "agrees ?exe ?ids (map Some (concat hist) @ vals) w0"
    using group_inv_distinct [OF inv] by (simp add: agrees_def sha w0(3) all_keys_def)
  obtain w1 where "run_group_prog p ?exe w0 = run_group_prog q ?exe w1" "quiet w1"
      "agrees ?exe (map item_id (next_items q)) vals w1" "w_counts w1 = counts_after (ma_sha1 a) [] (ids_so_far p hist)"
      "user (w_out w1) = user out"
    using replay_blocks [OF after agr w0(1) group_inv_next(8) [OF inv] ser] w0(3,4) by (auto simp: sha)
  with call show ?thesis by (intro exI [of _ w1]) simp
qed

text \<open>The loop's handling of responses looks only at what a group leaves alone.\<close>

lemma handle_marked:
  "mock_handle_result mx stubs (outcome (Inl (mark_responses b r))) st = mock_handle_result mx stubs (outcome (Inl r)) st"
  "proper (Inl (mark_responses b r)) = proper (Inl r)"
proof -
  have steps: "mock_handle_steps mx stubs (map (\<lambda>r. CallResult (sp_original_error r) None (sp_output r)
        (Some (set_parallel_mode mode (sp_step r)))) rs) st
     = mock_handle_steps mx stubs (map (\<lambda>r. CallResult (sp_original_error r) None (sp_output r) (Some (sp_step r))) rs) st" for mode rs
    by (induction rs arbitrary: st) (simp_all split: option.split)
  then have "mock_handle_result mx stubs (from_responses (map (\<lambda>r. r\<lparr>sp_step := set_parallel_mode mode (sp_step r)\<rparr>) rs)) st
     = mock_handle_result mx stubs (from_responses rs) st" for mode rs
    using steps [of mode rs] by (cases rs) (simp_all add: mock_handle_result_def from_responses_def comp_def)
  then show "mock_handle_result mx stubs (outcome (Inl (mark_responses b r))) st = mock_handle_result mx stubs (outcome (Inl r)) st"
    "proper (Inl (mark_responses b r)) = proper (Inl r)"
    by (cases b; cases r; simp add: mark_responses_def outcome_def proper_def)+
qed

text \<open>A turn without a target keeps the open steps that need no run and plans the others.\<close>

fun plan_open :: "(string, stub) dict \<Rightarrow> 'u item list \<Rightarrow> string list \<Rightarrow> pyobj option list \<Rightarrow> mock_state \<Rightarrow> mock_state" where
  "plan_open stubs (it # its) (k # ks) (v # vals) st = plan_open stubs its ks vals
     (case v of Some x \<Rightarrow> st | None \<Rightarrow> (case fixed_value stubs it of
        Some x \<Rightarrow> keep_step k x st | None \<Rightarrow> st\<lparr>ms_planned := List.insert k (ms_planned st)\<rparr>))"
| "plan_open stubs its ks vals st = st"

definition refresh :: "(string, stub) dict \<Rightarrow> 'u item list \<Rightarrow> pyobj option list \<Rightarrow> pyobj option list" where
  "refresh stubs its vals = map2 (\<lambda>it v. case v of Some x \<Rightarrow> Some x | None \<Rightarrow> fixed_value stubs it) its vals"

lemma handle_open:
  assumes "length vals = length its"
  shows "mock_handle_steps mx stubs (map (\<lambda>s. CallResult None None PNone (Some s)) (open_infos sha1 c its vals)) st
    = Again (plan_open stubs its (keys_of sha1 c (map item_id its)) vals st)"
  using assms
proof (induction its vals arbitrary: c st rule: list_induct2')
  case (4 it its v vals)
  obtain p c' where p: "parse_step_id sha1 c (item_id it) = (p, c')" by (cases "parse_step_id sha1 c (item_id it)")
  have name: "ps_user_facing p = item_id it" using p by (auto simp: parse_step_id_def Let_def split: prod.splits)
  from 4 p name show ?case
    by (cases it; cases v) (auto simp: fixed_value_def stub_value_def split: option.split stub.split)
qed auto

lemma plan_open:
  assumes "length its = length ks" and "length ks = length vals" and "distinct ks"
    and "list_all2 (\<lambda>k v. dget (ms_steps st) k = v) ks vals"
  shows "ms_attempt (plan_open stubs its ks vals st) = ms_attempt st"
    "list_all2 (\<lambda>k v. dget (ms_steps (plan_open stubs its ks vals st)) k = v) ks (refresh stubs its vals)"
    "\<forall>k. k \<notin> set ks \<longrightarrow> dget (ms_steps (plan_open stubs its ks vals st)) k = dget (ms_steps st) k"
    "set (ms_planned (plan_open stubs its ks vals st)) = set (ms_planned st)
       \<union> {ks ! i | i. i < length its \<and> vals ! i = None \<and> fixed_value stubs (its ! i) = None}"
proof -
  have "ms_attempt (plan_open stubs its ks vals st) = ms_attempt st
    \<and> list_all2 (\<lambda>k v. dget (ms_steps (plan_open stubs its ks vals st)) k = v) ks (refresh stubs its vals)
    \<and> (\<forall>k. k \<notin> set ks \<longrightarrow> dget (ms_steps (plan_open stubs its ks vals st)) k = dget (ms_steps st) k)
    \<and> set (ms_planned (plan_open stubs its ks vals st)) = set (ms_planned st)
       \<union> {ks ! i | i. i < length its \<and> vals ! i = None \<and> fixed_value stubs (its ! i) = None}"
    using assms
  proof (induction its ks vals arbitrary: st rule: list_induct3)
    case (Cons it its k ks v vals)
    define st1 where "st1 = (case v of Some x \<Rightarrow> st | None \<Rightarrow> (case fixed_value stubs it of
        Some x \<Rightarrow> keep_step k x st | None \<Rightarrow> st\<lparr>ms_planned := List.insert k (ms_planned st)\<rparr>))"
    have st1: "ms_attempt st1 = ms_attempt st" "dget (ms_steps st1) k = (case v of Some x \<Rightarrow> Some x | None \<Rightarrow> fixed_value stubs it)"
      "\<And>j. j \<noteq> k \<Longrightarrow> dget (ms_steps st1) j = dget (ms_steps st) j"
      "set (ms_planned st1) = (if v = None \<and> fixed_value stubs it = None then insert k (set (ms_planned st)) else set (ms_planned st))"
      using Cons.prems by (auto simp: st1_def keep_step_def split: option.split)
    have "list_all2 (\<lambda>k v. dget (ms_steps st) k = v) ks vals" "k \<notin> set ks" using Cons.prems by simp_all
    then have "list_all2 (\<lambda>k v. dget (ms_steps st1) k = v) ks vals"
      using st1(3) by (auto simp: list_all2_conv_all_nth) (metis nth_mem)
    note IH = Cons.IH [OF _ this]
    have idx: "{(k # ks) ! i | i. i < length (it # its) \<and> (v # vals) ! i = None \<and> fixed_value stubs ((it # its) ! i) = None}
       = (if v = None \<and> fixed_value stubs it = None then {k} else {})
         \<union> {ks ! i | i. i < length its \<and> vals ! i = None \<and> fixed_value stubs (its ! i) = None}" (is "?L = ?R")
    proof (intro set_eqI iffI)
      fix x assume "x \<in> ?L"
      then obtain i where "x = (k # ks) ! i" "i < length (it # its)" "(v # vals) ! i = None" "fixed_value stubs ((it # its) ! i) = None" by blast
      then show "x \<in> ?R" by (cases i) auto
    next
      fix x assume "x \<in> ?R"
      then consider "x = k" "v = None" "fixed_value stubs it = None"
        | i where "x = ks ! i" "i < length its" "vals ! i = None" "fixed_value stubs (its ! i) = None" by (auto split: if_splits)
      then show "x \<in> ?L"
      proof cases
        case 1
        then show ?thesis by (auto intro!: exI [of _ 0])
      next
        case (2 i)
        then show ?thesis by (auto intro!: exI [of _ "Suc i"])
      qed
    qed
    show ?case
      unfolding idx using IH st1 Cons.prems(1)
      by (auto simp: refresh_def simp flip: st1_def)
  qed (simp add: refresh_def)
  then show "ms_attempt (plan_open stubs its ks vals st) = ms_attempt st"
    "list_all2 (\<lambda>k v. dget (ms_steps (plan_open stubs its ks vals st)) k = v) ks (refresh stubs its vals)"
    "\<forall>k. k \<notin> set ks \<longrightarrow> dget (ms_steps (plan_open stubs its ks vals st)) k = dget (ms_steps st) k"
    "set (ms_planned (plan_open stubs its ks vals st)) = set (ms_planned st)
       \<union> {ks ! i | i. i < length its \<and> vals ! i = None \<and> fixed_value stubs (its ! i) = None}"
    by blast+
qed

lemma handle_responses:
  "rs \<noteq> [] \<Longrightarrow> mock_handle_result mx stubs (outcome (Inl (ResponseInterrupt rs))) st =
     mock_handle_steps mx stubs (map (\<lambda>r. CallResult (sp_original_error r) None (sp_output r) (Some (sp_step r))) rs) st"
  by (cases rs) (simp_all add: outcome_def from_responses_def mock_handle_result_def)

lemma group_turn_open:
  assumes inv: "group_inv a p (ms_steps st) hist (GP_block b k) vals" and pl: "ms_planned st = []" and op: "None \<in> set vals"
  shows "\<exists>out'. mock_turn a st out =
      (Again (plan_open (ma_stubs a) (items_of b) (next_keys a p hist (GP_block b k)) vals st), out') \<and> user out' = user out"
proof -
  let ?exe = "mock_exe a st None" and ?its = "items_of b" and ?c = "counts_after (ma_sha1 a) [] (ids_so_far p hist)"
  let ?rs = "map mk_StepResponse (open_infos (ma_sha1 a) ?c ?its vals)"
  note st = mock_state_same [OF pl]
  have pop: "mock_pop (ma_pop a) (ms_planned st) = (None, [])" by (simp add: mock_pop_def pl)
  have len: "length vals = length ?its" using inv by (simp add: group_inv_def)
  obtain w1 where w1: "quiet w1" "agrees ?exe (block_ids b) vals w1" "w_counts w1 = ?c" "user (w_out w1) = user out"
    and turn: "\<And>r w2. run_group_prog (GP_block b k) ?exe w1 = (r, w2) \<Longrightarrow> quiet w2 \<Longrightarrow> proper r \<Longrightarrow>
        \<exists>out'. mock_turn a st out = (mock_handle_result (max_attempt (ma_fn a)) (ma_stubs a) (outcome r) st, out')
           \<and> user out' = user (w_out w2)"
    using group_turn_enters [OF inv pop, of out] unfolding st next_items.simps by blast
  have sha: "ex_sha1 ?exe = ma_sha1 a" and ser: "cl_serializer (ex_client ?exe) = None"
    and dis: "ctx_disable_immediate_execution (req_ctx (ex_request ?exe))" "ex_target_hashed_id ?exe = None"
    using inv by (simp_all add: mock_exe_def mock_request_def group_inv_def group_args_def plain_args_def)
  obtain w2 where w2: "run_block ?exe b w1 = (Inl (mark_responses b (ResponseInterrupt ?rs)), w2)" "quiet w2"
      "user (w_out w2) = user out"
    using block_open [OF w1(2) len op dis(2,1) w1(1) group_inv_next(7) [OF inv] ser] w1(3,4) unfolding sha by auto
  have rs: "?rs \<noteq> []" using len op by (simp add: open_infos_nil)
  have "run_group_prog (GP_block b k) ?exe w1 = (Inl (mark_responses b (ResponseInterrupt ?rs)), w2)"
    using w2(1) by (simp add: bindM_raise_step)
  moreover have "proper (Inl (mark_responses b (ResponseInterrupt ?rs)))"
    unfolding handle_marked(2) using rs by (simp add: proper_def)
  ultimately have "\<exists>out'. mock_turn a st out = (mock_handle_result (max_attempt (ma_fn a)) (ma_stubs a)
      (outcome (Inl (mark_responses b (ResponseInterrupt ?rs)))) st, out') \<and> user out' = user (w_out w2)"
    by (intro turn w2(2))
  then obtain out' where
    out': "mock_turn a st out = (mock_handle_result (max_attempt (ma_fn a)) (ma_stubs a) (outcome (Inl (ResponseInterrupt ?rs))) st, out')"
      "user out' = user out"
    unfolding handle_marked(1) w2(3) by blast
  have "mock_handle_result (max_attempt (ma_fn a)) (ma_stubs a) (outcome (Inl (ResponseInterrupt ?rs))) st
      = Again (plan_open (ma_stubs a) ?its (next_keys a p hist (GP_block b k)) vals st)"
    using handle_open [OF len, of "max_attempt (ma_fn a)" "ma_stubs a" "ma_sha1 a" ?c st]
    by (simp add: handle_responses [OF rs] next_keys_def mk_StepResponse_def comp_def)
  with out' show ?thesis by simp
qed

definition runnable :: "(string, stub) dict \<Rightarrow> 'u item list \<Rightarrow> pyobj option list \<Rightarrow> nat set" where
  "runnable stubs its vals = {i. i < length its \<and> vals ! i = None \<and> fixed_value stubs (its ! i) = None}"

lemma runnableD:
  assumes "i \<in> runnable stubs its vals"
  shows "\<exists>sid h. its ! i = It_run sid h \<and> dget stubs sid = None"
  using assms by (cases "its ! i") (auto simp: runnable_def fixed_value_def split: option.splits)

lemma mock_pop_mem:
  "planned \<noteq> [] \<Longrightarrow> \<exists>k. k \<in> set planned \<and> mock_pop pop planned = (Some k, removeAll k planned)"
  by (auto simp: mock_pop_def Let_def)

text \<open>A turn with planned steps runs one of them.\<close>

lemma group_turn_targeted:
  assumes inv: "group_inv a p (ms_steps st) hist (GP_block b k) vals" and pl: "ms_planned st \<noteq> []"
    and planned: "set (ms_planned st) \<subseteq> (!) (next_keys a p hist (GP_block b k)) ` runnable (ma_stubs a) (items_of b) vals"
  shows "\<exists>i sid h. i \<in> runnable (ma_stubs a) (items_of b) vals \<and> items_of b ! i = It_run sid h
    \<and> next_keys a p hist (GP_block b k) ! i \<in> set (ms_planned st)
    \<and> (\<forall>r u. h (user out) = (r, u) \<longrightarrow> (\<exists>out'. mock_turn a st out =
        (targeted (max_attempt (ma_fn a)) (next_keys a p hist (GP_block b k) ! i) r
          (st\<lparr>ms_planned := removeAll (next_keys a p hist (GP_block b k) ! i) (ms_planned st)\<rparr>), out') \<and> user out' = u))"
proof -
  let ?ks = "next_keys a p hist (GP_block b k)" and ?c = "counts_after (ma_sha1 a) [] (ids_so_far p hist)"
  obtain i where i: "i \<in> runnable (ma_stubs a) (items_of b) vals" "?ks ! i \<in> set (ms_planned st)"
    and pop: "mock_pop (ma_pop a) (ms_planned st) = (Some (?ks ! i), removeAll (?ks ! i) (ms_planned st))"
    using mock_pop_mem [OF pl, of "ma_pop a"] planned by blast
  from runnableD [OF i(1)] obtain sid h where it: "items_of b ! i = It_run sid h" "dget (ma_stubs a) sid = None" by blast
  let ?st = "st\<lparr>ms_planned := removeAll (?ks ! i) (ms_planned st)\<rparr>"
  let ?exe = "mock_exe a ?st (Some (?ks ! i))"
  have len: "length vals = length (items_of b)" using inv by (simp add: group_inv_def)
  have sha: "ex_sha1 ?exe = ma_sha1 a" and ser: "cl_serializer (ex_client ?exe) = None"
    using inv by (simp_all add: mock_exe_def group_inv_def group_args_def plain_args_def)
  obtain w1 where w1: "quiet w1" "agrees ?exe (block_ids b) vals w1" "w_counts w1 = ?c" "user (w_out w1) = user out"
    and turn: "\<And>r w2. run_group_prog (GP_block b k) ?exe w1 = (r, w2) \<Longrightarrow> quiet w2 \<Longrightarrow> proper r \<Longrightarrow>
        \<exists>out'. mock_turn a st out = (mock_handle_result (max_attempt (ma_fn a)) (ma_stubs a) (outcome r) ?st, out')
           \<and> user out' = user (w_out w2)"
    using group_turn_enters [OF inv pop, of out] unfolding next_items.simps by blast
  have ks: "keys_of (ex_sha1 ?exe) (w_counts w1) (block_ids b) = ?ks" unfolding sha w1(3) by (simp add: next_keys_def)
  have "\<exists>out'. mock_turn a st out = (targeted (max_attempt (ma_fn a)) (?ks ! i) r ?st, out') \<and> user out' = u"
    if h: "h (user out) = (r, u)" for r u
  proof -
    let ?r = "case r of Inl e \<Rightarrow> Inl (Raised e) | Inr v \<Rightarrow> Inr v"
    have t: "ex_target_hashed_id ?exe = Some (keys_of (ex_sha1 ?exe) (w_counts w1) (block_ids b) ! i)"
      by (simp add: ks) (simp add: mock_exe_def)
    obtain q w2 where q: "ps_hashed q = ?ks ! i" "ps_user_facing q = sid"
      and w2: "run_block ?exe b w1 = (Inl (mark_responses b (run_outcome ?exe (run_info q) None ?r)), w2)" "quiet w2"
        "user (w_out w2) = u"
      using block_targeted [OF w1(2) len _ _ it(1) t w1(1) _ group_inv_next(7) [OF inv] ser, of r u] i(1) h w1(4)
      unfolding ks by (auto simp: runnable_def)
    let ?o = "Inl (run_outcome ?exe (run_info q) None ?r) :: raised + pyobj"
    have handled: "proper ?o \<and> mock_handle_result (max_attempt (ma_fn a)) (ma_stubs a) (outcome ?o) ?st
        = targeted (max_attempt (ma_fn a)) (si_id (run_info q)) r ?st"
      by (rule run_outcome_handled [OF ser]) (simp_all add: it q)
    have "run_group_prog (GP_block b k) ?exe w1 = (Inl (mark_responses b (run_outcome ?exe (run_info q) None ?r)), w2)"
      using w2(1) by (simp add: bindM_raise_step)
    moreover have "proper (Inl (mark_responses b (run_outcome ?exe (run_info q) None ?r)))"
      unfolding handle_marked(2) using handled by blast
    ultimately have "\<exists>out'. mock_turn a st out = (mock_handle_result (max_attempt (ma_fn a)) (ma_stubs a)
        (outcome (Inl (mark_responses b (run_outcome ?exe (run_info q) None ?r)))) ?st, out') \<and> user out' = user (w_out w2)"
      by (intro turn w2(2))
    then obtain out' where "mock_turn a st out = (mock_handle_result (max_attempt (ma_fn a)) (ma_stubs a) (outcome ?o) ?st, out')"
        "user out' = u"
      unfolding handle_marked(1) w2(3) by blast
    with handled q show ?thesis by simp
  qed
  with i it show ?thesis by (intro exI [of _ i] exI [of _ sid] exI [of _ h]) simp
qed

lemma group_turn_end:
  assumes inv: "group_inv a p (ms_steps st) hist q vals" and pl: "ms_planned st = []"
  shows "q = GP_return v \<Longrightarrow> \<exists>out'. mock_turn a st out = (Finished (completed v), out') \<and> user out' = user out"
    "q = GP_fail e \<Longrightarrow> \<exists>out'. mock_turn a st out =
      ((if ms_attempt st \<ge> max_attempt (ma_fn a) then Finished (failed_result e)
        else Again (st\<lparr>ms_attempt := ms_attempt st + 1\<rparr>)), out') \<and> user out' = user out"
proof -
  have pop: "mock_pop (ma_pop a) (ms_planned st) = (None, [])" by (simp add: mock_pop_def pl)
  obtain w1 where w1: "quiet w1" "user (w_out w1) = user out"
    and turn: "\<And>r w2. run_group_prog q (mock_exe a st None) w1 = (r, w2) \<Longrightarrow> quiet w2 \<Longrightarrow> proper r \<Longrightarrow>
        \<exists>out'. mock_turn a st out = (mock_handle_result (max_attempt (ma_fn a)) (ma_stubs a) (outcome r) st, out')
           \<and> user out' = user (w_out w2)"
    using group_turn_enters [OF inv pop, of out] unfolding mock_state_same [OF pl] by blast
  show "q = GP_return v \<Longrightarrow> \<exists>out'. mock_turn a st out = (Finished (completed v), out') \<and> user out' = user out"
    using turn [of "Inr v" w1] w1
    by (auto simp: retM_def proper_def outcome_def mock_handle_result_def CallResult_output_def completed_def)
  show "q = GP_fail e \<Longrightarrow> \<exists>out'. mock_turn a st out =
      ((if ms_attempt st \<ge> max_attempt (ma_fn a) then Finished (failed_result e)
        else Again (st\<lparr>ms_attempt := ms_attempt st + 1\<rparr>)), out') \<and> user out' = user out"
    using turn [of "Inl (Raised e)" w1] w1
    by (auto simp: raiseM_def proper_def outcome_def mock_handle_result_def CallResult_error_def)
qed

section \<open>The invariant along the loop\<close>

lemma group_inv_update:
  assumes inv: "group_inv a p steps hist q vals"
    and other: "\<forall>k. k \<notin> set (next_keys a p hist q) \<longrightarrow> dget steps' k = dget steps k"
    and new: "list_all2 (\<lambda>k v. dget steps' k = v) (next_keys a p hist q) vals'"
    and kept: "\<forall>v. Some v \<in> set vals' \<longrightarrow> kept (ma_json a) v"
  shows "group_inv a p steps' hist q vals'"
proof -
  note nx = group_inv_next [OF inv]
  have "list_all2 (\<lambda>k v. dget steps' k = v) (keys_of (ma_sha1 a) [] (ids_so_far p hist)) (map Some (concat hist))"
    using nx(5)
  proof (rule list.rel_mono_strong)
    fix k v assume k: "k \<in> set (keys_of (ma_sha1 a) [] (ids_so_far p hist))" and v: "dget steps k = v"
    from k nx(4) have "k \<notin> set (next_keys a p hist q)" by blast
    with other v show "dget steps' k = v" by simp
  qed
  from list_all2_appendI [OF this new]
  have "list_all2 (\<lambda>k v. dget steps' k = v) (all_keys a p hist q) (map Some (concat hist) @ vals')"
    unfolding all_keys_eq .
  moreover have "length vals' = length (next_items q)"
    using list_all2_lengthD [OF new] by (simp add: next_keys_def)
  ultimately show ?thesis
    using inv other kept by (auto simp: group_inv_def all_keys_eq)
qed

lemma after_blocks_append:
  "after_blocks p hist = Some (GP_block b k) \<Longrightarrow> length vs = length (items_of b) \<Longrightarrow>
   after_blocks p (hist @ [vs]) = Some (k vs) \<and> ids_so_far p (hist @ [vs]) = ids_so_far p hist @ block_ids b"
proof (induction p hist rule: after_blocks.induct)
  case (1 p)
  then show ?case by (cases "k vs") auto
next
  case (2 b' k' vs' hist)
  then show ?case by (auto split: if_splits)
qed auto

abbreviation all_open :: "'u group_prog \<Rightarrow> pyobj option list" where
  "all_open q \<equiv> replicate (length (next_items q)) None"

lemma group_inv_done:
  assumes inv: "group_inv a p steps hist (GP_block b k) (map Some vs)"
  shows "group_inv a p steps (hist @ [vs]) (k vs) (all_open (k vs))"
proof -
  let ?q = "GP_block b k" and ?q' = "k vs"
  from inv have args: "group_args a p" and len: "length vs = length (items_of b)" and after: "after_blocks p hist = Some ?q"
    and ids: "list_all plain_id (ids_so_far p hist)" and ok: "ok_group_prog (kept (ma_json a)) ?q"
    and kept: "\<forall>v. Some v \<in> set (map Some (concat hist) @ map Some vs) \<longrightarrow> kept (ma_json a) v"
    and steps: "list_all2 (\<lambda>k v. dget steps k = v) (all_keys a p hist ?q) (map Some (concat hist) @ map Some vs)"
    and none: "\<forall>k. k \<notin> set (all_keys a p hist ?q) \<longrightarrow> dget steps k = None"
    by (simp_all add: group_inv_def)
  have all: "list_all (kept (ma_json a)) vs" using kept by (auto simp: list_all_iff)
  with ok len have ok': "ok_group_prog (kept (ma_json a)) ?q'" by simp
  note app = after_blocks_append [OF after len]
  have plain: "list_all plain_id (ids_so_far p hist @ block_ids b)"
    using ids ok_next_ids [OF ok] by simp
  have keys: "all_keys a p (hist @ [vs]) ?q' = all_keys a p hist ?q
      @ keys_of (ma_sha1 a) (counts_after (ma_sha1 a) [] (ids_so_far p hist @ block_ids b)) (map item_id (next_items ?q'))"
    (is "_ = ?old @ ?new")
    by (simp add: all_keys_def app keys_of_append counts_after_append)
  have "distinct (all_keys a p (hist @ [vs]) ?q')"
    unfolding all_keys_def
    by (rule plain_keys_distinct) (use args plain ok_next_ids [OF ok'] app in \<open>simp_all add: group_args_def\<close>)
  then have "\<forall>k \<in> set ?new. dget steps k = None" using none by (auto simp: keys)
  then have "list_all2 (\<lambda>k v. dget steps k = v) ?new (all_open ?q')"
    by (auto simp: list_all2_conv_all_nth)
  with steps have "list_all2 (\<lambda>k v. dget steps k = v) (?old @ ?new) ((map Some (concat hist) @ map Some vs) @ all_open ?q')"
    by (rule list_all2_appendI)
  moreover have "\<forall>v. Some v \<in> set (map Some (concat (hist @ [vs])) @ all_open ?q') \<longrightarrow> kept (ma_json a) v"
    using kept by auto
  ultimately show ?thesis
    using args app plain ok' none unfolding group_inv_def keys by simp
qed

section \<open>The loop\<close>

definition loop_ends :: "'u mock_args \<Rightarrow> mock_state \<Rightarrow> 'u outside \<Rightarrow> (mock_result \<Rightarrow> 'u \<Rightarrow> bool) \<Rightarrow> bool" where
  "loop_ends a st out Q \<longleftrightarrow> (\<exists>r out'. mock_loop a st out = Some (Inr r, out') \<and> Q r (user out'))"

lemma loop_ends_again: "mock_turn a st out = (Again st', out') \<Longrightarrow> loop_ends a st' out' Q \<Longrightarrow> loop_ends a st out Q"
  by (simp add: loop_ends_def mock_loop.simps [of a st])

lemma loop_ends_finished: "mock_turn a st out = (Finished r, out') \<Longrightarrow> Q r (user out') \<Longrightarrow> loop_ends a st out Q"
  by (simp add: loop_ends_def mock_loop.simps [of a st])

lemma loop_ends_mono: "loop_ends a st out Q \<Longrightarrow> (\<And>r u. Q r u \<Longrightarrow> Q' r u) \<Longrightarrow> loop_ends a st out Q'"
  by (auto simp: loop_ends_def)

lemma group_loop_fail:
  assumes "group_inv a p (ms_steps st) hist (GP_fail e) vals" and "ms_planned st = []"
  shows "loop_ends a st out (\<lambda>r u. r = failed_result e \<and> u = user out)"
  using assms
proof (induction "retries_left a st" arbitrary: st out)
  case 0
  from group_turn_end(2) [OF 0(2,3) refl, of out] 0(1) show ?case
    by (auto simp: retries_left_def intro: loop_ends_finished)
next
  case (Suc n)
  let ?st = "st\<lparr>ms_attempt := ms_attempt st + 1\<rparr>"
  from group_turn_end(2) [OF Suc.prems refl, of out] Suc.hyps(2) obtain out' where
    out': "mock_turn a st out = (Again ?st, out')" "user out' = user out" by (auto simp: retries_left_def)
  have "loop_ends a ?st out' (\<lambda>r u. r = failed_result e \<and> u = user out')"
    by (rule Suc.hyps(1)) (use Suc.hyps(2) Suc.prems in \<open>simp_all add: retries_left_def\<close>)
  with out' show ?case by (auto intro: loop_ends_again)
qed

text \<open>What a started block and the rest of the program compute.\<close>

definition block_then :: "(string, stub) dict \<Rightarrow> 'u item list \<Rightarrow> (pyobj list \<Rightarrow> 'u group_prog) \<Rightarrow> pyobj option list \<Rightarrow> nat \<Rightarrow> 'u
    \<Rightarrow> mock_result \<Rightarrow> 'u \<Rightarrow> bool" where
  "block_then stubs its k vals left u r u' \<longleftrightarrow>
     (\<exists>vs left' u1. block_runs (\<lambda>_. True) stubs its vals left u (Inr vs) left' u1 \<and> group_direct (\<lambda>_. True) stubs (k vs) left' u1 r u')
     \<or> (\<exists>e left'. block_runs (\<lambda>_. True) stubs its vals left u (Inl e) left' u' \<and> r = failed_result e)"

lemma block_then_mono:
  assumes "\<And>x l v. block_runs (\<lambda>_. True) stubs its vals' left1 u1 x l v \<Longrightarrow> block_runs (\<lambda>_. True) stubs its vals left u x l v"
    and "block_then stubs its k vals' left1 u1 r u'"
  shows "block_then stubs its k vals left u r u'"
  using assms unfolding block_then_def by blast

lemma block_runs_refresh:
  assumes len: "length vals = length its"
    and "block_runs (\<lambda>_. True) stubs its (refresh stubs its vals) left u x l v"
  shows "block_runs (\<lambda>_. True) stubs its vals left u x l v"
proof -
  let ?new = "refresh stubs its vals"
  have new: "length ?new = length its" "\<And>i. i < length its \<Longrightarrow>
      ?new ! i = (case vals ! i of Some x \<Rightarrow> Some x | None \<Rightarrow> fixed_value stubs (its ! i))"
    using len by (simp_all add: refresh_def)
  have "block_runs (\<lambda>_. True) stubs its (take n ?new @ drop n vals) left u x l v \<Longrightarrow> block_runs (\<lambda>_. True) stubs its vals left u x l v"
    if "n \<le> length its" for n
    using that
  proof (induction n)
    case (Suc n)
    then have n: "n < length its" "n < length vals" using len by simp_all
    let ?v = "take n ?new @ drop n vals"
    have at: "?v ! n = vals ! n" using n new(1) by (simp add: nth_append)
    have step: "take (Suc n) ?new @ drop (Suc n) vals = ?v[n := ?new ! n]"
    proof (rule nth_equalityI)
      fix i assume "i < length (take (Suc n) ?new @ drop (Suc n) vals)"
      then show "(take (Suc n) ?new @ drop (Suc n) vals) ! i = ?v[n := ?new ! n] ! i"
        using n new(1) len by (cases "i = n"; cases "i < n") (simp_all add: nth_append less_Suc_eq)
    qed (use n new(1) in simp)
    show ?case
    proof (rule Suc.IH)
      show "block_runs (\<lambda>_. True) stubs its ?v left u x l v"
      proof (cases "vals ! n = None \<and> fixed_value stubs (its ! n) \<noteq> None")
        case True
        then obtain y where y: "fixed_value stubs (its ! n) = Some y" by blast
        with True new(2) [OF n(1)] have "?new ! n = Some y" by simp
        with Suc.prems(1) step have runs: "block_runs (\<lambda>_. True) stubs its (?v[n := Some y]) left u x l v" by simp
        have "?v ! n = None" using True at by simp
        from block_runs.fixed [OF n(1) this y runs] show ?thesis .
      next
        case False
        with new(2) [OF n(1)] have "?new ! n = ?v ! n" by (auto simp: at split: option.split)
        with Suc.prems(1) step show ?thesis by simp
      qed
    qed (use n in simp)
  qed simp
  from this [of "length its"] assms(2) new(1) len show ?thesis by simp
qed

text \<open>The open steps shrink.\<close>

definition open_set :: "pyobj option list \<Rightarrow> nat set" where
  "open_set vals = {i. i < length vals \<and> vals ! i = None}"

lemma open_set_finite [simp]: "finite (open_set vals)"
  by (simp add: open_set_def)

lemma open_set_update: "i < length vals \<Longrightarrow> vals ! i = None \<Longrightarrow> card (open_set (vals[i := Some v])) < card (open_set vals)"
  by (rule psubset_card_mono) (auto simp: open_set_def nth_list_update split: if_splits)

lemma open_set_le: "card (open_set vals) \<le> length vals"
  using card_mono [of "{..<length vals}" "open_set vals"] by (auto simp: open_set_def)

lemma refresh_open:
  assumes len: "length vals = length its"
  shows "runnable stubs its (refresh stubs its vals) = runnable stubs its vals"
    "refresh stubs its vals \<noteq> vals \<Longrightarrow> card (open_set (refresh stubs its vals)) < card (open_set vals)"
    "refresh stubs its vals = vals \<Longrightarrow> None \<in> set vals \<Longrightarrow> runnable stubs its vals \<noteq> {}"
    "length (refresh stubs its vals) = length its"
proof -
  let ?new = "refresh stubs its vals"
  have new: "length ?new = length its" "\<And>i. i < length its \<Longrightarrow>
      ?new ! i = (case vals ! i of Some x \<Rightarrow> Some x | None \<Rightarrow> fixed_value stubs (its ! i))"
    using len by (simp_all add: refresh_def)
  show "length ?new = length its" by (rule new(1))
  show "runnable stubs its ?new = runnable stubs its vals"
    by (auto simp: runnable_def new split: option.splits)
  show "card (open_set ?new) < card (open_set vals)" if "?new \<noteq> vals"
  proof (rule psubset_card_mono)
    from that obtain i where i: "i < length its" "?new ! i \<noteq> vals ! i"
      using nth_equalityI [of ?new vals] new(1) len by auto
    then have "vals ! i = None" using new(2) by (auto split: option.splits)
    with i have "i \<in> open_set vals" "i \<notin> open_set ?new" using len by (simp_all add: open_set_def)
    moreover have "open_set ?new \<subseteq> open_set vals" using new len by (auto simp: open_set_def split: option.splits)
    ultimately show "open_set ?new \<subset> open_set vals" by blast
  qed simp
  show "runnable stubs its vals \<noteq> {}" if "?new = vals" "None \<in> set vals"
  proof -
    from that(2) obtain i where i: "i < length its" "vals ! i = None" using len by (auto simp: in_set_conv_nth)
    with new(2) [OF i(1)] that(1) have "fixed_value stubs (its ! i) = None" by simp
    with i show ?thesis by (auto simp: runnable_def)
  qed
qed

definition block_measure :: "'u mock_args \<Rightarrow> mock_state \<Rightarrow> pyobj option list \<Rightarrow> nat" where
  "block_measure a st vals = retries_left a st * (2 * length vals + 2) + 2 * card (open_set vals)
     + (if ms_planned st = [] then 1 else 0)"

text \<open>A turn without a target keeps or plans every open step.\<close>

lemma refresh_kept:
  assumes inv: "group_inv a p steps hist (GP_block b k) vals"
  shows "\<forall>v. Some v \<in> set (refresh (ma_stubs a) (items_of b) vals) \<longrightarrow> kept (ma_json a) v"
proof (intro allI impI)
  let ?stubs = "ma_stubs a" and ?its = "items_of b"
  have len: "length vals = length ?its" using inv by (simp add: group_inv_def)
  fix v assume "Some v \<in> set (refresh ?stubs ?its vals)"
  then obtain i where i: "i < length ?its" "refresh ?stubs ?its vals ! i = Some v"
    using refresh_open(4) [OF len] by (auto simp: in_set_conv_nth)
  with len have "vals ! i = Some v \<or> fixed_value ?stubs (?its ! i) = Some v"
    by (auto simp: refresh_def split: option.splits)
  then show "kept (ma_json a) v"
  proof
    assume "vals ! i = Some v"
    with i(1) len group_inv_next(6) [OF inv] show ?thesis by (metis nth_mem)
  next
    assume "fixed_value ?stubs (?its ! i) = Some v"
    with inv show ?thesis
      by (cases "?its ! i") (auto simp: fixed_value_def group_inv_def group_args_def kept_PNone split: option.splits)
  qed
qed

lemma group_open_turn:
  assumes inv: "group_inv a p (ms_steps st) hist (GP_block b k) vals" and pl: "ms_planned st = []" and op: "None \<in> set vals"
  defines "vals' \<equiv> refresh (ma_stubs a) (items_of b) vals" and "ks \<equiv> next_keys a p hist (GP_block b k)"
  shows "\<exists>st' o1. mock_turn a st out = (Again st', o1) \<and> user o1 = user out \<and> retries_left a st' = retries_left a st
    \<and> group_inv a p (ms_steps st') hist (GP_block b k) vals' \<and> set (ms_planned st') = (!) ks ` runnable (ma_stubs a) (items_of b) vals'
    \<and> block_measure a st' vals' < block_measure a st vals"
proof -
  let ?stubs = "ma_stubs a" and ?its = "items_of b"
  let ?st = "plan_open ?stubs ?its ks vals st"
  note nx = group_inv_next [OF inv, folded ks_def]
  have len: "length vals = length ?its" using inv by (simp add: group_inv_def)
  have eq: "length ?its = length ks" "length ks = length vals" using len nx(1) by simp_all
  note po = plan_open [OF eq nx(2,3), where stubs = ?stubs, folded vals'_def]
  note ro = refresh_open [OF len, of ?stubs, folded vals'_def]
  have inv': "group_inv a p (ms_steps ?st) hist (GP_block b k) vals'"
    using group_inv_update [OF inv, folded ks_def, OF po(3,2)] refresh_kept [OF inv, folded vals'_def] by blast
  have "set (ms_planned ?st) = (!) ks ` runnable ?stubs ?its vals"
    unfolding po(4) pl runnable_def by auto
  then have planned: "set (ms_planned ?st) = (!) ks ` runnable ?stubs ?its vals'" by (simp only: ro(1))
  have left: "retries_left a ?st = retries_left a st" by (simp add: retries_left_def po(1))
  have "block_measure a ?st vals' < block_measure a st vals"
  proof (cases "vals' = vals")
    case True
    with ro(3) [OF this op] planned have "ms_planned ?st \<noteq> []" by auto
    with pl show ?thesis by (simp add: block_measure_def True left)
  next
    case False
    from ro(2) [OF this] pl ro(4) len show ?thesis by (simp add: block_measure_def left)
  qed
  with group_turn_open [OF inv pl op, of out, folded ks_def] inv' planned left show ?thesis by blast
qed

text \<open>Keeping the output of a step that ran.\<close>

lemma group_inv_keep:
  assumes inv: "group_inv a p (ms_steps st) hist (GP_block b k) vals" and i: "i \<in> runnable (ma_stubs a) (items_of b) vals"
    and it: "items_of b ! i = It_run sid h" and h: "h u = (Inr v, u')"
  shows "group_inv a p (ms_steps (keep_step (next_keys a p hist (GP_block b k) ! i) v st)) hist (GP_block b k) (vals[i := Some v])"
proof (rule group_inv_update [OF inv])
  let ?ks = "next_keys a p hist (GP_block b k)"
  let ?st = "keep_step (?ks ! i) v st" and ?vals = "vals[i := Some v]"
  note nx = group_inv_next [OF inv]
  from i have il: "i < length (items_of b)" by (simp add: runnable_def)
  have len: "length vals = length (items_of b)" using inv by (simp add: group_inv_def)
  have "ok_item (kept (ma_json a)) (items_of b ! i)" using inv il by (simp add: group_inv_def list_all_length)
  with it h have v: "kept (ma_json a) v" by auto
  have ik: "i < length ?ks" "distinct ?ks" using il len nx(1,2) by simp_all
  have "dget (ms_steps ?st) (?ks ! j) = ?vals ! j" if "j < length vals" for j
  proof -
    have "dget (ms_steps st) (?ks ! j) = vals ! j" using nx(3) that by (simp add: list_all2_conv_all_nth)
    moreover have "?ks ! j = ?ks ! i \<longleftrightarrow> j = i" using ik that nx(1) by (simp add: nth_eq_iff_index_eq)
    ultimately show ?thesis using il len by (simp add: keep_step_def nth_list_update)
  qed
  then show "list_all2 (\<lambda>k v. dget (ms_steps ?st) k = v) ?ks ?vals"
    using nx(1) by (simp add: list_all2_conv_all_nth)
  show "\<forall>k. k \<notin> set ?ks \<longrightarrow> dget (ms_steps ?st) k = dget (ms_steps st) k"
    using ik(1) by (auto simp: keep_step_def)
  show "\<forall>x. Some x \<in> set ?vals \<longrightarrow> kept (ma_json a) x"
    using nx(6) v set_update_subset_insert [of vals i "Some v"] by blast
qed

text \<open>The turn of a planned step that succeeds, and of one that fails.\<close>

lemma loop_step_succeeds:
  assumes i: "i \<in> runnable stubs its vals" "its ! i = It_run sid h" and h: "h (user out) = (Inr v, user o1)"
    and turn: "mock_turn a st out = (targeted mx key (Inr v) st1, o1)"
    and again: "loop_ends a (keep_step key v st1) o1 (block_then stubs its k (vals[i := Some v]) left (user o1))"
  shows "loop_ends a st out (block_then stubs its k vals left (user out))"
proof -
  from i(1) have il: "i < length its" "vals ! i = None" "fixed_value stubs (its ! i) = None" by (simp_all add: runnable_def)
  have "loop_ends a (keep_step key v st1) o1 (block_then stubs its k vals left (user out))"
    using again by (rule loop_ends_mono) (rule block_then_mono [OF block_runs.succeeds [OF il i(2) h]])
  with turn show ?thesis by (auto simp: targeted_def intro: loop_ends_again)
qed

lemma loop_step_fails:
  assumes i: "i \<in> runnable stubs its vals" "its ! i = It_run sid h" and h: "h (user out) = (Inl e, user o1)"
    and turn: "mock_turn a st out = (targeted (max_attempt (ma_fn a)) key (Inl e) st1, o1)" and st1: "ms_attempt st1 = ms_attempt st"
    and again: "\<And>l. retries_left a st = Suc l \<Longrightarrow>
      loop_ends a (st1\<lparr>ms_attempt := ms_attempt st + 1\<rparr>) o1 (block_then stubs its k vals l (user o1))"
  shows "loop_ends a st out (block_then stubs its k vals (retries_left a st) (user out))"
proof -
  from i(1) have il: "i < length its" "vals ! i = None" "fixed_value stubs (its ! i) = None" by (simp_all add: runnable_def)
  show ?thesis
  proof (cases "retries_left a st")
    case 0
    then have "mock_turn a st out = (Finished (failed_result e), o1)"
      using turn st1 by (simp add: targeted_def retries_left_def)
    then show ?thesis
      by (rule loop_ends_finished)
         (use block_runs.gives_up [OF il i(2) h disjI1 [OF refl], of "\<lambda>_. True"] 0 in \<open>auto simp: block_then_def\<close>)
  next
    case (Suc l)
    then have step: "mock_turn a st out = (Again (st1\<lparr>ms_attempt := ms_attempt st + 1\<rparr>), o1)"
      using turn st1 by (auto simp: targeted_def retries_left_def)
    have "loop_ends a (st1\<lparr>ms_attempt := ms_attempt st + 1\<rparr>) o1 (block_then stubs its k vals (retries_left a st) (user out))"
      unfolding Suc using again [OF Suc]
      by (rule loop_ends_mono) (rule block_then_mono [OF block_runs.fails [OF il i(2) h TrueI]])
    with step show ?thesis by (rule loop_ends_again)
  qed
qed

text \<open>A block runs as \<open>block_runs\<close> says, by induction on the retries left, the open steps and whether any is planned.\<close>

lemma group_loop_block:
  assumes "group_inv a p (ms_steps st) hist (GP_block b k) vals"
    and "set (ms_planned st) \<subseteq> (!) (next_keys a p hist (GP_block b k)) ` runnable (ma_stubs a) (items_of b) vals"
    and rest: "\<And>vs st' out'. group_inv a p (ms_steps st') (hist @ [vs]) (k vs) (all_open (k vs)) \<Longrightarrow> ms_planned st' = [] \<Longrightarrow>
        loop_ends a st' out' (group_direct (\<lambda>_. True) (ma_stubs a) (k vs) (retries_left a st') (user out'))"
  shows "loop_ends a st out (block_then (ma_stubs a) (items_of b) k vals (retries_left a st) (user out))"
  using assms(1,2)
proof (induction "block_measure a st vals" arbitrary: st out vals rule: less_induct)
  case less
  let ?stubs = "ma_stubs a" and ?its = "items_of b" and ?ks = "next_keys a p hist (GP_block b k)"
  note inv = less.prems(1)
  have len: "length vals = length ?its" using inv by (simp add: group_inv_def)
  consider (finished) "ms_planned st = []" "None \<notin> set vals" | (open_steps) "ms_planned st = []" "None \<in> set vals"
    | (planned) "ms_planned st \<noteq> []" by blast
  then show ?case
  proof cases
    case finished
    then have vals: "vals = map Some (outputs_of vals)" by (simp add: outputs_of_all)
    with inv have "group_inv a p (ms_steps st) hist (GP_block b k) (map Some (outputs_of vals))" by simp
    from rest [OF group_inv_done [OF this] finished(1), of out]
    have ends: "loop_ends a st out (group_direct (\<lambda>_. True) ?stubs (k (outputs_of vals)) (retries_left a st) (user out))" .
    have runs: "block_runs (\<lambda>_. True) ?stubs ?its vals (retries_left a st) (user out) (Inr (outputs_of vals)) (retries_left a st) (user out)"
      by (subst vals) (rule block_runs.all_done)
    show ?thesis by (rule loop_ends_mono [OF ends]) (use runs in \<open>auto simp: block_then_def\<close>)
  next
    case open_steps
    from group_open_turn [OF inv open_steps, of out] obtain st' o1 where
      turn: "mock_turn a st out = (Again st', o1)" "user o1 = user out" "retries_left a st' = retries_left a st"
      and st': "group_inv a p (ms_steps st') hist (GP_block b k) (refresh ?stubs ?its vals)"
        "set (ms_planned st') = (!) ?ks ` runnable ?stubs ?its (refresh ?stubs ?its vals)"
        "block_measure a st' (refresh ?stubs ?its vals) < block_measure a st vals" by blast
    have "loop_ends a st' o1 (block_then ?stubs ?its k (refresh ?stubs ?its vals) (retries_left a st) (user out))"
      using less.hyps [OF st'(3,1), of o1] st'(2) turn by simp
    then have "loop_ends a st' o1 (block_then ?stubs ?its k vals (retries_left a st) (user out))"
      by (rule loop_ends_mono) (rule block_then_mono [OF block_runs_refresh [OF len]])
    with turn(1) show ?thesis by (rule loop_ends_again)
  next
    case planned
    obtain i sid h where i: "i \<in> runnable ?stubs ?its vals" "?its ! i = It_run sid h"
      and turn: "\<And>r u. h (user out) = (r, u) \<Longrightarrow> \<exists>out'. mock_turn a st out =
        (targeted (max_attempt (ma_fn a)) (?ks ! i) r (st\<lparr>ms_planned := removeAll (?ks ! i) (ms_planned st)\<rparr>), out') \<and> user out' = u"
      using group_turn_targeted [OF inv planned less.prems(2), of out] by blast
    obtain r u where h: "h (user out) = (r, u)" by (cases "h (user out)")
    let ?st = "st\<lparr>ms_planned := removeAll (?ks ! i) (ms_planned st)\<rparr>"
    have rest: "set (ms_planned ?st) \<subseteq> (!) ?ks ` (runnable ?stubs ?its vals - {i})" using less.prems(2) by auto
    from i(1) have il: "i < length vals" "vals ! i = None" by (simp_all add: runnable_def len)
    obtain o1 where o1: "mock_turn a st out = (targeted (max_attempt (ma_fn a)) (?ks ! i) r ?st, o1)" "user o1 = u"
      using turn [OF h] by blast
    show ?thesis
    proof (cases r)
      case (Inr v)
      let ?st' = "keep_step (?ks ! i) v ?st"
      have inv': "group_inv a p (ms_steps ?st') hist (GP_block b k) (vals[i := Some v])"
        using group_inv_keep [OF inv i, of "user out" v u] h Inr by (simp add: keep_step_def)
      have left: "retries_left a ?st' = retries_left a st" by (simp add: retries_left_def keep_step_def)
      have less: "block_measure a ?st' (vals[i := Some v]) < block_measure a st vals"
        using open_set_update [OF il, of v] planned by (simp add: block_measure_def left)
      have "runnable ?stubs ?its (vals[i := Some v]) = runnable ?stubs ?its vals - {i}"
        using len il by (auto simp: runnable_def nth_list_update)
      then have "set (ms_planned ?st') \<subseteq> (!) ?ks ` runnable ?stubs ?its (vals[i := Some v])"
        using rest by (simp add: keep_step_def)
      then show ?thesis
        by (intro loop_step_succeeds [OF i _ o1(1) [unfolded Inr]])
           (use less.hyps [OF less inv', of o1] h Inr o1(2) left in simp_all)
    next
      case (Inl e)
      show ?thesis
      proof (rule loop_step_fails [OF i _ o1(1) [unfolded Inl]])
        fix l assume l: "retries_left a st = Suc l"
        let ?st' = "?st\<lparr>ms_attempt := ms_attempt st + 1\<rparr>"
        have left: "retries_left a ?st' = l" using l by (simp add: retries_left_def)
        have "block_measure a ?st' vals < block_measure a st vals" using l by (simp add: block_measure_def left)
        from less.hyps [OF this, of o1] inv rest
        show "loop_ends a ?st' o1 (block_then ?stubs ?its k vals l (user o1))" unfolding left by auto
      qed (use h Inl o1(2) in simp_all)
    qed
  qed
qed

lemma group_loop:
  assumes "group_inv a p (ms_steps st) hist q (all_open q)" and "ms_planned st = []"
  shows "loop_ends a st out (group_direct (\<lambda>_. True) (ma_stubs a) q (retries_left a st) (user out))"
  using assms
proof (induction q arbitrary: hist st out)
  case (GP_return v)
  from group_turn_end(1) [OF GP_return refl, of out] show ?case
    by (auto intro!: loop_ends_finished group_direct.returns)
next
  case (GP_fail e)
  from group_loop_fail [OF GP_fail, of out] show ?case
    by (rule loop_ends_mono) (auto intro: group_direct.raises)
next
  case (GP_block b k)
  have "loop_ends a st out (block_then (ma_stubs a) (items_of b) k (open_block b) (retries_left a st) (user out))"
    by (rule group_loop_block [of a p st hist b k]) (use GP_block in auto)
  then show ?case
    by (rule loop_ends_mono) (auto simp: block_then_def intro: group_direct.block_done group_direct.block_failed)
qed

text \<open>As for a sequential function, the loop retries every error.\<close>

lemma group_loop_retries_all_errors:
  assumes "group_args a p" and "ma_events a \<noteq> []"
  shows "\<exists>r out'. trigger_fn a out = Some (Inr r, out')
    \<and> group_direct (\<lambda>_. True) (ma_stubs a) p (nat (max_attempt (ma_fn a))) (user out) r (user out')"
proof -
  have "group_inv a p (ms_steps mock_init) [] p (all_open p)"
    using assms(1) by (auto simp: group_inv_def group_args_def mock_init_def all_keys_def list_all2_conv_all_nth)
  from group_loop [OF this, of out] show ?thesis
    using assms(2) by (simp add: loop_ends_def trigger_fn_def retries_left_def mock_init_def)
qed

text \<open>C2: Durable execution of parallel groups.  For an async function made of steps and of parallel groups of steps, whose
  effects are inside its steps, the executor loop ends, whatever planned step it picks; and its result and its effects
  on the user's state are those of one direct run: block after block, each open step of a block runs once it is its
  turn, a step that has succeeded is not run again, one that fails with a retriable error is tried again while attempts are left, and the
  program goes on with the outputs in the order of the callables.  This holds unless some direct run ends with an error that is
  not retriable, which the loop retries like any other (\<open>non_retriable_step_retried\<close> of \<open>Durable\<close>).\<close>

theorem durable_groups:
  assumes "group_args a p" and "ma_events a \<noteq> []"
    and "\<And>e u. group_direct is_retriable (ma_stubs a) p (nat (max_attempt (ma_fn a))) (user out) (failed_result e) u \<Longrightarrow> is_retriable e"
  shows "\<exists>r out'. trigger_fn a out = Some (Inr r, out')
    \<and> group_direct is_retriable (ma_stubs a) p (nat (max_attempt (ma_fn a))) (user out) r (user out')"
proof -
  obtain r out' where "trigger_fn a out = Some (Inr r, out')"
    "group_direct (\<lambda>_. True) (ma_stubs a) p (nat (max_attempt (ma_fn a))) (user out) r (user out')"
    using group_loop_retries_all_errors [OF assms(1,2), of out] by blast
  with assms(3) group_direct_all_errors [OF this(2), of is_retriable] show ?thesis by blast
qed

text \<open>A group of a step that fails the first time and of one that succeeds: whatever is picked first, both values arrive in place.\<close>

definition flaky_first :: "nat \<times> nat \<Rightarrow> (exc + pyobj) \<times> (nat \<times> nat)" where
  "flaky_first = (\<lambda>(x, y). if x = 0 then (Inl (Exception ''boom''), (1, y)) else (Inr (PInt 1), (x + 1, y)))"

definition steady :: "nat \<times> nat \<Rightarrow> (exc + pyobj) \<times> (nat \<times> nat)" where
  "steady = (\<lambda>(x, y). (Inr (PInt 2), (x, y + 1)))"

definition group_demo :: "(nat \<times> nat) group_prog" where
  "group_demo = GP_block (Parallel [It_run ''a'' flaky_first, It_run ''b'' steady] PM_RACE) (\<lambda>vs. GP_return (PList vs))"

definition group_demo_client :: "(nat \<times> nat) client" where
  "group_demo_client = \<lparr>cl_app_id = ''app'', cl_app_version = None, cl_api_origin = DEFAULT_API_ORIGIN,
     cl_env = None, cl_event_api_origin = DEFAULT_EVENT_API_ORIGIN, cl_event_key = None,
     cl_is_production = True, cl_middleware = [], cl_mode = SK_CLOUD, cl_serializer = None,
     cl_signing_key = None, cl_signing_key_fallback = None,
     cl_httpx_timeout = 30000000\<rparr>"

definition group_demo_args :: "(nat \<times> nat) mock_args" where
  "group_demo_args = \<lparr>ma_json = (\<lambda>b. Inl (Exception [])), ma_sha1 = (\<lambda>b. b), ma_pop = (\<lambda>xs. length xs),
     ma_fn = \<lparr>fn_handler = (\<lambda>exe ctx. run_group_prog group_demo exe, True), fn_on_failure_fn_id = None,
       fn_opts = demo_opts, fn_triggers = [], fn_output_type = None, fn_middleware = []\<rparr>,
     ma_events = [\<lparr>ev_data = [], ev_id = [], ev_name = ''e'', ev_ts = 0\<rparr>],
     ma_client = group_demo_client, ma_stubs = []\<rparr>"

lemma group_demo_block:
  assumes "block_runs is_retriable [] [It_run ''a'' flaky_first, It_run ''b'' steady] vals left u r left' u'"
    and "vals = [v, w]" and "u = (x, y)" and "v = None \<and> (x = 1 \<or> x = 0 \<and> 0 < left) \<or> v = Some (PInt 1) \<and> x = 2"
    and "w = None \<and> y = 0 \<or> w = Some (PInt 2) \<and> y = 1"
  shows "r = Inr [PInt 1, PInt 2] \<and> u' = (2, 1)"
  using assms
proof (induction arbitrary: v w x y rule: block_runs.induct)
  case (all_done vs left u)
  then show ?case by auto
next
  case (fixed i vals y' left u r left' u')
  then have "i = 0 \<or> i = 1" by auto
  with fixed(3) show ?case by (auto simp: fixed_value_def)
next
  case (succeeds i vals sid h u val u1 left r left' u')
  then have i: "i = 0 \<or> i = 1" by auto
  show ?case
  proof (cases "i = 0")
    case True
    with succeeds.hyps succeeds.prems show ?thesis
      by (intro succeeds.IH [of "Some (PInt 1)" w 2 y]) (auto simp: flaky_first_def split: if_splits)
  next
    case False
    with i succeeds.hyps succeeds.prems show ?thesis
      by (intro succeeds.IH [of v "Some (PInt 2)" x 1]) (auto simp: steady_def)
  qed
next
  case (fails i vals sid h u e u1 left r left' u')
  then have "i = 0 \<or> i = 1" by auto
  with fails.hyps fails.prems show ?case
    by (intro fails.IH [of None w 1 y]) (auto simp: flaky_first_def steady_def split: if_splits)
next
  case (gives_up i vals sid h u e u1)
  then have "i = 0 \<or> i = 1" by auto
  with gives_up show ?case by (auto simp: flaky_first_def steady_def split: if_splits)
qed

lemma group_demo_direct:
  assumes "group_direct is_retriable [] group_demo 4 (0, 0) r u"
  shows "r = completed (PList [PInt 1, PInt 2]) \<and> u = (2, 1)"
  using assms unfolding group_demo_def
proof cases
  case (block_done vs left' u1)
  then have "block_runs is_retriable [] [It_run ''a'' flaky_first, It_run ''b'' steady] [None, None] 4 (0, 0) (Inr vs) left' u1"
    by (simp add: numeral_2_eq_2)
  from group_demo_block [OF this refl refl] have "vs = [PInt 1, PInt 2]" "u1 = (2, 1)" by auto
  with block_done(2) show ?thesis by (auto elim: group_direct.cases)
next
  case (block_failed e left')
  then have "block_runs is_retriable [] [It_run ''a'' flaky_first, It_run ''b'' steady] [None, None] 4 (0, 0) (Inl e) left' u"
    by (simp add: numeral_2_eq_2)
  from group_demo_block [OF this refl refl] show ?thesis by auto
qed

theorem durable_groups_witness:
  "\<exists>out'. trigger_fn group_demo_args \<lparr>logging_enabled = True, logged = [], user = (0, 0)\<rparr> =
      Some (Inr (completed (PList [PInt 1, PInt 2])), out')
    \<and> user out' = (2, 1)"
proof -
  let ?out = "\<lparr>logging_enabled = True, logged = [], user = (0, 0)\<rparr> :: (nat \<times> nat) outside"
  have args: "group_args group_demo_args group_demo"
    by (auto simp: group_args_def plain_args_def group_demo_args_def group_demo_client_def group_demo_def plain_id_def kept_PInt
        flaky_first_def steady_def split: if_splits)
  have events: "ma_events group_demo_args \<noteq> []" by (simp add: group_demo_args_def)
  have demo: "ma_stubs group_demo_args = []" "nat (max_attempt (ma_fn group_demo_args)) = 4" "user ?out = (0, 0)"
    by (simp_all add: group_demo_args_def max_attempt_def demo_opts_def)
  have "is_retriable e" if "group_direct is_retriable [] group_demo 4 (0, 0) (failed_result e) u" for e u
    using group_demo_direct [OF that] by (simp add: failed_result_def completed_def)
  with durable_groups [OF args events, of ?out, unfolded demo] group_demo_direct show ?thesis by blast
qed

section \<open>Reused identifiers in branches of several steps\<close>

text \<open>
  The identifiers of a group whose callables are single steps do not depend on what has run.  A callable of several steps that
  shares an identifier with another callable does: \<open>two_steps\<close> runs two steps \<open>a\<close>.  Before anything has run, the group of
  it and of a third step \<open>a\<close> reports the keys \<open>a\<close> and \<open>a:1\<close>, the second for the other callable; once both have
  outputs, the second step of \<open>two_steps\<close> is given the output of the other callable.
\<close>

definition two_steps :: "(string list, pyobj) step_m" where
  "two_steps = bindM (Step_run (demo_exe 0 None) ''a'' None demo_handler) (\<lambda>x.
     bindM (Step_run (demo_exe 0 None) ''a'' None demo_handler) (\<lambda>y. retM (PList [x, y])))"

lemma demo_key: "ps_hashed (run_parsed (demo_exe n t) ''a'' w) = (case dget (w_counts w) ''a'' of None \<Rightarrow> ''a'' | Some 0 \<Rightarrow> ''a''
    | Some (Suc m) \<Rightarrow> utf8 (''a:'' @ str_of_nat (Suc m)))"
  by (auto simp: run_parsed_def parse_step_id_eq StepIDCounter_increment_eq pre_hash_def demo_exe_def hash_step_id_def
      utf8_def utf8_char_def Let_def split: option.split nat.split)

lemma demo_counts: "w_counts (run_reported (demo_exe n t) ''a'' (demo_world m)) = [(''a'', 1)]"
  by (simp add: run_reported_def after_pop_frame run_counted_def parse_step_id_eq StepIDCounter_increment_eq demo_world_def
      dhas_def dkeys_def Let_def)

lemma demo_second_key: "dget (w_counts w) ''a'' = Some 1 \<Longrightarrow> ps_hashed (run_parsed (demo_exe n t) ''a'' w) = ''a:1''"
  by (simp add: demo_key) (simp add: utf8_def utf8_char_def str_of_nat.simps char_of_def bit_0)

lemma branch_takes_other_output:
  "fst (two_steps (demo_world [(''a'', kept_memo (PInt 1)), (''a:1'', kept_memo (PInt 3))])) = Inr (PList [PInt 1, PInt 3])"
proof -
  let ?w = "demo_world [(''a'', kept_memo (PInt 1)), (''a:1'', kept_memo (PInt 3))]" and ?exe = "demo_exe 0 None"
  let ?w1 = "run_reported ?exe ''a'' ?w"
  have des: "client_deserialize (ex_client ?exe) v None = Inr v" for v
    by (simp add: client_deserialize_def demo_exe_def demo_client_def)
  have first: "Step_run ?exe ''a'' None demo_handler ?w = (Inr (PInt 1), ?w1)"
    by (subst Step_run_memo [where memo = "kept_memo (PInt 1)"]) (simp_all add: des, simp_all add: demo_world_def kept_memo_def)
  have key: "ps_hashed (run_parsed ?exe ''a'' ?w1) = ''a:1''" by (rule demo_second_key) (simp add: demo_counts)
  have "dget (w_memos ?w1) ''a:1'' = Some (kept_memo (PInt 3))"
    by (simp add: run_reported_def after_pop_frame StepMemos_pop_frame) (simp add: demo_world_def)
  moreover have "\<not> w_in_step ?w1" by simp (simp add: demo_world_def)
  ultimately have "Step_run ?exe ''a'' None demo_handler ?w1 = (Inr (PInt 3), run_reported ?exe ''a'' ?w1)"
    by (subst Step_run_memo [where memo = "kept_memo (PInt 3)"]) (simp_all add: key des, simp_all add: kept_memo_def)
  with first show ?thesis by (simp add: two_steps_def bindM_def retM_def)
qed

lemma branches_report_keys:
  "\<exists>rs. fst (Group_parallel [two_steps, Step_run (demo_exe 0 None) ''a'' None demo_handler] PM_WAIT (demo_world []))
     = Inl (ResponseInterrupt rs) \<and> map (\<lambda>r. si_id (sp_step r)) rs = [''a'', ''a:1'']"
proof -
  let ?exe = "demo_exe 0 None" and ?w = "(demo_world [])\<lparr>w_in_parallel := True\<rparr>"
  let ?w1 = "run_reported ?exe ''a'' ?w" and ?info = "\<lambda>w. (run_info (run_parsed ?exe ''a'' w))\<lparr>si_op := OP_PLANNED\<rparr>"
  have step: "Step_run ?exe ''a'' None demo_handler w = (Inl (ResponseInterrupt [mk_StepResponse (?info w)]), run_reported ?exe ''a'' w)"
    if "w_memos w = []" "w_in_parallel w" for w
    using that by (subst Step_run_fresh) (simp_all add: demo_exe_def Let_def)
  have w1: "w_memos ?w1 = []" "w_in_parallel ?w1" "dget (w_counts ?w1) ''a'' = Some 1"
    by (simp_all add: run_reported_def after_pop_frame StepMemos_pop_def run_counted_def parse_step_id_eq
        StepIDCounter_increment_eq demo_world_def Let_def)
       (simp add: after_pop_frame(1) [unfolded same_flags_def])
  have keys: "ps_hashed (run_parsed ?exe ''a'' ?w) = ''a''" "ps_hashed (run_parsed ?exe ''a'' ?w1) = ''a:1''"
    using w1(3) by (simp_all add: demo_second_key) (simp add: demo_key demo_world_def)
  have "two_steps ?w = (Inl (ResponseInterrupt [mk_StepResponse (?info ?w)]), ?w1)"
    unfolding two_steps_def by (rule bindM_raise_step) (simp add: step demo_world_def)
  then have "Group_parallel_loop [two_steps, Step_run ?exe ''a'' None demo_handler] [] [] ?w
    = (Inr ([], [mk_StepResponse (?info ?w), mk_StepResponse (?info ?w1)]), run_reported ?exe ''a'' ?w1)"
    using step [OF w1(1,2)] by (simp add: Group_loop_step retM_def del: Group_parallel_loop.simps(2))
  then show ?thesis
    by (simp add: Group_parallel_eq mk_StepResponse_def keys)
qed

end
