(* ===== verification/UserCode.thy ===== *)
theory UserCode
  imports Func
begin

text \<open>
  The code a user can write: effects outside the SDK, exceptions, \<open>try\<close>/\<open>except\<close>, the step methods and
  groups, nested in any way.  Rule induction shows what every such code keeps of the request's state and
  what it can never let out, whatever the hooks and the memos are; the call of a function rests on it.
\<close>

section \<open>User code\<close>

definition outside_effect :: "('u outside \<Rightarrow> (exc + 'a) \<times> 'u outside) \<Rightarrow> ('u, 'a) step_m" where
  "outside_effect f = (\<lambda>w. case f (w_out w) of (r, o') \<Rightarrow>
     (case r of Inl e \<Rightarrow> Inl (Raised e) | Inr v \<Rightarrow> Inr v, w\<lparr>w_out := o'\<rparr>))"

text \<open>\<open>except Exception\<close> does not catch the interrupts, which derive from \<open>BaseException\<close>.\<close>

definition try_except :: "('u, 'a) step_m \<Rightarrow> (exc \<Rightarrow> ('u, 'a) step_m) \<Rightarrow> ('u, 'a) step_m" where
  "try_except m h = catchM m (\<lambda>r. case r of Raised e \<Rightarrow> h e | _ \<Rightarrow> raiseM r)"

inductive user_code :: "'u exe \<Rightarrow> ('u, pyobj) step_m \<Rightarrow> bool" for exe where
  ret: "user_code exe (retM v)"
| raise: "user_code exe (raiseM (Raised e))"
| effect: "user_code exe (outside_effect f)"
| sequence: "user_code exe m \<Longrightarrow> (\<And>v. user_code exe (k v)) \<Longrightarrow> user_code exe (bindM m k)"
| try_except: "user_code exe m \<Longrightarrow> (\<And>e. user_code exe (h e)) \<Longrightarrow> user_code exe (try_except m h)"
| run: "user_code exe m \<Longrightarrow> user_code exe (Step_run exe sid ty m)"
| invoke: "user_code exe (Step_invoke exe sid f d t v)"
| invoke_by_id: "user_code exe (Step_invoke_by_id exe sid app fid d t v)"
| send_event: "user_code exe (Step_send_event exe (\<lambda>es. outside_effect (send es)) sid events)"
| sleep: "user_code exe (Step_sleep now exe sid dur)"
| sleep_until: "user_code exe (Step_sleep_until exe sid until)"
| wait_for_event: "(\<And>e. user_code exe (k e)) \<Longrightarrow>
    user_code exe (bindM (Step_wait_for_event exe sid name if_exp timeout) k)"
| ai_infer: "user_code exe (Step_ai_infer exe sid ad body)"
| parallel: "(\<And>c. c \<in> set cs \<Longrightarrow> user_code exe c) \<Longrightarrow> (\<And>vs. user_code exe (k vs)) \<Longrightarrow>
    user_code exe (bindM (Group_parallel cs mode) k)"

section \<open>What user code keeps and never lets out\<close>

definition step_rel :: "'u world \<Rightarrow> 'u world \<Rightarrow> bool" where
  "step_rel w w' \<longleftrightarrow> same_flags w w' \<and> mg_middleware (w_mgr w') = mg_middleware (w_mgr w)
     \<and> set (w_memos w') \<subseteq> set (w_memos w)"

text \<open>The results that may leave the code: no interrupt without responses, and no report of a nested
  step unless the code itself runs inside a step.\<close>

definition may_leave :: "bool \<Rightarrow> raised + 'a \<Rightarrow> bool" where
  "may_leave in_step r = (case r of Inl (ResponseInterrupt rs) \<Rightarrow> rs \<noteq> []
     | Inl NestedStepInterrupt \<Rightarrow> in_step | _ \<Rightarrow> True)"

definition good :: "('u, 'a) step_m \<Rightarrow> bool" where
  "good m \<longleftrightarrow> (\<forall>w. step_rel w (snd (m w)) \<and> may_leave (w_in_step w) (fst (m w)))"

lemma step_rel_refl [simp]: "step_rel w w"
  by (simp add: step_rel_def same_flags_def)

lemma step_rel_trans: "step_rel w w1 \<Longrightarrow> step_rel w1 w2 \<Longrightarrow> step_rel w w2"
  by (auto simp: step_rel_def same_flags_def)

lemma step_rel_in_step: "step_rel w w1 \<Longrightarrow> w_in_step w1 = w_in_step w"
  by (simp add: step_rel_def same_flags_def)

lemma may_leave_simps [simp]:
  "may_leave b (Inr v)" "may_leave b (Inl (Raised e))" "may_leave b (Inl (SkipInterrupt s))"
  "may_leave b (Inl (ResponseInterrupt rs)) = (rs \<noteq> [])" "may_leave b (Inl NestedStepInterrupt) = b"
  by (simp_all add: may_leave_def)

lemma goodD: "good m \<Longrightarrow> m w = (r, w') \<Longrightarrow> step_rel w w' \<and> may_leave (w_in_step w) r"
  by (metis good_def fst_conv snd_conv)

lemma goodI: "(\<And>w r w'. m w = (r, w') \<Longrightarrow> step_rel w w' \<and> may_leave (w_in_step w) r) \<Longrightarrow> good m"
  by (metis good_def prod.collapse)

lemma good_ret [simp]: "good (retM v)"
  by (simp add: good_def retM_def)

lemma good_raise: "good (raiseM (Raised e))" "good (raiseM (SkipInterrupt s))"
  by (simp_all add: good_def raiseM_def)

lemma good_raise_if: "good (raise_ifM Raised r)"
  by (cases r) (simp_all add: raise_ifM_def good_raise)

lemma good_effect: "good (outside_effect f)"
  by (auto simp: good_def outside_effect_def step_rel_def same_flags_def may_leave_def
      split: prod.split sum.split)

lemma good_bind:
  assumes m: "good m" and k: "\<And>v. good (k v)"
  shows "good (bindM m k)"
proof (rule goodI)
  fix w r w'
  assume b: "bindM m k w = (r, w')"
  obtain r1 w1 where m1: "m w = (r1, w1)" by (cases "m w")
  note g1 = goodD [OF m m1]
  show "step_rel w w' \<and> may_leave (w_in_step w) r"
  proof (cases r1)
    case (Inl e)
    with b m1 g1 show ?thesis by (cases e) (auto simp: bindM_def)
  next
    case (Inr v)
    with b m1 have "k v w1 = (r, w')" by (simp add: bindM_def)
    from goodD [OF k this] g1 show ?thesis
      by (auto simp: step_rel_in_step intro: step_rel_trans)
  qed
qed

lemma good_catch:
  assumes m: "good m" and h: "\<And>e. good (h e)"
  shows "good (try_except m h)"
proof (rule goodI)
  fix w r w'
  assume b: "try_except m h w = (r, w')"
  obtain r1 w1 where m1: "m w = (r1, w1)" by (cases "m w")
  note g1 = goodD [OF m m1]
  show "step_rel w w' \<and> may_leave (w_in_step w) r"
  proof (cases "\<exists>e. r1 = Inl (Raised e)")
    case True
    then obtain e where "h e w1 = (r, w')" using b m1 by (auto simp: try_except_def catchM_def)
    from goodD [OF h this] g1 show ?thesis by (auto simp: step_rel_in_step intro: step_rel_trans)
  next
    case False
    then have "r = r1" "w' = w1"
      using b m1 by (auto simp: try_except_def catchM_def raiseM_def split: sum.splits raised.splits)
    with g1 show ?thesis by simp
  qed
qed

lemma before_execution_middleware: "mg_middleware (fst (snd (before_execution s))) = mg_middleware (fst s)"
  by (auto simp: before_execution_def Let_def split: prod.split)

lemma set_ddel: "set (ddel d k) \<subseteq> set d"
  by (auto simp: ddel_def)

lemma step_rel_after_pop: "step_rel w (after_pop before_execution k w)"
proof -
  let ?w1 = "w\<lparr>w_memos := snd (StepMemos_pop (w_memos w) k)\<rparr>"
  have memos: "set (snd (StepMemos_pop (w_memos w) k)) \<subseteq> set (w_memos w)"
    using set_ddel [of "w_memos w" k] by (auto simp: StepMemos_pop_def split: option.split)
  have "mg_middleware (w_mgr (snd (on_manager before_execution ?w1))) = mg_middleware (w_mgr ?w1)"
    using before_execution_middleware [of "(w_mgr ?w1, w_out ?w1)"]
    by (auto simp: on_manager_def split: prod.split)
  with memos after_pop_frame(1) [of w before_execution k] show ?thesis
    by (simp add: step_rel_def after_pop_frame) (auto simp: after_pop_def Let_def)
qed

text \<open>A block around a reported step: inside it the flag is set, so its body must not let a nested step out.\<close>

lemma good_with_step:
  assumes body: "\<And>step w r w'. body step w = (r, w') \<Longrightarrow> step_rel w w' \<and> may_leave False r"
  shows "good (with_step (report_step exe s) body)"
proof (rule goodI)
  fix w r w'
  assume b: "with_step (report_step exe s) body w = (r, w')"
  let ?w1 = "after_pop before_execution (si_id s) w"
  have rel: "step_rel w ?w1" by (rule step_rel_after_pop)
  obtain r1 where rep: "report_step exe s w = (r1, ?w1)" by (simp add: report_step_eq)
  show "step_rel w w' \<and> may_leave (w_in_step w) r"
  proof (cases r1)
    case (Inl e)
    have "may_leave (w_in_step w) (Inl e :: raised + 'b)"
      using rep Inl by (auto simp: report_step_eq report_decision_def split: option.splits if_splits)
    with b rep Inl rel show ?thesis by (simp add: with_step_raise)
  next
    case (Inr step)
    show ?thesis
    proof (cases "w_in_step w")
      case True
      with b rep Inr rel show ?thesis by (auto simp: with_step_nested step_rel_in_step)
    next
      case False
      obtain r2 w2 where b2: "body step (?w1\<lparr>w_in_step := True\<rparr>) = (r2, w2)"
        by (cases "body step (?w1\<lparr>w_in_step := True\<rparr>)")
      have "(r, w') = (r2, w2\<lparr>w_in_step := False\<rparr>)"
        using b with_step_enter [of "report_step exe s" w step ?w1 body] rep Inr False rel
          finally_exit [of "body step", OF b2]
        by (simp add: step_rel_in_step)
      with body [OF b2] rel False show ?thesis
        by (auto simp: step_rel_def same_flags_def may_leave_def split: sum.splits raised.splits)
    qed
  qed
qed

lemma good_parse_step_id: "good (parse_step_id_m exe sid)"
  by (simp add: good_def parse_step_id_m_eq step_rel_def same_flags_def)

lemma good_or_unreachable: "good (or_unreachable r)"
  by (cases r) (simp_all add: or_unreachable_def good_raise)

lemma deliver_memo_leaves:
  "deliver_memo p step w = (r, w') \<Longrightarrow> step_rel w w' \<and> may_leave False r"
  by (auto simp: deliver_memo_def raiseM_def retM_def split: if_splits option.splits)

lemma run_outcome_leaves: "may_leave b r \<Longrightarrow> may_leave False (Inl (run_outcome exe s ty r) :: raised + 'a)"
  by (auto simp: run_outcome_def output_response_def error_response_def split: sum.splits raised.splits)

lemma run_body_leaves:
  assumes h: "good handler" and b: "run_body exe p ty handler step w = (r, w')"
  shows "step_rel w w' \<and> may_leave False r"
proof (cases "rs_skip step \<or> rs_error step \<noteq> None \<or> rs_output step \<noteq> PEmpty")
  case True
  with b show ?thesis
    by (auto simp: run_body_def monad_simps split: if_splits option.splits sum.splits)
next
  case False
  obtain r1 w1 where h1: "handler w = (r1, w1)" by (cases "handler w")
  with False b have "r = Inl (run_outcome exe (run_info p) ty r1)" "w' = w1"
    using Step_run_handler_eq [of handler w r1 w1 exe "run_info p" ty] h1 by (auto simp: run_body_def)
  with goodD [OF h h1] show ?thesis by (auto intro: run_outcome_leaves)
qed

lemma good_Step_run: "good handler \<Longrightarrow> good (Step_run exe sid ty handler)"
proof (rule goodI)
  fix w r w'
  assume h: "good handler" and b: "Step_run exe sid ty handler w = (r, w')"
  have "good (with_step (report_step exe s) (run_body exe p ty handler))" for s p
    by (rule good_with_step) (rule run_body_leaves [OF h])
  from goodD [OF this b [unfolded Step_run_eq]] show "step_rel w w' \<and> may_leave (w_in_step w) r"
    by (simp add: step_rel_def same_flags_def)
qed

lemma good_deliver: "good (with_step (report_step exe s) (deliver_memo p))"
  by (rule good_with_step) (rule deliver_memo_leaves)

lemmas good_intros = good_bind good_raise_if good_deliver good_or_unreachable good_parse_step_id good_ret
  good_raise good_effect good_Step_run

lemma good_waiting_steps:
  "good (Step_invoke_by_id exe sid app fid d t v)" "good (Step_invoke exe sid f d t v)"
  "good (Step_sleep_until exe sid until)" "good (Step_sleep now exe sid dur)"
  "good (Step_ai_infer exe sid ad body)"
  by (simp_all add: Step_invoke_by_id_def Step_invoke_def Step_sleep_until_def Step_sleep_def
      Step_ai_infer_def Let_def good_intros)

lemma good_wait_for_event: "good (Step_wait_for_event exe sid name if_exp timeout)"
proof -
  have "good (with_step (report_step exe s) (\<lambda>step. bindM (deliver_memo p step) (\<lambda>memo.
       case memo of None \<Rightarrow> retM None
       | Some v \<Rightarrow> if v = PNone then retM (Some None)
                   else bindM (raise_ifM Raised (Event_validate v)) (\<lambda>e. retM (Some (Some e))))))" for s p
  proof (rule good_with_step)
    fix step and w :: "'a world" and r w'
    assume b: "bindM (deliver_memo p step) (\<lambda>memo. case memo of None \<Rightarrow> retM None
       | Some v \<Rightarrow> if v = PNone then retM (Some None)
                   else bindM (raise_ifM Raised (Event_validate v)) (\<lambda>e. retM (Some (Some e)))) w = (r, w')"
    obtain r1 w1 where d: "deliver_memo p step w = (r1, w1)" by (cases "deliver_memo p step w")
    from deliver_memo_leaves [OF d] b d show "step_rel w w' \<and> may_leave False r"
      by (cases r1) (auto simp: monad_simps may_leave_def split: option.splits sum.splits if_splits raised.splits)
  qed
  then show ?thesis
    unfolding Step_wait_for_event_def by (intro good_intros)
qed

lemma good_with_manager:
  "good (with_manager f)"
  by (auto simp: good_def with_manager_def on_outside_def step_rel_def same_flags_def split: prod.split)

lemma good_send_event:
  assumes send: "\<And>es. good (send es)"
  shows "good (Step_send_event exe send sid events)"
proof -
  have "good (catchM (bindM (send es) (\<lambda>ids. retM (Inr ids)))
     (\<lambda>r. case r of Raised err \<Rightarrow> retM (Inl err) | _ \<Rightarrow> raiseM r))" for es
    using good_catch [of "bindM (send es) (\<lambda>ids. retM (Inr ids))" "\<lambda>e. retM (Inl e)"]
    by (simp add: try_except_def good_bind send)
  then show ?thesis
    unfolding Step_send_event_def Step_send_event_fn_def Let_def
    by (intro good_Step_run good_bind good_with_manager good_raise_if)
       (auto split: sum.split simp: good_raise)
qed

text \<open>The group sets the parallel flag for its callables and puts back the old value on every exit.\<close>

lemma good_flag:
  assumes "good m"
  shows "step_rel w ((snd (m (w\<lparr>w_in_parallel := b\<rparr>)))\<lparr>w_in_parallel := w_in_parallel w\<rparr>)
    \<and> may_leave (w_in_step w) (fst (m (w\<lparr>w_in_parallel := b\<rparr>)))"
  using assms [unfolded good_def, rule_format, of "w\<lparr>w_in_parallel := b\<rparr>"]
  by (simp add: step_rel_def same_flags_def)

text \<open>One callable of a group, with its outcome collected.\<close>

definition collect :: "('u, 'a) step_m \<Rightarrow> 'a list \<Rightarrow> step_response list \<Rightarrow> ('u, 'a list \<times> step_response list) step_m" where
  "collect c outputs responses = catchM (bindM c (\<lambda>output. retM (outputs @ [output], responses)))
     (\<lambda>r. case r of
        ResponseInterrupt rs \<Rightarrow> retM (outputs, responses @ rs)
      | SkipInterrupt step_id \<Rightarrow> retM (outputs, responses)
      | _ \<Rightarrow> raiseM r)"

lemma Group_parallel_loop_Cons:
  "Group_parallel_loop (c # cs) outputs responses =
     bindM (collect c outputs responses) (\<lambda>(outputs, responses). Group_parallel_loop cs outputs responses)"
  by (simp add: collect_def)

lemma good_collect:
  assumes c: "good c"
  shows "good (collect c outputs responses)"
proof (rule goodI)
  fix w r w'
  assume b: "collect c outputs responses w = (r, w')"
  obtain r1 w1 where d: "c w = (r1, w1)" by (cases "c w")
  from goodD [OF c d] b d show "step_rel w w' \<and> may_leave (w_in_step w) r"
    unfolding collect_def
    by (cases r1) (auto simp: monad_simps may_leave_def split: sum.splits raised.splits)
qed

lemma good_parallel_loop:
  "(\<And>c. c \<in> set cs \<Longrightarrow> good c) \<Longrightarrow> good (Group_parallel_loop cs outputs responses)"
proof (induction cs arbitrary: outputs responses)
  case (Cons c cs)
  have "good (Group_parallel_loop cs outputs responses)" for outputs responses
    by (rule Cons.IH) (simp add: Cons.prems)
  with Cons.prems show ?case
    unfolding Group_parallel_loop_Cons by (intro good_bind good_collect) (auto split: prod.split)
qed simp

lemma in_parallel_block:
  "bindM (getM w_in_parallel) (\<lambda>token. seqM (modifyM (\<lambda>w. w\<lparr>w_in_parallel := True\<rparr>))
     (finallyM m (modifyM (\<lambda>w. w\<lparr>w_in_parallel := token\<rparr>)))) w
   = (fst (m (w\<lparr>w_in_parallel := True\<rparr>)), (snd (m (w\<lparr>w_in_parallel := True\<rparr>)))\<lparr>w_in_parallel := w_in_parallel w\<rparr>)"
  by (simp add: monad_simps split: prod.split)

lemma good_parallel:
  assumes "\<And>c. c \<in> set cs \<Longrightarrow> good c"
  shows "good (Group_parallel cs mode)"
proof -
  let ?m = "bindM (Group_parallel_loop cs [] []) (\<lambda>(outputs, responses).
            if length responses > 0
            then raiseM (ResponseInterrupt
                   (map (\<lambda>r. r\<lparr>sp_step := set_parallel_mode mode (sp_step r)\<rparr>) responses))
            else retM outputs)"
  have m: "good ?m"
    by (rule good_bind [OF good_parallel_loop [OF assms]])
       (auto simp: good_def monad_simps split: prod.split)
  have "Group_parallel cs mode w =
      (fst (?m (w\<lparr>w_in_parallel := True\<rparr>)), (snd (?m (w\<lparr>w_in_parallel := True\<rparr>)))\<lparr>w_in_parallel := w_in_parallel w\<rparr>)" for w
    unfolding Group_parallel_def by (rule in_parallel_block)
  with good_flag [OF m] show ?thesis by (simp add: good_def)
qed

lemma user_code_good: "user_code exe m \<Longrightarrow> good m"
proof (induction rule: user_code.induct)
  case (send_event send sid events)
  show ?case by (rule good_send_event) (rule good_effect)
next
  case (parallel cs k mode)
  then show ?case by (intro good_bind good_parallel)
next
  case (wait_for_event k sid name if_exp timeout)
  then show ?case by (intro good_bind good_wait_for_event)
qed (auto intro: good_intros good_catch good_waiting_steps)

section \<open>The call of a function\<close>

definition returns_flat :: "'u world \<Rightarrow> (raised + call_result) \<times> 'u world \<Rightarrow> bool" where
  "returns_flat w res \<longleftrightarrow> (\<exists>r. fst res = Inr r \<and> cr_multi r \<noteq> Some []) \<and> same_flags w (snd res)"

lemma same_flags_trans: "same_flags w w1 \<Longrightarrow> same_flags w1 w2 \<Longrightarrow> same_flags w w2"
  by (simp add: same_flags_def)

lemma same_flags_refl [simp]: "same_flags w w"
  by (simp add: same_flags_def)

lemma with_manager_returns: "\<exists>r w'. with_manager f w = (Inr r, w') \<and> same_flags w w'"
  by (auto simp: with_manager_def on_outside_def same_flags_def split: prod.split)

lemma flat_results [simp]:
  "cr_multi (CallResult_error e) = None" "cr_multi (CallResult_output v) = None"
  "cr_multi (from_responses rs) \<noteq> Some [] \<longleftrightarrow> rs \<noteq> []"
  by (simp_all add: CallResult_error_def CallResult_output_def from_responses_def)

lemma finish_returns:
  assumes h: "good h" and w: "\<not> w_in_step w"
  shows "returns_flat w (ExecutionV0_finish (with_manager f) h w)"
proof -
  obtain r1 w1 where h1: "h w = (r1, w1)" by (cases "h w")
  obtain r2 w2 where after: "with_manager f w1 = (Inr r2, w2)" "same_flags w1 w2"
    using with_manager_returns [of f w1] by blast
  from goodD [OF h h1] w have rel: "same_flags w w1" and leave: "may_leave False r1"
    by (auto simp: step_rel_def)
  note flags = same_flags_trans [OF rel after(2)]
  show ?thesis
  proof (cases r1)
    case (Inl e)
    with leave h1 after(1) flags rel show ?thesis
      by (cases e) (auto simp: ExecutionV0_finish_def returns_flat_def monad_simps split: sum.split)
  next
    case (Inr v)
    with h1 after(1) flags show ?thesis
      by (auto simp: ExecutionV0_finish_def returns_flat_def monad_simps split: sum.split)
  qed
qed

lemma good_serialize: "good (serialize_output client ty v)"
  by (simp add: serialize_output_def good_raise_if)

lemma returns_flat_trans: "same_flags w w1 \<Longrightarrow> returns_flat w1 res \<Longrightarrow> returns_flat w res"
  by (auto simp: returns_flat_def intro: same_flags_trans)

lemma transform_input_returns:
  "\<exists>r w'. world_transform_input m ctx w = (Inr r, w') \<and> same_flags w w'"
  by (auto simp: world_transform_input_def same_flags_def split: prod.split sum.split)

lemma on_manager_returns: "\<exists>r w'. on_manager m w = (Inr r, w') \<and> same_flags w w'"
  by (auto simp: on_manager_def same_flags_def split: prod.split)

lemma run_returns:
  assumes h: "\<And>ctx. good (handler ctx)" and w: "\<not> w_in_step w"
  shows "returns_flat w (ExecutionV0_run exe ctx handler ty w)"
proof -
  obtain r1 w1 where ti: "world_transform_input (transform_input (w_mgr w)) ctx w = (Inr r1, w1)"
    and f1: "same_flags w w1"
    using transform_input_returns by blast
  obtain r2 w2 where be: "(if StepMemos_size (w_memos w1) = 0 then on_manager before_execution else retM (Inr ())) w1
      = (Inr r2, w2)" and f2: "same_flags w1 w2"
  proof (cases "StepMemos_size (w_memos w1) = 0")
    case True
    with on_manager_returns [of before_execution w1] that show thesis by auto
  qed (use that [of "Inr ()" w1] in \<open>simp add: retM_def\<close>)
  note flags = same_flags_trans [OF f1 f2]
  show ?thesis
  proof (cases "\<exists>e. r1 = Inl e \<or> r2 = Inl e")
    case True
    with ti be f1 flags show ?thesis
      by (cases r1; cases r2) (auto simp: ExecutionV0_run_def returns_flat_def bindM_def getM_def retM_def)
  next
    case False
    then obtain ctx1 where r: "r1 = Inr ctx1" "r2 = Inr ()" by (cases r1; cases r2) auto
    have "good (bindM (handler ctx1) (serialize_output (ex_client exe) ty))"
      by (rule good_bind [OF h good_serialize])
    moreover have "\<not> w_in_step w2" using w flags by (simp add: same_flags_def)
    ultimately have "returns_flat w2 (ExecutionV0_finish (with_manager after_execution)
        (bindM (handler ctx1) (serialize_output (ex_client exe) ty)) w2)"
      by (rule finish_returns)
    moreover have "ExecutionV0_run exe ctx handler ty w = ExecutionV0_finish (with_manager after_execution)
        (bindM (handler ctx1) (serialize_output (ex_client exe) ty)) w2"
      using ti be r by (simp add: ExecutionV0_run_def bindM_def getM_def)
    ultimately show ?thesis using returns_flat_trans [OF flags] by simp
  qed
qed

lemma transform_output_returns:
  "cr_multi r \<noteq> Some [] \<Longrightarrow> \<exists>r' w'. world_transform_output transform_output r w = (Inr r', w') \<and> same_flags w w'"
  by (auto simp: world_transform_output_def transform_output_def transform_output_with_def same_flags_def
      split: prod.splits sum.splits option.splits list.splits)

lemma call_returns:
  assumes mw: "fn_middleware fn = []" and sel: "select_handler fn fnid = Inr ((h, True), ty)"
    and h: "\<And>ctx. good (h exe ctx)" and w: "\<not> w_in_step w" "\<not> w_step_context w"
  shows "\<exists>res w'. Function_call fn exe ctx fnid w = (Inr res, w') \<and> same_flags w w'"
proof -
  let ?w = "w\<lparr>w_step_context := True\<rparr>"
  obtain r1 w1 where run: "ExecutionV0_run exe ctx (h exe) ty ?w = (Inr r1, w1)" "same_flags ?w w1"
      and flat: "cr_multi r1 \<noteq> Some []"
    using run_returns [of "h exe" ?w exe ctx ty, OF h] w by (auto simp: returns_flat_def prod_eq_iff)
  let ?w1 = "w1\<lparr>w_step_context := False\<rparr>"
  have set: "set_step_context (ExecutionV0_run exe ctx (h exe) ty) w = (Inr r1, ?w1)" "same_flags w ?w1"
    using run w by (simp_all add: set_step_context_def monad_simps same_flags_def)
  obtain r2 w2 where t: "world_transform_output transform_output r1 ?w1 = (Inr r2, w2)" "same_flags ?w1 w2"
    using transform_output_returns [OF flat, of ?w1] by blast
  obtain r3 w3 where b: "with_manager before_response w2 = (Inr r3, w3)" "same_flags w2 w3"
    using with_manager_returns [of before_response w2] by blast
  have "Function_call fn exe ctx fnid w =
      (case r2 of Inl e \<Rightarrow> (Inr (CallResult_error e), w2)
       | Inr res \<Rightarrow> (Inr (case r3 of Inl e \<Rightarrow> CallResult_error e | Inr _ \<Rightarrow> res), w3))"
    using mw sel set(1) t(1) b(1)
    by (simp add: Function_call_def seqM_def bindM_def retM_def split: sum.split)
  with set(2) t(2) b(2) show ?thesis
    by (auto split: sum.split intro: same_flags_trans)
qed

text \<open>The function's own middleware is added before anything else; only its factories can raise.\<close>

lemma add_each_cases:
  obtains (raises) e w' where "add_each_middleware ms w = (Inl (Raised e), w')" "same_flags w w'"
    | (added) w' where "add_each_middleware ms w = (Inr (), w')" "same_flags w w'"
proof (induction ms arbitrary: w thesis)
  case Nil
  then show ?case by (simp add: retM_def)
next
  case (Cons m ms)
  show ?case
  proof (cases "manager_add m (w_mgr w) (w_out w)")
    case (Pair r o')
    show ?thesis
    proof (cases r)
      case (Inl e)
      with Pair Cons.prems(1) show ?thesis by (simp add: seqM_def bindM_def add_middleware_def same_flags_def)
    next
      case (Inr mgr')
      let ?w1 = "w\<lparr>w_mgr := mgr', w_out := o'\<rparr>"
      have first: "add_each_middleware (m # ms) w = add_each_middleware ms ?w1"
        using Pair Inr by (simp add: seqM_def bindM_def add_middleware_def)
      have flags: "same_flags w ?w1" by (simp add: same_flags_def)
      show ?thesis
      proof (rule Cons.IH [of ?w1])
        fix e w' assume "add_each_middleware ms ?w1 = (Inl (Raised e), w')" "same_flags ?w1 w'"
        then show ?thesis by (intro Cons.prems(1) trans [OF first] same_flags_trans [OF flags])
      next
        fix w' assume "add_each_middleware ms ?w1 = (Inr (), w')" "same_flags ?w1 w'"
        then show ?thesis by (intro Cons.prems(2) trans [OF first] same_flags_trans [OF flags])
      qed
    qed
  qed
qed

lemma select_without_middleware [simp]: "select_handler (fn\<lparr>fn_middleware := ms\<rparr>) fnid = select_handler fn fnid"
  by (simp add: select_handler_def)

lemma call_after_add:
  "Function_call fn exe ctx fnid w = (case add_each_middleware (fn_middleware fn) w of
     (Inl r, w') \<Rightarrow> (Inl r, w') | (Inr u, w') \<Rightarrow> Function_call (fn\<lparr>fn_middleware := []\<rparr>) exe ctx fnid w')"
  unfolding Function_call_def by (simp add: seqM_def bindM_def retM_def split: prod.split sum.split)

text \<open>C6: User code, however it nests steps, groups and \<open>try\<close> blocks, leaves the request's flags as it found
  them on every exit, never invents memos, and lets out neither an interrupt without responses nor, outside
  a step, the report of a nested step.\<close>

theorem user_code_invariant:
  assumes "user_code exe m"
  shows "w_in_step (snd (m w)) = w_in_step w \<and> w_in_parallel (snd (m w)) = w_in_parallel w
    \<and> w_step_context (snd (m w)) = w_step_context w \<and> set (w_memos (snd (m w))) \<subseteq> set (w_memos w)
    \<and> fst (m w) \<noteq> Inl (ResponseInterrupt []) \<and> (w_in_step w \<or> fst (m w) \<noteq> Inl NestedStepInterrupt)"
  using user_code_good [OF assms]
  by (auto simp: good_def step_rel_def same_flags_def dest: spec [of _ w])

text \<open>A group of a step that contains another step, and of an effect that raises.\<close>

definition nested_demo :: "(string list, pyobj) step_m" where
  "nested_demo = bindM (Group_parallel
     [Step_run (demo_exe 0 None) ''a'' None (Step_run (demo_exe 0 None) ''b'' None (retM (PInt 1))),
      outside_effect (\<lambda>w. (Inl (Exception ''x''), w))] PM_RACE) (\<lambda>vs. retM (PList vs))"

theorem user_code_invariant_witness:
  "w_in_parallel (snd (nested_demo (demo_world []))) = False \<and> w_in_step (snd (nested_demo (demo_world []))) = False"
proof -
  have "user_code (demo_exe 0 None) nested_demo"
    unfolding nested_demo_def by (rule user_code.parallel) (auto intro: user_code.intros)
  from user_code_invariant [OF this, of "demo_world []"] show ?thesis
    by (simp add: demo_world_def)
qed

text \<open>C7: A call of an async function raises only what a factory of the function's own middleware raises, and then nothing
  else has happened; once that middleware is added it never raises.  Whatever the user's handler raises (or whether there
  is none for the identifier), and whatever the hooks answer, the caller gets a call result, and the flags of the
  request are as before the call.\<close>

theorem function_call_returns:
  assumes "\<And>h async ty. select_handler fn fnid = Inr ((h, async), ty) \<Longrightarrow> async \<and> (\<forall>ctx. user_code exe (h exe ctx))"
    and "\<not> w_in_step w" "\<not> w_step_context w"
  shows "case add_each_middleware (fn_middleware fn) w of
      (Inl r, w') \<Rightarrow> (\<exists>e. r = Raised e) \<and> Function_call fn exe ctx fnid w = (Inl r, w')
    | (Inr u, w1) \<Rightarrow> \<exists>res w'. Function_call fn exe ctx fnid w = (Inr res, w')
        \<and> w_in_step w' = False \<and> w_in_parallel w' = w_in_parallel w \<and> w_step_context w' = False"
proof (rule add_each_cases [of "fn_middleware fn" w])
  fix e w' assume "add_each_middleware (fn_middleware fn) w = (Inl (Raised e), w')"
  then show ?thesis by (simp add: call_after_add [of fn])
next
  fix w1 assume add: "add_each_middleware (fn_middleware fn) w = (Inr (), w1)" "same_flags w w1"
  let ?fn = "fn\<lparr>fn_middleware := []\<rparr>"
  have sel: "select_handler ?fn fnid = select_handler fn fnid" by (rule select_without_middleware)
  have flags: "\<not> w_in_step w1" "\<not> w_step_context w1" using add(2) assms(2,3) by (simp_all add: same_flags_def)
  have "\<exists>res w'. Function_call ?fn exe ctx fnid w1 = (Inr res, w') \<and> same_flags w1 w'"
  proof (cases "select_handler fn fnid")
    case (Inl e)
    then show ?thesis by (simp add: Function_call_def sel seqM_def bindM_def retM_def)
  next
    case (Inr r)
    then obtain h ty where r: "select_handler ?fn fnid = Inr ((h, True), ty)"
      using sel assms(1) by (metis prod.collapse)
    have "good (h exe ctx)" for ctx
      using assms(1) r unfolding sel by (intro user_code_good) blast
    from call_returns [OF _ r this flags] show ?thesis by simp
  qed
  with add assms(2,3) show ?thesis by (auto simp: call_after_add [of fn] same_flags_def)
qed

text \<open>A handler that raises, and a middleware factory that does.\<close>

theorem function_call_returns_witness:
  "(\<exists>res w'. Function_call (demo_fn (\<lambda>exe ctx. raiseM (Raised (Exception ''x'')))) (demo_exe 0 None) demo_ctx
      ''app-fn'' ((demo_world [])\<lparr>w_step_context := False\<rparr>) = (Inr res, w')
    \<and> w_in_step w' = False \<and> w_in_parallel w' = False \<and> w_step_context w' = False)
   \<and> (\<exists>w'. Function_call ((demo_fn (\<lambda>exe ctx. retM PNone))\<lparr>fn_middleware := [raiseM (Exception ''mw'')]\<rparr>) (demo_exe 0 None)
      demo_ctx ''app-fn'' ((demo_world [])\<lparr>w_step_context := False\<rparr>) = (Inl (Raised (Exception ''mw'')), w'))"
proof
  let ?w = "(demo_world [])\<lparr>w_step_context := False\<rparr>"
  let ?h = "\<lambda>exe ctx. raiseM (Raised (Exception ''x'')) :: (string list, pyobj) step_m"
  let ?g = "\<lambda>exe ctx. retM PNone :: (string list, pyobj) step_m"
  have sel: "select_handler (demo_fn ?h) ''app-fn'' = Inr ((?h, True), None)"
    "select_handler ((demo_fn ?g)\<lparr>fn_middleware := [raiseM (Exception ''mw'')]\<rparr>) ''app-fn'' = Inr ((?g, True), None)"
    by (simp_all add: select_handler_def demo_fn_def demo_opts_def)
  have w: "\<not> w_in_step ?w" "\<not> w_step_context ?w" "w_in_parallel ?w = False" by (simp_all add: demo_world_def)
  have "fn_middleware (demo_fn ?h) = []" by (simp add: demo_fn_def)
  with function_call_returns [of "demo_fn ?h" "''app-fn''" "demo_exe 0 None", OF _ w(1,2), of demo_ctx] w(3)
  show "\<exists>res w'. Function_call (demo_fn ?h) (demo_exe 0 None) demo_ctx ''app-fn'' ?w = (Inr res, w')
    \<and> w_in_step w' = False \<and> w_in_parallel w' = False \<and> w_step_context w' = False"
    unfolding sel by (auto simp: retM_def intro: user_code.intros)
  let ?fn = "(demo_fn ?g)\<lparr>fn_middleware := [raiseM (Exception ''mw'')]\<rparr>"
  have "add_each_middleware (fn_middleware ?fn) ?w = (Inl (Raised (Exception ''mw'')), ?w)"
    by (simp add: monad_simps add_middleware_def manager_add_def)
  with function_call_returns [of ?fn "''app-fn''" "demo_exe 0 None", OF _ w(1,2), of demo_ctx]
  show "\<exists>w'. Function_call ?fn (demo_exe 0 None) demo_ctx ''app-fn'' ?w = (Inl (Raised (Exception ''mw'')), w')"
    unfolding sel by (auto intro: user_code.intros)
qed

end
