(* ===== verification/Twins.thy ===== *)
theory Twins
  imports UserCode
begin

text \<open>
  The non-async step methods and groups, the non-async execution and the non-async call do what the
  async ones do when every middleware of the request is synchronous.
\<close>

lemma sync_ok_step_rel: "step_rel w w' \<Longrightarrow> sync_ok (w_mgr w) \<Longrightarrow> sync_ok (w_mgr w')"
  by (simp add: step_rel_def sync_ok_def)

lemma on_manager_before_sync:
  "sync_ok (w_mgr w) \<Longrightarrow> on_manager before_execution_sync w = on_manager before_execution w"
  by (simp add: on_manager_def manager_sync_facts)

lemma after_pop_sync:
  "sync_ok (w_mgr w) \<Longrightarrow> after_pop before_execution_sync k w = after_pop before_execution k w"
  by (simp add: after_pop_def Let_def on_manager_before_sync)

lemma report_sync_eq: "sync_ok (w_mgr w) \<Longrightarrow> report_step_sync exe s w = report_step exe s w"
  by (simp add: report_step_sync_eq report_step_eq after_pop_sync)

lemma with_report_sync:
  "sync_ok (w_mgr w) \<Longrightarrow> with_step (report_step_sync exe s) body w = with_step (report_step exe s) body w"
  by (simp add: with_step_def bindM_def report_sync_eq)

lemma bindM_cong_state:
  "m w = m' w \<Longrightarrow> (\<And>v w'. m' w = (Inr v, w') \<Longrightarrow> f v w' = g v w') \<Longrightarrow> bindM m f w = bindM m' g w"
  by (simp add: bindM_def split: prod.split sum.split)

lemma parse_keeps_mgr: "parse_step_id_m exe sid w = (Inr p, w') \<Longrightarrow> w_mgr w' = w_mgr w"
  by (auto simp: parse_step_id_m_eq)

lemma raise_if_state: "raise_ifM f r w = (Inr v, w') \<Longrightarrow> w' = w"
  by (cases r) (auto simp: monad_simps)

lemma invoke_by_id_sync:
  assumes "sync_ok (w_mgr w)"
  shows "StepSync_invoke_by_id exe sid app fid d t v w = Step_invoke_by_id exe sid app fid d t v w"
  unfolding StepSync_invoke_by_id_def Step_invoke_by_id_def Let_def
  using assms
  by (intro bindM_cong_state refl) (auto dest!: parse_keeps_mgr raise_if_state simp: with_report_sync)

lemma sleep_until_sync:
  assumes "sync_ok (w_mgr w)"
  shows "StepSync_sleep_until exe sid t w = Step_sleep_until exe sid t w"
  unfolding StepSync_sleep_until_def Step_sleep_until_def
  using assms by (intro bindM_cong_state refl) (auto dest!: parse_keeps_mgr simp: with_report_sync)

lemma wait_for_event_sync:
  assumes "sync_ok (w_mgr w)"
  shows "StepSync_wait_for_event exe sid n ie t w = Step_wait_for_event exe sid n ie t w"
  unfolding StepSync_wait_for_event_def Step_wait_for_event_def
  using assms
  by (intro bindM_cong_state refl) (auto dest!: parse_keeps_mgr raise_if_state simp: with_report_sync)

lemma ai_infer_sync:
  assumes "sync_ok (w_mgr w)"
  shows "StepSync_ai_infer exe sid ad b w = Step_ai_infer exe sid ad b w"
  unfolding StepSync_ai_infer_def Step_ai_infer_def
  using assms
  by (intro bindM_cong_state refl) (auto dest!: parse_keeps_mgr raise_if_state simp: with_report_sync)

section \<open>step.run and send_event\<close>

lemma StepSync_run_handler_eq: "StepSync_run_handler = Step_run_handler"
  by (intro ext) (simp only: StepSync_run_handler_def Step_run_handler_def)

lemma StepSync_run_eq:
  "sync_ok (w_mgr w) \<Longrightarrow> StepSync_run exe sid ty h w = Step_run exe sid ty h w"
  unfolding StepSync_run_def Step_run_def Let_def StepSync_run_handler_eq
  by (intro bindM_cong_state refl) (auto dest!: parse_keeps_mgr simp: with_report_sync)

text \<open>Two handlers that agree wherever the middleware is the request's give the same step.\<close>

lemma with_step_cong:
  assumes "\<And>step w1. mg_middleware (w_mgr w1) = mg_middleware (w_mgr w) \<Longrightarrow> body step w1 = body' step w1"
  shows "with_step (report_step exe s) body w = with_step (report_step exe s) body' w"
  unfolding with_step_def
proof (intro bindM_cong_state refl)
  fix step w1
  assume r: "report_step exe s w = (Inr step, w1)"
  then have w1: "w1 = after_pop before_execution (si_id s) w" by (simp add: report_step_eq)
  have mg: "mg_middleware (w_mgr w1) = mg_middleware (w_mgr w)"
    using step_rel_after_pop [of w "si_id s"] by (simp add: w1 step_rel_def)
  show "seqM ReportedStep_enter (finallyM (body step) ReportedStep_exit) w1
      = seqM ReportedStep_enter (finallyM (body' step) ReportedStep_exit) w1"
  proof (cases "w_in_step w1")
    case False
    have "body step (w1\<lparr>w_in_step := True\<rparr>) = body' step (w1\<lparr>w_in_step := True\<rparr>)"
      by (rule assms) (simp add: mg)
    with False show ?thesis by (simp add: ReportedStep_enter_def monad_simps)
  qed (simp add: ReportedStep_enter_def monad_simps)
qed

lemma Step_run_cong:
  assumes "\<And>w1. mg_middleware (w_mgr w1) = mg_middleware (w_mgr w) \<Longrightarrow> h w1 = h' w1"
  shows "Step_run exe sid ty h w = Step_run exe sid ty h' w"
  unfolding Step_run_eq
proof (rule with_step_cong)
  fix step and w1 :: "'a world"
  assume "mg_middleware (w_mgr w1) = mg_middleware (w_mgr (run_counted exe sid w))"
  then have "h w1 = h' w1" by (intro assms) simp
  then show "run_body exe (run_parsed exe sid w) ty h step w1 = run_body exe (run_parsed exe sid w) ty h' step w1"
    by (simp add: run_body_def Step_run_handler_def catchM_def bindM_def split: option.split)
qed

lemma with_manager_sync:
  "f (w_mgr w) = g (w_mgr w) \<Longrightarrow> with_manager f w = with_manager g w"
  by (simp add: with_manager_def)

lemma with_manager_mgr: "with_manager f w = (r, w') \<Longrightarrow> w_mgr w' = w_mgr w"
  by (auto simp: with_manager_def on_outside_def split: prod.splits)

lemma send_event_fn_sync:
  assumes ok: "sync_ok (w_mgr w)" and send: "\<And>es. good (send es)"
  shows "StepSync_send_event_fn send events w = Step_send_event_fn send events w"
  unfolding StepSync_send_event_fn_def Step_send_event_fn_def Let_def
proof (rule bindM_cong_state, goal_cases)
  case 1
  show ?case by (rule with_manager_sync) (simp add: fun_eq_iff manager_sync_facts(5) [OF ok])
next
  case (2 r w1)
  then have w1: "sync_ok (w_mgr w1)" using ok by (auto dest: with_manager_mgr)
  show ?case
  proof (rule bindM_cong_state, goal_cases)
    case (2 es w2)
    then have w2: "sync_ok (w_mgr w2)" using w1 by (auto dest: raise_if_state)
    show ?case
    proof (rule bindM_cong_state, goal_cases)
      case (2 sent w3)
      have "good (catchM (bindM (send es) (\<lambda>ids. retM (Inr ids)))
         (\<lambda>r. case r of Raised err \<Rightarrow> retM (Inl err) | _ \<Rightarrow> raiseM r))"
        using good_catch [of "bindM (send es) (\<lambda>ids. retM (Inr ids))" "\<lambda>e. retM (Inl e)"]
        by (simp add: try_except_def good_bind send)
      from goodD [OF this 2] w2 have w3: "sync_ok (w_mgr w3)" by (auto intro: sync_ok_step_rel)
      show ?case
        by (rule bindM_cong_state [OF with_manager_sync]) (simp_all add: manager_sync_facts(2) [OF w3])
    qed simp
  qed simp
qed

lemma send_event_sync:
  assumes ok: "sync_ok (w_mgr w)" and send: "\<And>es. good (send es)"
  shows "StepSync_send_event exe send sid events w = Step_send_event exe send sid events w"
  unfolding StepSync_send_event_def Step_send_event_def StepSync_run_eq [OF ok]
proof (rule Step_run_cong)
  fix w1 :: "'a world"
  assume "mg_middleware (w_mgr w1) = mg_middleware (w_mgr w)"
  with ok have "sync_ok (w_mgr w1)" by (simp add: sync_ok_def)
  then show "StepSync_send_event_fn send events w1 = Step_send_event_fn send events w1"
    by (rule send_event_fn_sync [OF _ send])
qed

section \<open>Groups, executions and calls\<close>

lemma GroupSync_loop_eq: "GroupSync_parallel_loop cs outs rs = Group_parallel_loop cs outs rs"
proof (induction cs arbitrary: outs rs)
  case (Cons c cs)
  have "GroupSync_parallel_loop cs = Group_parallel_loop cs"
    by (intro ext) (simp only: Cons.IH)
  then show ?case by (simp only: GroupSync_parallel_loop.simps Group_parallel_loop.simps)
qed simp

lemma GroupSync_parallel_eq: "GroupSync_parallel = Group_parallel"
  by (intro ext) (simp only: GroupSync_parallel_def Group_parallel_def GroupSync_loop_eq)

lemma finish_sync:
  assumes h: "good h" and ok: "sync_ok (w_mgr w)" and eq: "h' w = h w"
  shows "ExecutionV0_finish (with_manager after_execution_sync) h' w =
    ExecutionV0_finish (with_manager after_execution) h w"
proof -
  obtain r1 w1 where h1: "h w = (r1, w1)" "h' w = (r1, w1)" using eq by (cases "h w") simp
  note h1' = h1(1)
  from goodD [OF h h1'] ok have "sync_ok (w_mgr w1)" by (auto intro: sync_ok_step_rel)
  then have "with_manager after_execution_sync w1 = with_manager after_execution w1"
    by (intro with_manager_sync) (simp add: manager_sync_facts)
  moreover obtain r2 w2 where "with_manager after_execution w1 = (Inr r2, w2)"
    using with_manager_returns by blast
  ultimately show ?thesis using h1
    by (cases r1; cases r2) (auto simp: ExecutionV0_finish_def bindM_def catchM_def retM_def split: raised.split)
qed

lemma transform_input_mgr: "world_transform_input m ctx w = (r, w') \<Longrightarrow> w_mgr w' = w_mgr w"
  by (auto simp: world_transform_input_def split: prod.splits sum.splits)

lemma on_manager_before_ok:
  "on_manager before_execution w = (r, w') \<Longrightarrow> sync_ok (w_mgr w) \<Longrightarrow> sync_ok (w_mgr w')"
  using before_execution_middleware [of "(w_mgr w, w_out w)"]
  by (auto simp: on_manager_def sync_ok_def split: prod.splits)

lemma run_sync:
  assumes h: "\<And>ctx. good (handler ctx)" and ok: "sync_ok (w_mgr w)"
    and eq: "\<And>ctx w. sync_ok (w_mgr w) \<Longrightarrow> handler' ctx w = handler ctx w"
  shows "ExecutionV0Sync_run exe ctx handler' ty w = ExecutionV0_run exe ctx handler ty w"
  unfolding ExecutionV0Sync_run_def ExecutionV0_run_def manager_sync_facts(6) [OF ok]
proof (rule bindM_cong_state, goal_cases)
  case 1
  show ?case by (simp add: manager_sync_facts(6) [OF ok])
next
  case (2 r w1)
  then have w1: "sync_ok (w_mgr w1)" using ok by (auto dest: transform_input_mgr)
  show ?case
  proof (cases r)
    case (Inr ctx1)
    show ?thesis
      unfolding Inr sum.case
    proof (rule bindM_cong_state, goal_cases)
      case (2 size w2)
      then have w2: "sync_ok (w_mgr w2)" using w1 by (auto simp: getM_def)
      show ?case
      proof (rule bindM_cong_state, goal_cases)
        case 1
        show ?case using w2 by (simp add: on_manager_before_sync)
      next
        case (2 e w3)
        then have w3: "sync_ok (w_mgr w3)"
          using w2 by (auto split: if_splits dest: on_manager_before_ok simp: retM_def)
        have "good (bindM (handler ctx1) (serialize_output (ex_client exe) ty))"
          by (rule good_bind [OF h good_serialize])
        moreover have "bindM (handler' ctx1) (serialize_output (ex_client exe) ty) w3
            = bindM (handler ctx1) (serialize_output (ex_client exe) ty) w3"
          by (rule bindM_cong_state) (simp_all add: eq w3)
        ultimately show ?case using finish_sync [OF _ w3] by (simp split: sum.split)
      qed
    qed simp
  qed simp
qed

lemma transform_output_sync_eq:
  "sync_ok (w_mgr w) \<Longrightarrow>
   world_transform_output transform_output_sync r w = world_transform_output transform_output r w"
  by (simp add: world_transform_output_def manager_sync_facts)

lemma run_keeps_middleware:
  assumes h: "\<And>ctx. good (handler ctx)"
  shows "mg_middleware (w_mgr (snd (ExecutionV0_run exe ctx handler ty w))) = mg_middleware (w_mgr w)"
proof -
  obtain r1 w1 where ti: "world_transform_input (transform_input (w_mgr w)) ctx w = (Inr r1, w1)"
    using transform_input_returns by blast
  note m1 = transform_input_mgr [OF ti]
  obtain r2 w2 where be: "(if StepMemos_size (w_memos w1) = 0 then on_manager before_execution else retM (Inr ())) w1
      = (Inr r2, w2)" and m2: "mg_middleware (w_mgr w2) = mg_middleware (w_mgr w1)"
  proof (cases "StepMemos_size (w_memos w1) = 0")
    case True
    obtain r2 w2 where "on_manager before_execution w1 = (Inr r2, w2)" using on_manager_returns by blast
    with True that before_execution_middleware [of "(w_mgr w1, w_out w1)"] show thesis
      by (auto simp: on_manager_def split: prod.splits)
  qed (use that [of "Inr ()" w1] in \<open>simp add: retM_def\<close>)
  have "mg_middleware (w_mgr (snd (ExecutionV0_finish (with_manager after_execution) b w2))) = mg_middleware (w_mgr w2)"
    if b: "good b" for b :: "('a, pyobj) step_m"
  proof -
    obtain r3 w3 where b3: "b w2 = (r3, w3)" by (cases "b w2")
    obtain r4 w4 where a: "with_manager after_execution w3 = (Inr r4, w4)"
      using with_manager_returns by blast
    from goodD [OF b b3] with_manager_mgr [OF a] a b3 show ?thesis
      by (cases r3) (auto simp: ExecutionV0_finish_def monad_simps step_rel_def split: sum.split raised.split)
  qed
  note fin = this [OF good_bind [OF h good_serialize]]
  show ?thesis
    using ti be m1 m2 fin
    by (cases r1; cases r2) (auto simp: ExecutionV0_run_def bindM_def getM_def retM_def)
qed

text \<open>The call once the function's own middleware has been added.\<close>

lemma call_sync:
  assumes mw: "fn_middleware fn = []" "fn_middleware fn' = []"
    and sel: "select_handler fn fnid = Inr ((h', False), ty)" "select_handler fn' fnid = Inr ((h, True), ty)"
    and h: "\<And>ctx. good (h exe ctx)" and eq: "\<And>ctx w. sync_ok (w_mgr w) \<Longrightarrow> h' exe ctx w = h exe ctx w"
    and ok: "sync_ok (w_mgr w)"
  shows "Function_call_sync fn exe ctx fnid w = Function_call fn' exe ctx fnid w"
proof -
  let ?run = "ExecutionV0_run exe ctx (h exe) ty" and ?run' = "ExecutionV0Sync_run exe ctx (h' exe) ty"
  have set: "set_step_context ?run' w = set_step_context ?run w"
  proof (cases "w_step_context w")
    case False
    have "?run' (w\<lparr>w_step_context := True\<rparr>) = ?run (w\<lparr>w_step_context := True\<rparr>)"
      by (rule run_sync) (use h ok eq in simp_all)
    with False show ?thesis by (simp add: set_step_context_def monad_simps)
  qed (simp add: set_step_context_def monad_simps)
  have keeps: "sync_ok (w_mgr w1)" if "set_step_context ?run w = (r, w1)" for r w1
  proof (cases "w_step_context w")
    case True
    with that ok show ?thesis by (simp add: set_step_context_def monad_simps)
  next
    case False
    with that have "w_mgr w1 = w_mgr (snd (?run (w\<lparr>w_step_context := True\<rparr>)))"
      by (auto simp: set_step_context_def monad_simps split: prod.splits)
    with ok run_keeps_middleware [of "h exe" exe ctx ty "w\<lparr>w_step_context := True\<rparr>", OF h]
    show ?thesis by (simp add: sync_ok_def)
  qed
  show ?thesis
    unfolding Function_call_sync_def Function_call_def mw sel sum.case prod.case add_each_middleware.simps
      snd_conv fst_conv simp_thms if_False if_True seqM_def bindM_retM
  proof (rule bindM_cong_state, goal_cases)
    case 1
    show ?case by (rule set)
  next
    case (2 r w1)
    note w1 = keeps [OF 2]
    show ?case
    proof (rule bindM_cong_state, goal_cases)
      case 1
      show ?case by (rule transform_output_sync_eq [OF w1])
    next
      case (2 t w2)
      then have w2: "w_mgr w2 = w_mgr w1"
        by (auto simp: world_transform_output_def split: prod.splits sum.splits)
      have "with_manager before_response_sync w2 = with_manager before_response w2"
        by (rule with_manager_sync) (use w1 in \<open>simp add: w2 manager_sync_facts\<close>)
      then show ?case by (cases t) (auto simp: bindM_def)
    qed
  qed
qed

text \<open>Every non-async step method does what the async one does, on the same arguments and from the same
  state, when all middleware of the request is synchronous; groups do so always.\<close>

lemma step_sync_twins:
  assumes ok: "sync_ok (w_mgr w)"
  shows "StepSync_run exe sid ty h w = Step_run exe sid ty h w
    \<and> StepSync_invoke_by_id exe sid app fid d t v w = Step_invoke_by_id exe sid app fid d t v w
    \<and> StepSync_send_event exe (\<lambda>es. outside_effect (send es)) sid events w
        = Step_send_event exe (\<lambda>es. outside_effect (send es)) sid events w
    \<and> StepSync_sleep_until exe sid until w = Step_sleep_until exe sid until w
    \<and> StepSync_wait_for_event exe sid name ie dur w = Step_wait_for_event exe sid name ie dur w
    \<and> StepSync_ai_infer exe sid ad b w = Step_ai_infer exe sid ad b w
    \<and> GroupSync_parallel cs mode w = Group_parallel cs mode w"
  by (simp add: StepSync_run_eq ok invoke_by_id_sync send_event_sync good_effect sleep_until_sync
      wait_for_event_sync ai_infer_sync GroupSync_parallel_eq)

lemma step_sync_twins_witness:
  "StepSync_run (demo_exe 0 None) ''a'' None demo_handler (demo_world [])
   = Step_run (demo_exe 0 None) ''a'' None demo_handler (demo_world [])"
  by (rule step_sync_twins [THEN conjunct1]) (simp add: sync_ok_def demo_world_def new_manager_def)

section \<open>User code written twice\<close>

text \<open>
  \<open>twin_code exe m m'\<close>: \<open>m'\<close> is the code \<open>m\<close> written for a non-async function, with the methods of \<open>StepSync\<close> and
  \<open>GroupSync\<close> in place of those of \<open>Step\<close> and \<open>Group\<close>, at every depth.
\<close>

inductive twin_code :: "'u exe \<Rightarrow> ('u, pyobj) step_m \<Rightarrow> ('u, pyobj) step_m \<Rightarrow> bool" for exe where
  ret: "twin_code exe (retM v) (retM v)"
| raise: "twin_code exe (raiseM (Raised e)) (raiseM (Raised e))"
| effect: "twin_code exe (outside_effect f) (outside_effect f)"
| sequence: "twin_code exe m m' \<Longrightarrow> (\<And>v. twin_code exe (k v) (k' v)) \<Longrightarrow> twin_code exe (bindM m k) (bindM m' k')"
| try_except: "twin_code exe m m' \<Longrightarrow> (\<And>e. twin_code exe (h e) (h' e)) \<Longrightarrow> twin_code exe (try_except m h) (try_except m' h')"
| run: "twin_code exe m m' \<Longrightarrow> twin_code exe (Step_run exe sid ty m) (StepSync_run exe sid ty m')"
| invoke: "twin_code exe (Step_invoke exe sid f d t v) (StepSync_invoke exe sid f d t v)"
| invoke_by_id: "twin_code exe (Step_invoke_by_id exe sid app fid d t v) (StepSync_invoke_by_id exe sid app fid d t v)"
| send_event: "twin_code exe (Step_send_event exe (\<lambda>es. outside_effect (send es)) sid events)
    (StepSync_send_event exe (\<lambda>es. outside_effect (send es)) sid events)"
| sleep: "twin_code exe (Step_sleep now exe sid dur) (StepSync_sleep now exe sid dur)"
| sleep_until: "twin_code exe (Step_sleep_until exe sid until) (StepSync_sleep_until exe sid until)"
| wait_for_event: "(\<And>e. twin_code exe (k e) (k' e)) \<Longrightarrow>
    twin_code exe (bindM (Step_wait_for_event exe sid name if_exp timeout) k) (bindM (StepSync_wait_for_event exe sid name if_exp timeout) k')"
| ai_infer: "twin_code exe (Step_ai_infer exe sid ad body) (StepSync_ai_infer exe sid ad body)"
| parallel: "length cs' = length cs \<Longrightarrow> (\<And>i. i < length cs \<Longrightarrow> twin_code exe (cs ! i) (cs' ! i)) \<Longrightarrow> (\<And>vs. twin_code exe (k vs) (k' vs)) \<Longrightarrow>
    twin_code exe (bindM (Group_parallel cs mode) k) (bindM (GroupSync_parallel cs' mode) k')"

lemma twin_user_code: "twin_code exe m m' \<Longrightarrow> user_code exe m"
proof (induction rule: twin_code.induct)
  case (parallel cs' cs k k' mode)
  then show ?case by (intro user_code.parallel) (auto simp: in_set_conv_nth)
qed (auto intro: user_code.intros)

text \<open>Two pieces of code that agree under synchronous middleware.\<close>

definition agree :: "('u, 'a) step_m \<Rightarrow> ('u, 'a) step_m \<Rightarrow> bool" where
  "agree m m' = (good m \<and> (\<forall>w. sync_ok (w_mgr w) \<longrightarrow> m' w = m w))"

lemma agreeD: "agree m m' \<Longrightarrow> sync_ok (w_mgr w) \<Longrightarrow> m' w = m w" "agree m m' \<Longrightarrow> good m"
  by (simp_all add: agree_def)

lemma agree_after: "agree m m' \<Longrightarrow> sync_ok (w_mgr w) \<Longrightarrow> m w = (r, w') \<Longrightarrow> sync_ok (w_mgr w')"
  by (metis agreeD(2) goodD sync_ok_step_rel)

lemma agreeI: "good m \<Longrightarrow> (\<And>w. sync_ok (w_mgr w) \<Longrightarrow> m' w = m w) \<Longrightarrow> agree m m'"
  by (simp add: agree_def)

lemma agree_same: "good m \<Longrightarrow> agree m m"
  by (simp add: agree_def)

lemma agree_bind:
  assumes m: "agree m m'" and k: "\<And>v. agree (k v) (k' v)"
  shows "agree (bindM m k) (bindM m' k')"
proof (rule agreeI)
  show "good (bindM m k)" by (intro good_bind agreeD(2) [OF m] agreeD(2) [OF k])
  fix w :: "'a world" assume w: "sync_ok (w_mgr w)"
  show "bindM m' k' w = bindM m k w"
    by (rule bindM_cong_state) (use agreeD(1) [OF m w] agreeD(1) [OF k] agree_after [OF m w] in auto)
qed

lemma agree_try:
  assumes m: "agree m m'" and h: "\<And>e. agree (h e) (h' e)"
  shows "agree (try_except m h) (try_except m' h')"
proof (rule agreeI)
  show "good (try_except m h)" by (intro good_catch agreeD(2) [OF m] agreeD(2) [OF h])
  fix w :: "'a world" assume w: "sync_ok (w_mgr w)"
  obtain r w1 where r: "m w = (r, w1)" by (cases "m w")
  with agreeD(1) [OF m w] agreeD(1) [OF h agree_after [OF m w r]]
  show "try_except m' h' w = try_except m h w"
    by (auto simp: try_except_def catchM_def split: sum.split raised.split)
qed

lemma agree_run:
  assumes m: "agree m m'"
  shows "agree (Step_run exe sid ty m) (StepSync_run exe sid ty m')"
proof (rule agreeI)
  show "good (Step_run exe sid ty m)" by (rule good_Step_run [OF agreeD(2) [OF m]])
  fix w :: "'a world" assume w: "sync_ok (w_mgr w)"
  have "Step_run exe sid ty m' w = Step_run exe sid ty m w"
    by (rule Step_run_cong) (use w in \<open>simp add: agreeD(1) [OF m] sync_ok_def\<close>)
  then show "StepSync_run exe sid ty m' w = Step_run exe sid ty m w" by (simp add: StepSync_run_eq [OF w])
qed

lemma agree_collect:
  assumes "agree c c'"
  shows "agree (collect c outputs responses) (collect c' outputs responses)"
  by (rule agreeI) (simp_all add: good_collect agreeD [OF assms], simp add: collect_def catchM_def bindM_def agreeD [OF assms])

lemma agree_loop:
  "list_all2 agree cs cs' \<Longrightarrow> agree (Group_parallel_loop cs outputs responses) (Group_parallel_loop cs' outputs responses)"
proof (induction arbitrary: outputs responses rule: list_all2_induct)
  case (Cons c cs c' cs')
  then show ?case unfolding Group_parallel_loop_Cons by (intro agree_bind agree_collect) (auto split: prod.split)
qed (simp add: agree_same)

lemma agree_parallel:
  assumes "list_all2 agree cs cs'"
  shows "agree (Group_parallel cs mode) (GroupSync_parallel cs' mode)"
proof (rule agreeI)
  have "good c" if "c \<in> set cs" for c
    using assms that by (auto simp: list_all2_conv_all_nth in_set_conv_nth dest: agreeD(2))
  then show "good (Group_parallel cs mode)" by (rule good_parallel)
  fix w :: "'a world" assume w: "sync_ok (w_mgr w)"
  let ?body = "\<lambda>cs. bindM (Group_parallel_loop cs [] []) (\<lambda>(outputs, responses).
            if length responses > 0
            then raiseM (ResponseInterrupt
                   (map (\<lambda>r. r\<lparr>sp_step := set_parallel_mode mode (sp_step r)\<rparr>) responses))
            else retM outputs)"
  have "?body cs' (w\<lparr>w_in_parallel := True\<rparr>) = ?body cs (w\<lparr>w_in_parallel := True\<rparr>)"
    by (rule bindM_cong_state) (simp_all add: agreeD(1) [OF agree_loop [OF assms]] w)
  then show "GroupSync_parallel cs' mode w = Group_parallel cs mode w"
    unfolding GroupSync_parallel_eq Group_parallel_def in_parallel_block by simp
qed

lemma agree_waiting_steps:
  "agree (Step_invoke_by_id exe sid app fid d t v) (StepSync_invoke_by_id exe sid app fid d t v)"
  "agree (Step_sleep_until exe sid until) (StepSync_sleep_until exe sid until)"
  "agree (Step_sleep now exe sid dur) (StepSync_sleep now exe sid dur)"
  "agree (Step_ai_infer exe sid ad body) (StepSync_ai_infer exe sid ad body)"
  "agree (Step_wait_for_event exe sid name if_exp timeout) (StepSync_wait_for_event exe sid name if_exp timeout)"
  "agree (Step_send_event exe (\<lambda>es. outside_effect (send es)) sid events) (StepSync_send_event exe (\<lambda>es. outside_effect (send es)) sid events)"
  by (rule agreeI; simp add: good_waiting_steps good_wait_for_event good_send_event good_effect
      invoke_by_id_sync sleep_until_sync ai_infer_sync wait_for_event_sync send_event_sync Step_sleep_def StepSync_sleep_def)+

lemma agree_invoke: "agree (Step_invoke exe sid f d t v) (StepSync_invoke exe sid f d t v)"
  unfolding Step_invoke_def StepSync_invoke_def
  by (intro agree_bind agree_waiting_steps agree_same good_raise_if)

lemma twin_agree: "twin_code exe m m' \<Longrightarrow> agree m m'"
proof (induction rule: twin_code.induct)
  case (parallel cs' cs k k' mode)
  then show ?case by (intro agree_bind agree_parallel) (auto simp: list_all2_conv_all_nth)
qed (auto intro: agree_bind agree_try agree_run agree_waiting_steps agree_invoke agree_same good_raise good_effect)

lemma call_sync_after_add:
  "Function_call_sync fn exe ctx fnid w = (case add_each_middleware (fn_middleware fn) w of
     (Inl r, w') \<Rightarrow> (Inl r, w') | (Inr u, w') \<Rightarrow> Function_call_sync (fn\<lparr>fn_middleware := []\<rparr>) exe ctx fnid w')"
  unfolding Function_call_sync_def by (simp add: seqM_def bindM_def retM_def split: prod.split sum.split)

text \<open>C5: A function behaves alike in both worlds.  Take a function with an async handler and one with the same middleware
  whose handler is the same code written with the non-async step methods and groups, at every depth.  When the middleware
  of the request is synchronous once that of the function is added (or a factory raises before that), the non-async call
  of the second gives the same result with the same effects as the async call of the first.\<close>

theorem function_call_sync_twin:
  assumes mw: "fn_middleware fn' = fn_middleware fn"
    and sel: "select_handler fn fnid = Inr ((h, True), ty)" "select_handler fn' fnid = Inr ((h', False), ty)"
    and twin: "\<And>ctx. twin_code exe (h exe ctx) (h' exe ctx)"
    and ok: "\<And>u w'. add_each_middleware (fn_middleware fn) w = (Inr u, w') \<Longrightarrow> sync_ok (w_mgr w')"
  shows "Function_call_sync fn' exe ctx fnid w = Function_call fn exe ctx fnid w"
proof (cases "add_each_middleware (fn_middleware fn) w")
  case (Pair r w')
  show ?thesis
  proof (cases r)
    case (Inr u)
    have sel': "select_handler (fn\<lparr>fn_middleware := []\<rparr>) fnid = Inr ((h, True), ty)"
      "select_handler (fn'\<lparr>fn_middleware := []\<rparr>) fnid = Inr ((h', False), ty)"
      using sel by simp_all
    have "Function_call_sync (fn'\<lparr>fn_middleware := []\<rparr>) exe ctx fnid w' = Function_call (fn\<lparr>fn_middleware := []\<rparr>) exe ctx fnid w'"
      by (rule call_sync [OF _ _ sel'(2,1)])
        (use Pair Inr ok twin_agree [OF twin] in \<open>auto intro: agreeD\<close>)
    with Pair Inr mw show ?thesis by (simp add: call_after_add [of fn] call_sync_after_add [of fn'])
  qed (use Pair mw in \<open>simp add: call_after_add [of fn] call_sync_after_add [of fn']\<close>)
qed

text \<open>A function that runs a group of a step and of an invocation, and then sleeps.\<close>

definition async_demo :: "string list exe \<Rightarrow> (string list, pyobj) step_m" where
  "async_demo exe = bindM (Group_parallel
     [Step_run exe ''a'' None (retM (PInt 1)), Step_invoke_by_id exe ''b'' None ''f'' PNone None None] PM_RACE)
     (\<lambda>vs. bindM (Step_sleep_until exe ''s'' 0) (\<lambda>_. retM (PList vs)))"

definition sync_demo :: "string list exe \<Rightarrow> (string list, pyobj) step_m" where
  "sync_demo exe = bindM (GroupSync_parallel
     [StepSync_run exe ''a'' None (retM (PInt 1)), StepSync_invoke_by_id exe ''b'' None ''f'' PNone None None] PM_RACE)
     (\<lambda>vs. bindM (StepSync_sleep_until exe ''s'' 0) (\<lambda>_. retM (PList vs)))"

theorem function_call_sync_twin_witness:
  "\<exists>r w'. Function_call_sync ((demo_fn (\<lambda>exe ctx. sync_demo exe))\<lparr>fn_handler := (\<lambda>exe ctx. sync_demo exe, False)\<rparr>)
      (demo_exe 0 None) demo_ctx ''app-fn'' ((demo_world [])\<lparr>w_step_context := False\<rparr>) = (Inr r, w')
    \<and> Function_call (demo_fn (\<lambda>exe ctx. async_demo exe)) (demo_exe 0 None) demo_ctx ''app-fn''
        ((demo_world [])\<lparr>w_step_context := False\<rparr>) = (Inr r, w')
    \<and> map_option (map (\<lambda>r. map_option (\<lambda>s. (si_id s, si_op s)) (cr_step r))) (cr_multi r)
        = Some [Some (''a'', OP_PLANNED), Some (''b'', OP_INVOKE)]"
proof -
  let ?w = "(demo_world [])\<lparr>w_step_context := False\<rparr>"
  let ?fn = "demo_fn (\<lambda>exe ctx. async_demo exe)"
  let ?fn' = "(demo_fn (\<lambda>exe ctx. sync_demo exe))\<lparr>fn_handler := (\<lambda>exe ctx. sync_demo exe, False)\<rparr>"
  have eq: "Function_call_sync ?fn' (demo_exe 0 None) demo_ctx ''app-fn'' ?w = Function_call ?fn (demo_exe 0 None) demo_ctx ''app-fn'' ?w"
  proof (rule function_call_sync_twin [where h = "\<lambda>exe ctx. async_demo exe" and h' = "\<lambda>exe ctx. sync_demo exe" and ty = None])
    show "twin_code (demo_exe 0 None) (async_demo (demo_exe 0 None)) (sync_demo (demo_exe 0 None))"
      unfolding async_demo_def sync_demo_def
      by (rule twin_code.parallel)
        (auto simp: less_Suc_eq nth_Cons' intro: twin_code.intros)
  qed (auto simp: demo_fn_def demo_opts_def select_handler_def sync_ok_def demo_world_def new_manager_def retM_def)
  have "case Function_call_sync ?fn' (demo_exe 0 None) demo_ctx ''app-fn'' ?w of
      (Inr r, w') \<Rightarrow> map_option (map (\<lambda>r. map_option (\<lambda>s. (si_id s, si_op s)) (cr_step r))) (cr_multi r)
        = Some [Some (''a'', OP_PLANNED), Some (''b'', OP_INVOKE)]
    | (Inl e, w') \<Rightarrow> False"
    by code_simp
  then show ?thesis unfolding eq by (auto split: prod.splits sum.splits)
qed

end
