(* ===== verification/Net.thy ===== *)
theory Net
  imports Func
begin

text \<open>
  \<open>_internal/net.py\<close>, \<open>config_lib.py\<close>, \<open>env_lib.py\<close> and \<open>client_lib/utils.py\<close>: headers, URLs, signed
  requests and responses, and the authenticated HTTP client.  The operating system's environment is a
  function from names to optional values.  The third-party package \<open>httpx\<close> is the record \<open>http\<close> of what
  the code uses of it: building a request, which may raise, and sending it, which may raise and
  changes the state \<open>'s\<close> of the network; \<open>hmac\<close> with SHA-256 is a function of the key and the message.
  The server timings are in theory \<open>Timings\<close>.
\<close>

section \<open>Environment variables\<close>

type_synonym environ = "string \<Rightarrow> string option"

definition getenv :: "environ \<Rightarrow> env_key \<Rightarrow> string option" where
  "getenv env k = env (env_key_value k)"

definition get_environment_name :: "environ \<Rightarrow> string option" where
  "get_environment_name env =
     or_str (or_str (or_str (getenv env EK_ENV) (getenv env EK_RAILWAY_GIT_BRANCH))
       (getenv env EK_RENDER_GIT_BRANCH)) (getenv env EK_VERCEL_GIT_BRANCH)"

definition is_false :: "environ \<Rightarrow> env_key \<Rightarrow> bool" where
  "is_false env k = (case getenv env k of None \<Rightarrow> False
     | Some val \<Rightarrow> py_lower (py_strip val) \<in> {''false'', ''0''})"

definition is_true :: "environ \<Rightarrow> env_key \<Rightarrow> bool" where
  "is_true env k = (case getenv env k of None \<Rightarrow> False
     | Some val \<Rightarrow> py_lower (py_strip val) \<in> {''true'', ''1''})"

definition is_truthy :: "environ \<Rightarrow> env_key \<Rightarrow> bool" where
  "is_truthy env k = (case getenv env k of None \<Rightarrow> False
     | Some val \<Rightarrow> py_lower (py_strip val) \<notin> {''false'', ''0'', ''''})"

definition get_int :: "environ \<Rightarrow> env_key \<Rightarrow> int option" where
  "get_int env k = (case getenv env k of None \<Rightarrow> None | Some val \<Rightarrow> py_int val)"

definition get_streaming :: "environ \<Rightarrow> env_key \<Rightarrow> streaming option" where
  "get_streaming env k = (case getenv env k of None \<Rightarrow> None
     | Some val \<Rightarrow> (let val = py_lower (py_strip val) in
         if val = ''allow'' then Some ST_FORCE else enum_of streaming_value streaming_members val))"

definition get_serve_origin :: "environ \<Rightarrow> string option \<Rightarrow> string option" where
  "get_serve_origin env code_value = (case code_value of Some v \<Rightarrow> Some v
     | None \<Rightarrow> if truthy_str (getenv env EK_SERVE_ORIGIN) then getenv env EK_SERVE_ORIGIN else None)"

definition get_serve_path :: "environ \<Rightarrow> string option \<Rightarrow> string option" where
  "get_serve_path env code_value = (case code_value of Some v \<Rightarrow> Some v
     | None \<Rightarrow> if truthy_str (getenv env EK_SERVE_PATH) then getenv env EK_SERVE_PATH else None)"

section \<open>URLs\<close>

text \<open>\<open>str.strip\<close> with an argument strips any of its characters, not the text.\<close>

definition parse_url :: "string \<Rightarrow> server_kind \<Rightarrow> exc + string" where
  "parse_url url mode =
     (let bare = strip_where (\<lambda>c. c \<in> set ''https://'') (strip_where (\<lambda>c. c \<in> set ''http://'') url) in
      if \<not> contains_str ''.'' url \<and> \<not> contains_str '':'' bare
      then Inl (Exception ''invalid URL: no domain or port'')
      else (let url = (if starts_with url ''http'' = False
                       then (if mode = SK_CLOUD then ''https://'' @ url else ''http://'' @ url) else url) in
            case urlparse url of
              Inl e \<Rightarrow> Inl (PyExc ''ValueError'' e)
            | Inr parsed \<Rightarrow> if u_netloc parsed = [] then Inl (Exception ''invalid URL'') else Inr (urlunparse parsed)))"

definition get_url :: "environ \<Rightarrow> env_key \<Rightarrow> server_kind \<Rightarrow> string option" where
  "get_url env k mode = (case getenv env k of None \<Rightarrow> None
     | Some val \<Rightarrow> (case parse_url (py_strip val) mode of Inl e \<Rightarrow> None | Inr url \<Rightarrow> Some url))"

definition get_api_origin :: "environ \<Rightarrow> string option \<Rightarrow> server_kind \<Rightarrow> exc + string" where
  "get_api_origin env constructor_param mode =
     (let origin = or_str (or_str (or_str constructor_param (get_url env EK_API_BASE_URL mode))
                     (get_url env EK_BASE_URL mode)) (get_url env EK_DEV mode);
          origin = (case origin of Some o' \<Rightarrow> o'
            | None \<Rightarrow> if mode = SK_DEV_SERVER then DEV_SERVER_ORIGIN else DEFAULT_API_ORIGIN)
      in parse_url origin mode)"

definition get_event_api_origin :: "environ \<Rightarrow> string option \<Rightarrow> server_kind \<Rightarrow> exc + string" where
  "get_event_api_origin env constructor_param mode =
     (let origin = or_str (or_str (or_str constructor_param (get_url env EK_EVENT_API_BASE_URL mode))
                     (get_url env EK_BASE_URL mode)) (get_url env EK_DEV mode);
          origin = (case origin of Some o' \<Rightarrow> o'
            | None \<Rightarrow> if mode = SK_DEV_SERVER then DEV_SERVER_ORIGIN else DEFAULT_EVENT_API_ORIGIN)
      in parse_url origin mode)"

text \<open>The left is raised by \<open>urlparse\<close>.\<close>

definition create_serve_url ::
  "environ \<Rightarrow> string option \<Rightarrow> string \<Rightarrow> string option \<Rightarrow> string option \<Rightarrow> exc + string" where
  "create_serve_url env public_path request_url serve_origin serve_path =
     (let serve_origin = get_serve_origin env serve_origin; serve_path = get_serve_path env serve_path in
      case urlparse request_url of
        Inl e \<Rightarrow> Inl (PyExc ''ValueError'' e)
      | Inr parsed \<Rightarrow>
          bindE (case serve_origin of
                   None \<Rightarrow> Inr (u_scheme parsed, u_netloc parsed)
                 | Some o' \<Rightarrow>
                     if contains_str ''://'' o' then
                       (case urlparse o' of
                          Inl e \<Rightarrow> Inl (PyExc ''ValueError'' e)
                        | Inr po \<Rightarrow> Inr (if u_scheme po \<noteq> [] then u_scheme po else u_scheme parsed,
                                        if u_netloc po \<noteq> [] then u_netloc po else u_netloc parsed))
                     else Inr (''https'', o')) (\<lambda>(new_scheme, new_netloc).
          let new_path = (case serve_path of Some p \<Rightarrow> p | None \<Rightarrow> u_path parsed);
              new_path = (case public_path of Some p \<Rightarrow> p | None \<Rightarrow> new_path)
          in Inr (urlunparse \<lparr>u_scheme = new_scheme, u_netloc = new_netloc, u_path = new_path,
                   u_params = [], u_query = [], u_fragment = []\<rparr>)))"

section \<open>Headers\<close>

type_synonym headers = "(string, string) dict"

text \<open>\<open>version\<close> is \<open>const.VERSION\<close>.\<close>

definition create_headers ::
  "string \<Rightarrow> string option \<Rightarrow> framework option \<Rightarrow> server_kind option \<Rightarrow> headers" where
  "create_headers version env framework server_kind =
     (let sdk = ''inngest-'' @ LANGUAGE @ '':v'' @ version;
          headers = [(header_key_value HK_CONTENT_TYPE, ''application/json''), (header_key_value HK_SDK, sdk),
             (header_key_value HK_REQUEST_VERSION, PREFERRED_EXECUTION_VERSION),
             (header_key_value HK_USER_AGENT, sdk)];
          headers = (case env of None \<Rightarrow> headers | Some e \<Rightarrow> dset headers (header_key_value HK_ENV) e);
          headers = (case framework of None \<Rightarrow> headers
            | Some f \<Rightarrow> dset headers (header_key_value HK_FRAMEWORK) (framework_value f))
      in case server_kind of None \<Rightarrow> headers
         | Some k \<Rightarrow> dset headers (header_key_value HK_EXPECTED_SERVER_KIND) (server_kind_value k))"

text \<open>A header value is one text or a list of texts, whose first is taken (\<open>v[0]\<close> raises on none).\<close>

datatype header_in = HStr string | HList "string list"

fun normalize_from :: "headers \<Rightarrow> (string \<times> header_in) list \<Rightarrow> exc + headers" where
  "normalize_from acc [] = Inr acc"
| "normalize_from acc ((k, HStr v) # hs) = normalize_from (dset acc (py_lower k) v) hs"
| "normalize_from acc ((k, HList (v # vs)) # hs) = normalize_from (dset acc (py_lower k) v) hs"
| "normalize_from acc ((k, HList []) # hs) = Inl (PyExc ''IndexError'' ''list index out of range'')"

definition normalize_headers :: "(string \<times> header_in) list \<Rightarrow> exc + headers" where
  "normalize_headers headers = normalize_from [] headers"

section \<open>Signatures\<close>

text \<open>\<open>hmac\<close> is the hexadecimal HMAC-SHA-256 of a message under a key; \<open>update\<close> appends to the message.\<close>

type_synonym hmac = "bytes \<Rightarrow> bytes \<Rightarrow> string"

definition sign_with :: "hmac \<Rightarrow> bytes \<Rightarrow> string \<Rightarrow> int \<Rightarrow> string" where
  "sign_with hmac body signing_key unix_ms =
     ''t='' @ str_of_int unix_ms @ ''&s=''
       @ hmac (utf8 (remove_signing_key_prefix signing_key)) (body @ utf8 (str_of_int unix_ms))"

text \<open>\<open>now_s\<close> is \<open>round(time.time())\<close>; the left is raised.\<close>

definition sign_request ::
  "hmac \<Rightarrow> (bytes \<Rightarrow> string + bytes) \<Rightarrow> int \<Rightarrow> bytes \<Rightarrow> string \<Rightarrow> int option \<Rightarrow> exc + string" where
  "sign_request hmac loads_jcs now_s body signing_key unix_ms =
     (let unix_ms = (case unix_ms of None \<Rightarrow> now_s | Some t \<Rightarrow> t) in
      bindE (canonicalize loads_jcs body) (\<lambda>canonicalized. Inr (sign_with hmac canonicalized signing_key unix_ms)))"

definition sign_response :: "hmac \<Rightarrow> int \<Rightarrow> bytes \<Rightarrow> string \<Rightarrow> int option \<Rightarrow> string" where
  "sign_response hmac now_s body signing_key unix_ms =
     sign_with hmac body signing_key (case unix_ms of None \<Rightarrow> now_s | Some t \<Rightarrow> t)"

definition is_ascii :: "bytes \<Rightarrow> bool" where
  "is_ascii s = list_all (\<lambda>c. (of_char c :: nat) < 128) s"

text \<open>
  The outer left is raised: \<open>int\<close> refuses a timestamp that is not a number, and \<open>compare_digest\<close>
  refuses a text that is not ASCII.  The inner left is returned.
\<close>

definition validate_sig ::
  "hmac \<Rightarrow> bytes \<Rightarrow> headers \<Rightarrow> server_kind \<Rightarrow> string option \<Rightarrow> exc + (exc + string option)" where
  "validate_sig hmac body headers mode signing_key =
     (if mode = SK_DEV_SERVER then Inr (Inr None)
      else (case dget headers (header_key_value HK_SIGNATURE) of
        None \<Rightarrow> Inr (Inl (LibErr C_HeaderMissingError
          (''cannot validate signature in production mode without a '' @ header_key_value HK_SIGNATURE @ '' header'')))
      | Some sig_header \<Rightarrow>
          bindE (case qs_first sig_header ''t'' of
                   None \<Rightarrow> Inr None
                 | Some t \<Rightarrow> (case py_int t of
                      None \<Rightarrow> Inl (PyExc ''ValueError'' (''invalid literal for int() with base 10: '' @ t))
                    | Some n \<Rightarrow> Inr (Some n))) (\<lambda>timestamp.
          case signing_key of
            None \<Rightarrow> Inr (Inl (LibErr C_SigningKeyMissingError
                     ''cannot validate signature in production mode without a signing key''))
          | Some key \<Rightarrow>
              (case qs_first sig_header ''s'' of
                 None \<Rightarrow> Inr (Inl (Exception (header_key_value HK_SIGNATURE @ '' header is malformed'')))
               | Some signature \<Rightarrow>
                   (let stamp = (case timestamp of None \<Rightarrow> [] | Some n \<Rightarrow> if n \<noteq> 0 then utf8 (str_of_int n) else []);
                        digest = hmac (utf8 (remove_signing_key_prefix key)) (body @ stamp)
                    in if \<not> is_ascii signature
                       then Inl (PyExc ''TypeError'' ''comparing strings with non-ASCII characters is not supported'')
                       else if signature \<noteq> digest then Inr (Inl (LibErr C_SigVerificationFailedError []))
                       else Inr (Inr signing_key))))))"

definition validate_request_sig ::
  "hmac \<Rightarrow> (bytes \<Rightarrow> string + bytes) \<Rightarrow> bytes \<Rightarrow> headers \<Rightarrow> server_kind \<Rightarrow> string option \<Rightarrow> string option
    \<Rightarrow> exc + (exc + string option)" where
  "validate_request_sig hmac loads_jcs body headers mode signing_key signing_key_fallback =
     (case canonicalize loads_jcs body of
        Inl e \<Rightarrow> Inr (Inl e)
      | Inr canonicalized \<Rightarrow>
          bindE (validate_sig hmac canonicalized headers mode signing_key) (\<lambda>err.
          if isl err \<and> signing_key_fallback \<noteq> None
          then validate_sig hmac canonicalized headers mode signing_key_fallback
          else Inr err))"

definition validate_response_sig ::
  "hmac \<Rightarrow> bytes \<Rightarrow> headers \<Rightarrow> server_kind \<Rightarrow> string \<Rightarrow> exc + (exc + string option)" where
  "validate_response_sig hmac body headers mode signing_key = validate_sig hmac body headers mode (Some signing_key)"

section \<open>The HTTP client\<close>

text \<open>A timeout is a number of microseconds.\<close>

record http_request =
  hq_method :: string
  hq_url :: string
  hq_headers :: headers
  hq_json :: "pyobj option"
  hq_timeout :: "int option"
  hq_params :: "(string \<times> string) list"
  hq_content :: "bytes option"

record http_response =
  hp_status :: int
  hp_text :: string
  hp_json :: "exc + pyobj"
  hp_content :: bytes

record 's http =
  hx_version :: string
  hx_sha256 :: "bytes \<Rightarrow> string"
  hx_build :: "http_request \<Rightarrow> exc + http_request"
  hx_send :: "http_request \<Rightarrow> ('s, exc, http_response) M"
  hx_send_sync :: "http_request \<Rightarrow> ('s, exc, http_response) M"
  hx_same_thread :: bool

text \<open>\<open>AuthenticatedHTTPClient\<close>.\<close>

record auth_client =
  ac_env :: "string option"
  ac_signing_key :: "string option"
  ac_signing_key_fallback :: "string option"
  ac_default_timeout :: int

definition timeout_us :: "duration option \<Rightarrow> int" where
  "timeout_us d = (case d of None \<Rightarrow> 30000000 | Some (Millis ms) \<Rightarrow> ms * 1000 | Some (Timedelta us) \<Rightarrow> us)"

definition mk_auth_client :: "string option \<Rightarrow> duration option \<Rightarrow> string option \<Rightarrow> string option \<Rightarrow> auth_client" where
  "mk_auth_client env request_timeout signing_key signing_key_fallback =
     \<lparr>ac_env = env, ac_signing_key = signing_key, ac_signing_key_fallback = signing_key_fallback,
      ac_default_timeout = timeout_us request_timeout\<rparr>"

text \<open>
  \<open>ThreadAwareAsyncHTTPClient\<close>: the thread that it was created in, once \<open>initialize\<close> has run.  The field \<open>hx_same_thread\<close>
  is the answer of \<open>is_same_thread\<close> for the client in use, which its owners initialize when they create it.
\<close>

record thread_aware_client =
  ta_creation_thread_id :: "int option"

definition is_same_thread :: "int \<Rightarrow> thread_aware_client \<Rightarrow> exc + bool" where
  "is_same_thread current c = (case ta_creation_thread_id c of
     None \<Rightarrow> Inl (Exception ''did not initialize ThreadAwareAsyncHTTPClient'')
   | Some t \<Rightarrow> Inr (t = current))"

definition initialize :: "int \<Rightarrow> thread_aware_client \<Rightarrow> thread_aware_client" where
  "initialize current c = c\<lparr>ta_creation_thread_id := Some current\<rparr>"

lemma initialize_same_thread: "is_same_thread t (initialize current c) = Inr (t = current)"
  by (auto simp: is_same_thread_def initialize_def)

text \<open>
  In another thread than the one the async client was created in, the request goes through the
  synchronous client, directly or in an executor of the running loop.
\<close>

definition fetch_with_thready_safety :: "'s http \<Rightarrow> http_request \<Rightarrow> ('s, exc, http_response) M" where
  "fetch_with_thready_safety http request =
     (if hx_same_thread http = True then hx_send http request else hx_send_sync http request)"

definition with_bearer :: "(bytes \<Rightarrow> string) \<Rightarrow> string \<Rightarrow> http_request \<Rightarrow> exc + http_request" where
  "with_bearer sha256 key request = bindE (hash_signing_key sha256 key) (\<lambda>h.
     Inr (request\<lparr>hq_headers := dset (hq_headers request) (header_key_value HK_AUTHORIZATION) (''Bearer '' @ h)\<rparr>))"

definition request_failed :: "http_request \<Rightarrow> exc \<Rightarrow> exc" where
  "request_failed request err = Exception (''Failed request to '' @ hq_url request @ '': '' @ exc_str err)"

text \<open>An error of the first \<open>hash_signing_key\<close> is raised; what the \<open>try\<close> block raises is returned.\<close>

definition fetch_with_auth_fallback ::
  "'s http \<Rightarrow> http_request \<Rightarrow> string option \<Rightarrow> string option \<Rightarrow> ('s, exc, exc + http_response) M" where
  "fetch_with_auth_fallback http request signing_key signing_key_fallback =
     bindM (raise_ifM (\<lambda>e. e) (case signing_key of None \<Rightarrow> Inr request
       | Some key \<Rightarrow> with_bearer (hx_sha256 http) key request)) (\<lambda>request.
     catchM
       (bindM (fetch_with_thready_safety http request) (\<lambda>res.
        case signing_key_fallback of
          Some fallback \<Rightarrow>
            if hp_status res \<in> {403, 401}
            then bindM (raise_ifM (\<lambda>e. e) (with_bearer (hx_sha256 http) fallback request)) (\<lambda>request.
                 bindM (fetch_with_thready_safety http request) (\<lambda>res. retM (Inr res)))
            else retM (Inr res)
        | None \<Rightarrow> retM (Inr res)))
       (\<lambda>err. retM (Inl (request_failed request err))))"

definition fetch_with_auth_fallback_sync ::
  "'s http \<Rightarrow> http_request \<Rightarrow> string option \<Rightarrow> string option \<Rightarrow> ('s, exc, exc + http_response) M" where
  "fetch_with_auth_fallback_sync http request signing_key signing_key_fallback =
     bindM (raise_ifM (\<lambda>e. e) (case signing_key of None \<Rightarrow> Inr request
       | Some key \<Rightarrow> with_bearer (hx_sha256 http) key request)) (\<lambda>request.
     catchM
       (bindM (hx_send_sync http request) (\<lambda>res.
        case signing_key_fallback of
          Some fallback \<Rightarrow>
            if hp_status res \<in> {403, 401}
            then bindM (raise_ifM (\<lambda>e. e) (with_bearer (hx_sha256 http) fallback request)) (\<lambda>request.
                 bindM (hx_send_sync http request) (\<lambda>res. retM (Inr res)))
            else retM (Inr res)
        | None \<Rightarrow> retM (Inr res)))
       (\<lambda>err. retM (Inl (request_failed request err))))"

definition check_status :: "exc + http_response \<Rightarrow> exc + http_response" where
  "check_status r = (case r of Inl e \<Rightarrow> Inl e
     | Inr res \<Rightarrow> if hp_status res \<ge> 400
                  then Inl (Exception (''HTTP error: '' @ str_of_int (hp_status res) @ '' '' @ hp_text res))
                  else Inr res)"

definition default_headers :: "'s http \<Rightarrow> auth_client \<Rightarrow> headers" where
  "default_headers http c = create_headers (hx_version http) (ac_env c) None None"

definition http_get :: "'s http \<Rightarrow> auth_client \<Rightarrow> string \<Rightarrow> bool \<Rightarrow> headers option \<Rightarrow> ('s, exc, exc + http_response) M" where
  "http_get http c url auth headers =
     bindM (raise_ifM (\<lambda>e. e) (hx_build http \<lparr>hq_method = ''GET'', hq_url = url,
        hq_headers = dmerge (default_headers http c) (case headers of None \<Rightarrow> [] | Some h \<Rightarrow> h),
        hq_json = None, hq_timeout = None, hq_params = [], hq_content = None\<rparr>)) (\<lambda>req.
     bindM (if auth then fetch_with_auth_fallback http req (ac_signing_key c) (ac_signing_key_fallback c)
            else bindM (fetch_with_thready_safety http req) (\<lambda>res. retM (Inr res))) (\<lambda>res.
     retM (check_status res)))"

definition http_get_sync :: "'s http \<Rightarrow> auth_client \<Rightarrow> string \<Rightarrow> bool \<Rightarrow> headers option \<Rightarrow> ('s, exc, exc + http_response) M" where
  "http_get_sync http c url auth headers =
     bindM (raise_ifM (\<lambda>e. e) (hx_build http \<lparr>hq_method = ''GET'', hq_url = url,
        hq_headers = dmerge (default_headers http c) (case headers of None \<Rightarrow> [] | Some h \<Rightarrow> h),
        hq_json = None, hq_timeout = None, hq_params = [], hq_content = None\<rparr>)) (\<lambda>req.
     bindM (if auth then fetch_with_auth_fallback_sync http req (ac_signing_key c) (ac_signing_key_fallback c)
            else bindM (hx_send_sync http req) (\<lambda>res. retM (Inr res))) (\<lambda>res.
     retM (check_status res)))"

definition http_post :: "'s http \<Rightarrow> auth_client \<Rightarrow> string \<Rightarrow> pyobj \<Rightarrow> ('s, exc, exc + http_response) M" where
  "http_post http c url body =
     bindM (raise_ifM (\<lambda>e. e) (hx_build http \<lparr>hq_method = ''POST'', hq_url = url,
        hq_headers = default_headers http c, hq_json = Some body, hq_timeout = Some (ac_default_timeout c),
        hq_params = [], hq_content = None\<rparr>)) (\<lambda>req.
     bindM (fetch_with_auth_fallback http req (ac_signing_key c) (ac_signing_key_fallback c)) (\<lambda>res.
     retM (check_status res)))"

definition http_post_sync :: "'s http \<Rightarrow> auth_client \<Rightarrow> string \<Rightarrow> pyobj \<Rightarrow> ('s, exc, exc + http_response) M" where
  "http_post_sync http c url body =
     bindM (raise_ifM (\<lambda>e. e) (hx_build http \<lparr>hq_method = ''POST'', hq_url = url,
        hq_headers = default_headers http c, hq_json = Some body, hq_timeout = Some (ac_default_timeout c),
        hq_params = [], hq_content = None\<rparr>)) (\<lambda>req.
     bindM (fetch_with_auth_fallback_sync http req (ac_signing_key c) (ac_signing_key_fallback c)) (\<lambda>res.
     retM (check_status res)))"

section \<open>A signature header reads back\<close>

definition plain_query :: "string \<Rightarrow> bool" where
  "plain_query s = list_all (\<lambda>c. c \<notin> set ''%+&='') s"

lemma unquote_plain: "plain_query s \<Longrightarrow> unquote_plus s = s"
  by (induction s) (auto simp: plain_query_def unquote_plus_plain)

lemma digit_plain: "is_digit c \<Longrightarrow> c \<notin> set ''%+&=''"
  by (auto simp: is_digit_def)

lemma str_of_nat_plain: "plain_query (str_of_nat n)"
  unfolding plain_query_def
  by (rule list.pred_mono_strong [OF str_of_nat_digits]) (rule digit_plain)

lemma str_of_nat_ascii: "is_ascii (str_of_nat n)"
  using str_of_nat_digits [of n] by (auto simp: is_ascii_def list_all_iff is_digit_def Let_def)

lemma utf8_is_ascii: "is_ascii s \<Longrightarrow> utf8 s = s"
  by (simp add: is_ascii_def utf8_ascii)

definition is_hex_digest :: "string \<Rightarrow> bool" where
  "is_hex_digest s \<longleftrightarrow> s \<noteq> [] \<and> list_all (\<lambda>c. hex_val c \<noteq> None) s"

lemma hex_char_plain: "hex_val c \<noteq> None \<Longrightarrow> c \<notin> set ''%+&='' \<and> (of_char c :: nat) < 128"
  by (auto simp: hex_val_def Let_def split: if_splits)

lemma hex_digest_plain: "is_hex_digest s \<Longrightarrow> plain_query s \<and> is_ascii s"
  using hex_char_plain by (auto simp: is_hex_digest_def plain_query_def is_ascii_def list_all_iff)

lemma parse_signature:
  assumes t: "plain_query t" "t \<noteq> []" and s: "plain_query s" "s \<noteq> []"
  shows "parse_qsl (''t='' @ t @ ''&s='' @ s) = [(''t'', t), (''s'', s)]"
proof -
  have "CHR ''&'' \<notin> set (''t='' @ t)" using t by (auto simp: plain_query_def list_all_iff)
  from split_all_append [OF this, of "''s='' @ s"]
  have "split_all (CHR ''&'') (''t='' @ t @ ''&s='' @ s) = (''t='' @ t) # split_all (CHR ''&'') (''s='' @ s)"
    by simp
  moreover have "split_all (CHR ''&'') (''s='' @ s) = [''s='' @ s]"
    by (rule split_all_none) (use s in \<open>auto simp: plain_query_def list_all_iff\<close>)
  moreover have "split_first (CHR ''='') (''t='' @ t) = (''t'', Some t)"
    "split_first (CHR ''='') (''s='' @ s) = (''s'', Some s)"
    using split_first_append [of "CHR ''=''" "''t''" t] split_first_append [of "CHR ''=''" "''s''" s] by simp_all
  ultimately show ?thesis
    using t s by (simp add: parse_qsl_def map_filter_simps unquote_plain)
qed

lemma qs_first_sign_with:
  fixes hmac :: hmac
  assumes digest: "\<And>k m. is_hex_digest (hmac k m)" and t: "0 < t"
  shows "qs_first (sign_with hmac body key t) ''t'' = Some (str_of_nat (nat t))"
    "qs_first (sign_with hmac body key t) ''s''
      = Some (hmac (utf8 (remove_signing_key_prefix key)) (body @ str_of_nat (nat t)))"
proof -
  let ?d = "hmac (utf8 (remove_signing_key_prefix key)) (body @ str_of_nat (nat t))"
  have "sign_with hmac body key t = ''t='' @ str_of_nat (nat t) @ ''&s='' @ ?d"
    using t by (simp add: sign_with_def str_of_int_def utf8_is_ascii str_of_nat_ascii)
  moreover have "parse_qsl (''t='' @ str_of_nat (nat t) @ ''&s='' @ ?d) = [(''t'', str_of_nat (nat t)), (''s'', ?d)]"
    by (rule parse_signature) (use digest hex_digest_plain str_of_nat_plain in \<open>auto simp: is_hex_digest_def\<close>)
  ultimately show "qs_first (sign_with hmac body key t) ''t'' = Some (str_of_nat (nat t))"
    "qs_first (sign_with hmac body key t) ''s'' = Some ?d"
    by (simp_all add: qs_first_def)
qed

lemma validate_sign_with:
  fixes hmac :: hmac
  assumes digest: "\<And>k m. is_hex_digest (hmac k m)" and t: "0 < t" and mode: "mode = SK_CLOUD"
    and h: "dget headers (header_key_value HK_SIGNATURE) = Some (sign_with hmac body key t)"
  shows "validate_sig hmac body headers mode (Some k) =
    (if hmac (utf8 (remove_signing_key_prefix key)) (body @ str_of_nat (nat t))
        = hmac (utf8 (remove_signing_key_prefix k)) (body @ str_of_nat (nat t))
     then Inr (Inr (Some k)) else Inr (Inl (LibErr C_SigVerificationFailedError [])))"
  using t hex_digest_plain [OF digest] h
  by (simp add: validate_sig_def mode qs_first_sign_with [OF digest t] py_int_str_of_nat str_of_int_def
      utf8_is_ascii str_of_nat_ascii Let_def)

text \<open>A signed request is accepted.  In cloud mode, a request whose signature header the server made with
  the signing key or with the fallback key over the same body passes validation, and one of the two
  configured keys is returned.\<close>

lemma sign_validate_roundtrip:
  fixes hmac :: hmac
  assumes digest: "\<And>k m. is_hex_digest (hmac k m)" and t: "0 < t"
    and sig: "sign_request hmac loads_jcs now body key (Some t) = Inr sig"
    and h: "dget headers (header_key_value HK_SIGNATURE) = Some sig"
    and key: "key = sk \<or> fb = Some key"
  shows "\<exists>k \<in> {Some sk, fb}. validate_request_sig hmac loads_jcs body headers SK_CLOUD (Some sk) fb = Inr (Inr k)"
proof -
  obtain c where c: "canonicalize loads_jcs body = Inr c" and s: "sig = sign_with hmac c key t"
    using sig by (cases "canonicalize loads_jcs body") (auto simp: sign_request_def)
  note v = validate_sign_with [OF digest t refl h [unfolded s]]
  show ?thesis
  proof (cases "hmac (utf8 (remove_signing_key_prefix key)) (c @ str_of_nat (nat t))
        = hmac (utf8 (remove_signing_key_prefix sk)) (c @ str_of_nat (nat t))")
    case True
    then show ?thesis using v [of sk] by (simp add: validate_request_sig_def c)
  next
    case False
    with key have fb: "fb = Some key" by auto
    with False show ?thesis
      using v [of sk] v [of key] by (simp add: validate_request_sig_def c)
  qed
qed

text \<open>A digest function for the witnesses: the length of the key and of the message, in unary.\<close>

definition toy_hmac :: hmac where
  "toy_hmac k m = ''f'' @ replicate (length k) (CHR ''a'') @ replicate (length m) (CHR ''b'')"

lemma toy_hmac_hex: "is_hex_digest (toy_hmac k m)"
  by (auto simp: is_hex_digest_def toy_hmac_def list_all_iff hex_val_def)

lemma sign_validate_roundtrip_witness:
  "\<exists>k \<in> {Some ''signkey-prod-12'', Some ''signkey-prod-345''}.
    validate_request_sig toy_hmac Inr ''{}'' [(header_key_value HK_SIGNATURE, sign_with toy_hmac ''{}'' ''signkey-prod-345'' 7)]
      SK_CLOUD (Some ''signkey-prod-12'') (Some ''signkey-prod-345'') = Inr (Inr k)"
  by (rule sign_validate_roundtrip [OF toy_hmac_hex, where t = 7 and key = "''signkey-prod-345''" and now = 0])
     (simp_all add: sign_request_def canonicalize_def)

text \<open>The header carries the digest of the body and of the header's timestamp, if it counts one.\<close>

definition signed_with :: "hmac \<Rightarrow> bytes \<Rightarrow> string \<Rightarrow> string \<Rightarrow> bool" where
  "signed_with hmac body sig_header key =
     (case qs_first sig_header ''s'' of None \<Rightarrow> False
      | Some s \<Rightarrow> s = hmac (utf8 (remove_signing_key_prefix key)) (body @
          (case qs_first sig_header ''t'' of None \<Rightarrow> []
           | Some t \<Rightarrow> (case py_int t of None \<Rightarrow> []
                | Some n \<Rightarrow> if n = 0 then [] else utf8 (str_of_int n)))))"

lemma validate_sig_accepts:
  "validate_sig hmac body headers SK_CLOUD key = Inr (Inr k) \<Longrightarrow>
   \<exists>key' sig. key = Some key' \<and> k = key \<and> dget headers (header_key_value HK_SIGNATURE) = Some sig
     \<and> signed_with hmac body sig key'"
  by (auto simp: validate_sig_def signed_with_def bindE_def Let_def split: option.splits sum.splits if_splits)

text \<open>C28: Nothing else is accepted.  When validation in cloud mode succeeds, the returned key is one of the two
  configured keys, and the signature in the header is that key's digest of the canonical body followed by
  the header's timestamp.\<close>

theorem validate_request_sig_sound:
  assumes "validate_request_sig hmac loads_jcs body headers SK_CLOUD sk fb = Inr (Inr k)"
  shows "\<exists>key sig c. k = Some key \<and> k \<in> {sk, fb} \<and> dget headers (header_key_value HK_SIGNATURE) = Some sig
    \<and> canonicalize loads_jcs body = Inr c \<and> signed_with hmac c sig key"
proof -
  obtain c where c: "canonicalize loads_jcs body = Inr c"
    using assms by (cases "canonicalize loads_jcs body") (auto simp: validate_request_sig_def)
  from assms obtain key where v: "validate_sig hmac c headers SK_CLOUD key = Inr (Inr k)" and "key \<in> {sk, fb}"
    by (auto simp: validate_request_sig_def c bindE_def split: sum.splits if_splits)
  with validate_sig_accepts [OF v] c show ?thesis by auto
qed

theorem validate_request_sig_sound_witness:
  "\<exists>key sig c. Some ''k'' = Some key \<and> Some ''k'' \<in> {Some ''k'', None}
    \<and> dget [(header_key_value HK_SIGNATURE, ''s=fabb'')] (header_key_value HK_SIGNATURE) = Some sig
    \<and> canonicalize Inr ''{}'' = Inr c \<and> signed_with toy_hmac c sig key"
  by (rule validate_request_sig_sound)
     (simp add: validate_request_sig_def canonicalize_def validate_sig_def qs_first_def parse_qsl_def
      map_filter_simps toy_hmac_def remove_signing_key_prefix_def signkey_prefix_length_def utf8_def utf8_char_def
      is_ascii_def unquote_plus_plain)

text \<open>The timestamp of a signature header that is not a number is not answered with an error: validation
  raises \<open>ValueError\<close>, before it looks at the signature.\<close>

lemma bad_timestamp_raises:
  assumes "dget headers (header_key_value HK_SIGNATURE) = Some sig" and "qs_first sig ''t'' = Some t"
    and "py_int t = None" and "canonicalize loads_jcs body = Inr c"
  shows "validate_request_sig hmac loads_jcs body headers SK_CLOUD sk fb
    = Inl (PyExc ''ValueError'' (''invalid literal for int() with base 10: '' @ t))"
  using assms by (simp add: validate_request_sig_def validate_sig_def)

lemma bad_timestamp_raises_example:
  "validate_request_sig toy_hmac Inr ''{}'' [(header_key_value HK_SIGNATURE, ''t=x&s=1'')] SK_CLOUD (Some ''k'') None
    = Inl (PyExc ''ValueError'' (''invalid literal for int() with base 10: '' @ ''x''))"
proof -
  have "qs_first ''t=x&s=1'' ''t'' = Some ''x''"
    using parse_signature [of "''x''" "''1''"] by (simp add: qs_first_def plain_query_def)
  moreover have "py_int ''x'' = None"
    by (simp add: py_int_def strip_where_def is_space_def is_digit_def)
  ultimately show ?thesis
    by (intro bad_timestamp_raises) (simp_all add: canonicalize_def)
qed

section \<open>Authenticated requests\<close>

text \<open>The hash of a key that is a valid hexadecimal text with or without the usual prefix exists.\<close>

lemma with_bearer_Inr: "hash_signing_key sha256 key = Inr h \<Longrightarrow> with_bearer sha256 key req =
    Inr (req\<lparr>hq_headers := dset (hq_headers req) (header_key_value HK_AUTHORIZATION) (''Bearer '' @ h)\<rparr>)"
  by (simp add: with_bearer_def)















end
