(* ===== verification/Client.thy ===== *)
theory Client
  imports Net
begin

text \<open>
  \<open>_internal/client_lib/client.py\<close>: the client's construction from its arguments and the environment,
  sending events with retries, fetching a run's batch and steps, and creating functions.  The network is
  the \<open>http\<close> record over the outside state, on which the middleware acts too; the clock, the random
  seed and the pause between attempts are arguments.  Logging is not modelled.
\<close>

section \<open>Construction\<close>

definition get_mode :: "environ \<Rightarrow> bool option \<Rightarrow> server_kind" where
  "get_mode env is_production = (case is_production of
      Some True \<Rightarrow> SK_CLOUD
    | Some False \<Rightarrow> SK_DEV_SERVER
    | None \<Rightarrow> if is_truthy env EK_DEV then SK_DEV_SERVER else SK_CLOUD)"

record 'u inngest_args =
  ia_api_base_url :: "string option"
  ia_app_id :: string
  ia_app_version :: "string option"
  ia_env :: "string option"
  ia_event_api_base_url :: "string option"
  ia_event_key :: "string option"
  ia_is_production :: "bool option"
  ia_middleware :: "'u uninit list option"
  ia_request_timeout :: "duration option"
  ia_serializer :: "serializer option"
  ia_signing_key :: "string option"

definition Inngest_init :: "environ \<Rightarrow> 'u inngest_args \<Rightarrow> exc + 'u client" where
  "Inngest_init env args =
     (let mode = get_mode env (ia_is_production args) in
      bindE (get_api_origin env (ia_api_base_url args) mode) (\<lambda>api_origin.
      bindE (get_event_api_origin env (ia_event_api_base_url args) mode) (\<lambda>event_api_origin.
      Inr \<lparr>cl_app_id = ia_app_id args, cl_app_version = ia_app_version args, cl_api_origin = api_origin,
           cl_env = or_str (ia_env args) (get_environment_name env), cl_event_api_origin = event_api_origin,
           cl_event_key = or_str (ia_event_key args) (getenv env EK_EVENT_KEY),
           cl_is_production = (mode = SK_CLOUD),
           cl_middleware = (case ia_middleware args of None \<Rightarrow> [] | Some ms \<Rightarrow> ms), cl_mode = mode,
           cl_serializer = ia_serializer args,
           cl_signing_key = or_str (ia_signing_key args) (getenv env EK_SIGNING_KEY),
           cl_signing_key_fallback = getenv env EK_SIGNING_KEY_FALLBACK,
           cl_httpx_timeout = timeout_us (ia_request_timeout args)\<rparr>)))"

text \<open>The HTTP client is created without the request timeout, so its default applies.\<close>

definition client_http :: "'u client \<Rightarrow> auth_client" where
  "client_http c = mk_auth_client (cl_env c) None (cl_signing_key c) (cl_signing_key_fallback c)"

definition add_client_middleware :: "'u uninit \<Rightarrow> 'u client \<Rightarrow> 'u client" where
  "add_client_middleware m c = c\<lparr>cl_middleware := cl_middleware c @ [m]\<rparr>"

section \<open>Creating functions\<close>

text \<open>The options as given, with \<open>fo_local_id\<close> the given identifier and \<open>fo_name\<close> the given name or nothing.\<close>

definition create_function :: "'u client \<Rightarrow> 'u function_opts \<Rightarrow> trigger list \<Rightarrow> 'u fn_handler
    \<Rightarrow> string option \<Rightarrow> 'u uninit list option \<Rightarrow> exc + 'u inngest_fn" where
  "create_function c opts trigger func output_type middleware =
     mk_Function (opts\<lparr>fo_fully_qualified_id := cl_app_id c @ ''-'' @ fo_local_id opts,
                       fo_name := (if fo_name opts \<noteq> [] then fo_name opts else fo_local_id opts)\<rparr>)
       trigger func output_type middleware"

section \<open>Fetching from the API\<close>

text \<open>\<open>urljoin\<close> raises \<open>ValueError\<close>.\<close>

definition join_url :: "string \<Rightarrow> string \<Rightarrow> exc + string" where
  "join_url origin path = (case urljoin_rooted origin path of Inl e \<Rightarrow> Inl (PyExc ''ValueError'' e) | Inr u \<Rightarrow> Inr u)"

definition batch_of :: "http_response \<Rightarrow> exc + event list" where
  "batch_of res = bindE (hp_json res) (\<lambda>data.
     case data of PList es \<Rightarrow> map_sum_list Event_validate es
     | _ \<Rightarrow> Inl (LibErr C_BodyInvalidError ''batch data is not an array''))"

definition steps_of :: "http_response \<Rightarrow> exc + (string, pyobj) dict" where
  "steps_of res = bindE (hp_json res) (\<lambda>data.
     case data of PDict d \<Rightarrow> Inr d
     | _ \<Rightarrow> Inl (LibErr C_BodyInvalidError ''step data is not an object''))"

definition get_batch :: "'s http \<Rightarrow> 'u client \<Rightarrow> string \<Rightarrow> ('s, exc, exc + event list) M" where
  "get_batch http c run_id =
     bindM (raise_ifM (\<lambda>e. e) (join_url (cl_api_origin c) (''/v0/runs/'' @ run_id @ ''/batch''))) (\<lambda>url.
     bindM (http_get http (client_http c) url True None) (\<lambda>res.
     case res of Inl e \<Rightarrow> retM (Inl e)
     | Inr res \<Rightarrow> bindM (raise_ifM (\<lambda>e. e) (batch_of res)) (\<lambda>events. retM (Inr events))))"

definition get_batch_sync :: "'s http \<Rightarrow> 'u client \<Rightarrow> string \<Rightarrow> ('s, exc, exc + event list) M" where
  "get_batch_sync http c run_id =
     bindM (raise_ifM (\<lambda>e. e) (join_url (cl_api_origin c) (''/v0/runs/'' @ run_id @ ''/batch''))) (\<lambda>url.
     bindM (http_get_sync http (client_http c) url True None) (\<lambda>res.
     case res of Inl e \<Rightarrow> retM (Inl e)
     | Inr res \<Rightarrow> bindM (raise_ifM (\<lambda>e. e) (batch_of res)) (\<lambda>events. retM (Inr events))))"

definition get_steps :: "'s http \<Rightarrow> 'u client \<Rightarrow> string \<Rightarrow> ('s, exc, exc + (string, pyobj) dict) M" where
  "get_steps http c run_id =
     bindM (raise_ifM (\<lambda>e. e) (join_url (cl_api_origin c) (''/v0/runs/'' @ run_id @ ''/actions''))) (\<lambda>url.
     bindM (http_get http (client_http c) url True None) (\<lambda>res.
     case res of Inl e \<Rightarrow> retM (Inl e)
     | Inr res \<Rightarrow> bindM (raise_ifM (\<lambda>e. e) (steps_of res)) (\<lambda>d. retM (Inr d))))"

definition get_steps_sync :: "'s http \<Rightarrow> 'u client \<Rightarrow> string \<Rightarrow> ('s, exc, exc + (string, pyobj) dict) M" where
  "get_steps_sync http c run_id =
     bindM (raise_ifM (\<lambda>e. e) (join_url (cl_api_origin c) (''/v0/runs/'' @ run_id @ ''/actions''))) (\<lambda>url.
     bindM (http_get_sync http (client_http c) url True None) (\<lambda>res.
     case res of Inl e \<Rightarrow> retM (Inl e)
     | Inr res \<Rightarrow> bindM (raise_ifM (\<lambda>e. e) (steps_of res)) (\<lambda>d. retM (Inr d))))"

section \<open>Sending events\<close>

definition DEV_SERVER_EVENT_KEY :: string where
  "DEV_SERVER_EVENT_KEY = ''NO_EVENT_KEY_SET''"

definition MAX_SEND_ATTEMPTS :: nat where
  "MAX_SEND_ATTEMPTS = 5"

text \<open>In microseconds; \<open>jitter\<close> is the random part, from 0 to below the base delay.\<close>

definition RETRY_BASE_DELAY :: nat where
  "RETRY_BASE_DELAY = 100000"

definition compute_backoff_delay :: "nat \<Rightarrow> nat \<Rightarrow> nat" where
  "compute_backoff_delay attempt jitter = RETRY_BASE_DELAY * 2 ^ attempt + jitter"

definition event_body :: "int \<Rightarrow> event \<Rightarrow> exc + pyobj" where
  "event_body now_ms e = bindE (Event_to_dict e) (\<lambda>d.
     let d = (if dget d ''id'' = Some (PStr []) then ddel d ''id'' else d);
         d = (if dget d ''ts'' = Some (PInt 0) then dset d ''ts'' (PInt now_ms) else d)
     in Inr (PDict d))"

text \<open>The outer left is raised, the inner left returned.\<close>

definition build_send_request ::
  "'s http \<Rightarrow> int \<Rightarrow> string \<Rightarrow> 'u client \<Rightarrow> event list \<Rightarrow> exc + (exc + http_request)" where
  "build_send_request http now_ms seed c events =
     (case (case cl_event_key c of Some k \<Rightarrow> Inr k
            | None \<Rightarrow> if cl_mode c = SK_DEV_SERVER then Inr DEV_SERVER_EVENT_KEY
                      else Inl (LibErr C_EventKeyUnspecifiedError [])) of
        Inl e \<Rightarrow> Inr (Inl e)
      | Inr event_key \<Rightarrow>
          bindE (join_url (cl_event_api_origin c) (''/e/'' @ event_key)) (\<lambda>url.
          let headers = dset (create_headers (hx_version http) (cl_env c) None None)
                (header_key_value HK_EVENT_ID_SEED) seed in
          case map_sum_list (event_body now_ms) events of
            Inl e \<Rightarrow> Inr (Inl e)
          | Inr body \<Rightarrow> bindE (hx_build http \<lparr>hq_method = ''POST'', hq_url = url, hq_headers = headers,
               hq_json = Some (PList body), hq_timeout = Some (cl_httpx_timeout c), hq_params = [], hq_content = None\<rparr>) (\<lambda>req. Inr (Inr req))))"

definition SendEventsResult_validate :: "pyobj \<Rightarrow> exc + send_events_result" where
  "SendEventsResult_validate v =
     bindE (as_dict ''SendEventsResult'' v) (\<lambda>d.
     bindE (optional as_str d ''error'') (\<lambda>error.
     bindE (with_default (\<lambda>k v. bindE (as_list k v) (map_sum_list (as_str k))) [] d ''ids'') (\<lambda>ids.
       Inr \<lparr>ser_error = error, ser_ids = ids\<rparr>)))"

text \<open>
  What sending needs besides the network: the clock, the seed of the event identifiers, pydantic's JSON
  parser, the test for \<open>httpx.RequestError\<close> and the pause after an attempt.
\<close>

record 's send_env =
  se_now_ms :: int
  se_seed :: string
  se_json :: "bytes \<Rightarrow> exc + pyobj"
  se_is_request_error :: "exc \<Rightarrow> bool"
  se_pause :: "nat \<Rightarrow> ('s, exc, unit) M"

text \<open>The loop: the last response is kept while a later attempt fails; the count is of attempts left.\<close>

fun send_loop :: "'s send_env \<Rightarrow> ('s, exc, http_response) M \<Rightarrow> nat \<Rightarrow> nat \<Rightarrow> http_response option
    \<Rightarrow> ('s, exc, http_response option) M" where
  "send_loop se fetch attempt 0 resp = retM resp"
| "send_loop se fetch attempt (Suc left) resp =
     bindM (catchM (bindM fetch (\<lambda>r. retM (Some r)))
        (\<lambda>e. if se_is_request_error se e then retM resp else raiseM e)) (\<lambda>resp.
     if (case resp of Some r \<Rightarrow> hp_status r < 500 | None \<Rightarrow> False) then retM resp
     else seqM (se_pause se attempt) (send_loop se fetch (Suc attempt) left resp))"

definition send_result :: "'s send_env \<Rightarrow> http_response option \<Rightarrow> exc + send_events_result" where
  "send_result se resp = (case resp of
      None \<Rightarrow> Inl (SendEventsError ''never received response while sending events'' [])
    | Some r \<Rightarrow> bindE (hp_json r) (from_raw (se_json se) SendEventsResult_validate))"

definition with_events ::
  "(event list \<times> 'u outside, exc, unit) M \<Rightarrow> event list \<Rightarrow> ('u outside, exc, event list) M" where
  "with_events m events = (\<lambda>w. case m (events, w) of
     (Inl e, (events', w')) \<Rightarrow> (Inl e, w') | (Inr _, (events', w')) \<Rightarrow> (Inr events', w'))"

definition Inngest_send ::
  "'u outside http \<Rightarrow> 'u outside send_env \<Rightarrow> 'u client \<Rightarrow> event list \<Rightarrow> bool \<Rightarrow> ('u outside, exc, string list) M" where
  "Inngest_send http se c events skip_middleware =
     bindM (if \<not> skip_middleware then bindM (from_client c) (\<lambda>mgr. retM (Some mgr)) else retM None) (\<lambda>middleware.
     bindM (case middleware of None \<Rightarrow> retM events | Some mgr \<Rightarrow> with_events (before_send_events mgr) events) (\<lambda>events.
     bindM (raise_ifM (\<lambda>e. e) (build_send_request http (se_now_ms se) (se_seed se) c events)) (\<lambda>req.
     bindM (raise_ifM (\<lambda>e. e) req) (\<lambda>req.
     bindM (send_loop se (fetch_with_thready_safety http req) 0 MAX_SEND_ATTEMPTS None) (\<lambda>resp.
     bindM (raise_ifM (\<lambda>e. e) (send_result se resp)) (\<lambda>result.
     bindM (case middleware of None \<Rightarrow> retM () | Some mgr \<Rightarrow> after_send_events mgr result) (\<lambda>_.
     case ser_error result of Some e \<Rightarrow> raiseM (SendEventsError e (ser_ids result))
     | None \<Rightarrow> retM (ser_ids result))))))))"

definition Inngest_send_sync ::
  "'u outside http \<Rightarrow> 'u outside send_env \<Rightarrow> 'u client \<Rightarrow> event list \<Rightarrow> bool \<Rightarrow> ('u outside, exc, string list) M" where
  "Inngest_send_sync http se c events skip_middleware =
     bindM (if \<not> skip_middleware then bindM (from_client c) (\<lambda>mgr. retM (Some mgr)) else retM None) (\<lambda>middleware.
     bindM (case middleware of None \<Rightarrow> retM events | Some mgr \<Rightarrow> with_events (before_send_events_sync mgr) events) (\<lambda>events.
     bindM (raise_ifM (\<lambda>e. e) (build_send_request http (se_now_ms se) (se_seed se) c events)) (\<lambda>req.
     bindM (raise_ifM (\<lambda>e. e) req) (\<lambda>req.
     bindM (send_loop se (hx_send_sync http req) 0 MAX_SEND_ATTEMPTS None) (\<lambda>resp.
     bindM (raise_ifM (\<lambda>e. e) (send_result se resp)) (\<lambda>result.
     bindM (case middleware of None \<Rightarrow> retM () | Some mgr \<Rightarrow> after_send_events_sync mgr result) (\<lambda>_.
     case ser_error result of Some e \<Rightarrow> raiseM (SendEventsError e (ser_ids result))
     | None \<Rightarrow> retM (ser_ids result))))))))"

section \<open>Retries\<close>

text \<open>The network as a list of answers to come; when it is used up, nothing answers.\<close>

definition scripted :: "('x, exc, http_response) M \<Rightarrow> ('x \<Rightarrow> (exc + http_response) list) \<Rightarrow> bool" where
  "scripted fetch answers \<longleftrightarrow> (\<forall>s a as. answers s = a # as \<longrightarrow> fst (fetch s) = a \<and> answers (snd (fetch s)) = as)"

definition stops :: "(exc \<Rightarrow> bool) \<Rightarrow> exc + http_response \<Rightarrow> bool" where
  "stops is_req a = (case a of Inr r \<Rightarrow> hp_status r < 500 | Inl e \<Rightarrow> \<not> is_req e)"

definition last_response :: "(exc + http_response) list \<Rightarrow> http_response option" where
  "last_response as = (case filter (\<lambda>a. \<not> isl a) as of [] \<Rightarrow> None | rs \<Rightarrow> Some (projr (last rs)))"

text \<open>The answer that counts among those of the allowed attempts, and the answers left over.\<close>

definition chosen_answer ::
  "(exc \<Rightarrow> bool) \<Rightarrow> http_response option \<Rightarrow> (exc + http_response) list \<Rightarrow> exc + http_response option" where
  "chosen_answer is_req resp as = (case find (stops is_req) as of
      Some (Inr r) \<Rightarrow> Inr (Some r) | Some (Inl e) \<Rightarrow> Inl e
    | None \<Rightarrow> Inr (case last_response as of None \<Rightarrow> resp | Some r \<Rightarrow> Some r))"

definition left_over :: "(exc \<Rightarrow> bool) \<Rightarrow> nat \<Rightarrow> (exc + http_response) list \<Rightarrow> (exc + http_response) list" where
  "left_over is_req n as = (if \<exists>a \<in> set (take n as). stops is_req a
     then tl (dropWhile (\<lambda>a. \<not> stops is_req a) as) else drop n as)"

definition quiet_pause :: "'x send_env \<Rightarrow> ('x \<Rightarrow> (exc + http_response) list) \<Rightarrow> bool" where
  "quiet_pause se answers \<longleftrightarrow> (\<forall>n s. fst (se_pause se n s) = Inr () \<and> answers (snd (se_pause se n s)) = answers s)"

lemma last_response_Cons:
  "last_response (a # as) = (case last_response as of Some r \<Rightarrow> Some r
     | None \<Rightarrow> (case a of Inr r \<Rightarrow> Some r | Inl e \<Rightarrow> None))"
  by (cases a) (auto simp: last_response_def split: list.split)

lemma chosen_answer_Cons:
  "chosen_answer is_req resp (a # as) =
    (if stops is_req a then (case a of Inr r \<Rightarrow> Inr (Some r) | Inl e \<Rightarrow> Inl e)
     else chosen_answer is_req (case a of Inr r \<Rightarrow> Some r | Inl e \<Rightarrow> resp) as)"
  by (auto simp: chosen_answer_def last_response_Cons split: sum.split option.split)

lemma left_over_Cons:
  "left_over is_req (Suc n) (a # as) = (if stops is_req a then as else left_over is_req n as)"
  by (auto simp: left_over_def)

lemma send_loop_answers:
  assumes fetch: "scripted fetch answers" and pause: "quiet_pause se answers"
    and n: "n \<le> length (answers s)" and resp: "\<And>r. resp = Some r \<Longrightarrow> 500 \<le> hp_status r"
  shows "fst (send_loop se fetch k n resp s) = chosen_answer (se_is_request_error se) resp (take n (answers s))
    \<and> answers (snd (send_loop se fetch k n resp s)) = left_over (se_is_request_error se) n (answers s)"
  using n resp
proof (induction n arbitrary: k resp s)
  case 0
  then show ?case
    by (auto simp: retM_def chosen_answer_def last_response_def left_over_def)
next
  case (Suc n)
  then obtain a as where a: "answers s = a # as" by (cases "answers s") auto
  obtain s1 where f: "fetch s = (a, s1)" "answers s1 = as"
    using fetch a unfolding scripted_def by (metis prod.collapse)
  let ?resp = "case a of Inr r \<Rightarrow> Some r | Inl e \<Rightarrow> resp"
  obtain s2 where p: "se_pause se k s1 = (Inr (), s2)" "answers s2 = as"
    using pause f(2) unfolding quiet_pause_def by (metis prod.collapse)
  show ?case
  proof (cases "stops (se_is_request_error se) a")
    case True
    then have "send_loop se fetch k (Suc n) resp s = (case a of Inr r \<Rightarrow> Inr (Some r) | Inl e \<Rightarrow> Inl e, s1)"
      using f(1) by (cases a) (auto simp: monad_simps stops_def)
    with True a f(2) show ?thesis by (simp add: chosen_answer_Cons left_over_Cons)
  next
    case False
    have "send_loop se fetch k (Suc n) resp s = send_loop se fetch (Suc k) n ?resp s2"
      using False f(1) p(1) Suc.prems(2) by (cases a) (auto simp: monad_simps stops_def split: option.split)
    moreover have "500 \<le> hp_status r" if "?resp = Some r" for r
      using that False Suc.prems(2) by (cases a) (auto simp: stops_def)
    ultimately show ?thesis
      using False Suc.IH [of s2 ?resp "Suc k"] Suc.prems(1) a p(2) by (simp add: chosen_answer_Cons left_over_Cons)
  qed
qed

text \<open>C35: Sending retries at most five times.  On any sequence of answers, the loop takes the first answer below
  500, or raises the first failure that is not a request error, and asks no further; if none of five
  comes, its result is the last response that was received at all.\<close>

theorem send_loop_retries:
  assumes "scripted fetch answers" and "quiet_pause se answers" and "MAX_SEND_ATTEMPTS \<le> length (answers s)"
  shows "fst (send_loop se fetch 0 MAX_SEND_ATTEMPTS None s)
      = chosen_answer (se_is_request_error se) None (take MAX_SEND_ATTEMPTS (answers s))
    \<and> answers (snd (send_loop se fetch 0 MAX_SEND_ATTEMPTS None s))
      = left_over (se_is_request_error se) MAX_SEND_ATTEMPTS (answers s)"
  by (rule send_loop_answers [OF assms]) simp

text \<open>A scripted network, and an environment that takes every exception for a request error.\<close>

definition script_fetch :: "((exc + http_response) list, exc, http_response) M" where
  "script_fetch s = (case s of [] \<Rightarrow> (Inl (Exception []), []) | a # as \<Rightarrow> (a, as))"

definition demo_send_env :: "'x send_env" where
  "demo_send_env = \<lparr>se_now_ms = 0, se_seed = ''0,'', se_json = (\<lambda>b. Inl (Exception [])),
     se_is_request_error = (\<lambda>e. True), se_pause = (\<lambda>n. retM ())\<rparr>"

definition answer :: "int \<Rightarrow> http_response" where
  "answer n = \<lparr>hp_status = n, hp_text = [], hp_json = Inr (PDict []), hp_content = []\<rparr>"

theorem send_loop_retries_witness:
  "fst (send_loop demo_send_env script_fetch 0 MAX_SEND_ATTEMPTS None
     [Inr (answer 503), Inl (Exception ''x''), Inr (answer 404), Inr (answer 200), Inr (answer 200)])
   = Inr (Some (answer 404))"
proof -
  let ?as = "[Inr (answer 503), Inl (Exception ''x''), Inr (answer 404), Inr (answer 200), Inr (answer 200)]"
  have s: "scripted script_fetch id" by (auto simp: scripted_def script_fetch_def)
  have p: "quiet_pause demo_send_env id" by (simp add: quiet_pause_def demo_send_env_def retM_def)
  show ?thesis
    using send_loop_retries [OF s p, of ?as]
    by (simp add: MAX_SEND_ATTEMPTS_def chosen_answer_def stops_def answer_def demo_send_env_def)
qed

text \<open>The status of the response that is left after the retries is not looked at: when the server answers
  every attempt with a server error whose JSON body is an empty object, \<open>send\<close> returns no identifiers as
  if it had succeeded.\<close>

theorem send_ignores_server_error:
  assumes "\<And>req w. fetch_with_thready_safety http req w = (Inr r, w)" and "hp_status r \<ge> 500"
    and "hp_json r = Inr (PDict [])" and "\<And>n w. se_pause se n w = (Inr (), w)"
    and "build_send_request http (se_now_ms se) (se_seed se) c events = Inr (Inr req)"
  shows "Inngest_send http se c events True w = (Inr [], w)"
proof -
  have loop: "send_loop se (fetch_with_thready_safety http req) k (Suc n) resp w = (Inr (Some r), w)" for k n resp
  proof (induction n arbitrary: k resp)
    case 0
    show ?case using assms(1,2,4) by (simp add: monad_simps)
  next
    case (Suc n)
    from assms(1,2,4) have "send_loop se (fetch_with_thready_safety http req) k (Suc (Suc n)) resp w
        = send_loop se (fetch_with_thready_safety http req) (Suc k) (Suc n) (Some r) w"
      by (simp add: monad_simps)
    with Suc.IH show ?case by simp
  qed
  have five: "MAX_SEND_ATTEMPTS = Suc 4" by (simp add: MAX_SEND_ATTEMPTS_def)
  show ?thesis
    unfolding Inngest_send_def five using assms(3,5) loop [of 0 4 None]
    by (simp add: raise_ifM_def bindM_def retM_def send_result_def from_raw_def SendEventsResult_validate_def
        as_dict_def optional_def with_default_def)
qed

definition busy_http :: "string list outside http" where
  "busy_http = \<lparr>hx_version = ''1'', hx_sha256 = (\<lambda>b. b), hx_build = Inr, hx_send = (\<lambda>r w. (Inr (answer 500), w)),
     hx_send_sync = (\<lambda>r w. (Inr (answer 500), w)), hx_same_thread = True\<rparr>"

theorem send_ignores_server_error_witness:
  "Inngest_send busy_http demo_send_env (demo_client\<lparr>cl_event_key := Some ''k''\<rparr>) [] True
     \<lparr>logging_enabled = True, logged = [], user = []\<rparr> = (Inr [], \<lparr>logging_enabled = True, logged = [], user = []\<rparr>)"
proof -
  have url: "join_url DEFAULT_EVENT_API_ORIGIN ''/e/k'' = Inr ''https://inn.gs/e/k''"
    by code_simp
  obtain req where "build_send_request busy_http (se_now_ms demo_send_env) (se_seed demo_send_env)
      (demo_client\<lparr>cl_event_key := Some ''k''\<rparr>) [] = Inr (Inr req)"
    using url by (simp add: build_send_request_def busy_http_def demo_client_def Let_def)
  then show ?thesis
    by (intro send_ignores_server_error [where r = "answer 500"])
       (simp_all add: fetch_with_thready_safety_def busy_http_def answer_def demo_send_env_def retM_def)
qed

section \<open>Origins\<close>

lemma starts_with_iff: "starts_with s p \<longleftrightarrow> (\<exists>r. s = p @ r)"
  by (induction s p rule: starts_with.induct) auto

lemma visible_kept: "32 < (of_char c :: nat) \<Longrightarrow>
    c \<noteq> char_of (9::nat) \<and> c \<noteq> char_of (10::nat) \<and> c \<noteq> char_of (13::nat)"
  by auto

lemma strip_url_http: "starts_with url ''http'' \<Longrightarrow> \<exists>r. strip_url url = ''http'' @ r"
  using visible_kept [of "CHR ''h''"] visible_kept [of "CHR ''t''"] visible_kept [of "CHR ''p''"]
  by (auto simp: starts_with_iff strip_url_def)

lemma split_first_http: "\<exists>a b. split_first (CHR '':'') (''http'' @ r) = (''http'' @ a, b)"
  by (cases "split_first (CHR '':'') r") simp

lemma urlparse_http:
  assumes "starts_with url ''http''" and "urlparse url = Inr p" and "u_netloc p \<noteq> []"
  shows "starts_with (u_scheme p) ''http''"
proof -
  obtain r where r: "strip_url url = ''http'' @ r" using strip_url_http [OF assms(1)] by blast
  obtain a b where ab: "split_first (CHR '':'') (''http'' @ r) = (''http'' @ a, b)"
    using split_first_http by blast
  have "split_scheme (''http'' @ r) = ([], ''http'' @ r) \<or>
      (\<exists>rest. split_scheme (''http'' @ r) = (py_lower (''http'' @ a), rest))"
    using ab by (auto simp: split_scheme_def split: option.split)
  then show ?thesis
  proof
    assume "split_scheme (''http'' @ r) = ([], ''http'' @ r)"
    with assms(2,3) r show ?thesis
      by (auto simp: urlparse_def split_netloc_def Let_def split: prod.splits if_splits)
  next
    assume "\<exists>rest. split_scheme (''http'' @ r) = (py_lower (''http'' @ a), rest)"
    with assms(2) r have "u_scheme p = py_lower (''http'' @ a)"
      by (auto simp: urlparse_def Let_def split: prod.splits if_splits)
    then show ?thesis by (auto simp: starts_with_iff py_lower_def py_lower_char_def Let_def)
  qed
qed

lemma urlunparse_scheme: "u_scheme p \<noteq> [] \<Longrightarrow> \<exists>r. urlunparse p = u_scheme p @ r"
  by (auto simp: urlunparse_def Let_def)

lemma parse_url_http: "parse_url url mode = Inr u \<Longrightarrow> starts_with u ''http''"
proof -
  assume p: "parse_url url mode = Inr u"
  let ?url = "if starts_with url ''http'' = False
     then (if mode = SK_CLOUD then ''https://'' @ url else ''http://'' @ url) else url"
  have http: "starts_with ?url ''http''" by (auto simp: starts_with_iff)
  obtain q where q: "urlparse ?url = Inr q" "u_netloc q \<noteq> []" "u = urlunparse q"
    using p by (auto simp: parse_url_def Let_def split: if_splits sum.splits)
  from urlparse_http [OF http q(1,2)] obtain r where r: "u_scheme q = ''http'' @ r"
    by (auto simp: starts_with_iff)
  with urlunparse_scheme [of q] obtain r' where "u = (''http'' @ r) @ r'" using q(3) by auto
  then show ?thesis by (auto simp: starts_with_iff)
qed

text \<open>A client that could be constructed has an API origin and an event API origin that begin with \<open>http\<close>,
  whatever its arguments and the environment are; its mode is the argument's when one is given, and its
  keys are the arguments' when they are not empty and the environment's otherwise.\<close>

lemma client_init:
  assumes "Inngest_init env args = Inr c"
  shows "starts_with (cl_api_origin c) ''http'' \<and> starts_with (cl_event_api_origin c) ''http''
    \<and> cl_mode c = (case ia_is_production args of Some True \<Rightarrow> SK_CLOUD | Some False \<Rightarrow> SK_DEV_SERVER
         | None \<Rightarrow> if is_truthy env EK_DEV then SK_DEV_SERVER else SK_CLOUD)
    \<and> cl_is_production c = (cl_mode c = SK_CLOUD)
    \<and> cl_event_key c = (if truthy_str (ia_event_key args) then ia_event_key args else getenv env EK_EVENT_KEY)
    \<and> cl_signing_key c = (if truthy_str (ia_signing_key args) then ia_signing_key args else getenv env EK_SIGNING_KEY)"
proof -
  let ?mode = "get_mode env (ia_is_production args)"
  obtain a where a: "get_api_origin env (ia_api_base_url args) ?mode = Inr a"
    using assms by (cases "get_api_origin env (ia_api_base_url args) ?mode") (auto simp: Inngest_init_def Let_def)
  obtain e where e: "get_event_api_origin env (ia_event_api_base_url args) ?mode = Inr e"
    using assms a by (cases "get_event_api_origin env (ia_event_api_base_url args) ?mode") (auto simp: Inngest_init_def Let_def)
  have "starts_with a ''http''" "starts_with e ''http''"
    using a e by (auto simp: get_api_origin_def get_event_api_origin_def Let_def dest: parse_url_http)
  with assms a e show ?thesis
    by (auto simp: Inngest_init_def Let_def or_str_def get_mode_def)
qed

lemma client_init_example:
  "\<exists>c. Inngest_init (\<lambda>k. if k = ''INNGEST_DEV'' then Some ''localhost:9000'' else None)
      \<lparr>ia_api_base_url = None, ia_app_id = ''app'', ia_app_version = None, ia_env = None,
       ia_event_api_base_url = None, ia_event_key = None, ia_is_production = None,
       ia_middleware = None :: unit uninit list option, ia_request_timeout = None, ia_serializer = None, ia_signing_key = None\<rparr> = Inr c
    \<and> starts_with (cl_api_origin c) ''http'' \<and> cl_mode c = SK_DEV_SERVER"
proof -
  let ?env = "\<lambda>k. if k = ''INNGEST_DEV'' then Some ''localhost:9000'' else None"
  let ?args = "\<lparr>ia_api_base_url = None, ia_app_id = ''app'', ia_app_version = None, ia_env = None,
       ia_event_api_base_url = None, ia_event_key = None, ia_is_production = None,
       ia_middleware = None :: unit uninit list option, ia_request_timeout = None, ia_serializer = None, ia_signing_key = None\<rparr>"
  have mode: "get_mode ?env None = SK_DEV_SERVER" by code_simp
  have o1: "get_api_origin ?env None SK_DEV_SERVER = Inr ''http://localhost:9000''" by code_simp
  have o2: "get_event_api_origin ?env None SK_DEV_SERVER = Inr ''http://localhost:9000''" by code_simp
  obtain c where c: "Inngest_init ?env ?args = Inr c"
    by (simp add: Inngest_init_def mode o1 o2 Let_def)
  have "is_truthy ?env EK_DEV" by code_simp
  with client_init [OF c] c show ?thesis by auto
qed

end
