(* ===== verification/Comm.thy ===== *)
theory Comm
  imports Client
begin

text \<open>
  \<open>_internal/comm_lib\<close>: the requests the Inngest server sends to the SDK and the SDK's responses.  A
  response's body is a Python value; a streamed response is the list of the chunks it yields.  Raised
  exceptions are the left of the monad, returned ones the left of the value.  The value of the timing
  header is an argument (\<open>ce_timing\<close>), the thread pool and the tasks of the event loop are not
  modelled: a call runs to its end.
\<close>

section \<open>Requests and responses\<close>

record comm_request =
  cq_body :: bytes
  cq_headers :: headers
  cq_is_connect :: bool
  cq_public_path :: "string option"
  cq_query_params :: "(string \<times> header_in) list"
  cq_request_url :: string
  cq_serve_origin :: "string option"
  cq_serve_path :: "string option"

record comm_response =
  cp_body :: pyobj
  cp_headers :: headers
  cp_status :: int
  cp_stream :: "bytes list option"

text \<open>What the handler's code takes from its environment.\<close>

record comm_env =
  ce_environ :: environ
  ce_version :: string
  ce_hmac :: hmac
  ce_jcs :: "bytes \<Rightarrow> string + bytes"
  ce_json :: "bytes \<Rightarrow> exc + pyobj"
  ce_sha1 :: "bytes \<Rightarrow> string"
  ce_tb :: "exc \<Rightarrow> string"
  ce_now_s :: int
  ce_timing :: string
  ce_keepalives :: nat

definition mk_CommResponse :: "pyobj \<Rightarrow> headers \<Rightarrow> int \<Rightarrow> comm_response" where
  "mk_CommResponse body headers status = \<lparr>cp_body = body, cp_headers = headers, cp_status = status, cp_stream = None\<rparr>"

definition no_retry :: "comm_response \<Rightarrow> bool" where
  "no_retry r = (dget (cp_headers r) (header_key_value HK_NO_RETRY) = Some ''true'')"

definition request_version :: "comm_response \<Rightarrow> int option" where
  "request_version r = (case dget (cp_headers r) (header_key_value HK_REQUEST_VERSION) of None \<Rightarrow> None
     | Some v \<Rightarrow> py_int v)"

definition retry_after_header :: "comm_response \<Rightarrow> string option" where
  "retry_after_header r = dget (cp_headers r) (header_key_value HK_RETRY_AFTER)"

definition sdk_version :: "comm_response \<Rightarrow> string option" where
  "sdk_version r = dget (cp_headers r) (header_key_value HK_SDK)"

definition from_error :: "exc \<Rightarrow> int \<Rightarrow> comm_response" where
  "from_error err status = mk_CommResponse
     (PDict [(''code'', PStr (error_code_value (exc_code err))), (''message'', PStr (exc_str err)),
             (''name'', PStr (exc_type_name err))])
     [(header_key_value HK_CONTENT_TYPE, ''application/json'')] status"

definition from_error_code :: "error_code \<Rightarrow> string \<Rightarrow> int \<Rightarrow> comm_response" where
  "from_error_code code message status = mk_CommResponse
     (PDict [(''code'', PStr (error_code_value code)), (''message'', PStr message)]) [] status"

definition ErrorData_to_dict :: "(exc \<Rightarrow> string) \<Rightarrow> exc \<Rightarrow> exc + (string, pyobj) dict" where
  "ErrorData_to_dict tb err = to_dict_json
     [(''code'', PStr (error_code_value (exc_code err))), (''message'', PStr (exc_message err)),
      (''name'', PStr (exc_name err)), (''stack'', opt_str (exc_stack tb err))]"

definition quoted :: "string \<Rightarrow> string" where
  "quoted s = [char_of (34::nat)] @ s @ [char_of (34::nat)]"

text \<open>The shape the server expects: a step's result is a dictionary, a function's is its output or error.\<close>

definition prep_call_result :: "(exc \<Rightarrow> string) \<Rightarrow> call_result \<Rightarrow> exc + pyobj" where
  "prep_call_result tb call_res =
     bindE (case cr_step call_res of Some s \<Rightarrow> StepInfo_to_dict s | None \<Rightarrow> Inr []) (\<lambda>d.
     bindE (case cr_error call_res of None \<Rightarrow> Inr d
            | Some err \<Rightarrow> bindE (ErrorData_to_dict tb err) (\<lambda>e. Inr (dset d ''error'' (PDict e)))) (\<lambda>d.
     bindE (if cr_output call_res \<noteq> PEmpty then
              (if isl (dump_json (cr_output call_res)) then
                 Inl (LibErr C_OutputUnserializableError
                   ((case cr_step call_res of None \<Rightarrow> [] | Some s \<Rightarrow> quoted (si_display_name s) @ '' '')
                     @ ''returned unserializable data''))
               else Inr (dset d ''data'' (cr_output call_res)))
            else Inr d) (\<lambda>d.
     if cr_step call_res = None
     then Inr (case dget d ''error'' of Some e \<Rightarrow> if truthy e then e
                   else (case dget d ''data'' of Some v \<Rightarrow> v | None \<Rightarrow> PNone)
               | None \<Rightarrow> (case dget d ''data'' of Some v \<Rightarrow> v | None \<Rightarrow> PNone))
     else Inr (PDict d))))"

text \<open>The loop over the results of steps: bodies so far and headers so far.\<close>

fun multi_bodies :: "(exc \<Rightarrow> string) \<Rightarrow> call_result list \<Rightarrow> pyobj list \<Rightarrow> headers \<Rightarrow> exc + pyobj list \<times> headers" where
  "multi_bodies tb [] bodies headers = Inr (bodies, headers)"
| "multi_bodies tb (item # items) bodies headers =
     (case prep_call_result tb item of
        Inl e \<Rightarrow> Inl e
      | Inr d \<Rightarrow> multi_bodies tb items (bodies @ [d])
          (case cr_error item of
             Some e \<Rightarrow> if is_retriable e = False then dset headers (header_key_value HK_NO_RETRY) ''true'' else headers
           | None \<Rightarrow> headers))"

definition from_call_result ::
  "comm_env \<Rightarrow> call_result \<Rightarrow> string option \<Rightarrow> framework \<Rightarrow> server_kind option \<Rightarrow> comm_response" where
  "from_call_result ce call_res env framework server_kind =
     (let headers = create_headers (ce_version ce) env (Some framework) server_kind in
      case cr_multi call_res of
        Some (item # items) \<Rightarrow>
          (case multi_bodies (ce_tb ce) (item # items) [] headers of
             Inl e \<Rightarrow> from_error e 500
           | Inr (bodies, headers) \<Rightarrow> mk_CommResponse (PList bodies) headers 206)
      | _ \<Rightarrow>
          (case prep_call_result (ce_tb ce) call_res of
             Inl e \<Rightarrow> from_error e 500
           | Inr body \<Rightarrow>
               (case cr_error call_res of
                  None \<Rightarrow> mk_CommResponse body headers 200
                | Some err \<Rightarrow>
                    (let headers = (if is_retriable err = False
                           then dset headers (header_key_value HK_NO_RETRY) ''true'' else headers);
                         headers = (case err of RetryAfterError m t q \<Rightarrow>
                             dset headers (header_key_value HK_RETRY_AFTER) (to_iso_utc t) | _ \<Rightarrow> headers)
                     in mk_CommResponse body headers 500))))"

definition body_bytes :: "comm_response \<Rightarrow> exc + bytes" where
  "body_bytes r = bindE (dump_json (cp_body r)) (\<lambda>s. Inr (utf8 s))"

definition sign_comm_response :: "comm_env \<Rightarrow> string \<Rightarrow> comm_response \<Rightarrow> exc + comm_response" where
  "sign_comm_response ce signing_key r = bindE (body_bytes r) (\<lambda>b.
     Inr (r\<lparr>cp_headers := dset (cp_headers r) (header_key_value HK_SIGNATURE)
              (sign_response (ce_hmac ce) (ce_now_s ce) b signing_key None)\<rparr>))"

text \<open>
  A streaming response: blank keepalives while the call runs, then the actual response as JSON.  The
  second \<open>json.dumps\<close> of an error body cannot fail.
\<close>

definition stream_body :: "comm_env \<Rightarrow> call_result \<Rightarrow> string option \<Rightarrow> framework \<Rightarrow> server_kind option \<Rightarrow> comm_response \<times> string" where
  "stream_body ce call_res env framework server_kind =
     (let comm_res = from_call_result ce call_res env framework server_kind in
      case dump_json (cp_body comm_res) of
        Inr body \<Rightarrow> (comm_res, body)
      | Inl e \<Rightarrow> (let comm_res = from_error e 500 in
          (comm_res, case json_dumps (cp_body comm_res) of Inr s \<Rightarrow> s | Inl t \<Rightarrow> [])))"

definition create_streaming ::
  "comm_env \<Rightarrow> call_result \<Rightarrow> string option \<Rightarrow> framework \<Rightarrow> server_kind option \<Rightarrow> comm_response" where
  "create_streaming ce call_res env framework server_kind =
     (let (comm_res, body) = stream_body ce call_res env framework server_kind;
          headers = dset (cp_headers comm_res) (header_key_value HK_SERVER_TIMING) (ce_timing ce);
          chunk = (case json_dumps (PDict [(''body'', PStr body),
                      (''headers'', PDict (map (\<lambda>(k, v). (k, PStr v)) headers)),
                      (''status'', PInt (cp_status comm_res))]) of Inr s \<Rightarrow> utf8 s | Inl t \<Rightarrow> [])
      in \<lparr>cp_body = PNone, cp_headers = create_headers (ce_version ce) env (Some framework) server_kind,
          cp_status = 201, cp_stream = Some (replicate (ce_keepalives ce) '' '' @ [chunk])\<rparr>)"

section \<open>Query parameters\<close>

record query_params =
  qp_fn_id :: "string option"
  qp_probe :: "probe option"
  qp_step_id :: "string option"
  qp_sync_id :: "string option"

fun normalize_params :: "headers \<Rightarrow> (string \<times> header_in) list \<Rightarrow> exc + headers" where
  "normalize_params acc [] = Inr acc"
| "normalize_params acc ((k, HStr v) # hs) = normalize_params (dset acc k v) hs"
| "normalize_params acc ((k, HList (v # vs)) # hs) = normalize_params (dset acc k v) hs"
| "normalize_params acc ((k, HList []) # hs) = Inl (PyExc ''IndexError'' ''list index out of range'')"

text \<open>The outer left is raised (an empty list of values), the inner left returned.\<close>

definition parse_query_params :: "(string \<times> header_in) list \<Rightarrow> exc + (exc + query_params)" where
  "parse_query_params query_params =
     bindE (normalize_params [] query_params) (\<lambda>normalized.
     let get = (\<lambda>k. dget normalized (query_param_key_value k));
         step_id = (if get QP_STEP_ID = Some UNSPECIFIED_STEP_ID then None else get QP_STEP_ID);
         result = (\<lambda>probe. Inr (Inr \<lparr>qp_fn_id = get QP_FUNCTION_ID, qp_probe = probe, qp_step_id = step_id,
                                     qp_sync_id = get QP_SYNC_ID\<rparr>)) in
     if truthy_str (get QP_PROBE) then
       (case enum_of probe_value probe_members (the (get QP_PROBE)) of
          Some p \<Rightarrow> result (Some p)
        | None \<Rightarrow> Inr (Inl (Exception (''unsupported probe: '' @ the (get QP_PROBE)))))
     else result None)"

section \<open>The handler\<close>

record 'u comm_handler =
  ch_client :: "'u client"
  ch_http :: "'u outside http"
  ch_mode :: server_kind
  ch_api_origin :: string
  ch_fns :: "(string, 'u inngest_fn) dict"
  ch_framework :: framework
  ch_streaming :: streaming
  ch_allow_in_band_sync :: bool
  ch_signing_key :: "string option"
  ch_signing_key_fallback :: "string option"

definition CommHandler_init :: "environ \<Rightarrow> 'u outside http \<Rightarrow> 'u client \<Rightarrow> framework \<Rightarrow> 'u inngest_fn list
    \<Rightarrow> streaming option \<Rightarrow> exc + 'u comm_handler" where
  "CommHandler_init env http client framework functions streaming =
     (let streaming = (case streaming of Some s \<Rightarrow> Some s | None \<Rightarrow> get_streaming env EK_STREAMING);
          signing_key = (if cl_signing_key client = None \<and> cl_is_production client
                         then getenv env EK_SIGNING_KEY else cl_signing_key client)
      in if cl_signing_key client = None \<and> cl_is_production client \<and> signing_key = None
         then Inl (LibErr C_SigningKeyMissingError [])
         else Inr \<lparr>ch_client = client, ch_http = http, ch_mode = cl_mode client,
                   ch_api_origin = cl_api_origin client,
                   ch_fns = foldl (\<lambda>d fn. dset d (get_id fn) fn) [] functions, ch_framework = framework,
                   ch_streaming = (case streaming of Some s \<Rightarrow> s | None \<Rightarrow> ST_DISABLE),
                   ch_allow_in_band_sync = (\<not> is_false env EK_ALLOW_IN_BAND_SYNC),
                   ch_signing_key = signing_key, ch_signing_key_fallback = cl_signing_key_fallback client\<rparr>)"

definition serves :: "string \<Rightarrow> 'u inngest_fn \<Rightarrow> bool" where
  "serves fnid fn = (get_id fn = fnid \<or> fn_on_failure_fn_id fn = Some fnid)"

definition get_function :: "'u comm_handler \<Rightarrow> string \<Rightarrow> exc + 'u inngest_fn" where
  "get_function h fnid =
     (case find (serves fnid) (dvalues (ch_fns h)) of
        Some fn \<Rightarrow> Inr fn
      | None \<Rightarrow> (case find (serves (cl_app_id (ch_client h) @ ''-'' @ fnid)) (dvalues (ch_fns h)) of
            Some fn \<Rightarrow> Inr fn
          | None \<Rightarrow> Inl (LibErr C_FunctionNotFoundError (''function '' @ fnid @ '' not found''))))"

text \<open>An operation of the network, the middleware or the clock on the outside; what it raises is raised.\<close>

type_synonym ('u, 'a) comm_m = "('u outside, raised, 'a) M"

definition lift_exc :: "('u outside, exc, 'a) M \<Rightarrow> ('u, 'a) comm_m" where
  "lift_exc m = (\<lambda>w. case m w of (Inl e, w') \<Rightarrow> (Inl (Raised e), w') | (Inr x, w') \<Rightarrow> (Inr x, w'))"

definition comm_exe :: "comm_env \<Rightarrow> 'u comm_handler \<Rightarrow> server_request \<Rightarrow> string option \<Rightarrow> 'u exe" where
  "comm_exe ce h request step_id = \<lparr>ex_client = ch_client h, ex_request = request,
     ex_target_hashed_id = step_id, ex_sha1 = ce_sha1 ce\<rparr>"

definition comm_context :: "server_request \<Rightarrow> event list \<Rightarrow> fn_context" where
  "comm_context request events = \<lparr>cx_attempt = ctx_attempt (req_ctx request), cx_event = req_event request,
     cx_events = events, cx_logger_filtered = False, cx_run_id = ctx_run_id (req_ctx request)\<rparr>"

text \<open>A call starts with fresh identifier counts and no flag set.\<close>

definition run_call :: "('u, call_result) step_m \<Rightarrow> memos \<Rightarrow> 'u manager \<Rightarrow> ('u, call_result) comm_m" where
  "run_call call memos mgr = (\<lambda>out. case call \<lparr>w_memos = memos, w_counts = [], w_in_parallel = False,
       w_in_step = False, w_step_context = False, w_mgr = mgr, w_out = out\<rparr> of (r, w) \<Rightarrow> (r, w_out w))"

text \<open>A server kind that is not one is logged and ignored.\<close>

definition lenient_server_kind :: "headers \<Rightarrow> server_kind option" where
  "lenient_server_kind headers = (case get_server_kind headers of Inl e \<Rightarrow> None | Inr k \<Rightarrow> k)"

definition parse_request :: "comm_env \<Rightarrow> bytes \<Rightarrow> exc + server_request" where
  "parse_request ce body = from_raw (ce_json ce) ServerRequest_validate (PStr body)"

text \<open>The events and steps of a request, from the API when it says so.\<close>

definition fetch_inputs :: "('u, exc + event list) comm_m \<Rightarrow> ('u, exc + (string, pyobj) dict) comm_m
    \<Rightarrow> server_request \<Rightarrow> ('u, exc + event list option \<times> (string, pyobj) dict) comm_m" where
  "fetch_inputs batch steps request =
     (if req_use_api request then
        bindM batch (\<lambda>fetched_events. bindM steps (\<lambda>fetched_steps.
        retM (bindE fetched_events (\<lambda>es. bindE fetched_steps (\<lambda>ss. Inr (Some es, ss))))))
      else retM (Inr (req_events request, req_steps request)))"

text \<open>In the non-async case the steps are not fetched when fetching the batch failed.\<close>

definition fetch_inputs_sync :: "('u, exc + event list) comm_m \<Rightarrow> ('u, exc + (string, pyobj) dict) comm_m
    \<Rightarrow> server_request \<Rightarrow> ('u, exc + event list option \<times> (string, pyobj) dict) comm_m" where
  "fetch_inputs_sync batch steps request =
     (if req_use_api request then
        bindM batch (\<lambda>fetched_events. case fetched_events of Inl e \<Rightarrow> retM (Inl e)
        | Inr es \<Rightarrow> bindM steps (\<lambda>fetched_steps. retM (bindE fetched_steps (\<lambda>ss. Inr (Some es, ss)))))
      else retM (Inr (req_events request, req_steps request)))"

definition comm_post :: "comm_env \<Rightarrow> 'u comm_handler \<Rightarrow> comm_request \<Rightarrow> headers \<Rightarrow> ('u, exc + comm_response) comm_m" where
  "comm_post ce h req headers =
     bindM (raise_ifM Raised (parse_query_params (cq_query_params req))) (\<lambda>params.
     case params of Inl e \<Rightarrow> retM (Inl e) | Inr params \<Rightarrow>
     if qp_probe params = Some PB_TRUST then retM (Inr (mk_CommResponse PNone [] 200)) else
     let server_kind = lenient_server_kind headers in
     bindM (lift_exc (from_client (ch_client h))) (\<lambda>middleware.
     case parse_request ce (cq_body req) of Inl e \<Rightarrow> retM (Inl e) | Inr request \<Rightarrow>
     case qp_fn_id params of
       None \<Rightarrow> retM (Inl (LibErr C_QueryParamMissingError (query_param_key_value QP_FUNCTION_ID)))
     | Some fnid \<Rightarrow>
     case get_function h fnid of Inl e \<Rightarrow> retM (Inl e) | Inr fn \<Rightarrow>
     bindM (fetch_inputs (lift_exc (get_batch (ch_http h) (ch_client h) (ctx_run_id (req_ctx request))))
              (lift_exc (get_steps (ch_http h) (ch_client h) (ctx_run_id (req_ctx request)))) request) (\<lambda>inputs.
     case inputs of Inl e \<Rightarrow> retM (Inl e)
     | Inr (None, steps) \<Rightarrow> retM (Inl (Exception ''events not in request''))
     | Inr (Some events, steps) \<Rightarrow>
         let exe = comm_exe ce h request (qp_step_id params); ctx = comm_context request events;
             memos = StepMemos_from_raw (ce_json ce) steps in
         if is_handler_async fn then
           bindM (run_call (Function_call fn exe ctx fnid) memos middleware) (\<lambda>call_res.
           retM (Inr (if ch_streaming h = ST_FORCE
             then create_streaming ce call_res (cl_env (ch_client h)) (ch_framework h) server_kind
             else from_call_result ce call_res (cl_env (ch_client h)) (ch_framework h) server_kind)))
         else
           bindM (run_call (Function_call_sync fn exe ctx fnid) memos middleware) (\<lambda>call_res.
           retM (Inr (from_call_result ce call_res (cl_env (ch_client h)) (ch_framework h) server_kind))))))"

definition comm_post_sync :: "comm_env \<Rightarrow> 'u comm_handler \<Rightarrow> comm_request \<Rightarrow> headers \<Rightarrow> ('u, exc + comm_response) comm_m" where
  "comm_post_sync ce h req headers =
     bindM (raise_ifM Raised (parse_query_params (cq_query_params req))) (\<lambda>params.
     case params of Inl e \<Rightarrow> retM (Inl e) | Inr params \<Rightarrow>
     if qp_probe params = Some PB_TRUST then retM (Inr (mk_CommResponse PNone [] 200)) else
     let server_kind = lenient_server_kind headers in
     bindM (lift_exc (from_client (ch_client h))) (\<lambda>middleware.
     case parse_request ce (cq_body req) of Inl e \<Rightarrow> retM (Inl e) | Inr request \<Rightarrow>
     case qp_fn_id params of
       None \<Rightarrow> retM (Inl (LibErr C_QueryParamMissingError (query_param_key_value QP_FUNCTION_ID)))
     | Some fnid \<Rightarrow>
     case get_function h fnid of Inl e \<Rightarrow> retM (Inl e) | Inr fn \<Rightarrow>
     bindM (fetch_inputs_sync (lift_exc (get_batch_sync (ch_http h) (ch_client h) (ctx_run_id (req_ctx request))))
              (lift_exc (get_steps_sync (ch_http h) (ch_client h) (ctx_run_id (req_ctx request)))) request) (\<lambda>inputs.
     case inputs of Inl e \<Rightarrow> retM (Inl e)
     | Inr (None, steps) \<Rightarrow> retM (Inl (Exception ''events not in request''))
     | Inr (Some events, steps) \<Rightarrow>
         bindM (run_call (Function_call_sync fn (comm_exe ce h request (qp_step_id params))
                   (comm_context request events) fnid) (StepMemos_from_raw (ce_json ce) steps) middleware) (\<lambda>call_res.
         retM (Inr (from_call_result ce call_res (cl_env (ch_client h)) (ch_framework h) server_kind))))))"

section \<open>Inspection\<close>

definition hash_if_set :: "(string \<Rightarrow> exc + string) \<Rightarrow> string option \<Rightarrow> exc + string option" where
  "hash_if_set f v = (if truthy_str v then bindE (f (the v)) (\<lambda>h. Inr (Some h)) else Inr None)"

text \<open>The left is raised by \<open>hash_signing_key\<close>; \<open>is_signed\<close> says that the request's signing key is a text.\<close>

definition build_inspection ::
  "'u comm_handler \<Rightarrow> comm_request \<Rightarrow> bool \<Rightarrow> exc + (authenticated_inspection + unauthenticated_inspection)" where
  "build_inspection h req is_signed =
     (let c = ch_client h; sha256 = hx_sha256 (ch_http h); count = int (length (ch_fns h)) in
      if is_signed then
        bindE (hash_if_set (\<lambda>k. Inr (hash_event_key sha256 k)) (cl_event_key c)) (\<lambda>event_key_hash.
        bindE (hash_if_set (hash_signing_key sha256) (ch_signing_key h)) (\<lambda>signing_key_hash.
        bindE (hash_if_set (hash_signing_key sha256) (ch_signing_key_fallback h)) (\<lambda>fallback_hash.
        Inr (Inl \<lparr>ai_api_origin = cl_api_origin c, ai_app_id = cl_app_id c, ai_env = cl_env c,
           ai_event_api_origin = cl_event_api_origin c, ai_event_key_hash = event_key_hash,
           ai_framework = framework_value (ch_framework h), ai_function_count = count,
           ai_has_event_key = (cl_event_key c \<noteq> None), ai_has_signing_key = (ch_signing_key h \<noteq> None),
           ai_has_signing_key_fallback = (ch_signing_key_fallback h \<noteq> None), ai_mode = ch_mode h,
           ai_serve_origin = cq_serve_origin req, ai_serve_path = cq_serve_path req,
           ai_signing_key_fallback_hash = fallback_hash, ai_signing_key_hash = signing_key_hash\<rparr>))))
      else Inr (Inr \<lparr>ui_function_count = count, ui_has_event_key = (cl_event_key c \<noteq> None),
           ui_has_signing_key = (ch_signing_key h \<noteq> None),
           ui_has_signing_key_fallback = (ch_signing_key_fallback h \<noteq> None), ui_mode = ch_mode h\<rparr>))"

definition signed_key :: "exc + string option \<Rightarrow> string option" where
  "signed_key k = (case k of Inr (Some s) \<Rightarrow> Some s | _ \<Rightarrow> None)"

definition comm_get_sync ::
  "comm_env \<Rightarrow> 'u comm_handler \<Rightarrow> comm_request \<Rightarrow> headers \<Rightarrow> exc + string option \<Rightarrow> ('u, exc + comm_response) comm_m" where
  "comm_get_sync ce h req headers request_signing_key =
     (let server_kind = lenient_server_kind headers in
      if server_kind \<noteq> None \<and> server_kind \<noteq> Some (ch_mode h) then retM (Inr (mk_CommResponse (PDict []) [] 403))
      else bindM (raise_ifM Raised (build_inspection h req (signed_key request_signing_key \<noteq> None))) (\<lambda>inspection.
        retM (Inr (mk_CommResponse
          (PDict (case inspection of Inl a \<Rightarrow> AuthenticatedInspection_to_dict (ce_version ce) a
                  | Inr u \<Rightarrow> UnauthenticatedInspection_to_dict u)) [] 200))))"

section \<open>Synchronization\<close>

fun collect_configs :: "string \<Rightarrow> 'u inngest_fn list \<Rightarrow> function_config list \<Rightarrow> exc + function_config list" where
  "collect_configs app_url [] configs = Inr configs"
| "collect_configs app_url (fn # fns) configs = bindE (get_config fn app_url) (\<lambda>config.
     collect_configs app_url fns (configs @ [cfg_main config]
       @ (case cfg_on_failure config of None \<Rightarrow> [] | Some c \<Rightarrow> [c])))"

text \<open>The outer left is raised, the inner left returned.\<close>

definition get_function_configs ::
  "string \<Rightarrow> (string, 'u inngest_fn) dict \<Rightarrow> exc + (exc + function_config list)" where
  "get_function_configs app_url fns = bindE (collect_configs app_url (dvalues fns) []) (\<lambda>configs.
     if length configs = 0 then Inr (Inl (LibErr C_FunctionConfigInvalidError ''no functions found''))
     else Inr (Inr configs))"

definition comm_serve_url :: "comm_env \<Rightarrow> comm_request \<Rightarrow> string \<Rightarrow> exc + string" where
  "comm_serve_url ce req url = create_serve_url (ce_environ ce) (cq_public_path req) url (cq_serve_origin req) (cq_serve_path req)"

definition in_band ::
  "comm_env \<Rightarrow> 'u comm_handler \<Rightarrow> comm_request \<Rightarrow> exc + string option \<Rightarrow> exc + (exc + comm_response)" where
  "in_band ce h req request_signing_key =
     (case signed_key request_signing_key of
        None \<Rightarrow> Inr (Inl (Exception ''request must be signed for in-band sync''))
      | Some key \<Rightarrow>
          (case from_raw (ce_json ce) InBandSynchronizeRequest_validate (PStr (cq_body req)) of
             Inl e \<Rightarrow> Inr (Inl e)
           | Inr url \<Rightarrow>
               bindE (comm_serve_url ce req url) (\<lambda>app_url.
               bindE (get_function_configs app_url (ch_fns h)) (\<lambda>fn_configs.
               case fn_configs of Inl e \<Rightarrow> Inr (Inl e) | Inr fn_configs \<Rightarrow>
               bindE (build_inspection h req True) (\<lambda>inspection.
               case inspection of Inr u \<Rightarrow> Inr (Inl (Exception ''request must be signed for in-band sync''))
               | Inl a \<Rightarrow>
                   (case InBandSynchronizeResponse_to_dict (ce_version ce) \<lparr>ib_app_id = cl_app_id (ch_client h),
                           ib_app_version = cl_app_version (ch_client h), ib_env = cl_env (ch_client h),
                           ib_framework = ch_framework h, ib_functions = fn_configs, ib_inspection = a,
                           ib_platform = None, ib_url = app_url\<rparr> of
                      Inl e \<Rightarrow> Inr (Inl e)
                    | Inr body \<Rightarrow> Inr (Inr (mk_CommResponse (deep_strip_none body)
                        [(header_key_value HK_SYNC_KIND, sync_kind_value SY_IN_BAND)] 200))))))))"

definition server_kind_mismatch :: "server_kind \<Rightarrow> comm_response" where
  "server_kind_mismatch server_kind = from_error_code EC_SERVER_KIND_MISMATCH
     (if server_kind = SK_DEV_SERVER then ''Sync rejected since it's from a Dev Server but expected Cloud''
      else ''Sync rejected since it's from Cloud but expected Dev Server'') 400"

text \<open>The outer left is raised, the inner left returned; otherwise a response to give or a request to send.\<close>

definition create_out_of_band_request ::
  "comm_env \<Rightarrow> 'u comm_handler \<Rightarrow> comm_request \<Rightarrow> headers \<Rightarrow> exc + (exc + (comm_response + http_request))" where
  "create_out_of_band_request ce h req headers =
     bindE (comm_serve_url ce req (cq_request_url req)) (\<lambda>app_url.
     let server_kind = lenient_server_kind headers in
     if server_kind \<noteq> None \<and> server_kind \<noteq> Some (ch_mode h)
     then Inr (Inr (Inl (server_kind_mismatch (the server_kind))))
     else bindE (parse_query_params (cq_query_params req)) (\<lambda>params.
     case params of Inl e \<Rightarrow> Inr (Inl e) | Inr params \<Rightarrow>
     bindE (join_url (ch_api_origin h) ''/fn/register'') (\<lambda>registration_url.
     bindE (get_function_configs app_url (ch_fns h)) (\<lambda>fn_configs.
     case fn_configs of Inl e \<Rightarrow> Inr (Inl e) | Inr fn_configs \<Rightarrow>
     (case SynchronizeRequest_to_dict \<lparr>sr_app_name = cl_app_id (ch_client h),
             sr_app_version = cl_app_version (ch_client h), sr_framework = ch_framework h,
             sr_functions = fn_configs, sr_sdk = LANGUAGE @ '':v'' @ ce_version ce, sr_url = app_url, sr_v = ''0.1''\<rparr> of
        Inl e \<Rightarrow> Inr (Inl e)
      | Inr body \<Rightarrow>
          bindE (hx_build (ch_http h) \<lparr>hq_method = ''POST'', hq_url = registration_url,
             hq_headers = create_headers (ce_version ce) (cl_env (ch_client h)) (Some (ch_framework h)) server_kind,
             hq_json = Some (deep_strip_none body), hq_timeout = Some 30000000,
             hq_params = (case qp_sync_id params of None \<Rightarrow> []
                          | Some s \<Rightarrow> [(query_param_key_value QP_SYNC_ID, s)]),
             hq_content = None\<rparr>) (\<lambda>r. Inr (Inr (Inr r))))))))"

text \<open>For a status of 400 or more, an error response is created but not returned.\<close>

definition parse_out_of_band_response :: "http_response \<Rightarrow> exc + comm_response" where
  "parse_out_of_band_response res =
     (case hp_json res of
        Inl e \<Rightarrow> Inl (LibErr C_RegistrationFailedError ''response is not valid JSON'')
      | Inr (PDict d) \<Rightarrow>
          (let comm_res = (if hp_status res \<ge> 400 then
                 Some ((from_error (LibErr C_RegistrationFailedError (py_strip
                   (case dget d ''error'' of Some (PStr msg) \<Rightarrow> msg | _ \<Rightarrow> ''registration failed''))) 500)
                   \<lparr>cp_status := hp_status res\<rparr>) else None)
           in Inr (mk_CommResponse (PDict d) [(header_key_value HK_SYNC_KIND, sync_kind_value SY_OUT_OF_BAND)] 200))
      | Inr v \<Rightarrow> Inl (LibErr C_RegistrationFailedError ''response is not an object''))"

definition out_of_band :: "comm_env \<Rightarrow> 'u comm_handler \<Rightarrow> comm_request \<Rightarrow> headers \<Rightarrow> ('u, exc + comm_response) comm_m" where
  "out_of_band ce h req headers =
     bindM (raise_ifM Raised (create_out_of_band_request ce h req headers)) (\<lambda>prep.
     case prep of Inl e \<Rightarrow> retM (Inl e)
     | Inr (Inl response) \<Rightarrow> retM (Inr response)
     | Inr (Inr request) \<Rightarrow>
         bindM (lift_exc (fetch_with_auth_fallback (ch_http h) request (ch_signing_key h) (ch_signing_key_fallback h))) (\<lambda>res.
         retM (bindE res parse_out_of_band_response)))"

definition out_of_band_sync :: "comm_env \<Rightarrow> 'u comm_handler \<Rightarrow> comm_request \<Rightarrow> headers \<Rightarrow> ('u, exc + comm_response) comm_m" where
  "out_of_band_sync ce h req headers =
     bindM (raise_ifM Raised (create_out_of_band_request ce h req headers)) (\<lambda>prep.
     case prep of Inl e \<Rightarrow> retM (Inl e)
     | Inr (Inl response) \<Rightarrow> retM (Inr response)
     | Inr (Inr request) \<Rightarrow>
         bindM (lift_exc (fetch_with_auth_fallback_sync (ch_http h) request (ch_signing_key h) (ch_signing_key_fallback h))) (\<lambda>res.
         retM (bindE res parse_out_of_band_response)))"

definition wants_in_band :: "'u comm_handler \<Rightarrow> headers \<Rightarrow> bool" where
  "wants_in_band h headers =
     (dget headers (header_key_value HK_SYNC_KIND) = Some (sync_kind_value SY_IN_BAND) \<and> ch_allow_in_band_sync h)"

definition comm_put ::
  "comm_env \<Rightarrow> 'u comm_handler \<Rightarrow> comm_request \<Rightarrow> headers \<Rightarrow> exc + string option \<Rightarrow> ('u, exc + comm_response) comm_m" where
  "comm_put ce h req headers request_signing_key =
     (if wants_in_band h headers then
        (case request_signing_key of
           Inl e \<Rightarrow> retM (Inr (from_error e 401))
         | Inr None \<Rightarrow> retM (Inr (from_error (Exception ''request must be signed for in-band sync'') 401))
         | Inr (Some key) \<Rightarrow> bindM (raise_ifM Raised (in_band ce h req request_signing_key)) retM)
      else out_of_band ce h req headers)"

definition comm_put_sync ::
  "comm_env \<Rightarrow> 'u comm_handler \<Rightarrow> comm_request \<Rightarrow> headers \<Rightarrow> exc + string option \<Rightarrow> ('u, exc + comm_response) comm_m" where
  "comm_put_sync ce h req headers request_signing_key =
     (if wants_in_band h headers then
        (case request_signing_key of
           Inl e \<Rightarrow> retM (Inr (from_error e 401))
         | Inr None \<Rightarrow> retM (Inr (from_error (Exception ''request must be signed for in-band sync'') 401))
         | Inr (Some key) \<Rightarrow> bindM (raise_ifM Raised (in_band ce h req request_signing_key)) retM)
      else out_of_band_sync ce h req headers)"

section \<open>Signature checks around the handlers\<close>

text \<open>
  \<open>wrap_handler\<close>, and \<open>wrap_handler_sync\<close>, whose lines are the same but for \<open>await\<close>: the method gets the
  normalized headers and the key that validated the request.
\<close>

definition wrap_response :: "comm_env \<Rightarrow> 'u comm_handler \<Rightarrow> exc + string option \<Rightarrow> exc + comm_response \<Rightarrow> comm_response" where
  "wrap_response ce h request_signing_key res =
     (let res = (case res of Inl e \<Rightarrow> from_error e 500 | Inr r \<Rightarrow> r);
          res = res\<lparr>cp_headers := dset (dmerge (cp_headers res) (create_headers (ce_version ce)
                    (cl_env (ch_client h)) (Some (ch_framework h)) (Some (cl_mode (ch_client h)))))
                  (header_key_value HK_SERVER_TIMING) (ce_timing ce)\<rparr>
      in (case signed_key request_signing_key of None \<Rightarrow> res
          | Some key \<Rightarrow> (case sign_comm_response ce key res of Inl e \<Rightarrow> res | Inr signed \<Rightarrow> signed)))"

definition wrap_handler :: "comm_env \<Rightarrow> 'u comm_handler \<Rightarrow> bool
    \<Rightarrow> (headers \<Rightarrow> exc + string option \<Rightarrow> ('u, exc + comm_response) comm_m) \<Rightarrow> comm_request
    \<Rightarrow> ('u, comm_response) comm_m" where
  "wrap_handler ce h require_signature method req =
     bindM (raise_ifM Raised (if cq_is_connect req = False
        then bindE (normalize_headers (map (\<lambda>(k, v). (k, HStr v)) (cq_headers req))) (\<lambda>headers.
             bindE (validate_request_sig (ce_hmac ce) (ce_jcs ce) (cq_body req) headers (cl_mode (ch_client h))
                      (ch_signing_key h) (ch_signing_key_fallback h)) (\<lambda>key. Inr (headers, key)))
        else Inr (cq_headers req, Inr None))) (\<lambda>(headers, request_signing_key).
     case (request_signing_key, require_signature) of
       (Inl e, True) \<Rightarrow> retM (from_error e 401)
     | _ \<Rightarrow> bindM (method headers request_signing_key) (\<lambda>res. retM (wrap_response ce h request_signing_key res)))"

definition wrap_handler_sync :: "comm_env \<Rightarrow> 'u comm_handler \<Rightarrow> bool
    \<Rightarrow> (headers \<Rightarrow> exc + string option \<Rightarrow> ('u, exc + comm_response) comm_m) \<Rightarrow> comm_request
    \<Rightarrow> ('u, comm_response) comm_m" where
  "wrap_handler_sync ce h require_signature method req =
     bindM (raise_ifM Raised (if cq_is_connect req = False
        then bindE (normalize_headers (map (\<lambda>(k, v). (k, HStr v)) (cq_headers req))) (\<lambda>headers.
             bindE (validate_request_sig (ce_hmac ce) (ce_jcs ce) (cq_body req) headers (cl_mode (ch_client h))
                      (ch_signing_key h) (ch_signing_key_fallback h)) (\<lambda>key. Inr (headers, key)))
        else Inr (cq_headers req, Inr None))) (\<lambda>(headers, request_signing_key).
     case (request_signing_key, require_signature) of
       (Inl e, True) \<Rightarrow> retM (from_error e 401)
     | _ \<Rightarrow> bindM (method headers request_signing_key) (\<lambda>res. retM (wrap_response ce h request_signing_key res)))"

lemma wrap_handler_sync_eq [simp]: "wrap_handler_sync = wrap_handler"
  by (intro ext) (simp add: wrap_handler_sync_def wrap_handler_def)

definition CommHandler_post :: "comm_env \<Rightarrow> 'u comm_handler \<Rightarrow> comm_request \<Rightarrow> ('u, comm_response) comm_m" where
  "CommHandler_post ce h req = wrap_handler ce h True (\<lambda>headers key. comm_post ce h req headers) req"

definition CommHandler_post_sync :: "comm_env \<Rightarrow> 'u comm_handler \<Rightarrow> comm_request \<Rightarrow> ('u, comm_response) comm_m" where
  "CommHandler_post_sync ce h req = wrap_handler_sync ce h True (\<lambda>headers key. comm_post_sync ce h req headers) req"

definition CommHandler_get_sync :: "comm_env \<Rightarrow> 'u comm_handler \<Rightarrow> comm_request \<Rightarrow> ('u, comm_response) comm_m" where
  "CommHandler_get_sync ce h req = wrap_handler_sync ce h False (comm_get_sync ce h req) req"

definition CommHandler_put :: "comm_env \<Rightarrow> 'u comm_handler \<Rightarrow> comm_request \<Rightarrow> ('u, comm_response) comm_m" where
  "CommHandler_put ce h req = wrap_handler ce h False (comm_put ce h req) req"

definition CommHandler_put_sync :: "comm_env \<Rightarrow> 'u comm_handler \<Rightarrow> comm_request \<Rightarrow> ('u, comm_response) comm_m" where
  "CommHandler_put_sync ce h req = wrap_handler_sync ce h False (comm_put_sync ce h req) req"

end
