(* ===== verification/CommProps.thy ===== *)
theory CommProps
  imports Comm StepProps
begin

text \<open>
  What the HTTP handlers promise: nothing happens for a request that is not signed, a registered
  function is reached under its registered URL, results keep their meaning as responses, and responses
  are signed with the key that signed the request.
\<close>

section \<open>Signed requests only\<close>

lemma normalize_from_HStr: "\<exists>hs. normalize_from acc (map (\<lambda>(k, v). (k, HStr v)) headers) = Inr hs"
  by (induction headers arbitrary: acc) auto

lemma wrap_handler_outcome:
  assumes conn: "cq_is_connect req = False"
  obtains (raised) e where "wrap_handler ce h require method req w = (Inl e, w)"
    | (refused) e where "wrap_handler ce h require method req w = (Inr (from_error e 401), w)" "require"
    | (called) headers key where
        "normalize_headers (map (\<lambda>(k, v). (k, HStr v)) (cq_headers req)) = Inr headers"
        "validate_request_sig (ce_hmac ce) (ce_jcs ce) (cq_body req) headers (cl_mode (ch_client h))
           (ch_signing_key h) (ch_signing_key_fallback h) = Inr key" "isl key \<longrightarrow> \<not> require"
proof -
  obtain headers where hs: "normalize_headers (map (\<lambda>(k, v). (k, HStr v)) (cq_headers req)) = Inr headers"
    using normalize_from_HStr unfolding normalize_headers_def by blast
  let ?v = "validate_request_sig (ce_hmac ce) (ce_jcs ce) (cq_body req) headers (cl_mode (ch_client h))
           (ch_signing_key h) (ch_signing_key_fallback h)"
  show thesis
  proof (cases ?v)
    case (Inl e)
    then have "wrap_handler ce h require method req w = (Inl (Raised e), w)"
      by (simp add: wrap_handler_def conn hs monad_simps)
    then show thesis by (rule raised)
  next
    case (Inr key)
    show thesis
    proof (cases "isl key \<and> require")
      case True
      then obtain e where "key = Inl e" by (cases key) auto
      with Inr True have "wrap_handler ce h require method req w = (Inr (from_error e 401), w)"
        by (simp add: wrap_handler_def conn hs monad_simps)
      with True show thesis by (intro refused) auto
    next
      case False
      with hs Inr show thesis by (intro called) auto
    qed
  qed
qed

text \<open>C8: An unsigned request has no effect.  If handling a \<open>POST\<close> that does not come through Connect changes
  anything outside the SDK while the client is in cloud mode, then the request's signature header carries
  the digest of its canonical body under one of the two configured signing keys.\<close>

theorem post_effect_needs_signature:
  assumes "post \<in> {CommHandler_post ce h, CommHandler_post_sync ce h}" and "post req w = (r, w')" and "w' \<noteq> w"
    and conn: "cq_is_connect req = False" and mode: "cl_mode (ch_client h) = SK_CLOUD"
  shows "\<exists>headers key sig c. normalize_headers (map (\<lambda>(k, v). (k, HStr v)) (cq_headers req)) = Inr headers
    \<and> dget headers (header_key_value HK_SIGNATURE) = Some sig \<and> canonicalize (ce_jcs ce) (cq_body req) = Inr c
    \<and> Some key \<in> {ch_signing_key h, ch_signing_key_fallback h} \<and> signed_with (ce_hmac ce) c sig key"
proof -
  obtain f where f: "wrap_handler ce h True f req w = (r, w')"
    using assms(1,2) by (auto simp: CommHandler_post_def CommHandler_post_sync_def)
  from conn show ?thesis
  proof (cases rule: wrap_handler_outcome [of req ce h True f w])
  case (called headers key)
  then obtain k where "key = Inr k" by (cases key) auto
  with called mode have v: "validate_request_sig (ce_hmac ce) (ce_jcs ce) (cq_body req) headers SK_CLOUD
     (ch_signing_key h) (ch_signing_key_fallback h) = Inr (Inr k)" by simp
  obtain c where c: "canonicalize (ce_jcs ce) (cq_body req) = Inr c"
    using v by (cases "canonicalize (ce_jcs ce) (cq_body req)") (auto simp: validate_request_sig_def)
  from v obtain key' where "validate_sig (ce_hmac ce) c headers SK_CLOUD key' = Inr (Inr k)"
    and "key' \<in> {ch_signing_key h, ch_signing_key_fallback h}"
    by (auto simp: validate_request_sig_def c bindE_def split: sum.splits if_splits)
  with validate_sig_accepts [of "ce_hmac ce" c headers key' k] c called(1) show ?thesis by auto
qed (use f assms(3) in auto)
qed

text \<open>A handler without functions on a network that answers nothing.\<close>

definition dead_http :: "'s http" where
  "dead_http = \<lparr>hx_version = ''1'', hx_sha256 = (\<lambda>b. b), hx_build = Inr,
     hx_send = (\<lambda>r s. (Inl (Exception []), s)), hx_send_sync = (\<lambda>r s. (Inl (Exception []), s)), hx_same_thread = True\<rparr>"

definition demo_ce :: comm_env where
  "demo_ce = \<lparr>ce_environ = (\<lambda>k. None), ce_version = ''1'', ce_hmac = toy_hmac, ce_jcs = Inr,
     ce_json = (\<lambda>b. Inl (Exception [])), ce_sha1 = (\<lambda>b. b), ce_tb = (\<lambda>e. []), ce_now_s = 1, ce_timing = [],
     ce_keepalives = 0\<rparr>"

definition demo_comm :: "string list inngest_fn list \<Rightarrow> string list comm_handler" where
  "demo_comm fns = \<lparr>ch_client = demo_client, ch_http = dead_http, ch_mode = SK_CLOUD, ch_api_origin = DEFAULT_API_ORIGIN,
     ch_fns = foldl (\<lambda>d fn. dset d (get_id fn) fn) [] fns, ch_framework = FW_FLASK, ch_streaming = ST_DISABLE,
     ch_allow_in_band_sync = True, ch_signing_key = Some ''k'', ch_signing_key_fallback = None\<rparr>"

definition demo_out :: "string list outside" where
  "demo_out = \<lparr>logging_enabled = True, logged = [], user = []\<rparr>"

definition demo_signed_request :: comm_request where
  "demo_signed_request = \<lparr>cq_body = [], cq_headers = [(header_key_value HK_SIGNATURE, ''s=fa'')], cq_is_connect = False,
     cq_public_path = None, cq_query_params = [], cq_request_url = ''http://x'', cq_serve_origin = None, cq_serve_path = None\<rparr>"

lemma demo_signed_valid:
  "validate_request_sig toy_hmac Inr [] [(header_key_value HK_SIGNATURE, ''s=fa'')] SK_CLOUD (Some ''k'') None
      = Inr (Inr (Some ''k''))"
    by (simp add: validate_request_sig_def canonicalize_def validate_sig_def qs_first_def parse_qsl_def
      map_filter_simps toy_hmac_def remove_signing_key_prefix_def signkey_prefix_length_def utf8_def utf8_char_def
      is_ascii_def unquote_plus_plain)

lemma demo_signed_headers:
  "normalize_headers (map (\<lambda>(k, v). (k, HStr v)) (cq_headers demo_signed_request))
     = Inr [(header_key_value HK_SIGNATURE, ''s=fa'')]" by code_simp

theorem post_effect_needs_signature_witness:
  "\<exists>headers key sig c. normalize_headers (map (\<lambda>(k, v). (k, HStr v)) (cq_headers demo_signed_request)) = Inr headers
    \<and> dget headers (header_key_value HK_SIGNATURE) = Some sig \<and> canonicalize (ce_jcs demo_ce) (cq_body demo_signed_request) = Inr c
    \<and> Some key \<in> {ch_signing_key (demo_comm []), ch_signing_key_fallback (demo_comm [])} \<and> signed_with (ce_hmac demo_ce) c sig key"
proof -
  let ?h = "demo_comm []" and ?w = "\<lparr>logging_enabled = True, logged = [], user = []\<rparr>"
  have "logging_enabled (snd (CommHandler_post demo_ce ?h demo_signed_request ?w)) = False"
    using demo_signed_valid demo_signed_headers
    by (simp add: CommHandler_post_def wrap_handler_def wrap_response_def comm_post_def demo_signed_request_def demo_comm_def demo_ce_def
      demo_client_def monad_simps from_client_def lift_exc_def parse_query_params_def Let_def
      DEFAULT_CLIENT_MIDDLEWARE_def LoggerMiddleware_def manager_add_def disable_logging_def parse_request_def from_raw_def
      truthy_str_def)
  then have "snd (CommHandler_post demo_ce ?h demo_signed_request ?w) \<noteq> ?w" by auto
  then show ?thesis
    by (intro post_effect_needs_signature [of "CommHandler_post demo_ce ?h", OF _ prod.collapse [symmetric]])
       (simp_all add: demo_signed_request_def demo_comm_def demo_client_def)
qed

section \<open>Dispatch\<close>

lemma foldl_fns:
  "distinct (map get_id fns) \<Longrightarrow> (\<And>fn. fn \<in> set fns \<Longrightarrow> \<not> dhas d (get_id fn)) \<Longrightarrow>
   foldl (\<lambda>d fn. dset d (get_id fn) fn) d fns = d @ map (\<lambda>fn. (get_id fn, fn)) fns"
proof (induction fns arbitrary: d)
  case (Cons fn fns)
  have "dset d (get_id fn) fn = d @ [(get_id fn, fn)]" by (rule dset_fresh) (simp add: Cons.prems)
  moreover have "\<not> dhas (d @ [(get_id fn, fn)]) (get_id g)" if "g \<in> set fns" for g
  proof -
    have "get_id g \<in> get_id ` set fns" using that by (rule imageI)
    then have "get_id g \<noteq> get_id fn" using Cons.prems(1) by auto
    moreover have "\<not> dhas d (get_id g)" by (rule Cons.prems(2)) (simp add: that)
    ultimately show ?thesis by (simp add: dhas_def dkeys_def)
  qed
  ultimately show ?case
    using Cons.IH [of "d @ [(get_id fn, fn)]"] Cons.prems(1) by simp
qed simp

lemma handler_functions:
  assumes "CommHandler_init env http client framework fns streaming = Inr h" and "distinct (map get_id fns)"
  shows "dvalues (ch_fns h) = fns"
proof -
  have "ch_fns h = foldl (\<lambda>d fn. dset d (get_id fn) fn) [] fns"
    using assms(1) by (auto simp: CommHandler_init_def Let_def split: if_splits)
  also have "\<dots> = [] @ map (\<lambda>fn. (get_id fn, fn)) fns"
    by (rule foldl_fns [OF assms(2)]) (simp add: dhas_def dkeys_def)
  finally have "dvalues (ch_fns h) = map snd (map (\<lambda>fn. (get_id fn, fn)) fns)"
    by (simp only: dvalues_def append_Nil)
  also have "\<dots> = fns" by (induction fns) simp_all
  finally show ?thesis .
qed

lemma find_unique: "x \<in> set xs \<Longrightarrow> P x \<Longrightarrow> (\<And>y. y \<in> set xs \<Longrightarrow> P y \<Longrightarrow> y = x) \<Longrightarrow> find P xs = Some x"
proof (induction xs)
  case (Cons a xs)
  show ?case
  proof (cases "P a")
    case True
    then have "a = x" by (rule Cons.prems(3) [rotated]) simp
    with True show ?thesis by simp
  next
    case False
    then have "x \<in> set xs" using Cons.prems(1,2) by auto
    moreover have "y = x" if "y \<in> set xs" "P y" for y by (rule Cons.prems(3)) (simp_all add: that)
    ultimately have "find P xs = Some x" using Cons.IH Cons.prems(2) by blast
    with False show ?thesis by simp
  qed
qed simp

lemma config_query:
  assumes "fnid \<noteq> []" and "is_ascii fnid"
  shows "parse_query_params (map (\<lambda>(k, v). (k, HStr v)) (parse_qsl (urlencode [(''fnId'', fnid), (''stepId'', ROOT_STEP_ID)])))
    = Inr (Inr \<lparr>qp_fn_id = Some fnid, qp_probe = None, qp_step_id = None, qp_sync_id = None\<rparr>)"
proof -
  have lits: "utf8 ''fnId'' = ''fnId''" "utf8 ''stepId'' = ''stepId''" "utf8 ROOT_STEP_ID = ''step''"
    by (simp_all add: utf8_is_ascii is_ascii_def ROOT_STEP_ID_def)
  have "parse_qsl (urlencode [(''fnId'', fnid), (''stepId'', ROOT_STEP_ID)])
      = map (\<lambda>(k, v). (utf8 k, utf8 v)) [(''fnId'', fnid), (''stepId'', ROOT_STEP_ID)]"
    by (rule parse_qsl_urlencode) (use assms in \<open>auto simp: ROOT_STEP_ID_def\<close>)
  then have "parse_qsl (urlencode [(''fnId'', fnid), (''stepId'', ROOT_STEP_ID)]) = [(''fnId'', fnid), (''stepId'', ''step'')]"
    by (simp add: lits utf8_is_ascii [OF assms(2)])
  then show ?thesis
    by (simp add: UNSPECIFIED_STEP_ID_def parse_query_params_def truthy_str_def Let_def)
qed

text \<open>The query of a configuration's URL names the function and no step, the handler finds that function,
  and the function selects the given handler for it.\<close>

definition config_reaches :: "'u comm_handler \<Rightarrow> string \<Rightarrow> 'u inngest_fn \<Rightarrow> function_config \<Rightarrow> 'u fn_handler \<Rightarrow> bool" where
  "config_reaches h app_url fn c hnd \<longleftrightarrow> (\<exists>q.
     map (\<lambda>(k, s). rt_url (sc_runtime s)) (fc_steps c) = [app_url @ ''?'' @ q]
     \<and> parse_query_params (map (\<lambda>(k, v). (k, HStr v)) (parse_qsl q))
         = Inr (Inr \<lparr>qp_fn_id = Some (fc_id c), qp_probe = None, qp_step_id = None, qp_sync_id = None\<rparr>)
     \<and> get_function h (fc_id c) = Inr fn
     \<and> (\<exists>ty. select_handler fn (fc_id c) = Inr (hnd, ty)))"

lemma get_function_served:
  assumes "dvalues (ch_fns h) = fns" and "fn \<in> set fns" and "serves fnid fn"
    and "\<And>g. g \<in> set fns \<Longrightarrow> serves fnid g \<Longrightarrow> g = fn"
  shows "get_function h fnid = Inr fn"
proof -
  have "find (serves fnid) fns = Some fn"
    by (rule find_unique) (use assms(2-4) in blast)+
  then show ?thesis by (simp add: get_function_def assms(1))
qed

lemma mk_Function_facts:
  assumes "mk_Function opts trigger hnd ty mw = Inr fn"
  shows "fn_handler fn = hnd" "fn_opts fn = opts" "get_id fn = fo_fully_qualified_id opts"
    "fn_on_failure_fn_id fn = (if fo_on_failure opts = None then None else Some (get_id fn @ ''-failure''))"
  using assms by (auto simp: mk_Function_def Let_def get_id_def split: if_splits)

lemma registered_configs_reach:
  assumes init: "CommHandler_init env http client framework fns streaming = Inr h"
    and fn: "mk_Function opts trigger hnd ty mw = Inr fn" "fn \<in> set fns"
    and dist: "distinct (map get_id fns)"
    and unique: "\<And>g i. g \<in> set fns \<Longrightarrow> serves i fn \<Longrightarrow> serves i g \<Longrightarrow> g = fn"
    and id: "get_id fn \<noteq> []" "is_ascii (get_id fn)"
    and cfg: "get_config fn app_url = Inr cfg"
  shows "config_reaches h app_url fn (cfg_main cfg) hnd"
    "cfg_on_failure cfg = Some c \<Longrightarrow> fo_on_failure opts = Some g \<Longrightarrow> config_reaches h app_url fn c g"
proof -
  note facts = mk_Function_facts [OF fn(1)]
  have found: "get_function h i = Inr fn" if "serves i fn" for i
    by (rule get_function_served [OF handler_functions [OF init dist] fn(2) that]) (use unique that in blast)
  have main: "map (\<lambda>(k, s). rt_url (sc_runtime s)) (fc_steps (cfg_main cfg)) = [config_url app_url (get_id fn)]"
    "fc_id (cfg_main cfg) = get_id fn"
    using cfg by (auto simp: get_config_def Let_def bindE_def get_id_def split: option.splits sum.splits)
  show "config_reaches h app_url fn (cfg_main cfg) hnd"
    unfolding config_reaches_def main config_url_def
    by (intro exI conjI, rule refl, rule config_query [OF id], rule found)
       (auto simp: serves_def select_handler_def facts get_id_def)
  assume c: "cfg_on_failure cfg = Some c" "fo_on_failure opts = Some g"
  let ?fid = "get_id fn @ ''-failure''"
  have fid: "fn_on_failure_fn_id fn = Some ?fid" using c(2) facts(4) by simp
  have url: "map (\<lambda>(k, s). rt_url (sc_runtime s)) (fc_steps c) = [config_url app_url ?fid]" "fc_id c = ?fid"
    using cfg c(1) fid by (auto simp: get_config_def Let_def bindE_def split: option.splits sum.splits)
  have ascii: "?fid \<noteq> []" "is_ascii ?fid" using id by (auto simp: is_ascii_def)
  show "config_reaches h app_url fn c g"
    unfolding config_reaches_def url config_url_def
    by (intro exI conjI, rule refl, rule config_query [OF ascii], rule found)
       (use fid c(2) in \<open>auto simp: serves_def select_handler_def facts get_id_def\<close>)
qed

text \<open>A registered function is reached under its registered URLs.  For an app whose function identifiers,
  those of the failure handlers included, are unambiguous, the URL in each configuration that a function
  registers has a query that parses to an identifier under which the HTTP handler finds that function
  again; the main configuration leads to its handler and the failure configuration to its \<open>on_failure\<close>
  handler.\<close>

lemma registered_url_dispatches:
  assumes init: "CommHandler_init env http client framework fns streaming = Inr h"
    and fn: "mk_Function opts trigger hnd ty mw = Inr fn" "fn \<in> set fns"
    and dist: "distinct (map get_id fns)"
    and unique: "\<And>g i. g \<in> set fns \<Longrightarrow> serves i fn \<Longrightarrow> serves i g \<Longrightarrow> g = fn"
    and id: "get_id fn \<noteq> []" "is_ascii (get_id fn)"
    and cfg: "get_config fn app_url = Inr cfg"
  shows "config_reaches h app_url fn (cfg_main cfg) hnd
    \<and> (\<forall>c g. cfg_on_failure cfg = Some c \<longrightarrow> fo_on_failure opts = Some g \<longrightarrow> config_reaches h app_url fn c g)"
proof (intro conjI allI impI)
  show "config_reaches h app_url fn (cfg_main cfg) hnd"
    by (rule registered_configs_reach(1) [OF init fn dist _ id cfg]) (use unique in blast)
  show "config_reaches h app_url fn c g" if "cfg_on_failure cfg = Some c" "fo_on_failure opts = Some g" for c g
    by (rule registered_configs_reach(2) [OF init fn dist _ id cfg that]) (use unique in blast)
qed

lemma registered_url_dispatches_witness:
  "\<exists>h fn cfg c. mk_Function (demo_opts\<lparr>fo_on_failure := Some ((\<lambda>exe ctx. retM PNone), True)\<rparr>) [TriggerEvent ''e'' None]
       ((\<lambda>exe ctx. retM (PInt 1)), True) None None = Inr fn
    \<and> CommHandler_init (\<lambda>k. None) dead_http (demo_client\<lparr>cl_signing_key := Some ''k''\<rparr>) FW_FLASK [fn] None = Inr h
    \<and> get_config fn ''http://x'' = Inr cfg \<and> cfg_on_failure cfg = Some c
    \<and> config_reaches h ''http://x'' fn (cfg_main cfg) ((\<lambda>exe ctx. retM (PInt 1)), True)
    \<and> config_reaches h ''http://x'' fn c ((\<lambda>exe ctx. retM PNone), True)"
proof -
  let ?hnd = "((\<lambda>exe ctx. retM (PInt 1)) :: string list exe \<Rightarrow> string list handler, True)"
  let ?fail = "((\<lambda>exe ctx. retM PNone) :: string list exe \<Rightarrow> string list handler, True)"
  let ?opts = "demo_opts\<lparr>fo_on_failure := Some ?fail\<rparr>"
  obtain fn where fn: "mk_Function ?opts [TriggerEvent ''e'' None] ?hnd None None = Inr fn"
    by (simp add: mk_Function_def Let_def is_handler_async_def is_on_failure_handler_async_def demo_opts_def)
  note facts = mk_Function_facts [OF fn]
  obtain h where h: "CommHandler_init (\<lambda>k. None) dead_http (demo_client\<lparr>cl_signing_key := Some ''k''\<rparr>) FW_FLASK [fn] None = Inr h"
    by (simp add: CommHandler_init_def Let_def)
  obtain cfg c where cfg: "get_config fn ''http://x'' = Inr cfg" "cfg_on_failure cfg = Some c"
    by (simp add: get_config_def Let_def facts demo_opts_def)
  have "config_reaches h ''http://x'' fn (cfg_main cfg) ?hnd
    \<and> (\<forall>c g. cfg_on_failure cfg = Some c \<longrightarrow> fo_on_failure ?opts = Some g \<longrightarrow> config_reaches h ''http://x'' fn c g)"
    by (rule registered_url_dispatches [OF h fn _ _ _ _ _ cfg(1)])
       (simp_all add: facts demo_opts_def is_ascii_def)
  then have "config_reaches h ''http://x'' fn (cfg_main cfg) ?hnd" "config_reaches h ''http://x'' fn c ?fail"
    using cfg(2) by auto
  with fn h cfg show ?thesis by blast
qed

section \<open>Results as responses\<close>

lemma dget_error_items:
  assumes "ErrorData_to_dict tb err = Inr e"
  shows "truthy (PDict e)"
  using assms by (auto simp: ErrorData_to_dict_def to_dict_json_def split: sum.splits)

lemma ErrorData_Inr: "\<exists>e. ErrorData_to_dict tb err = Inr e"
  by (simp add: ErrorData_to_dict_def to_dict_json_Inr opt_str_def split: option.split)

lemma prep_function_output:
  "prep_call_result tb (CallResult None m v None) =
     (if v = PEmpty then Inr PNone
      else if serializable v then Inr v
      else Inl (LibErr C_OutputUnserializableError ''returned unserializable data''))"
  using json_dumps_Inr_iff [of v]
  by (auto simp: prep_call_result_def dump_json_def split: sum.splits)

lemma no_retry_headers: "\<not> dhas (create_headers v env fw k) (header_key_value HK_NO_RETRY)"
  by (auto simp: create_headers_def Let_def dhas_iff_dget split: option.split)

text \<open>C30: What the server learns of a function's end.  A serializable output is the body of a 200 response; an
  exception is a 500 response that forbids a retry exactly when the exception is not retriable, and that
  names the time of the retry exactly when it asks for one.\<close>

theorem function_result_response:
  fixes v :: pyobj
  assumes "serializable v"
  shows "from_call_result ce (CallResult_output v) env fw k
      = mk_CommResponse v (create_headers (ce_version ce) env (Some fw) k) 200
    \<and> cp_status (from_call_result ce (CallResult_error err) env fw k) = 500
    \<and> no_retry (from_call_result ce (CallResult_error err) env fw k) = (\<not> is_retriable err)
    \<and> retry_after_header (from_call_result ce (CallResult_error err) env fw k)
        = (case err of RetryAfterError m t q \<Rightarrow> Some (to_iso_utc t) | _ \<Rightarrow> None)"
proof -
  have v: "v \<noteq> PEmpty" using assms by auto
  have ok: "from_call_result ce (CallResult_output v) env fw k
      = mk_CommResponse v (create_headers (ce_version ce) env (Some fw) k) 200"
    using prep_function_output [of "ce_tb ce" None v] v assms
    by (simp add: from_call_result_def CallResult_output_def)
  obtain e where e: "ErrorData_to_dict (ce_tb ce) err = Inr e" using ErrorData_Inr by blast
  let ?h = "create_headers (ce_version ce) env (Some fw) k"
  have none: "dget ?h (header_key_value HK_NO_RETRY) = None" "dget ?h (header_key_value HK_RETRY_AFTER) = None"
    by (auto simp: create_headers_def Let_def split: option.split)
  have err: "from_call_result ce (CallResult_error err) env fw k = mk_CommResponse (PDict e)
      (let headers = (if is_retriable err = False then dset ?h (header_key_value HK_NO_RETRY) ''true'' else ?h)
       in case err of RetryAfterError m t q \<Rightarrow> dset headers (header_key_value HK_RETRY_AFTER) (to_iso_utc t)
          | _ \<Rightarrow> headers) 500"
    using e dget_error_items [OF e]
    by (simp add: from_call_result_def CallResult_error_def prep_call_result_def Let_def)
  have "is_retriable err" if "err = RetryAfterError m t q" for m t q
    by (simp add: that is_retriable_def)
  with ok err none show ?thesis
    by (cases err) (simp_all add: mk_CommResponse_def no_retry_def retry_after_header_def Let_def)
qed

theorem function_result_response_witness:
  "no_retry (from_call_result demo_ce (CallResult_error (NonRetriableError (Some ''m'') False)) None FW_FLASK None)"
  using function_result_response [of PNone demo_ce None FW_FLASK None "NonRetriableError (Some ''m'') False"]
  by (simp add: is_retriable_def)

text \<open>The response to a function whose output cannot be serialized does not forbid a retry, although its
  error, an \<open>OutputUnserializableError\<close>, is not retriable.\<close>

theorem unserializable_output_is_retried:
  assumes "\<not> serializable v" and "v \<noteq> PEmpty"
  shows "from_call_result ce (CallResult_output v) env fw k
      = from_error (LibErr C_OutputUnserializableError ''returned unserializable data'') 500
    \<and> no_retry (from_call_result ce (CallResult_output v) env fw k) = False
    \<and> is_retriable (LibErr C_OutputUnserializableError ''returned unserializable data'') = False"
  using assms prep_function_output [of "ce_tb ce" None v]
  by (simp add: from_call_result_def CallResult_output_def from_error_def mk_CommResponse_def no_retry_def
      is_retriable_def)

theorem unserializable_output_is_retried_witness:
  "no_retry (from_call_result demo_ce (CallResult_output (POpaque ''set'')) None FW_FLASK None) = False"
  by (rule unserializable_output_is_retried [THEN conjunct2, THEN conjunct1]) simp_all

section \<open>Steps as responses\<close>

lemma prep_step_result:
  assumes s: "StepInfo_to_dict s = Inr d" and v: "serializable v"
  shows "prep_call_result tb (CallResult err None v (Some s)) =
    Inr (PDict (dset (case err of None \<Rightarrow> d | Some e \<Rightarrow> dset d ''error'' (PDict (projr (ErrorData_to_dict tb e)))) ''data'' v))"
proof -
  have vd: "v \<noteq> PEmpty" "\<not> isl (dump_json v)"
    using v json_dumps_Inr_iff [of v] by (auto simp: dump_json_def split: sum.splits)
  show ?thesis
  proof (cases err)
    case (Some e)
    obtain x where "ErrorData_to_dict tb e = Inr x" using ErrorData_Inr by blast
    with Some vd s show ?thesis by (simp add: prep_call_result_def)
  qed (use vd s in \<open>simp add: prep_call_result_def\<close>)
qed

text \<open>C31: What the server learns of the steps of a call: one entry per response of the interrupt, in order,
  holding the step's description with its output and its error, in a 206 response that forbids a retry
  exactly when some step failed with an error that is not retriable.\<close>

theorem step_results_response:
  assumes "rs \<noteq> []" and "\<And>r. r \<in> set rs \<Longrightarrow> serializable (sp_output r)"
    and "\<And>r. r \<in> set rs \<Longrightarrow> StepInfo_to_dict (sp_step r) = Inr (d r)"
  shows "cp_body (from_call_result ce (from_responses rs) env fw k) =
      PList (map (\<lambda>r. PDict (dset (case sp_original_error r of None \<Rightarrow> d r
          | Some e \<Rightarrow> dset (d r) ''error'' (PDict (projr (ErrorData_to_dict (ce_tb ce) e)))) ''data'' (sp_output r))) rs)
    \<and> cp_status (from_call_result ce (from_responses rs) env fw k) = 206
    \<and> no_retry (from_call_result ce (from_responses rs) env fw k)
        = (\<exists>r \<in> set rs. \<exists>e. sp_original_error r = Some e \<and> \<not> is_retriable e)"
proof -
  let ?cr = "\<lambda>r. CallResult (sp_original_error r) None (sp_output r) (Some (sp_step r))"
  let ?f = "\<lambda>r. PDict (dset (case sp_original_error r of None \<Rightarrow> d r
          | Some e \<Rightarrow> dset (d r) ''error'' (PDict (projr (ErrorData_to_dict (ce_tb ce) e)))) ''data'' (sp_output r))"
  let ?h = "create_headers (ce_version ce) env (Some fw) k"
  have bodies: "multi_bodies (ce_tb ce) (map ?cr xs) b hs = Inr (b @ map ?f xs,
      if \<exists>r \<in> set xs. \<exists>e. sp_original_error r = Some e \<and> \<not> is_retriable e
      then dset hs (header_key_value HK_NO_RETRY) ''true'' else hs)"
    if "set xs \<subseteq> set rs" for xs b hs
    using that
  proof (induction xs arbitrary: b hs)
    case (Cons r xs)
    have "prep_call_result (ce_tb ce) (?cr r) = Inr (?f r)"
      by (rule prep_step_result) (use assms(2,3) [of r] Cons.prems in auto)
    with Cons show ?case
      by (simp split: option.split) (auto simp: dset_dset_same)
  qed simp
  have none: "dget ?h (header_key_value HK_NO_RETRY) = None"
    by (auto simp: create_headers_def Let_def split: option.split)
  obtain r rs' where rs: "rs = r # rs'" using assms(1) by (cases rs) auto
  have "from_call_result ce (from_responses rs) env fw k =
      (case multi_bodies (ce_tb ce) (map ?cr rs) [] ?h of
         Inl e \<Rightarrow> from_error e 500 | Inr (bodies, headers) \<Rightarrow> mk_CommResponse (PList bodies) headers 206)"
    by (simp only: from_call_result_def from_responses_def rs list.map call_result.sel option.case list.case Let_def)
  with bodies [of rs "[]" ?h] none show ?thesis
    by (simp add: mk_CommResponse_def no_retry_def)
qed

theorem step_results_response_witness:
  "cp_status (from_call_result demo_ce (from_responses [(mk_StepResponse
      \<lparr>si_display_name = ''a'', si_id = ''h'', si_name = None, si_op = OP_PLANNED, si_opts = None, si_userland = None\<rparr>)])
      None FW_FLASK None) = 206"
proof -
  let ?s = "\<lparr>si_display_name = ''a'', si_id = ''h'', si_name = None, si_op = OP_PLANNED, si_opts = None, si_userland = None\<rparr>"
  obtain d where "StepInfo_to_dict ?s = Inr d"
    by (simp add: StepInfo_to_dict_def to_dict_json_Inr userland_to_pyobj_def opt_str_def)
  then show ?thesis
    using step_results_response [of "[mk_StepResponse ?s]" "\<lambda>r. d" demo_ce None FW_FLASK None]
    by (simp add: mk_StepResponse_def)
qed

end
