(* ===== verification/SyncProps.thy ===== *)
theory SyncProps
  imports CommProps
begin

text \<open>
  Signed responses, registration and inspection: a response is signed with the key that signed the
  request, an in-band synchronization and the details of an inspection are for signed requests only, an
  out-of-band synchronization reports what the server answered, and the handler for non-async frameworks
  is the async one over non-async calls.
\<close>

section \<open>Signed responses\<close>

lemma validate_request_sig_cases:
  assumes "validate_request_sig hmac jcs body headers SK_CLOUD sk fb = Inr (Inr key)"
  obtains k c where "key = Some k" "Some k \<in> {sk, fb}" "canonicalize jcs body = Inr c"
    "validate_sig hmac c headers SK_CLOUD (Some k) = Inr (Inr (Some k))"
proof -
  obtain c where c: "canonicalize jcs body = Inr c"
    using assms by (cases "canonicalize jcs body") (auto simp: validate_request_sig_def)
  from assms obtain sk' where v: "validate_sig hmac c headers SK_CLOUD sk' = Inr (Inr key)" and sk: "sk' \<in> {sk, fb}"
    by (auto simp: validate_request_sig_def c bindE_def split: sum.splits if_splits)
  from v have "key = sk'" "sk' \<noteq> None"
    by (auto simp: validate_sig_def bindE_def Let_def split: option.splits sum.splits if_splits)
  with v sk c that show thesis by auto
qed

text \<open>Around a method that is called at all, the decorator only maps its result.\<close>

lemma wrap_handler_calls:
  assumes "cq_is_connect req = False"
    and "normalize_headers (map (\<lambda>(k, v). (k, HStr v)) (cq_headers req)) = Inr headers"
    and "validate_request_sig (ce_hmac ce) (ce_jcs ce) (cq_body req) headers (cl_mode (ch_client h))
           (ch_signing_key h) (ch_signing_key_fallback h) = Inr key" and "isl key \<longrightarrow> \<not> require"
  shows "wrap_handler ce h require method req w =
    (case method headers key w of (Inl e, w') \<Rightarrow> (Inl e, w') | (Inr res, w') \<Rightarrow> (Inr (wrap_response ce h key res), w'))"
  using assms by (cases key) (auto simp: wrap_handler_def monad_simps split: prod.split sum.split)

lemma wrap_response_signs:
  "\<exists>res'. wrap_response ce h (Inr (Some k)) res = (case sign_comm_response ce k res' of Inl e \<Rightarrow> res' | Inr signed \<Rightarrow> signed)"
  by (auto simp: wrap_response_def signed_key_def Let_def)

text \<open>Responses are signed.  In cloud mode, what a \<open>POST\<close> answers is the 401 for a request whose signature was refused, or
  has a body that does not serialize, or is signed over its body with one of the two configured keys, so that the
  server's check of the response accepts it.\<close>

lemma post_response_cases:
  assumes digest: "\<And>k m. is_hex_digest (ce_hmac ce k m)" and now: "0 < ce_now_s ce"
    and post: "post \<in> {CommHandler_post ce h, CommHandler_post_sync ce h}" and run: "post req w = (Inr r, w')"
    and conn: "cq_is_connect req = False" and mode: "cl_mode (ch_client h) = SK_CLOUD"
  obtains (refused) headers e where "normalize_headers (map (\<lambda>(k, v). (k, HStr v)) (cq_headers req)) = Inr headers"
      "validate_request_sig (ce_hmac ce) (ce_jcs ce) (cq_body req) headers SK_CLOUD (ch_signing_key h) (ch_signing_key_fallback h)
        = Inr (Inl e)" "r = from_error e 401"
    | (unserializable) e where "body_bytes r = Inl e"
    | (signed) b key where "body_bytes r = Inr b" "Some key \<in> {ch_signing_key h, ch_signing_key_fallback h}"
      "validate_response_sig (ce_hmac ce) b (cp_headers r) SK_CLOUD key = Inr (Inr (Some key))"
proof -
  obtain f where f: "wrap_handler ce h True f req w = (Inr r, w')"
    using post run by (auto simp: CommHandler_post_def CommHandler_post_sync_def)
  obtain headers where hs: "normalize_headers (map (\<lambda>(k, v). (k, HStr v)) (cq_headers req)) = Inr headers"
    using normalize_from_HStr unfolding normalize_headers_def by blast
  let ?v = "validate_request_sig (ce_hmac ce) (ce_jcs ce) (cq_body req) headers SK_CLOUD (ch_signing_key h) (ch_signing_key_fallback h)"
  consider (raises) e where "?v = Inl e" | (refuses) e where "?v = Inr (Inl e)" | (accepts) key' where "?v = Inr (Inr key')"
    by (metis sum.exhaust)
  then show thesis
  proof cases
    case raises
    with f show thesis by (simp add: wrap_handler_def conn hs mode monad_simps)
  next
    case (refuses e)
    with f have "r = from_error e 401" by (simp add: wrap_handler_def conn hs mode monad_simps)
    with hs refuses show thesis by (rule refused)
  next
    case (accepts key')
    from accepts obtain k c where key': "key' = Some k" and k: "Some k \<in> {ch_signing_key h, ch_signing_key_fallback h}"
      by (rule validate_request_sig_cases)
    obtain res where r: "r = (case sign_comm_response ce k res of Inl e \<Rightarrow> res | Inr signed \<Rightarrow> signed)"
      using f wrap_handler_calls [OF conn hs, of ce h "Inr key'" True f w] accepts key' mode wrap_response_signs [of ce h k]
      by (auto split: prod.splits sum.splits)
    show thesis
    proof (cases "body_bytes r")
      case (Inr b)
      then have b: "body_bytes res = Inr b"
        using r by (cases "body_bytes res") (auto simp: sign_comm_response_def body_bytes_def)
      then have "dget (cp_headers r) (header_key_value HK_SIGNATURE) = Some (sign_with (ce_hmac ce) b k (ce_now_s ce))"
        by (simp add: r sign_comm_response_def sign_response_def)
      from validate_sign_with [OF digest now refl this, of k]
      have "validate_response_sig (ce_hmac ce) b (cp_headers r) SK_CLOUD k = Inr (Inr (Some k))"
        by (simp add: validate_response_sig_def)
      with Inr k show thesis by (rule signed)
    qed (rule unserializable)
  qed
qed

lemma post_response_is_signed:
  assumes "\<And>k m. is_hex_digest (ce_hmac ce k m)" and "0 < ce_now_s ce"
    and "post \<in> {CommHandler_post ce h, CommHandler_post_sync ce h}" and "post req w = (Inr r, w')"
    and "cp_status r \<noteq> 401" and "body_bytes r = Inr b"
    and "cq_is_connect req = False" and "cl_mode (ch_client h) = SK_CLOUD"
  shows "\<exists>key. Some key \<in> {ch_signing_key h, ch_signing_key_fallback h}
    \<and> validate_response_sig (ce_hmac ce) b (cp_headers r) SK_CLOUD key = Inr (Inr (Some key))"
  using assms(1-4,7,8)
proof (cases rule: post_response_cases)
  case (signed b' key)
  with assms(6) show ?thesis by auto
qed (use assms(5,6) in \<open>auto simp: from_error_def mk_CommResponse_def\<close>)

lemma from_error_serializes: "\<exists>b. body_bytes (from_error e status) = Inr b"
  by (auto simp: from_error_def mk_CommResponse_def body_bytes_def dump_json_def split: sum.split)

lemma demo_post_answer:
  "\<exists>r w' b. CommHandler_post demo_ce (demo_comm []) demo_signed_request \<lparr>logging_enabled = True, logged = [], user = []\<rparr>
      = (Inr r, w') \<and> cp_status r = 500 \<and> body_bytes r = Inr b \<and> cp_stream r = None
      \<and> dget (cp_headers r) (header_key_value HK_SIGNATURE) \<noteq> None"
  using demo_signed_valid demo_signed_headers
  by (simp add: CommHandler_post_def wrap_handler_def wrap_response_def comm_post_def demo_signed_request_def demo_comm_def demo_ce_def
    demo_client_def monad_simps from_client_def lift_exc_def parse_query_params_def Let_def
    DEFAULT_CLIENT_MIDDLEWARE_def LoggerMiddleware_def manager_add_def disable_logging_def parse_request_def from_raw_def
    truthy_str_def signed_key_def sign_comm_response_def from_error_def mk_CommResponse_def body_bytes_def dump_json_def
    split: sum.splits)

section \<open>Synchronization\<close>

lemma in_band_unsigned: "signed_key key = None \<Longrightarrow> wants_in_band h headers \<Longrightarrow>
    \<exists>e. comm_put ce h req headers key = retM (Inr (from_error e 401))
      \<and> comm_put_sync ce h req headers key = retM (Inr (from_error e 401))"
  by (auto simp: comm_put_def comm_put_sync_def signed_key_def split: sum.splits option.splits)

lemma put_sync_in_band: "wants_in_band h headers \<Longrightarrow> comm_put_sync ce h req headers key = comm_put ce h req headers key"
  by (simp add: comm_put_def comm_put_sync_def split: sum.split option.split)

lemma in_band_state:
  assumes "wants_in_band h headers"
  shows "\<exists>x. comm_put ce h req headers key w = (x, w)"
  using assms by (auto simp: comm_put_def monad_simps split: sum.splits option.splits)

text \<open>C36: An in-band synchronization is answered from what the app registered alone, without any effect, and only
  to a request whose signature was verified: anything else is refused with a 401, in dev mode too, where
  no signature is looked at.\<close>

theorem in_band_sync_needs_signature:
  assumes "put \<in> {CommHandler_put ce h, CommHandler_put_sync ce h}" and "put req w = (Inr r, w')"
    and conn: "cq_is_connect req = False"
    and headers: "normalize_headers (map (\<lambda>(k, v). (k, HStr v)) (cq_headers req)) = Inr headers"
    and wants: "wants_in_band h headers"
  shows "w' = w \<and> (cp_status r = 401 \<or> cl_mode (ch_client h) = SK_CLOUD \<and> (\<exists>key sig c.
      dget headers (header_key_value HK_SIGNATURE) = Some sig \<and> canonicalize (ce_jcs ce) (cq_body req) = Inr c
      \<and> Some key \<in> {ch_signing_key h, ch_signing_key_fallback h} \<and> signed_with (ce_hmac ce) c sig key))"
proof -
  have "\<exists>key. validate_request_sig (ce_hmac ce) (ce_jcs ce) (cq_body req) headers (cl_mode (ch_client h))
           (ch_signing_key h) (ch_signing_key_fallback h) = Inr key"
    using assms(1,2) headers conn
    by (auto simp: CommHandler_put_def CommHandler_put_sync_def wrap_handler_def monad_simps bindE_def split: sum.splits)
  then obtain key where v: "validate_request_sig (ce_hmac ce) (ce_jcs ce) (cq_body req) headers (cl_mode (ch_client h))
           (ch_signing_key h) (ch_signing_key_fallback h) = Inr key" by blast
  have run: "(case comm_put ce h req headers key w of (Inl e, w') \<Rightarrow> (Inl e, w')
      | (Inr res, w') \<Rightarrow> (Inr (wrap_response ce h key res), w')) = (Inr r, w')"
    using assms(1,2) wrap_handler_calls [OF conn headers v, of False] put_sync_in_band [OF wants]
    by (auto simp: CommHandler_put_def CommHandler_put_sync_def)
  obtain x where x: "comm_put ce h req headers key w = (x, w)" using in_band_state [OF wants] by blast
  have "w' = w" using run x by (cases x) auto
  moreover have "cp_status r = 401" if key: "signed_key key = None"
  proof -
    obtain e where "comm_put ce h req headers key = retM (Inr (from_error e 401))"
      using in_band_unsigned [OF key wants] by blast
    then show ?thesis
      using run key by (auto simp: monad_simps wrap_response_def Let_def from_error_def mk_CommResponse_def)
  qed
  moreover have "cl_mode (ch_client h) = SK_CLOUD \<and> (\<exists>key sig c.
      dget headers (header_key_value HK_SIGNATURE) = Some sig \<and> canonicalize (ce_jcs ce) (cq_body req) = Inr c
      \<and> Some key \<in> {ch_signing_key h, ch_signing_key_fallback h} \<and> signed_with (ce_hmac ce) c sig key)"
    if signed: "signed_key key \<noteq> None"
  proof -
    obtain k where key: "key = Inr (Some k)" using signed by (auto simp: signed_key_def split: sum.splits option.splits)
    have mode: "cl_mode (ch_client h) = SK_CLOUD"
      using v key by (cases "cl_mode (ch_client h)"; cases "canonicalize (ce_jcs ce) (cq_body req)")
        (auto simp: validate_request_sig_def validate_sig_def)
    obtain c where c: "Some k \<in> {ch_signing_key h, ch_signing_key_fallback h}" "canonicalize (ce_jcs ce) (cq_body req) = Inr c"
      "validate_sig (ce_hmac ce) c headers SK_CLOUD (Some k) = Inr (Inr (Some k))"
      using v [unfolded mode key] by (rule validate_request_sig_cases) auto
    with validate_sig_accepts [OF c(3)] mode show ?thesis by auto
  qed
  ultimately show ?thesis by blast
qed

text \<open>In dev mode the signature is ignored, so an in-band synchronization is refused.\<close>

theorem in_band_sync_needs_signature_witness:
  "\<exists>r. CommHandler_put demo_ce ((demo_comm [])\<lparr>ch_client := demo_client\<lparr>cl_mode := SK_DEV_SERVER\<rparr>\<rparr>)
      (demo_signed_request\<lparr>cq_headers := [(''X-Inngest-Sync-Kind'', ''in_band'')]\<rparr>) demo_out = (Inr r, demo_out) \<and> cp_status r = 401"
proof -
  let ?h = "(demo_comm [])\<lparr>ch_client := demo_client\<lparr>cl_mode := SK_DEV_SERVER\<rparr>\<rparr>"
  let ?req = "demo_signed_request\<lparr>cq_headers := [(''X-Inngest-Sync-Kind'', ''in_band'')]\<rparr>"
  have hs: "normalize_headers (map (\<lambda>(k, v). (k, HStr v)) (cq_headers ?req)) = Inr [(header_key_value HK_SYNC_KIND, ''in_band'')]"
    by code_simp
  have wants: "wants_in_band ?h [(header_key_value HK_SYNC_KIND, ''in_band'')]"
    by (simp add: wants_in_band_def demo_comm_def)
  have conn: "cq_is_connect ?req = False" by (simp add: demo_signed_request_def)
  have parts: "cl_mode (ch_client ?h) = SK_DEV_SERVER" "ce_jcs demo_ce = Inr" "cq_body ?req = []"
    by (simp_all add: demo_ce_def demo_signed_request_def)
  have "\<not> isl (fst (CommHandler_put demo_ce ?h ?req demo_out))"
    using hs by (simp add: CommHandler_put_def wrap_handler_def validate_request_sig_def validate_sig_def canonicalize_def
      comm_put_def wants [simplified] conn [simplified] parts [simplified] monad_simps)
  then obtain r w' where r: "CommHandler_put demo_ce ?h ?req demo_out = (Inr r, w')"
    by (cases "CommHandler_put demo_ce ?h ?req demo_out"; cases "fst (CommHandler_put demo_ce ?h ?req demo_out)") auto
  have "w' = demo_out \<and> (cp_status r = 401 \<or> cl_mode (ch_client ?h) = SK_CLOUD \<and> (\<exists>key sig c.
      dget [(header_key_value HK_SYNC_KIND, ''in_band'')] (header_key_value HK_SIGNATURE) = Some sig
      \<and> canonicalize (ce_jcs demo_ce) (cq_body ?req) = Inr c
      \<and> Some key \<in> {ch_signing_key ?h, ch_signing_key_fallback ?h} \<and> signed_with (ce_hmac demo_ce) c sig key))"
    by (rule in_band_sync_needs_signature [where put = "CommHandler_put demo_ce ?h", OF _ r conn hs wants]) simp
  with r show ?thesis by auto
qed

text \<open>An out-of-band synchronization whose request the server answers with a JSON object is reported as a
  success, with status 200 and the server's object, whatever the status of the server's answer.\<close>

theorem out_of_band_ignores_status:
  assumes "create_out_of_band_request ce h req headers = Inr (Inr (Inr request))"
    and "fetch_with_auth_fallback (ch_http h) request (ch_signing_key h) (ch_signing_key_fallback h) w = (Inr (Inr res), w')"
    and "hp_json res = Inr (PDict d)"
  shows "out_of_band ce h req headers w
    = (Inr (Inr (mk_CommResponse (PDict d) [(header_key_value HK_SYNC_KIND, sync_kind_value SY_OUT_OF_BAND)] 200)), w')"
  using assms by (simp add: out_of_band_def monad_simps lift_exc_def parse_out_of_band_response_def)

text \<open>A network on which every request is refused with a 500 and a JSON object.\<close>

definition refusing_http :: "'s http" where
  "refusing_http = (let send = (\<lambda>r s. (Inr \<lparr>hp_status = 500, hp_text = ''{}'', hp_json = Inr (PDict []), hp_content = []\<rparr>, s)) in
     dead_http\<lparr>hx_send := send, hx_send_sync := send\<rparr>)"

definition demo_config :: function_config where
  "demo_config = \<lparr>fc_batch_events = None, fc_cancel = None, fc_concurrency = None, fc_debounce = None, fc_id = ''app-fn'',
     fc_idempotency = None, fc_name = Some ''fn'', fc_priority = None, fc_rate_limit = None,
     fc_steps = [(ROOT_STEP_ID, \<lparr>sc_id = ROOT_STEP_ID, sc_name = ROOT_STEP_ID, sc_retries = None,
        sc_runtime = \<lparr>rt_type = ''http'', rt_url = config_url ''http://x'' ''app-fn''\<rparr>\<rparr>)],
     fc_throttle = None, fc_timeouts = None, fc_singleton = None, fc_triggers = [TriggerEvent ''e'' None]\<rparr>"

lemma demo_get_config: "get_config (demo_fn hnd) ''http://x'' = Inr \<lparr>cfg_main = demo_config, cfg_on_failure = None\<rparr>"
  by (simp add: get_config_def demo_fn_def demo_opts_def Let_def config_url_def demo_config_def)

theorem out_of_band_ignores_status_witness:
  "\<exists>r. fst (out_of_band demo_ce ((demo_comm [demo_fn (\<lambda>exe ctx. retM PNone)])\<lparr>ch_http := refusing_http, ch_signing_key := None\<rparr>)
      demo_signed_request [] demo_out) = Inr (Inr r) \<and> cp_status r = 200"
proof -
  define h where h: "h = (demo_comm [demo_fn (\<lambda>exe ctx. retM PNone)])\<lparr>ch_http := refusing_http, ch_signing_key := None\<rparr>"
  have url: "comm_serve_url demo_ce demo_signed_request (cq_request_url demo_signed_request) = Inr ''http://x''"
    "join_url DEFAULT_API_ORIGIN ''/fn/register'' = Inr ''https://api.inngest.com/fn/register''"
    "lenient_server_kind [] = None" by code_simp+
  have params: "parse_query_params [] = Inr (Inr \<lparr>qp_fn_id = None, qp_probe = None, qp_step_id = None, qp_sync_id = None\<rparr>)"
    by code_simp
  have configs: "get_function_configs ''http://x'' (ch_fns h) = Inr (Inr [demo_config])"
    by (simp add: h get_function_configs_def demo_comm_def dvalues_def demo_get_config)
  have "case SynchronizeRequest_to_dict \<lparr>sr_app_name = ''app'', sr_app_version = None, sr_framework = FW_FLASK,
             sr_functions = [demo_config], sr_sdk = ''py:v1'', sr_url = ''http://x'', sr_v = ''0.1''\<rparr> of Inr r \<Rightarrow> True | Inl e \<Rightarrow> False"
    by code_simp
  then obtain body where body: "SynchronizeRequest_to_dict \<lparr>sr_app_name = ''app'', sr_app_version = None, sr_framework = FW_FLASK,
             sr_functions = [demo_config], sr_sdk = ''py:v1'', sr_url = ''http://x'', sr_v = ''0.1''\<rparr> = Inr body"
    by (auto split: sum.splits)
  have parts: "ch_client h = demo_client" "ch_mode h = SK_CLOUD" "ch_api_origin h = DEFAULT_API_ORIGIN"
    "ch_framework h = FW_FLASK" "ch_http h = refusing_http" "ch_signing_key h = None"
    "ch_signing_key_fallback h = None" "cq_query_params demo_signed_request = []" "ce_version demo_ce = ''1''"
    "cl_app_id demo_client = ''app''" "cl_app_version demo_client = None" "hx_build refusing_http = Inr"
    by (simp_all add: h demo_comm_def demo_signed_request_def demo_ce_def demo_client_def refusing_http_def dead_http_def Let_def)
  obtain request where request: "create_out_of_band_request demo_ce h demo_signed_request [] = Inr (Inr (Inr request))"
    using body by (simp add: create_out_of_band_request_def url params configs parts LANGUAGE_def)
  have "fetch_with_auth_fallback (ch_http h) request (ch_signing_key h) (ch_signing_key_fallback h) demo_out
      = (Inr (Inr \<lparr>hp_status = 500, hp_text = ''{}'', hp_json = Inr (PDict []), hp_content = []\<rparr>), demo_out)"
    by (simp add: parts fetch_with_auth_fallback_def fetch_with_thready_safety_def monad_simps refusing_http_def dead_http_def Let_def)
  from out_of_band_ignores_status [OF request this] show ?thesis
    by (simp add: h [symmetric] mk_CommResponse_def)
qed

section \<open>Inspection\<close>

text \<open>C37: An unsigned inspection does not depend on secrets.  Two apps that differ in nothing but the values of their
  event key and signing keys answer a \<open>GET\<close> without a signature header alike.\<close>

theorem unsigned_inspection_hides_keys:
  assumes conn: "cq_is_connect req = False"
    and headers: "normalize_headers (map (\<lambda>(k, v). (k, HStr v)) (cq_headers req)) = Inr headers"
    and unsigned: "dget headers (header_key_value HK_SIGNATURE) = None"
    and h': "h' = h\<lparr>ch_signing_key := sk, ch_signing_key_fallback := fb, ch_client := (ch_client h)\<lparr>cl_event_key := ek\<rparr>\<rparr>"
    and same: "(sk = None) = (ch_signing_key h = None)" "(fb = None) = (ch_signing_key_fallback h = None)"
      "(ek = None) = (cl_event_key (ch_client h) = None)"
  shows "CommHandler_get_sync ce h' req w = CommHandler_get_sync ce h req w"
proof -
  have sig: "\<exists>key. validate_sig (ce_hmac ce) c headers m k = Inr key \<and> signed_key key = None" for c m k
    using unsigned by (auto simp: validate_sig_def signed_key_def)
  have valid: "\<exists>key. validate_request_sig (ce_hmac ce) (ce_jcs ce) (cq_body req) headers (cl_mode (ch_client h)) k1 k2 = Inr key
      \<and> signed_key key = None" for k1 k2
  proof (cases "canonicalize (ce_jcs ce) (cq_body req)")
    case (Inr c)
    obtain a where "validate_sig (ce_hmac ce) c headers (cl_mode (ch_client h)) k1 = Inr a" "signed_key a = None"
      using sig by blast
    then show ?thesis using sig by (simp add: validate_request_sig_def Inr)
  qed (simp add: validate_request_sig_def signed_key_def)
  obtain key key' where v: "validate_request_sig (ce_hmac ce) (ce_jcs ce) (cq_body req) headers (cl_mode (ch_client h))
      (ch_signing_key h) (ch_signing_key_fallback h) = Inr key" "signed_key key = None"
    "validate_request_sig (ce_hmac ce) (ce_jcs ce) (cq_body req) headers (cl_mode (ch_client h')) (ch_signing_key h')
      (ch_signing_key_fallback h') = Inr key'" "signed_key key' = None"
    using valid [of "ch_signing_key h" "ch_signing_key_fallback h"] valid [of sk fb] by (auto simp: h')
  have "comm_get_sync ce h' req headers key' = comm_get_sync ce h req headers key"
    using same by (simp add: comm_get_sync_def v build_inspection_def h' Let_def del: not_None_eq)
  moreover have "wrap_response ce h' key' res = wrap_response ce h key res" for res
    by (simp add: wrap_response_def v h')
  ultimately show ?thesis
    using wrap_handler_calls [OF conn headers v(1), of False] wrap_handler_calls [OF conn headers v(3), of False]
    by (simp add: CommHandler_get_sync_def split: prod.split sum.split)
qed

theorem unsigned_inspection_hides_keys_witness:
  "CommHandler_get_sync demo_ce ((demo_comm [])\<lparr>ch_signing_key := Some ''other''\<rparr>) (demo_signed_request\<lparr>cq_headers := []\<rparr>) demo_out
    = CommHandler_get_sync demo_ce (demo_comm []) (demo_signed_request\<lparr>cq_headers := []\<rparr>) demo_out"
  by (rule unsigned_inspection_hides_keys [where headers = "[]" and sk = "Some ''other''" and fb = None and ek = None])
     (simp_all add: demo_signed_request_def normalize_headers_def demo_comm_def demo_client_def)

section \<open>The non-async handler\<close>

text \<open>If no function of the app has an async handler and the server sends the events and the steps within the request, then
  \<open>post\<close> and \<open>post_sync\<close> do the same.\<close>

lemma post_sync_eq:
  assumes sync: "\<And>fn. fn \<in> set (dvalues (ch_fns h)) \<Longrightarrow> is_handler_async fn = False"
    and inline: "\<And>request. parse_request ce (cq_body req) = Inr request \<Longrightarrow> \<not> req_use_api request"
  shows "CommHandler_post_sync ce h req = CommHandler_post ce h req"
proof -
  have served: "is_handler_async fn = False" if "get_function h fnid = Inr fn" for fnid fn
    using that sync by (auto simp: get_function_def find_Some_iff split: option.splits)
  have "comm_post_sync ce h req headers w = comm_post ce h req headers w" for headers w
  proof (cases "\<exists>request. parse_request ce (cq_body req) = Inr request")
    case True
    then obtain request where r: "parse_request ce (cq_body req) = Inr request" "\<not> req_use_api request"
      using inline by blast
    show ?thesis
      unfolding comm_post_def comm_post_sync_def
      by (auto simp: monad_simps r fetch_inputs_def fetch_inputs_sync_def served Let_def
          split: sum.split option.split prod.split)
  next
    case False
    then obtain e where "parse_request ce (cq_body req) = Inl e" by (cases "parse_request ce (cq_body req)") auto
    then show ?thesis
      by (auto simp: comm_post_def comm_post_sync_def monad_simps Let_def split: sum.split prod.split)
  qed
  then have "comm_post_sync ce h req = comm_post ce h req" by (intro ext)
  then show ?thesis by (simp add: CommHandler_post_def CommHandler_post_sync_def)
qed

end
