(* ===== verification/Serving.thy ===== *)
theory Serving
  imports SyncProps
begin

text \<open>
  From the server's request to the user's handler and back: the parts of \<open>Comm\<close>, \<open>Net\<close> and \<open>Func\<close> put together.
  A request that the server signs and sends to a registered URL runs the registered handler on the memos that it
  carries, and its signed answer is the call's result.  An identifier without the app's prefix, which the lookup
  accepts for old registrations, finds its function and is then refused by it.
  A non-async framework's \<open>post_sync\<close> answers as \<open>post\<close> does when it serves no async function
  and the request carries its inputs.
\<close>

section \<open>The path of a request\<close>

text \<open>The call of a function in its own mode.\<close>

definition call_function :: "'u inngest_fn \<Rightarrow> 'u exe \<Rightarrow> fn_context \<Rightarrow> string \<Rightarrow> ('u, call_result) step_m" where
  "call_function fn = (if is_handler_async fn then Function_call fn else Function_call_sync fn)"

lemma comm_post_calls:
  assumes params: "parse_query_params (cq_query_params req)
      = Inr (Inr \<lparr>qp_fn_id = Some fnid, qp_probe = None, qp_step_id = step, qp_sync_id = sync\<rparr>)"
    and fn: "get_function h fnid = Inr fn"
    and body: "parse_request ce (cq_body req) = Inr request" "\<not> req_use_api request" "req_events request = Some events"
    and streaming: "ch_streaming h \<noteq> ST_FORCE" and mgr: "from_client (ch_client h) out = (Inr mgr, out1)"
  shows "comm_post ce h req headers out =
    (case run_call (call_function fn (comm_exe ce h request step) (comm_context request events) fnid)
            (StepMemos_from_raw (ce_json ce) (req_steps request)) mgr out1 of
       (Inl e, out2) \<Rightarrow> (Inl e, out2)
     | (Inr call_res, out2) \<Rightarrow> (Inr (Inr (from_call_result ce call_res (cl_env (ch_client h)) (ch_framework h) (lenient_server_kind headers))), out2))"
  using assms by (simp add: comm_post_def call_function_def fetch_inputs_def lift_exc_def monad_simps Let_def split: prod.split sum.split)

lemma config_reaches_query:
  assumes "config_reaches h app_url fn c hnd" and "(name, s) \<in> set (fc_steps c)" and "rt_url (sc_runtime s) = app_url @ ''?'' @ q"
  shows "parse_query_params (map (\<lambda>(k, v). (k, HStr v)) (parse_qsl q))
      = Inr (Inr \<lparr>qp_fn_id = Some (fc_id c), qp_probe = None, qp_step_id = None, qp_sync_id = None\<rparr>)"
    "get_function h (fc_id c) = Inr fn" "\<exists>ty. select_handler fn (fc_id c) = Inr (hnd, ty)"
proof -
  from assms(1) obtain q' where q': "map (\<lambda>(k, s). rt_url (sc_runtime s)) (fc_steps c) = [app_url @ ''?'' @ q']"
    "parse_query_params (map (\<lambda>(k, v). (k, HStr v)) (parse_qsl q'))
      = Inr (Inr \<lparr>qp_fn_id = Some (fc_id c), qp_probe = None, qp_step_id = None, qp_sync_id = None\<rparr>)"
    "get_function h (fc_id c) = Inr fn" "\<exists>ty. select_handler fn (fc_id c) = Inr (hnd, ty)"
    unfolding config_reaches_def by (elim exE conjE) (rule that, auto)
  have "(\<lambda>(k, s). rt_url (sc_runtime s)) (name, s) \<in> set (map (\<lambda>(k, s). rt_url (sc_runtime s)) (fc_steps c))"
    unfolding set_map using assms(2) by (rule imageI)
  with q'(1) assms(3) have "q' = q" by simp
  with q' show "parse_query_params (map (\<lambda>(k, v). (k, HStr v)) (parse_qsl q))
      = Inr (Inr \<lparr>qp_fn_id = Some (fc_id c), qp_probe = None, qp_step_id = None, qp_sync_id = None\<rparr>)"
    "get_function h (fc_id c) = Inr fn" "\<exists>ty. select_handler fn (fc_id c) = Inr (hnd, ty)" by simp_all
qed

lemma CommHandler_init_client:
  "CommHandler_init env http client framework fns streaming = Inr h \<Longrightarrow> ch_client h = client"
  by (auto simp: CommHandler_init_def Let_def split: if_splits)

text \<open>C27: A signed request to a registered URL runs the registered handler.  Let a function be registered with unambiguous
  identifiers, and let the server \<open>POST\<close>, in cloud mode, to the URL of its main configuration or to that of its failure
  configuration, with a body that carries the events and the steps, signed with one of the two configured keys.  Then
  the request is answered by one call of that function on the memos made of the steps, in which it selects the given
  handler or the given \<open>on_failure\<close> handler; the response is the call's result, completed and signed with a configured
  key; when its body serializes, the server's check accepts the response.\<close>

theorem signed_post_runs_handler:
  assumes init: "CommHandler_init env http client framework fns streaming = Inr h" and mode: "cl_mode client = SK_CLOUD"
    and fn: "mk_Function opts trigger hnd ty mw = Inr fn" "fn \<in> set fns" "distinct (map get_id fns)"
    and unique: "\<And>g i. g \<in> set fns \<Longrightarrow> serves i fn \<Longrightarrow> serves i g \<Longrightarrow> g = fn"
    and id: "get_id fn \<noteq> []" "is_ascii (get_id fn)"
    and cfg: "get_config fn app_url = Inr cfg"
    and target: "c = cfg_main cfg \<and> target = hnd \<or> cfg_on_failure cfg = Some c \<and> fo_on_failure opts = Some target"
    and url: "(name, s) \<in> set (fc_steps c)" "rt_url (sc_runtime s) = app_url @ ''?'' @ q"
      "cq_query_params req = map (\<lambda>(k, v). (k, HStr v)) (parse_qsl q)" "cq_is_connect req = False"
    and signed: "\<And>k m. is_hex_digest (ce_hmac ce k m)" "0 < t" "0 < ce_now_s ce"
      "sign_request (ce_hmac ce) (ce_jcs ce) now (cq_body req) key (Some t) = Inr sig"
      "normalize_headers (map (\<lambda>(k, v). (k, HStr v)) (cq_headers req)) = Inr headers"
      "dget headers (header_key_value HK_SIGNATURE) = Some sig"
      "ch_signing_key h = Some sk" "key = sk \<or> ch_signing_key_fallback h = Some key"
    and body: "parse_request ce (cq_body req) = Inr request" "\<not> req_use_api request" "req_events request = Some events"
    and streaming: "ch_streaming h \<noteq> ST_FORCE" and mgr: "from_client client out = (Inr mgr, out1)"
  shows "\<exists>k. Some k \<in> {Some sk, ch_signing_key_fallback h} \<and> (\<exists>ty. select_handler fn (fc_id c) = Inr (target, ty))
    \<and> CommHandler_post ce h req out =
      (case run_call (call_function fn (comm_exe ce h request None) (comm_context request events) (fc_id c))
              (StepMemos_from_raw (ce_json ce) (req_steps request)) mgr out1 of
         (Inl e, out2) \<Rightarrow> (Inl e, out2)
       | (Inr call_res, out2) \<Rightarrow> (Inr (wrap_response ce h (Inr (Some k)) (Inr (from_call_result ce call_res
            (cl_env client) (ch_framework h) (lenient_server_kind headers)))), out2))
    \<and> (\<forall>r out2 b. CommHandler_post ce h req out = (Inr r, out2) \<longrightarrow> cp_status r \<noteq> 401 \<longrightarrow> body_bytes r = Inr b \<longrightarrow>
        (\<exists>k'. Some k' \<in> {Some sk, ch_signing_key_fallback h}
          \<and> validate_response_sig (ce_hmac ce) b (cp_headers r) SK_CLOUD k' = Inr (Inr (Some k'))))"
proof -
  note client = CommHandler_init_client [OF init]
  have "config_reaches h app_url fn c target"
    using target
  proof (elim disjE conjE)
    assume "c = cfg_main cfg" "target = hnd"
    then show ?thesis by simp (rule registered_configs_reach(1) [OF init fn _ id cfg], use unique in blast)
  next
    assume "cfg_on_failure cfg = Some c" "fo_on_failure opts = Some target"
    then show ?thesis by (rule registered_configs_reach(2) [OF init fn _ id cfg, rotated]) (use unique in blast)
  qed
  note reach = config_reaches_query [OF this url(1,2)]
  have "\<exists>k\<in>{Some sk, ch_signing_key_fallback h}. validate_request_sig (ce_hmac ce) (ce_jcs ce) (cq_body req) headers SK_CLOUD
      (Some sk) (ch_signing_key_fallback h) = Inr (Inr k)"
    by (rule sign_validate_roundtrip [OF signed(1,2,4,6,8)])
  then obtain k0 where valid: "validate_request_sig (ce_hmac ce) (ce_jcs ce) (cq_body req) headers SK_CLOUD
      (ch_signing_key h) (ch_signing_key_fallback h) = Inr (Inr k0)" using signed(7) by auto
  obtain k where k: "k0 = Some k" "Some k \<in> {ch_signing_key h, ch_signing_key_fallback h}"
    using valid by (rule validate_request_sig_cases)
  note valid = valid [unfolded k(1)]
  have "wrap_handler ce h True (\<lambda>headers key. comm_post ce h req headers) req out =
      (case comm_post ce h req headers out of (Inl e, w') \<Rightarrow> (Inl e, w') | (Inr res, w') \<Rightarrow> (Inr (wrap_response ce h (Inr (Some k)) res), w'))"
    using wrap_handler_calls [OF url(4) signed(5), of ce h "Inr (Some k)" True "\<lambda>headers key. comm_post ce h req headers" out] valid mode client
    by simp
  note answer = this [folded CommHandler_post_def,
    unfolded comm_post_calls [of req, unfolded url(3), OF reach(1,2) body streaming mgr [folded client]] client]
  have sk: "Some k \<in> {Some sk, ch_signing_key_fallback h}" using k(2) signed(7) by simp
  have "\<exists>k'. Some k' \<in> {Some sk, ch_signing_key_fallback h} \<and> validate_response_sig (ce_hmac ce) b (cp_headers r) SK_CLOUD k' = Inr (Inr (Some k'))"
    if "CommHandler_post ce h req out = (Inr r, out2)" "cp_status r \<noteq> 401" "body_bytes r = Inr b" for r out2 b
    using post_response_is_signed [of ce "CommHandler_post ce h" h req out r out2 b, OF signed(1,3) _ that url(4)] mode client signed(7) by simp
  with sk reach(3) answer show ?thesis
    by (intro exI [of _ k] conjI) (auto split: prod.split sum.split)
qed

text \<open>A request of the server on which this is instantiated: the first call of a run, without steps.\<close>

definition demo_call :: pyobj where
  "demo_call = (let event = PDict [(''name'', PStr ''e'')] in PDict
     [(''ctx'', PDict [(''attempt'', PInt 0), (''disable_immediate_execution'', PBool False), (''run_id'', PStr ''run''),
        (''stack'', PDict [])]),
      (''event'', event), (''events'', PList [event]), (''steps'', PDict []), (''use_api'', PBool False)])"

definition serving_ce :: comm_env where
  "serving_ce = demo_ce\<lparr>ce_json := (\<lambda>b. Inr demo_call)\<rparr>"

lemma serving_ce_simps [simp]:
  "ce_hmac serving_ce = toy_hmac" "ce_jcs serving_ce = Inr" "ce_now_s serving_ce = 1"
  "parse_request serving_ce body = Inr \<lparr>req_ctx = \<lparr>ctx_attempt = 0, ctx_disable_immediate_execution = False,
       ctx_max_attempts = None, ctx_run_id = ''run'', ctx_stack = None\<rparr>,
     req_event = \<lparr>ev_data = [], ev_id = [], ev_name = ''e'', ev_ts = 0\<rparr>,
     req_events = Some [\<lparr>ev_data = [], ev_id = [], ev_name = ''e'', ev_ts = 0\<rparr>], req_steps = [], req_use_api = False\<rparr>"
  by (simp_all add: serving_ce_def demo_ce_def parse_request_def from_raw_def demo_call_def Let_def
      ServerRequest_validate_def ServerRequestCtx_validate_def ServerRequestCtxStack_validate_def Event_validate_def
      validation_defs)

lemma header_lower: "py_lower (header_key_value HK_SIGNATURE) = header_key_value HK_SIGNATURE" by code_simp

theorem signed_post_runs_handler_witness:
  "\<exists>h fn cfg req mgr out1 request k.
    mk_Function (demo_opts\<lparr>fo_on_failure := Some ((\<lambda>exe ctx. retM PNone), True)\<rparr>) [TriggerEvent ''e'' None]
       ((\<lambda>exe ctx. retM (PInt 1)), True) None None = Inr fn
    \<and> CommHandler_init (\<lambda>k. None) dead_http (demo_client\<lparr>cl_signing_key := Some ''k''\<rparr>) FW_FLASK [fn] None = Inr h
    \<and> get_config fn ''http://x'' = Inr cfg \<and> parse_request serving_ce (cq_body req) = Inr request
    \<and> cq_headers req = [(header_key_value HK_SIGNATURE, sign_with toy_hmac ''{}'' ''k'' 7)]
    \<and> (\<exists>ty. select_handler fn (fc_id (cfg_main cfg)) = Inr (((\<lambda>exe ctx. retM (PInt 1)), True), ty))
    \<and> CommHandler_post serving_ce h req demo_out =
      (case run_call (call_function fn (comm_exe serving_ce h request None) (comm_context request [req_event request]) (fc_id (cfg_main cfg)))
              (StepMemos_from_raw (ce_json serving_ce) (req_steps request)) mgr out1 of
         (Inl e, out2) \<Rightarrow> (Inl e, out2)
       | (Inr call_res, out2) \<Rightarrow> (Inr (wrap_response serving_ce h (Inr (Some k)) (Inr (from_call_result serving_ce call_res
            None FW_FLASK None))), out2))"
proof -
  let ?hnd = "((\<lambda>exe ctx. retM (PInt 1)) :: string list exe \<Rightarrow> string list handler, True)"
  let ?opts = "demo_opts\<lparr>fo_on_failure := Some ((\<lambda>exe ctx. retM PNone) :: string list exe \<Rightarrow> string list handler, True)\<rparr>"
  let ?client = "demo_client\<lparr>cl_signing_key := Some ''k''\<rparr>"
  obtain fn where fn: "mk_Function ?opts [TriggerEvent ''e'' None] ?hnd None None = Inr fn"
    by (simp add: mk_Function_def Let_def is_handler_async_def is_on_failure_handler_async_def demo_opts_def)
  note facts = mk_Function_facts [OF fn]
  obtain h where h: "CommHandler_init (\<lambda>k. None) dead_http ?client FW_FLASK [fn] None = Inr h"
    "ch_signing_key h = Some ''k''" "ch_signing_key_fallback h = None" "ch_streaming h \<noteq> ST_FORCE" "ch_framework h = FW_FLASK"
    by (simp add: CommHandler_init_def Let_def demo_client_def get_streaming_def getenv_def)
  obtain cfg name s where cfg: "get_config fn ''http://x'' = Inr cfg" "fc_steps (cfg_main cfg) = [(name, s)]"
    "rt_url (sc_runtime s) = config_url ''http://x'' (get_id fn)"
    by (simp add: get_config_def Let_def facts demo_opts_def get_id_def)
  obtain mgr out1 where mgr: "from_client ?client demo_out = (Inr mgr, out1)"
    by (simp add: from_client_def monad_simps demo_client_def DEFAULT_CLIENT_MIDDLEWARE_def LoggerMiddleware_def
        manager_add_def)
  let ?q = "urlencode [(''fnId'', get_id fn), (''stepId'', ROOT_STEP_ID)]"
  let ?headers = "[(header_key_value HK_SIGNATURE, sign_with toy_hmac ''{}'' ''k'' 7)]"
  let ?events = "[\<lparr>ev_data = [], ev_id = [], ev_name = ''e'', ev_ts = 0\<rparr>]"
  let ?request = "\<lparr>req_ctx = \<lparr>ctx_attempt = 0, ctx_disable_immediate_execution = False, ctx_max_attempts = None,
       ctx_run_id = ''run'', ctx_stack = None\<rparr>, req_event = hd ?events, req_events = Some ?events, req_steps = [], req_use_api = False\<rparr>"
  let ?req = "\<lparr>cq_body = ''{}'', cq_headers = [(header_key_value HK_SIGNATURE, sign_with toy_hmac ''{}'' ''k'' 7)],
     cq_is_connect = False, cq_public_path = None, cq_query_params = map (\<lambda>(k, v). (k, HStr v)) (parse_qsl ?q),
     cq_request_url = ''http://x'', cq_serve_origin = None, cq_serve_path = None\<rparr>"
  have "\<exists>k. Some k \<in> {Some ''k'', ch_signing_key_fallback h} \<and> (\<exists>ty. select_handler fn (fc_id (cfg_main cfg)) = Inr (?hnd, ty))
    \<and> CommHandler_post serving_ce h ?req demo_out =
      (case run_call (call_function fn (comm_exe serving_ce h ?request None) (comm_context ?request ?events) (fc_id (cfg_main cfg)))
              (StepMemos_from_raw (ce_json serving_ce) (req_steps ?request)) mgr out1 of
         (Inl e, out2) \<Rightarrow> (Inl e, out2)
       | (Inr call_res, out2) \<Rightarrow> (Inr (wrap_response serving_ce h (Inr (Some k)) (Inr (from_call_result serving_ce call_res
            (cl_env ?client) (ch_framework h) (lenient_server_kind ?headers)))), out2))
    \<and> (\<forall>r out2 b. CommHandler_post serving_ce h ?req demo_out = (Inr r, out2) \<longrightarrow> cp_status r \<noteq> 401 \<longrightarrow> body_bytes r = Inr b \<longrightarrow>
        (\<exists>k'. Some k' \<in> {Some ''k'', ch_signing_key_fallback h}
          \<and> validate_response_sig (ce_hmac serving_ce) b (cp_headers r) SK_CLOUD k' = Inr (Inr (Some k'))))"
    by (rule signed_post_runs_handler [OF h(1) _ fn, where app_url = "''http://x''" and cfg = cfg and c = "cfg_main cfg" and target = ?hnd
          and name = name and s = s and q = ?q and t = 7 and key = "''k''"
          and now = 0 and request = ?request and sig = "sign_with toy_hmac ''{}'' ''k'' 7"])
       (use cfg h mgr in \<open>simp_all add: facts toy_hmac_hex demo_opts_def demo_client_def is_ascii_def get_id_def sign_request_def
          canonicalize_def normalize_headers_def header_lower [simplified] config_url_def\<close>)
  then obtain k where k: "\<exists>ty. select_handler fn (fc_id (cfg_main cfg)) = Inr (?hnd, ty)"
    "CommHandler_post serving_ce h ?req demo_out =
      (case run_call (call_function fn (comm_exe serving_ce h ?request None) (comm_context ?request ?events) (fc_id (cfg_main cfg)))
              (StepMemos_from_raw (ce_json serving_ce) (req_steps ?request)) mgr out1 of
         (Inl e, out2) \<Rightarrow> (Inl e, out2)
       | (Inr call_res, out2) \<Rightarrow> (Inr (wrap_response serving_ce h (Inr (Some k)) (Inr (from_call_result serving_ce call_res
            (cl_env ?client) (ch_framework h) (lenient_server_kind ?headers)))), out2))"
    by (rule exE) (elim conjE, rule that)
  have plain: "cl_env ?client = None" "lenient_server_kind ?headers = None"
    by (simp_all add: demo_client_def lenient_server_kind_def get_server_kind_def)
  show ?thesis
    by (intro exI [of _ h] exI [of _ fn] exI [of _ cfg] exI [of _ ?req] exI [of _ mgr] exI [of _ out1] exI [of _ ?request]
          exI [of _ k] conjI fn h(1) cfg(1) k(1)) (use k(2) [unfolded plain h(5)] in simp_all)
qed

section \<open>Both kinds of framework\<close>

text \<open>C38: A function that is not async behaves the same behind both kinds of framework.  If no function of the app has an
  async handler and the server sends the events and the steps within the request, then \<open>post\<close> and
  \<open>post_sync\<close> give the same response with the same effects.\<close>

theorem post_sync_twin:
  assumes "\<And>fn. fn \<in> set (dvalues (ch_fns h)) \<Longrightarrow> is_handler_async fn = False"
    and "\<And>request. parse_request ce (cq_body req) = Inr request \<Longrightarrow> \<not> req_use_api request"
  shows "CommHandler_post_sync ce h req = CommHandler_post ce h req"
  by (rule post_sync_eq [OF assms])

text \<open>An app with a function that is not async, a signed request that carries its events, and the function's value.\<close>

definition sync_comm :: "string list comm_handler" where
  "sync_comm = demo_comm [(demo_fn (\<lambda>exe ctx. retM (PInt 1)))\<lparr>fn_handler := (\<lambda>exe ctx. retM (PInt 1), False)\<rparr>]"

definition sync_request :: comm_request where
  "sync_request = demo_signed_request\<lparr>cq_body := ''{}'', cq_headers := [(header_key_value HK_SIGNATURE, sign_with toy_hmac ''{}'' ''k'' 7)],
     cq_query_params := [(query_param_key_value QP_FUNCTION_ID, HStr ''app-fn'')]\<rparr>"

theorem post_sync_twin_witness:
  "\<exists>r w'. CommHandler_post_sync serving_ce sync_comm sync_request demo_out = (Inr r, w')
    \<and> CommHandler_post serving_ce sync_comm sync_request demo_out = (Inr r, w') \<and> cp_status r = 200 \<and> cp_body r = PInt 1"
proof -
  have fns: "dvalues (ch_fns sync_comm) = [(demo_fn (\<lambda>exe ctx. retM (PInt 1)))\<lparr>fn_handler := (\<lambda>exe ctx. retM (PInt 1), False)\<rparr>]"
    by (simp add: sync_comm_def demo_comm_def dvalues_def)
  have eq: "CommHandler_post_sync serving_ce sync_comm sync_request = CommHandler_post serving_ce sync_comm sync_request"
    by (rule post_sync_twin) (simp_all add: fns is_handler_async_def)
  have "case CommHandler_post serving_ce sync_comm sync_request demo_out of
      (Inr r, w') \<Rightarrow> cp_status r = 200 \<and> cp_body r = PInt 1 | (Inl e, w') \<Rightarrow> False"
    by code_simp
  then show ?thesis unfolding eq by (auto split: prod.splits sum.splits)
qed

section \<open>Identifiers without the app\<close>

text \<open>The lookup accepts an identifier that lacks the app's prefix, for the registrations of older versions; the call
  compares the identifier as it came with the function's own and refuses it.  So a request under such an identifier finds its
  function, but no handler runs: its answer is always \<open>function ID mismatch\<close>.\<close>

lemma unprefixed_id_refused:
  assumes "get_function h fnid = Inr fn" and "\<not> serves fnid fn"
  shows "(get_id fn = cl_app_id (ch_client h) @ ''-'' @ fnid \<or> fn_on_failure_fn_id fn = Some (cl_app_id (ch_client h) @ ''-'' @ fnid))
    \<and> call_function fn exe ctx fnid = seqM (add_each_middleware (fn_middleware fn))
        (retM (CallResult_error (LibErr C_FunctionNotFoundError ''function ID mismatch'')))"
proof (intro conjI)
  show "get_id fn = cl_app_id (ch_client h) @ ''-'' @ fnid \<or> fn_on_failure_fn_id fn = Some (cl_app_id (ch_client h) @ ''-'' @ fnid)"
    using assms by (auto simp: get_function_def serves_def find_Some_iff Let_def split: option.splits)
  have "select_handler fn fnid = Inl (LibErr C_FunctionNotFoundError ''function ID mismatch'')"
    using assms(2) by (simp add: select_handler_def serves_def get_id_def)
  then show "call_function fn exe ctx fnid = seqM (add_each_middleware (fn_middleware fn))
      (retM (CallResult_error (LibErr C_FunctionNotFoundError ''function ID mismatch'')))"
    by (simp add: call_function_def Function_call_def Function_call_sync_def)
qed

end
