(* ===== verification/Seed.thy ===== *)
theory Seed
  imports Client
begin

text \<open>
  \<open>_seed\<close> of \<open>client_lib/client.py\<close>: the header value from which the server derives the identifiers of the events of one call
  of \<open>send\<close>, made of the time and of ten random bytes in base64.  The argument \<open>se_seed\<close> of the model of \<open>send\<close> is such a
  value; a call makes one and uses it in each of its attempts, so that an event that arrives twice is seen to be one.
\<close>

section \<open>Base64\<close>

text \<open>\<open>base64.b64encode\<close>: three bytes are four characters, with padding at the end.\<close>

definition b64_char :: "nat \<Rightarrow> char" where
  "b64_char n = (if n < 26 then char_of (65 + n) else if n < 52 then char_of (71 + n) else if n < 62 then char_of (n - 4)
     else if n = 62 then CHR ''+'' else CHR ''/'')"

definition byte :: "char \<Rightarrow> nat" where
  "byte c = of_char c"

fun b64encode :: "bytes \<Rightarrow> string" where
  "b64encode (a # b # c # bs) = b64_char (byte a div 4) # b64_char (byte a mod 4 * 16 + byte b div 16)
     # b64_char (byte b mod 16 * 4 + byte c div 64) # b64_char (byte c mod 64) # b64encode bs"
| "b64encode [a, b] = [b64_char (byte a div 4), b64_char (byte a mod 4 * 16 + byte b div 16), b64_char (byte b mod 16 * 4), CHR ''='']"
| "b64encode [a] = [b64_char (byte a div 4), b64_char (byte a mod 4 * 16), CHR ''='', CHR ''='']"
| "b64encode [] = []"

section \<open>The seed\<close>

text \<open>The time is in milliseconds.\<close>

definition seed :: "int \<Rightarrow> bytes \<Rightarrow> string" where
  "seed current_time_millis entropy = str_of_int current_time_millis @ '','' @ b64encode entropy"

section \<open>Two seeds are equal only when their times and their random bytes are\<close>

text \<open>The value of a character, the left inverse of \<open>b64_char\<close>.\<close>

definition b64_value :: "char \<Rightarrow> nat" where
  "b64_value ch = (let n = byte ch in
     if n = 43 then 62 else if n = 47 then 63 else if n < 58 then n + 4 else if n < 91 then n - 65 else n - 71)"

lemma byte_char: "byte (b64_char n) = (if n < 26 then 65 + n else if n < 52 then 71 + n else if n < 62 then n - 4
     else if n = 62 then 43 else 47)"
  by (simp add: b64_char_def byte_def)

lemma b64_value_char: "n < 64 \<Longrightarrow> b64_value (b64_char n) = n"
  by (auto simp: b64_value_def byte_char Let_def)

lemma b64_char_inj: "m < 64 \<Longrightarrow> n < 64 \<Longrightarrow> b64_char m = b64_char n \<longleftrightarrow> m = n"
  using b64_value_char by metis

lemma b64_char_no_padding: "b64_char n \<noteq> CHR ''=''" "CHR ''='' \<noteq> b64_char n"
proof -
  have "byte (b64_char n) \<noteq> byte (CHR ''='')" by (auto simp: byte_char) (auto simp: byte_def)
  then show "b64_char n \<noteq> CHR ''=''" "CHR ''='' \<noteq> b64_char n" by auto
qed

lemma byte_bound [simp]: "byte c < 256"
  by (simp add: byte_def)

lemma byte_inj: "byte a = byte b \<longleftrightarrow> a = b"
  by (simp add: byte_def)

text \<open>The digits of a group determine its bytes.\<close>

lemma digits_inj:
  assumes "x * k + y = x' * k + y'" and "y < k" and "y' < (k :: nat)"
  shows "x = x' \<and> y = y'"
proof -
  have "(x * k + y) div k = x" "(x' * k + y') div k = x'" "(x * k + y) mod k = y" "(x' * k + y') mod k = y'"
    using assms(2,3) by simp_all
  with assms(1) show ?thesis by metis
qed

lemma same_first: "byte a div 4 = byte a' div 4 \<Longrightarrow> byte a mod 4 = byte a' mod 4 \<Longrightarrow> a = a'"
  by (metis byte_inj div_mult_mod_eq)

lemma same_second: "byte a div 16 = byte a' div 16 \<Longrightarrow> byte a mod 16 = byte a' mod 16 \<Longrightarrow> a = a'"
  by (metis byte_inj div_mult_mod_eq)

lemma same_third: "byte a div 64 = byte a' div 64 \<Longrightarrow> byte a mod 64 = byte a' mod 64 \<Longrightarrow> a = a'"
  by (metis byte_inj div_mult_mod_eq)

lemma digit_bounds: "byte a div 4 < 64" "byte a mod 4 * 16 + byte b div 16 < 64" "byte b mod 16 * 4 + byte c div 64 < 64"
  "byte a mod 4 * 16 < 64" "byte b mod 16 * 4 < 64" "byte b div 16 < 16" "byte c div 64 < 4"
proof -
  have "byte a < 256" "byte b < 256" "byte c < 256" by simp_all
  then show "byte a div 4 < 64" "byte a mod 4 * 16 + byte b div 16 < 64" "byte b mod 16 * 4 + byte c div 64 < 64"
    "byte a mod 4 * 16 < 64" "byte b mod 16 * 4 < 64" "byte b div 16 < 16" "byte c div 64 < 4" by linarith+
qed

lemma b64encode_inj: "b64encode xs = b64encode ys \<Longrightarrow> xs = ys"
proof (induction xs arbitrary: ys rule: b64encode.induct)
  case (1 a b c bs)
  from "1.prems" obtain a' b' c' bs' where ys: "ys = a' # b' # c' # bs'"
    by (cases ys rule: b64encode.cases) (auto simp: b64_char_no_padding)
  from "1.prems" have eqs: "byte a div 4 = byte a' div 4" "byte a mod 4 * 16 + byte b div 16 = byte a' mod 4 * 16 + byte b' div 16"
    "byte b mod 16 * 4 + byte c div 64 = byte b' mod 16 * 4 + byte c' div 64" "byte c mod 64 = byte c' mod 64"
    and rest: "b64encode bs = b64encode bs'"
    by (simp_all add: ys b64_char_inj digit_bounds)
  from digits_inj [OF eqs(2) digit_bounds(6,6)] digits_inj [OF eqs(3) digit_bounds(7,7)] eqs(1,4) "1.IH" [OF rest]
  show ?case by (simp add: ys same_first same_second same_third)
next
  case (2 a b)
  then obtain a' b' where ys: "ys = [a', b']"
    by (cases ys rule: b64encode.cases) (auto simp: b64_char_no_padding)
  from 2 have eqs: "byte a div 4 = byte a' div 4" "byte a mod 4 * 16 + byte b div 16 = byte a' mod 4 * 16 + byte b' div 16"
    "byte b mod 16 = byte b' mod 16"
    by (simp_all add: ys b64_char_inj digit_bounds)
  from digits_inj [OF eqs(2) digit_bounds(6,6)] eqs(1,3) show ?case by (simp add: ys same_first same_second)
next
  case (3 a)
  then obtain a' where ys: "ys = [a']"
    by (cases ys rule: b64encode.cases) (auto simp: b64_char_no_padding)
  from 3 have "byte a div 4 = byte a' div 4" "byte a mod 4 = byte a' mod 4"
    by (simp_all add: ys b64_char_inj digit_bounds)
  then show ?case by (simp add: ys same_first)
next
  case 4
  then show ?case by (cases ys rule: b64encode.cases) auto
qed

lemma str_of_int_no_comma: "CHR '','' \<notin> set (str_of_int i)"
  using str_of_nat_digits by (auto simp: str_of_int_def list_all_iff is_digit_def) force+

lemma str_of_int_inj: "str_of_int i = str_of_int j \<Longrightarrow> i = j"
proof -
  have digit: "hd (str_of_nat n) \<noteq> CHR ''-''" and ne: "str_of_nat n \<noteq> []" for n
    using str_of_nat_digits [of n] by (cases "str_of_nat n"; auto simp: is_digit_def)+
  assume "str_of_int i = str_of_int j"
  then show "i = j"
    using digit [of "nat i"] digit [of "nat j"] ne [of "nat i"] ne [of "nat j"]
    by (auto simp: str_of_int_def dest!: str_of_nat_inj split: if_splits) (metis list.sel(1))+
qed

lemma seed_inj: "seed t e = seed t' e' \<longleftrightarrow> t = t' \<and> e = e'"
proof
  assume eq: "seed t e = seed t' e'"
  have tw: "takeWhile (\<lambda>c. c \<noteq> CHR '','') (seed i x) = str_of_int i" for i x
  proof -
    have "\<forall>c \<in> set (str_of_int i). c \<noteq> CHR '',''" using str_of_int_no_comma [of i] by metis
    then show ?thesis by (simp add: seed_def takeWhile_append2)
  qed
  from eq have "str_of_int t = str_of_int t'" by (metis tw)
  moreover from this eq have "b64encode e = b64encode e'" by (simp add: seed_def)
  ultimately show "t = t' \<and> e = e'" by (blast dest: str_of_int_inj b64encode_inj)
qed simp

end
