(* ===== verification/ConnState.thy ===== *)
theory ConnState
  imports Comm
begin

text \<open>
  The state that the handlers of a Connect worker share (\<open>connect/_internal/models.py\<close>), sending on the
  WebSocket (\<open>ws_utils.py\<close>), the life cycle of a handler (\<open>base_handler.py\<close>), and the drain and heartbeat
  handlers.  Here a \<open>ValueWatcher\<close> is the value it holds; waiting on one is in theory \<open>Watcher\<close>.  A client
  connection is a number; the protobuf encoders and decoders, which are generated code, are the
  parameter \<open>codec\<close>.
\<close>

section \<open>Constants\<close>

definition HEARTBEAT_INTERVAL_SEC :: int where
  "HEARTBEAT_INTERVAL_SEC = 10"

definition MAX_CONN_INIT_ATTEMPTS :: nat where
  "MAX_CONN_INIT_ATTEMPTS = 5"

definition GRACEFUL_SHUTDOWN_TIMEOUT_SEC :: int where
  "GRACEFUL_SHUTDOWN_TIMEOUT_SEC = 2 * 60 * 60"

definition DEFAULT_MAX_BUFFER_SIZE_BYTES :: int where
  "DEFAULT_MAX_BUFFER_SIZE_BYTES = 1024 * 1024 * 500"

section \<open>Messages\<close>

datatype message_kind = GATEWAY_HELLO | WORKER_CONNECT | SYNC_FAILED | GATEWAY_CONNECTION_READY
  | GATEWAY_EXECUTOR_REQUEST | WORKER_READY | WORKER_REQUEST_ACK | WORKER_REQUEST_EXTEND_LEASE
  | WORKER_REQUEST_EXTEND_LEASE_ACK | WORKER_REPLY | WORKER_REPLY_ACK | WORKER_PAUSE | WORKER_HEARTBEAT
  | GATEWAY_HEARTBEAT | GATEWAY_CLOSING | UnknownKind int

record auth_data =
  ad_session_token :: string
  ad_sync_token :: string

record executor_request =
  xr_request_id :: string
  xr_account_id :: string
  xr_env_id :: string
  xr_app_id :: string
  xr_app_name :: string
  xr_function_slug :: string
  xr_step_id :: string
  xr_request_payload :: bytes
  xr_system_trace_ctx :: bytes
  xr_user_trace_ctx :: bytes
  xr_run_id :: string
  xr_lease_id :: string

record request_ack =
  ra_account_id :: string
  ra_app_id :: string
  ra_env_id :: string
  ra_function_slug :: string
  ra_request_id :: string
  ra_step_id :: string
  ra_system_trace_ctx :: bytes
  ra_user_trace_ctx :: bytes

record extend_lease =
  el_account_id :: string
  el_env_id :: string
  el_function_slug :: string
  el_lease_id :: string
  el_request_id :: string
  el_run_id :: string
  el_step_id :: string
  el_system_trace_ctx :: bytes
  el_user_trace_ctx :: bytes

datatype sdk_status = NOT_COMPLETED | DONE | ERROR

text \<open>Fields that a message leaves unset have the protobuf defaults.\<close>

record sdk_response =
  sk_account_id :: string
  sk_app_id :: string
  sk_body :: bytes
  sk_env_id :: string
  sk_no_retry :: bool
  sk_request_id :: string
  sk_request_version :: int
  sk_retry_after :: "string option"
  sk_sdk_version :: string
  sk_status :: sdk_status
  sk_system_trace_ctx :: bytes
  sk_user_trace_ctx :: bytes

record app_configuration =
  ac_app_name :: string
  ac_app_version :: "string option"
  ac_functions :: bytes

record worker_connect =
  wc_apps :: "app_configuration list"
  wc_auth_data :: auth_data
  wc_capabilities :: bytes
  wc_connection_id :: string
  wc_environment :: "string option"
  wc_framework :: string
  wc_instance_id :: string
  wc_sdk_language :: string
  wc_sdk_version :: string
  wc_system_attributes :: "int option \<times> int \<times> string"
  wc_worker_manual_readiness_ack :: bool
  wc_max_worker_concurrency :: "int option"

record start_response =
  sp_connection_id :: string
  sp_gateway_endpoint :: string
  sp_session_token :: string
  sp_sync_token :: string

text \<open>A decoder's left is what \<open>pb_utils.safe_parse\<close> returns.\<close>

record codec =
  enc_message :: "message_kind \<Rightarrow> bytes \<Rightarrow> bytes"
  enc_request_ack :: "request_ack \<Rightarrow> bytes"
  enc_extend_lease :: "extend_lease \<Rightarrow> bytes"
  enc_sdk_response :: "sdk_response \<Rightarrow> bytes"
  enc_worker_connect :: "worker_connect \<Rightarrow> bytes"
  enc_start_request :: "string list \<Rightarrow> bytes"
  dec_message :: "bytes \<Rightarrow> exc + message_kind \<times> bytes"
  dec_executor_request :: "bytes \<Rightarrow> exc + executor_request"
  dec_lease_ack :: "bytes \<Rightarrow> exc + string \<times> string"
  dec_reply_ack :: "bytes \<Rightarrow> exc + string"
  dec_connection_ready :: "bytes \<Rightarrow> exc + string"
  dec_start_response :: "bytes \<Rightarrow> exc + start_response"

section \<open>The shared state\<close>

datatype connection_state = CS_ACTIVE | CS_CLOSED | CS_CLOSING | CS_CONNECTING | CS_PAUSED | CS_RECONNECTING

record cstate =
  st_conn_id :: "string option"
  st_conn_init :: "(auth_data \<times> string) option"
  st_conn_state :: connection_state
  st_exclude_gateways :: "string list"
  st_extend_lease_interval :: "int option"
  st_fatal_error :: "exc option"
  st_init_handshake_complete :: bool
  st_pending_request_count :: int
  st_ws :: "nat option"

definition State_init :: cstate where
  "State_init = \<lparr>st_conn_id = None, st_conn_init = None, st_conn_state = CS_CONNECTING, st_exclude_gateways = [],
     st_extend_lease_interval = None, st_fatal_error = None, st_init_handshake_complete = False,
     st_pending_request_count = 0, st_ws = None\<rparr>"

definition allow_reconnect :: "cstate \<Rightarrow> bool" where
  "allow_reconnect st = (st_conn_state st \<noteq> CS_CLOSED)"

definition close_ws :: "cstate \<Rightarrow> cstate" where
  "close_ws st = (let st = (if allow_reconnect st then st\<lparr>st_conn_state := CS_RECONNECTING\<rparr> else st) in
     st\<lparr>st_conn_init := None, st_ws := None\<rparr>)"

section \<open>Sending\<close>

text \<open>
  How \<open>ws.send\<close> ends.  \<open>safe_send\<close> looks at the connection first (\<open>send_target\<close>), waits for the send, and
  then acts on its outcome (\<open>safe_send_result\<close>).
\<close>

datatype send_outcome = SendOk | SendConnectionClosed exc | SendError exc

definition send_target :: "cstate \<Rightarrow> exc + nat" where
  "send_target st = (case st_ws st of None \<Rightarrow> Inl (Exception ''No WebSocket connection'') | Some ws \<Rightarrow> Inr ws)"

definition safe_send_result :: "send_outcome \<Rightarrow> cstate \<Rightarrow> exc option \<times> cstate" where
  "safe_send_result r st = (case r of
     SendOk \<Rightarrow> (None, st)
   | SendConnectionClosed e \<Rightarrow> (Some e, close_ws st)
   | SendError e \<Rightarrow> (Some e, st))"

section \<open>The life cycle of a handler\<close>

text \<open>
  The event \<open>closed_event\<close> is absent, or created and set or not; the close sequence waits for the pending
  requests, runs the subclass's cleanup and sets the event.
\<close>

datatype close_stage = AwaitDrained | CleaningUp | CloseFinished

record base_handler =
  bh_closed_event :: "bool option"
  bh_close_task :: "close_stage option"

definition base_init :: base_handler where
  "base_init = \<lparr>bh_closed_event = None, bh_close_task = None\<rparr>"

definition closed_event_is_set :: "base_handler \<Rightarrow> bool" where
  "closed_event_is_set h = (bh_closed_event h = Some True)"

definition base_start :: "base_handler \<Rightarrow> base_handler" where
  "base_start h = (case bh_closed_event h of None \<Rightarrow> h\<lparr>bh_closed_event := Some False\<rparr> | Some b \<Rightarrow> h)"

definition base_close :: "base_handler \<Rightarrow> base_handler" where
  "base_close h = (if bh_close_task h \<noteq> None then h else h\<lparr>bh_close_task := Some AwaitDrained\<rparr>)"

text \<open>One stretch of \<open>_close_sequence\<close>; \<open>drained\<close> is that \<open>pending_request_count\<close> has been 0.\<close>

definition close_sequence_step :: "bool \<Rightarrow> base_handler \<Rightarrow> base_handler option" where
  "close_sequence_step drained h = (case bh_close_task h of
     Some AwaitDrained \<Rightarrow> if drained then Some (h\<lparr>bh_close_task := Some CleaningUp\<rparr>) else None
   | Some CleaningUp \<Rightarrow> Some (h\<lparr>bh_close_task := Some CloseFinished, bh_closed_event := map_option (\<lambda>_. True) (bh_closed_event h)\<rparr>)
   | _ \<Rightarrow> None)"

text \<open>\<open>closed()\<close> returns.\<close>

definition closed_returns :: "base_handler \<Rightarrow> bool" where
  "closed_returns h = (bh_closed_event h \<noteq> Some False)"

section \<open>The drain and heartbeat handlers\<close>

definition drain_handle_msg :: "message_kind \<Rightarrow> cstate \<Rightarrow> cstate" where
  "drain_handle_msg kind st = (if kind \<noteq> GATEWAY_CLOSING then st else close_ws st)"

definition heartbeat_handle_msg :: "message_kind \<Rightarrow> cstate \<Rightarrow> cstate" where
  "heartbeat_handle_msg kind st = st"

definition heartbeat_message :: "codec \<Rightarrow> bytes" where
  "heartbeat_message codec = enc_message codec WORKER_HEARTBEAT []"

text \<open>
  Where \<open>_heartbeat_sender\<close> stands: at the head of its loop, at its wait for the handshake, at its wait for a connection,
  past it, in its send, and asleep.  The loop goes on whatever the outcome \<open>r\<close> of the send, until the handler is closed.
\<close>

datatype heart_pc = HeartNotStarted | HeartHead | HeartAwaitHandshake | HeartAwaitWs | HeartSend | HeartSending
  | HeartSleeping | HeartEnded

definition heartbeat_start :: "heart_pc \<Rightarrow> heart_pc" where
  "heartbeat_start pc = (if pc = HeartNotStarted then HeartHead else pc)"

text \<open>One stretch, with the state it leaves and whether a heartbeat went out.\<close>

definition heartbeat_sender_step :: "bool \<Rightarrow> send_outcome \<Rightarrow> heart_pc \<Rightarrow> cstate \<Rightarrow> (heart_pc \<times> cstate \<times> bool) option" where
  "heartbeat_sender_step closed r pc st = (case pc of
     HeartHead \<Rightarrow> Some (if closed then HeartEnded else HeartAwaitHandshake, st, False)
   | HeartAwaitHandshake \<Rightarrow> if st_init_handshake_complete st then Some (HeartAwaitWs, st, False) else None
   | HeartAwaitWs \<Rightarrow> if st_ws st = None then None else Some (HeartSend, st, False)
   | HeartSend \<Rightarrow> (case send_target st of Inl e \<Rightarrow> Some (HeartSleeping, st, False) | Inr ws \<Rightarrow> Some (HeartSending, st, False))
   | HeartSending \<Rightarrow> Some (HeartSleeping, snd (safe_send_result r st), fst (safe_send_result r st) = None)
   | HeartSleeping \<Rightarrow> Some (HeartHead, st, False)
   | _ \<Rightarrow> None)"

text \<open>\<open>cancel_and_wait\<close> of the task, when it was started.\<close>

definition cancel_heartbeat :: "heart_pc \<Rightarrow> heart_pc" where
  "cancel_heartbeat pc = (if pc = HeartNotStarted then pc else HeartEnded)"

section \<open>Lemmas\<close>

lemma close_ws_simps [simp]:
  "st_conn_init (close_ws st) = None" "st_ws (close_ws st) = None"
  "st_pending_request_count (close_ws st) = st_pending_request_count st"
  "st_conn_state (close_ws st) = (if st_conn_state st = CS_CLOSED then CS_CLOSED else CS_RECONNECTING)"
  by (simp_all add: close_ws_def allow_reconnect_def)

lemma safe_send_count [simp]: "st_pending_request_count (snd (safe_send_result r st)) = st_pending_request_count st"
  by (cases r) (simp_all add: safe_send_result_def)

lemma safe_send_CLOSED: "st_conn_state (snd (safe_send_result r st)) = CS_CLOSED \<longleftrightarrow> st_conn_state st = CS_CLOSED"
  by (cases r) (simp_all add: safe_send_result_def)

text \<open>
  A lost connection does not take back \<open>init_handshake_complete\<close>, which only the next \<open>GATEWAY_HELLO\<close> does: a heartbeat
  that is due after the new connection has opened goes out before its handshake.
\<close>

lemma heartbeat_before_new_handshake:
  fixes ws
  assumes "st_init_handshake_complete st"
  defines "st1 \<equiv> (close_ws st)\<lparr>st_ws := Some ws\<rparr>"
  shows "heartbeat_sender_step False SendOk HeartHead st1 = Some (HeartAwaitHandshake, st1, False)"
    "heartbeat_sender_step False SendOk HeartAwaitHandshake st1 = Some (HeartAwaitWs, st1, False)"
    "heartbeat_sender_step False SendOk HeartAwaitWs st1 = Some (HeartSend, st1, False)"
    "heartbeat_sender_step False SendOk HeartSend st1 = Some (HeartSending, st1, False)"
    "heartbeat_sender_step False SendOk HeartSending st1 = Some (HeartSleeping, st1, True)"
  using assms(1) by (simp_all add: heartbeat_sender_step_def st1_def close_ws_def send_target_def safe_send_result_def)

text \<open>A closed handler's sender ends at the head of its loop; a cancelled one takes no step.\<close>

lemma heartbeat_ends:
  "heartbeat_sender_step True r HeartHead st = Some (HeartEnded, st, False)"
  "pc \<noteq> HeartNotStarted \<Longrightarrow> heartbeat_sender_step closed r (cancel_heartbeat pc) st = None"
  by (simp_all add: heartbeat_sender_step_def cancel_heartbeat_def)

section \<open>A codec for the witnesses\<close>

definition demo_request :: executor_request where
  "demo_request = \<lparr>xr_request_id = ''r1'', xr_account_id = [], xr_env_id = [], xr_app_id = [], xr_app_name = ''app'',
     xr_function_slug = ''app-fn'', xr_step_id = ''step'', xr_request_payload = ''{}'', xr_system_trace_ctx = [],
     xr_user_trace_ctx = [], xr_run_id = ''run1'', xr_lease_id = ''l1''\<rparr>"

text \<open>Every payload is the demo request, and a message is its payload.\<close>

definition demo_codec :: codec where
  "demo_codec = \<lparr>enc_message = (\<lambda>k b. b), enc_request_ack = (\<lambda>a. ''ack '' @ ra_request_id a), enc_extend_lease = el_lease_id,
     enc_sdk_response = sk_body, enc_worker_connect = wc_connection_id, enc_start_request = concat,
     dec_message = (\<lambda>b. Inr (GATEWAY_EXECUTOR_REQUEST, b)), dec_executor_request = (\<lambda>b. Inr demo_request),
     dec_lease_ack = (\<lambda>b. Inr (''r1'', b)), dec_reply_ack = (\<lambda>b. Inr ''r1''), dec_connection_ready = (\<lambda>b. Inr b),
     dec_start_response = (\<lambda>b. Inr \<lparr>sp_connection_id = b, sp_gateway_endpoint = b, sp_session_token = b, sp_sync_token = b\<rparr>)\<rparr>"

end
