(* ===== verification/Buffer.thy ===== *)
theory Buffer
  imports Errors "HOL-Library.Sublist"
begin

text \<open>
  \<open>connect/_internal/buffer.py\<close>: the buffer of execution replies that the server has not acknowledged.  The
  \<open>OrderedDict\<close> is an insertion-ordered dictionary, the clock's readings are integers and the callbacks
  \<open>on_evict\<close> and \<open>on_reject\<close> are the events that an operation gives back.  The specification is a queue of
  bounded total size.
\<close>

section \<open>The buffer\<close>

record buffer_item =
  bi_data :: bytes
  bi_id :: string
  bi_timestamp :: int

record buffer =
  bf_current_size :: int
  bf_items :: "(string, buffer_item) dict"
  bf_max_size_bytes :: int

datatype buffer_event = Evicted string | Rejected string

definition buffer_init :: "int \<Rightarrow> exc + buffer" where
  "buffer_init max_size_bytes =
     (if max_size_bytes \<le> 0 then Inl (PyExc ''ValueError'' ''max_size_bytes must be greater than 0'')
      else Inr \<lparr>bf_current_size = 0, bf_items = [], bf_max_size_bytes = max_size_bytes\<rparr>)"

text \<open>The eviction loop: the evicted ids, the items that stay and the size then.\<close>

fun evict :: "int \<Rightarrow> int \<Rightarrow> (string, buffer_item) dict \<Rightarrow> int \<Rightarrow> string list \<times> (string, buffer_item) dict \<times> int" where
  "evict max_size item_size [] current = ([], [], current)"
| "evict max_size item_size ((k, oldest) # items) current =
     (if current + item_size > max_size then
        (case evict max_size item_size items (current - int (length (bi_data oldest))) of
           (evs, items', current') \<Rightarrow> (bi_id oldest # evs, items', current'))
      else ([], (k, oldest) # items, current))"

definition buffer_delete :: "string \<Rightarrow> buffer \<Rightarrow> bool \<times> buffer" where
  "buffer_delete item_id b =
     (case dget (bf_items b) item_id of
        None \<Rightarrow> (False, b)
      | Some item \<Rightarrow> (True, b\<lparr>bf_current_size := bf_current_size b - int (length (bi_data item)),
                                bf_items := ddel (bf_items b) item_id\<rparr>))"

definition buffer_add :: "int \<Rightarrow> string \<Rightarrow> bytes \<Rightarrow> buffer \<Rightarrow> bool \<times> buffer_event list \<times> buffer" where
  "buffer_add now item_id data b =
     (let item_size = int (length data) in
      if item_size > bf_max_size_bytes b then (False, [Rejected item_id], b)
      else
        (let b1 = (case dget (bf_items b) item_id of
                     None \<Rightarrow> b
                   | Some item \<Rightarrow> b\<lparr>bf_current_size := bf_current_size b - int (length (bi_data item)),
                                     bf_items := ddel (bf_items b) item_id\<rparr>) in
         case evict (bf_max_size_bytes b1) item_size (bf_items b1) (bf_current_size b1) of
           (evs, items, current) \<Rightarrow>
             (True, map Evicted evs,
              b1\<lparr>bf_items := dset items item_id \<lparr>bi_data = data, bi_id = item_id, bi_timestamp = now\<rparr>,
                 bf_current_size := current + item_size\<rparr>)))"

definition buffer_get :: "string \<Rightarrow> buffer \<Rightarrow> bytes option" where
  "buffer_get item_id b = map_option bi_data (dget (bf_items b) item_id)"

definition buffer_get_older_than :: "int \<Rightarrow> int \<Rightarrow> buffer \<Rightarrow> (string \<times> bytes) list" where
  "buffer_get_older_than now seconds b =
     (let cutoff_time = now - seconds in
      map (\<lambda>item. (bi_id item, bi_data item)) (filter (\<lambda>item. bi_timestamp item \<le> cutoff_time) (dvalues (bf_items b))))"

section \<open>The invariant\<close>

definition total_size :: "(string, buffer_item) dict \<Rightarrow> int" where
  "total_size items = sum_list (map (\<lambda>(k, item). int (length (bi_data item))) items)"

definition buffer_inv :: "buffer \<Rightarrow> bool" where
  "buffer_inv b = (dict_inv (bf_items b) \<and> list_all (\<lambda>(k, item). bi_id item = k) (bf_items b)
     \<and> bf_current_size b = total_size (bf_items b) \<and> bf_current_size b \<le> bf_max_size_bytes b \<and> 0 < bf_max_size_bytes b)"

lemma total_size_simps [simp]:
  "total_size [] = 0" "total_size ((k, item) # items) = int (length (bi_data item)) + total_size items"
  "total_size (items @ items') = total_size items + total_size items'"
  by (simp_all add: total_size_def)

lemma total_size_nonneg: "0 \<le> total_size items"
  by (induction items) auto

lemma total_size_ddel: "dget items k = Some item \<Longrightarrow> dict_inv items
    \<Longrightarrow> total_size (ddel items k) = total_size items - int (length (bi_data item))"
proof (induction items)
  case (Cons p items)
  obtain k' i where p: "p = (k', i)" by force
  show ?case
  proof (cases "k' = k")
    case True
    with Cons.prems have "\<not> dhas items k" by (auto simp: p dict_inv_def dhas_def dkeys_def)
    with Cons.prems True show ?thesis by (simp add: p ddel_def) (simp add: ddel_notin flip: ddel_def)
  next
    case False
    with Cons.prems Cons.IH show ?thesis by (auto simp: p ddel_def dict_inv_def dkeys_def)
  qed
qed simp

text \<open>What the loop leaves: the items after the evicted ones, and no more evicted than needed.\<close>

lemma evict_spec:
  assumes "evict m s items c = (evs, items', c')" and "c = total_size items"
  shows "\<exists>gone. items = gone @ items' \<and> evs = map (bi_id \<circ> snd) gone \<and> c' = total_size items'
    \<and> (c' + s \<le> m \<or> items' = []) \<and> (\<forall>g p. gone = g @ [p] \<longrightarrow> total_size (p # items') + s > m)"
  using assms
proof (induction m s items c arbitrary: evs items' c' rule: evict.induct)
  case (2 m s k oldest items c)
  show ?case
  proof (cases "c + s > m")
    case True
    obtain evs1 c1 where rest: "evict m s items (c - int (length (bi_data oldest))) = (evs1, items', c')"
      "evs = bi_id oldest # evs1"
      using 2(2) True by (auto split: prod.splits)
    from 2(1) [OF True rest(1)] 2(3) obtain gone where gone: "items = gone @ items'" "evs1 = map (bi_id \<circ> snd) gone"
      "c' = total_size items'" "c' + s \<le> m \<or> items' = []" "\<forall>g p. gone = g @ [p] \<longrightarrow> total_size (p # items') + s > m"
      by auto
    have "total_size (p # items') + s > m" if "(k, oldest) # gone = g @ [p]" for g p
    proof (cases "gone = []")
      case True
      with that \<open>c + s > m\<close> 2(3) gone(1) show ?thesis by simp
    next
      case False
      with that obtain g' where "gone = g' @ [p]" by (cases g) auto
      with gone(5) show ?thesis by blast
    qed
    with gone rest(2) show ?thesis by (intro exI [of _ "(k, oldest) # gone"]) auto
  next
    case False
    with 2(2,3) show ?thesis by (intro exI [of _ "[]"]) auto
  qed
qed simp

section \<open>Refinement of a bounded queue\<close>

type_synonym reply_queue = "(string, bytes) dict"

definition queue_of :: "buffer \<Rightarrow> reply_queue" where
  "queue_of b = map (\<lambda>(k, item). (k, bi_data item)) (bf_items b)"

definition queue_size :: "reply_queue \<Rightarrow> int" where
  "queue_size q = sum_list (map (\<lambda>(k, data). int (length data)) q)"

text \<open>The longest end of a queue that fits into a room.\<close>

definition longest_fitting :: "int \<Rightarrow> reply_queue \<Rightarrow> reply_queue" where
  "longest_fitting room q = last (filter (\<lambda>s. queue_size s \<le> room) (suffixes q))"

definition queue_put :: "int \<Rightarrow> string \<Rightarrow> bytes \<Rightarrow> reply_queue \<Rightarrow> reply_queue" where
  "queue_put max_size k data q =
     (if int (length data) > max_size then q
      else longest_fitting (max_size - int (length data)) (ddel q k) @ [(k, data)])"

lemma queue_size_of: "queue_size (map (\<lambda>(k, item). (k, bi_data item)) items) = total_size items"
  by (induction items) (auto simp: queue_size_def)

lemma queue_size_append: "queue_size (p @ q) = queue_size p + queue_size q" "0 \<le> queue_size q"
  by (auto simp: queue_size_def intro!: sum_list_nonneg)

lemma longest_fitting_eq:
  assumes "queue_size kept \<le> room" and "\<forall>g p. gone = g @ [p] \<longrightarrow> queue_size (p # kept) > room"
  shows "longest_fitting room (gone @ kept) = kept"
  using assms
proof (induction gone)
  case Nil
  then show ?case by (cases kept) (auto simp: longest_fitting_def)
next
  case (Cons x gone)
  have "queue_size (x # gone @ kept) > room"
  proof (cases gone rule: rev_cases)
    case (snoc g p)
    then have "queue_size (p # kept) > room" using Cons.prems(2) by (metis append_Cons)
    moreover have "queue_size (x # gone @ kept) = queue_size (x # g) + queue_size (p # kept)"
      using queue_size_append(1) [of "x # g" "p # kept"] snoc by simp
    ultimately show ?thesis using queue_size_append(2) [of "x # g"] by simp
  qed (use Cons.prems(2) in \<open>metis append_Nil append_Cons\<close>)
  moreover have "longest_fitting room (gone @ kept) = kept"
    by (rule Cons.IH) (use Cons.prems in \<open>metis append_Cons\<close>)+
  ultimately show ?case by (simp add: longest_fitting_def)
qed

lemma total_size_pair: "total_size [p] = int (length (bi_data (snd p)))"
  by (cases p) simp

text \<open>The items once an item of the same id is gone.\<close>

lemma without_inv:
  assumes "buffer_inv b"
  shows "dict_inv (ddel (bf_items b) k)" and "list_all (\<lambda>(k, item). bi_id item = k) (ddel (bf_items b) k)"
    and "(case dget (bf_items b) k of None \<Rightarrow> bf_current_size b | Some item \<Rightarrow> bf_current_size b - int (length (bi_data item)))
      = total_size (ddel (bf_items b) k)"
    and "total_size (ddel (bf_items b) k) \<le> bf_max_size_bytes b"
proof -
  show size: "(case dget (bf_items b) k of None \<Rightarrow> bf_current_size b | Some item \<Rightarrow> bf_current_size b - int (length (bi_data item)))
      = total_size (ddel (bf_items b) k)"
    using assms by (auto simp: buffer_inv_def total_size_ddel ddel_notin dhas_iff_dget split: option.split)
  then show "total_size (ddel (bf_items b) k) \<le> bf_max_size_bytes b"
    using assms by (auto simp: buffer_inv_def split: option.splits)
qed (use assms in \<open>auto simp: buffer_inv_def\<close>, auto simp: ddel_def list_all_iff)

lemma buffer_add_eq:
  assumes "buffer_inv b"
  shows "buffer_add now k data b =
     (if int (length data) > bf_max_size_bytes b then (False, [Rejected k], b)
      else (case evict (bf_max_size_bytes b) (int (length data)) (ddel (bf_items b) k) (total_size (ddel (bf_items b) k)) of
         (evs, items, current) \<Rightarrow> (True, map Evicted evs,
            b\<lparr>bf_items := dset items k \<lparr>bi_data = data, bi_id = k, bi_timestamp = now\<rparr>,
              bf_current_size := current + int (length data)\<rparr>)))"
  using without_inv(3) [OF assms, of k] assms
  by (auto simp: buffer_add_def buffer_inv_def Let_def ddel_notin dhas_iff_dget split: option.splits prod.splits)

lemma queue_of_ddel: "map (\<lambda>(k, item). (k, bi_data item)) (ddel items k) = ddel (map (\<lambda>(k, item). (k, bi_data item)) items) k"
  by (induction items) (auto simp: ddel_def)

lemma evicted_ids: "list_all (\<lambda>(k, item). bi_id item = k) gone
    \<Longrightarrow> map Evicted (map (bi_id \<circ> snd) gone) = map (\<lambda>(k, item). Evicted k) gone"
  by (induction gone) auto

lemma buffer_add_ok:
  assumes inv: "buffer_inv b" and fits: "int (length data) \<le> bf_max_size_bytes b"
  obtains gone items where "ddel (bf_items b) k = gone @ items"
    "buffer_add now k data b = (True, map (\<lambda>(k, item). Evicted k) gone,
       b\<lparr>bf_items := items @ [(k, \<lparr>bi_data = data, bi_id = k, bi_timestamp = now\<rparr>)],
         bf_current_size := total_size items + int (length data)\<rparr>)"
    "total_size items + int (length data) \<le> bf_max_size_bytes b"
    "\<forall>g p. gone = g @ [p] \<longrightarrow> total_size (p # items) + int (length data) > bf_max_size_bytes b"
    "dict_inv (items @ [(k, \<lparr>bi_data = data, bi_id = k, bi_timestamp = now\<rparr>)])"
    "list_all (\<lambda>(k, item). bi_id item = k) items"
proof -
  obtain evs items c where ev: "evict (bf_max_size_bytes b) (int (length data)) (ddel (bf_items b) k)
      (total_size (ddel (bf_items b) k)) = (evs, items, c)" by (metis surj_pair)
  from evict_spec [OF ev] obtain gone where gone: "ddel (bf_items b) k = gone @ items" "evs = map (bi_id \<circ> snd) gone"
    "c = total_size items" "c + int (length data) \<le> bf_max_size_bytes b \<or> items = []"
    "\<forall>g p. gone = g @ [p] \<longrightarrow> total_size (p # items) + int (length data) > bf_max_size_bytes b" by blast
  have ids: "list_all (\<lambda>(k, item). bi_id item = k) (gone @ items)" and inv': "dict_inv (gone @ items)"
    using without_inv(1,2) [OF inv, of k] unfolding gone(1) by simp_all
  have "map Evicted evs = map (\<lambda>(k, item). Evicted k) gone"
    using ids evicted_ids [of gone] unfolding gone(2) by simp
  moreover have nk: "\<not> dhas items k"
  proof -
    have "\<not> dhas (ddel (bf_items b) k) k" by (simp add: dhas_iff_dget)
    then show ?thesis unfolding gone(1) by (simp add: dhas_def dkeys_def)
  qed
  moreover have "dict_inv (items @ [(k, \<lparr>bi_data = data, bi_id = k, bi_timestamp = now\<rparr>)])"
    using inv' nk by (simp add: dict_inv_def dhas_def dkeys_def)
  ultimately show thesis
    using that [OF gone(1)] gone(3,4,5) ids fits by (auto simp: buffer_add_eq [OF inv] ev dset_fresh)
qed

lemma buffer_add_stored:
  assumes inv: "buffer_inv b" and True: "int (length data) \<le> bf_max_size_bytes b" and add: "buffer_add now k data b = (ok, evs, b')"
  shows "ok \<and> queue_of b' = queue_put (bf_max_size_bytes b) k data (queue_of b)
    \<and> buffer_inv b' \<and> buffer_get k b' = Some data
    \<and> evs = map (\<lambda>(k', d). Evicted k')
          (take (length (ddel (queue_of b) k) - (length (queue_of b') - 1)) (ddel (queue_of b) k))"
proof -
  obtain gone items where q: "ddel (bf_items b) k = gone @ items"
    and new: "buffer_add now k data b = (True, map (\<lambda>(k, item). Evicted k) gone,
       b\<lparr>bf_items := items @ [(k, \<lparr>bi_data = data, bi_id = k, bi_timestamp = now\<rparr>)],
         bf_current_size := total_size items + int (length data)\<rparr>)"
    and fit: "total_size items + int (length data) \<le> bf_max_size_bytes b"
    and last: "\<forall>g p. gone = g @ [p] \<longrightarrow> total_size (p # items) + int (length data) > bf_max_size_bytes b"
    and d: "dict_inv (items @ [(k, \<lparr>bi_data = data, bi_id = k, bi_timestamp = now\<rparr>)])"
    and ids: "list_all (\<lambda>(k, item). bi_id item = k) items"
    using buffer_add_ok [OF inv True, of k now] by blast
  let ?q = "map (\<lambda>(k, item). (k, bi_data item))"
  have "longest_fitting (bf_max_size_bytes b - int (length data)) (?q gone @ ?q items) = ?q items"
  proof (rule longest_fitting_eq; (intro allI impI)?)
    fix g p assume "?q gone = g @ [p]"
    then obtain g' p' where "gone = g' @ [p']" "p = (case p' of (k, item) \<Rightarrow> (k, bi_data item))"
      by (cases gone rule: rev_cases) auto
    with last queue_size_of [of "p' # items"] show "queue_size (p # ?q items) > bf_max_size_bytes b - int (length data)"
      by (cases p') simp
  qed (use fit in \<open>simp add: queue_size_of\<close>)
  then have put: "?q items @ [(k, data)] = queue_put (bf_max_size_bytes b) k data (queue_of b)"
    using True q by (simp add: queue_put_def queue_of_def flip: queue_of_ddel)
  have "\<not> dhas items k" using d by (simp add: dict_inv_def dhas_def dkeys_def)
  then have "dget (items @ [(k, \<lparr>bi_data = data, bi_id = k, bi_timestamp = now\<rparr>)]) k = Some \<lparr>bi_data = data, bi_id = k, bi_timestamp = now\<rparr>"
    using dget_dset [of items k _ k] by (simp add: dset_fresh)
  with add new put fit d ids q True inv show ?thesis
    by (auto simp: queue_of_def buffer_inv_def buffer_get_def case_prod_beta simp flip: queue_of_ddel)
qed

text \<open>C21: Adding a reply refines the bounded queue: a reply larger than the whole buffer is rejected and nothing
  changes; otherwise what is stored afterwards is the longest end of the other replies that still leaves room, in the
  order of their insertion, and then the new reply; exactly the older ones are reported as evicted, oldest first.\<close>

theorem buffer_add_refines:
  assumes inv: "buffer_inv b" and add: "buffer_add now k data b = (ok, evs, b')"
  shows "ok = (int (length data) \<le> bf_max_size_bytes b) \<and> queue_of b' = queue_put (bf_max_size_bytes b) k data (queue_of b)
    \<and> buffer_inv b' \<and> (ok \<longrightarrow> buffer_get k b' = Some data)
    \<and> evs = (if ok then map (\<lambda>(k', d). Evicted k')
          (take (length (ddel (queue_of b) k) - (length (queue_of b') - 1)) (ddel (queue_of b) k)) else [Rejected k])"
proof (cases "int (length data) \<le> bf_max_size_bytes b")
  case True
  then show ?thesis using buffer_add_stored [OF inv True add] by simp
next
  case False
  with add inv show ?thesis by (auto simp: buffer_add_eq [OF inv] queue_put_def)
qed

section \<open>Runs of operations\<close>

lemma dkeys_queue_of: "dkeys (queue_of b) = dkeys (bf_items b)"
  by (simp add: queue_of_def dkeys_def case_prod_beta)

lemma dhas_queue_of: "dhas (queue_of b) k \<longleftrightarrow> dget (bf_items b) k \<noteq> None"
  by (simp add: dhas_def dkeys_queue_of dget_None_iff)

lemma buffer_delete_refines:
  assumes "buffer_inv b" and "buffer_delete k b = (found, b')"
  shows "buffer_inv b' \<and> queue_of b' = ddel (queue_of b) k \<and> found = dhas (queue_of b) k \<and> bf_max_size_bytes b' = bf_max_size_bytes b"
proof (cases "dget (bf_items b) k")
  case None
  moreover have "\<not> dhas (queue_of b) k" using None by (simp add: dhas_queue_of)
  ultimately show ?thesis using assms by (simp add: buffer_delete_def ddel_notin)
next
  case (Some item)
  with without_inv [OF assms(1), of k] assms have "buffer_inv b'" "queue_of b' = ddel (queue_of b) k"
    by (auto simp: buffer_delete_def buffer_inv_def queue_of_def queue_of_ddel)
  moreover have "dhas (queue_of b) k" using Some by (simp add: dhas_queue_of)
  ultimately show ?thesis using assms Some by (auto simp: buffer_delete_def)
qed

datatype buffer_op = Op_add int string bytes | Op_delete string

fun buffer_apply :: "buffer_op \<Rightarrow> buffer \<Rightarrow> buffer" where
  "buffer_apply (Op_add now k data) b = snd (snd (buffer_add now k data b))"
| "buffer_apply (Op_delete k) b = snd (buffer_delete k b)"

fun queue_apply :: "int \<Rightarrow> buffer_op \<Rightarrow> reply_queue \<Rightarrow> reply_queue" where
  "queue_apply max_size (Op_add now k data) q = queue_put max_size k data q"
| "queue_apply max_size (Op_delete k) q = ddel q k"

lemma buffer_add_max: "bf_max_size_bytes (snd (snd (buffer_add now k data b))) = bf_max_size_bytes b"
  by (simp add: buffer_add_def Let_def split: option.split prod.split)

lemma buffer_apply_refines:
  assumes "buffer_inv b"
  shows "buffer_inv (buffer_apply op b) \<and> queue_of (buffer_apply op b) = queue_apply (bf_max_size_bytes b) op (queue_of b)
    \<and> bf_max_size_bytes (buffer_apply op b) = bf_max_size_bytes b"
proof (cases op)
  case (Op_add now k data)
  obtain ok evs b' where add: "buffer_add now k data b = (ok, evs, b')" by (metis surj_pair)
  have "queue_of b' = queue_put (bf_max_size_bytes b) k data (queue_of b) \<and> buffer_inv b'"
  proof (cases "int (length data) \<le> bf_max_size_bytes b")
    case True
    then show ?thesis using buffer_add_stored [OF assms True add] by blast
  next
    case False
    with add assms show ?thesis by (auto simp: buffer_add_eq [OF assms] queue_put_def)
  qed
  then show ?thesis using buffer_add_max [of now k data b] by (simp add: Op_add add)
next
  case (Op_delete k)
  obtain found b' where "buffer_delete k b = (found, b')" by force
  with buffer_delete_refines [OF assms this] show ?thesis by (simp add: Op_delete)
qed

text \<open>C22: The buffer never holds more bytes than its maximum: after any sequence of additions and acknowledgements from an
  empty buffer, the recorded size is that of what is stored, it is at most the maximum, every id is stored once,
  and the contents are those of the bounded queue.\<close>

theorem buffer_runs_bounded:
  assumes "buffer_init max_size_bytes = Inr b"
  shows "let b' = fold buffer_apply ops b in
    bf_current_size b' = queue_size (queue_of b') \<and> bf_current_size b' \<le> max_size_bytes \<and> distinct (dkeys (queue_of b'))
    \<and> queue_of b' = fold (queue_apply max_size_bytes) ops []"
proof -
  have b: "buffer_inv b" "bf_max_size_bytes b = max_size_bytes" "queue_of b = []"
    using assms by (auto simp: buffer_init_def buffer_inv_def queue_of_def split: if_splits)
  have "buffer_inv (fold buffer_apply ops b) \<and> bf_max_size_bytes (fold buffer_apply ops b) = bf_max_size_bytes b
      \<and> queue_of (fold buffer_apply ops b) = fold (queue_apply (bf_max_size_bytes b)) ops (queue_of b)"
    using b(1)
  proof (induction ops arbitrary: b)
    case (Cons op ops)
    then show ?case using buffer_apply_refines [OF Cons.prems, of op] Cons.IH [of "buffer_apply op b"] by simp
  qed simp
  moreover have "queue_size (queue_of c) = total_size (bf_items c)" for c by (simp add: queue_of_def queue_size_of)
  ultimately show ?thesis by (simp add: b buffer_inv_def dict_inv_def dkeys_queue_of Let_def)
qed

definition demo_buffer :: buffer where
  "demo_buffer = projr (buffer_init 5)"

theorem buffer_add_refines_witness:
  "queue_of (snd (snd (buffer_add 3 ''c'' ''xyz'' (fold buffer_apply [Op_add 1 ''a'' ''pq'', Op_add 2 ''b'' ''rs''] demo_buffer))))
   = [(''b'', ''rs''), (''c'', ''xyz'')]"
proof -
  let ?b = "fold buffer_apply [Op_add 1 ''a'' ''pq'', Op_add 2 ''b'' ''rs''] demo_buffer"
  have "buffer_inv ?b" by code_simp
  then have "queue_of (snd (snd (buffer_add 3 ''c'' ''xyz'' ?b))) = queue_put (bf_max_size_bytes ?b) ''c'' ''xyz'' (queue_of ?b)"
    using buffer_add_refines [of ?b 3 "''c''" "''xyz''"] by (metis prod.collapse)
  also have "\<dots> = [(''b'', ''rs''), (''c'', ''xyz'')]" by code_simp
  finally show ?thesis .
qed

theorem buffer_runs_bounded_witness:
  "bf_current_size (fold buffer_apply [Op_add 1 ''a'' ''pq'', Op_add 2 ''b'' ''rstu'', Op_delete ''a''] demo_buffer) \<le> 5"
proof -
  have "buffer_init 5 = Inr demo_buffer" by (simp add: demo_buffer_def buffer_init_def)
  from buffer_runs_bounded [OF this] show ?thesis unfolding Let_def by blast
qed

end
