(* ===== verification/ExecHandler.thy ===== *)
theory ExecHandler
  imports ConnState Buffer Client
begin

text \<open>
  \<open>connect/_internal/execution_handler.py\<close>: the handler that runs the functions which the gateway asks for.
  A task is numbered; it stays in \<open>xh_tasks\<close> after its end, so that its number also names the request object
  that the pending requests share with it.  One stretch of \<open>_execute_request\<close> between two \<open>await\<close>s is one
  step; what \<open>ws.send\<close>, \<open>CommHandler.post\<close> and the flush request do is input of the step.
\<close>

section \<open>Pending requests\<close>

text \<open>\<open>_PendingRequestManager\<close>: its dictionary, and the shared count.\<close>

type_synonym pending = "(string, nat) dict \<times> int"

definition pm_add :: "string \<Rightarrow> nat \<Rightarrow> pending \<Rightarrow> pending" where
  "pm_add request_id task = (\<lambda>(requests, n). (dset requests request_id task, n + 1))"

definition pm_clear :: "pending \<Rightarrow> pending" where
  "pm_clear = (\<lambda>(requests, n). ([], 0))"

definition pm_count :: "pending \<Rightarrow> nat" where
  "pm_count = (\<lambda>(requests, n). length requests)"

definition pm_get :: "string \<Rightarrow> pending \<Rightarrow> nat option" where
  "pm_get request_id = (\<lambda>(requests, n). dget requests request_id)"

definition pm_get_all :: "pending \<Rightarrow> nat list" where
  "pm_get_all = (\<lambda>(requests, n). dvalues requests)"

definition pm_pop :: "string \<Rightarrow> pending \<Rightarrow> nat option \<times> pending" where
  "pm_pop request_id = (\<lambda>(requests, n). case dget requests request_id of
     None \<Rightarrow> (None, (requests, n))
   | Some task \<Rightarrow> (Some task, (ddel requests request_id, n - 1)))"

section \<open>The handler\<close>

text \<open>
  Where \<open>_execute_request\<close> stands; \<open>Ended\<close> is before its done callback and \<open>Finished\<close> after it, both with
  whether it was cancelled.
\<close>

datatype exec_pc = AwaitingWs | SendAck | SendingAck | RunningFn | Responding "exc + comm_response" | SendingReply bytes | SendingErrorReply bytes
  | Ended bool | Finished bool

record exec_task =
  et_request :: executor_request
  et_pc :: exec_pc

record exec_handler =
  xh_base :: base_handler
  xh_closing :: bool
  xh_requests :: "(string, nat) dict"
  xh_tasks :: "exec_task list"
  xh_buffer :: buffer
  xh_main_loop_set :: bool
  xh_extending :: "nat list"
  xh_sending_lease :: "bytes option"
  xh_flushing :: "(string \<times> bytes) list"

text \<open>The handler with the shared state, the frames given to the WebSocket, and the user's own state.\<close>

record 'w exec_system =
  xs_handler :: exec_handler
  xs_state :: cstate
  xs_sent :: "bytes list"
  xs_flushed :: "bytes list"
  xs_world :: 'w

definition exec_init :: "bool \<Rightarrow> exec_handler" where
  "exec_init main_loop_set = \<lparr>xh_base = base_init, xh_closing = False, xh_requests = [], xh_tasks = [],
     xh_buffer = projr (buffer_init DEFAULT_MAX_BUFFER_SIZE_BYTES), xh_main_loop_set = main_loop_set,
     xh_extending = [], xh_sending_lease = None, xh_flushing = []\<rparr>"

definition exec_start :: "exec_handler \<Rightarrow> exec_handler" where
  "exec_start x = x\<lparr>xh_base := base_start (xh_base x)\<rparr>"

definition exec_close :: "exec_handler \<Rightarrow> exec_handler" where
  "exec_close x = x\<lparr>xh_closing := True, xh_base := base_close (xh_base x)\<rparr>"

definition set_pc :: "nat \<Rightarrow> exec_pc \<Rightarrow> exec_handler \<Rightarrow> exec_handler" where
  "set_pc t pc x = x\<lparr>xh_tasks := (xh_tasks x)[t := (xh_tasks x ! t)\<lparr>et_pc := pc\<rparr>]\<rparr>"

text \<open>\<open>apps\<close> are the apps that have a \<open>CommHandler\<close>.\<close>

definition handle_executor_request :: "codec \<Rightarrow> string set \<Rightarrow> bytes \<Rightarrow> exec_handler \<times> cstate \<Rightarrow> exec_handler \<times> cstate" where
  "handle_executor_request codec apps payload = (\<lambda>(x, st).
     if xh_closing x then (x, st)
     else (case dec_executor_request codec payload of
         Inl e \<Rightarrow> (x, st)
       | Inr req \<Rightarrow>
           if xr_app_name req \<notin> apps then (x, st)
           else (let task = length (xh_tasks x);
                     (requests, n) = pm_add (xr_request_id req) task (xh_requests x, st_pending_request_count st) in
                 (x\<lparr>xh_tasks := xh_tasks x @ [\<lparr>et_request = req, et_pc = AwaitingWs\<rparr>], xh_requests := requests\<rparr>,
                  st\<lparr>st_pending_request_count := n\<rparr>))))"

text \<open>\<open>task.cancel()\<close>: a task that has ended is not touched.\<close>

definition cancel_task :: "nat \<Rightarrow> exec_handler \<Rightarrow> exec_handler" where
  "cancel_task t x = (case et_pc (xh_tasks x ! t) of Ended c \<Rightarrow> x | Finished c \<Rightarrow> x | _ \<Rightarrow> set_pc t (Ended True) x)"

definition handle_lease_extend_ack :: "codec \<Rightarrow> bytes \<Rightarrow> exec_handler \<Rightarrow> exec_handler" where
  "handle_lease_extend_ack codec payload x =
     (case dec_lease_ack codec payload of
        Inl e \<Rightarrow> x
      | Inr (request_id, new_lease_id) \<Rightarrow>
          (case pm_get request_id (xh_requests x, 0) of
             None \<Rightarrow> x
           | Some t \<Rightarrow>
               if new_lease_id \<noteq> [] then
                 x\<lparr>xh_tasks := (xh_tasks x)[t := (xh_tasks x ! t)\<lparr>et_request := (et_request (xh_tasks x ! t))\<lparr>xr_lease_id := new_lease_id\<rparr>\<rparr>]\<rparr>
               else cancel_task t x))"

definition handle_worker_reply_ack :: "codec \<Rightarrow> bytes \<Rightarrow> exec_handler \<Rightarrow> exec_handler" where
  "handle_worker_reply_ack codec payload x =
     (case dec_reply_ack codec payload of
        Inl e \<Rightarrow> x
      | Inr request_id \<Rightarrow> x\<lparr>xh_buffer := snd (buffer_delete request_id (xh_buffer x))\<rparr>)"

definition exec_handle_msg :: "codec \<Rightarrow> string set \<Rightarrow> message_kind \<Rightarrow> bytes \<Rightarrow> exec_handler \<times> cstate \<Rightarrow> exec_handler \<times> cstate" where
  "exec_handle_msg codec apps kind payload = (\<lambda>(x, st).
     if kind = GATEWAY_EXECUTOR_REQUEST then handle_executor_request codec apps payload (x, st)
     else if kind = WORKER_REQUEST_EXTEND_LEASE_ACK then (handle_lease_extend_ack codec payload x, st)
     else if kind = WORKER_REPLY_ACK then (handle_worker_reply_ack codec payload x, st)
     else (x, st))"

section \<open>Running a request\<close>

definition ack_message :: "codec \<Rightarrow> executor_request \<Rightarrow> bytes" where
  "ack_message codec req = enc_message codec WORKER_REQUEST_ACK (enc_request_ack codec
     \<lparr>ra_account_id = xr_account_id req, ra_app_id = xr_app_id req, ra_env_id = xr_env_id req,
      ra_function_slug = xr_function_slug req, ra_request_id = xr_request_id req, ra_step_id = xr_step_id req,
      ra_system_trace_ctx = xr_system_trace_ctx req, ra_user_trace_ctx = xr_user_trace_ctx req\<rparr>)"

definition exec_comm_request :: "executor_request \<Rightarrow> comm_request" where
  "exec_comm_request req = \<lparr>cq_body = xr_request_payload req, cq_headers = [], cq_is_connect = True, cq_public_path = None,
     cq_query_params = [(query_param_key_value QP_FUNCTION_ID, HStr (xr_function_slug req)),
       (query_param_key_value QP_STEP_ID, HStr (xr_step_id req))],
     cq_request_url = [], cq_serve_origin = None, cq_serve_path = None\<rparr>"

definition status_of :: "int \<Rightarrow> sdk_status" where
  "status_of status_code = (if status_code = 200 then DONE else if status_code = 206 then NOT_COMPLETED else ERROR)"

definition reply_payload :: "codec \<Rightarrow> executor_request \<Rightarrow> comm_response \<Rightarrow> bytes \<Rightarrow> bytes" where
  "reply_payload codec req res body = enc_sdk_response codec
     \<lparr>sk_account_id = xr_account_id req, sk_app_id = xr_app_id req, sk_body = body, sk_env_id = xr_env_id req,
      sk_no_retry = no_retry res, sk_request_id = xr_request_id req,
      sk_request_version = (case request_version res of None \<Rightarrow> 0 | Some v \<Rightarrow> v), sk_retry_after = retry_after_header res,
      sk_sdk_version = (case sdk_version res of None \<Rightarrow> [] | Some v \<Rightarrow> v), sk_status = status_of (cp_status res),
      sk_system_trace_ctx = xr_system_trace_ctx req, sk_user_trace_ctx = xr_user_trace_ctx req\<rparr>"

definition error_reply :: "codec \<Rightarrow> executor_request \<Rightarrow> exc + bytes" where
  "error_reply codec req =
     (case body_bytes (from_error_code EC_UNKNOWN ''internal error'' 500) of
        Inl e \<Rightarrow> Inl e
      | Inr body \<Rightarrow> Inr (enc_sdk_response codec
          \<lparr>sk_account_id = xr_account_id req, sk_app_id = xr_app_id req, sk_body = body, sk_env_id = xr_env_id req,
           sk_no_retry = False, sk_request_id = xr_request_id req, sk_request_version = 0, sk_retry_after = None,
           sk_sdk_version = [], sk_status = ERROR, sk_system_trace_ctx = [], sk_user_trace_ctx = []\<rparr>))"

definition worker_reply :: "codec \<Rightarrow> bytes \<Rightarrow> bytes" where
  "worker_reply codec payload = enc_message codec WORKER_REPLY payload"

text \<open>The \<open>except\<close> block up to its send.\<close>

definition exec_failed :: "codec \<Rightarrow> nat \<Rightarrow> 'w exec_system \<Rightarrow> 'w exec_system" where
  "exec_failed codec t s =
     (case error_reply codec (et_request (xh_tasks (xs_handler s) ! t)) of
        Inl e \<Rightarrow> s\<lparr>xs_handler := set_pc t (Ended False) (xs_handler s)\<rparr>
      | Inr reply \<Rightarrow>
          (case send_target (xs_state s) of
             Inl e \<Rightarrow> s\<lparr>xs_handler := set_pc t (Ended False) (xs_handler s)\<rparr>
           | Inr ws \<Rightarrow> s\<lparr>xs_handler := set_pc t (SendingErrorReply (worker_reply codec reply)) (xs_handler s)\<rparr>))"

text \<open>From the response to the send of the reply, which is buffered first.\<close>

definition exec_respond :: "codec \<Rightarrow> int \<Rightarrow> nat \<Rightarrow> comm_response \<Rightarrow> 'w exec_system \<Rightarrow> 'w exec_system" where
  "exec_respond codec now t res s =
     (let req = et_request (xh_tasks (xs_handler s) ! t) in
      case body_bytes res of
        Inl e \<Rightarrow> exec_failed codec t s
      | Inr body \<Rightarrow>
          (let payload = reply_payload codec req res body;
               x = (xs_handler s)\<lparr>xh_buffer := snd (snd (buffer_add now (xr_request_id req) payload (xh_buffer (xs_handler s))))\<rparr> in
           s\<lparr>xs_handler := (case send_target (xs_state s) of
              Inl e \<Rightarrow> set_pc t (Ended False) x
            | Inr ws \<Rightarrow> set_pc t (SendingReply (worker_reply codec payload)) x)\<rparr>))"

text \<open>What the environment gives to a step: the end of a send, with the clock, and what \<open>post\<close> does.\<close>

definition exec_step :: "codec \<Rightarrow> (string \<Rightarrow> comm_request \<Rightarrow> 'w \<Rightarrow> (exc + comm_response) \<times> 'w) \<Rightarrow> int \<Rightarrow> send_outcome
    \<Rightarrow> nat \<Rightarrow> 'w exec_system \<Rightarrow> 'w exec_system option" where
  "exec_step codec post now r t s =
     (let x = xs_handler s; req = et_request (xh_tasks x ! t);
          sent = (\<lambda>m. s\<lparr>xs_state := snd (safe_send_result r (xs_state s)),
                        xs_sent := (if r = SendOk then xs_sent s @ [m] else xs_sent s)\<rparr>) in
      case et_pc (xh_tasks x ! t) of
        AwaitingWs \<Rightarrow> if st_ws (xs_state s) = None then None else Some (s\<lparr>xs_handler := set_pc t SendAck x\<rparr>)
      | SendAck \<Rightarrow>
          (case send_target (xs_state s) of
             Inl e \<Rightarrow> Some (exec_respond codec now t (from_error e 500) s)
           | Inr ws \<Rightarrow> Some (s\<lparr>xs_handler := set_pc t SendingAck x\<rparr>))
      | SendingAck \<Rightarrow>
          (let s' = sent (ack_message codec req) in
           case fst (safe_send_result r (xs_state s)) of
             None \<Rightarrow> if xh_main_loop_set x then Some (s'\<lparr>xs_handler := set_pc t RunningFn x\<rparr>)
                     else Some (exec_failed codec t s')
           | Some e \<Rightarrow> Some (exec_respond codec now t (from_error e 500) s'))
      | RunningFn \<Rightarrow>
          (case post (xr_app_name req) (exec_comm_request req) (xs_world s) of
             (res, w) \<Rightarrow> Some (s\<lparr>xs_world := w, xs_handler := set_pc t (Responding res) x\<rparr>))
      | Responding (Inl e) \<Rightarrow> Some (exec_failed codec t s)
      | Responding (Inr res) \<Rightarrow> Some (exec_respond codec now t res s)
      | SendingReply m \<Rightarrow> Some ((sent m)\<lparr>xs_handler := set_pc t (Ended False) x\<rparr>)
      | SendingErrorReply m \<Rightarrow> Some ((sent m)\<lparr>xs_handler := set_pc t (Ended False) x\<rparr>)
      | Ended c \<Rightarrow> Some (s\<lparr>xs_handler := (set_pc t (Finished c) x)\<lparr>xh_requests := fst (snd (pm_pop (xr_request_id req) (xh_requests x, st_pending_request_count (xs_state s))))\<rparr>,
                            xs_state := (xs_state s)\<lparr>st_pending_request_count :=
                               snd (snd (pm_pop (xr_request_id req) (xh_requests x, st_pending_request_count (xs_state s))))\<rparr>\<rparr>)
      | Finished c \<Rightarrow> None)"

section \<open>Lease extension and flushing\<close>

definition extend_lease_message :: "codec \<Rightarrow> executor_request \<Rightarrow> bytes" where
  "extend_lease_message codec req = enc_message codec WORKER_REQUEST_EXTEND_LEASE (enc_extend_lease codec
     \<lparr>el_account_id = xr_account_id req, el_env_id = xr_env_id req, el_function_slug = xr_function_slug req,
      el_lease_id = xr_lease_id req, el_request_id = xr_request_id req, el_run_id = xr_run_id req,
      el_step_id = xr_step_id req, el_system_trace_ctx = xr_system_trace_ctx req, el_user_trace_ctx = xr_user_trace_ctx req\<rparr>)"

text \<open>
  \<open>_lease_extender\<close>: after its sleep, a snapshot of the pending requests when there are any; then one send for
  each, with the lease id that the request then has.
\<close>

definition lease_begin :: "exec_handler \<Rightarrow> exec_handler" where
  "lease_begin x = (if pm_count (xh_requests x, 0) = 0 then x else x\<lparr>xh_extending := pm_get_all (xh_requests x, 0)\<rparr>)"

definition lease_next :: "codec \<Rightarrow> exec_handler \<times> cstate \<Rightarrow> exec_handler" where
  "lease_next codec = (\<lambda>(x, st). case xh_extending x of
     [] \<Rightarrow> x
   | t # ts \<Rightarrow> (case send_target st of
        Inl e \<Rightarrow> x\<lparr>xh_extending := ts\<rparr>
      | Inr ws \<Rightarrow> x\<lparr>xh_extending := ts, xh_sending_lease := Some (extend_lease_message codec (et_request (xh_tasks x ! t)))\<rparr>))"

text \<open>
  \<open>_unacked_msg_flush_poller\<close>: what is old enough is flushed one after the other, and each is deleted from the
  buffer after its flush, by its id, whatever came of it.
\<close>

definition flush_begin :: "int \<Rightarrow> int \<Rightarrow> exec_handler \<Rightarrow> exec_handler" where
  "flush_begin now flush_ttl x = x\<lparr>xh_flushing := buffer_get_older_than now flush_ttl (xh_buffer x)\<rparr>"

definition flush_done :: "exec_handler \<Rightarrow> exec_handler" where
  "flush_done x = (case xh_flushing x of [] \<Rightarrow> x
     | (request_id, m) # rest \<Rightarrow> x\<lparr>xh_buffer := snd (buffer_delete request_id (xh_buffer x)), xh_flushing := rest\<rparr>)"

definition flush_request :: "string \<Rightarrow> bytes \<Rightarrow> exc + http_request" where
  "flush_request api_origin msg = (case join_url api_origin ''/v0/connect/flush'' of
     Inl e \<Rightarrow> Inl e
   | Inr url \<Rightarrow> Inr \<lparr>hq_method = ''POST'', hq_url = url, hq_headers = [(''content-type'', ''application/protobuf'')],
       hq_json = None, hq_timeout = Some 5000000, hq_params = [], hq_content = Some msg\<rparr>)"

definition flush_message :: "'s http \<Rightarrow> string \<Rightarrow> string option \<Rightarrow> string option \<Rightarrow> bytes \<Rightarrow> ('s, exc, exc option) M" where
  "flush_message http api_origin signing_key signing_key_fallback msg =
     bindM (raise_ifM (\<lambda>e. e) (bindE (flush_request api_origin msg) (hx_build http))) (\<lambda>request.
     bindM (fetch_with_auth_fallback http request signing_key signing_key_fallback) (\<lambda>res.
       retM (case res of
           Inl e \<Rightarrow> Some e
         | Inr res \<Rightarrow>
             if hp_status res = 401 \<or> hp_status res = 403 then Some (Exception ''unauthorized'')
             else if hp_status res < 200 \<or> 300 \<le> hp_status res
             then Some (Exception (''unexpected status code: '' @ str_of_int (hp_status res)))
             else None)))"

section \<open>The handler among the others\<close>

text \<open>The steps of the handler's own coroutines.\<close>

inductive exec_own_step :: "codec \<Rightarrow> (string \<Rightarrow> comm_request \<Rightarrow> 'w \<Rightarrow> (exc + comm_response) \<times> 'w)
    \<Rightarrow> 'w exec_system \<Rightarrow> 'w exec_system \<Rightarrow> bool" for codec post where
  task: "t < length (xh_tasks (xs_handler s)) \<Longrightarrow> exec_step codec post now r t s = Some s' \<Longrightarrow> exec_own_step codec post s s'"
| lease_begin: "xh_extending (xs_handler s) = [] \<Longrightarrow> \<not> closed_event_is_set (xh_base (xs_handler s)) \<Longrightarrow>
      exec_own_step codec post s (s\<lparr>xs_handler := lease_begin (xs_handler s)\<rparr>)"
| lease_next: "xh_sending_lease (xs_handler s) = None \<Longrightarrow>
      exec_own_step codec post s (s\<lparr>xs_handler := lease_next codec (xs_handler s, xs_state s)\<rparr>)"
| lease_sent: "xh_sending_lease (xs_handler s) = Some m \<Longrightarrow>
      exec_own_step codec post s (s\<lparr>xs_handler := (xs_handler s)\<lparr>xh_sending_lease := None\<rparr>,
        xs_state := snd (safe_send_result r (xs_state s)), xs_sent := (if r = SendOk then xs_sent s @ [m] else xs_sent s)\<rparr>)"
| flush_begin: "xh_flushing (xs_handler s) = [] \<Longrightarrow> \<not> closed_event_is_set (xh_base (xs_handler s)) \<Longrightarrow>
      exec_own_step codec post s (s\<lparr>xs_handler := flush_begin now ttl (xs_handler s)\<rparr>)"
| flush_done: "xh_flushing (xs_handler s) = (request_id, m) # rest \<Longrightarrow>
      exec_own_step codec post s (s\<lparr>xs_handler := flush_done (xs_handler s), xs_flushed := xs_flushed s @ [m]\<rparr>)"

text \<open>
  The handler's steps with the dispatch of messages, its closing, and (\<open>others\<close>) changes of the shared state by
  other handlers, which leave the count alone.  With \<open>dup = False\<close> the gateway does not send a request whose id is
  still pending.
\<close>

inductive exec_sys_step :: "codec \<Rightarrow> string set \<Rightarrow> (string \<Rightarrow> comm_request \<Rightarrow> 'w \<Rightarrow> (exc + comm_response) \<times> 'w) \<Rightarrow> bool
    \<Rightarrow> 'w exec_system \<Rightarrow> 'w exec_system \<Rightarrow> bool" for codec apps post dup where
  own: "exec_own_step codec post s s' \<Longrightarrow> exec_sys_step codec apps post dup s s'"
| msg: "(\<And>req. kind = GATEWAY_EXECUTOR_REQUEST \<Longrightarrow> dec_executor_request codec payload = Inr req \<Longrightarrow>
        dup \<or> dget (xh_requests (xs_handler s)) (xr_request_id req) = None) \<Longrightarrow>
      exec_handle_msg codec apps kind payload (xs_handler s, xs_state s) = (x', st') \<Longrightarrow>
      exec_sys_step codec apps post dup s (s\<lparr>xs_handler := x', xs_state := st'\<rparr>)"
| close: "exec_sys_step codec apps post dup s (s\<lparr>xs_handler := exec_close (xs_handler s)\<rparr>)"
| close_sequence: "close_sequence_step (st_pending_request_count (xs_state s) = 0) (xh_base (xs_handler s)) = Some b \<Longrightarrow>
      exec_sys_step codec apps post dup s (s\<lparr>xs_handler := (xs_handler s)\<lparr>xh_base := b\<rparr>\<rparr>)"
| others: "st_pending_request_count st' = st_pending_request_count (xs_state s) \<Longrightarrow>
      exec_sys_step codec apps post dup s (s\<lparr>xs_state := st'\<rparr>)"

definition exec_initial :: "'w \<Rightarrow> bool \<Rightarrow> 'w exec_system" where
  "exec_initial w main_loop_set = \<lparr>xs_handler = exec_start (exec_init main_loop_set), xs_state = State_init, xs_sent = [],
     xs_flushed = [], xs_world = w\<rparr>"

inductive exec_reachable :: "codec \<Rightarrow> string set \<Rightarrow> (string \<Rightarrow> comm_request \<Rightarrow> 'w \<Rightarrow> (exc + comm_response) \<times> 'w) \<Rightarrow> bool
    \<Rightarrow> 'w exec_system \<Rightarrow> bool" for codec apps post dup where
  init: "exec_reachable codec apps post dup (exec_initial w main_loop_set)"
| step: "exec_reachable codec apps post dup s \<Longrightarrow> exec_sys_step codec apps post dup s s' \<Longrightarrow> exec_reachable codec apps post dup s'"

end
