(* ===== verification/Handshake.thy ===== *)
theory Handshake
  imports ConnState
begin

text \<open>
  \<open>connect/_internal/init_handshake_handler.py\<close>: the handshake after the WebSocket has opened.  The handler's
  coroutines are steps of \<open>hs_step\<close>: the dispatch of a message, the stretches of \<open>_send_response\<close>, and the reset by
  \<open>_reconnect_watcher\<close>, which wakes up some time after \<open>conn_init\<close> was cleared.  What \<open>psutil\<close>, \<open>platform\<close> and
  Pydantic's JSON encoder give is in the configuration.
\<close>

section \<open>Durations\<close>

definition unreachable_error :: "string \<Rightarrow> exc" where
  "unreachable_error m = PyExc ''UnreachableError'' m"

text \<open>
  The pattern \<open>^(\d+)s$\<close>, whose end may be before a final line feed; \<open>int\<close> refuses more than 4300 digits.
\<close>

definition duration_str_to_sec :: "string \<Rightarrow> exc + int" where
  "duration_str_to_sec d =
     (let digits = takeWhile is_digit d in
      if digits \<noteq> [] \<and> dropWhile is_digit d \<in> {''s'', ''s'' @ [char_of (10::nat)]} \<and> length digits \<le> 4300
      then Inr (int (nat_of_digits 0 digits))
      else Inl (unreachable_error (''Invalid duration string: '' @ d)))"

section \<open>The sync message\<close>

record app_config =
  ap_functions :: "function_config list"
  ap_version :: "string option"

record handshake_config =
  hc_app_configs :: "(string, app_config) dict"
  hc_env :: "string option"
  hc_instance_id :: string
  hc_max_worker_concurrency :: "int option"
  hc_extend_lease_interval :: "int option"
  hc_sdk_version :: string
  hc_functions_json :: "function_config list \<Rightarrow> exc + bytes"
  hc_capabilities_json :: string
  hc_system_attributes :: "int option \<times> int \<times> string"

fun app_configurations :: "handshake_config \<Rightarrow> (string, app_config) dict \<Rightarrow> exc + app_configuration list" where
  "app_configurations cfg [] = Inr []"
| "app_configurations cfg ((app_id, config) # apps) =
     (case hc_functions_json cfg (ap_functions config) of
        Inl err \<Rightarrow> Inl err
      | Inr functions_bytes \<Rightarrow> bindE (app_configurations cfg apps) (\<lambda>rest.
          Inr (\<lparr>ac_app_name = app_id, ac_app_version = ap_version config, ac_functions = functions_bytes\<rparr> # rest)))"

definition create_sync_message :: "codec \<Rightarrow> handshake_config \<Rightarrow> auth_data \<Rightarrow> string \<Rightarrow> exc + bytes" where
  "create_sync_message codec cfg auth connection_id =
     bindE (app_configurations cfg (hc_app_configs cfg)) (\<lambda>apps.
       Inr (enc_message codec WORKER_CONNECT (enc_worker_connect codec
         \<lparr>wc_apps = apps, wc_auth_data = auth, wc_capabilities = utf8 (hc_capabilities_json cfg),
          wc_connection_id = connection_id, wc_environment = hc_env cfg, wc_framework = framework_value FW_CONNECT,
          wc_instance_id = hc_instance_id cfg, wc_sdk_language = LANGUAGE, wc_sdk_version = hc_sdk_version cfg,
          wc_system_attributes = hc_system_attributes cfg, wc_worker_manual_readiness_ack = False,
          wc_max_worker_concurrency = hc_max_worker_concurrency cfg\<rparr>)))"

section \<open>The handler\<close>

datatype handshake_state = HS_AWAITING_HELLO | HS_AWAITING_SYNC_COMPLETE | HS_AWAITING_READY | HS_COMPLETE

text \<open>Where \<open>_send_response\<close> stands: waiting for a connection, past that wait, or in its send.\<close>

datatype send_pc = AwaitingWsToSync | CreatingSync | SendingSync bytes | SyncEnded

record send_task =
  sd_auth_data :: auth_data
  sd_connection_id :: string
  sd_pc :: send_pc

record handshake =
  hk_base :: base_handler
  hk_state :: handshake_state
  hk_send_data_task :: "send_task option"

definition handshake_init :: handshake where
  "handshake_init = \<lparr>hk_base = base_init, hk_state = HS_AWAITING_HELLO, hk_send_data_task = None\<rparr>"

definition handshake_start :: "handshake \<Rightarrow> handshake" where
  "handshake_start h = h\<lparr>hk_base := base_start (hk_base h)\<rparr>"

text \<open>A new task replaces the one that is still running, which is cancelled.\<close>

definition start_sync :: "auth_data \<Rightarrow> string \<Rightarrow> handshake \<Rightarrow> handshake" where
  "start_sync auth connection_id h =
     h\<lparr>hk_send_data_task := Some \<lparr>sd_auth_data = auth, sd_connection_id = connection_id, sd_pc = AwaitingWsToSync\<rparr>\<rparr>"

definition handshake_ready :: "handshake_config \<Rightarrow> string \<Rightarrow> handshake \<times> cstate \<Rightarrow> handshake \<times> cstate" where
  "handshake_ready cfg interval = (\<lambda>(h, st).
     let st1 = (case hc_extend_lease_interval cfg of
           Some i \<Rightarrow> st\<lparr>st_extend_lease_interval := Some i\<rparr>
         | None \<Rightarrow> (case duration_str_to_sec interval of
               Inl e \<Rightarrow> st
             | Inr i \<Rightarrow> st\<lparr>st_extend_lease_interval := Some i\<rparr>)) in
     (h\<lparr>hk_state := HS_COMPLETE\<rparr>, st1\<lparr>st_conn_state := CS_ACTIVE, st_init_handshake_complete := True\<rparr>))"

definition handshake_handle_msg :: "codec \<Rightarrow> handshake_config \<Rightarrow> message_kind \<Rightarrow> bytes \<Rightarrow> auth_data \<Rightarrow> string
    \<Rightarrow> handshake \<times> cstate \<Rightarrow> handshake \<times> cstate" where
  "handshake_handle_msg codec cfg kind payload auth connection_id = (\<lambda>(h, st).
     case hk_state h of
       HS_AWAITING_HELLO \<Rightarrow>
         if kind \<noteq> GATEWAY_HELLO then (h, st)
         else (start_sync auth connection_id (h\<lparr>hk_state := HS_AWAITING_SYNC_COMPLETE\<rparr>), st\<lparr>st_init_handshake_complete := False\<rparr>)
     | HS_AWAITING_SYNC_COMPLETE \<Rightarrow> (start_sync auth connection_id h, st)
     | HS_AWAITING_READY \<Rightarrow>
         if kind \<noteq> GATEWAY_CONNECTION_READY then (h, st)
         else (case dec_connection_ready codec payload of Inl e \<Rightarrow> (h, st) | Inr interval \<Rightarrow> handshake_ready cfg interval (h, st))
     | HS_COMPLETE \<Rightarrow> (h, st))"

definition reset_handshake :: "handshake \<Rightarrow> handshake" where
  "reset_handshake h = h\<lparr>hk_state := HS_AWAITING_HELLO\<rparr>"

section \<open>Its steps\<close>

text \<open>
  \<open>hs_reset_due\<close> is that \<open>conn_init\<close> has been set to \<open>None\<close> and the watcher has not run yet.  \<open>hs_hello\<close> records
  whether a \<open>GATEWAY_HELLO\<close> was dispatched since \<open>conn_init\<close> was last cleared; nothing reads it.
\<close>

record hs_system =
  hs_handler :: handshake
  hs_state :: cstate
  hs_sent :: "bytes list"
  hs_reset_due :: bool
  hs_hello :: bool

definition set_send_pc :: "send_task \<Rightarrow> send_pc \<Rightarrow> handshake \<Rightarrow> handshake" where
  "set_send_pc task pc h = h\<lparr>hk_send_data_task := Some (task\<lparr>sd_pc := pc\<rparr>)\<rparr>"

text \<open>One stretch of \<open>_send_response\<close>; \<open>r\<close> is how its send ends.\<close>

definition send_response_step :: "codec \<Rightarrow> handshake_config \<Rightarrow> send_outcome \<Rightarrow> hs_system \<Rightarrow> hs_system option" where
  "send_response_step codec cfg r s = (let h = hs_handler s in
     case hk_send_data_task h of
       None \<Rightarrow> None
     | Some task \<Rightarrow>
         (case sd_pc task of
            AwaitingWsToSync \<Rightarrow> if st_ws (hs_state s) = None then None else Some (s\<lparr>hs_handler := set_send_pc task CreatingSync h\<rparr>)
          | CreatingSync \<Rightarrow>
              (case create_sync_message codec cfg (sd_auth_data task) (sd_connection_id task) of
                 Inl e \<Rightarrow> Some (s\<lparr>hs_handler := set_send_pc task SyncEnded h\<rparr>)
               | Inr m \<Rightarrow>
                   (case send_target (hs_state s) of
                      Inl e \<Rightarrow> Some (s\<lparr>hs_handler := set_send_pc task SyncEnded h\<rparr>)
                    | Inr ws \<Rightarrow> Some (s\<lparr>hs_handler := set_send_pc task (SendingSync m) h\<rparr>)))
          | SendingSync m \<Rightarrow>
              (let (err, st) = safe_send_result r (hs_state s); h' = set_send_pc task SyncEnded h in
               case err of
                 None \<Rightarrow> Some (s\<lparr>hs_handler := h'\<lparr>hk_state := HS_AWAITING_READY\<rparr>, hs_state := st, hs_sent := hs_sent s @ [m]\<rparr>)
               | Some e \<Rightarrow>
                   (let cleared = (st_conn_init st = None \<and> st_conn_init (hs_state s) \<noteq> None) in
                    Some (s\<lparr>hs_handler := h', hs_state := st, hs_reset_due := (hs_reset_due s \<or> cleared),
                            hs_hello := (hs_hello s \<and> \<not> cleared)\<rparr>)))
          | SyncEnded \<Rightarrow> None))"

text \<open>A step is labelled with the message that it dispatches, or is one of the other coroutines'.\<close>

datatype hs_action = HsDispatch message_kind bytes | HsOther

inductive hs_step :: "codec \<Rightarrow> handshake_config \<Rightarrow> hs_action \<Rightarrow> hs_system \<Rightarrow> hs_system \<Rightarrow> bool" for codec cfg where
  msg: "st_conn_init (hs_state s) = Some (auth, endpoint) \<Longrightarrow> st_conn_id (hs_state s) = Some conn_id \<Longrightarrow>
      handshake_handle_msg codec cfg kind payload auth conn_id (hs_handler s, hs_state s) = (h', st') \<Longrightarrow>
      hs_step codec cfg (HsDispatch kind payload) s (s\<lparr>hs_handler := h', hs_state := st', hs_hello := (hs_hello s \<or> kind = GATEWAY_HELLO)\<rparr>)"
| send: "send_response_step codec cfg r s = Some s' \<Longrightarrow> hs_step codec cfg HsOther s s'"
| reconnect_watcher: "hs_reset_due s \<Longrightarrow>
      hs_step codec cfg HsOther s (s\<lparr>hs_handler := reset_handshake (hs_handler s), hs_reset_due := False\<rparr>)"
| others: "st_init_handshake_complete st' = st_init_handshake_complete (hs_state s) \<Longrightarrow>
      cleared = (st_conn_init st' = None \<and> st_conn_init (hs_state s) \<noteq> None) \<Longrightarrow>
      hs_step codec cfg HsOther s (s\<lparr>hs_state := st', hs_reset_due := (hs_reset_due s \<or> cleared), hs_hello := (hs_hello s \<and> \<not> cleared)\<rparr>)"

definition hs_initial :: hs_system where
  "hs_initial = \<lparr>hs_handler = handshake_start handshake_init, hs_state = State_init, hs_sent = [], hs_reset_due = False, hs_hello = False\<rparr>"

inductive hs_reachable :: "codec \<Rightarrow> handshake_config \<Rightarrow> hs_system \<Rightarrow> bool" for codec cfg where
  init: "hs_reachable codec cfg hs_initial"
| step: "hs_reachable codec cfg s \<Longrightarrow> hs_step codec cfg a s s' \<Longrightarrow> hs_reachable codec cfg s'"

section \<open>Invariants\<close>

definition is_sync_message :: "codec \<Rightarrow> handshake_config \<Rightarrow> bytes \<Rightarrow> bool" where
  "is_sync_message codec cfg m = (\<exists>auth conn_id. create_sync_message codec cfg auth conn_id = Inr m)"

text \<open>
  What is being sent is a sync message, and beyond \<open>AWAITING_SYNC_COMPLETE\<close> one has been sent.
\<close>

definition hs_inv :: "codec \<Rightarrow> handshake_config \<Rightarrow> hs_system \<Rightarrow> bool" where
  "hs_inv codec cfg s = (
     (\<forall>task m. hk_send_data_task (hs_handler s) = Some task \<longrightarrow> sd_pc task = SendingSync m \<longrightarrow> is_sync_message codec cfg m)
     \<and> (hk_state (hs_handler s) \<in> {HS_AWAITING_READY, HS_COMPLETE} \<longrightarrow> (\<exists>m \<in> set (hs_sent s). is_sync_message codec cfg m)))"

lemma hs_inv_send:
  assumes step: "send_response_step codec cfg r s = Some s'" and inv: "hs_inv codec cfg s"
  shows "hs_inv codec cfg s'"
proof -
  obtain task where task: "hk_send_data_task (hs_handler s) = Some task"
    using step by (auto simp: send_response_step_def Let_def split: option.splits)
  show ?thesis
  proof (cases "sd_pc task")
    case AwaitingWsToSync
    with step task inv show ?thesis
      by (auto simp: send_response_step_def Let_def hs_inv_def set_send_pc_def split: if_splits)
  next
    case CreatingSync
    have "create_sync_message codec cfg (sd_auth_data task) (sd_connection_id task) = Inr m \<Longrightarrow> is_sync_message codec cfg m" for m
      by (auto simp: is_sync_message_def)
    with CreatingSync step task inv show ?thesis
      by (auto simp: send_response_step_def Let_def hs_inv_def set_send_pc_def split: sum.splits)
  next
    case (SendingSync m)
    then have m: "is_sync_message codec cfg m" using inv task by (simp add: hs_inv_def)
    show ?thesis
    proof (cases "fst (safe_send_result r (hs_state s))")
      case None
      with step task SendingSync inv m show ?thesis
        by (auto simp: send_response_step_def Let_def hs_inv_def set_send_pc_def split: prod.splits)
    next
      case (Some e)
      with step task SendingSync inv show ?thesis
        by (auto simp: send_response_step_def Let_def hs_inv_def set_send_pc_def split: prod.splits)
    qed
  next
    case SyncEnded
    with step task show ?thesis by (simp add: send_response_step_def Let_def)
  qed
qed

lemma hs_inv_msg:
  assumes "handshake_handle_msg codec cfg kind payload auth conn_id (hs_handler s, hs_state s) = (h', st')" and "hs_inv codec cfg s"
  shows "hs_inv codec cfg (s\<lparr>hs_handler := h', hs_state := st', hs_hello := b\<rparr>)"
  using assms
  by (auto simp: handshake_handle_msg_def handshake_ready_def start_sync_def Let_def hs_inv_def
      split: handshake_state.splits if_splits sum.splits)

lemma hs_inv_reachable: "hs_reachable codec cfg s \<Longrightarrow> hs_inv codec cfg s"
proof (induction rule: hs_reachable.induct)
  case init
  then show ?case by (simp add: hs_inv_def hs_initial_def handshake_start_def handshake_init_def)
next
  case (step s a s')
  from step(2) show ?case
  proof cases
    case (msg auth endpoint conn_id kind payload h' st')
    from hs_inv_msg [OF msg(5) step.IH] show ?thesis unfolding msg(2) .
  next
    case (send r)
    from hs_inv_send [OF send(2) step.IH] show ?thesis .
  qed (use step.IH in \<open>auto simp: hs_inv_def reset_handshake_def\<close>)
qed

lemma send_keeps_complete:
  "send_response_step codec cfg r s = Some s' \<Longrightarrow>
    st_init_handshake_complete (hs_state s') = st_init_handshake_complete (hs_state s)"
  by (auto simp: send_response_step_def Let_def safe_send_result_def close_ws_def split: option.splits send_pc.splits
      sum.splits if_splits prod.splits send_outcome.splits)

text \<open>C19: The handshake completes only in its order: the step that reports it complete is the dispatch of a
  \<open>GATEWAY_CONNECTION_READY\<close> whose payload parses, while the handler was awaiting it and after a \<open>WORKER_CONNECT\<close> had
  been sent; with it the connection is \<open>ACTIVE\<close> and the lease interval is the configured one, or the one of this message.\<close>

theorem handshake_completes_in_order:
  assumes "hs_reachable codec cfg s" and step: "hs_step codec cfg a s s'"
    and "\<not> st_init_handshake_complete (hs_state s)" and "st_init_handshake_complete (hs_state s')"
  shows "hk_state (hs_handler s) = HS_AWAITING_READY
    \<and> (\<exists>m \<in> set (hs_sent s). is_sync_message codec cfg m)
    \<and> (\<exists>payload interval. a = HsDispatch GATEWAY_CONNECTION_READY payload \<and> dec_connection_ready codec payload = Inr interval
        \<and> (hs_handler s', hs_state s') = handshake_ready cfg interval (hs_handler s, hs_state s))
    \<and> hk_state (hs_handler s') = HS_COMPLETE \<and> st_conn_state (hs_state s') = CS_ACTIVE"
  using step
proof cases
  case (msg auth endpoint conn_id kind payload h' st')
  have "kind = GATEWAY_CONNECTION_READY \<and> hk_state (hs_handler s) = HS_AWAITING_READY
      \<and> (\<exists>interval. dec_connection_ready codec payload = Inr interval \<and> (h', st') = handshake_ready cfg interval (hs_handler s, hs_state s))"
    using msg(5) assms(3,4) unfolding msg(2)
    by (auto simp: handshake_handle_msg_def start_sync_def split: handshake_state.splits if_splits sum.splits)
  then obtain interval where ready: "kind = GATEWAY_CONNECTION_READY" "hk_state (hs_handler s) = HS_AWAITING_READY"
    "dec_connection_ready codec payload = Inr interval" "(h', st') = handshake_ready cfg interval (hs_handler s, hs_state s)" by blast
  then have "hk_state h' = HS_COMPLETE" "st_conn_state st' = CS_ACTIVE" by (auto simp: handshake_ready_def Let_def)
  with ready hs_inv_reachable [OF assms(1)] msg(1) show ?thesis unfolding msg(2) by (auto simp: hs_inv_def)
next
  case (send r)
  from send_keeps_complete [OF send(2)] assms(3,4) show ?thesis by simp
qed (use assms(3,4) in simp_all)

text \<open>A sync task that finds a connection and whose send succeeds.\<close>

lemma sync_task_runs:
  assumes reach: "hs_reachable codec cfg s" and task: "hk_send_data_task (hs_handler s) = Some task" "sd_pc task = AwaitingWsToSync"
    and ws: "st_ws (hs_state s) = Some ws"
    and sync: "create_sync_message codec cfg (sd_auth_data task) (sd_connection_id task) = Inr m"
  shows "hs_reachable codec cfg (s\<lparr>hs_handler := (set_send_pc task SyncEnded (hs_handler s))\<lparr>hk_state := HS_AWAITING_READY\<rparr>,
    hs_sent := hs_sent s @ [m]\<rparr>)"
proof -
  let ?s2 = "s\<lparr>hs_handler := set_send_pc task CreatingSync (hs_handler s)\<rparr>"
  have "send_response_step codec cfg SendOk s = Some ?s2" using task ws by (simp add: send_response_step_def)
  from hs_reachable.step [OF reach hs_step.send [OF this]] have r2: "hs_reachable codec cfg ?s2" .
  let ?s3 = "?s2\<lparr>hs_handler := set_send_pc task (SendingSync m) (hs_handler s)\<rparr>"
  have "send_response_step codec cfg SendOk ?s2 = Some ?s3"
    using sync ws by (simp add: send_response_step_def send_target_def set_send_pc_def)
  from hs_reachable.step [OF r2 hs_step.send [OF this]] have r3: "hs_reachable codec cfg ?s3" .
  have "send_response_step codec cfg SendOk ?s3 = Some (?s3\<lparr>hs_handler := (set_send_pc task SyncEnded (hs_handler s))\<lparr>hk_state := HS_AWAITING_READY\<rparr>,
      hs_sent := hs_sent s @ [m]\<rparr>)"
    by (simp add: send_response_step_def safe_send_result_def set_send_pc_def)
  from hs_reachable.step [OF r3 hs_step.send [OF this]] show ?thesis by simp
qed

section \<open>A sync task that outlives its connection\<close>

text \<open>A connection has opened, and its \<open>GATEWAY_HELLO\<close> was dispatched.\<close>

definition hs_after_hello :: "auth_data \<Rightarrow> string \<Rightarrow> hs_system" where
  "hs_after_hello auth conn_id = hs_initial\<lparr>
     hs_handler := start_sync auth conn_id ((hs_handler hs_initial)\<lparr>hk_state := HS_AWAITING_SYNC_COMPLETE\<rparr>),
     hs_state := State_init\<lparr>st_conn_id := Some conn_id, st_conn_init := Some (auth, []), st_ws := Some 0\<rparr>, hs_hello := True\<rparr>"

lemma hs_after_hello_reachable: "hs_reachable codec cfg (hs_after_hello auth conn_id)"
proof -
  let ?open = "State_init\<lparr>st_conn_id := Some conn_id, st_conn_init := Some (auth, []), st_ws := Some 0\<rparr>"
  let ?s1 = "hs_initial\<lparr>hs_state := ?open\<rparr>"
  have "hs_step codec cfg HsOther hs_initial (hs_initial\<lparr>hs_state := ?open, hs_reset_due := (hs_reset_due hs_initial \<or> False), hs_hello := (hs_hello hs_initial \<and> \<not> False)\<rparr>)"
    by (rule hs_step.others) (simp_all add: hs_initial_def State_init_def)
  from hs_reachable.step [OF hs_reachable.init this] have r1: "hs_reachable codec cfg ?s1" by (simp add: hs_initial_def)
  have "hs_step codec cfg (HsDispatch GATEWAY_HELLO []) ?s1 (?s1\<lparr>hs_handler := start_sync auth conn_id ((hs_handler hs_initial)\<lparr>hk_state := HS_AWAITING_SYNC_COMPLETE\<rparr>),
      hs_state := ?open, hs_hello := (hs_hello ?s1 \<or> GATEWAY_HELLO = GATEWAY_HELLO)\<rparr>)"
    by (rule hs_step.msg [of _ auth "[]" conn_id])
      (simp_all add: handshake_handle_msg_def hs_initial_def handshake_start_def handshake_init_def State_init_def)
  from hs_reachable.step [OF r1 this] show ?thesis by (simp add: hs_initial_def hs_after_hello_def)
qed

text \<open>A \<open>GATEWAY_HELLO\<close> was dispatched, and then the connection was closed before the sync task had started.\<close>

definition hs_after_close :: "auth_data \<Rightarrow> string \<Rightarrow> hs_system" where
  "hs_after_close auth conn_id = hs_initial\<lparr>hs_handler := reset_handshake (start_sync auth conn_id (hs_handler hs_initial)),
     hs_state := close_ws (State_init\<lparr>st_conn_id := Some conn_id\<rparr>)\<rparr>"

lemma hs_after_close_reachable: "hs_reachable codec cfg (hs_after_close auth conn_id)"
proof -
  let ?s2 = "hs_after_hello auth conn_id"
  let ?closed = "close_ws (State_init\<lparr>st_conn_id := Some conn_id\<rparr>)"
  let ?s3 = "?s2\<lparr>hs_state := ?closed, hs_reset_due := True, hs_hello := False\<rparr>"
  have "hs_step codec cfg HsOther ?s2 (?s2\<lparr>hs_state := ?closed, hs_reset_due := (hs_reset_due ?s2 \<or> True), hs_hello := (hs_hello ?s2 \<and> \<not> True)\<rparr>)"
    by (rule hs_step.others) (simp_all add: hs_after_hello_def State_init_def close_ws_def)
  from hs_reachable.step [OF hs_after_hello_reachable this] have r3: "hs_reachable codec cfg ?s3" by simp
  have "hs_step codec cfg HsOther ?s3 (?s3\<lparr>hs_handler := reset_handshake (hs_handler ?s3), hs_reset_due := False\<rparr>)"
    by (rule hs_step.reconnect_watcher) simp
  from hs_reachable.step [OF r3 this] show ?thesis
    by (simp add: hs_after_close_def hs_after_hello_def hs_initial_def reset_handshake_def start_sync_def)
qed

text \<open>
  The task is not cancelled when the handshake is reset.  Once the next connection is open it sends the sync message of
  the old one and puts the handler in \<open>AWAITING_READY\<close>, where the \<open>GATEWAY_HELLO\<close> of the new connection is dropped.
\<close>

lemma stale_sync_skips_hello:
  assumes sync: "create_sync_message codec cfg auth conn_id = Inr m"
  shows "\<exists>s. hs_reachable codec cfg s \<and> hk_state (hs_handler s) = HS_AWAITING_READY \<and> \<not> hs_hello s \<and>
    (\<forall>payload auth conn_id. handshake_handle_msg codec cfg GATEWAY_HELLO payload auth conn_id (hs_handler s, hs_state s)
       = (hs_handler s, hs_state s))"
proof -
  let ?s0 = "hs_after_close auth conn_id"
  let ?open = "(hs_state ?s0)\<lparr>st_conn_init := Some (auth, []), st_ws := Some 1\<rparr>"
  let ?s1 = "?s0\<lparr>hs_state := ?open\<rparr>"
  have "hs_step codec cfg HsOther ?s0 (?s0\<lparr>hs_state := ?open, hs_reset_due := (hs_reset_due ?s0 \<or> False), hs_hello := (hs_hello ?s0 \<and> \<not> False)\<rparr>)"
    by (rule hs_step.others) simp_all
  from hs_reachable.step [OF hs_after_close_reachable this] have r1: "hs_reachable codec cfg ?s1" by simp
  define task where "task = \<lparr>sd_auth_data = auth, sd_connection_id = conn_id, sd_pc = AwaitingWsToSync\<rparr>"
  have task: "hk_send_data_task (hs_handler ?s1) = Some task" "sd_pc task = AwaitingWsToSync" "sd_auth_data task = auth"
    "sd_connection_id task = conn_id"
    by (simp_all add: task_def hs_after_close_def hs_initial_def reset_handshake_def start_sync_def)
  let ?s4 = "?s1\<lparr>hs_handler := (set_send_pc task SyncEnded (hs_handler ?s1))\<lparr>hk_state := HS_AWAITING_READY\<rparr>, hs_sent := hs_sent ?s1 @ [m]\<rparr>"
  have "hs_reachable codec cfg ?s4" by (rule sync_task_runs [OF r1 task(1,2), where ws = 1]) (simp_all add: task(3,4) sync)
  then show ?thesis
    by (intro exI [of _ ?s4]) (simp add: handshake_handle_msg_def hs_after_close_def hs_initial_def)
qed

section \<open>A handshake\<close>

definition demo_handshake :: handshake_config where
  "demo_handshake = \<lparr>hc_app_configs = [], hc_env = None, hc_instance_id = ''host'', hc_max_worker_concurrency = None,
     hc_extend_lease_interval = None, hc_sdk_version = ''1'', hc_functions_json = (\<lambda>fs. Inr ''[]''), hc_capabilities_json = ''{}'',
     hc_system_attributes = (Some 4, 1024, ''linux'')\<rparr>"

definition demo_auth :: auth_data where
  "demo_auth = \<lparr>ad_session_token = ''s'', ad_sync_token = ''t''\<rparr>"

theorem handshake_completes_in_order_witness:
  "\<exists>s s' payload. hs_reachable demo_codec demo_handshake s
    \<and> hs_step demo_codec demo_handshake (HsDispatch GATEWAY_CONNECTION_READY payload) s s'
    \<and> hk_state (hs_handler s') = HS_COMPLETE \<and> st_conn_state (hs_state s') = CS_ACTIVE \<and> st_extend_lease_interval (hs_state s') = Some 20"
proof -
  let ?s0 = "hs_after_hello demo_auth ''c''"
  define task where "task = \<lparr>sd_auth_data = demo_auth, sd_connection_id = ''c'', sd_pc = AwaitingWsToSync\<rparr>"
  let ?s = "?s0\<lparr>hs_handler := (set_send_pc task SyncEnded (hs_handler ?s0))\<lparr>hk_state := HS_AWAITING_READY\<rparr>, hs_sent := hs_sent ?s0 @ [''c'']\<rparr>"
  have s: "hs_reachable demo_codec demo_handshake ?s"
    by (rule sync_task_runs [OF hs_after_hello_reachable, where ws = 0 and task = task])
      (simp_all add: hs_after_hello_def start_sync_def task_def create_sync_message_def demo_handshake_def demo_codec_def)
  define ready where "ready = handshake_ready demo_handshake ''20s'' (hs_handler ?s, hs_state ?s)"
  let ?s' = "?s\<lparr>hs_handler := fst ready, hs_state := snd ready, hs_hello := (hs_hello ?s \<or> GATEWAY_CONNECTION_READY = GATEWAY_HELLO)\<rparr>"
  have step: "hs_step demo_codec demo_handshake (HsDispatch GATEWAY_CONNECTION_READY ''20s'') ?s ?s'"
    by (rule hs_step.msg [of _ demo_auth "[]" "''c''" _ _ GATEWAY_CONNECTION_READY "''20s''"])
      (simp_all add: hs_after_hello_def handshake_handle_msg_def demo_codec_def ready_def)
  have "duration_str_to_sec ''20s'' = Inr 20" by code_simp
  then have "st_extend_lease_interval (hs_state ?s') = Some 20" "st_init_handshake_complete (hs_state ?s')"
    by (simp_all add: ready_def handshake_ready_def Let_def demo_handshake_def)
  moreover have "\<not> st_init_handshake_complete (hs_state ?s)" by (simp add: hs_after_hello_def State_init_def)
  ultimately show ?thesis using handshake_completes_in_order [OF s step] s step by blast
qed

end
