(* ===== verification/ConnInit.thy ===== *)
theory ConnInit
  imports ConnState Client
begin

text \<open>
  \<open>connect/_internal/conn_init_starter.py\<close>: the REST call that starts a connection, its retries, and the
  loop that repeats it whenever the connection is to be made anew.  What happens to the shared state while the
  handler waits for an ans, and whether it has been closed meanwhile, are functions of the number of the
  attempt.
\<close>

section \<open>Gateway endpoints\<close>

text \<open>\<open>ParseResult.hostname\<close>: without user, brackets and port, in lower case up to a zone; \<open>None\<close> when empty.\<close>

definition after_last :: "char \<Rightarrow> string \<Rightarrow> string" where
  "after_last c s = rev (takeWhile (\<lambda>x. x \<noteq> c) (rev s))"

definition url_hostname :: "parsed_url \<Rightarrow> string option" where
  "url_hostname u =
     (let hostinfo = after_last (CHR ''@'') (u_netloc u);
          hostname = (case split_first (CHR ''['') hostinfo of
              (_, Some bracketed) \<Rightarrow> fst (split_first (CHR '']'') bracketed)
            | (_, None) \<Rightarrow> fst (split_first (CHR '':'') hostinfo)) in
      if hostname = [] then None
      else Some (case split_first (CHR ''%'') hostname of
          (h, None) \<Rightarrow> py_lower h | (h, Some zone) \<Rightarrow> py_lower h @ ''%'' @ zone))"

definition validate_gateway_endpoint :: "string \<Rightarrow> exc option" where
  "validate_gateway_endpoint endpoint =
     (if py_strip endpoint = [] then Some (Exception ''gateway endpoint is empty'')
      else (case urlparse endpoint of
          Inl e \<Rightarrow> Some (PyExc ''ValueError'' e)
        | Inr parsed \<Rightarrow>
            if u_scheme parsed \<notin> {''ws'', ''wss''}
            then Some (Exception (''gateway endpoint scheme '' @ u_scheme parsed @ '' is not valid, must be one of ws, wss''))
            else if url_hostname parsed = None then Some (Exception ''gateway endpoint hostname is required'')
            else None))"

section \<open>One attempt\<close>

record conn_init_config =
  ci_api_origin :: string
  ci_env :: "string option"
  ci_signing_key :: "string option"
  ci_signing_key_fallback :: "string option"
  ci_rewrite_gateway_endpoint :: "(string \<Rightarrow> exc + string) option"

datatype attempt = Accepted | NonRetryable exc | Retryable exc

definition start_http_request :: "conn_init_config \<Rightarrow> string \<Rightarrow> bytes \<Rightarrow> http_request" where
  "start_http_request cfg url body =
     \<lparr>hq_method = ''POST'', hq_url = url,
      hq_headers = [(''content-type'', ''application/protobuf'')] @
        (case ci_env cfg of Some env \<Rightarrow> if env \<noteq> [] then [(header_key_value HK_ENV, env)] else [] | None \<Rightarrow> []),
      hq_json = None, hq_timeout = Some 5000000, hq_params = [], hq_content = Some body\<rparr>"

text \<open>What is done with an ans: the connection id is stored before the endpoint is checked.\<close>

definition rewrite_endpoint :: "conn_init_config \<Rightarrow> string \<Rightarrow> exc + string" where
  "rewrite_endpoint cfg endpoint = (case ci_rewrite_gateway_endpoint cfg of None \<Rightarrow> Inr endpoint | Some f \<Rightarrow> f endpoint)"

definition accept_start_response :: "conn_init_config \<Rightarrow> start_response \<Rightarrow> cstate \<Rightarrow> attempt \<times> cstate" where
  "accept_start_response cfg resp st =
     (let st1 = st\<lparr>st_conn_id := Some (sp_connection_id resp)\<rparr> in
      case rewrite_endpoint cfg (sp_gateway_endpoint resp) of
        Inl e \<Rightarrow> (Retryable e, st1)
      | Inr final_endpoint \<Rightarrow>
          (case validate_gateway_endpoint final_endpoint of
             Some e \<Rightarrow> (Retryable e, st1)
           | None \<Rightarrow> (Accepted, st1\<lparr>st_conn_init := Some (\<lparr>ad_session_token = sp_session_token resp,
                                      ad_sync_token = sp_sync_token resp\<rparr>, final_endpoint)\<rparr>)))"

definition handle_start_answer :: "codec \<Rightarrow> conn_init_config \<Rightarrow> exc + (exc + http_response) \<Rightarrow> cstate \<Rightarrow> attempt \<times> cstate" where
  "handle_start_answer codec cfg ans st =
     (case ans of
        Inl e \<Rightarrow> (Retryable e, st)
      | Inr (Inl e) \<Rightarrow> (Retryable e, st)
      | Inr (Inr res) \<Rightarrow>
          if hp_status res = 401 \<or> hp_status res = 403 then (NonRetryable (PyExc ''NonRetryableError'' ''unauthorized''), st)
          else if hp_status res \<noteq> 200
          then (Retryable (Exception (''failed to send start request: '' @ str_of_int (hp_status res))), st)
          else (case dec_start_response codec (hp_content res) of
              Inl e \<Rightarrow> (Retryable e, st)
            | Inr resp \<Rightarrow> accept_start_response cfg resp st))"

section \<open>Attempts\<close>

text \<open>
  The inner loop from attempt \<open>i\<close> on, with \<open>n\<close> attempts left: \<open>closed i\<close> is \<open>closed_event\<close> when the loop tests it,
  \<open>during i\<close> what others do to the shared state until the answer of attempt \<open>i\<close> is handled.  The result is the
  error, if any, and the number of requests that were sent.
\<close>

fun start_attempts :: "'s http \<Rightarrow> codec \<Rightarrow> conn_init_config \<Rightarrow> string \<Rightarrow> bytes \<Rightarrow> (nat \<Rightarrow> bool) \<Rightarrow> (nat \<Rightarrow> cstate \<Rightarrow> cstate)
    \<Rightarrow> nat \<Rightarrow> nat \<Rightarrow> exc option \<Rightarrow> cstate \<times> 's \<Rightarrow> (exc option \<times> nat) \<times> cstate \<times> 's" where
  "start_attempts http codec cfg url body closed during 0 i err (st, w) = ((err, i), (st, w))"
| "start_attempts http codec cfg url body closed during (Suc n) i err (st, w) =
     (if closed i then ((err, i), (st, w))
      else (case bindM (raise_ifM (\<lambda>e. e) (hx_build http (start_http_request cfg url body)))
                  (\<lambda>request. fetch_with_auth_fallback http request (ci_signing_key cfg) (ci_signing_key_fallback cfg)) w of
          (ans, w') \<Rightarrow>
            (case handle_start_answer codec cfg ans (during i st) of
               (Accepted, st') \<Rightarrow> ((None, Suc i), (st', w'))
             | (NonRetryable e, st') \<Rightarrow> ((Some e, Suc i), (st', w'))
             | (Retryable e, st') \<Rightarrow> start_attempts http codec cfg url body closed during n (Suc i) (Some e) (st', w'))))"

text \<open>
  One round of the outer loop once \<open>conn_init\<close> is \<open>None\<close>: \<open>None\<close> when the handler stops because the connection is
  closed.  \<open>urljoin\<close> is outside of the \<open>try\<close>, so that its error ends the task.
\<close>

definition start_round :: "'s http \<Rightarrow> codec \<Rightarrow> conn_init_config \<Rightarrow> (nat \<Rightarrow> bool) \<Rightarrow> (nat \<Rightarrow> cstate \<Rightarrow> cstate)
    \<Rightarrow> cstate \<times> 's \<Rightarrow> (exc + (exc option \<times> nat) option) \<times> cstate \<times> 's" where
  "start_round http codec cfg closed during = (\<lambda>(st, w).
     if st_conn_state st = CS_CLOSED then (Inr None, (st, w))
     else (let st1 = st\<lparr>st_conn_state := CS_CONNECTING\<rparr>; body = enc_start_request codec (st_exclude_gateways st1) in
        case join_url (ci_api_origin cfg) ''/v0/connect/start'' of
          Inl e \<Rightarrow> (Inl e, (st1, w))
        | Inr url \<Rightarrow> (case start_attempts http codec cfg url body closed during MAX_CONN_INIT_ATTEMPTS 0 None (st1, w) of
            (r, s) \<Rightarrow> (Inr (Some r), s))))"

text \<open>The head of the outer loop: an error of the last round becomes the fatal error, and the task ends.\<close>

definition start_loop_head :: "bool \<Rightarrow> exc option \<Rightarrow> cstate \<Rightarrow> bool \<times> cstate" where
  "start_loop_head closed err st =
     (if closed then (False, st)
      else (case err of Some e \<Rightarrow> (False, st\<lparr>st_fatal_error := Some e\<rparr>) | None \<Rightarrow> (True, st)))"

section \<open>Lemmas\<close>

lemma handle_start_answer_Accepted:
  assumes "handle_start_answer codec cfg ans st = (Accepted, st')"
  shows "\<exists>auth endpoint. st_conn_init st' = Some (auth, endpoint) \<and> validate_gateway_endpoint endpoint = None"
  using assms by (auto simp: handle_start_answer_def accept_start_response_def Let_def split: sum.splits if_splits option.splits)

lemma handle_start_answer_keeps:
  assumes "handle_start_answer codec cfg ans st = (r, st')" and "r \<noteq> Accepted"
  shows "st_conn_init st' = st_conn_init st"
  using assms by (auto simp: handle_start_answer_def accept_start_response_def Let_def split: sum.splits if_splits option.splits)

lemma start_attempts_count:
  "start_attempts http codec cfg url body closed during n i err sw = ((err', k), sw') \<Longrightarrow> i \<le> k \<and> k \<le> i + n"
proof (induction n arbitrary: i err sw)
  case 0
  then show ?case by (cases sw) simp
next
  case (Suc n)
  obtain st w where sw: "sw = (st, w)" by force
  show ?case
  proof (cases "closed i")
    case False
    obtain ans w1 where ans: "bindM (raise_ifM (\<lambda>e. e) (hx_build http (start_http_request cfg url body)))
        (\<lambda>request. fetch_with_auth_fallback http request (ci_signing_key cfg) (ci_signing_key_fallback cfg)) w = (ans, w1)" by force
    obtain r st1 where r: "handle_start_answer codec cfg ans (during i st) = (r, st1)" by force
    show ?thesis
    proof (cases r)
      case (Retryable e)
      with Suc.prems False ans r sw
      have "start_attempts http codec cfg url body closed during n (Suc i) (Some e) (st1, w1) = ((err', k), sw')" by simp
      from Suc.IH [OF this] show ?thesis by simp
    qed (use Suc.prems False ans r sw in auto)
  qed (use Suc.prems sw in auto)
qed

definition valid_conn_init :: "cstate \<Rightarrow> bool" where
  "valid_conn_init st = (case st_conn_init st of None \<Rightarrow> False | Some (auth, endpoint) \<Rightarrow> validate_gateway_endpoint endpoint = None)"

lemma start_attempts_outcome:
  "start_attempts http codec cfg url body closed during n i err sw = ((err', k), (st', w')) \<Longrightarrow>
     (err' = None \<and> i < k \<longrightarrow> valid_conn_init st') \<and> (k = i \<longrightarrow> err' = err \<and> (n = 0 \<or> closed i)) \<and>
     (\<forall>e. err' = Some e \<longrightarrow> i < k \<longrightarrow> k = i + n \<or> closed k \<or> e = PyExc ''NonRetryableError'' ''unauthorized'')"
proof (induction n arbitrary: i err sw)
  case 0
  then show ?case by (cases sw) simp
next
  case (Suc n)
  obtain st w where sw: "sw = (st, w)" by force
  show ?case
  proof (cases "closed i")
    case False
    obtain ans w1 where ans: "bindM (raise_ifM (\<lambda>e. e) (hx_build http (start_http_request cfg url body)))
        (\<lambda>request. fetch_with_auth_fallback http request (ci_signing_key cfg) (ci_signing_key_fallback cfg)) w = (ans, w1)" by force
    obtain r st1 where r: "handle_start_answer codec cfg ans (during i st) = (r, st1)" by force
    show ?thesis
    proof (cases r)
      case Accepted
      with handle_start_answer_Accepted [OF r [unfolded Accepted]] Suc.prems False ans r sw show ?thesis
        by (auto simp: valid_conn_init_def)
    next
      case (NonRetryable e)
      then have "e = PyExc ''NonRetryableError'' ''unauthorized''"
        using r by (auto simp: handle_start_answer_def accept_start_response_def Let_def split: sum.splits if_splits option.splits)
      with NonRetryable Suc.prems False ans r sw show ?thesis by auto
    next
      case (Retryable e)
      with Suc.prems False ans r sw
      have rest: "start_attempts http codec cfg url body closed during n (Suc i) (Some e) (st1, w1) = ((err', k), (st', w'))" by simp
      have "Suc i \<le> k" using start_attempts_count [OF rest] by simp
      with Suc.IH [OF rest] show ?thesis by (cases "k = Suc i") auto
    qed
  qed (use Suc.prems sw in auto)
qed

text \<open>C20: A round of the start request ends after at most five requests: it ends with a connection whose endpoint is a
  WebSocket URL with a host, or because the handler was closed, or with an error after the fifth request or after the
  first answer of 401 or 403; and the error of a round becomes the fatal error that ends the connection.\<close>

theorem start_round_bounded:
  assumes "start_round http codec cfg closed during (st, w) = (Inr (Some (err, k)), (st', w'))"
  shows "k \<le> 5 \<and> (err = None \<and> 0 < k \<longrightarrow> valid_conn_init st') \<and> (k = 0 \<longrightarrow> err = None \<and> closed 0)
    \<and> (\<forall>e. err = Some e \<longrightarrow> (k = 5 \<or> closed k \<or> e = PyExc ''NonRetryableError'' ''unauthorized'')
          \<and> start_loop_head False err st' = (False, st'\<lparr>st_fatal_error := Some e\<rparr>))"
proof -
  from assms obtain url body st1 where run: "start_attempts http codec cfg url body closed during MAX_CONN_INIT_ATTEMPTS 0 None (st1, w)
      = ((err, k), (st', w'))"
    by (auto simp: start_round_def Let_def split: if_splits sum.splits prod.splits)
  have "k \<le> 5" using start_attempts_count [OF run] by (simp add: MAX_CONN_INIT_ATTEMPTS_def)
  with start_attempts_outcome [OF run] show ?thesis
    by (cases "k = 0") (auto simp: MAX_CONN_INIT_ATTEMPTS_def start_loop_head_def)
qed

definition demo_conn_init :: conn_init_config where
  "demo_conn_init = \<lparr>ci_api_origin = ''http://x'', ci_env = None, ci_signing_key = None, ci_signing_key_fallback = None,
     ci_rewrite_gateway_endpoint = Some (\<lambda>endpoint. Inr ''wss://Gateway:80'')\<rparr>"

text \<open>An API that answers 500 three times and then 200; the state counts the requests.\<close>

definition demo_api :: "nat http" where
  "demo_api = (let send = (\<lambda>r n. (Inr \<lparr>hp_status = (if n < 3 then 500 else 200), hp_text = [], hp_json = Inr PNone, hp_content = ''c''\<rparr>, Suc n)) in
     \<lparr>hx_version = ''1'', hx_sha256 = (\<lambda>b. b), hx_build = Inr, hx_send = send, hx_send_sync = send, hx_same_thread = True\<rparr>)"

theorem start_round_bounded_witness:
  "\<exists>st. start_round demo_api demo_codec demo_conn_init (\<lambda>i. False) (\<lambda>i st. st) (State_init, 0) = (Inr (Some (None, 4)), (st, 4))
    \<and> valid_conn_init st"
proof -
  let ?r = "start_round demo_api demo_codec demo_conn_init (\<lambda>i. False) (\<lambda>i st. st) (State_init, 0)"
  have "fst ?r = Inr (Some (None, 4))" "snd (snd ?r) = 4" by code_simp+
  then have r: "?r = (Inr (Some (None, 4)), (fst (snd ?r), 4))" by (metis prod.collapse)
  from start_round_bounded [OF r] r show ?thesis by auto
qed

end
