(* ===== verification/Worker.thy ===== *)
theory Worker
  imports ExecHandler Handshake ConnInit
begin

text \<open>
  \<open>connect/_internal/isolated_worker.py\<close> and the life cycle of \<open>WorkerConnectionImpl\<close> in \<open>connection.py\<close>: the
  worker thread with its five handlers, the reconnect loop, the message loop, the close sequence, and the calls that
  the main thread makes.  A step is one stretch of a coroutine between two \<open>await\<close>s; the coroutines of the handlers
  take the steps of their own theories.  The shared state is the one of the execution handler's system.
\<close>

section \<open>The worker\<close>

text \<open>Where the task of \<open>ConnInitHandler._send_start_request\<close> stands.\<close>

datatype start_pc = StartNotStarted | StartHead "exc option" | StartAwaitNone | StartAttempt nat "exc option"
  | StartFetching nat | StartEnded

text \<open>Where \<open>IsolatedWorker.run\<close> stands: before its first step, at the head of its loop, and at its awaits.\<close>

datatype run_pc = RunNotStarted | RunHead | RunAwaitEndpoint | RunConnecting string | RunConnected | RunSettling
  | RunAwaitMessages | RunRetryDelay | RunClosing "exc option" | RunStopped "exc option"

datatype close_pc = CloseScheduled | ClosePausing | CloseWaiting | CloseDone

record 'w worker =
  wk_exec :: "'w exec_system"
  wk_handshake :: handshake
  wk_reset_due :: bool
  wk_conn_changed :: bool
  wk_conn_init :: base_handler
  wk_start_task :: start_pc
  wk_heartbeat :: base_handler
  wk_heartbeat_task :: heart_pc
  wk_drain :: base_handler
  wk_closing :: bool
  wk_run :: run_pc
  wk_messages :: bool
  wk_close_tasks :: "close_pc list"

abbreviation wk_state :: "'w worker \<Rightarrow> cstate" where
  "wk_state s \<equiv> xs_state (wk_exec s)"

definition map_state :: "(cstate \<Rightarrow> cstate) \<Rightarrow> 'w worker \<Rightarrow> 'w worker" where
  "map_state f s = s\<lparr>wk_exec := (wk_exec s)\<lparr>xs_state := f (wk_state s)\<rparr>\<rparr>"

definition map_exec :: "(exec_handler \<Rightarrow> exec_handler) \<Rightarrow> 'w worker \<Rightarrow> 'w worker" where
  "map_exec f s = s\<lparr>wk_exec := (wk_exec s)\<lparr>xs_handler := f (xs_handler (wk_exec s))\<rparr>\<rparr>"

definition worker_init :: "'w \<Rightarrow> 'w worker" where
  "worker_init w = \<lparr>wk_exec = \<lparr>xs_handler = exec_init False, xs_state = State_init, xs_sent = [], xs_flushed = [], xs_world = w\<rparr>,
     wk_handshake = handshake_init, wk_reset_due = False, wk_conn_changed = False, wk_conn_init = base_init, wk_start_task = StartNotStarted,
     wk_heartbeat = base_init, wk_heartbeat_task = HeartNotStarted, wk_drain = base_init, wk_closing = False, wk_run = RunNotStarted, wk_messages = False,
     wk_close_tasks = []\<rparr>"

section \<open>Starting and closing the handlers\<close>

definition start_handlers :: "'w worker \<Rightarrow> 'w worker" where
  "start_handlers s = (map_exec exec_start s)\<lparr>wk_conn_init := base_start (wk_conn_init s),
     wk_start_task := (if wk_start_task s = StartNotStarted then StartHead None else wk_start_task s),
     wk_heartbeat := base_start (wk_heartbeat s), wk_heartbeat_task := heartbeat_start (wk_heartbeat_task s),
     wk_handshake := handshake_start (wk_handshake s),
     wk_drain := base_start (wk_drain s)\<rparr>"

definition close_handlers :: "'w worker \<Rightarrow> 'w worker" where
  "close_handlers s = (map_exec exec_close s)\<lparr>wk_conn_init := base_close (wk_conn_init s),
     wk_heartbeat := base_close (wk_heartbeat s),
     wk_handshake := (wk_handshake s)\<lparr>hk_base := base_close (hk_base (wk_handshake s))\<rparr>,
     wk_drain := base_close (wk_drain s)\<rparr>"

definition handlers_closed :: "'w worker \<Rightarrow> bool" where
  "handlers_closed s = (closed_returns (wk_conn_init s) \<and> closed_returns (wk_heartbeat s)
     \<and> closed_returns (hk_base (wk_handshake s)) \<and> closed_returns (xh_base (xs_handler (wk_exec s)))
     \<and> closed_returns (wk_drain s))"

text \<open>What the \<open>after_close_drained\<close> hooks cancel.\<close>

definition cancel_start_task :: "'w worker \<Rightarrow> 'w worker" where
  "cancel_start_task s = s\<lparr>wk_start_task := StartEnded\<rparr>"

definition cancel_send_data_task :: "handshake \<Rightarrow> handshake" where
  "cancel_send_data_task h = h\<lparr>hk_send_data_task := map_option (\<lambda>t. t\<lparr>sd_pc := SyncEnded\<rparr>) (hk_send_data_task h)\<rparr>"

definition cancel_exec_tasks :: "exec_handler \<Rightarrow> exec_handler" where
  "cancel_exec_tasks x = x\<lparr>xh_extending := [], xh_sending_lease := None, xh_flushing := []\<rparr>"

section \<open>Messages\<close>

text \<open>One message goes to every handler in turn; those of the start request have no \<open>handle_msg\<close> of their own.\<close>

definition dispatch :: "codec \<Rightarrow> string set \<Rightarrow> handshake_config \<Rightarrow> message_kind \<Rightarrow> bytes \<Rightarrow> auth_data \<Rightarrow> string
    \<Rightarrow> 'w worker \<Rightarrow> 'w worker" where
  "dispatch codec apps cfg kind payload auth conn_id s =
     (let st1 = heartbeat_handle_msg kind (wk_state s);
          (h, st2) = handshake_handle_msg codec cfg kind payload auth conn_id (wk_handshake s, st1);
          (x, st3) = exec_handle_msg codec apps kind payload (xs_handler (wk_exec s), st2) in
      s\<lparr>wk_handshake := h, wk_exec := (wk_exec s)\<lparr>xs_handler := x, xs_state := drain_handle_msg kind st3\<rparr>\<rparr>)"

text \<open>The end of the message loop on an error or a closed connection.\<close>

definition disconnect :: "'w worker \<Rightarrow> 'w worker" where
  "disconnect s = (if st_ws (wk_state s) \<noteq> None then map_state close_ws s else s)\<lparr>wk_messages := False\<rparr>"

text \<open>
  One frame of the message loop.  The name of an unknown kind of message cannot be looked up; that error is one of the
  connection.
\<close>

definition handle_frame :: "codec \<Rightarrow> string set \<Rightarrow> handshake_config \<Rightarrow> bytes \<Rightarrow> 'w worker \<Rightarrow> 'w worker" where
  "handle_frame codec apps cfg raw s =
     (case st_conn_init (wk_state s) of
        None \<Rightarrow> s\<lparr>wk_messages := False\<rparr>
      | Some (auth, endpoint) \<Rightarrow>
          (case dec_message codec raw of
             Inl e \<Rightarrow> s
           | Inr (UnknownKind k, payload) \<Rightarrow> disconnect s
           | Inr (kind, payload) \<Rightarrow>
               (case st_conn_id (wk_state s) of
                  None \<Rightarrow> (map_state close_ws s)\<lparr>wk_messages := False\<rparr>
                | Some conn_id \<Rightarrow> dispatch codec apps cfg kind payload auth conn_id s)))"

section \<open>The reconnect loop\<close>

text \<open>\<open>_wait_for_gateway_endpoint\<close>: a fatal error first, then closing, then the endpoint; \<open>None\<close> when it waits.\<close>

definition gateway_endpoint :: "cstate \<Rightarrow> (exc + string \<times> bool) option" where
  "gateway_endpoint st =
     (case st_fatal_error st of
        Some e \<Rightarrow> Some (Inl e)
      | None \<Rightarrow> if st_conn_state st = CS_CLOSED then Some (Inr ([], True))
                else (case st_conn_init st of Some (auth, endpoint) \<Rightarrow> Some (Inr (endpoint, False)) | None \<Rightarrow> None))"

text \<open>The \<open>finally\<close> block of \<open>run\<close> up to its wait, and after it.\<close>

definition run_finally :: "exc option \<Rightarrow> 'w worker \<Rightarrow> 'w worker" where
  "run_finally e s = (if wk_closing s then s else close_handlers s)\<lparr>wk_run := RunClosing e\<rparr>"

definition run_stop :: "exc option \<Rightarrow> 'w worker \<Rightarrow> 'w worker" where
  "run_stop e s = (map_state (\<lambda>st. close_ws (st\<lparr>st_conn_state := CS_CLOSED\<rparr>)) s)\<lparr>wk_run := RunStopped e\<rparr>"

inductive run_step :: "bool \<Rightarrow> 'w worker \<Rightarrow> 'w worker \<Rightarrow> bool" for timeouts where
  start: "wk_run s = RunNotStarted \<Longrightarrow> run_step timeouts s ((start_handlers s)\<lparr>wk_run := RunHead\<rparr>)"
| loop: "wk_run s = RunHead \<Longrightarrow> run_step timeouts s
      (if allow_reconnect (wk_state s) then s\<lparr>wk_run := RunAwaitEndpoint\<rparr> else run_finally None s)"
| fatal: "wk_run s = RunAwaitEndpoint \<Longrightarrow> gateway_endpoint (wk_state s) = Some (Inl e) \<Longrightarrow> run_step timeouts s (run_finally (Some e) s)"
| closing: "wk_run s = RunAwaitEndpoint \<Longrightarrow> gateway_endpoint (wk_state s) = Some (Inr (endpoint, True)) \<Longrightarrow>
      run_step timeouts s (run_finally None s)"
| endpoint: "wk_run s = RunAwaitEndpoint \<Longrightarrow> gateway_endpoint (wk_state s) = Some (Inr (endpoint, False)) \<Longrightarrow>
      run_step timeouts s (s\<lparr>wk_run := RunConnecting endpoint\<rparr>)"
| connected: "wk_run s = RunConnecting endpoint \<Longrightarrow>
      run_step timeouts s ((map_state (\<lambda>st. st\<lparr>st_ws := Some ws\<rparr>) s)\<lparr>wk_run := RunConnected, wk_messages := True, wk_conn_changed := False\<rparr>)"
| conn_init_changed: "wk_run s = RunConnected \<Longrightarrow> wk_conn_changed s \<Longrightarrow> run_step timeouts s (s\<lparr>wk_run := RunSettling\<rparr>)"
| settled: "wk_run s = RunSettling \<Longrightarrow> run_step timeouts s (s\<lparr>wk_run := RunAwaitMessages\<rparr>)"
| failed: "wk_run s \<in> {RunConnecting endpoint, RunSettling} \<Longrightarrow>
      run_step timeouts s ((map_state close_ws s)\<lparr>wk_run := RunRetryDelay\<rparr>)"
| retry: "wk_run s = RunRetryDelay \<Longrightarrow> run_step timeouts s (s\<lparr>wk_run := RunAwaitMessages\<rparr>)"
| messages_ended: "wk_run s = RunAwaitMessages \<Longrightarrow> \<not> wk_messages s \<Longrightarrow> run_step timeouts s (s\<lparr>wk_run := RunHead\<rparr>)"
| stopped: "wk_run s = RunClosing e \<Longrightarrow> handlers_closed s \<or> timeouts \<Longrightarrow> run_step timeouts s (run_stop e s)"

section \<open>Closing\<close>

text \<open>\<open>WorkerConnectionImpl._close\<close>; \<open>loop\<close> is that the worker's event loop exists and is not closed.\<close>

definition user_close :: "bool \<Rightarrow> 'w worker \<Rightarrow> 'w worker" where
  "user_close loop s =
     (if st_conn_state (wk_state s) \<in> {CS_CLOSING, CS_CLOSED} then s
      else (let s1 = map_state (\<lambda>st. st\<lparr>st_conn_state := CS_CLOSING\<rparr>) s in
            if loop then s1\<lparr>wk_close_tasks := wk_close_tasks s1 @ [CloseScheduled]\<rparr> else s1))"

text \<open>\<open>IsolatedWorker._close\<close>: its pause message, the handlers' closing, and what it signals at the end.\<close>

definition close_begin :: "nat \<Rightarrow> 'w worker \<Rightarrow> 'w worker" where
  "close_begin i s = (close_handlers s)\<lparr>wk_closing := True, wk_close_tasks := (wk_close_tasks s)[i := CloseWaiting]\<rparr>"

definition close_end :: "nat \<Rightarrow> 'w worker \<Rightarrow> 'w worker" where
  "close_end i s = (map_state (\<lambda>st. st\<lparr>st_conn_state := CS_CLOSED, st_conn_init := None\<rparr>) s)
     \<lparr>wk_close_tasks := (wk_close_tasks s)[i := CloseDone]\<rparr>"

inductive close_step :: "bool \<Rightarrow> 'w worker \<Rightarrow> 'w worker \<Rightarrow> bool" for timeouts where
  pause: "i < length (wk_close_tasks s) \<Longrightarrow> wk_close_tasks s ! i = CloseScheduled \<Longrightarrow> wk_run s \<noteq> RunNotStarted \<Longrightarrow>
      close_step timeouts s (if st_ws (wk_state s) = None then close_begin i s
        else s\<lparr>wk_close_tasks := (wk_close_tasks s)[i := ClosePausing]\<rparr>)"
| paused: "i < length (wk_close_tasks s) \<Longrightarrow> wk_close_tasks s ! i = ClosePausing \<Longrightarrow> close_step timeouts s (close_begin i s)"
| close_ended: "i < length (wk_close_tasks s) \<Longrightarrow> wk_close_tasks s ! i = CloseWaiting \<Longrightarrow> handlers_closed s \<or> timeouts \<Longrightarrow>
      close_step timeouts s (close_end i s)"

section \<open>The handlers' coroutines\<close>

text \<open>The task of the start request: its loop head, its wait, and its attempts.\<close>

definition start_task_step :: "codec \<Rightarrow> conn_init_config \<Rightarrow> exc + (exc + http_response) \<Rightarrow> 'w worker \<Rightarrow> 'w worker option" where
  "start_task_step codec cfg ans s = (let closed = closed_event_is_set (wk_conn_init s) in
     case wk_start_task s of
       StartHead err \<Rightarrow>
         (case start_loop_head closed err (wk_state s) of
            (go_on, st) \<Rightarrow> Some ((map_state (\<lambda>_. st) s)\<lparr>wk_start_task := (if go_on then StartAwaitNone else StartEnded)\<rparr>))
     | StartAwaitNone \<Rightarrow>
         if st_conn_init (wk_state s) \<noteq> None then None
         else if st_conn_state (wk_state s) = CS_CLOSED then Some (s\<lparr>wk_start_task := StartEnded\<rparr>)
         else Some ((map_state (\<lambda>st. st\<lparr>st_conn_state := CS_CONNECTING\<rparr>) s)\<lparr>wk_start_task := StartAttempt 0 None\<rparr>)
     | StartAttempt i err \<Rightarrow>
         Some (s\<lparr>wk_start_task := (if i < MAX_CONN_INIT_ATTEMPTS \<and> \<not> closed then StartFetching i else StartHead err)\<rparr>)
     | StartFetching i \<Rightarrow>
         (case handle_start_answer codec cfg ans (wk_state s) of
            (r, st) \<Rightarrow> Some ((map_state (\<lambda>_. st) s)\<lparr>wk_start_task := (case r of
               Accepted \<Rightarrow> StartHead None | NonRetryable e \<Rightarrow> StartHead (Some e) | Retryable e \<Rightarrow> StartAttempt (Suc i) (Some e))\<rparr>))
     | _ \<Rightarrow> None)"

definition hs_of :: "'w worker \<Rightarrow> hs_system" where
  "hs_of s = \<lparr>hs_handler = wk_handshake s, hs_state = wk_state s, hs_sent = [], hs_reset_due = wk_reset_due s, hs_hello = False\<rparr>"

definition put_hs :: "hs_system \<Rightarrow> 'w worker \<Rightarrow> 'w worker" where
  "put_hs h s = s\<lparr>wk_handshake := hs_handler h, wk_reset_due := hs_reset_due h,
     wk_exec := (wk_exec s)\<lparr>xs_state := hs_state h, xs_sent := xs_sent (wk_exec s) @ hs_sent h\<rparr>\<rparr>"

definition drained :: "'w worker \<Rightarrow> bool" where
  "drained s = (st_pending_request_count (wk_state s) = 0)"

text \<open>
  The close sequence of each handler: when it leaves its cleanup, what the cleanup cancels has stopped.
\<close>

inductive handler_step :: "codec \<Rightarrow> (string \<Rightarrow> comm_request \<Rightarrow> 'w \<Rightarrow> (exc + comm_response) \<times> 'w) \<Rightarrow> conn_init_config
    \<Rightarrow> handshake_config \<Rightarrow> 'w worker \<Rightarrow> 'w worker \<Rightarrow> bool" for codec post ci cfg where
  exec: "exec_own_step codec post (wk_exec s) x \<Longrightarrow> handler_step codec post ci cfg s (s\<lparr>wk_exec := x\<rparr>)"
| start_request: "start_task_step codec ci ans s = Some s' \<Longrightarrow> handler_step codec post ci cfg s s'"
| send_sync: "send_response_step codec cfg r (hs_of s) = Some h \<Longrightarrow> handler_step codec post ci cfg s (put_hs h s)"
| reset: "wk_reset_due s \<Longrightarrow>
      handler_step codec post ci cfg s (s\<lparr>wk_handshake := reset_handshake (wk_handshake s), wk_reset_due := False\<rparr>)"
| heartbeat: "heartbeat_sender_step (closed_event_is_set (wk_heartbeat s)) r (wk_heartbeat_task s) (wk_state s) = Some (pc, st, sends) \<Longrightarrow>
      handler_step codec post ci cfg s (s\<lparr>wk_heartbeat_task := pc, wk_exec := (wk_exec s)\<lparr>xs_state := st,
         xs_sent := (if sends then xs_sent (wk_exec s) @ [heartbeat_message codec] else xs_sent (wk_exec s))\<rparr>\<rparr>)"
| close_conn_init: "close_sequence_step (drained s) (wk_conn_init s) = Some b \<Longrightarrow> handler_step codec post ci cfg s
      ((if bh_close_task b = Some CloseFinished then cancel_start_task s else s)\<lparr>wk_conn_init := b\<rparr>)"
| close_heartbeat: "close_sequence_step (drained s) (wk_heartbeat s) = Some b \<Longrightarrow> handler_step codec post ci cfg s
      ((if bh_close_task b = Some CloseFinished then s\<lparr>wk_heartbeat_task := cancel_heartbeat (wk_heartbeat_task s)\<rparr> else s)\<lparr>wk_heartbeat := b\<rparr>)"
| close_handshake: "close_sequence_step (drained s) (hk_base (wk_handshake s)) = Some b \<Longrightarrow> handler_step codec post ci cfg s
      (s\<lparr>wk_handshake := (if bh_close_task b = Some CloseFinished then cancel_send_data_task (wk_handshake s) else wk_handshake s)\<lparr>hk_base := b\<rparr>\<rparr>)"
| close_exec: "close_sequence_step (drained s) (xh_base (xs_handler (wk_exec s))) = Some b \<Longrightarrow> handler_step codec post ci cfg s
      (map_exec (\<lambda>x. (if bh_close_task b = Some CloseFinished then cancel_exec_tasks x else x)\<lparr>xh_base := b\<rparr>) s)"
| close_drain: "close_sequence_step (drained s) (wk_drain s) = Some b \<Longrightarrow> handler_step codec post ci cfg s (s\<lparr>wk_drain := b\<rparr>)"

section \<open>The whole worker\<close>

text \<open>
  Clearing \<open>conn_init\<close> in a step wakes the handshake handler's watcher, and every change of it the wait of \<open>run\<close> inside
  an open connection; a wait that begins after the change does not see it.
\<close>

definition note_reset :: "'w worker \<Rightarrow> 'w worker \<Rightarrow> 'w worker" where
  "note_reset s s' = s'\<lparr>
     wk_reset_due := (wk_reset_due s' \<or> st_conn_init (wk_state s) \<noteq> None \<and> st_conn_init (wk_state s') = None),
     wk_conn_changed := (wk_conn_changed s' \<or> st_conn_init (wk_state s') \<noteq> st_conn_init (wk_state s))\<rparr>"

text \<open>The steps of the worker's thread, and with them those of other threads, which may close the connection.\<close>

inductive thread_step :: "codec \<Rightarrow> string set \<Rightarrow> (string \<Rightarrow> comm_request \<Rightarrow> 'w \<Rightarrow> (exc + comm_response) \<times> 'w) \<Rightarrow> conn_init_config
    \<Rightarrow> handshake_config \<Rightarrow> bool \<Rightarrow> 'w worker \<Rightarrow> 'w worker \<Rightarrow> bool" for codec apps post ci cfg timeouts where
  run: "run_step timeouts s s' \<Longrightarrow> thread_step codec apps post ci cfg timeouts s (note_reset s s')"
| close: "close_step timeouts s s' \<Longrightarrow> thread_step codec apps post ci cfg timeouts s (note_reset s s')"
| handler: "wk_run s \<noteq> RunNotStarted \<Longrightarrow> handler_step codec post ci cfg s s' \<Longrightarrow> thread_step codec apps post ci cfg timeouts s (note_reset s s')"
| frame: "wk_messages s \<Longrightarrow> thread_step codec apps post ci cfg timeouts s (note_reset s (handle_frame codec apps cfg raw s))"
| lost: "wk_messages s \<Longrightarrow> thread_step codec apps post ci cfg timeouts s (note_reset s (disconnect s))"

inductive worker_step :: "codec \<Rightarrow> string set \<Rightarrow> (string \<Rightarrow> comm_request \<Rightarrow> 'w \<Rightarrow> (exc + comm_response) \<times> 'w) \<Rightarrow> conn_init_config
    \<Rightarrow> handshake_config \<Rightarrow> bool \<Rightarrow> 'w worker \<Rightarrow> 'w worker \<Rightarrow> bool" for codec apps post ci cfg timeouts where
  user: "worker_step codec apps post ci cfg timeouts s (user_close loop s)"
| thread: "thread_step codec apps post ci cfg timeouts s s' \<Longrightarrow> worker_step codec apps post ci cfg timeouts s s'"

text \<open>\<open>WorkerConnectionImpl.start\<close> gives the execution handler its main loop.\<close>

inductive worker_reachable :: "codec \<Rightarrow> string set \<Rightarrow> (string \<Rightarrow> comm_request \<Rightarrow> 'w \<Rightarrow> (exc + comm_response) \<times> 'w) \<Rightarrow> conn_init_config
    \<Rightarrow> handshake_config \<Rightarrow> bool \<Rightarrow> 'w worker \<Rightarrow> bool" for codec apps post ci cfg timeouts where
  init: "worker_reachable codec apps post ci cfg timeouts (map_exec (\<lambda>x. x\<lparr>xh_main_loop_set := True\<rparr>) (worker_init w))"
| step: "worker_reachable codec apps post ci cfg timeouts s \<Longrightarrow> worker_step codec apps post ci cfg timeouts s s' \<Longrightarrow>
      worker_reachable codec apps post ci cfg timeouts s'"

end
