(* ===== verification/ExecProps.thy ===== *)
theory ExecProps
  imports ExecHandler
begin

text \<open>
  What the execution handler guarantees among the other handlers: what one step changes, that the shared count is
  the number of unfinished tasks as long as no pending request is repeated, that functions run only after their
  acknowledgement, and what a repeated request does.
\<close>

section \<open>What a step changes\<close>

definition unfinished :: "exec_task \<Rightarrow> bool" where
  "unfinished task = (case et_pc task of Finished c \<Rightarrow> False | _ \<Rightarrow> True)"

definition before_end :: "exec_pc \<Rightarrow> bool" where
  "before_end pc = (case pc of RunningFn \<Rightarrow> False | Finished c \<Rightarrow> False | _ \<Rightarrow> True)"

abbreviation task_of :: "'w exec_system \<Rightarrow> nat \<Rightarrow> exec_task" where
  "task_of s t \<equiv> xh_tasks (xs_handler s) ! t"

lemma exec_failed_shape: "\<exists>pc'. exec_failed codec t s = s\<lparr>xs_handler := set_pc t pc' (xs_handler s)\<rparr> \<and> before_end pc'"
  by (auto simp: exec_failed_def before_end_def split: sum.split)

lemma exec_respond_shape:
  "\<exists>pc' b. exec_respond codec now t res s = s\<lparr>xs_handler := set_pc t pc' ((xs_handler s)\<lparr>xh_buffer := b\<rparr>)\<rparr> \<and> before_end pc'"
proof (cases "body_bytes res")
  case (Inl e)
  have same: "(xs_handler s)\<lparr>xh_buffer := xh_buffer (xs_handler s)\<rparr> = xs_handler s" by simp
  obtain pc' where pc': "exec_failed codec t s = s\<lparr>xs_handler := set_pc t pc' (xs_handler s)\<rparr>" "before_end pc'"
    using exec_failed_shape by blast
  show ?thesis
    by (rule exI [of _ pc'], rule exI [of _ "xh_buffer (xs_handler s)"]) (simp only: same, simp add: exec_respond_def Inl pc')
next
  case (Inr body)
  then show ?thesis by (auto simp: exec_respond_def Let_def before_end_def split: sum.split)
qed

lemma set_pc_simps [simp]:
  "xh_requests (set_pc t pc x) = xh_requests x" "xh_tasks (set_pc t pc x) = (xh_tasks x)[t := (xh_tasks x ! t)\<lparr>et_pc := pc\<rparr>]"
  "xh_base (set_pc t pc x) = xh_base x"
  by (simp_all add: set_pc_def)

text \<open>
  A step of task \<open>t\<close> moves its place and nothing else of the tasks.  It starts the function only after the
  acknowledgement was sent, changes the user's state only by running the function, and touches the pending
  requests only in the done callback.
\<close>

definition step_shape :: "codec \<Rightarrow> nat \<Rightarrow> 'w exec_system \<Rightarrow> 'w exec_system \<Rightarrow> exec_pc \<Rightarrow> bool" where
  "step_shape codec t s s' pc' = (
     xh_tasks (xs_handler s') = (xh_tasks (xs_handler s))[t := (task_of s t)\<lparr>et_pc := pc'\<rparr>]
     \<and> set (xs_sent s) \<subseteq> set (xs_sent s')
     \<and> (pc' = RunningFn \<longrightarrow> ack_message codec (et_request (task_of s t)) \<in> set (xs_sent s'))
     \<and> (xs_world s' \<noteq> xs_world s \<longrightarrow> et_pc (task_of s t) = RunningFn)
     \<and> ((\<exists>c. et_pc (task_of s t) = Ended c \<and> pc' = Finished c \<and>
           (xh_requests (xs_handler s'), st_pending_request_count (xs_state s')) =
             snd (pm_pop (xr_request_id (et_request (task_of s t))) (xh_requests (xs_handler s), st_pending_request_count (xs_state s))))
        \<or> unfinished (task_of s t) \<and> (before_end pc' \<or> pc' = RunningFn) \<and>
           xh_requests (xs_handler s') = xh_requests (xs_handler s) \<and>
           st_pending_request_count (xs_state s') = st_pending_request_count (xs_state s)))"

lemma step_shape_moveI:
  assumes "xs_handler s' = set_pc t pc' x" and "xh_tasks x = xh_tasks (xs_handler s)" and "xh_requests x = xh_requests (xs_handler s)"
    and "xs_world s' = xs_world s \<or> et_pc (task_of s t) = RunningFn" and "set (xs_sent s) \<subseteq> set (xs_sent s')"
    and "st_pending_request_count (xs_state s') = st_pending_request_count (xs_state s)" and "unfinished (task_of s t)"
    and "before_end pc' \<or> pc' = RunningFn \<and> ack_message codec (et_request (task_of s t)) \<in> set (xs_sent s')"
  shows "step_shape codec t s s' pc'"
proof -
  have "unfinished (task_of s t) \<and> (before_end pc' \<or> pc' = RunningFn) \<and>
      xh_requests (xs_handler s') = xh_requests (xs_handler s) \<and>
      st_pending_request_count (xs_state s') = st_pending_request_count (xs_state s)"
    using assms(6-8) by (auto simp: assms(1,3))
  moreover have "pc' = RunningFn \<Longrightarrow> ack_message codec (et_request (task_of s t)) \<in> set (xs_sent s')"
    using assms(8) by (auto simp: before_end_def)
  ultimately show ?thesis
    unfolding step_shape_def using assms(4,5) by (simp add: assms(1,2)) blast
qed

lemma step_shape_failed:
  assumes "s' = exec_failed codec t s1" and "xs_handler s1 = xs_handler s" and "xs_world s1 = xs_world s"
    and "set (xs_sent s) \<subseteq> set (xs_sent s1)" and "st_pending_request_count (xs_state s1) = st_pending_request_count (xs_state s)"
    and "unfinished (task_of s t)"
  shows "\<exists>pc'. step_shape codec t s s' pc'"
proof -
  obtain pc' where pc': "exec_failed codec t s1 = s1\<lparr>xs_handler := set_pc t pc' (xs_handler s1)\<rparr>" "before_end pc'"
    using exec_failed_shape by blast
  have "step_shape codec t s s' pc'" by (rule step_shape_moveI [of _ t pc' "xs_handler s"]) (use assms pc' in simp_all)
  then show ?thesis ..
qed

lemma step_shape_respond:
  assumes "s' = exec_respond codec now t res s1" and "xs_handler s1 = xs_handler s" and "xs_world s1 = xs_world s"
    and "set (xs_sent s) \<subseteq> set (xs_sent s1)" and "st_pending_request_count (xs_state s1) = st_pending_request_count (xs_state s)"
    and "unfinished (task_of s t)"
  shows "\<exists>pc'. step_shape codec t s s' pc'"
proof -
  obtain pc' b where pc': "exec_respond codec now t res s1 = s1\<lparr>xs_handler := set_pc t pc' ((xs_handler s1)\<lparr>xh_buffer := b\<rparr>)\<rparr>"
    "before_end pc'" using exec_respond_shape by blast
  have "step_shape codec t s s' pc'"
    by (rule step_shape_moveI [of _ t pc' "(xs_handler s)\<lparr>xh_buffer := b\<rparr>"]) (use assms pc' in simp_all)
  then show ?thesis ..
qed

lemma exec_step_shape:
  assumes step: "exec_step codec post now r t s = Some s'"
  shows "\<exists>pc'. step_shape codec t s s' pc'"
proof (cases "et_pc (task_of s t)")
  case AwaitingWs
  with step have "xs_handler s' = set_pc t SendAck (xs_handler s) \<and> xs_world s' = xs_world s \<and> xs_sent s' = xs_sent s \<and> xs_state s' = xs_state s"
    by (auto simp: exec_step_def Let_def split: if_splits)
  then have "step_shape codec t s s' SendAck"
    by (intro step_shape_moveI [of _ t SendAck "xs_handler s"]) (simp_all add: unfinished_def AwaitingWs before_end_def)
  then show ?thesis ..
next
  case SendAck
  then have unf: "unfinished (task_of s t)" by (simp add: unfinished_def)
  show ?thesis
  proof (cases "send_target (xs_state s)")
    case (Inl e)
    then show ?thesis
      by (intro step_shape_respond [of _ codec now t "from_error e 500" s]) (use step SendAck unf in \<open>simp_all add: exec_step_def Let_def\<close>)
  next
    case (Inr ws)
    have "step_shape codec t s s' SendingAck"
      by (rule step_shape_moveI [of _ t SendingAck "xs_handler s"])
        (use step SendAck Inr unf in \<open>auto simp: exec_step_def Let_def before_end_def\<close>)
    then show ?thesis ..
  qed
next
  case SendingAck
  define s1 where "s1 = s\<lparr>xs_state := snd (safe_send_result r (xs_state s)),
     xs_sent := (if r = SendOk then xs_sent s @ [ack_message codec (et_request (task_of s t))] else xs_sent s)\<rparr>"
  have s1: "xs_handler s1 = xs_handler s" "xs_world s1 = xs_world s" "set (xs_sent s) \<subseteq> set (xs_sent s1)"
    "st_pending_request_count (xs_state s1) = st_pending_request_count (xs_state s)"
    by (auto simp: s1_def)
  have unf: "unfinished (task_of s t)" using SendingAck by (simp add: unfinished_def)
  show ?thesis
  proof (cases "fst (safe_send_result r (xs_state s))")
    case None
    then have r: "r = SendOk" by (cases r) (auto simp: safe_send_result_def)
    show ?thesis
    proof (cases "xh_main_loop_set (xs_handler s)")
      case True
      then have "xs_handler s' = set_pc t RunningFn (xs_handler s) \<and> xs_world s' = xs_world s \<and> xs_sent s' = xs_sent s1 \<and> xs_state s' = xs_state s1"
        using step SendingAck None by (auto simp: exec_step_def Let_def s1_def)
      then have "step_shape codec t s s' RunningFn"
        using s1 unf r by (intro step_shape_moveI [of _ t RunningFn "xs_handler s"]) (simp_all add: s1_def)
      then show ?thesis ..
    next
      case False
      then have "s' = exec_failed codec t s1" using step SendingAck None by (simp add: exec_step_def Let_def s1_def)
      from step_shape_failed [OF this s1 unf] show ?thesis .
    qed
  next
    case (Some e)
    then have "s' = exec_respond codec now t (from_error e 500) s1" using step SendingAck by (simp add: exec_step_def Let_def s1_def)
    from step_shape_respond [OF this s1 unf] show ?thesis .
  qed
next
  case RunningFn
  obtain res w where post: "post (xr_app_name (et_request (task_of s t))) (exec_comm_request (et_request (task_of s t))) (xs_world s) = (res, w)"
    by force
  have "step_shape codec t s s' (Responding res)"
    by (rule step_shape_moveI [of _ t "Responding res" "xs_handler s"])
      (use step RunningFn post in \<open>auto simp: exec_step_def Let_def before_end_def unfinished_def\<close>)
  then show ?thesis ..
next
  case (Responding res)
  then have unf: "unfinished (task_of s t)" by (simp add: unfinished_def)
  show ?thesis
  proof (cases res)
    case (Inl e)
    with step Responding have "s' = exec_failed codec t s" by (simp add: exec_step_def Let_def)
    from step_shape_failed [OF this _ _ _ _ unf] show ?thesis by simp
  next
    case (Inr res1)
    with step Responding have "s' = exec_respond codec now t res1 s" by (simp add: exec_step_def Let_def)
    from step_shape_respond [OF this _ _ _ _ unf] show ?thesis by simp
  qed
next
  case (Ended c)
  with step have "step_shape codec t s s' (Finished c)"
    by (auto simp: exec_step_def Let_def step_shape_def)
  then show ?thesis ..
next
  case (SendingReply m)
  have "step_shape codec t s s' (Ended False)"
    by (rule step_shape_moveI [of _ t "Ended False" "xs_handler s"])
      (use step SendingReply in \<open>auto simp: exec_step_def Let_def before_end_def unfinished_def\<close>)
  then show ?thesis ..
next
  case (SendingErrorReply m)
  have "step_shape codec t s s' (Ended False)"
    by (rule step_shape_moveI [of _ t "Ended False" "xs_handler s"])
      (use step SendingErrorReply in \<open>auto simp: exec_step_def Let_def before_end_def unfinished_def\<close>)
  then show ?thesis ..
qed (use step in \<open>simp add: exec_step_def Let_def\<close>)

section \<open>The count of pending requests\<close>

abbreviation rid_of :: "exec_task \<Rightarrow> string" where
  "rid_of task \<equiv> xr_request_id (et_request task)"

text \<open>
  The pending requests are exactly the tasks before their done callback, under their request ids, and the
  shared count is their number.
\<close>

definition pending_inv :: "exec_task list \<Rightarrow> (string, nat) dict \<Rightarrow> int \<Rightarrow> bool" where
  "pending_inv tasks requests n = (dict_inv requests \<and> n = int (length requests) \<and>
     (\<forall>rid t. dget requests rid = Some t \<longleftrightarrow> t < length tasks \<and> unfinished (tasks ! t) \<and> rid_of (tasks ! t) = rid))"

definition exec_inv :: "'w exec_system \<Rightarrow> bool" where
  "exec_inv s = pending_inv (xh_tasks (xs_handler s)) (xh_requests (xs_handler s)) (st_pending_request_count (xs_state s))"

lemma pending_inv_update:
  assumes "pending_inv tasks requests n" and "unfinished task = unfinished (tasks ! t)" and "rid_of task = rid_of (tasks ! t)"
  shows "pending_inv (tasks[t := task]) requests n"
proof (cases "t < length tasks")
  case True
  have "(tasks[t := task]) ! i = (if i = t then task else tasks ! i)" for i using True by simp
  with assms show ?thesis by (auto simp: pending_inv_def)
next
  case False
  with assms(1) show ?thesis by (simp add: list_update_beyond not_less)
qed

lemma pending_inv_pop:
  assumes inv: "pending_inv tasks requests n" and t: "t < length tasks" and ended: "et_pc (tasks ! t) = Ended c"
  shows "pending_inv (tasks[t := (tasks ! t)\<lparr>et_pc := Finished c\<rparr>]) (fst (snd (pm_pop (rid_of (tasks ! t)) (requests, n))))
    (snd (snd (pm_pop (rid_of (tasks ! t)) (requests, n))))"
proof -
  have "unfinished (tasks ! t)" using ended by (simp add: unfinished_def)
  then have found: "dget requests (rid_of (tasks ! t)) = Some t" using inv t by (auto simp: pending_inv_def)
  have nth: "(tasks[t := (tasks ! t)\<lparr>et_pc := Finished c\<rparr>]) ! i = (if i = t then (tasks ! t)\<lparr>et_pc := Finished c\<rparr> else tasks ! i)" for i
    using t by simp
  have done_: "\<not> unfinished ((tasks ! t)\<lparr>et_pc := Finished c\<rparr>)" by (simp add: unfinished_def)
  have pop: "pm_pop (rid_of (tasks ! t)) (requests, n) = (Some t, (ddel requests (rid_of (tasks ! t)), n - 1))"
    by (simp add: pm_pop_def found)
  have unique: "u = t" if "u < length tasks" "unfinished (tasks ! u)" "rid_of (tasks ! u) = rid_of (tasks ! t)" for u
    using inv found that unfolding pending_inv_def by (metis option.inject)
  show ?thesis
    unfolding pop pending_inv_def fst_conv snd_conv
  proof (intro conjI allI)
    fix rid u
    show "dget (ddel requests (rid_of (tasks ! t))) rid = Some u \<longleftrightarrow>
        u < length (tasks[t := (tasks ! t)\<lparr>et_pc := Finished c\<rparr>]) \<and>
        unfinished ((tasks[t := (tasks ! t)\<lparr>et_pc := Finished c\<rparr>]) ! u) \<and>
        rid_of ((tasks[t := (tasks ! t)\<lparr>et_pc := Finished c\<rparr>]) ! u) = rid"
      using inv unique [of u] done_ by (auto simp: nth pending_inv_def simp del: nth_list_update)
  qed (use inv length_ddel [OF _ found] in \<open>auto simp: pending_inv_def simp flip: of_nat_Suc\<close>)
qed

lemma pending_inv_add:
  assumes inv: "pending_inv tasks requests n" and new: "dget requests (xr_request_id req) = None"
  shows "pending_inv (tasks @ [\<lparr>et_request = req, et_pc = AwaitingWs\<rparr>]) (dset requests (xr_request_id req) (length tasks)) (n + 1)"
proof -
  have len: "length (dset requests (xr_request_id req) (length tasks)) = Suc (length requests)"
    using new by (simp add: dset_fresh dhas_iff_dget)
  have other: "rid_of (tasks ! t) \<noteq> xr_request_id req" if "t < length tasks" "unfinished (tasks ! t)" for t
    using inv new that unfolding pending_inv_def by (metis option.distinct(1))
  have nth: "(tasks @ [task]) ! t = (if t < length tasks then tasks ! t else task)" if "t < Suc (length tasks)" for t task
    using that by (simp add: nth_append)
  show ?thesis
    unfolding pending_inv_def
  proof (intro conjI allI)
    fix rid t
    show "dget (dset requests (xr_request_id req) (length tasks)) rid = Some t \<longleftrightarrow>
        t < length (tasks @ [\<lparr>et_request = req, et_pc = AwaitingWs\<rparr>]) \<and>
        unfinished ((tasks @ [\<lparr>et_request = req, et_pc = AwaitingWs\<rparr>]) ! t) \<and>
        rid_of ((tasks @ [\<lparr>et_request = req, et_pc = AwaitingWs\<rparr>]) ! t) = rid"
    proof (cases "t < length tasks")
      case True
      with inv other [of t] show ?thesis by (auto simp: nth pending_inv_def)
    next
      case False
      with inv show ?thesis by (auto simp: nth pending_inv_def unfinished_def less_Suc_eq)
    qed
  qed (use inv len in \<open>auto simp: pending_inv_def\<close>)
qed

lemma exec_inv_task:
  assumes "exec_inv s" and "t < length (xh_tasks (xs_handler s))" and "step_shape codec t s s' pc'"
  shows "exec_inv s'"
proof -
  let ?x = "xs_handler s"
  have tasks: "xh_tasks (xs_handler s') = (xh_tasks ?x)[t := (task_of s t)\<lparr>et_pc := pc'\<rparr>]"
    using assms(3) by (simp add: step_shape_def)
  consider c where "et_pc (task_of s t) = Ended c" "pc' = Finished c"
      "(xh_requests (xs_handler s'), st_pending_request_count (xs_state s')) =
       snd (pm_pop (rid_of (task_of s t)) (xh_requests ?x, st_pending_request_count (xs_state s)))"
    | "unfinished (task_of s t)" "before_end pc' \<or> pc' = RunningFn" "xh_requests (xs_handler s') = xh_requests ?x"
      "st_pending_request_count (xs_state s') = st_pending_request_count (xs_state s)"
    using assms(3) unfolding step_shape_def by blast
  then show ?thesis
  proof cases
    case (1 c)
    from pending_inv_pop [OF assms(1) [unfolded exec_inv_def] assms(2) 1(1)] show ?thesis
      unfolding exec_inv_def tasks 1(2) 1(3) [symmetric] by simp
  next
    case 2
    have "unfinished ((task_of s t)\<lparr>et_pc := pc'\<rparr>)"
      using 2(2) by (cases pc') (auto simp: unfinished_def before_end_def)
    with pending_inv_update [OF assms(1) [unfolded exec_inv_def]] 2 show ?thesis
      unfolding exec_inv_def tasks by simp
  qed
qed

lemma cancel_task_simps:
  "xh_requests (cancel_task t x) = xh_requests x"
  "\<exists>task. xh_tasks (cancel_task t x) = (xh_tasks x)[t := task] \<and> unfinished task = unfinished (xh_tasks x ! t)
     \<and> et_request task = et_request (xh_tasks x ! t) \<and> (et_pc task = et_pc (xh_tasks x ! t) \<or> et_pc task = Ended True)"
proof -
  have same: "(xh_tasks x)[t := xh_tasks x ! t] = xh_tasks x" by (cases "t < length (xh_tasks x)") simp_all
  show "\<exists>task. xh_tasks (cancel_task t x) = (xh_tasks x)[t := task] \<and> unfinished task = unfinished (xh_tasks x ! t)
     \<and> et_request task = et_request (xh_tasks x ! t) \<and> (et_pc task = et_pc (xh_tasks x ! t) \<or> et_pc task = Ended True)"
  proof (cases "(\<exists>c. et_pc (xh_tasks x ! t) = Ended c) \<or> (\<exists>c. et_pc (xh_tasks x ! t) = Finished c)")
    case True
    then have "cancel_task t x = x" by (auto simp: cancel_task_def)
    with same show ?thesis by (intro exI [of _ "xh_tasks x ! t"]) simp
  next
    case False
    then have "cancel_task t x = set_pc t (Ended True) x" by (cases "et_pc (xh_tasks x ! t)") (auto simp: cancel_task_def)
    with False show ?thesis
      by (intro exI [of _ "(xh_tasks x ! t)\<lparr>et_pc := Ended True\<rparr>"]) (auto simp: unfinished_def split: exec_pc.splits)
  qed
  show "xh_requests (cancel_task t x) = xh_requests x" by (simp add: cancel_task_def split: exec_pc.split)
qed

text \<open>The two things that a message can do: add a task, or touch one without ending it.\<close>

definition touched :: "codec \<Rightarrow> exec_task \<Rightarrow> exec_task \<Rightarrow> bool" where
  "touched codec task task' = (unfinished task' = unfinished task \<and> rid_of task' = rid_of task
     \<and> ack_message codec (et_request task') = ack_message codec (et_request task)
     \<and> xr_app_name (et_request task') = xr_app_name (et_request task)
     \<and> exec_comm_request (et_request task') = exec_comm_request (et_request task)
     \<and> (et_pc task' = et_pc task \<or> et_pc task' = Ended True))"

lemma touched_refl: "touched codec task task"
  by (simp add: touched_def)

lemma ack_message_lease [simp]:
  "ack_message codec (req\<lparr>xr_lease_id := l\<rparr>) = ack_message codec req"
  "exec_comm_request (req\<lparr>xr_lease_id := l\<rparr>) = exec_comm_request req"
  by (simp_all add: ack_message_def exec_comm_request_def)

lemma cancel_touches: "\<exists>task. xh_tasks (cancel_task t x) = (xh_tasks x)[t := task] \<and> touched codec (xh_tasks x ! t) task"
proof -
  from cancel_task_simps(2) obtain task where "xh_tasks (cancel_task t x) = (xh_tasks x)[t := task]"
    "unfinished task = unfinished (xh_tasks x ! t)" "et_request task = et_request (xh_tasks x ! t)"
    "et_pc task = et_pc (xh_tasks x ! t) \<or> et_pc task = Ended True" by blast
  then show ?thesis by (auto simp: touched_def)
qed

lemma lease_ack_shape:
  "xh_requests (handle_lease_extend_ack codec payload x) = xh_requests x \<and>
   (\<exists>t task. xh_tasks (handle_lease_extend_ack codec payload x) = (xh_tasks x)[t := task] \<and> touched codec (xh_tasks x ! t) task)"
proof -
  have id: "\<exists>t task. xh_tasks x = (xh_tasks x)[t := task] \<and> touched codec (xh_tasks x ! t) task"
    by (rule exI [of _ 0], rule exI [of _ "xh_tasks x ! 0"]) (simp add: touched_refl)
  show ?thesis
  proof (cases "dec_lease_ack codec payload")
    case (Inl e)
    with id show ?thesis by (simp add: handle_lease_extend_ack_def)
  next
    case (Inr p)
    obtain rid lease where p: "p = (rid, lease)" by force
    show ?thesis
    proof (cases "pm_get rid (xh_requests x, 0)")
      case None
      with id Inr p show ?thesis by (simp add: handle_lease_extend_ack_def)
    next
      case (Some t)
      have "touched codec (xh_tasks x ! t) ((xh_tasks x ! t)\<lparr>et_request := (et_request (xh_tasks x ! t))\<lparr>xr_lease_id := lease\<rparr>\<rparr>)"
        by (simp add: touched_def unfinished_def ack_message_lease)
      with cancel_touches [of t x codec] cancel_task_simps(1) [of t x] Inr p Some show ?thesis
        by (cases "lease = []") (auto simp: handle_lease_extend_ack_def)
    qed
  qed
qed

lemma exec_handle_msg_cases:
  assumes "exec_handle_msg codec apps kind payload (x, st) = (x', st')"
  obtains (add) req where "kind = GATEWAY_EXECUTOR_REQUEST" "dec_executor_request codec payload = Inr req" "\<not> xh_closing x"
      "xh_tasks x' = xh_tasks x @ [\<lparr>et_request = req, et_pc = AwaitingWs\<rparr>]"
      "xh_requests x' = dset (xh_requests x) (xr_request_id req) (length (xh_tasks x))"
      "st_pending_request_count st' = st_pending_request_count st + 1"
    | (touch) t task where "xh_tasks x' = (xh_tasks x)[t := task]" "touched codec (xh_tasks x ! t) task"
      "xh_requests x' = xh_requests x" "st_pending_request_count st' = st_pending_request_count st"
proof -
  have id: "xh_tasks x = (xh_tasks x)[0 := xh_tasks x ! 0]" by simp
  have same: thesis if "xh_tasks x' = xh_tasks x" "xh_requests x' = xh_requests x" "st' = st"
    using touch [of 0 "xh_tasks x ! 0"] that id touched_refl by simp
  consider "kind = GATEWAY_EXECUTOR_REQUEST" | "kind = WORKER_REQUEST_EXTEND_LEASE_ACK" | "kind = WORKER_REPLY_ACK"
    | "kind \<notin> {GATEWAY_EXECUTOR_REQUEST, WORKER_REQUEST_EXTEND_LEASE_ACK, WORKER_REPLY_ACK}" by blast
  then show thesis
  proof cases
    case 1
    with assms have h: "handle_executor_request codec apps payload (x, st) = (x', st')" by (simp add: exec_handle_msg_def)
    show ?thesis
    proof (cases "xh_closing x \<or> isl (dec_executor_request codec payload)")
      case True
      with h same show ?thesis by (auto simp: handle_executor_request_def isl_def split: if_splits)
    next
      case False
      then obtain req where req: "dec_executor_request codec payload = Inr req" by (auto simp: isl_def split: sum.split) (meson sum.exhaust)
      show ?thesis
      proof (cases "xr_app_name req \<in> apps")
        case True
        with h False req 1 show ?thesis
          by (intro add [of req]) (auto simp: handle_executor_request_def pm_add_def)
      next
        case False': False
        with h False req same show ?thesis by (auto simp: handle_executor_request_def)
      qed
    qed
  next
    case 2
    with assms have "x' = handle_lease_extend_ack codec payload x" "st' = st" by (simp_all add: exec_handle_msg_def)
    with lease_ack_shape [of codec payload x] touch show ?thesis by blast
  next
    case 3
    with assms have "x' = handle_worker_reply_ack codec payload x" "st' = st" by (simp_all add: exec_handle_msg_def)
    with same show ?thesis by (simp add: handle_worker_reply_ack_def split: sum.splits)
  next
    case 4
    with assms same show ?thesis by (simp add: exec_handle_msg_def)
  qed
qed

text \<open>What the other steps leave alone.\<close>

lemma quiet_simps [simp]:
  "xh_tasks (exec_close x) = xh_tasks x" "xh_requests (exec_close x) = xh_requests x"
  "xh_tasks (lease_begin x) = xh_tasks x" "xh_requests (lease_begin x) = xh_requests x"
  "xh_tasks (lease_next codec (x, st)) = xh_tasks x" "xh_requests (lease_next codec (x, st)) = xh_requests x"
  "xh_tasks (flush_begin now ttl x) = xh_tasks x" "xh_requests (flush_begin now ttl x) = xh_requests x"
  "xh_tasks (flush_done x) = xh_tasks x" "xh_requests (flush_done x) = xh_requests x"
  by (simp_all add: exec_close_def lease_begin_def lease_next_def flush_begin_def flush_done_def split: list.split sum.split prod.split)

text \<open>A step of the handler's coroutines is one of a task, or leaves tasks, requests and count alone.\<close>

lemma exec_own_cases:
  assumes "exec_own_step codec post s s'"
  obtains (task) t now r where "t < length (xh_tasks (xs_handler s))" "exec_step codec post now r t s = Some s'"
    | (quiet) "xh_tasks (xs_handler s') = xh_tasks (xs_handler s)" "xh_requests (xs_handler s') = xh_requests (xs_handler s)"
      "st_pending_request_count (xs_state s') = st_pending_request_count (xs_state s)" "xs_world s' = xs_world s"
      "xh_base (xs_handler s') = xh_base (xs_handler s)" "xh_closing (xs_handler s') = xh_closing (xs_handler s)"
      "set (xs_sent s) \<subseteq> set (xs_sent s')" "\<exists>r. xs_state s' = snd (safe_send_result r (xs_state s))"
  using assms
proof cases
  case (lease_sent m r)
  then show ?thesis by (intro quiet) auto
next
  case (task t now r)
  then show ?thesis by (intro that(1))
qed (intro quiet; auto simp: lease_begin_def lease_next_def flush_begin_def flush_done_def safe_send_result_def
    split: list.split sum.split intro!: exI [of _ SendOk])+

lemma exec_inv_step:
  assumes "exec_sys_step codec apps post False s s'" and inv: "exec_inv s"
  shows "exec_inv s'"
  using assms(1)
proof cases
  case own
  then show ?thesis
  proof (cases rule: exec_own_cases)
    case (task t now r)
    from exec_step_shape [OF task(2)] exec_inv_task [OF inv task(1)] show ?thesis by blast
  qed (use inv in \<open>simp add: exec_inv_def\<close>)
next
  case (msg kind payload x' st')
  from msg(3) show ?thesis
  proof (cases rule: exec_handle_msg_cases)
    case (add req)
    with msg(2) have "dget (xh_requests (xs_handler s)) (xr_request_id req) = None" by blast
    from pending_inv_add [OF inv [unfolded exec_inv_def] this] add show ?thesis by (simp add: exec_inv_def msg(1))
  next
    case (touch t task)
    with pending_inv_update [OF inv [unfolded exec_inv_def], of task t] show ?thesis
      by (simp add: exec_inv_def msg(1) touched_def)
  qed
qed (use inv in \<open>simp_all add: exec_inv_def\<close>)

lemma exec_inv_reachable: "exec_reachable codec apps post False s \<Longrightarrow> exec_inv s"
proof (induction rule: exec_reachable.induct)
  case (init w main_loop_set)
  then show ?case by (simp add: exec_inv_def pending_inv_def exec_initial_def exec_start_def exec_init_def State_init_def)
next
  case (step s s')
  then show ?case using exec_inv_step by blast
qed

lemma pending_count:
  assumes "pending_inv tasks requests n"
  shows "n = int (card {t. t < length tasks \<and> unfinished (tasks ! t)})"
proof -
  let ?A = "{t. t < length tasks \<and> unfinished (tasks ! t)}"
  have R: "dget requests rid = Some t \<longleftrightarrow> t < length tasks \<and> unfinished (tasks ! t) \<and> rid_of (tasks ! t) = rid" for rid t
    using assms unfolding pending_inv_def by blast
  have inj: "inj_on (\<lambda>t. rid_of (tasks ! t)) ?A"
  proof (rule inj_onI)
    fix t u assume "t \<in> ?A" "u \<in> ?A" "rid_of (tasks ! t) = rid_of (tasks ! u)"
    then have "dget requests (rid_of (tasks ! t)) = Some t" "dget requests (rid_of (tasks ! t)) = Some u" using R by auto
    then show "t = u" by simp
  qed
  have "(\<lambda>t. rid_of (tasks ! t)) ` ?A = set (dkeys requests)"
  proof (intro set_eqI iffI)
    fix rid assume "rid \<in> (\<lambda>t. rid_of (tasks ! t)) ` ?A"
    then have "dget requests rid \<noteq> None" using R by auto
    then show "rid \<in> set (dkeys requests)" by (simp add: dget_None_iff)
  next
    fix rid assume "rid \<in> set (dkeys requests)"
    then obtain t where "dget requests rid = Some t" using dget_None_iff [of requests rid] by auto
    then show "rid \<in> (\<lambda>t. rid_of (tasks ! t)) ` ?A" using R by auto
  qed
  then have "card ?A = card (set (dkeys requests))" using card_image [OF inj] by simp
  also have "\<dots> = length requests"
    using assms distinct_card [of "dkeys requests"] by (simp add: pending_inv_def dict_inv_def) (simp add: dkeys_def)
  finally show ?thesis using assms by (simp add: pending_inv_def)
qed

text \<open>C18: When the gateway never repeats a request that is still pending, the shared count is at every moment the number
  of tasks before their done callback; so a handler that was told to close can go on with its close sequence
  exactly when every task has ended and its callback has run.\<close>

theorem pending_requests_drain:
  assumes "exec_reachable codec apps post False s"
  shows "st_pending_request_count (xs_state s) = int (card {t. t < length (xh_tasks (xs_handler s)) \<and> unfinished (task_of s t)})
    \<and> (bh_close_task (xh_base (xs_handler s)) = Some AwaitDrained \<longrightarrow>
        (close_sequence_step (st_pending_request_count (xs_state s) = 0) (xh_base (xs_handler s)) \<noteq> None
          \<longleftrightarrow> (\<forall>t < length (xh_tasks (xs_handler s)). \<not> unfinished (task_of s t))))"
proof -
  have n: "st_pending_request_count (xs_state s) = int (card {t. t < length (xh_tasks (xs_handler s)) \<and> unfinished (task_of s t)})"
    using exec_inv_reachable [OF assms] pending_count unfolding exec_inv_def by blast
  then have "st_pending_request_count (xs_state s) = 0 \<longleftrightarrow> (\<forall>t < length (xh_tasks (xs_handler s)). \<not> unfinished (task_of s t))"
    by (auto simp: card_eq_0_iff)
  with n show ?thesis by (auto simp: close_sequence_step_def)
qed

section \<open>Acknowledge, then run\<close>

definition ack_inv :: "codec \<Rightarrow> 'w exec_system \<Rightarrow> bool" where
  "ack_inv codec s = (\<forall>t < length (xh_tasks (xs_handler s)).
     et_pc (task_of s t) = RunningFn \<longrightarrow> ack_message codec (et_request (task_of s t)) \<in> set (xs_sent s))"

lemma ack_inv_update:
  assumes "ack_inv codec s" and "xh_tasks (xs_handler s') = (xh_tasks (xs_handler s))[t := task]"
    and "set (xs_sent s) \<subseteq> set (xs_sent s')"
    and "et_pc task = RunningFn \<longrightarrow> ack_message codec (et_request task) \<in> set (xs_sent s')"
  shows "ack_inv codec s'"
  unfolding ack_inv_def
proof (intro allI impI)
  fix u assume u: "u < length (xh_tasks (xs_handler s'))" "et_pc (task_of s' u) = RunningFn"
  show "ack_message codec (et_request (task_of s' u)) \<in> set (xs_sent s')"
  proof (cases "u = t")
    case True
    with u assms(2,4) show ?thesis by auto
  next
    case False
    with u assms(1-3) show ?thesis by (auto simp: ack_inv_def)
  qed
qed

lemma ack_inv_step:
  assumes "exec_sys_step codec apps post dup s s'" and inv: "ack_inv codec s"
  shows "ack_inv codec s'"
  using assms(1)
proof cases
  case own
  then show ?thesis
  proof (cases rule: exec_own_cases)
    case (task t now r)
    from exec_step_shape [OF task(2)] obtain pc' where shape: "step_shape codec t s s' pc'" by blast
    show ?thesis
      by (rule ack_inv_update [OF inv, of s' t "(task_of s t)\<lparr>et_pc := pc'\<rparr>"]) (use shape in \<open>simp_all add: step_shape_def\<close>)
  qed (use inv in \<open>auto simp: ack_inv_def\<close>)
next
  case (msg kind payload x' st')
  from msg(3) show ?thesis
  proof (cases rule: exec_handle_msg_cases)
    case (add req)
    with inv show ?thesis by (auto simp: ack_inv_def msg(1) nth_append)
  next
    case (touch t task)
    show ?thesis
    proof (cases "t < length (xh_tasks (xs_handler s))")
      case True
      with touch inv show ?thesis
        by (intro ack_inv_update [OF inv, of s' t task]) (auto simp: msg(1) touched_def ack_inv_def)
    next
      case False
      with touch inv show ?thesis by (simp add: ack_inv_def msg(1) list_update_beyond not_less)
    qed
  qed
qed (use inv in \<open>auto simp: ack_inv_def\<close>)

lemma ack_inv_reachable: "exec_reachable codec apps post dup s \<Longrightarrow> ack_inv codec s"
proof (induction rule: exec_reachable.induct)
  case (init w main_loop_set)
  then show ?case by (simp add: ack_inv_def exec_initial_def exec_start_def exec_init_def)
next
  case (step s s')
  then show ?case using ack_inv_step by blast
qed

text \<open>C15: A worker runs a function only for a request that it has acknowledged: every step that changes the user's state
  is the call of \<open>CommHandler.post\<close> of a task whose \<open>WORKER_REQUEST_ACK\<close> was sent, whatever messages, send errors,
  repeated requests and cancellations came before.\<close>

theorem effects_need_ack:
  assumes "exec_reachable codec apps post dup s" and "exec_sys_step codec apps post dup s s'" and "xs_world s' \<noteq> xs_world s"
  shows "\<exists>t < length (xh_tasks (xs_handler s)). et_pc (task_of s t) = RunningFn
    \<and> ack_message codec (et_request (task_of s t)) \<in> set (xs_sent s)
    \<and> xs_world s' = snd (post (xr_app_name (et_request (task_of s t))) (exec_comm_request (et_request (task_of s t))) (xs_world s))"
proof -
  from assms(2) obtain t where "t < length (xh_tasks (xs_handler s))" "et_pc (task_of s t) = RunningFn"
    "xs_world s' = snd (post (xr_app_name (et_request (task_of s t))) (exec_comm_request (et_request (task_of s t))) (xs_world s))"
  proof cases
    case own
    from own that show ?thesis
    proof (cases rule: exec_own_cases)
    case (task t now r)
    from exec_step_shape [OF task(2)] assms(3) have pc: "et_pc (task_of s t) = RunningFn" by (auto simp: step_shape_def)
    with task(2) have "xs_world s' = snd (post (xr_app_name (et_request (task_of s t))) (exec_comm_request (et_request (task_of s t))) (xs_world s))"
      by (auto simp: exec_step_def Let_def split: prod.splits)
    with that task(1) pc show ?thesis by blast
    qed (use assms(3) in simp)
  qed (use assms(3) in simp_all)
  with ack_inv_reachable [OF assms(1)] show ?thesis by (auto simp: ack_inv_def)
qed

section \<open>A repeated request\<close>

lemma body_bytes_from_error: "\<exists>b. body_bytes (from_error e status) = Inr b"
proof -
  have "serializable (cp_body (from_error e status))" by (simp add: from_error_def mk_CommResponse_def)
  then obtain w where "json_dumps (cp_body (from_error e status)) = Inr w" using json_dumps_serializable(1) by blast
  then show ?thesis by (simp add: body_bytes_def dump_json_def)
qed

lemma exec_respond_no_ws:
  assumes "st_ws (xs_state s) = None"
  shows "\<exists>b. exec_respond codec now t (from_error e 500) s = s\<lparr>xs_handler := set_pc t (Ended False) ((xs_handler s)\<lparr>xh_buffer := b\<rparr>)\<rparr>"
  using body_bytes_from_error [of e 500] assms by (auto simp: exec_respond_def Let_def send_target_def)

text \<open>A task whose acknowledgement finds no connection ends without running its function.\<close>

lemma run_without_ws:
  assumes reach: "exec_reachable codec apps post dup s" and t: "t < length (xh_tasks (xs_handler s))"
    and pc: "et_pc (task_of s t) = AwaitingWs" and ws: "st_ws (xs_state s) = None"
  obtains s' where "exec_reachable codec apps post dup s'" "st_ws (xs_state s') = None"
    "xh_tasks (xs_handler s') = (xh_tasks (xs_handler s))[t := (task_of s t)\<lparr>et_pc := Finished False\<rparr>]"
    "(xh_requests (xs_handler s'), st_pending_request_count (xs_state s')) =
       snd (pm_pop (rid_of (task_of s t)) (xh_requests (xs_handler s), st_pending_request_count (xs_state s)))"
    "xh_base (xs_handler s') = xh_base (xs_handler s)" "xh_closing (xs_handler s') = xh_closing (xs_handler s)"
proof -
  let ?R = "exec_reachable codec apps post dup"
  have by_task: "?R s1 \<Longrightarrow> t < length (xh_tasks (xs_handler s1)) \<Longrightarrow> exec_step codec post 0 SendOk t s1 = Some s2 \<Longrightarrow> ?R s2" for s1 s2
    by (rule exec_reachable.step [OF _ exec_sys_step.own [OF exec_own_step.task]])
  have by_others: "?R s1 \<Longrightarrow> st_pending_request_count st' = st_pending_request_count (xs_state s1) \<Longrightarrow> ?R (s1\<lparr>xs_state := st'\<rparr>)" for s1 st'
    by (rule exec_reachable.step [OF _ exec_sys_step.others])
  define s1 where "s1 = s\<lparr>xs_state := (xs_state s)\<lparr>st_ws := Some 0\<rparr>\<rparr>"
  define s2 where "s2 = s1\<lparr>xs_handler := set_pc t SendAck (xs_handler s1)\<rparr>"
  define s3 where "s3 = s2\<lparr>xs_state := xs_state s\<rparr>"
  have "?R s1" using by_others [OF reach] by (simp add: s1_def)
  then have "?R s2" by (rule by_task) (use t pc in \<open>simp_all add: exec_step_def Let_def s1_def s2_def\<close>)
  then have s3: "?R s3" unfolding s3_def by (rule by_others) (simp add: s2_def s1_def)
  have x3: "xs_state s3 = xs_state s" "xs_handler s3 = set_pc t SendAck (xs_handler s)" by (simp_all add: s3_def s2_def s1_def)
  obtain b where b: "exec_respond codec 0 t (from_error (Exception ''No WebSocket connection'') 500) s3
      = s3\<lparr>xs_handler := set_pc t (Ended False) ((xs_handler s3)\<lparr>xh_buffer := b\<rparr>)\<rparr>"
    using exec_respond_no_ws [of s3] x3(1) ws by metis
  define s4 where "s4 = s3\<lparr>xs_handler := set_pc t (Ended False) ((xs_handler s3)\<lparr>xh_buffer := b\<rparr>)\<rparr>"
  have "?R s4"
    by (rule by_task [OF s3]) (use t ws b in \<open>simp_all add: exec_step_def Let_def x3 send_target_def s4_def\<close>)
  moreover have tasks4: "xh_tasks (xs_handler s4) = (xh_tasks (xs_handler s))[t := (task_of s t)\<lparr>et_pc := Ended False\<rparr>]"
    "xh_requests (xs_handler s4) = xh_requests (xs_handler s)" "xs_state s4 = xs_state s"
    "xh_base (xs_handler s4) = xh_base (xs_handler s)" "xh_closing (xs_handler s4) = xh_closing (xs_handler s)"
    using t by (simp_all add: s4_def x3 set_pc_def)
  moreover obtain s5 where s5: "exec_step codec post 0 SendOk t s4 = Some s5" using t by (simp add: exec_step_def Let_def tasks4)
  ultimately have "?R s5" using by_task [of s4 s5] t by simp
  with s5 t ws show thesis
    by (intro that [of s5]) (auto simp: exec_step_def Let_def tasks4 set_pc_def)
qed

lemma msg_keeps:
  "exec_handle_msg codec apps kind payload (x, st) = (x', st') \<Longrightarrow> xh_base x' = xh_base x \<and> xh_closing x' = xh_closing x"
  by (auto simp: exec_handle_msg_def handle_executor_request_def handle_lease_extend_ack_def handle_worker_reply_ack_def
      cancel_task_def set_pc_def Let_def split: if_splits sum.splits option.splits exec_pc.splits prod.splits)

text \<open>Closing, with no task left, and a count that is not 0.\<close>

definition never_drained :: "'w exec_system \<Rightarrow> bool" where
  "never_drained s = (xh_closing (xs_handler s) \<and> bh_close_task (xh_base (xs_handler s)) = Some AwaitDrained
     \<and> st_pending_request_count (xs_state s) \<noteq> 0 \<and> (\<forall>t < length (xh_tasks (xs_handler s)). \<not> unfinished (task_of s t)))"

lemma never_drained_step:
  assumes "exec_sys_step codec apps post dup s s'" and stuck: "never_drained s"
  shows "never_drained s'"
  using assms(1)
proof cases
  case own
  then show ?thesis
  proof (cases rule: exec_own_cases)
    case (task t now r)
    with stuck have "\<not> unfinished (task_of s t)" by (simp add: never_drained_def)
    then obtain c where "et_pc (task_of s t) = Finished c" by (auto simp: unfinished_def split: exec_pc.splits)
    with task show ?thesis by (simp add: exec_step_def Let_def)
  qed (use stuck in \<open>simp add: never_drained_def\<close>)
next
  case (msg kind payload x' st')
  from msg(3) show ?thesis
  proof (cases rule: exec_handle_msg_cases)
    case (touch t task)
    have "\<not> unfinished (xh_tasks x' ! u)" if "u < length (xh_tasks x')" for u
      using that touch stuck by (cases "u = t") (auto simp: never_drained_def touched_def)
    with touch msg_keeps [OF msg(3)] stuck show ?thesis by (simp add: never_drained_def msg(1))
  qed (use stuck in \<open>simp add: never_drained_def\<close>)
next
  case close
  with stuck show ?thesis by (simp add: never_drained_def exec_close_def base_close_def)
next
  case (close_sequence b)
  with stuck show ?thesis by (simp add: never_drained_def close_sequence_step_def)
qed (use stuck in \<open>simp_all add: never_drained_def\<close>)

text \<open>C39: A request that the gateway repeats while it is still pending makes the count drift: both tasks end, but the first
  done callback removes the entry of the second, so that the count stays above 0 and the handler, once told to close,
  never gets past the wait for its pending requests, whatever happens afterwards.\<close>

theorem repeated_request_never_drains:
  fixes post :: "string \<Rightarrow> comm_request \<Rightarrow> 'w \<Rightarrow> (exc + comm_response) \<times> 'w"
  assumes dec: "dec_executor_request codec payload = Inr req" and app: "xr_app_name req \<in> apps"
  shows "\<exists>s. exec_reachable codec apps post True s \<and>
    (\<forall>s'. (exec_sys_step codec apps post True)\<^sup>*\<^sup>* s s' \<longrightarrow>
      (\<forall>t < length (xh_tasks (xs_handler s')). \<not> unfinished (task_of s' t)) \<and>
      close_sequence_step (st_pending_request_count (xs_state s') = 0) (xh_base (xs_handler s')) = None)"
proof -
  let ?R = "exec_reachable codec apps post True"
  define task where "task = \<lparr>et_request = req, et_pc = AwaitingWs\<rparr>"
  define s0 where "s0 = (exec_initial undefined True :: 'w exec_system)"
  define add where "add s = s\<lparr>xs_handler := (xs_handler s)\<lparr>xh_tasks := xh_tasks (xs_handler s) @ [task],
      xh_requests := dset (xh_requests (xs_handler s)) (xr_request_id req) (length (xh_tasks (xs_handler s)))\<rparr>,
    xs_state := (xs_state s)\<lparr>st_pending_request_count := st_pending_request_count (xs_state s) + 1\<rparr>\<rparr>" for s :: "'w exec_system"
  have add: "?R s \<Longrightarrow> \<not> xh_closing (xs_handler s) \<Longrightarrow> ?R (add s)" for s
    unfolding add_def
    by (erule exec_reachable.step, rule exec_sys_step.msg [of GATEWAY_EXECUTOR_REQUEST codec payload])
      (simp_all add: exec_handle_msg_def handle_executor_request_def dec app pm_add_def task_def)
  have s0: "?R s0" unfolding s0_def by (rule exec_reachable.init)
  have h0: "xh_closing (xs_handler s0) = False" "xh_tasks (xs_handler s0) = []" "xh_requests (xs_handler s0) = []"
    "st_pending_request_count (xs_state s0) = 0" "st_ws (xs_state s0) = None" "bh_close_task (xh_base (xs_handler s0)) = None"
    by (simp_all add: s0_def exec_initial_def exec_start_def exec_init_def State_init_def base_start_def base_init_def)
  define s2 where "s2 = add (add s0)"
  have s2: "?R s2" unfolding s2_def by (intro add s0) (simp_all add: h0 add_def)
  have h2: "xh_tasks (xs_handler s2) = [task, task]" "xh_requests (xs_handler s2) = [(xr_request_id req, 1)]"
    "st_pending_request_count (xs_state s2) = 2" "st_ws (xs_state s2) = None" "xh_base (xs_handler s2) = xh_base (xs_handler s0)"
    by (simp_all add: s2_def add_def h0)
  obtain s3 where s3: "?R s3" "st_ws (xs_state s3) = None"
    "xh_tasks (xs_handler s3) = [task\<lparr>et_pc := Finished False\<rparr>, task]" "xh_requests (xs_handler s3) = []"
    "st_pending_request_count (xs_state s3) = 1" "xh_base (xs_handler s3) = xh_base (xs_handler s0)"
    by (rule run_without_ws [OF s2, of 0]) (auto simp: h2 task_def pm_pop_def ddel_def)
  obtain s4 where s4: "?R s4" "xh_tasks (xs_handler s4) = [task\<lparr>et_pc := Finished False\<rparr>, task\<lparr>et_pc := Finished False\<rparr>]"
    "st_pending_request_count (xs_state s4) = 1" "xh_base (xs_handler s4) = xh_base (xs_handler s0)"
    by (rule run_without_ws [OF s3(1), of 1]) (auto simp: s3 task_def pm_pop_def)
  define s where "s = s4\<lparr>xs_handler := exec_close (xs_handler s4)\<rparr>"
  have "?R s" unfolding s_def by (rule exec_reachable.step [OF s4(1) exec_sys_step.close])
  moreover have "never_drained s"
    using s4 h0(6) by (auto simp: never_drained_def s_def exec_close_def base_close_def unfinished_def less_Suc_eq)
  moreover have "never_drained s'" if "(exec_sys_step codec apps post True)\<^sup>*\<^sup>* s s'" for s'
    using that \<open>never_drained s\<close> by (induction rule: rtranclp_induct) (auto intro: never_drained_step)
  ultimately show ?thesis by (auto simp: never_drained_def close_sequence_step_def)
qed

section \<open>A run\<close>

definition demo_post :: "string \<Rightarrow> comm_request \<Rightarrow> nat \<Rightarrow> (exc + comm_response) \<times> nat" where
  "demo_post app req w = (Inr (mk_CommResponse PNone [] 200), Suc w)"

text \<open>A request arrives, a connection opens, and the acknowledgement is sent.\<close>

definition demo_exec :: "exec_pc \<Rightarrow> nat option \<Rightarrow> bytes list \<Rightarrow> nat \<Rightarrow> nat exec_system" where
  "demo_exec pc ws sent w = (exec_initial w True)\<lparr>
     xs_handler := (xs_handler (exec_initial w True))\<lparr>xh_tasks := [\<lparr>et_request = demo_request, et_pc = pc\<rparr>], xh_requests := [(''r1'', 0)]\<rparr>,
     xs_state := State_init\<lparr>st_pending_request_count := 1, st_ws := ws\<rparr>, xs_sent := sent\<rparr>"

lemmas demo_exec_simps = demo_exec_def exec_initial_def exec_start_def exec_init_def State_init_def base_start_def base_init_def
  demo_request_def

lemma demo_exec_added: "exec_reachable demo_codec {''app''} demo_post False (demo_exec AwaitingWs None [] 0)"
proof -
  have "exec_handle_msg demo_codec {''app''} GATEWAY_EXECUTOR_REQUEST [] (xs_handler (exec_initial 0 True :: nat exec_system), xs_state (exec_initial 0 True :: nat exec_system))
      = (xs_handler (demo_exec AwaitingWs None [] 0), xs_state (demo_exec AwaitingWs None [] 0))"
    by (simp add: exec_handle_msg_def handle_executor_request_def demo_codec_def demo_exec_simps pm_add_def)
  then have "exec_sys_step demo_codec {''app''} demo_post False (exec_initial 0 True)
      ((exec_initial 0 True)\<lparr>xs_handler := xs_handler (demo_exec AwaitingWs None [] 0), xs_state := xs_state (demo_exec AwaitingWs None [] 0)\<rparr>)"
    by (rule exec_sys_step.msg [rotated]) (simp add: demo_exec_simps)
  from exec_reachable.step [OF exec_reachable.init this] show ?thesis by (simp add: demo_exec_simps)
qed

lemma demo_exec_running: "exec_reachable demo_codec {''app''} demo_post False (demo_exec RunningFn (Some 7) [''ack r1''] 0)"
proof -
  let ?R = "exec_reachable demo_codec {''app''} demo_post False"
  have by_task: "?R s1 \<Longrightarrow> 0 < length (xh_tasks (xs_handler s1)) \<Longrightarrow> exec_step demo_codec demo_post 0 SendOk 0 s1 = Some s2 \<Longrightarrow> ?R s2" for s1 s2
    by (rule exec_reachable.step [OF _ exec_sys_step.own [OF exec_own_step.task]])
  have "exec_sys_step demo_codec {''app''} demo_post False (demo_exec AwaitingWs None [] 0)
      ((demo_exec AwaitingWs None [] 0)\<lparr>xs_state := State_init\<lparr>st_pending_request_count := 1, st_ws := Some 7\<rparr>\<rparr>)"
    by (rule exec_sys_step.others) (simp add: demo_exec_simps)
  from exec_reachable.step [OF demo_exec_added this] have "?R (demo_exec AwaitingWs (Some 7) [] 0)" by (simp add: demo_exec_simps)
  then have "?R (demo_exec SendAck (Some 7) [] 0)"
    by (rule by_task) (simp_all add: exec_step_def demo_exec_simps set_pc_def)
  then have "?R (demo_exec SendingAck (Some 7) [] 0)"
    by (rule by_task) (simp_all add: exec_step_def demo_exec_simps set_pc_def send_target_def)
  then show ?thesis
    by (rule by_task) (simp_all add: exec_step_def demo_exec_simps set_pc_def safe_send_result_def ack_message_def demo_codec_def)
qed

theorem pending_requests_drain_witness:
  "st_pending_request_count (xs_state (demo_exec RunningFn (Some 7) [''ack r1''] 0)) = 1"
proof -
  have "{t. t < length (xh_tasks (xs_handler (demo_exec RunningFn (Some 7) [''ack r1''] 0))) \<and> unfinished (task_of (demo_exec RunningFn (Some 7) [''ack r1''] 0) t)} = {0}"
    by (auto simp: demo_exec_simps unfinished_def)
  with pending_requests_drain [OF demo_exec_running] show ?thesis by simp
qed

theorem effects_need_ack_witness:
  "ack_message demo_codec (et_request (task_of (demo_exec RunningFn (Some 7) [''ack r1''] 0) 0)) \<in> set [''ack r1'']"
proof -
  let ?s = "demo_exec RunningFn (Some 7) [''ack r1''] 0"
  let ?s' = "?s\<lparr>xs_world := 1, xs_handler := set_pc 0 (Responding (Inr (mk_CommResponse PNone [] 200))) (xs_handler ?s)\<rparr>"
  have "exec_step demo_codec demo_post 0 SendOk 0 ?s = Some ?s'"
    by (simp add: exec_step_def demo_exec_simps demo_post_def)
  then have "exec_sys_step demo_codec {''app''} demo_post False ?s ?s'"
    by (rule exec_sys_step.own [OF exec_own_step.task [rotated]]) (simp add: demo_exec_simps)
  from effects_need_ack [OF demo_exec_running this] obtain t where "t < length (xh_tasks (xs_handler ?s))"
    "ack_message demo_codec (et_request (task_of ?s t)) \<in> set (xs_sent ?s)" by (auto simp: demo_exec_simps)
  moreover from this(1) have "t = 0" by (simp add: demo_exec_simps)
  moreover have "xs_sent ?s = [''ack r1'']" by (simp add: demo_exec_simps)
  ultimately show ?thesis by simp
qed

theorem repeated_request_never_drains_witness:
  "\<exists>s. exec_reachable demo_codec {''app''} demo_post True s \<and>
    close_sequence_step (st_pending_request_count (xs_state s) = 0) (xh_base (xs_handler s)) = None"
  using repeated_request_never_drains [of demo_codec "[]" demo_request "{''app''}" demo_post]
  by (auto simp: demo_codec_def demo_request_def)

end
