(* ===== verification/WorkerProps.thy ===== *)
theory WorkerProps
  imports Worker ExecProps
begin

text \<open>
  Graceful shutdown of the worker: when no shutdown timeout fires, the connection state becomes \<open>CLOSED\<close> only after
  every task has run to its end, and it stays \<open>CLOSED\<close>.
\<close>

section \<open>What the execution handler keeps\<close>

lemma exec_failed_keeps [simp]:
  "xh_base (xs_handler (exec_failed codec t s)) = xh_base (xs_handler s)"
  "xh_closing (xs_handler (exec_failed codec t s)) = xh_closing (xs_handler s)"
  "xs_state (exec_failed codec t s) = xs_state s"
  by (simp_all add: exec_failed_def set_pc_def split: sum.split)

lemma exec_respond_keeps [simp]:
  "xh_base (xs_handler (exec_respond codec now t res s)) = xh_base (xs_handler s)"
  "xh_closing (xs_handler (exec_respond codec now t res s)) = xh_closing (xs_handler s)"
  "xs_state (exec_respond codec now t res s) = xs_state s"
  by (simp_all add: exec_respond_def set_pc_def Let_def split: sum.split)

text \<open>The state after a step of a handler: at most the WebSocket was closed, and the count may have changed.\<close>

definition at_most_closed :: "cstate \<Rightarrow> cstate \<Rightarrow> bool" where
  "at_most_closed st st' = ((st_conn_state st' = CS_CLOSED \<longleftrightarrow> st_conn_state st = CS_CLOSED)
     \<and> (st_conn_init st = None \<longrightarrow> st_conn_init st' = None))"

lemma at_most_closed_refl [simp]: "at_most_closed st st"
  by (simp add: at_most_closed_def)

lemma at_most_closed_count [simp]: "at_most_closed st (st'\<lparr>st_pending_request_count := n\<rparr>) = at_most_closed st st'"
  by (simp add: at_most_closed_def)

lemma at_most_closed_send [simp]: "at_most_closed st (snd (safe_send_result r st))"
  by (cases r) (simp_all add: at_most_closed_def safe_send_result_def)

lemma exec_step_keeps:
  assumes "exec_step codec post now r t s = Some s'"
  shows "xh_base (xs_handler s') = xh_base (xs_handler s) \<and> xh_closing (xs_handler s') = xh_closing (xs_handler s)
    \<and> at_most_closed (xs_state s) (xs_state s')"
proof (cases "et_pc (task_of s t)")
  case (Responding res)
  with assms show ?thesis by (cases res) (auto simp: exec_step_def Let_def)
qed (use assms in \<open>auto simp: exec_step_def Let_def set_pc_def split: if_splits sum.splits option.splits prod.splits\<close>)

lemma exec_own_keeps:
  assumes "exec_own_step codec post s s'"
  shows "xh_base (xs_handler s') = xh_base (xs_handler s) \<and> xh_closing (xs_handler s') = xh_closing (xs_handler s)
    \<and> at_most_closed (xs_state s) (xs_state s')"
  using assms
proof (cases rule: exec_own_cases)
  case (task t now r)
  from exec_step_keeps [OF task(2)] show ?thesis .
next
  case quiet
  then show ?thesis by auto
qed

section \<open>The count bounds the unfinished tasks\<close>

definition unfinished_tasks :: "exec_task list \<Rightarrow> int" where
  "unfinished_tasks tasks = int (length (filter unfinished tasks))"

lemma not_unfinished: "\<not> unfinished task \<longleftrightarrow> (\<exists>c. et_pc task = Finished c)"
  by (cases "et_pc task") (simp_all add: unfinished_def)

lemma unfinished_tasks_update:
  assumes "t < length tasks"
  shows "unfinished_tasks (tasks[t := task]) =
    unfinished_tasks tasks - (if unfinished (tasks ! t) then 1 else 0) + (if unfinished task then 1 else 0)"
proof -
  have split: "tasks = take t tasks @ tasks ! t # drop (Suc t) tasks" using assms by (simp add: id_take_nth_drop)
  have "unfinished_tasks (tasks[t := task]) = unfinished_tasks (take t tasks @ task # drop (Suc t) tasks)"
    using assms by (simp add: upd_conv_take_nth_drop)
  moreover have "unfinished_tasks tasks = unfinished_tasks (take t tasks @ tasks ! t # drop (Suc t) tasks)" using split by simp
  ultimately show ?thesis by (simp add: unfinished_tasks_def)
qed

lemma unfinished_tasks_touched:
  assumes "unfinished task = unfinished (tasks ! t)"
  shows "unfinished_tasks (tasks[t := task]) = unfinished_tasks tasks"
  using assms unfinished_tasks_update [of t tasks task] by (cases "t < length tasks") (simp_all add: list_update_beyond)

lemma unfinished_tasks_pos: "t < length tasks \<Longrightarrow> unfinished (tasks ! t) \<Longrightarrow> 0 < unfinished_tasks tasks"
  using length_pos_if_in_set [of "tasks ! t" "filter unfinished tasks"] by (simp add: unfinished_tasks_def)

text \<open>Repeated requests can make the count larger than the number of unfinished tasks, never smaller.\<close>

definition count_ok :: "exec_handler \<Rightarrow> cstate \<Rightarrow> bool" where
  "count_ok x st = (unfinished_tasks (xh_tasks x) \<le> st_pending_request_count st)"

lemma count_ok_zero:
  assumes "count_ok x st" and "st_pending_request_count st = 0" and "t < length (xh_tasks x)"
  shows "\<not> unfinished (xh_tasks x ! t)"
  using assms unfinished_tasks_pos by (fastforce simp: count_ok_def)

lemma pm_pop_count: "snd (snd (pm_pop rid (requests, n))) \<in> {n, n - 1}"
  by (simp add: pm_pop_def split: option.split)

lemma exec_own_count:
  assumes "exec_own_step codec post s s'" and "count_ok (xs_handler s) (xs_state s)"
  shows "count_ok (xs_handler s') (xs_state s') \<and> (st_pending_request_count (xs_state s) = 0 \<longrightarrow>
    xh_tasks (xs_handler s') = xh_tasks (xs_handler s) \<and> st_pending_request_count (xs_state s') = 0)"
  using assms(1)
proof (cases rule: exec_own_cases)
  case (task t now r)
  let ?x = "xs_handler s"
  obtain pc' where shape: "step_shape codec t s s' pc'" using exec_step_shape [OF task(2)] by blast
  then have tasks: "xh_tasks (xs_handler s') = (xh_tasks ?x)[t := (task_of s t)\<lparr>et_pc := pc'\<rparr>]"
    and unf: "unfinished (task_of s t)"
    unfolding step_shape_def by (auto simp: unfinished_def)
  have pos: "st_pending_request_count (xs_state s) \<noteq> 0"
    using count_ok_zero [OF assms(2) _ task(1)] unf by blast
  have n: "unfinished_tasks (xh_tasks (xs_handler s')) =
      unfinished_tasks (xh_tasks ?x) - 1 + (if unfinished ((task_of s t)\<lparr>et_pc := pc'\<rparr>) then 1 else 0)"
    unfolding tasks using unfinished_tasks_update [OF task(1)] unf by simp
  consider c where "pc' = Finished c" "(xh_requests (xs_handler s'), st_pending_request_count (xs_state s')) =
        snd (pm_pop (rid_of (task_of s t)) (xh_requests ?x, st_pending_request_count (xs_state s)))"
    | "st_pending_request_count (xs_state s') = st_pending_request_count (xs_state s)"
    using shape unfolding step_shape_def by blast
  then have "count_ok (xs_handler s') (xs_state s')"
  proof cases
    case (1 c)
    have "st_pending_request_count (xs_state s') = snd (snd (pm_pop (rid_of (task_of s t)) (xh_requests ?x, st_pending_request_count (xs_state s))))"
      using arg_cong [OF 1(2), of snd] by simp
    with pm_pop_count [of "rid_of (task_of s t)" "xh_requests ?x" "st_pending_request_count (xs_state s)"]
    have "st_pending_request_count (xs_state s') \<ge> st_pending_request_count (xs_state s) - 1" by auto
    with n 1(1) assms(2) show ?thesis by (simp add: count_ok_def unfinished_def)
  next
    case 2
    with n assms(2) show ?thesis by (simp add: count_ok_def split: if_splits)
  qed
  with pos show ?thesis by simp
next
  case quiet
  with assms(2) show ?thesis by (simp add: count_ok_def)
qed

lemma exec_msg_count:
  assumes "exec_handle_msg codec apps kind payload (x, st) = (x', st')" and "count_ok x st"
  shows "count_ok x' st' \<and> (xh_closing x \<longrightarrow> st_pending_request_count st' = st_pending_request_count st)"
  using assms(1)
proof (cases rule: exec_handle_msg_cases)
  case (add req)
  with assms(2) show ?thesis by (simp add: count_ok_def unfinished_tasks_def unfinished_def)
next
  case (touch t task)
  with assms(2) show ?thesis by (simp add: count_ok_def touched_def unfinished_tasks_touched)
qed

lemma exec_handle_msg_keeps:
  assumes "exec_handle_msg codec apps kind payload (x, st) = (x', st')"
  shows "xh_base x' = xh_base x \<and> xh_closing x' = xh_closing x \<and> st_conn_state st' = st_conn_state st \<and> st_conn_init st' = st_conn_init st"
  using assms
  by (auto simp: exec_handle_msg_def handle_executor_request_def handle_lease_extend_ack_def handle_worker_reply_ack_def cancel_task_def
      set_pc_def pm_add_def Let_def split: if_splits sum.splits option.splits prod.splits exec_pc.splits)

section \<open>The invariant of the worker\<close>

text \<open>
  A handler's close sequence: it has begun only when the execution handler refuses new work, is past its wait only
  when nothing is pending, and sets the event at its end.
\<close>

definition base_ok :: "bool \<Rightarrow> int \<Rightarrow> bool \<Rightarrow> base_handler \<Rightarrow> bool" where
  "base_ok refuses n started b = ((bh_close_task b \<noteq> None \<longrightarrow> refuses)
     \<and> (bh_close_task b \<in> {Some CleaningUp, Some CloseFinished} \<longrightarrow> n = 0)
     \<and> (closed_event_is_set b \<longrightarrow> bh_close_task b = Some CloseFinished)
     \<and> (started \<longrightarrow> bh_closed_event b \<noteq> None))"

definition worker_bases :: "'w worker \<Rightarrow> base_handler list" where
  "worker_bases s = [wk_conn_init s, wk_heartbeat s, hk_base (wk_handshake s), xh_base (xs_handler (wk_exec s)), wk_drain s]"

abbreviation wk_count :: "'w worker \<Rightarrow> int" where
  "wk_count s \<equiv> st_pending_request_count (wk_state s)"

abbreviation wk_closed :: "'w worker \<Rightarrow> bool" where
  "wk_closed s \<equiv> st_conn_state (wk_state s) = CS_CLOSED"

definition worker_inv :: "'w worker \<Rightarrow> bool" where
  "worker_inv s = (count_ok (xs_handler (wk_exec s)) (wk_state s)
     \<and> (\<forall>b\<in>set (worker_bases s). base_ok (xh_closing (xs_handler (wk_exec s))) (wk_count s) (wk_run s \<noteq> RunNotStarted) b)
     \<and> (bh_close_task (wk_conn_init s) = Some CloseFinished \<longrightarrow> wk_start_task s = StartEnded)
     \<and> (wk_run s = RunNotStarted \<longrightarrow> set (wk_close_tasks s) \<subseteq> {CloseScheduled})
     \<and> (wk_closed s \<longrightarrow> wk_run s \<noteq> RunNotStarted \<and> (\<forall>b\<in>set (worker_bases s). closed_event_is_set b)
          \<and> st_conn_init (wk_state s) = None))"

lemma map_state_simps [simp]:
  "wk_state (map_state f s) = f (wk_state s)" "xs_handler (wk_exec (map_state f s)) = xs_handler (wk_exec s)"
  "wk_run (map_state f s) = wk_run s" "wk_close_tasks (map_state f s) = wk_close_tasks s"
  "wk_start_task (map_state f s) = wk_start_task s" "wk_conn_init (map_state f s) = wk_conn_init s"
  "worker_bases (map_state f s) = worker_bases s"
  by (simp_all add: map_state_def worker_bases_def)

text \<open>
  A step that leaves handlers and tasks alone keeps the invariant when it neither counts nor closes the connection
  nor gives a closed one a gateway.
\<close>

lemma worker_inv_quiet:
  assumes "worker_inv s" and "worker_bases s' = worker_bases s" and "wk_conn_init s' = wk_conn_init s"
    and "xh_tasks (xs_handler (wk_exec s')) = xh_tasks (xs_handler (wk_exec s))"
    and "xh_closing (xs_handler (wk_exec s')) = xh_closing (xs_handler (wk_exec s))"
    and "wk_count s' = wk_count s" and "wk_run s' = RunNotStarted \<longleftrightarrow> wk_run s = RunNotStarted"
    and "wk_start_task s = StartEnded \<longrightarrow> wk_start_task s' = StartEnded"
    and "wk_run s = RunNotStarted \<longrightarrow> set (wk_close_tasks s') \<subseteq> {CloseScheduled}"
    and "wk_closed s' \<longrightarrow> wk_closed s \<and> st_conn_init (wk_state s') = None"
  shows "worker_inv s'"
  using assms unfolding worker_inv_def count_ok_def by simp

lemma worker_inv_note_reset [simp]: "worker_inv (note_reset s s') = worker_inv s'"
  by (simp add: worker_inv_def note_reset_def worker_bases_def)

lemma base_ok_start: "base_ok refuses n started b \<Longrightarrow> base_ok refuses n True (base_start b)"
  by (auto simp: base_ok_def base_start_def closed_event_is_set_def split: option.split)

lemma base_ok_close: "base_ok refuses n started b \<Longrightarrow> base_ok True n started (base_close b)"
  by (auto simp: base_ok_def base_close_def closed_event_is_set_def)

lemma base_close_set [simp]: "closed_event_is_set (base_close b) = closed_event_is_set b"
  by (simp add: base_close_def closed_event_is_set_def)

lemma close_sequence_ok:
  assumes "close_sequence_step (n = 0) b = Some b'" and "base_ok refuses n started b"
  shows "base_ok refuses n started b' \<and> \<not> closed_event_is_set b"
  using assms
  by (auto simp: close_sequence_step_def base_ok_def closed_event_is_set_def split: option.splits close_stage.splits if_splits)

lemma worker_bases_closed:
  assumes "worker_inv s" and "wk_run s \<noteq> RunNotStarted" and "handlers_closed s"
  shows "\<forall>b\<in>set (worker_bases s). closed_event_is_set b"
proof
  fix b assume b: "b \<in> set (worker_bases s)"
  have "closed_returns b" using assms(3) b by (auto simp: handlers_closed_def worker_bases_def)
  moreover have "bh_closed_event b \<noteq> None" using assms(1,2) b by (simp add: worker_inv_def base_ok_def)
  ultimately show "closed_event_is_set b" by (auto simp: closed_returns_def closed_event_is_set_def)
qed

lemma worker_inv_close_handlers:
  assumes "worker_inv s"
  shows "worker_inv (close_handlers s)"
proof -
  have "bh_close_task (base_close (wk_conn_init s)) = Some CloseFinished \<longrightarrow> bh_close_task (wk_conn_init s) = Some CloseFinished"
    by (simp add: base_close_def)
  with assms show ?thesis
    by (simp add: worker_inv_def close_handlers_def map_exec_def worker_bases_def exec_close_def count_ok_def)
      (blast intro: base_ok_close)
qed

text \<open>Setting \<open>CLOSED\<close> is sound once every handler is closed.\<close>

lemma worker_inv_closed:
  assumes "worker_inv s" and "wk_run s \<noteq> RunNotStarted" and "handlers_closed s"
    and "worker_bases s' = worker_bases s" and "wk_conn_init s' = wk_conn_init s" and "xs_handler (wk_exec s') = xs_handler (wk_exec s)"
    and "wk_count s' = wk_count s" and "wk_run s' \<noteq> RunNotStarted" and "wk_start_task s' = wk_start_task s"
    and "st_conn_init (wk_state s') = None"
  shows "worker_inv s'"
  using assms worker_bases_closed [OF assms(1-3)] unfolding worker_inv_def count_ok_def by simp

section \<open>Every step keeps the invariant\<close>

definition worker_keeps :: "'w worker \<Rightarrow> 'w worker \<Rightarrow> bool" where
  "worker_keeps s s' = (worker_inv s' \<and>
     (wk_closed s \<longrightarrow> wk_closed s' \<and> xh_tasks (xs_handler (wk_exec s')) = xh_tasks (xs_handler (wk_exec s))))"

lemma worker_keeps_quiet:
  assumes "worker_inv s" and "worker_bases s' = worker_bases s" and "wk_conn_init s' = wk_conn_init s"
    and "xh_tasks (xs_handler (wk_exec s')) = xh_tasks (xs_handler (wk_exec s))"
    and "xh_closing (xs_handler (wk_exec s')) = xh_closing (xs_handler (wk_exec s))"
    and "wk_count s' = wk_count s" and "wk_run s' = RunNotStarted \<longleftrightarrow> wk_run s = RunNotStarted"
    and "wk_start_task s = StartEnded \<longrightarrow> wk_start_task s' = StartEnded"
    and "wk_run s = RunNotStarted \<longrightarrow> set (wk_close_tasks s') \<subseteq> {CloseScheduled}"
    and "wk_closed s' = wk_closed s" and "wk_closed s \<longrightarrow> st_conn_init (wk_state s') = None"
  shows "worker_keeps s s'"
  using worker_inv_quiet [OF assms(1-9)] assms(4,10,11) by (simp add: worker_keeps_def)

lemma worker_inv_D:
  assumes "worker_inv s"
  shows "wk_closed s \<Longrightarrow> st_conn_init (wk_state s) = None" "wk_closed s \<Longrightarrow> wk_run s \<noteq> RunNotStarted"
    "wk_run s = RunNotStarted \<Longrightarrow> set (wk_close_tasks s) \<subseteq> {CloseScheduled}"
    "count_ok (xs_handler (wk_exec s)) (wk_state s)"
    "b \<in> set (worker_bases s) \<Longrightarrow> base_ok (xh_closing (xs_handler (wk_exec s))) (wk_count s) (wk_run s \<noteq> RunNotStarted) b"
    "wk_closed s \<Longrightarrow> b \<in> set (worker_bases s) \<Longrightarrow> closed_event_is_set b"
    "bh_close_task (wk_conn_init s) = Some CloseFinished \<Longrightarrow> wk_start_task s = StartEnded"
  using assms unfolding worker_inv_def by blast+

lemma worker_inv_closed_D:
  assumes inv: "worker_inv s" and closed: "wk_closed s"
  shows "wk_start_task s = StartEnded" "wk_count s = 0"
proof -
  have base: "wk_conn_init s \<in> set (worker_bases s)" by (simp add: worker_bases_def)
  have "closed_event_is_set (wk_conn_init s)" by (rule worker_inv_D(6) [OF inv closed base])
  with worker_inv_D(5) [OF inv base] have "bh_close_task (wk_conn_init s) = Some CloseFinished" "wk_count s = 0"
    by (simp_all add: base_ok_def)
  with worker_inv_D(7) [OF inv] show "wk_start_task s = StartEnded" "wk_count s = 0" by simp_all
qed

lemma close_handlers_simps [simp]:
  "wk_run (close_handlers s) = wk_run s" "wk_state (close_handlers s) = wk_state s"
  "xh_tasks (xs_handler (wk_exec (close_handlers s))) = xh_tasks (xs_handler (wk_exec s))"
  "wk_close_tasks (close_handlers s) = wk_close_tasks s"
  by (simp_all add: close_handlers_def map_exec_def)

lemma worker_inv_run:
  assumes "worker_inv s" and "wk_run s \<noteq> RunNotStarted" and "pc \<noteq> RunNotStarted"
  shows "worker_inv (s\<lparr>wk_run := pc\<rparr>)" "worker_inv (s\<lparr>wk_run := pc, wk_messages := m\<rparr>)"
  by (rule worker_inv_quiet [OF assms(1)]; use assms in \<open>simp add: worker_bases_def worker_inv_def\<close>)+

lemma run_finally_keeps:
  assumes "worker_inv s" and "wk_run s \<noteq> RunNotStarted"
  shows "worker_keeps s (run_finally e s)"
proof -
  let ?s = "if wk_closing s then s else close_handlers s"
  have "worker_inv ?s" using assms(1) worker_inv_close_handlers [OF assms(1)] by simp
  from worker_inv_run(1) [OF this, of "RunClosing e"] assms(2) show ?thesis by (simp add: worker_keeps_def run_finally_def)
qed

lemma start_handlers_keeps:
  assumes inv: "worker_inv s" and fresh: "wk_run s = RunNotStarted"
  shows "worker_keeps s ((start_handlers s)\<lparr>wk_run := RunHead\<rparr>)"
proof -
  have "\<not> wk_closed s" using worker_inv_D(2) [OF inv] fresh by blast
  moreover have "worker_inv ((start_handlers s)\<lparr>wk_run := RunHead\<rparr>)"
  proof -
    have "bh_close_task (base_start b) = bh_close_task b" for b by (simp add: base_start_def split: option.split)
    with inv \<open>\<not> wk_closed s\<close> show ?thesis
      by (auto simp: worker_inv_def start_handlers_def map_exec_def worker_bases_def exec_start_def handshake_start_def count_ok_def
          intro: base_ok_start)
  qed
  ultimately show ?thesis by (simp add: worker_keeps_def)
qed

lemma run_step_keeps:
  assumes "run_step False s s'" and inv: "worker_inv s"
  shows "worker_keeps s s'"
proof -
  have quiet: "worker_keeps s s'" if "wk_run s \<noteq> RunNotStarted" "wk_run s' \<noteq> RunNotStarted" "wk_exec s' = wk_exec s"
      "worker_bases s' = worker_bases s" "wk_conn_init s' = wk_conn_init s" "wk_start_task s' = wk_start_task s"
    by (rule worker_keeps_quiet [OF inv]) (use that worker_inv_D(1) [OF inv] in simp_all)
  have state: "worker_keeps s s'" if "wk_run s \<noteq> RunNotStarted" "wk_run s' \<noteq> RunNotStarted" "xs_handler (wk_exec s') = xs_handler (wk_exec s)"
      "worker_bases s' = worker_bases s" "wk_conn_init s' = wk_conn_init s" "wk_start_task s' = wk_start_task s"
      "wk_count s' = wk_count s" "wk_closed s' = wk_closed s" "st_conn_init (wk_state s) = None \<longrightarrow> st_conn_init (wk_state s') = None"
    by (rule worker_keeps_quiet [OF inv]) (use that worker_inv_D(1) [OF inv] in simp_all)
  from assms(1) show ?thesis
  proof cases
    case start
    with start_handlers_keeps [OF inv] show ?thesis by simp
  next
    case loop
    then show ?thesis
      by (cases "allow_reconnect (wk_state s)") (use run_finally_keeps [OF inv, of None] quiet in \<open>simp_all add: worker_bases_def\<close>)
  next
    case (fatal e)
    with run_finally_keeps [OF inv, of "Some e"] show ?thesis by simp
  next
    case (closing endpoint)
    with run_finally_keeps [OF inv, of None] show ?thesis by simp
  next
    case (connected endpoint ws)
    then show ?thesis by (intro state) (simp_all add: worker_bases_def map_state_def)
  next
    case (failed endpoint)
    then show ?thesis by (intro state) (auto simp: worker_bases_def map_state_def)
  next
    case (stopped e)
    have "worker_inv (run_stop e s)"
      by (rule worker_inv_closed [OF inv]) (use stopped in \<open>simp_all add: run_stop_def worker_bases_def map_state_def\<close>)
    with stopped show ?thesis by (simp add: worker_keeps_def run_stop_def map_state_def)
  qed (intro quiet; simp add: worker_bases_def)+
qed

lemma close_begin_keeps:
  assumes inv: "worker_inv s" and started: "wk_run s \<noteq> RunNotStarted"
  shows "worker_keeps s (close_begin i s)"
proof -
  have "worker_inv (close_begin i s)"
    by (rule worker_inv_quiet [OF worker_inv_close_handlers [OF inv]])
      (use started in \<open>simp_all add: close_begin_def worker_bases_def worker_inv_D(1) [OF inv]\<close>)
  then show ?thesis by (simp add: worker_keeps_def close_begin_def)
qed

lemma user_close_keeps:
  assumes inv: "worker_inv s"
  shows "worker_keeps s (user_close loop s)"
proof (cases "st_conn_state (wk_state s) \<in> {CS_CLOSING, CS_CLOSED}")
  case True
  with inv show ?thesis by (simp add: worker_keeps_def user_close_def)
next
  case False
  then show ?thesis
    by (intro worker_keeps_quiet [OF inv])
      (use worker_inv_D(3) [OF inv] in \<open>auto simp: user_close_def Let_def map_state_def worker_bases_def\<close>)
qed

lemma close_step_keeps:
  assumes "close_step False s s'" and inv: "worker_inv s"
  shows "worker_keeps s s'"
proof -
  have started: "wk_run s \<noteq> RunNotStarted" if "i < length (wk_close_tasks s)" "wk_close_tasks s ! i \<noteq> CloseScheduled" for i
    using that worker_inv_D(3) [OF inv] nth_mem by blast
  from assms(1) show ?thesis
  proof cases
    case (pause i)
    show ?thesis
    proof (cases "st_ws (wk_state s)")
      case None
      with pause close_begin_keeps [OF inv] show ?thesis by simp
    next
      case (Some ws)
      with pause show ?thesis
        by (intro worker_keeps_quiet [OF inv]) (simp_all add: worker_bases_def worker_inv_D(1) [OF inv])
    qed
  next
    case (paused i)
    with close_begin_keeps [OF inv started] show ?thesis by simp
  next
    case (close_ended i)
    then have "wk_run s \<noteq> RunNotStarted" using started by simp
    moreover from this have "worker_inv (close_end i s)"
      by (rule worker_inv_closed [OF inv]) (use close_ended \<open>wk_run s \<noteq> RunNotStarted\<close> in \<open>simp_all add: close_end_def worker_bases_def map_state_def\<close>)
    ultimately show ?thesis by (simp add: worker_keeps_def close_ended(1) close_end_def map_state_def)
  qed
qed

text \<open>A step of the execution handler's tasks.\<close>

lemma worker_keeps_exec:
  assumes inv: "worker_inv s" and base: "worker_bases s' = worker_bases s" "wk_conn_init s' = wk_conn_init s" "wk_start_task s' = wk_start_task s"
    and other: "wk_run s' = wk_run s" "wk_close_tasks s' = wk_close_tasks s"
    and closing: "xh_closing (xs_handler (wk_exec s')) = xh_closing (xs_handler (wk_exec s))"
    and count: "count_ok (xs_handler (wk_exec s')) (wk_state s')" "wk_count s = 0 \<longrightarrow> wk_count s' = 0"
    and tasks: "wk_count s = 0 \<longrightarrow> xh_tasks (xs_handler (wk_exec s')) = xh_tasks (xs_handler (wk_exec s))"
    and state: "at_most_closed (wk_state s) (wk_state s')"
  shows "worker_keeps s s'"
proof -
  have ok: "base_ok refuses (wk_count s') started b" if "base_ok refuses (wk_count s) started b" for refuses started b
    using that count(2) by (auto simp: base_ok_def)
  have "worker_inv s'"
    using inv ok count(1) state unfolding worker_inv_def base other closing at_most_closed_def by blast
  moreover have "xh_tasks (xs_handler (wk_exec s')) = xh_tasks (xs_handler (wk_exec s))" if "wk_closed s"
    using tasks worker_inv_closed_D(2) [OF inv that] by blast
  ultimately show ?thesis using state by (simp add: worker_keeps_def at_most_closed_def)
qed

lemma start_task_step_keeps:
  assumes step: "start_task_step codec ci ans s = Some s'" and inv: "worker_inv s"
  shows "worker_keeps s s'"
proof -
  have live: "wk_start_task s \<noteq> StartEnded" using step by (auto simp: start_task_step_def Let_def)
  then have open_: "\<not> wk_closed s" using worker_inv_closed_D(1) [OF inv] by blast
  have head: "st_conn_state (snd (start_loop_head closed err st)) = st_conn_state st"
    "st_pending_request_count (snd (start_loop_head closed err st)) = st_pending_request_count st" for closed err st
    by (simp_all add: start_loop_head_def split: option.split)
  have answer: "st_conn_state (snd (handle_start_answer codec ci ans st)) = st_conn_state st"
    "st_pending_request_count (snd (handle_start_answer codec ci ans st)) = st_pending_request_count st" for st
    by (simp_all add: handle_start_answer_def accept_start_response_def Let_def split: sum.split option.split)
  have "wk_conn_init s' = wk_conn_init s \<and> worker_bases s' = worker_bases s \<and> xs_handler (wk_exec s') = xs_handler (wk_exec s) \<and>
      wk_run s' = wk_run s \<and> wk_close_tasks s' = wk_close_tasks s \<and> \<not> wk_closed s' \<and> wk_count s' = wk_count s"
    by (cases "wk_start_task s")
      (use step open_ in \<open>auto simp: start_task_step_def Let_def map_state_def worker_bases_def case_prod_beta head answer split: if_splits\<close>)
  then show ?thesis
    by (intro worker_keeps_quiet [OF inv]) (use live open_ worker_inv_D(3) [OF inv] in simp_all)
qed

text \<open>One stretch of a handler's close sequence changes that handler's base, and what its cleanup cancels.\<close>

lemma worker_keeps_base:
  assumes inv: "worker_inv s" and step: "close_sequence_step (drained s) b = Some b'" and b: "b \<in> set (worker_bases s)"
    and bases: "set (worker_bases s') \<subseteq> insert b' (set (worker_bases s))"
    and init: "wk_conn_init s' = wk_conn_init s \<and> wk_start_task s' = wk_start_task s
      \<or> wk_conn_init s' = b' \<and> (if bh_close_task b' = Some CloseFinished then wk_start_task s' = StartEnded else wk_start_task s' = wk_start_task s)"
    and other: "wk_run s' = wk_run s" "wk_close_tasks s' = wk_close_tasks s" "wk_state s' = wk_state s"
      "xh_closing (xs_handler (wk_exec s')) = xh_closing (xs_handler (wk_exec s))"
      "xh_tasks (xs_handler (wk_exec s')) = xh_tasks (xs_handler (wk_exec s))"
  shows "worker_keeps s s'"
proof -
  have ok: "base_ok (xh_closing (xs_handler (wk_exec s))) (wk_count s) (wk_run s \<noteq> RunNotStarted) b'" "\<not> closed_event_is_set b"
    using close_sequence_ok [OF step [unfolded drained_def] worker_inv_D(5) [OF inv b]] by blast+
  then have open_: "\<not> wk_closed s" using worker_inv_D(6) [OF inv _ b] by blast
  have all: "base_ok (xh_closing (xs_handler (wk_exec s))) (wk_count s) (wk_run s \<noteq> RunNotStarted) b1" if "b1 \<in> set (worker_bases s')" for b1
    using that bases ok(1) worker_inv_D(5) [OF inv] by auto
  have "worker_inv s'"
    using all open_ init worker_inv_D(3,4,7) [OF inv] by (auto simp: worker_inv_def other count_ok_def split: if_splits)
  then show ?thesis by (simp add: worker_keeps_def other)
qed

lemma send_response_keeps:
  assumes "send_response_step codec cfg r s = Some s'"
  shows "hk_base (hs_handler s') = hk_base (hs_handler s)" "st_pending_request_count (hs_state s') = st_pending_request_count (hs_state s)"
    "at_most_closed (hs_state s) (hs_state s')"
proof -
  have "hk_base (hs_handler s') = hk_base (hs_handler s) \<and>
      (hs_state s' = hs_state s \<or> hs_state s' = snd (safe_send_result r (hs_state s)))"
    using assms by (auto simp: send_response_step_def Let_def set_send_pc_def case_prod_beta split: option.splits send_pc.splits sum.splits if_splits)
  then show "hk_base (hs_handler s') = hk_base (hs_handler s)" "st_pending_request_count (hs_state s') = st_pending_request_count (hs_state s)"
    "at_most_closed (hs_state s) (hs_state s')" by auto
qed

lemma heartbeat_sender_state:
  "heartbeat_sender_step closed r pc st = Some (pc', st', sends) \<Longrightarrow> st' = st \<or> st' = snd (safe_send_result r st)"
  by (cases pc) (auto simp: heartbeat_sender_step_def split: if_splits sum.splits)

lemma handler_step_keeps:
  assumes "handler_step codec post ci cfg s s'" and inv: "worker_inv s"
  shows "worker_keeps s s'"
  using assms(1)
proof cases
  case (exec x)
  from exec_own_keeps [OF exec(2)] exec_own_count [OF exec(2) worker_inv_D(4) [OF inv]] show ?thesis
    by (intro worker_keeps_exec [OF inv]) (simp_all add: exec(1) worker_bases_def)
next
  case (start_request ans)
  with start_task_step_keeps [OF _ inv] show ?thesis by blast
next
  case (send_sync r h)
  from send_response_keeps [OF send_sync(2)] worker_inv_D(4) [OF inv] show ?thesis
    by (intro worker_keeps_exec [OF inv]) (simp_all add: send_sync(1) put_hs_def hs_of_def worker_bases_def count_ok_def)
next
  case reset
  then show ?thesis
    by (intro worker_keeps_quiet [OF inv])
      (use worker_inv_D(1,3) [OF inv] in \<open>simp_all add: worker_bases_def reset_handshake_def\<close>)
next
  case (heartbeat r pc st sends)
  from heartbeat_sender_state [OF heartbeat(2)] worker_inv_D(4) [OF inv] show ?thesis
    by (intro worker_keeps_exec [OF inv]) (auto simp: heartbeat(1) worker_bases_def count_ok_def)
next
  case (close_conn_init b)
  then show ?thesis
    by (intro worker_keeps_base [OF inv close_conn_init(2)]) (auto simp: worker_bases_def cancel_start_task_def)
next
  case (close_heartbeat b)
  then show ?thesis by (intro worker_keeps_base [OF inv close_heartbeat(2)]) (auto simp: worker_bases_def)
next
  case (close_handshake b)
  then show ?thesis by (intro worker_keeps_base [OF inv close_handshake(2)]) (auto simp: worker_bases_def)
next
  case (close_exec b)
  then show ?thesis
    by (intro worker_keeps_base [OF inv close_exec(2)]) (auto simp: worker_bases_def map_exec_def cancel_exec_tasks_def)
next
  case (close_drain b)
  then show ?thesis by (intro worker_keeps_base [OF inv close_drain(2)]) (auto simp: worker_bases_def)
qed

lemma handshake_handle_msg_keeps:
  assumes "handshake_handle_msg codec cfg kind payload auth conn_id (h, st) = (h', st')"
  shows "hk_base h' = hk_base h" "st_pending_request_count st' = st_pending_request_count st"
    "st_conn_state st \<noteq> CS_CLOSED \<Longrightarrow> st_conn_state st' \<noteq> CS_CLOSED"
  using assms
  by (auto simp: handshake_handle_msg_def start_sync_def handshake_ready_def Let_def
      split: handshake_state.splits if_splits sum.splits option.splits)

lemma dispatch_keeps:
  assumes inv: "worker_inv s" and open_: "\<not> wk_closed s"
  shows "worker_keeps s (dispatch codec apps cfg kind payload auth conn_id s)"
proof -
  obtain h st1 where h: "handshake_handle_msg codec cfg kind payload auth conn_id (wk_handshake s, wk_state s) = (h, st1)" by force
  obtain x st2 where x: "exec_handle_msg codec apps kind payload (xs_handler (wk_exec s), st1) = (x, st2)" by force
  note hk = handshake_handle_msg_keeps [OF h] and xk = exec_handle_msg_keeps [OF x]
  have "count_ok (xs_handler (wk_exec s)) st1" using worker_inv_D(4) [OF inv] hk(2) by (simp add: count_ok_def)
  note count = exec_msg_count [OF x this]
  let ?s = "dispatch codec apps cfg kind payload auth conn_id s"
  have s': "?s = s\<lparr>wk_handshake := h, wk_exec := (wk_exec s)\<lparr>xs_handler := x, xs_state := drain_handle_msg kind st2\<rparr>\<rparr>"
    by (simp add: dispatch_def heartbeat_handle_msg_def h x)
  have drain: "st_pending_request_count (drain_handle_msg kind st2) = st_pending_request_count st2"
    "st_conn_state (drain_handle_msg kind st2) \<noteq> CS_CLOSED"
    using hk(3) open_ xk by (simp_all add: drain_handle_msg_def)
  have "worker_bases ?s = worker_bases s" using hk(1) xk by (simp add: s' worker_bases_def)
  moreover have "base_ok (xh_closing (xs_handler (wk_exec s))) (wk_count ?s) (wk_run s \<noteq> RunNotStarted) b"
    if "b \<in> set (worker_bases s)" for b
    using worker_inv_D(5) [OF inv that] count hk(2) by (cases "xh_closing (xs_handler (wk_exec s))") (auto simp: base_ok_def s' drain)
  ultimately have "worker_inv ?s"
    using worker_inv_D(3,7) [OF inv] count xk drain by (simp add: worker_inv_def) (simp add: s' count_ok_def)
  with open_ show ?thesis by (simp add: worker_keeps_def)
qed

lemma disconnect_keeps:
  assumes inv: "worker_inv s"
  shows "worker_keeps s (disconnect s)"
  by (rule worker_keeps_quiet [OF inv])
    (use worker_inv_D(1,3) [OF inv] in \<open>simp_all add: disconnect_def worker_bases_def map_state_def\<close>)

lemma handle_frame_keeps:
  assumes inv: "worker_inv s"
  shows "worker_keeps s (handle_frame codec apps cfg raw s)"
proof -
  have stop: "worker_keeps s (s\<lparr>wk_messages := False\<rparr>)" "worker_keeps s ((map_state close_ws s)\<lparr>wk_messages := False\<rparr>)" "worker_keeps s s"
    by (rule worker_keeps_quiet [OF inv]; use worker_inv_D(1,3) [OF inv] in \<open>simp add: worker_bases_def map_state_def\<close>)+
  show ?thesis
  proof (cases "st_conn_init (wk_state s)")
    case None
    with stop show ?thesis by (simp add: handle_frame_def)
  next
    case (Some p)
    then have "\<not> wk_closed s" using worker_inv_D(1) [OF inv] by auto
    note dispatch_keeps [OF inv this]
    with stop disconnect_keeps [OF inv] Some show ?thesis
      by (auto simp: handle_frame_def split: sum.split option.split prod.split message_kind.split)
  qed
qed

lemma worker_keeps_note_reset [simp]: "worker_keeps s (note_reset s s') = worker_keeps s s'"
  by (simp add: worker_keeps_def) (simp add: note_reset_def)

lemma thread_step_keeps:
  assumes "thread_step codec apps post ci cfg False s s'" and "worker_inv s"
  shows "worker_keeps s s'"
  using assms(1)
  by cases (use assms(2) run_step_keeps close_step_keeps handler_step_keeps handle_frame_keeps disconnect_keeps in auto)

lemma worker_step_keeps:
  assumes "worker_step codec apps post ci cfg False s s'" and "worker_inv s"
  shows "worker_keeps s s'"
  using assms(1) by cases (use assms(2) thread_step_keeps user_close_keeps in auto)

lemma worker_inv_reachable: "worker_reachable codec apps post ci cfg False s \<Longrightarrow> worker_inv s"
proof (induction rule: worker_reachable.induct)
  case (init w)
  show ?case
    by (simp add: worker_inv_def worker_bases_def map_exec_def worker_init_def exec_init_def base_init_def handshake_init_def State_init_def
        base_ok_def closed_event_is_set_def count_ok_def unfinished_tasks_def)
next
  case (step s s')
  from worker_step_keeps [OF step(2,3)] show ?case by (simp add: worker_keeps_def)
qed

section \<open>Graceful shutdown\<close>

text \<open>What holds of a worker that is \<open>CLOSED\<close>.\<close>

lemma closed_worker:
  assumes "worker_reachable codec apps post ci cfg False s" and "st_conn_state (wk_state s) = CS_CLOSED"
  shows "\<forall>task\<in>set (xh_tasks (xs_handler (wk_exec s))). \<exists>c. et_pc task = Finished c"
    "st_pending_request_count (wk_state s) = 0" "handlers_closed s" "wk_start_task s = StartEnded" "st_conn_init (wk_state s) = None"
proof -
  note inv = worker_inv_reachable [OF assms(1)]
  note closed = worker_inv_closed_D [OF inv assms(2)]
  show "st_pending_request_count (wk_state s) = 0" "wk_start_task s = StartEnded" "st_conn_init (wk_state s) = None"
    using closed worker_inv_D(1) [OF inv assms(2)] by blast+
  show "\<forall>task\<in>set (xh_tasks (xs_handler (wk_exec s))). \<exists>c. et_pc task = Finished c"
    using count_ok_zero [OF worker_inv_D(4) [OF inv] closed(2)] by (auto simp: in_set_conv_nth not_unfinished)
  have "\<forall>b\<in>set (worker_bases s). closed_event_is_set b" using worker_inv_D(6) [OF inv assms(2)] by blast
  then show "handlers_closed s" by (simp add: handlers_closed_def worker_bases_def closed_returns_def closed_event_is_set_def)
qed

text \<open>C9: When no shutdown timeout fires, the worker connection is \<open>CLOSED\<close> only after a complete shutdown: every
  request that the worker had accepted has run to its end, nothing is pending, all handlers are closed, the task of the
  start request is cancelled and no gateway is set.  And \<open>CLOSED\<close> is final: no step of any coroutine, whatever the
  gateway, the API and the user do, leaves it or touches a task again.\<close>

theorem shutdown_is_graceful:
  assumes "worker_reachable codec apps post ci cfg False s" and "st_conn_state (wk_state s) = CS_CLOSED"
  shows "(\<forall>task\<in>set (xh_tasks (xs_handler (wk_exec s))). \<exists>c. et_pc task = Finished c)
    \<and> st_pending_request_count (wk_state s) = 0 \<and> handlers_closed s \<and> wk_start_task s = StartEnded \<and> st_conn_init (wk_state s) = None
    \<and> (\<forall>s'. worker_step codec apps post ci cfg False s s' \<longrightarrow> st_conn_state (wk_state s') = CS_CLOSED
          \<and> xh_tasks (xs_handler (wk_exec s')) = xh_tasks (xs_handler (wk_exec s)))"
proof -
  have "wk_closed s' \<and> xh_tasks (xs_handler (wk_exec s')) = xh_tasks (xs_handler (wk_exec s))"
    if "worker_step codec apps post ci cfg False s s'" for s'
    using worker_step_keeps [OF that worker_inv_reachable [OF assms(1)]] assms(2) unfolding worker_keeps_def by blast
  with closed_worker [OF assms] show ?thesis by blast
qed

section \<open>A run\<close>

text \<open>
  Some of the worker's steps as a function: \<open>try_move\<close> takes a step when its guard holds.  A script of such moves shows
  that a state can be reached by computing it.
\<close>

datatype move = MRun nat | MLost | MUser | MPause | MPaused | MCloseEnd | MStart "exc + (exc + http_response)" | MFrame bytes | MTask
  | MInit | MHeart | MHand | MExec | MDrain

definition worker_guard :: "bool \<Rightarrow> 'w worker \<Rightarrow> 'w worker option" where
  "worker_guard b s = (if b then Some s else None)"

fun run_move :: "nat \<Rightarrow> 'w worker \<Rightarrow> 'w worker option" where
  "run_move ws s = (case wk_run s of
     RunNotStarted \<Rightarrow> Some ((start_handlers s)\<lparr>wk_run := RunHead\<rparr>)
   | RunHead \<Rightarrow> Some (if allow_reconnect (wk_state s) then s\<lparr>wk_run := RunAwaitEndpoint\<rparr> else run_finally None s)
   | RunAwaitEndpoint \<Rightarrow> (case gateway_endpoint (wk_state s) of
         Some (Inr (endpoint, closing)) \<Rightarrow> worker_guard (\<not> closing) (s\<lparr>wk_run := RunConnecting endpoint\<rparr>)
       | _ \<Rightarrow> None)
   | RunConnecting endpoint \<Rightarrow> Some ((map_state (\<lambda>st. st\<lparr>st_ws := Some ws\<rparr>) s)\<lparr>wk_run := RunConnected, wk_messages := True, wk_conn_changed := False\<rparr>)
   | RunConnected \<Rightarrow> if wk_conn_changed s then Some (s\<lparr>wk_run := RunSettling\<rparr>) else None
   | RunSettling \<Rightarrow> Some (s\<lparr>wk_run := RunAwaitMessages\<rparr>)
   | RunAwaitMessages \<Rightarrow> worker_guard (\<not> wk_messages s) (s\<lparr>wk_run := RunHead\<rparr>)
   | RunClosing e \<Rightarrow> worker_guard (handlers_closed s) (run_stop e s)
   | _ \<Rightarrow> None)"

lemma run_move_step: "run_move ws s = Some s' \<Longrightarrow> run_step False s s'"
  using run_step.loop [of s False] run_step.stopped [of s _ False]
  by (cases "wk_run s")
    (auto simp: worker_guard_def split: if_splits option.splits sum.splits
      intro: run_step.start run_step.endpoint run_step.connected run_step.conn_init_changed run_step.settled run_step.messages_ended)

fun try_move :: "codec \<Rightarrow> string set \<Rightarrow> (string \<Rightarrow> comm_request \<Rightarrow> 'w \<Rightarrow> (exc + comm_response) \<times> 'w) \<Rightarrow> conn_init_config
    \<Rightarrow> handshake_config \<Rightarrow> move \<Rightarrow> 'w worker \<Rightarrow> 'w worker option" where
  "try_move codec apps post ci cfg (MRun ws) s = run_move ws s"
| "try_move codec apps post ci cfg MLost s = worker_guard (wk_messages s) (disconnect s)"
| "try_move codec apps post ci cfg MUser s = Some (user_close True s)"
| "try_move codec apps post ci cfg MPause s =
     worker_guard (0 < length (wk_close_tasks s) \<and> wk_close_tasks s ! 0 = CloseScheduled \<and> wk_run s \<noteq> RunNotStarted)
       (if st_ws (wk_state s) = None then close_begin 0 s else s\<lparr>wk_close_tasks := (wk_close_tasks s)[0 := ClosePausing]\<rparr>)"
| "try_move codec apps post ci cfg MPaused s =
     worker_guard (0 < length (wk_close_tasks s) \<and> wk_close_tasks s ! 0 = ClosePausing) (close_begin 0 s)"
| "try_move codec apps post ci cfg MCloseEnd s =
     worker_guard (0 < length (wk_close_tasks s) \<and> wk_close_tasks s ! 0 = CloseWaiting \<and> handlers_closed s) (close_end 0 s)"
| "try_move codec apps post ci cfg (MStart ans) s =
     (if wk_run s = RunNotStarted then None else start_task_step codec ci ans s)"
| "try_move codec apps post ci cfg (MFrame raw) s = worker_guard (wk_messages s) (handle_frame codec apps cfg raw s)"
| "try_move codec apps post ci cfg MTask s =
     (if wk_run s \<noteq> RunNotStarted \<and> 0 < length (xh_tasks (xs_handler (wk_exec s)))
      then map_option (\<lambda>x. s\<lparr>wk_exec := x\<rparr>) (exec_step codec post 0 SendOk 0 (wk_exec s)) else None)"
| "try_move codec apps post ci cfg MInit s =
     (if wk_run s = RunNotStarted then None
      else map_option (\<lambda>b. (if bh_close_task b = Some CloseFinished then cancel_start_task s else s)\<lparr>wk_conn_init := b\<rparr>)
        (close_sequence_step (drained s) (wk_conn_init s)))"
| "try_move codec apps post ci cfg MHeart s =
     (if wk_run s = RunNotStarted then None
      else map_option (\<lambda>b. (if bh_close_task b = Some CloseFinished then s\<lparr>wk_heartbeat_task := cancel_heartbeat (wk_heartbeat_task s)\<rparr>
          else s)\<lparr>wk_heartbeat := b\<rparr>) (close_sequence_step (drained s) (wk_heartbeat s)))"
| "try_move codec apps post ci cfg MHand s =
     (if wk_run s = RunNotStarted then None
      else map_option (\<lambda>b. s\<lparr>wk_handshake := (if bh_close_task b = Some CloseFinished then cancel_send_data_task (wk_handshake s)
          else wk_handshake s)\<lparr>hk_base := b\<rparr>\<rparr>) (close_sequence_step (drained s) (hk_base (wk_handshake s))))"
| "try_move codec apps post ci cfg MExec s =
     (if wk_run s = RunNotStarted then None
      else map_option (\<lambda>b. map_exec (\<lambda>x. (if bh_close_task b = Some CloseFinished then cancel_exec_tasks x else x)\<lparr>xh_base := b\<rparr>) s)
        (close_sequence_step (drained s) (xh_base (xs_handler (wk_exec s)))))"
| "try_move codec apps post ci cfg MDrain s =
     (if wk_run s = RunNotStarted then None
      else map_option (\<lambda>b. s\<lparr>wk_drain := b\<rparr>) (close_sequence_step (drained s) (wk_drain s)))"

lemma worker_guard_Some [simp]: "worker_guard b s = Some s' \<longleftrightarrow> b \<and> s' = s"
  by (auto simp: worker_guard_def)

lemma user_move: "note_reset s (user_close loop s) = user_close loop s"
  by (intro worker.equality) (auto simp: note_reset_def user_close_def map_state_def Let_def)

lemma try_move_step:
  assumes "try_move codec apps post ci cfg mv s = Some s'" and user: "mv \<noteq> MUser"
  shows "thread_step codec apps post ci cfg False s (note_reset s s')"
proof -
  have closing: "thread_step codec apps post ci cfg False s (note_reset s s')" if "close_step False s s'"
    using that by (rule thread_step.close)
  have handler: "thread_step codec apps post ci cfg False s (note_reset s s1)" if "handler_step codec post ci cfg s s1" "wk_run s \<noteq> RunNotStarted" for s1
    using that(2,1) by (rule thread_step.handler)
  show ?thesis
  proof (cases mv)
    case (MRun ws)
    with assms show ?thesis by (intro thread_step.run run_move_step) simp
  next
    case MLost
    with assms show ?thesis by (auto intro!: thread_step.lost)
  next
    case MUser
    with user show ?thesis by simp
  next
    case MPause
    with assms closing close_step.pause [of 0 s] show ?thesis by simp
  next
    case MPaused
    with assms closing close_step.paused [of 0 s] show ?thesis by simp
  next
    case MCloseEnd
    with assms closing close_step.close_ended [of 0 s] show ?thesis by simp
  next
    case (MStart ans)
    with assms handler [OF handler_step.start_request] show ?thesis by (simp split: if_split_asm)
  next
    case (MFrame raw)
    with assms show ?thesis by (auto intro!: thread_step.frame)
  next
    case MTask
    with assms obtain x where "exec_step codec post 0 SendOk 0 (wk_exec s) = Some x" "s' = s\<lparr>wk_exec := x\<rparr>"
      "wk_run s \<noteq> RunNotStarted" "0 < length (xh_tasks (xs_handler (wk_exec s)))" by (auto split: if_split_asm)
    with handler [OF _ this(3)] handler_step.exec [OF exec_own_step.task] show ?thesis by blast
  next
    case MInit
    with assms obtain b where b: "close_sequence_step (drained s) (wk_conn_init s) = Some b" and started: "wk_run s \<noteq> RunNotStarted"
      by (cases "wk_run s = RunNotStarted") auto
    from MInit assms b handler [OF handler_step.close_conn_init [OF b] started] show ?thesis by (simp add: started)
  next
    case MHeart
    with assms obtain b where b: "close_sequence_step (drained s) (wk_heartbeat s) = Some b" and started: "wk_run s \<noteq> RunNotStarted"
      by (cases "wk_run s = RunNotStarted") auto
    from MHeart assms b handler [OF handler_step.close_heartbeat [OF b] started] show ?thesis by (simp add: started)
  next
    case MHand
    with assms obtain b where b: "close_sequence_step (drained s) (hk_base (wk_handshake s)) = Some b" and started: "wk_run s \<noteq> RunNotStarted"
      by (cases "wk_run s = RunNotStarted") auto
    from MHand assms b handler [OF handler_step.close_handshake [OF b] started] show ?thesis by (simp add: started)
  next
    case MExec
    with assms obtain b where b: "close_sequence_step (drained s) (xh_base (xs_handler (wk_exec s))) = Some b" and started: "wk_run s \<noteq> RunNotStarted"
      by (cases "wk_run s = RunNotStarted") auto
    from MExec assms b handler [OF handler_step.close_exec [OF b] started] show ?thesis by (simp add: started)
  next
    case MDrain
    with assms obtain b where b: "close_sequence_step (drained s) (wk_drain s) = Some b" and started: "wk_run s \<noteq> RunNotStarted"
      by (cases "wk_run s = RunNotStarted") auto
    from MDrain assms b handler [OF handler_step.close_drain [OF b] started] show ?thesis by (simp add: started)
  qed
qed

fun moves :: "codec \<Rightarrow> string set \<Rightarrow> (string \<Rightarrow> comm_request \<Rightarrow> 'w \<Rightarrow> (exc + comm_response) \<times> 'w) \<Rightarrow> conn_init_config
    \<Rightarrow> handshake_config \<Rightarrow> move list \<Rightarrow> 'w worker \<Rightarrow> 'w worker option" where
  "moves codec apps post ci cfg [] s = Some s"
| "moves codec apps post ci cfg (mv # mvs) s =
     (case try_move codec apps post ci cfg mv s of None \<Rightarrow> None | Some s' \<Rightarrow> moves codec apps post ci cfg mvs (note_reset s s'))"

lemma moves_reachable:
  "moves codec apps post ci cfg mvs s = Some s' \<Longrightarrow> worker_reachable codec apps post ci cfg False s \<Longrightarrow>
    worker_reachable codec apps post ci cfg False s'"
proof (induction mvs arbitrary: s)
  case (Cons mv mvs)
  then obtain s1 where s1: "try_move codec apps post ci cfg mv s = Some s1" "moves codec apps post ci cfg mvs (note_reset s s1) = Some s'"
    by (auto split: option.splits)
  have "worker_step codec apps post ci cfg False s (note_reset s s1)"
    by (cases "mv = MUser")
      (use s1(1) try_move_step [OF s1(1)] worker_step.user [of codec apps post ci cfg False s True] in \<open>auto simp: user_move intro: worker_step.thread\<close>)
  from Cons.IH [OF s1(2) worker_reachable.step [OF Cons.prems(2) this]] show ?case .
qed simp

text \<open>
  The worker connects, a request arrives and runs, the user closes, and the handlers drain while the request is still
  being answered.
\<close>

definition demo_script :: "move list" where
  "demo_script = [MRun 0, MStart (Inl (Exception [])), MStart (Inl (Exception [])), MStart (Inl (Exception [])),
     MStart (Inr (Inr \<lparr>hp_status = 200, hp_text = [], hp_json = Inr PNone, hp_content = ''c''\<rparr>)),
     MRun 0, MRun 0, MRun 5, MFrame ''f'', MTask, MTask, MTask, MUser, MPause, MTask, MPaused, MTask, MTask, MTask,
     MInit, MHeart, MHand, MExec, MDrain, MInit, MHeart, MHand, MExec, MDrain, MCloseEnd]"

definition demo_start :: "nat worker" where
  "demo_start = map_exec (\<lambda>x. x\<lparr>xh_main_loop_set := True\<rparr>) (worker_init 0)"

definition demo_end :: "nat worker" where
  "demo_end = the (moves demo_codec {''app''} demo_post demo_conn_init demo_handshake demo_script demo_start)"

lemma demo_end_reachable: "worker_reachable demo_codec {''app''} demo_post demo_conn_init demo_handshake False demo_end"
proof -
  have "moves demo_codec {''app''} demo_post demo_conn_init demo_handshake demo_script demo_start \<noteq> None" by code_simp
  then have "moves demo_codec {''app''} demo_post demo_conn_init demo_handshake demo_script demo_start = Some demo_end"
    by (auto simp: demo_end_def)
  from moves_reachable [OF this] show ?thesis by (simp add: demo_start_def worker_reachable.init)
qed

theorem shutdown_is_graceful_witness:
  "length (xh_tasks (xs_handler (wk_exec demo_end))) = 1 \<and> xs_world (wk_exec demo_end) = 1
    \<and> (\<exists>c. et_pc (xh_tasks (xs_handler (wk_exec demo_end)) ! 0) = Finished c) \<and> handlers_closed demo_end"
proof -
  have "st_conn_state (wk_state demo_end) = CS_CLOSED" by code_simp
  moreover have n: "length (xh_tasks (xs_handler (wk_exec demo_end))) = 1" "xs_world (wk_exec demo_end) = 1" by code_simp+
  moreover have "xh_tasks (xs_handler (wk_exec demo_end)) ! 0 \<in> set (xh_tasks (xs_handler (wk_exec demo_end)))"
    using n(1) by (intro nth_mem) simp
  ultimately show ?thesis using shutdown_is_graceful [OF demo_end_reachable] by blast
qed

end
