(* ===== verification/Connection.thy ===== *)
theory Connection
  imports WorkerProps CommProps
begin

text \<open>
  \<open>connect/_internal/connection.py\<close> and \<open>connect.py\<close>: the construction of a \<open>WorkerConnectionImpl\<close> from the apps, and
  what the main thread does with the worker's thread: starting it, closing it, and waiting for its end.
\<close>

section \<open>Options\<close>

record connect_options =
  co_instance_id :: "string option"
  co_rewrite_gateway_endpoint :: "(string \<Rightarrow> exc + string) option"
  co_shutdown_signals :: "string list option"
  co_max_worker_concurrency :: "int option"
  co_heartbeat_interval_sec :: "int option"
  co_extend_lease_interval :: "int option"

definition DEFAULT_SHUTDOWN_SIGNALS :: "string list" where
  "DEFAULT_SHUTDOWN_SIGNALS = [''SIGINT'', ''SIGTERM'']"

definition get_max_worker_concurrency :: "environ \<Rightarrow> int option" where
  "get_max_worker_concurrency env = get_int env EK_CONNECT_MAX_WORKER_CONCURRENCY"

text \<open>What the constructor reads of its surroundings; \<open>pe_handshake\<close> has the encoders and system attributes.\<close>

record 'u process_env =
  pe_environ :: environ
  pe_http :: "'u outside http"
  pe_hostname :: string
  pe_in_main_thread :: bool
  pe_handshake :: handshake_config

section \<open>The constructor\<close>

record 'u connection_setup =
  cn_api_origin :: string
  cn_signing_key :: "string option"
  cn_fallback_signing_key :: "string option"
  cn_comm_handlers :: "(string, 'u comm_handler) dict"
  cn_app_configs :: "(string, app_config) dict"
  cn_instance_id :: string
  cn_max_worker_concurrency :: "int option"
  cn_conn_init :: conn_init_config
  cn_heartbeat_interval_sec :: int
  cn_handshake :: handshake_config
  cn_handled_signals :: "string list"

text \<open>The apps have to agree with the first client.\<close>

definition check_app :: "'u client \<Rightarrow> 'u client \<Rightarrow> exc + unit" where
  "check_app default_client client =
     (if cl_api_origin client \<noteq> cl_api_origin default_client then Inl (Exception ''inconsistent app config: API base URL'')
      else if cl_env client \<noteq> cl_env default_client then Inl (Exception ''inconsistent app config: env'')
      else if cl_mode client \<noteq> cl_mode default_client then Inl (Exception ''inconsistent app config: mode'')
      else if cl_signing_key client \<noteq> cl_signing_key default_client then Inl (Exception ''inconsistent app config: signing key'')
      else Inr ())"

fun add_apps :: "'u process_env \<Rightarrow> 'u client \<Rightarrow> ('u client \<times> 'u inngest_fn list) list
    \<Rightarrow> (string, app_config) dict \<times> (string, 'u comm_handler) dict
    \<Rightarrow> exc + (string, app_config) dict \<times> (string, 'u comm_handler) dict" where
  "add_apps pe default_client [] acc = Inr acc"
| "add_apps pe default_client ((client, fns) # apps) (configs, handlers) =
     bindE (check_app default_client client) (\<lambda>_.
     bindE (get_function_configs ''wss://connect'' (foldl (\<lambda>d fn. dset d (fn_id fn) fn) [] fns)) (\<lambda>r.
     bindE r (\<lambda>fn_configs.
     bindE (CommHandler_init (pe_environ pe) (pe_http pe) client FW_CONNECT fns (Some ST_DISABLE)) (\<lambda>handler.
     add_apps pe default_client apps
       (dset configs (cl_app_id client) \<lparr>ap_functions = fn_configs, ap_version = cl_app_version client\<rparr>,
        dset handlers (cl_app_id client) handler)))))"

definition WorkerConnection_init :: "'u process_env \<Rightarrow> connect_options \<Rightarrow> ('u client \<times> 'u inngest_fn list) list
    \<Rightarrow> exc + 'u connection_setup" where
  "WorkerConnection_init pe opts apps =
     (case apps of
        [] \<Rightarrow> Inl (Exception ''no apps provided'')
      | (default_client, _) # _ \<Rightarrow>
          (let signing_key = (if cl_mode default_client = SK_CLOUD then cl_signing_key default_client else None);
               fallback = (if cl_mode default_client = SK_CLOUD then cl_signing_key_fallback default_client else None);
               signals = (case co_shutdown_signals opts of None \<Rightarrow> DEFAULT_SHUTDOWN_SIGNALS | Some s \<Rightarrow> s)
           in bindE (add_apps pe default_client apps ([], [])) (\<lambda>(configs, handlers).
              let instance_id = (case co_instance_id opts of None \<Rightarrow> pe_hostname pe | Some i \<Rightarrow> i);
                  max_concurrency = (case co_max_worker_concurrency opts of
                    None \<Rightarrow> get_max_worker_concurrency (pe_environ pe) | Some n \<Rightarrow> Some n)
              in Inr \<lparr>cn_api_origin = cl_api_origin default_client, cn_signing_key = signing_key,
                   cn_fallback_signing_key = fallback, cn_comm_handlers = handlers, cn_app_configs = configs,
                   cn_instance_id = instance_id, cn_max_worker_concurrency = max_concurrency,
                   cn_conn_init = \<lparr>ci_api_origin = cl_api_origin default_client, ci_env = cl_env default_client,
                     ci_signing_key = signing_key, ci_signing_key_fallback = fallback,
                     ci_rewrite_gateway_endpoint = co_rewrite_gateway_endpoint opts\<rparr>,
                   cn_heartbeat_interval_sec = (case co_heartbeat_interval_sec opts of
                     None \<Rightarrow> HEARTBEAT_INTERVAL_SEC | Some n \<Rightarrow> if n = 0 then HEARTBEAT_INTERVAL_SEC else n),
                   cn_handshake = (pe_handshake pe)\<lparr>hc_app_configs := configs, hc_env := cl_env default_client,
                     hc_instance_id := instance_id, hc_max_worker_concurrency := max_concurrency,
                     hc_extend_lease_interval := co_extend_lease_interval opts\<rparr>,
                   cn_handled_signals = (if pe_in_main_thread pe then signals else [])\<rparr>)))"

text \<open>\<open>connect\<close>: the overrides of the tests come from a context variable.\<close>

definition connect :: "'u process_env \<Rightarrow> (int option \<times> int option) option \<Rightarrow> connect_options
    \<Rightarrow> ('u client \<times> 'u inngest_fn list) list \<Rightarrow> exc + 'u connection_setup" where
  "connect pe overrides opts apps =
     (case (case overrides of Some o' \<Rightarrow> o' | None \<Rightarrow> (None, None)) of
        (extend_lease_interval, heartbeat_interval_sec) \<Rightarrow>
          WorkerConnection_init pe (opts\<lparr>co_extend_lease_interval := extend_lease_interval,
            co_heartbeat_interval_sec := heartbeat_interval_sec\<rparr>) apps)"

section \<open>What a constructed connection serves\<close>

lemma bindE_Inr: "bindE r f = Inr y \<longleftrightarrow> (\<exists>x. r = Inr x \<and> f x = Inr y)"
  by (cases r) (simp_all add: bindE_def)

lemma check_app_Inr: "check_app d c = Inr u \<longleftrightarrow> cl_api_origin c = cl_api_origin d \<and> cl_env c = cl_env d
    \<and> cl_mode c = cl_mode d \<and> cl_signing_key c = cl_signing_key d"
  by (simp add: check_app_def)

text \<open>An app's entries in the two dictionaries come from one of the given apps.\<close>

definition app_entries :: "'u process_env \<Rightarrow> string \<Rightarrow> app_config \<Rightarrow> 'u comm_handler \<Rightarrow> bool" where
  "app_entries pe app config h = (\<exists>client fns. cl_app_id client = app \<and> ap_version config = cl_app_version client
     \<and> get_function_configs ''wss://connect'' (foldl (\<lambda>d fn. dset d (fn_id fn) fn) [] fns) = Inr (Inr (ap_functions config))
     \<and> CommHandler_init (pe_environ pe) (pe_http pe) client FW_CONNECT fns (Some ST_DISABLE) = Inr h)"

definition paired :: "'u process_env \<Rightarrow> (string, app_config) dict \<Rightarrow> (string, 'u comm_handler) dict \<Rightarrow> bool" where
  "paired pe configs handlers = (\<forall>app. (case (dget configs app, dget handlers app) of
     (None, None) \<Rightarrow> True | (Some config, Some h) \<Rightarrow> app_entries pe app config h | _ \<Rightarrow> False))"

lemma pairedD:
  assumes "paired pe configs handlers" and "dget configs app = Some config"
  obtains h where "dget handlers app = Some h" "app_entries pe app config h"
  using assms(1) [unfolded paired_def, THEN spec, of app] assms(2) that by (auto split: option.splits)

lemma paired_dset:
  assumes "paired pe configs handlers" and "app_entries pe app config h"
  shows "paired pe (dset configs app config) (dset handlers app h)"
  using assms by (auto simp: paired_def dget_dset)

lemma add_apps_Inr:
  assumes "add_apps pe d apps (configs, handlers) = Inr (configs', handlers')" and "paired pe configs handlers"
  shows "paired pe configs' handlers'" "\<forall>(client, fns)\<in>set apps. check_app d client = Inr ()"
    "set (dkeys configs') = set (dkeys configs) \<union> cl_app_id ` fst ` set apps"
    "set (dkeys handlers') = set (dkeys handlers) \<union> cl_app_id ` fst ` set apps"
proof -
  have "paired pe configs' handlers' \<and> (\<forall>(client, fns)\<in>set apps. check_app d client = Inr ())
    \<and> set (dkeys configs') = set (dkeys configs) \<union> cl_app_id ` fst ` set apps
    \<and> set (dkeys handlers') = set (dkeys handlers) \<union> cl_app_id ` fst ` set apps"
    using assms
  proof (induction apps arbitrary: configs handlers)
    case (Cons a apps)
    obtain client fns where a: "a = (client, fns)" by (cases a)
    from Cons.prems(1) obtain fn_configs h where step: "check_app d client = Inr ()"
      "get_function_configs ''wss://connect'' (foldl (\<lambda>d fn. dset d (fn_id fn) fn) [] fns) = Inr (Inr fn_configs)"
      "CommHandler_init (pe_environ pe) (pe_http pe) client FW_CONNECT fns (Some ST_DISABLE) = Inr h"
      "add_apps pe d apps (dset configs (cl_app_id client) \<lparr>ap_functions = fn_configs, ap_version = cl_app_version client\<rparr>,
        dset handlers (cl_app_id client) h) = Inr (configs', handlers')"
      by (auto simp: a bindE_Inr)
    have "app_entries pe (cl_app_id client) \<lparr>ap_functions = fn_configs, ap_version = cl_app_version client\<rparr> h"
      using step(2,3) by (auto simp: app_entries_def)
    from Cons.IH [OF step(4) paired_dset [OF Cons.prems(2) this]] step(1) show ?case
      by (auto simp: a dkeys_dset dhas_def)
  qed simp
  then show "paired pe configs' handlers'" "\<forall>(client, fns)\<in>set apps. check_app d client = Inr ()"
    "set (dkeys configs') = set (dkeys configs) \<union> cl_app_id ` fst ` set apps"
    "set (dkeys handlers') = set (dkeys handlers) \<union> cl_app_id ` fst ` set apps" by blast+
qed

text \<open>A configuration that \<open>get_function_configs\<close> gives is that of a function, or of its failure handler.\<close>

lemma collect_configs_serves:
  assumes "collect_configs url fns configs = Inr configs'" and "c \<in> set configs'"
  shows "c \<in> set configs \<or> (\<exists>fn\<in>set fns. serves (fc_id c) fn)"
  using assms
proof (induction fns arbitrary: configs)
  case (Cons fn fns)
  from Cons.prems(1) obtain cfg where cfg: "get_config fn url = Inr cfg"
    "collect_configs url fns (configs @ [cfg_main cfg] @ (case cfg_on_failure cfg of None \<Rightarrow> [] | Some c \<Rightarrow> [c])) = Inr configs'"
    by (auto simp: bindE_Inr)
  have "serves (fc_id (cfg_main cfg)) fn" "cfg_on_failure cfg = Some c' \<Longrightarrow> serves (fc_id c') fn" for c'
    using cfg(1) by (auto simp: get_config_def Let_def bindE_Inr serves_def get_id_def split: option.splits)
  with Cons.IH [OF cfg(2) Cons.prems(2)] show ?case by (auto split: option.splits)
qed simp

lemma find_exists: "x \<in> set xs \<Longrightarrow> P x \<Longrightarrow> \<exists>y. find P xs = Some y \<and> y \<in> set xs \<and> P y"
  by (induction xs) auto

lemma announced_served:
  assumes "app_entries pe app config h" and "c \<in> set (ap_functions config)"
  obtains fn where "get_function h (fc_id c) = Inr fn" "serves (fc_id c) fn" "cl_app_id (ch_client h) = app"
proof -
  from assms(1) obtain client fns where e: "cl_app_id client = app"
    "get_function_configs ''wss://connect'' (foldl (\<lambda>d fn. dset d (fn_id fn) fn) [] fns) = Inr (Inr (ap_functions config))"
    "CommHandler_init (pe_environ pe) (pe_http pe) client FW_CONNECT fns (Some ST_DISABLE) = Inr h"
    unfolding app_entries_def by blast
  from e(3) have h: "ch_client h = client" "ch_fns h = foldl (\<lambda>d fn. dset d (fn_id fn) fn) [] fns"
    by (auto simp: CommHandler_init_def Let_def get_id_def split: if_splits)
  from e(2) have "collect_configs ''wss://connect'' (dvalues (ch_fns h)) [] = Inr (ap_functions config)"
    by (auto simp: get_function_configs_def h(2) bindE_Inr split: if_splits)
  from collect_configs_serves [OF this assms(2)] obtain fn where "fn \<in> set (dvalues (ch_fns h))" "serves (fc_id c) fn" by auto
  from find_exists [of fn _ "serves (fc_id c)", OF this] obtain g where "find (serves (fc_id c)) (dvalues (ch_fns h)) = Some g" "serves (fc_id c) g"
    by blast
  then show thesis using that e(1) h(1) by (simp add: get_function_def)
qed

lemma WorkerConnection_init_Inr:
  assumes "WorkerConnection_init pe opts apps = Inr c"
  obtains d fns rest where "apps = (d, fns) # rest" "add_apps pe d apps ([], []) = Inr (cn_app_configs c, cn_comm_handlers c)"
    "hc_app_configs (cn_handshake c) = cn_app_configs c" "cn_api_origin c = cl_api_origin d" "hc_env (cn_handshake c) = cl_env d"
    "ci_env (cn_conn_init c) = cl_env d" "ci_api_origin (cn_conn_init c) = cl_api_origin d"
    "cn_signing_key c = (if cl_mode d = SK_CLOUD then cl_signing_key d else None)"
    "cn_fallback_signing_key c = (if cl_mode d = SK_CLOUD then cl_signing_key_fallback d else None)"
    "ci_signing_key (cn_conn_init c) = cn_signing_key c" "ci_signing_key_fallback (cn_conn_init c) = cn_fallback_signing_key c"
  using assms by (cases apps) (auto simp: WorkerConnection_init_def Let_def bindE_Inr split: prod.splits)

text \<open>C14: What a connection announces it can run.  When the constructor accepts the apps, there is at least one app and all
  agree on the API origin, the environment, the mode and the signing key that the connection uses for the gateway (which
  exists in cloud mode only); the handshake announces, and the executor dispatches to, exactly the given app identifiers;
  and for every function configuration announced under an app, the handler of that app finds a function that has that
  identifier, as its own or as that of its failure handler.\<close>

theorem announced_functions_are_served:
  assumes "WorkerConnection_init pe opts apps = Inr c"
  shows "apps \<noteq> []
    \<and> (\<forall>(client, fns)\<in>set apps. cl_api_origin client = cn_api_origin c \<and> cl_env client = hc_env (cn_handshake c)
      \<and> (if cl_mode client = SK_CLOUD then cl_signing_key client = cn_signing_key c
         else cn_signing_key c = None \<and> cn_fallback_signing_key c = None))
    \<and> set (dkeys (hc_app_configs (cn_handshake c))) = cl_app_id ` fst ` set apps
    \<and> set (dkeys (cn_comm_handlers c)) = cl_app_id ` fst ` set apps
    \<and> (\<forall>app config f. dget (hc_app_configs (cn_handshake c)) app = Some config \<longrightarrow> f \<in> set (ap_functions config) \<longrightarrow>
      (\<exists>h fn. dget (cn_comm_handlers c) app = Some h \<and> cl_app_id (ch_client h) = app \<and> get_function h (fc_id f) = Inr fn
        \<and> (get_id fn = fc_id f \<or> fn_on_failure_fn_id fn = Some (fc_id f))))"
proof -
  obtain d fns' rest where init: "apps = (d, fns') # rest" "add_apps pe d apps ([], []) = Inr (cn_app_configs c, cn_comm_handlers c)"
    "hc_app_configs (cn_handshake c) = cn_app_configs c" "cn_api_origin c = cl_api_origin d" "hc_env (cn_handshake c) = cl_env d"
    "cn_signing_key c = (if cl_mode d = SK_CLOUD then cl_signing_key d else None)"
    "cn_fallback_signing_key c = (if cl_mode d = SK_CLOUD then cl_signing_key_fallback d else None)"
    using assms by (rule WorkerConnection_init_Inr)
  have "paired pe [] []" by (simp add: paired_def)
  note added = add_apps_Inr [OF init(2) this]
  have "\<exists>h fn. dget (cn_comm_handlers c) app = Some h \<and> cl_app_id (ch_client h) = app \<and> get_function h (fc_id f) = Inr fn
        \<and> (get_id fn = fc_id f \<or> fn_on_failure_fn_id fn = Some (fc_id f))"
    if "dget (hc_app_configs (cn_handshake c)) app = Some config" "f \<in> set (ap_functions config)" for app config f
  proof -
    from pairedD [OF added(1)] that(1) obtain h where h: "dget (cn_comm_handlers c) app = Some h" "app_entries pe app config h"
      unfolding init(3) by blast
    from announced_served [OF h(2) that(2)] obtain fn where "get_function h (fc_id f) = Inr fn" "serves (fc_id f) fn"
      "cl_app_id (ch_client h) = app" .
    with h(1) show ?thesis by (auto simp: serves_def)
  qed
  moreover have "\<forall>(client, fns)\<in>set apps. cl_api_origin client = cn_api_origin c \<and> cl_env client = hc_env (cn_handshake c)
      \<and> (if cl_mode client = SK_CLOUD then cl_signing_key client = cn_signing_key c
         else cn_signing_key c = None \<and> cn_fallback_signing_key c = None)"
    using added(2) by (auto simp: init(3-) check_app_Inr)
  moreover have "set (dkeys (hc_app_configs (cn_handshake c))) = cl_app_id ` fst ` set apps"
    "set (dkeys (cn_comm_handlers c)) = cl_app_id ` fst ` set apps"
    using added(3,4) by (simp_all add: init(3) dkeys_def)
  ultimately show ?thesis by (simp add: init(1))
qed

section \<open>The main thread\<close>

text \<open>
  Where \<open>start\<close> stands, and where each call of \<open>close(wait=True)\<close> or \<open>closed\<close> stands; the worker's event loop exists from
  \<open>start\<close> on, and its thread runs until \<open>run\<close> has ended.  \<open>start\<close> is called once.
\<close>

datatype main_pc = MainIdle | MainAwaitClosed | MainJoining | MainReturned "exc option"

datatype closer_pc = CloserAwaitClosed | CloserJoining | CloserReturned

datatype loop_state = NoLoop | LoopOpen | LoopClosed

datatype thread_state = NoThread | ThreadRunning | ThreadEnded

record 'w connection =
  cx_worker :: "'w worker"
  cx_loop :: loop_state
  cx_thread :: thread_state
  cx_thread_exc :: "exc option"
  cx_main :: main_pc
  cx_closers :: "closer_pc list"
  cx_http_open :: bool
  cx_http_sync_open :: bool

definition connection_init :: "'w \<Rightarrow> 'w connection" where
  "connection_init w = \<lparr>cx_worker = worker_init w, cx_loop = NoLoop, cx_thread = NoThread, cx_thread_exc = None,
     cx_main = MainIdle, cx_closers = [], cx_http_open = True, cx_http_sync_open = True\<rparr>"

abbreviation cx_state :: "'w connection \<Rightarrow> connection_state" where
  "cx_state c \<equiv> st_conn_state (wk_state (cx_worker c))"

definition get_connection_id :: "'w connection \<Rightarrow> exc + string" where
  "get_connection_id c = (case st_conn_id (wk_state (cx_worker c)) of
     None \<Rightarrow> Inl (Exception ''connection not established'') | Some i \<Rightarrow> Inr i)"

definition get_state :: "'w connection \<Rightarrow> connection_state" where
  "get_state c = cx_state c"

text \<open>\<open>start\<close> up to its first \<open>await\<close>.\<close>

definition set_main_loop :: "'w worker \<Rightarrow> 'w worker" where
  "set_main_loop s = map_exec (\<lambda>x. x\<lparr>xh_main_loop_set := True\<rparr>) s"

definition connection_start :: "'w connection \<Rightarrow> 'w connection" where
  "connection_start c = c\<lparr>cx_worker := set_main_loop (cx_worker c), cx_loop := LoopOpen, cx_thread := ThreadRunning,
     cx_main := MainAwaitClosed\<rparr>"

text \<open>The end of the thread: \<open>run_connect\<close> after \<open>run\<close> has returned or raised, and \<open>_shutdown_loop\<close>.\<close>

definition thread_end :: "exc option \<Rightarrow> 'w connection \<Rightarrow> 'w connection" where
  "thread_end e c = c\<lparr>cx_thread_exc := e,
     cx_worker := (if e \<noteq> None \<and> cx_state c \<noteq> CS_CLOSED
       then map_state (\<lambda>st. st\<lparr>st_conn_state := CS_CLOSED\<rparr>) (cx_worker c) else cx_worker c),
     cx_loop := LoopClosed, cx_thread := ThreadEnded\<rparr>"

text \<open>\<open>_close\<close>, which signal handlers call too; a closed loop refuses the call, and the refusal is passed over.\<close>

definition connection_close :: "'w connection \<Rightarrow> 'w connection" where
  "connection_close c = c\<lparr>cx_worker := user_close (cx_loop c = LoopOpen) (cx_worker c)\<rparr>"

inductive connection_step :: "codec \<Rightarrow> string set \<Rightarrow> (string \<Rightarrow> comm_request \<Rightarrow> 'w \<Rightarrow> (exc + comm_response) \<times> 'w) \<Rightarrow> conn_init_config
    \<Rightarrow> handshake_config \<Rightarrow> bool \<Rightarrow> 'w connection \<Rightarrow> 'w connection \<Rightarrow> bool" for codec apps post ci cfg timeouts where
  start: "cx_main c = MainIdle \<Longrightarrow> connection_step codec apps post ci cfg timeouts c (connection_start c)"
| thread: "cx_thread c = ThreadRunning \<Longrightarrow> thread_step codec apps post ci cfg timeouts (cx_worker c) s \<Longrightarrow>
      connection_step codec apps post ci cfg timeouts c (c\<lparr>cx_worker := s\<rparr>)"
| thread_end: "cx_thread c = ThreadRunning \<Longrightarrow> wk_run (cx_worker c) = RunStopped e \<Longrightarrow>
      connection_step codec apps post ci cfg timeouts c (thread_end e c)"
| closed: "cx_main c = MainAwaitClosed \<Longrightarrow> cx_state c = CS_CLOSED \<Longrightarrow>
      connection_step codec apps post ci cfg timeouts c (c\<lparr>cx_main := MainJoining\<rparr>)"
| joined: "cx_main c = MainJoining \<Longrightarrow> cx_thread c = ThreadEnded \<Longrightarrow> connection_step codec apps post ci cfg timeouts c
      (c\<lparr>cx_http_open := False, cx_http_sync_open := False, cx_main := MainReturned (cx_thread_exc c)\<rparr>)"
| close: "connection_step codec apps post ci cfg timeouts c (connection_close c)"
| close_wait: "connection_step codec apps post ci cfg timeouts c
      (c\<lparr>cx_closers := cx_closers c @ [CloserAwaitClosed]\<rparr>)"
| closer_closed: "i < length (cx_closers c) \<Longrightarrow> cx_closers c ! i = CloserAwaitClosed \<Longrightarrow> cx_state c = CS_CLOSED \<Longrightarrow>
      connection_step codec apps post ci cfg timeouts c
        (c\<lparr>cx_closers := (cx_closers c)[i := (if cx_thread c = NoThread then CloserReturned else CloserJoining)]\<rparr>)"
| closer_joined: "i < length (cx_closers c) \<Longrightarrow> cx_closers c ! i = CloserJoining \<Longrightarrow> cx_thread c = ThreadEnded \<Longrightarrow>
      connection_step codec apps post ci cfg timeouts c (c\<lparr>cx_closers := (cx_closers c)[i := CloserReturned]\<rparr>)"

inductive connection_reachable :: "codec \<Rightarrow> string set \<Rightarrow> (string \<Rightarrow> comm_request \<Rightarrow> 'w \<Rightarrow> (exc + comm_response) \<times> 'w)
    \<Rightarrow> conn_init_config \<Rightarrow> handshake_config \<Rightarrow> bool \<Rightarrow> 'w connection \<Rightarrow> bool" for codec apps post ci cfg timeouts where
  init: "connection_reachable codec apps post ci cfg timeouts (connection_init w)"
| step: "connection_reachable codec apps post ci cfg timeouts c \<Longrightarrow> connection_step codec apps post ci cfg timeouts c c' \<Longrightarrow>
      connection_reachable codec apps post ci cfg timeouts c'"

section \<open>The connection as a worker\<close>

text \<open>Only \<open>run\<close> moves the program counter of \<open>run\<close>.\<close>

lemma run_untouched [simp]:
  "wk_run (map_exec f s) = wk_run s" "wk_run (close_handlers s) = wk_run s" "wk_run (note_reset s' s) = wk_run s"
  "wk_run (user_close loop s) = wk_run s" "wk_run (disconnect s) = wk_run s" "wk_run (put_hs h s) = wk_run s"
  "wk_run (dispatch codec apps cfg kind payload auth conn_id s) = wk_run s"
  by (simp_all add: map_exec_def close_handlers_def note_reset_def user_close_def disconnect_def put_hs_def dispatch_def Let_def
      split: prod.splits)

lemma handle_frame_run [simp]: "wk_run (handle_frame codec apps cfg raw s) = wk_run s"
  by (simp add: handle_frame_def split: option.splits sum.splits prod.splits message_kind.splits)

lemma close_step_run: "close_step timeouts s s' \<Longrightarrow> wk_run s' = wk_run s"
  by (auto elim!: close_step.cases simp: close_begin_def close_end_def)

lemma start_task_step_run: "start_task_step codec ci ans s = Some s' \<Longrightarrow> wk_run s' = wk_run s"
  by (auto simp: start_task_step_def Let_def split: start_pc.splits option.splits prod.splits if_splits)

lemma handler_step_run: "handler_step codec post ci cfg s s' \<Longrightarrow> wk_run s' = wk_run s"
  by (auto elim!: handler_step.cases simp: start_task_step_run cancel_start_task_def)

lemma run_step_stopped: "run_step timeouts s s' \<Longrightarrow> wk_run s' = RunStopped e \<Longrightarrow> wk_closed s'"
  by (auto elim!: run_step.cases simp: run_finally_def run_stop_def map_state_def close_ws_def allow_reconnect_def Let_def split: if_splits)

lemma run_step_not_stopped: "run_step timeouts s s' \<Longrightarrow> wk_run s \<noteq> RunStopped e"
  by (auto elim!: run_step.cases)

lemma thread_step_stopped:
  assumes "thread_step codec apps post ci cfg timeouts s s'" and "wk_run s' = RunStopped e"
  shows "wk_run s = RunStopped e \<or> wk_closed s'"
  using assms
proof cases
  case (run s1)
  then show ?thesis using run_step_stopped [of timeouts s s1 e] assms(2) by (simp add: note_reset_def)
next
  case (close s1)
  with assms(2) close_step_run [OF close(2)] show ?thesis by simp
next
  case (handler s1)
  with assms(2) handler_step_run [OF handler(3)] show ?thesis by simp
qed (use assms(2) in simp_all)

text \<open>A worker that has stopped is \<open>CLOSED\<close>.\<close>

lemma stopped_closed:
  "worker_reachable codec apps post ci cfg False s \<Longrightarrow> wk_run s = RunStopped e \<Longrightarrow> wk_closed s"
proof (induction rule: worker_reachable.induct)
  case (init w)
  then show ?case by (simp add: worker_init_def map_exec_def)
next
  case (step s s')
  show ?case
  proof (cases "wk_run s = RunStopped e")
    case True
    with step.IH worker_step_keeps [OF step.hyps(2) worker_inv_reachable [OF step.hyps(1)]] show ?thesis
      by (simp add: worker_keeps_def)
  next
    case False
    from step.hyps(2) show ?thesis
    proof cases
      case (user loop)
      with False step.prems show ?thesis by simp
    next
      case thread
      with False thread_step_stopped [OF thread step.prems] show ?thesis by blast
    qed
  qed
qed

definition connection_inv :: "codec \<Rightarrow> string set \<Rightarrow> (string \<Rightarrow> comm_request \<Rightarrow> 'w \<Rightarrow> (exc + comm_response) \<times> 'w) \<Rightarrow> conn_init_config
    \<Rightarrow> handshake_config \<Rightarrow> 'w connection \<Rightarrow> bool" where
  "connection_inv codec apps post ci cfg c = (
     worker_reachable codec apps post ci cfg False (if cx_main c = MainIdle then set_main_loop (cx_worker c) else cx_worker c)
     \<and> (cx_main c = MainIdle \<longleftrightarrow> cx_thread c = NoThread)
     \<and> (cx_loop c = LoopOpen \<longleftrightarrow> cx_thread c = ThreadRunning)
     \<and> (cx_main c = MainIdle \<longrightarrow> wk_run (cx_worker c) = RunNotStarted)
     \<and> (cx_thread c = ThreadEnded \<longrightarrow> wk_run (cx_worker c) = RunStopped (cx_thread_exc c))
     \<and> (\<forall>e. cx_main c = MainReturned e \<longrightarrow> cx_thread c = ThreadEnded \<and> e = cx_thread_exc c \<and> \<not> cx_http_open c \<and> \<not> cx_http_sync_open c)
     \<and> (CloserReturned \<in> set (cx_closers c) \<longrightarrow> cx_thread c = ThreadEnded))"

lemma set_main_loop_close: "set_main_loop (user_close loop s) = user_close loop (set_main_loop s)"
  by (simp add: set_main_loop_def user_close_def map_exec_def map_state_def Let_def)

lemma set_main_loop_run [simp]: "wk_run (set_main_loop s) = wk_run s" "wk_closed (set_main_loop s) = wk_closed s"
  by (simp_all add: set_main_loop_def map_exec_def)

lemma connection_inv_init: "connection_inv codec apps post ci cfg (connection_init w)"
  by (simp add: connection_inv_def connection_init_def set_main_loop_def worker_reachable.init)
    (simp add: worker_init_def)

lemma thread_end_worker:
  assumes "connection_inv codec apps post ci cfg c" and "cx_thread c = ThreadRunning" and "wk_run (cx_worker c) = RunStopped e"
  shows "thread_end e c = c\<lparr>cx_thread_exc := e, cx_loop := LoopClosed, cx_thread := ThreadEnded\<rparr>"
proof -
  have "worker_reachable codec apps post ci cfg False (cx_worker c)" using assms by (simp add: connection_inv_def split: if_splits)
  from stopped_closed [OF this assms(3)] show ?thesis by (simp add: thread_end_def)
qed

lemma connection_inv_started: "connection_inv codec apps post ci cfg c \<Longrightarrow> cx_thread c \<noteq> NoThread \<Longrightarrow>
    worker_reachable codec apps post ci cfg False (cx_worker c) \<and> cx_main c \<noteq> MainIdle"
  by (auto simp: connection_inv_def)

lemma idle_not_closed: "connection_inv codec apps post ci cfg c \<Longrightarrow> cx_state c = CS_CLOSED \<Longrightarrow> cx_thread c \<noteq> NoThread"
  using worker_inv_D(2) [OF worker_inv_reachable, of codec apps post ci cfg "set_main_loop (cx_worker c)"]
  by (auto simp: connection_inv_def)

lemma connection_inv_step:
  assumes "connection_step codec apps post ci cfg False c c'" and inv: "connection_inv codec apps post ci cfg c"
  shows "connection_inv codec apps post ci cfg c'"
  using assms(1)
proof (cases rule: connection_step.cases)
  case start
  with inv show ?thesis by (auto simp: connection_inv_def connection_start_def)
next
  case (thread s)
  from connection_inv_started [OF inv] thread(2) have "worker_reachable codec apps post ci cfg False (cx_worker c)" by simp
  from worker_reachable.step [OF this worker_step.thread [OF thread(3)]] inv thread show ?thesis
    by (auto simp: connection_inv_def)
next
  case (thread_end e)
  with inv show ?thesis unfolding thread_end(1) thread_end_worker [OF inv thread_end(2,3)] by (auto simp: connection_inv_def)
next
  case close
  have "worker_reachable codec apps post ci cfg False (user_close loop s)" if "worker_reachable codec apps post ci cfg False s" for loop s
    using worker_reachable.step [OF that worker_step.user] .
  with inv show ?thesis by (auto simp: close connection_inv_def connection_close_def set_main_loop_close)
next
  case (closer_closed i)
  with inv idle_not_closed [OF inv] set_update_subset_insert [of "cx_closers c" i CloserJoining] show ?thesis
    by (auto simp: connection_inv_def)
next
  case (closer_joined i)
  with inv show ?thesis by (auto simp: connection_inv_def)
qed (use inv in \<open>auto simp: connection_inv_def\<close>)

lemma connection_inv_reachable: "connection_reachable codec apps post ci cfg False c \<Longrightarrow> connection_inv codec apps post ci cfg c"
proof (induction rule: connection_reachable.induct)
  case (init w)
  show ?case by (rule connection_inv_init)
next
  case (step c c')
  from connection_inv_step [OF step.hyps(2) step.IH] show ?case .
qed

text \<open>C11: \<open>start\<close> returns only when everything has come to an end.  When no shutdown timeout fires and \<open>await connection.start()\<close>
  has returned or raised, the connection is \<open>CLOSED\<close>, the worker's thread has ended and its event loop is closed, both HTTP
  clients are closed, every request that was accepted has run to its end, none is pending, and all handlers are closed;
  what \<open>start\<close> raises is what \<open>run\<close> raised.  Nothing changes the worker any more: closing again has no effect.\<close>

theorem start_returns_when_closed:
  assumes "connection_reachable codec apps post ci cfg False c" and "cx_main c = MainReturned e"
  shows "cx_state c = CS_CLOSED \<and> cx_thread c = ThreadEnded \<and> cx_loop c \<noteq> LoopOpen \<and> \<not> cx_http_open c \<and> \<not> cx_http_sync_open c
    \<and> wk_run (cx_worker c) = RunStopped e
    \<and> (\<forall>task\<in>set (xh_tasks (xs_handler (wk_exec (cx_worker c)))). \<exists>r. et_pc task = Finished r)
    \<and> st_pending_request_count (wk_state (cx_worker c)) = 0 \<and> handlers_closed (cx_worker c)
    \<and> (\<forall>c'. connection_step codec apps post ci cfg False c c' \<longrightarrow> cx_worker c' = cx_worker c \<and> cx_main c' = cx_main c)"
proof -
  note inv = connection_inv_reachable [OF assms(1)]
  have ended: "cx_thread c = ThreadEnded" "e = cx_thread_exc c" "\<not> cx_http_open c" "\<not> cx_http_sync_open c" "cx_loop c \<noteq> LoopOpen"
    using inv assms(2) by (auto simp: connection_inv_def)
  have run: "wk_run (cx_worker c) = RunStopped e" using inv ended by (simp add: connection_inv_def)
  have reach: "worker_reachable codec apps post ci cfg False (cx_worker c)" using connection_inv_started [OF inv] ended(1) by simp
  note closed = stopped_closed [OF reach run]
  have "cx_worker c' = cx_worker c \<and> cx_main c' = cx_main c" if "connection_step codec apps post ci cfg False c c'" for c'
    using that
    by (cases rule: connection_step.cases) (use ended assms(2) closed in \<open>simp_all add: connection_close_def user_close_def\<close>)
  with ended run closed closed_worker [OF reach closed] show ?thesis by blast
qed

text \<open>What \<open>close(wait=True)\<close> and \<open>closed\<close> promise.\<close>

lemma close_waits:
  assumes "connection_reachable codec apps post ci cfg False c" and "CloserReturned \<in> set (cx_closers c)"
  shows "cx_state c = CS_CLOSED \<and> cx_thread c = ThreadEnded"
proof -
  note inv = connection_inv_reachable [OF assms(1)]
  then have "cx_thread c = ThreadEnded" "wk_run (cx_worker c) = RunStopped (cx_thread_exc c)" using assms(2) by (simp_all add: connection_inv_def)
  with stopped_closed connection_inv_started [OF inv] show ?thesis by auto
qed

text \<open>A \<open>close\<close> before \<open>start\<close> schedules nothing: it leaves a state that the start request overwrites.\<close>

lemma close_before_start:
  assumes "cx_loop c = NoLoop" and "cx_state c = CS_CONNECTING"
  shows "wk_close_tasks (cx_worker (connection_start (connection_close c))) = wk_close_tasks (cx_worker c)"
    "cx_state (connection_start (connection_close c)) = CS_CLOSING"
  using assms by (simp_all add: connection_start_def connection_close_def user_close_def set_main_loop_def map_exec_def map_state_def Let_def)

section \<open>A connection from its start to its end\<close>

lemma moves_connection:
  "moves codec apps post ci cfg mvs (cx_worker c) = Some s' \<Longrightarrow> connection_reachable codec apps post ci cfg False c \<Longrightarrow>
    cx_thread c = ThreadRunning \<Longrightarrow> cx_loop c = LoopOpen \<Longrightarrow>
    connection_reachable codec apps post ci cfg False (c\<lparr>cx_worker := s'\<rparr>)"
proof (induction mvs arbitrary: c)
  case (Cons mv mvs)
  then obtain s1 where s1: "try_move codec apps post ci cfg mv (cx_worker c) = Some s1"
    "moves codec apps post ci cfg mvs (note_reset (cx_worker c) s1) = Some s'"
    by (auto split: option.splits)
  let ?c = "c\<lparr>cx_worker := note_reset (cx_worker c) s1\<rparr>"
  have "connection_step codec apps post ci cfg False c ?c"
  proof (cases "mv = MUser")
    case True
    with s1(1) Cons.prems(4) have "?c = connection_close c" by (auto simp: user_move connection_close_def)
    then show ?thesis by (simp add: connection_step.close)
  next
    case False
    from connection_step.thread [OF Cons.prems(3) try_move_step [OF s1(1) False]] show ?thesis .
  qed
  from Cons.IH [of ?c, OF _ connection_reachable.step [OF Cons.prems(2) this]] s1(2) Cons.prems(3,4) show ?case by simp
qed auto

definition demo_stop_script :: "move list" where
  "demo_stop_script = demo_script @ [MRun 0, MRun 0, MLost, MRun 0, MRun 0, MRun 0]"

definition demo_stopped :: "nat worker" where
  "demo_stopped = the (moves demo_codec {''app''} demo_post demo_conn_init demo_handshake demo_stop_script demo_start)"

definition demo_joining :: "nat connection" where
  "demo_joining = (connection_start (connection_init 0))\<lparr>cx_worker := demo_stopped, cx_main := MainJoining\<rparr>"

definition demo_returned :: "nat connection" where
  "demo_returned = (thread_end None demo_joining)\<lparr>cx_http_open := False, cx_http_sync_open := False,
     cx_main := MainReturned (cx_thread_exc (thread_end None demo_joining))\<rparr>"

lemma demo_stopped_facts:
  "moves demo_codec {''app''} demo_post demo_conn_init demo_handshake demo_stop_script demo_start = Some demo_stopped"
  "wk_run demo_stopped = RunStopped None" "wk_closed demo_stopped" "length (xh_tasks (xs_handler (wk_exec demo_stopped))) = 1"
proof -
  have "moves demo_codec {''app''} demo_post demo_conn_init demo_handshake demo_stop_script demo_start \<noteq> None" by code_simp
  then show "moves demo_codec {''app''} demo_post demo_conn_init demo_handshake demo_stop_script demo_start = Some demo_stopped"
    by (auto simp: demo_stopped_def)
  show "wk_run demo_stopped = RunStopped None" "wk_closed demo_stopped" "length (xh_tasks (xs_handler (wk_exec demo_stopped))) = 1"
    by code_simp+
qed

lemma demo_returned_reachable: "connection_reachable demo_codec {''app''} demo_post demo_conn_init demo_handshake False demo_returned"
proof -
  let ?r = "connection_reachable demo_codec {''app''} demo_post demo_conn_init demo_handshake False"
  let ?c = "connection_start (connection_init (0::nat))"
  have "?r ?c" by (rule connection_reachable.step [OF connection_reachable.init connection_step.start]) (simp add: connection_init_def)
  moreover have "cx_worker ?c = demo_start" "cx_thread ?c = ThreadRunning" "cx_loop ?c = LoopOpen"
    by (simp_all add: connection_start_def connection_init_def set_main_loop_def demo_start_def)
  ultimately have "?r (?c\<lparr>cx_worker := demo_stopped\<rparr>)" using moves_connection [of _ _ _ _ _ _ ?c] demo_stopped_facts(1) by simp
  then have joining: "?r demo_joining"
    by (rule connection_reachable.step, unfold demo_joining_def, intro connection_step.closed [of "?c\<lparr>cx_worker := demo_stopped\<rparr>", simplified])
      (simp_all add: connection_start_def demo_stopped_facts)
  have "?r (thread_end None demo_joining)"
    by (rule connection_reachable.step [OF joining], rule connection_step.thread_end)
      (simp_all add: demo_joining_def connection_start_def demo_stopped_facts)
  then show ?thesis unfolding demo_returned_def
    by (rule connection_reachable.step, intro connection_step.joined)
      (simp_all add: demo_joining_def connection_start_def thread_end_def)
qed

theorem start_returns_when_closed_witness:
  "cx_main demo_returned = MainReturned None \<and> cx_state demo_returned = CS_CLOSED
    \<and> (\<exists>r. et_pc (xh_tasks (xs_handler (wk_exec (cx_worker demo_returned))) ! 0) = Finished r)
    \<and> connection_close demo_returned = demo_returned"
proof -
  have main: "cx_main demo_returned = MainReturned None" by (simp add: demo_returned_def thread_end_def)
  have "cx_worker demo_returned = demo_stopped" by (simp add: demo_returned_def thread_end_def demo_joining_def)
  then have "xh_tasks (xs_handler (wk_exec (cx_worker demo_returned))) ! 0 \<in> set (xh_tasks (xs_handler (wk_exec (cx_worker demo_returned))))"
    using demo_stopped_facts(4) by (intro nth_mem) simp
  moreover have "cx_worker (connection_close demo_returned) = cx_worker demo_returned"
    using start_returns_when_closed [OF demo_returned_reachable main] connection_step.close by blast
  then have "connection_close demo_returned = demo_returned" by (simp add: connection_close_def)
  ultimately show ?thesis using start_returns_when_closed [OF demo_returned_reachable main] main by blast
qed

section \<open>A construction\<close>

definition demo_process :: "string list process_env" where
  "demo_process = \<lparr>pe_environ = (\<lambda>k. None), pe_http = dead_http, pe_hostname = ''host'', pe_in_main_thread = True,
     pe_handshake = demo_handshake\<rparr>"

definition demo_connect_options :: connect_options where
  "demo_connect_options = \<lparr>co_instance_id = None, co_rewrite_gateway_endpoint = None, co_shutdown_signals = None,
     co_max_worker_concurrency = None, co_heartbeat_interval_sec = None, co_extend_lease_interval = None\<rparr>"

definition demo_apps :: "(string list client \<times> string list inngest_fn list) list" where
  "demo_apps = [(demo_client\<lparr>cl_signing_key := Some ''k''\<rparr>,
     [(demo_fn (\<lambda>e ctx. retM (PInt 1)))\<lparr>fn_on_failure_fn_id := Some ''app-fn-failure''\<rparr>])]"

theorem announced_functions_are_served_witness:
  "\<exists>c h fn. WorkerConnection_init demo_process demo_connect_options demo_apps = Inr c \<and> cn_signing_key c = Some ''k''
    \<and> set (dkeys (cn_comm_handlers c)) = {''app''} \<and> dget (cn_comm_handlers c) ''app'' = Some h
    \<and> get_function h ''app-fn-failure'' = Inr fn"
proof -
  obtain c where c: "WorkerConnection_init demo_process demo_connect_options demo_apps = Inr c" "cn_signing_key c = Some ''k''"
    "map (\<lambda>(app, config). (app, map fc_id (ap_functions config))) (hc_app_configs (cn_handshake c)) = [(''app'', [''app-fn'', ''app-fn-failure''])]"
    by (simp add: WorkerConnection_init_def demo_apps_def demo_process_def demo_connect_options_def demo_client_def check_app_def
        get_function_configs_def get_config_def demo_fn_def demo_opts_def CommHandler_init_def Let_def dvalues_def)
  then obtain config where config: "hc_app_configs (cn_handshake c) = [(''app'', config)]"
    "map fc_id (ap_functions config) = [''app-fn'', ''app-fn-failure'']" by (auto simp: map_eq_Cons_conv)
  have "''app-fn-failure'' \<in> set (map fc_id (ap_functions config))" unfolding config(2) by simp
  then obtain f where f: "f \<in> set (ap_functions config)" "fc_id f = ''app-fn-failure''" by auto
  have lookup: "dget (hc_app_configs (cn_handshake c)) ''app'' = Some config" by (simp add: config(1))
  note served = announced_functions_are_served [OF c(1)]
  from served [THEN conjunct2, THEN conjunct2, THEN conjunct2, THEN conjunct2, rule_format, OF lookup f(1)]
  obtain h fn where "dget (cn_comm_handlers c) ''app'' = Some h" "get_function h (fc_id f) = Inr fn" by (elim exE conjE) (rule that)
  moreover have "set (dkeys (cn_comm_handlers c)) = {''app''}"
    using served [THEN conjunct2, THEN conjunct2, THEN conjunct2, THEN conjunct1] by (simp add: demo_apps_def demo_client_def)
  ultimately show ?thesis using c(1,2) f(2) by auto
qed

end
