(* ===== verification/Fairness.thy ===== *)
theory Fairness
  imports Main
begin

text \<open>
  Executions of a step relation as sequences of states, fairness, and the principle by which liveness is proved: a rank
  that no step raises, with a step that lowers it as long as the goal is not reached.
\<close>

text \<open>An execution may pause; only fairness makes it go on.\<close>

definition execution :: "('s \<Rightarrow> 's \<Rightarrow> bool) \<Rightarrow> (nat \<Rightarrow> 's) \<Rightarrow> bool" where
  "execution step \<sigma> = (\<forall>n. step (\<sigma> n) (\<sigma> (Suc n)) \<or> \<sigma> (Suc n) = \<sigma> n)"

text \<open>When a step of the relation \<open>move\<close> can be taken, then one is taken sooner or later.\<close>

definition fair :: "('s \<Rightarrow> 's \<Rightarrow> bool) \<Rightarrow> (nat \<Rightarrow> 's) \<Rightarrow> bool" where
  "fair move \<sigma> = (\<forall>n. (\<exists>s'. move (\<sigma> n) s') \<longrightarrow> (\<exists>m\<ge>n. move (\<sigma> m) (\<sigma> (Suc m))))"

text \<open>A step that lowers the rank.\<close>

definition lowers :: "('s \<Rightarrow> 's \<Rightarrow> bool) \<Rightarrow> ('s \<Rightarrow> nat) \<Rightarrow> 's \<Rightarrow> 's \<Rightarrow> bool" where
  "lowers step rank s s' = (step s s' \<and> rank s' < rank s)"

lemma execution_invariant:
  assumes "execution step \<sigma>" and "I (\<sigma> n)" and "\<And>s s'. I s \<Longrightarrow> step s s' \<Longrightarrow> I s'" and "n \<le> m"
  shows "I (\<sigma> m)"
  using assms(4)
proof (induction m rule: dec_induct)
  case base
  show ?case by (rule assms(2))
next
  case (step m)
  from assms(1) have "step (\<sigma> m) (\<sigma> (Suc m)) \<or> \<sigma> (Suc m) = \<sigma> m" by (simp add: execution_def)
  then show ?case using assms(3) [OF step.IH] step.IH by auto
qed

locale ranked_progress =
  fixes step :: "'s \<Rightarrow> 's \<Rightarrow> bool" and I :: "'s \<Rightarrow> bool" and rank :: "'s \<Rightarrow> nat" and ready :: "'s \<Rightarrow> bool" and goal :: "'s \<Rightarrow> bool"
  assumes keeps: "I s \<Longrightarrow> step s s' \<Longrightarrow> I s'"
    and never_raises: "I s \<Longrightarrow> step s s' \<Longrightarrow> rank s' \<le> rank s"
    and goes_on: "I s \<Longrightarrow> ready s \<Longrightarrow> \<not> goal s \<Longrightarrow> \<exists>s'. lowers step rank s s'"
begin

lemma invariant_later: "execution step \<sigma> \<Longrightarrow> I (\<sigma> n) \<Longrightarrow> n \<le> m \<Longrightarrow> I (\<sigma> m)"
  by (rule execution_invariant) (use keeps in blast)+

lemma rank_later:
  assumes "execution step \<sigma>" and "I (\<sigma> n)" and "n \<le> m"
  shows "rank (\<sigma> m) \<le> rank (\<sigma> n)"
  using assms(3)
proof (induction m rule: dec_induct)
  case (step m)
  from assms(1) have "step (\<sigma> m) (\<sigma> (Suc m)) \<or> \<sigma> (Suc m) = \<sigma> m" by (simp add: execution_def)
  then show ?case using never_raises [OF invariant_later [OF assms(1,2) step.hyps(1)]] step.IH by fastforce
qed simp

text \<open>A fair execution that is ready again and again reaches its goal.\<close>

lemma reaches_goal:
  assumes exe: "execution step \<sigma>" and fair: "fair (lowers step rank) \<sigma>" and inv: "I (\<sigma> n)"
    and again: "\<And>k. n \<le> k \<Longrightarrow> \<exists>m\<ge>k. ready (\<sigma> m)"
  shows "\<exists>m\<ge>n. goal (\<sigma> m)"
  using inv again
proof (induction "rank (\<sigma> n)" arbitrary: n rule: less_induct)
  case less
  obtain m where m: "m \<ge> n" "ready (\<sigma> m)" using less.prems(2) [of n] by blast
  note inv_m = invariant_later [OF exe less.prems(1) m(1)]
  show ?case
  proof (cases "goal (\<sigma> m)")
    case False
    with goes_on [OF inv_m m(2)] fair obtain k where k: "k \<ge> m" "lowers step rank (\<sigma> k) (\<sigma> (Suc k))"
      unfolding fair_def by blast
    have "rank (\<sigma> (Suc k)) < rank (\<sigma> n)"
      using k rank_later [OF exe less.prems(1), of k] m(1) by (simp add: lowers_def)
    moreover have "I (\<sigma> (Suc k))" using invariant_later [OF exe less.prems(1), of "Suc k"] k m(1) by simp
    ultimately obtain j where "j \<ge> Suc k" "goal (\<sigma> j)" using less.hyps [of "Suc k"] less.prems(2) k(1) m(1) by fastforce
    then show ?thesis using k(1) m(1) by (intro exI [of _ j]) simp
  qed (use m in blast)
qed

end

end
