(* ===== verification/Closing.thy ===== *)
theory Closing
  imports Connection Fairness
begin

text \<open>
  How a connection comes to its end: what each step does to the close sequences of the handlers, to the close tasks and
  to the position of \<open>run\<close>, and from that two facts about \<open>close\<close>.  Once it was asked for, and when accepted
  requests come to an end, every fair execution ends the worker's thread and \<open>start\<close> returns, unless the change that
  \<open>run\<close> waits for was made before it began to wait.  And this exception is real: a close that ends while the WebSocket is
  being opened leaves \<open>run\<close> waiting for ever, and with it \<open>start\<close> and \<open>closed\<close>.
\<close>

section \<open>Stages\<close>

definition stage :: "base_handler \<Rightarrow> nat" where
  "stage b = (case bh_close_task b of Some CleaningUp \<Rightarrow> 1 | Some CloseFinished \<Rightarrow> 0 | _ \<Rightarrow> 2)"

text \<open>A handler that a step has moved on, or left alone.\<close>

definition later :: "base_handler \<Rightarrow> base_handler \<Rightarrow> bool" where
  "later b b' = (stage b' \<le> stage b \<and> (bh_close_task b \<noteq> None \<longrightarrow> bh_close_task b' \<noteq> None)
     \<and> ((stage b = 0 \<longrightarrow> closed_returns b) \<longrightarrow> stage b' = 0 \<longrightarrow> closed_returns b'))"

lemma stage_None [simp]: "bh_close_task b = None \<Longrightarrow> stage b = 2"
  by (simp add: stage_def)

lemma stage_le: "stage b \<le> 2"
  by (simp add: stage_def split: option.split close_stage.split)

lemma later_refl [simp]: "later b b"
  by (simp add: later_def)

lemma later_close [simp]: "later b (base_close b)"
  by (auto simp: later_def base_close_def stage_def closed_returns_def split: option.split)

lemma base_start_task [simp]: "bh_close_task (base_start b) = bh_close_task b" "stage (base_start b) = stage b"
  by (simp_all add: base_start_def stage_def split: option.split)

lemma later_start: "bh_close_task b = None \<Longrightarrow> later b (base_start b)"
  by (simp add: later_def)

lemma later_sequence:
  assumes "close_sequence_step d b = Some b'"
  shows "later b b'" "stage b' < stage b"
  using assms
  by (auto simp: close_sequence_step_def later_def stage_def closed_returns_def split: option.splits close_stage.splits if_splits)

text \<open>A close sequence that has begun and not ended goes on when nothing is pending.\<close>

lemma sequence_goes_on:
  assumes "bh_close_task b \<noteq> None" and "stage b \<noteq> 0"
  shows "\<exists>b'. close_sequence_step True b = Some b'"
  using assms by (cases "bh_close_task b") (auto simp: close_sequence_step_def stage_def split: close_stage.splits)

text \<open>What a step does to all handlers, when it leaves \<open>run\<close> and the close tasks alone.\<close>

definition bases_later :: "'w worker \<Rightarrow> 'w worker \<Rightarrow> bool" where
  "bases_later s s' = list_all2 later (worker_bases s) (worker_bases s')"

lemma bases_later_simp: "bases_later s s' \<longleftrightarrow> later (wk_conn_init s) (wk_conn_init s') \<and> later (wk_heartbeat s) (wk_heartbeat s')
    \<and> later (hk_base (wk_handshake s)) (hk_base (wk_handshake s'))
    \<and> later (xh_base (xs_handler (wk_exec s))) (xh_base (xs_handler (wk_exec s'))) \<and> later (wk_drain s) (wk_drain s')"
  by (simp add: bases_later_def worker_bases_def)

lemma bases_later_same: "worker_bases s' = worker_bases s \<Longrightarrow> bases_later s s'"
  by (simp add: bases_later_def list_all2_refl)

lemma bases_later_note_reset [simp]: "bases_later s (note_reset s1 s') = bases_later s s'"
  by (simp add: bases_later_def note_reset_def worker_bases_def)

definition aside :: "'w worker \<Rightarrow> 'w worker \<Rightarrow> bool" where
  "aside s s' = (bases_later s s' \<and> wk_run s' = wk_run s \<and> wk_close_tasks s' = wk_close_tasks s \<and> (wk_messages s' \<longrightarrow> wk_messages s)
     \<and> wk_conn_changed s' = wk_conn_changed s)"

lemma asideI:
  assumes "worker_bases s' = worker_bases s" and "wk_run s' = wk_run s" and "wk_close_tasks s' = wk_close_tasks s"
    and "wk_messages s' = wk_messages s" and "wk_conn_changed s' = wk_conn_changed s"
  shows "aside s s'"
  using assms by (simp add: aside_def bases_later_same)

lemma start_task_step_aside: "start_task_step codec ci ans s = Some s' \<Longrightarrow> aside s s'"
  by (rule asideI)
    (auto simp: start_task_step_def Let_def map_state_def worker_bases_def split: start_pc.splits option.splits prod.splits if_splits)

lemma handler_step_aside:
  assumes "handler_step codec post ci cfg s s'"
  shows "aside s s'"
  using assms
proof cases
  case (exec x)
  from exec_own_keeps [OF exec(2)] show ?thesis by (intro asideI) (simp_all add: exec(1) worker_bases_def)
next
  case (start_request ans)
  then show ?thesis by (rule start_task_step_aside)
next
  case (send_sync r h)
  from send_response_keeps(1) [OF send_sync(2)] show ?thesis
    by (intro asideI) (simp_all add: send_sync(1) put_hs_def hs_of_def worker_bases_def)
next
  case (close_conn_init b)
  with later_sequence(1) [OF close_conn_init(2)] show ?thesis
    by (simp add: aside_def bases_later_simp cancel_start_task_def)
next
  case (close_heartbeat b)
  with later_sequence(1) [OF close_heartbeat(2)] show ?thesis by (simp add: aside_def bases_later_simp)
next
  case (close_handshake b)
  with later_sequence(1) [OF close_handshake(2)] show ?thesis by (simp add: aside_def bases_later_simp)
next
  case (close_exec b)
  with later_sequence(1) [OF close_exec(2)] show ?thesis
    by (simp add: aside_def bases_later_simp map_exec_def cancel_exec_tasks_def)
next
  case (close_drain b)
  with later_sequence(1) [OF close_drain(2)] show ?thesis by (simp add: aside_def bases_later_simp)
qed (intro asideI; simp add: worker_bases_def reset_handshake_def)+


lemma disconnect_aside: "aside s (disconnect s)"
  by (simp add: aside_def bases_later_simp disconnect_def map_state_def)

lemma dispatch_aside: "aside s (dispatch codec apps cfg kind payload auth conn_id s)"
proof -
  obtain h st2 where h: "handshake_handle_msg codec cfg kind payload auth conn_id (wk_handshake s, heartbeat_handle_msg kind (wk_state s)) = (h, st2)"
    by fastforce
  obtain x st3 where x: "exec_handle_msg codec apps kind payload (xs_handler (wk_exec s), st2) = (x, st3)" by fastforce
  from handshake_handle_msg_keeps(1) [OF h] exec_handle_msg_keeps [OF x] show ?thesis
    by (intro asideI) (simp_all add: dispatch_def h x Let_def worker_bases_def)
qed

lemma handle_frame_aside: "aside s (handle_frame codec apps cfg raw s)"
proof -
  have stop: "aside s (s\<lparr>wk_messages := False\<rparr>)" "aside s s" by (simp_all add: aside_def bases_later_simp)
  have "aside s ((map_state close_ws s)\<lparr>wk_messages := False\<rparr>)" by (simp add: aside_def bases_later_simp map_state_def)
  with stop disconnect_aside dispatch_aside show ?thesis
    by (auto simp: handle_frame_def split: option.split sum.split prod.split message_kind.split)
qed

section \<open>The closing of the handlers\<close>

text \<open>
  Before \<open>run\<close> starts no message is read and no close sequence exists; a finished one has set its event; a close task that waits has begun
  those of all handlers, and one that has ended has closed the connection.
\<close>

definition closing_inv :: "'w worker \<Rightarrow> bool" where
  "closing_inv s = (worker_inv s \<and> (\<forall>b\<in>set (worker_bases s). stage b = 0 \<longrightarrow> closed_returns b)
     \<and> (wk_run s = RunNotStarted \<longrightarrow> \<not> wk_messages s \<and> (\<forall>b\<in>set (worker_bases s). bh_close_task b = None))
     \<and> (CloseWaiting \<in> set (wk_close_tasks s) \<longrightarrow> (\<forall>b\<in>set (worker_bases s). bh_close_task b \<noteq> None))
     \<and> (CloseDone \<in> set (wk_close_tasks s) \<longrightarrow> wk_closed s))"

lemma bases_later_closing:
  assumes "bases_later s s'"
  shows "(\<forall>b\<in>set (worker_bases s). stage b = 0 \<longrightarrow> closed_returns b) \<Longrightarrow> \<forall>b\<in>set (worker_bases s'). stage b = 0 \<longrightarrow> closed_returns b"
    "(\<forall>b\<in>set (worker_bases s). bh_close_task b \<noteq> None) \<Longrightarrow> \<forall>b\<in>set (worker_bases s'). bh_close_task b \<noteq> None"
  using assms by (simp_all add: bases_later_simp worker_bases_def later_def)

lemma bases_later_close_handlers: "bases_later s (close_handlers s)"
  "\<forall>b\<in>set (worker_bases (close_handlers s)). bh_close_task b \<noteq> None"
  by (simp_all add: bases_later_simp worker_bases_def close_handlers_def map_exec_def exec_close_def) (simp_all add: base_close_def)

lemma bases_later_run_finally: "bases_later s (run_finally e s)"
  using bases_later_close_handlers(1) [of s] by (simp add: run_finally_def bases_later_simp)

lemma run_step_bases:
  assumes "run_step timeouts s s'" and "closing_inv s"
  shows "bases_later s s'" "wk_close_tasks s' = wk_close_tasks s" "wk_run s' \<noteq> RunNotStarted"
proof -
  have fin: "wk_close_tasks (run_finally e s) = wk_close_tasks s" "wk_run (run_finally e s) \<noteq> RunNotStarted" for e
    by (simp_all add: run_finally_def)
  have state: "bases_later s s1" if "worker_bases s1 = worker_bases s" for s1 using that by (rule bases_later_same)
  have begin_: "bases_later s ((start_handlers s)\<lparr>wk_run := RunHead\<rparr>)" if "wk_run s = RunNotStarted"
    using that assms(2)
    by (simp add: closing_inv_def bases_later_simp worker_bases_def start_handlers_def map_exec_def exec_start_def handshake_start_def later_start)
  have started: "wk_close_tasks (start_handlers s) = wk_close_tasks s" by (simp add: start_handlers_def map_exec_def)
  have "bases_later s s' \<and> wk_close_tasks s' = wk_close_tasks s \<and> wk_run s' \<noteq> RunNotStarted"
    using assms(1)
  proof cases
    case start
    with begin_ started show ?thesis by simp
  qed (auto simp: fin bases_later_run_finally run_stop_def map_state_def worker_bases_def intro!: state)
  then show "bases_later s s'" "wk_close_tasks s' = wk_close_tasks s" "wk_run s' \<noteq> RunNotStarted" by blast+
qed


lemma note_reset_simps [simp]:
  "wk_close_tasks (note_reset s s') = wk_close_tasks s'" "wk_messages (note_reset s s') = wk_messages s'"
  "worker_bases (note_reset s s') = worker_bases s'" "wk_state (note_reset s s') = wk_state s'"
  "closing_inv (note_reset s s') = closing_inv s'"
  by (simp_all add: closing_inv_def) (simp_all add: note_reset_def worker_bases_def)

text \<open>The parts of the worker that a close step changes.\<close>

lemma close_begin_simps [simp]:
  "wk_state (close_begin i s) = wk_state s" "wk_run (close_begin i s) = wk_run s" "wk_messages (close_begin i s) = wk_messages s"
  "wk_close_tasks (close_begin i s) = (wk_close_tasks s)[i := CloseWaiting]"
  "worker_bases (close_begin i s) = worker_bases (close_handlers s)" "wk_conn_changed (close_begin i s) = wk_conn_changed s"
  by (simp_all add: close_begin_def worker_bases_def) (simp_all add: close_handlers_def map_exec_def)

lemma close_end_simps [simp]:
  "wk_closed (close_end i s)" "wk_run (close_end i s) = wk_run s" "wk_messages (close_end i s) = wk_messages s"
  "wk_close_tasks (close_end i s) = (wk_close_tasks s)[i := CloseDone]" "worker_bases (close_end i s) = worker_bases s"
  "wk_conn_changed (close_end i s) = wk_conn_changed s"
  by (simp_all add: close_end_def worker_bases_def map_state_def)

lemma close_step_bases:
  assumes "close_step False s s'"
  shows "bases_later s s'" "wk_run s' = wk_run s" "wk_messages s' = wk_messages s" "wk_conn_changed s' = wk_conn_changed s"
proof -
  have ends: "bases_later s (close_begin i s)" "bases_later s (close_end i s)" for i
    using bases_later_close_handlers(1) [of s] by (simp_all add: bases_later_def list_all2_refl)
  have tasks: "bases_later s (s\<lparr>wk_close_tasks := cs\<rparr>)" for cs by (simp add: bases_later_simp)
  from assms have "bases_later s s' \<and> wk_run s' = wk_run s \<and> wk_messages s' = wk_messages s \<and> wk_conn_changed s' = wk_conn_changed s"
    by cases (simp_all add: ends tasks)
  then show "bases_later s s'" "wk_run s' = wk_run s" "wk_messages s' = wk_messages s" "wk_conn_changed s' = wk_conn_changed s" by blast+
qed

lemma closing_inv_D:
  assumes "closing_inv s"
  shows "worker_inv s" "b \<in> set (worker_bases s) \<Longrightarrow> stage b = 0 \<Longrightarrow> closed_returns b"
    "wk_run s = RunNotStarted \<Longrightarrow> b \<in> set (worker_bases s) \<Longrightarrow> bh_close_task b = None"
    "CloseWaiting \<in> set (wk_close_tasks s) \<Longrightarrow> b \<in> set (worker_bases s) \<Longrightarrow> bh_close_task b \<noteq> None"
    "CloseDone \<in> set (wk_close_tasks s) \<Longrightarrow> wk_closed s" "wk_messages s \<Longrightarrow> wk_run s \<noteq> RunNotStarted"
  using assms unfolding closing_inv_def by blast+

text \<open>A step of a started worker keeps the invariant when the handlers move on and the close tasks stay in order.\<close>

lemma closing_inv_keeps:
  assumes inv: "closing_inv s" and keeps: "worker_keeps s s'" and bases: "bases_later s s'"
    and run: "wk_run s' = RunNotStarted \<longrightarrow> worker_bases s' = worker_bases s \<and> wk_run s = RunNotStarted \<and> (wk_messages s' \<longrightarrow> wk_messages s)"
    and waiting: "CloseWaiting \<in> set (wk_close_tasks s') \<longrightarrow> CloseWaiting \<in> set (wk_close_tasks s)
      \<or> (\<forall>b\<in>set (worker_bases s'). bh_close_task b \<noteq> None)"
    and done_: "CloseDone \<in> set (wk_close_tasks s') \<longrightarrow> CloseDone \<in> set (wk_close_tasks s) \<or> wk_closed s'"
  shows "closing_inv s'"
proof -
  have "worker_inv s'" "wk_closed s \<longrightarrow> wk_closed s'" using keeps by (simp_all add: worker_keeps_def)
  moreover have "\<forall>b\<in>set (worker_bases s'). stage b = 0 \<longrightarrow> closed_returns b"
    using bases_later_closing(1) [OF bases] closing_inv_D(2) [OF inv] by blast
  moreover have "\<forall>b\<in>set (worker_bases s'). bh_close_task b \<noteq> None" if "CloseWaiting \<in> set (wk_close_tasks s)"
    using bases_later_closing(2) [OF bases] closing_inv_D(4) [OF inv that] by blast
  ultimately show ?thesis
    using run waiting done_ closing_inv_D(3,5,6) [OF inv] unfolding closing_inv_def by metis
qed

lemma closing_inv_aside:
  assumes inv: "closing_inv s" and keeps: "worker_keeps s s'" and aside: "aside s s'" and started: "wk_run s \<noteq> RunNotStarted"
  shows "closing_inv s'"
  by (rule closing_inv_keeps [OF inv keeps]) (use aside started in \<open>simp_all add: aside_def\<close>)

lemma close_step_tasks:
  assumes "close_step False s s'" and inv: "closing_inv s"
  shows "closing_inv s'"
proof -
  note keeps = close_step_keeps [OF assms(1) closing_inv_D(1) [OF inv]] and same = close_step_bases [OF assms(1)]
  have scheduled: "wk_close_tasks s ! i = CloseScheduled" if "wk_run s = RunNotStarted" "i < length (wk_close_tasks s)" for i
    using worker_inv_D(3) [OF closing_inv_D(1) [OF inv] that(1)] nth_mem [OF that(2)] by blast
  have started: "wk_run s \<noteq> RunNotStarted"
    using assms(1) by cases (use scheduled in fastforce)+
  show ?thesis
  proof (rule closing_inv_keeps [OF inv keeps same(1)])
    show "wk_run s' = RunNotStarted \<longrightarrow> worker_bases s' = worker_bases s \<and> wk_run s = RunNotStarted \<and> (wk_messages s' \<longrightarrow> wk_messages s)" using started same(2) by simp
    show "CloseWaiting \<in> set (wk_close_tasks s') \<longrightarrow> CloseWaiting \<in> set (wk_close_tasks s)
        \<or> (\<forall>b\<in>set (worker_bases s'). bh_close_task b \<noteq> None)"
      using assms(1) bases_later_close_handlers(2) [of s] by cases (auto dest!: set_update_subset_insert [THEN subsetD])
    show "CloseDone \<in> set (wk_close_tasks s') \<longrightarrow> CloseDone \<in> set (wk_close_tasks s) \<or> wk_closed s'"
      using assms(1) by cases (auto dest!: set_update_subset_insert [THEN subsetD])
  qed
qed

lemma thread_step_closing_inv:
  assumes "thread_step codec apps post ci cfg False s s'" and inv: "closing_inv s"
  shows "closing_inv s'"
proof -
  note wi = closing_inv_D(1) [OF inv]
  from assms(1) show ?thesis
  proof cases
    case (run s1)
    have "closing_inv s1"
      by (rule closing_inv_keeps [OF inv run_step_keeps [OF run(2) wi] run_step_bases(1) [OF run(2) inv]])
        (use run_step_bases(2,3) [OF run(2) inv] in simp_all)
    then show ?thesis by (simp add: run(1))
  next
    case (close s1)
    from close_step_tasks [OF close(2) inv] show ?thesis by (simp add: close(1))
  next
    case (handler s1)
    from closing_inv_aside [OF inv handler_step_keeps [OF handler(3) wi] handler_step_aside [OF handler(3)] handler(2)] show ?thesis
      by (simp add: handler(1))
  next
    case (frame raw)
    from closing_inv_aside [OF inv handle_frame_keeps [OF wi] handle_frame_aside] frame closing_inv_D(6) [OF inv] show ?thesis by simp
  next
    case lost
    from closing_inv_aside [OF inv disconnect_keeps [OF wi] disconnect_aside] lost closing_inv_D(6) [OF inv] show ?thesis by simp
  qed
qed


lemma user_close_closing_inv:
  assumes "closing_inv s"
  shows "closing_inv (user_close loop s)"
proof -
  have "bases_later s (user_close loop s)" "worker_bases (user_close loop s) = worker_bases s"
    by (simp_all add: bases_later_simp user_close_def map_state_def Let_def worker_bases_def)
  then show ?thesis
    by (intro closing_inv_keeps [OF assms user_close_keeps [OF closing_inv_D(1) [OF assms]]])
      (auto simp: user_close_def map_state_def Let_def)
qed

lemma closing_inv_reachable: "worker_reachable codec apps post ci cfg False s \<Longrightarrow> closing_inv s"
proof (induction rule: worker_reachable.induct)
  case (init w)
  show ?case using worker_inv_reachable [OF worker_reachable.init]
    by (simp add: closing_inv_def worker_init_def map_exec_def worker_bases_def exec_init_def base_init_def handshake_init_def stage_def)
next
  case (step s s')
  from step.hyps(2) show ?case
    by cases (use step.IH user_close_closing_inv thread_step_closing_inv in auto)
qed

section \<open>How far the end is\<close>

text \<open>
  Once the connection is \<open>CLOSED\<close>, the position of \<open>run\<close> counts; before, what is left of the handlers' close sequences and
  of the close task that is furthest on.
\<close>

definition run_rank :: "'w worker \<Rightarrow> nat" where
  "run_rank s = (case wk_run s of RunConnecting endpoint \<Rightarrow> 9 | RunConnected \<Rightarrow> 8 | RunSettling \<Rightarrow> 7 | RunRetryDelay \<Rightarrow> 6
     | RunAwaitMessages \<Rightarrow> if wk_messages s then 4 else 3 | RunHead \<Rightarrow> 2 | RunAwaitEndpoint \<Rightarrow> 2 | RunClosing e \<Rightarrow> 1 | _ \<Rightarrow> 0)"

definition tasks_rank :: "close_pc list \<Rightarrow> nat" where
  "tasks_rank cs = (if CloseWaiting \<in> set cs then 0 else if ClosePausing \<in> set cs then 1 else 2)"

definition handlers_rank :: "'w worker \<Rightarrow> nat" where
  "handlers_rank s = sum_list (map stage (worker_bases s))"

definition worker_rank :: "'w worker \<Rightarrow> nat" where
  "worker_rank s = (if wk_closed s then run_rank s else 10 + tasks_rank (wk_close_tasks s) + handlers_rank s)"

lemma run_rank_le: "run_rank s \<le> 9"
  by (simp add: run_rank_def split: run_pc.split)

lemma handlers_rank_later: "bases_later s s' \<Longrightarrow> handlers_rank s' \<le> handlers_rank s"
  by (simp add: handlers_rank_def bases_later_simp worker_bases_def later_def)

lemma worker_rank_note_reset [simp]: "worker_rank (note_reset s s') = worker_rank s'"
  by (simp add: worker_rank_def run_rank_def handlers_rank_def)

lemma worker_rank_closes: "\<not> wk_closed s \<Longrightarrow> wk_closed s' \<Longrightarrow> worker_rank s' < worker_rank s"
  using run_rank_le [of s'] by (simp add: worker_rank_def)

text \<open>Steps that leave the close tasks alone, or move them on.\<close>

lemma worker_rank_le:
  assumes keeps: "worker_keeps s s'" and bases: "bases_later s s'"
    and tasks: "\<not> wk_closed s' \<Longrightarrow> tasks_rank (wk_close_tasks s') \<le> tasks_rank (wk_close_tasks s)"
    and run: "wk_closed s \<Longrightarrow> run_rank s' \<le> run_rank s"
  shows "worker_rank s' \<le> worker_rank s"
proof (cases "wk_closed s'")
  case True
  with run worker_rank_closes [of s s'] show ?thesis by (cases "wk_closed s") (simp_all add: worker_rank_def)
next
  case False
  then have "\<not> wk_closed s" using keeps by (auto simp: worker_keeps_def)
  with False tasks handlers_rank_later [OF bases] show ?thesis by (simp add: worker_rank_def add_mono)
qed

lemma run_rank_aside: "aside s s' \<Longrightarrow> run_rank s' \<le> run_rank s"
  by (simp add: aside_def run_rank_def split: run_pc.split)

lemma worker_rank_aside: "worker_keeps s s' \<Longrightarrow> aside s s' \<Longrightarrow> worker_rank s' \<le> worker_rank s"
  using run_rank_aside by (intro worker_rank_le) (simp_all add: aside_def)

lemma run_step_rank:
  assumes "run_step timeouts s s'" and "wk_closed s" and "wk_run s \<noteq> RunNotStarted"
  shows "run_rank s' < run_rank s"
proof -
  have fin: "run_rank (run_finally e s) = 1" for e by (simp add: run_finally_def run_rank_def)
  show ?thesis
    using assms(1)
    by cases (use assms(2,3) in \<open>auto simp: fin run_rank_def run_finally_def run_stop_def allow_reconnect_def gateway_endpoint_def map_state_def
        split: option.splits if_splits\<close>)
qed

text \<open>A close task only moves on.\<close>

lemma tasks_rank_update:
  assumes "i < length cs" and "cs ! i = CloseScheduled \<and> pc = ClosePausing \<or> pc = CloseWaiting"
  shows "tasks_rank (cs[i := pc]) \<le> tasks_rank cs"
proof -
  have "pc \<in> set (cs[i := pc])" using assms(1) by (rule set_update_memI)
  moreover have "x \<in> set (cs[i := pc])" if "x \<in> set cs" "x \<noteq> cs ! i" for x
    using that unfolding in_set_conv_nth by (metis length_list_update nth_list_update_neq)
  ultimately show ?thesis using assms(2) by (auto simp: tasks_rank_def)
qed

lemma thread_step_rank:
  assumes "thread_step codec apps post ci cfg False s s'" and inv: "closing_inv s"
  shows "worker_rank s' \<le> worker_rank s"
proof -
  note wi = closing_inv_D(1) [OF inv]
  from assms(1) show ?thesis
  proof cases
    case (run s1)
    from worker_rank_le [OF run_step_keeps [OF run(2) wi] run_step_bases(1) [OF run(2) inv]] run_step_rank [OF run(2)] worker_inv_D(2) [OF wi]
    show ?thesis by (auto simp: run(1) run_step_bases(2) [OF run(2) inv] intro: less_imp_le)
  next
    case (close s1)
    have "tasks_rank (wk_close_tasks s1) \<le> tasks_rank (wk_close_tasks s)" if "\<not> wk_closed s1"
      using close(2) by cases (use that in \<open>auto intro: tasks_rank_update\<close>)
    moreover have "run_rank s1 = run_rank s" using close_step_bases(2,3) [OF close(2)] by (simp add: run_rank_def)
    ultimately show ?thesis
      using worker_rank_le [OF close_step_keeps [OF close(2) wi] close_step_bases(1) [OF close(2)]] by (simp add: close(1))
  next
    case (handler s1)
    from worker_rank_aside [OF handler_step_keeps [OF handler(3) wi] handler_step_aside [OF handler(3)]] show ?thesis by (simp add: handler(1))
  next
    case (frame raw)
    from worker_rank_aside [OF handle_frame_keeps [OF wi] handle_frame_aside] show ?thesis by (simp add: frame(1))
  next
    case lost
    from worker_rank_aside [OF disconnect_keeps [OF wi] disconnect_aside] show ?thesis by (simp add: lost(1))
  qed
qed

lemma user_close_rank:
  assumes "closing_inv s"
  shows "worker_rank (user_close loop s) \<le> worker_rank s"
proof (rule worker_rank_le [OF user_close_keeps [OF closing_inv_D(1) [OF assms]]])
  show "bases_later s (user_close loop s)" by (simp add: bases_later_simp user_close_def map_state_def Let_def)
qed (auto simp: user_close_def map_state_def Let_def tasks_rank_def run_rank_def)

section \<open>The closing goes on\<close>

text \<open>
  The wait that \<open>conn_init.wait_for_change\<close> makes has missed the change that the end of the close made, which is the last.
\<close>

definition lost_wait :: "'w worker \<Rightarrow> bool" where
  "lost_wait s = (wk_run s = RunConnected \<and> \<not> wk_conn_changed s \<and> wk_closed s)"

lemma closed_run_goes_on:
  assumes inv: "closing_inv s" and closed: "wk_closed s" and "\<nexists>e. wk_run s = RunStopped e" and "\<not> lost_wait s"
  shows "\<exists>s'. lowers (thread_step codec apps post ci cfg False) worker_rank s s'"
proof -
  note wi = closing_inv_D(1) [OF inv]
  note started = worker_inv_D(2) [OF wi closed]
  have run: ?thesis if "run_step False s s1" for s1
  proof -
    from run_step_rank [OF that closed started] run_step_keeps [OF that wi] closed have "worker_rank s1 < worker_rank s"
      by (simp add: worker_rank_def worker_keeps_def)
    with thread_step.run [OF that, of codec apps post ci cfg] show ?thesis
      by (intro exI [of _ "note_reset s s1"]) (simp add: lowers_def)
  qed
  have "\<forall>b\<in>set (worker_bases s). closed_event_is_set b" using worker_inv_D(6) [OF wi closed] by blast
  then have handlers: "handlers_closed s" by (simp add: handlers_closed_def worker_bases_def closed_returns_def closed_event_is_set_def)
  show ?thesis
  proof (cases "wk_run s")
    case RunNotStarted
    with started show ?thesis by simp
  next
    case RunHead
    from run [OF run_step.loop [OF this]] show ?thesis .
  next
    case RunAwaitEndpoint
    show ?thesis
    proof (cases "st_fatal_error (wk_state s)")
      case None
      with closed have "gateway_endpoint (wk_state s) = Some (Inr ([], True))" by (simp add: gateway_endpoint_def)
      from run [OF run_step.closing [OF RunAwaitEndpoint this]] show ?thesis .
    next
      case (Some e)
      then have "gateway_endpoint (wk_state s) = Some (Inl e)" by (simp add: gateway_endpoint_def)
      from run [OF run_step.fatal [OF RunAwaitEndpoint this]] show ?thesis .
    qed
  next
    case (RunConnecting endpoint)
    from run [OF run_step.connected [OF this, of False 0]] show ?thesis .
  next
    case RunConnected
    with assms(4) closed have "wk_conn_changed s" by (simp add: lost_wait_def)
    from run [OF run_step.conn_init_changed [OF RunConnected this]] show ?thesis .
  next
    case RunSettling
    from run [OF run_step.settled [OF this]] show ?thesis .
  next
    case RunRetryDelay
    from run [OF run_step.retry [OF this]] show ?thesis .
  next
    case RunAwaitMessages
    show ?thesis
    proof (cases "wk_messages s")
      case True
      have "worker_rank (note_reset s (disconnect s)) < worker_rank s"
        using True RunAwaitMessages closed by (simp add: worker_rank_def run_rank_def disconnect_def map_state_def)
      with thread_step.lost [OF True] show ?thesis unfolding lowers_def by blast
    next
      case False
      from run [OF run_step.messages_ended [OF RunAwaitMessages False]] show ?thesis .
    qed
  next
    case (RunClosing e)
    from run [OF run_step.stopped [OF this]] handlers show ?thesis by simp
  next
    case (RunStopped e)
    with assms(3) show ?thesis by simp
  qed
qed


text \<open>One handler's close sequence moves on.\<close>

lemma handler_goes_on:
  assumes drained: "drained s" and b: "b \<in> set (worker_bases s)" "bh_close_task b \<noteq> None" "stage b \<noteq> 0"
  shows "\<exists>s'. handler_step codec post ci cfg s s' \<and> handlers_rank s' < handlers_rank s \<and> wk_state s' = wk_state s \<and> wk_close_tasks s' = wk_close_tasks s"
proof -
  obtain b' where step: "close_sequence_step (drained s) b = Some b'" using sequence_goes_on [OF b(2,3)] drained by auto
  note less = later_sequence(2) [OF step]
  consider "b = wk_conn_init s" | "b = wk_heartbeat s" | "b = hk_base (wk_handshake s)" | "b = xh_base (xs_handler (wk_exec s))" | "b = wk_drain s"
    using b(1) by (auto simp: worker_bases_def)
  then show ?thesis
  proof cases
    case 1
    show ?thesis
      by (intro exI conjI, rule handler_step.close_conn_init [OF step [unfolded 1]])
        (use less 1 in \<open>simp_all add: handlers_rank_def worker_bases_def cancel_start_task_def\<close>)
  next
    case 2
    show ?thesis
      by (intro exI conjI, rule handler_step.close_heartbeat [OF step [unfolded 2]])
        (use less 2 in \<open>simp_all add: handlers_rank_def worker_bases_def\<close>)
  next
    case 3
    show ?thesis
      by (intro exI conjI, rule handler_step.close_handshake [OF step [unfolded 3]])
        (use less 3 in \<open>simp_all add: handlers_rank_def worker_bases_def\<close>)
  next
    case 4
    show ?thesis
      by (intro exI conjI, rule handler_step.close_exec [OF step [unfolded 4]])
        (use less 4 in \<open>simp_all add: handlers_rank_def worker_bases_def map_exec_def\<close>)
  next
    case 5
    show ?thesis
      by (intro exI conjI, rule handler_step.close_drain [OF step [unfolded 5]])
        (use less 5 in \<open>simp_all add: handlers_rank_def worker_bases_def\<close>)
  qed
qed

lemma closing_goes_on:
  assumes inv: "closing_inv s" and open_: "\<not> wk_closed s" and started: "wk_run s \<noteq> RunNotStarted" and asked: "wk_close_tasks s \<noteq> []"
    and drained: "xh_closing (xs_handler (wk_exec s)) \<Longrightarrow> drained s"
  shows "\<exists>s'. lowers (thread_step codec apps post ci cfg False) worker_rank s s'"
proof -
  have step: ?thesis if "thread_step codec apps post ci cfg False s (note_reset s s1)" "worker_rank s1 < worker_rank s" for s1
    using that by (intro exI [of _ "note_reset s s1"]) (simp add: lowers_def)
  note close = step [OF thread_step.close]
  have begin_rank: "worker_rank (close_begin i s) < worker_rank s" if "CloseWaiting \<notin> set (wk_close_tasks s)" "i < length (wk_close_tasks s)" for i
  proof -
    have "tasks_rank ((wk_close_tasks s)[i := CloseWaiting]) = 0" "0 < tasks_rank (wk_close_tasks s)"
      using that set_update_memI [OF that(2)] by (simp_all add: tasks_rank_def)
    moreover have "handlers_rank (close_begin i s) \<le> handlers_rank s"
      using handlers_rank_later [OF bases_later_close_handlers(1)] by (simp add: handlers_rank_def)
    ultimately show ?thesis using open_ by (simp add: worker_rank_def)
  qed
  consider (waiting) "CloseWaiting \<in> set (wk_close_tasks s)"
    | (pausing) i where "CloseWaiting \<notin> set (wk_close_tasks s)" "i < length (wk_close_tasks s)" "wk_close_tasks s ! i = ClosePausing"
    | (scheduled) i where "CloseWaiting \<notin> set (wk_close_tasks s)" "ClosePausing \<notin> set (wk_close_tasks s)"
        "i < length (wk_close_tasks s)" "wk_close_tasks s ! i = CloseScheduled"
  proof -
    obtain c where c: "c \<in> set (wk_close_tasks s)" using asked by (cases "wk_close_tasks s") auto
    have "CloseDone \<notin> set (wk_close_tasks s)" using closing_inv_D(5) [OF inv] open_ by blast
    with c have "CloseScheduled \<in> set (wk_close_tasks s)"
      if "CloseWaiting \<notin> set (wk_close_tasks s)" "ClosePausing \<notin> set (wk_close_tasks s)" using that by (metis close_pc.exhaust)
    then show thesis using waiting pausing scheduled unfolding in_set_conv_nth by metis
  qed
  then show ?thesis
  proof cases
    case waiting
    note begun = closing_inv_D(4) [OF inv waiting]
    have "wk_drain s \<in> set (worker_bases s)" by (simp add: worker_bases_def)
    from worker_inv_D(5) [OF closing_inv_D(1) [OF inv] this] begun [OF this] have drained_s: "drained s"
      using drained by (simp add: base_ok_def)
    show ?thesis
    proof (cases "\<exists>b\<in>set (worker_bases s). stage b \<noteq> 0")
      case True
      then obtain b s1 where s1: "handler_step codec post ci cfg s s1" "handlers_rank s1 < handlers_rank s" "wk_state s1 = wk_state s"
        "wk_close_tasks s1 = wk_close_tasks s" using handler_goes_on [OF drained_s] begun by blast
      have "worker_rank s1 < worker_rank s" unfolding worker_rank_def s1(3,4) using s1(2) open_ by simp
      from step [OF thread_step.handler [OF started s1(1)] this] show ?thesis .
    next
      case False
      then have "\<forall>b\<in>set (worker_bases s). closed_returns b" using closing_inv_D(2) [OF inv] by blast
      then have closed: "handlers_closed s" by (simp add: handlers_closed_def worker_bases_def)
      from waiting obtain i where i: "i < length (wk_close_tasks s)" "wk_close_tasks s ! i = CloseWaiting" by (auto simp: in_set_conv_nth)
      from close [OF close_step.close_ended [OF i]] closed worker_rank_closes [OF open_, of "close_end i s"] show ?thesis by simp
    qed
  next
    case (pausing i)
    from close [OF close_step.paused [OF pausing(2,3)] begin_rank [OF pausing(1,2)]] show ?thesis .
  next
    case (scheduled i)
    note pause = close [OF close_step.pause [OF scheduled(3,4) started]]
    show ?thesis
    proof (cases "st_ws (wk_state s)")
      case None
      with pause begin_rank [OF scheduled(1,3)] show ?thesis by simp
    next
      case (Some ws)
      have "ClosePausing \<in> set ((wk_close_tasks s)[i := ClosePausing])" using scheduled(3) by (rule set_update_memI)
      moreover have "set ((wk_close_tasks s)[i := ClosePausing]) \<subseteq> insert ClosePausing (set (wk_close_tasks s))"
        by (rule set_update_subset_insert)
      ultimately have "tasks_rank ((wk_close_tasks s)[i := ClosePausing]) < tasks_rank (wk_close_tasks s)"
        using scheduled(1,2) by (auto simp: tasks_rank_def)
      with Some pause open_ show ?thesis by (simp add: worker_rank_def handlers_rank_def worker_bases_def)
    qed
  qed
qed


section \<open>The connection comes to its end\<close>

definition main_rank :: "main_pc \<Rightarrow> nat" where
  "main_rank pc = (case pc of MainAwaitClosed \<Rightarrow> 2 | MainJoining \<Rightarrow> 1 | _ \<Rightarrow> 0)"

definition connection_rank :: "'w connection \<Rightarrow> nat" where
  "connection_rank c = (if cx_thread c = ThreadRunning then 1 + worker_rank (cx_worker c)
     + (if wk_run (cx_worker c) = RunNotStarted then 1 else 0) else 0) + main_rank (cx_main c)"

text \<open>A connection that was started and asked to close.\<close>

definition asked_to_close :: "codec \<Rightarrow> string set \<Rightarrow> (string \<Rightarrow> comm_request \<Rightarrow> 'w \<Rightarrow> (exc + comm_response) \<times> 'w) \<Rightarrow> conn_init_config
    \<Rightarrow> handshake_config \<Rightarrow> 'w connection \<Rightarrow> bool" where
  "asked_to_close codec apps post ci cfg c = (connection_inv codec apps post ci cfg c \<and> cx_thread c \<noteq> NoThread
     \<and> wk_close_tasks (cx_worker c) \<noteq> [])"

lemma asked_D:
  assumes "asked_to_close codec apps post ci cfg c"
  shows "closing_inv (cx_worker c)" "cx_main c \<noteq> MainIdle" "worker_reachable codec apps post ci cfg False (cx_worker c)"
  using assms connection_inv_started [of codec apps post ci cfg c] closing_inv_reachable [of codec apps post ci cfg "cx_worker c"]
  by (auto simp: asked_to_close_def)

lemma thread_step_tasks:
  assumes "thread_step codec apps post ci cfg False s s'" and inv: "closing_inv s"
  shows "wk_close_tasks s \<noteq> [] \<Longrightarrow> wk_close_tasks s' \<noteq> []" "wk_run s \<noteq> RunNotStarted \<Longrightarrow> wk_run s' \<noteq> RunNotStarted"
proof -
  have tasks: "(wk_close_tasks s \<noteq> [] \<longrightarrow> wk_close_tasks s1 \<noteq> []) \<and> wk_run s1 = wk_run s" if "close_step False s s1" for s1
    using that by cases (simp_all split: if_split)
  have aside: "wk_close_tasks s1 = wk_close_tasks s \<and> wk_run s1 = wk_run s" if "aside s s1" for s1 using that by (simp add: aside_def)
  have "(wk_close_tasks s \<noteq> [] \<longrightarrow> wk_close_tasks s' \<noteq> []) \<and> (wk_run s \<noteq> RunNotStarted \<longrightarrow> wk_run s' \<noteq> RunNotStarted)"
    using assms(1)
  proof cases
    case (run s1)
    from run_step_bases(2,3) [OF run(2) inv] show ?thesis by (simp add: run(1))
  next
    case (close s1)
    from tasks [OF close(2)] show ?thesis by (simp add: close(1))
  next
    case (handler s1)
    from aside [OF handler_step_aside [OF handler(3)]] show ?thesis by (simp add: handler(1))
  next
    case (frame raw)
    from aside [OF handle_frame_aside] show ?thesis by (simp add: frame(1))
  next
    case lost
    from aside [OF disconnect_aside] show ?thesis by (simp add: lost(1))
  qed
  then show "wk_close_tasks s \<noteq> [] \<Longrightarrow> wk_close_tasks s' \<noteq> []" "wk_run s \<noteq> RunNotStarted \<Longrightarrow> wk_run s' \<noteq> RunNotStarted" by blast+
qed

lemma asked_stays:
  assumes asked: "asked_to_close codec apps post ci cfg c" and step: "connection_step codec apps post ci cfg False c c'"
  shows "asked_to_close codec apps post ci cfg c'"
proof -
  have "connection_inv codec apps post ci cfg c'" using connection_inv_step [OF step] asked by (simp add: asked_to_close_def)
  moreover have "wk_close_tasks (user_close loop s) \<noteq> []" if "wk_close_tasks s \<noteq> []" for loop s
    using that by (simp add: user_close_def Let_def)
  note user = this [of "cx_worker c"]
  have "cx_thread c \<noteq> NoThread" "wk_close_tasks (cx_worker c) \<noteq> []" using asked by (simp_all add: asked_to_close_def)
  with step have "cx_thread c' \<noteq> NoThread \<and> wk_close_tasks (cx_worker c') \<noteq> []"
    by (cases rule: connection_step.cases)
      (use asked_D(2) [OF asked] user thread_step_tasks(1) [OF _ asked_D(1) [OF asked]] in \<open>simp_all add: thread_end_def connection_close_def\<close>)
  ultimately show ?thesis by (simp add: asked_to_close_def)
qed

lemma connection_rank_falls:
  assumes asked: "asked_to_close codec apps post ci cfg c" and step: "connection_step codec apps post ci cfg False c c'"
  shows "connection_rank c' \<le> connection_rank c"
  using step
proof cases
  case start
  with asked_D(2) [OF asked] show ?thesis by simp
next
  case (thread s)
  from thread_step_rank [OF thread(3) asked_D(1) [OF asked]] thread_step_tasks(2) [OF thread(3) asked_D(1) [OF asked]] thread
  show ?thesis by (simp add: connection_rank_def)
next
  case (thread_end e)
  then show ?thesis by (simp add: connection_rank_def thread_end_def)
next
  case close
  have "wk_run (user_close loop s) = wk_run s" for loop and s :: "'a worker" by simp
  with close user_close_rank [OF asked_D(1) [OF asked]] show ?thesis by (simp add: connection_rank_def connection_close_def)
qed (simp_all add: connection_rank_def main_rank_def)

definition requests_ended :: "'w connection \<Rightarrow> bool" where
  "requests_ended c = (xh_closing (xs_handler (wk_exec (cx_worker c))) \<longrightarrow> drained (cx_worker c))"

definition ended_or_lost :: "'w connection \<Rightarrow> bool" where
  "ended_or_lost c = ((\<exists>e. cx_main c = MainReturned e) \<or> lost_wait (cx_worker c))"

lemma connection_goes_on:
  assumes asked: "asked_to_close codec apps post ci cfg c" and ready: "requests_ended c" and open_: "\<not> ended_or_lost c"
  shows "\<exists>c'. lowers (connection_step codec apps post ci cfg False) connection_rank c c'"
proof -
  note inv = asked_D(1) [OF asked] and main = asked_D(2) [OF asked] and reach = asked_D(3) [OF asked]
  have go: ?thesis if "connection_step codec apps post ci cfg False c c1" "connection_rank c1 < connection_rank c" for c1
    using that unfolding lowers_def by blast
  have asked': "connection_inv codec apps post ci cfg c" "cx_thread c \<noteq> NoThread" "wk_close_tasks (cx_worker c) \<noteq> []"
    using asked by (simp_all add: asked_to_close_def)
  show ?thesis
  proof (cases "cx_thread c = ThreadRunning")
    case True
    note thread = connection_step.thread [OF True]
    have lower: ?thesis if "\<exists>s. lowers (thread_step codec apps post ci cfg False) worker_rank (cx_worker c) s" "wk_run (cx_worker c) \<noteq> RunNotStarted"
    proof -
      from that(1) obtain s where s: "thread_step codec apps post ci cfg False (cx_worker c) s" "worker_rank s < worker_rank (cx_worker c)"
        by (auto simp: lowers_def)
      with thread_step_tasks(2) [OF s(1) inv] that(2) True show ?thesis
        by (intro go [OF thread [OF s(1)]]) (simp add: connection_rank_def)
    qed
    show ?thesis
    proof (cases "\<exists>e. wk_run (cx_worker c) = RunStopped e")
      case True
      then obtain e where e: "wk_run (cx_worker c) = RunStopped e" by blast
      show ?thesis
        by (rule go [OF connection_step.thread_end [OF \<open>cx_thread c = ThreadRunning\<close> e]])
          (simp add: connection_rank_def thread_end_def \<open>cx_thread c = ThreadRunning\<close>)
    next
      case running: False
      show ?thesis
      proof (cases "wk_run (cx_worker c) = RunNotStarted")
        case fresh: True
        note step = thread_step.run [OF run_step.start [OF fresh], of codec apps post ci cfg False]
        from thread_step_rank [OF step inv] True fresh show ?thesis
          by (intro go [OF thread [OF step]]) (simp add: connection_rank_def)
      next
        case started: False
        show ?thesis
        proof (cases "wk_closed (cx_worker c)")
          case True
          from closed_run_goes_on [OF inv this running] open_ show ?thesis by (intro lower started) (simp add: ended_or_lost_def)
        next
          case False
          from closing_goes_on [OF inv this started asked'(3)] ready show ?thesis by (intro lower started) (simp add: requests_ended_def)
        qed
      qed
    qed
  next
    case False
    then have ended: "cx_thread c = ThreadEnded" using asked'(2) by (cases "cx_thread c") simp_all
    then have "wk_run (cx_worker c) = RunStopped (cx_thread_exc c)" using asked'(1) by (simp add: connection_inv_def)
    note closed = stopped_closed [OF reach this]
    show ?thesis
    proof (cases "cx_main c")
      case MainAwaitClosed
      show ?thesis by (rule go [OF connection_step.closed [OF MainAwaitClosed closed]]) (simp add: connection_rank_def main_rank_def MainAwaitClosed)
    next
      case MainJoining
      show ?thesis by (rule go [OF connection_step.joined [OF MainJoining ended]]) (simp add: connection_rank_def main_rank_def MainJoining)
    qed (use main open_ in \<open>auto simp: ended_or_lost_def\<close>)
  qed
qed

interpretation closing: ranked_progress "connection_step codec apps post ci cfg False" "asked_to_close codec apps post ci cfg" connection_rank
    requests_ended ended_or_lost for codec apps post ci cfg
  by unfold_locales (fact asked_stays, fact connection_rank_falls, fact connection_goes_on)


lemma start_returns_facts:
  assumes "connection_reachable codec apps post ci cfg False c" and "cx_main c = MainReturned e"
  shows "cx_thread c = ThreadEnded \<and> cx_state c = CS_CLOSED \<and> handlers_closed (cx_worker c)"
proof -
  note inv = connection_inv_reachable [OF assms(1)]
  then have ended: "cx_thread c = ThreadEnded" "wk_run (cx_worker c) = RunStopped (cx_thread_exc c)"
    using assms(2) by (auto simp: connection_inv_def)
  have reach: "worker_reachable codec apps post ci cfg False (cx_worker c)" using connection_inv_started [OF inv] ended(1) by simp
  note closed = stopped_closed [OF reach ended(2)]
  from ended(1) closed closed_worker(3) [OF reach closed] show ?thesis by simp
qed

text \<open>C12: A connection that was asked to close ends.  Let \<open>start\<close> have been called and a close have been scheduled, and let the
  requests that were accepted come to an end once no new ones are accepted.  Then in every execution that is fair to the
  steps which bring the end nearer, as \<open>connection_rank\<close> counts it, and whatever the gateway, the API and other threads do, \<open>start\<close> returns or raises, with everything closed; or the change of
  \<open>conn_init\<close> by which \<open>run\<close> is to notice the close was made before \<open>run\<close> began to wait for it.\<close>

theorem close_ends:
  assumes "execution (connection_step codec apps post ci cfg False) \<sigma>"
    and "connection_reachable codec apps post ci cfg False (\<sigma> 0)"
    and "fair (lowers (connection_step codec apps post ci cfg False) connection_rank) \<sigma>"
    and "cx_main (\<sigma> n) \<noteq> MainIdle" and "wk_close_tasks (cx_worker (\<sigma> n)) \<noteq> []"
    and "\<And>k. n \<le> k \<Longrightarrow> xh_closing (xs_handler (wk_exec (cx_worker (\<sigma> k)))) \<Longrightarrow> \<exists>m\<ge>k. drained (cx_worker (\<sigma> m))"
  shows "\<exists>m\<ge>n. (\<exists>e. cx_main (\<sigma> m) = MainReturned e \<and> cx_thread (\<sigma> m) = ThreadEnded \<and> cx_state (\<sigma> m) = CS_CLOSED
      \<and> handlers_closed (cx_worker (\<sigma> m))) \<or> lost_wait (cx_worker (\<sigma> m))"
proof -
  have reach: "connection_reachable codec apps post ci cfg False (\<sigma> m)" for m
    by (rule execution_invariant [where I = "connection_reachable codec apps post ci cfg False", OF assms(1,2)])
      (auto intro: connection_reachable.step)
  have "cx_thread (\<sigma> n) \<noteq> NoThread" using connection_inv_reachable [OF reach, of n] assms(4) by (simp add: connection_inv_def)
  with assms(5) connection_inv_reachable [OF reach] have asked: "asked_to_close codec apps post ci cfg (\<sigma> n)"
    by (simp add: asked_to_close_def)
  have "\<exists>m\<ge>k. requests_ended (\<sigma> m)" if "n \<le> k" for k
    using assms(6) [OF that] unfolding requests_ended_def by blast
  from closing.reaches_goal [OF assms(1,3) asked this] obtain m where m: "m \<ge> n" "ended_or_lost (\<sigma> m)" by blast
  then show ?thesis
    using start_returns_facts [OF reach, of m] unfolding ended_or_lost_def by blast
qed

section \<open>A wait that never ends\<close>

text \<open>The WebSocket has been opened: \<open>run\<close> stores it, starts the message loop and waits for a change of \<open>conn_init\<close>.\<close>

definition gateway_opens :: "nat \<Rightarrow> 'w worker \<Rightarrow> 'w worker" where
  "gateway_opens ws s = note_reset s ((map_state (\<lambda>st. st\<lparr>st_ws := Some ws\<rparr>) s)
     \<lparr>wk_run := RunConnected, wk_messages := True, wk_conn_changed := False\<rparr>)"

lemma lost_wait_stays:
  assumes "thread_step codec apps post ci cfg False s s'" and inv: "worker_inv s" and lost: "lost_wait s"
  shows "lost_wait s'"
proof -
  have closed: "wk_closed s" "wk_run s = RunConnected" "\<not> wk_conn_changed s" using lost by (simp_all add: lost_wait_def)
  from thread_step_keeps [OF assms(1) inv] closed(1) have later: "worker_inv s'" "wk_closed s'" by (simp_all add: worker_keeps_def)
  have unset: "st_conn_init (wk_state s) = None" "st_conn_init (wk_state s') = None"
    using worker_inv_D(1) [OF inv closed(1)] worker_inv_D(1) [OF later] by simp_all
  have same: "lost_wait s'" if "s' = note_reset s s1" "wk_run s1 = wk_run s" "wk_conn_changed s1 = wk_conn_changed s" for s1
    using that closed later(2) unset by (simp add: lost_wait_def) (simp add: note_reset_def)
  from assms(1) show ?thesis
  proof cases
    case (run s1)
    from run(2) have False by cases (use closed in simp_all)
    then show ?thesis ..
  next
    case (close s1)
    from same [OF close(1)] close_step_bases(2,4) [OF close(2)] show ?thesis by simp
  next
    case (handler s1)
    from same [OF handler(1)] handler_step_aside [OF handler(3)] show ?thesis by (simp add: aside_def)
  next
    case (frame raw)
    from same [OF frame(1)] handle_frame_aside [of s codec apps cfg raw] show ?thesis by (simp add: aside_def)
  next
    case lost
    from same [OF lost(1)] disconnect_aside [of s] show ?thesis by (simp add: aside_def)
  qed
qed

definition hanging :: "codec \<Rightarrow> string set \<Rightarrow> (string \<Rightarrow> comm_request \<Rightarrow> 'w \<Rightarrow> (exc + comm_response) \<times> 'w) \<Rightarrow> conn_init_config
    \<Rightarrow> handshake_config \<Rightarrow> 'w connection \<Rightarrow> bool" where
  "hanging codec apps post ci cfg c = (connection_inv codec apps post ci cfg c \<and> cx_thread c = ThreadRunning \<and> lost_wait (cx_worker c))"

lemma hanging_stays:
  assumes "hanging codec apps post ci cfg c" and step: "connection_step codec apps post ci cfg False c c'"
  shows "hanging codec apps post ci cfg c'"
proof -
  have inv: "connection_inv codec apps post ci cfg c" "cx_thread c = ThreadRunning" "lost_wait (cx_worker c)"
    using assms(1) by (simp_all add: hanging_def)
  have "worker_reachable codec apps post ci cfg False (cx_worker c)" "cx_main c \<noteq> MainIdle"
    using connection_inv_started [OF inv(1)] inv(2) by simp_all
  note lost = lost_wait_stays [OF _ worker_inv_reachable [OF this(1)] inv(3)]
  have run: "wk_run (cx_worker c) = RunConnected" "wk_closed (cx_worker c)" using inv(3) by (simp_all add: lost_wait_def)
  from step have "cx_thread c' = ThreadRunning \<and> lost_wait (cx_worker c')"
    by (cases rule: connection_step.cases)
      (use lost inv run \<open>cx_main c \<noteq> MainIdle\<close> in \<open>simp_all add: connection_close_def user_close_def\<close>)
  with connection_inv_step [OF step inv(1)] show ?thesis by (simp add: hanging_def)
qed

lemma hanging_later:
  "(connection_step codec apps post ci cfg False)\<^sup>*\<^sup>* c c' \<Longrightarrow> hanging codec apps post ci cfg c \<Longrightarrow> hanging codec apps post ci cfg c'"
  by (induction rule: rtranclp_induct) (use hanging_stays in blast)+

text \<open>C13: A close that ends while the WebSocket is being opened is not noticed.  When \<open>_close\<close> has set \<open>CLOSED\<close> and cleared
  \<open>conn_init\<close> while \<open>run\<close> is inside \<open>websockets.connect\<close>, and the WebSocket then opens, \<open>run\<close> waits for a change of
  \<open>conn_init\<close> that nothing will make: in all states that follow, the worker's thread runs, \<open>start\<close> has not returned
  and no \<open>close(wait=True)\<close> or \<open>closed()\<close> has.\<close>

theorem close_while_connecting_hangs:
  assumes "connection_reachable codec apps post ci cfg False c" and "cx_state c = CS_CLOSED"
    and "wk_run (cx_worker c) = RunConnecting endpoint"
  shows "connection_step codec apps post ci cfg False c (c\<lparr>cx_worker := gateway_opens ws (cx_worker c)\<rparr>)
    \<and> (\<forall>c'. (connection_step codec apps post ci cfg False)\<^sup>*\<^sup>* (c\<lparr>cx_worker := gateway_opens ws (cx_worker c)\<rparr>) c' \<longrightarrow>
      cx_thread c' = ThreadRunning \<and> (\<forall>e. cx_main c' \<noteq> MainReturned e) \<and> CloserReturned \<notin> set (cx_closers c'))"
proof -
  note inv = connection_inv_reachable [OF assms(1)]
  have "cx_thread c \<noteq> NoThread" using inv assms(3) by (auto simp: connection_inv_def)
  moreover have "cx_thread c \<noteq> ThreadEnded" using inv assms(3) by (auto simp: connection_inv_def)
  ultimately have running: "cx_thread c = ThreadRunning" by (cases "cx_thread c") simp_all
  let ?c = "c\<lparr>cx_worker := gateway_opens ws (cx_worker c)\<rparr>"
  have step: "connection_step codec apps post ci cfg False c ?c"
    unfolding gateway_opens_def by (rule connection_step.thread [OF running thread_step.run [OF run_step.connected [OF assms(3)]]])
  have "lost_wait (gateway_opens ws (cx_worker c))"
    using assms(2) by (simp add: lost_wait_def gateway_opens_def) (simp add: note_reset_def map_state_def)
  with connection_inv_step [OF step inv] running have hanging: "hanging codec apps post ci cfg ?c" by (simp add: hanging_def)
  have stuck: "cx_thread c' = ThreadRunning \<and> (\<forall>e. cx_main c' \<noteq> MainReturned e) \<and> CloserReturned \<notin> set (cx_closers c')"
    if "hanging codec apps post ci cfg c'" for c'
  proof -
    from that have "cx_thread c' = ThreadRunning" "connection_inv codec apps post ci cfg c'" by (simp_all add: hanging_def)
    then show ?thesis by (auto simp: connection_inv_def)
  qed
  from step stuck [OF hanging_later [OF _ hanging]] show ?thesis by blast
qed


section \<open>Two runs\<close>

text \<open>The user closes while the WebSocket is being opened.\<close>

definition demo_hang_script :: "move list" where
  "demo_hang_script = take 7 demo_script @ [MUser, MPause, MInit, MHeart, MHand, MExec, MDrain, MInit, MHeart, MHand, MExec, MDrain, MCloseEnd]"

definition demo_hang_worker :: "nat worker" where
  "demo_hang_worker = the (moves demo_codec {''app''} demo_post demo_conn_init demo_handshake demo_hang_script demo_start)"

definition demo_hang :: "nat connection" where
  "demo_hang = (connection_start (connection_init 0))\<lparr>cx_worker := demo_hang_worker\<rparr>"

lemma demo_connection:
  assumes "moves demo_codec {''app''} demo_post demo_conn_init demo_handshake mvs demo_start = Some s"
  shows "connection_reachable demo_codec {''app''} demo_post demo_conn_init demo_handshake False
    ((connection_start (connection_init 0))\<lparr>cx_worker := s\<rparr>)"
proof (rule moves_connection)
  show "moves demo_codec {''app''} demo_post demo_conn_init demo_handshake mvs (cx_worker (connection_start (connection_init 0))) = Some s"
    using assms by (simp add: connection_start_def connection_init_def set_main_loop_def demo_start_def)
  show "connection_reachable demo_codec {''app''} demo_post demo_conn_init demo_handshake False (connection_start (connection_init 0))"
    by (rule connection_reachable.step [OF connection_reachable.init connection_step.start]) (simp add: connection_init_def)
qed (simp_all add: connection_start_def)

lemma demo_hang_reachable:
  "connection_reachable demo_codec {''app''} demo_post demo_conn_init demo_handshake False demo_hang"
proof -
  have "moves demo_codec {''app''} demo_post demo_conn_init demo_handshake demo_hang_script demo_start \<noteq> None" by code_simp
  then have "moves demo_codec {''app''} demo_post demo_conn_init demo_handshake demo_hang_script demo_start = Some demo_hang_worker"
    by (auto simp: demo_hang_worker_def)
  from demo_connection [OF this] show ?thesis by (simp add: demo_hang_def)
qed

lemma demo_hang_facts: "cx_state demo_hang = CS_CLOSED" "\<exists>endpoint. wk_run (cx_worker demo_hang) = RunConnecting endpoint"
proof -
  have "st_conn_state (wk_state demo_hang_worker) = CS_CLOSED" "(case wk_run demo_hang_worker of RunConnecting e \<Rightarrow> True | _ \<Rightarrow> False)"
    by code_simp+
  then show "cx_state demo_hang = CS_CLOSED" "\<exists>endpoint. wk_run (cx_worker demo_hang) = RunConnecting endpoint"
    by (simp_all add: demo_hang_def split: run_pc.splits)
qed

text \<open>After the WebSocket has opened, \<open>start\<close> sees that the connection is closed and waits for the thread.\<close>

theorem close_while_connecting_hangs_witness:
  "\<exists>c. cx_state c = CS_CLOSED \<and> cx_main c = MainJoining \<and> cx_thread c = ThreadRunning
    \<and> connection_reachable demo_codec {''app''} demo_post demo_conn_init demo_handshake False c
    \<and> (\<forall>c'. (connection_step demo_codec {''app''} demo_post demo_conn_init demo_handshake False)\<^sup>*\<^sup>* c c' \<longrightarrow> (\<forall>e. cx_main c' \<noteq> MainReturned e))"
proof -
  let ?step = "connection_step demo_codec {''app''} demo_post demo_conn_init demo_handshake False"
  let ?c = "demo_hang\<lparr>cx_worker := gateway_opens 5 (cx_worker demo_hang)\<rparr>"
  obtain endpoint where "wk_run (cx_worker demo_hang) = RunConnecting endpoint" using demo_hang_facts(2) by blast
  note hangs = close_while_connecting_hangs [OF demo_hang_reachable demo_hang_facts(1) this, of 5]
  let ?d = "?c\<lparr>cx_main := MainJoining\<rparr>"
  have state: "cx_state ?c = CS_CLOSED"
    using demo_hang_facts(1) by (simp add: gateway_opens_def)
  have "cx_main ?c = MainAwaitClosed" by (simp add: demo_hang_def connection_start_def)
  from connection_step.closed [OF this state] have step: "?step ?c ?d" .
  have "connection_reachable demo_codec {''app''} demo_post demo_conn_init demo_handshake False ?c"
    using demo_hang_reachable hangs [THEN conjunct1] by (rule connection_reachable.step)
  from connection_reachable.step [OF this step] have "connection_reachable demo_codec {''app''} demo_post demo_conn_init demo_handshake False ?d" .
  moreover have "cx_main c' \<noteq> MainReturned e" if "?step\<^sup>*\<^sup>* ?d c'" for c' e
    using hangs [THEN conjunct2, rule_format, OF converse_rtranclp_into_rtranclp [OF step that]] by blast
  moreover have "cx_thread ?d = ThreadRunning" by (simp add: demo_hang_def connection_start_def)
  ultimately show ?thesis using state by (intro exI [of _ ?d]) simp
qed


text \<open>The states of a run from its start to the return of \<open>start\<close>: those of the script, and the last three steps.\<close>

lemma moves_append: "moves codec apps post ci cfg (xs @ ys) s = Option.bind (moves codec apps post ci cfg xs s) (moves codec apps post ci cfg ys)"
  by (induction xs arbitrary: s) (simp_all split: option.split)

lemma try_move_connection:
  assumes "try_move codec apps post ci cfg mv (cx_worker c) = Some s" and "cx_thread c = ThreadRunning" and "cx_loop c = LoopOpen"
  shows "connection_step codec apps post ci cfg False c (c\<lparr>cx_worker := note_reset (cx_worker c) s\<rparr>)"
proof (cases "mv = MUser")
  case True
  with assms have "c\<lparr>cx_worker := note_reset (cx_worker c) s\<rparr> = connection_close c" by (auto simp: user_move connection_close_def)
  then show ?thesis by (simp add: connection_step.close)
next
  case False
  from connection_step.thread [OF assms(2) try_move_step [OF assms(1) False]] show ?thesis .
qed

definition demo_after :: "nat \<Rightarrow> nat worker" where
  "demo_after n = the (moves demo_codec {''app''} demo_post demo_conn_init demo_handshake (take n demo_stop_script) demo_start)"

definition demo_path :: "nat \<Rightarrow> nat connection" where
  "demo_path n = (let l = length demo_stop_script in
     if n \<le> l then (connection_start (connection_init 0))\<lparr>cx_worker := demo_after n\<rparr>
     else if n = l + 1 then demo_joining else if n = l + 2 then thread_end None demo_joining else demo_returned)"

lemma demo_after_Some:
  "moves demo_codec {''app''} demo_post demo_conn_init demo_handshake (take n demo_stop_script) demo_start = Some (demo_after n)"
proof -
  have "moves demo_codec {''app''} demo_post demo_conn_init demo_handshake (take n demo_stop_script @ drop n demo_stop_script) demo_start
      = Some demo_stopped" using demo_stopped_facts(1) by simp
  then show ?thesis unfolding moves_append demo_after_def by (auto simp: Option.bind_eq_Some_conv)
qed

lemma demo_after_step:
  assumes "n < length demo_stop_script"
  shows "\<exists>s. try_move demo_codec {''app''} demo_post demo_conn_init demo_handshake (demo_stop_script ! n) (demo_after n) = Some s
    \<and> demo_after (Suc n) = note_reset (demo_after n) s"
  using demo_after_Some [of "Suc n"] demo_after_Some [of n] unfolding take_Suc_conv_app_nth [OF assms] moves_append
  by (auto split: option.splits)

lemma demo_path_execution:
  "execution (connection_step demo_codec {''app''} demo_post demo_conn_init demo_handshake False) demo_path"
  unfolding execution_def
proof
  fix n
  let ?step = "connection_step demo_codec {''app''} demo_post demo_conn_init demo_handshake False" and ?l = "length demo_stop_script"
  have last: "demo_after ?l = demo_stopped" using demo_after_Some [of ?l] demo_stopped_facts(1) by simp
  consider "n < ?l" | "n = ?l" | "n = ?l + 1" | "n = ?l + 2" | "n > ?l + 2" by linarith
  then show "?step (demo_path n) (demo_path (Suc n)) \<or> demo_path (Suc n) = demo_path n"
  proof cases
    case 1
    obtain s where s: "try_move demo_codec {''app''} demo_post demo_conn_init demo_handshake (demo_stop_script ! n) (demo_after n) = Some s"
      "demo_after (Suc n) = note_reset (demo_after n) s" using demo_after_step [OF 1] by blast
    have "?step (demo_path n) ((demo_path n)\<lparr>cx_worker := note_reset (cx_worker (demo_path n)) s\<rparr>)"
      by (rule try_move_connection [of _ _ _ _ _ "demo_stop_script ! n"]) (use 1 s(1) in \<open>simp_all add: demo_path_def connection_start_def\<close>)
    with 1 s(2) show ?thesis by (simp add: demo_path_def)
  next
    case 2
    have "?step (demo_path n) ((demo_path n)\<lparr>cx_main := MainJoining\<rparr>)"
      by (rule connection_step.closed) (simp_all add: demo_path_def 2 last connection_start_def demo_stopped_facts)
    then show ?thesis by (simp add: demo_path_def 2 last demo_joining_def connection_start_def)
  next
    case 3
    have "?step demo_joining (thread_end None demo_joining)"
      by (rule connection_step.thread_end) (simp_all add: demo_joining_def connection_start_def demo_stopped_facts)
    then show ?thesis by (simp add: demo_path_def 3)
  next
    case 4
    have "?step (thread_end None demo_joining) demo_returned"
      unfolding demo_returned_def by (rule connection_step.joined) (simp_all add: demo_joining_def connection_start_def thread_end_def)
    then show ?thesis by (simp add: demo_path_def 4)
  qed (simp add: demo_path_def)
qed

lemma demo_path_end:
  "n > length demo_stop_script + 2 \<Longrightarrow> demo_path n = demo_returned" "connection_rank demo_returned = 0"
  "connection_rank (thread_end None demo_joining) = 1"
  by (simp_all add: demo_path_def connection_rank_def demo_returned_def thread_end_def demo_joining_def main_rank_def)

lemma demo_path_fair:
  "fair (lowers (connection_step demo_codec {''app''} demo_post demo_conn_init demo_handshake False) connection_rank) demo_path"
  unfolding fair_def
proof (intro allI impI)
  fix n
  let ?step = "connection_step demo_codec {''app''} demo_post demo_conn_init demo_handshake False" and ?l = "length demo_stop_script"
  assume "\<exists>s'. lowers ?step connection_rank (demo_path n) s'"
  then have "n \<le> ?l + 2" using demo_path_end by (cases "n \<le> ?l + 2") (auto simp: lowers_def)
  moreover have "?step (demo_path (?l + 2)) (demo_path (Suc (?l + 2)))"
    using demo_path_execution demo_path_end by (auto simp: execution_def demo_path_def dest: spec [of _ "?l + 2"])
  then have "lowers ?step connection_rank (demo_path (?l + 2)) (demo_path (Suc (?l + 2)))"
    using demo_path_end by (simp add: lowers_def demo_path_def)
  ultimately show "\<exists>m\<ge>n. lowers ?step connection_rank (demo_path m) (demo_path (Suc m))" by blast
qed

theorem close_ends_witness:
  "wk_close_tasks (cx_worker (demo_path 13)) = [CloseScheduled] \<and> cx_main (demo_path 13) = MainAwaitClosed
    \<and> (\<exists>m\<ge>13. (\<exists>e. cx_main (demo_path m) = MainReturned e \<and> cx_thread (demo_path m) = ThreadEnded \<and> cx_state (demo_path m) = CS_CLOSED
      \<and> handlers_closed (cx_worker (demo_path m))) \<or> lost_wait (cx_worker (demo_path m)))"
proof -
  let ?l = "length demo_stop_script"
  have "demo_after 0 = demo_start" using demo_after_Some [of 0] by simp
  then have "demo_path 0 = connection_start (connection_init 0)"
    by (simp add: demo_path_def connection_start_def connection_init_def set_main_loop_def demo_start_def)
  then have start: "connection_reachable demo_codec {''app''} demo_post demo_conn_init demo_handshake False (demo_path 0)"
    using connection_reachable.step [OF connection_reachable.init connection_step.start] by (simp add: connection_init_def)
  have "13 \<le> ?l" by (simp add: demo_stop_script_def demo_script_def)
  then have path: "demo_path 13 = (connection_start (connection_init 0))\<lparr>cx_worker := demo_after 13\<rparr>" by (simp add: demo_path_def)
  have "wk_close_tasks (demo_after 13) = [CloseScheduled]" by code_simp
  then have asked: "wk_close_tasks (cx_worker (demo_path 13)) = [CloseScheduled]" "cx_main (demo_path 13) = MainAwaitClosed"
    by (simp_all add: path connection_start_def)
  have "drained demo_stopped" by code_simp
  then have "drained (cx_worker (demo_path (k + ?l + 3)))" for k
    by (simp add: demo_path_end(1)) (simp add: demo_returned_def thread_end_def demo_joining_def)
  then have "\<exists>m\<ge>k. drained (cx_worker (demo_path m))" for k by (intro exI [of _ "k + ?l + 3"]) simp
  from close_ends [OF demo_path_execution start demo_path_fair _ _ this, of 13] asked show ?thesis by simp
qed

end
