(* ===== verification/ExecOrder.thy ===== *)
theory ExecOrder
  imports ExecProps
begin

text \<open>
  The order of executions.  However the tasks of the execution handler are interleaved with messages, lease extensions and
  closing, the user's state is what a sequential run of the functions of pairwise different requests makes of it.
\<close>

section \<open>The sequential specification\<close>

text \<open>What a task asks of \<open>post\<close>; it does not change while the task exists.\<close>

definition job_of :: "exec_task \<Rightarrow> string \<times> comm_request" where
  "job_of task = (xr_app_name (et_request task), exec_comm_request (et_request task))"

definition run_job :: "(string \<Rightarrow> comm_request \<Rightarrow> 'w \<Rightarrow> (exc + comm_response) \<times> 'w) \<Rightarrow> string \<times> comm_request \<Rightarrow> 'w
    \<Rightarrow> (exc + comm_response) \<times> 'w" where
  "run_job post job w = post (fst job) (snd job) w"

definition run_jobs :: "(string \<Rightarrow> comm_request \<Rightarrow> 'w \<Rightarrow> (exc + comm_response) \<times> 'w) \<Rightarrow> (string \<times> comm_request) list \<Rightarrow> 'w \<Rightarrow> 'w" where
  "run_jobs post jobs w = foldl (\<lambda>w job. snd (run_job post job w)) w jobs"

lemma run_jobs_snoc [simp]: "run_jobs post (jobs @ [job]) w = snd (run_job post job (run_jobs post jobs w))"
  by (simp add: run_jobs_def)

section \<open>One step\<close>

definition early :: "exec_pc \<Rightarrow> bool" where
  "early pc = (pc \<in> {AwaitingWs, SendAck, SendingAck, RunningFn})"

definition settled :: "exec_pc \<Rightarrow> bool" where
  "settled pc = (\<not> early pc \<and> (\<forall>res. pc \<noteq> Responding res))"

lemma early_simps [simp]:
  "early AwaitingWs" "early SendAck" "early SendingAck" "early RunningFn" "\<not> early (Responding res)" "\<not> early (SendingReply m)"
  "\<not> early (SendingErrorReply m)" "\<not> early (Ended c)" "\<not> early (Finished c)"
  "settled (SendingReply m)" "settled (SendingErrorReply m)" "settled (Ended c)" "settled (Finished c)" "\<not> settled (Responding res)"
  by (simp_all add: early_def settled_def)

lemma exec_failed_settles: "\<exists>pc'. exec_failed codec t s = s\<lparr>xs_handler := set_pc t pc' (xs_handler s)\<rparr> \<and> settled pc'"
  by (auto simp: exec_failed_def split: sum.split)

lemma exec_respond_settles:
  assumes "t < length (xh_tasks (xs_handler s))"
  shows "settled (et_pc (task_of (exec_respond codec now t res s) t)) \<and> xs_world (exec_respond codec now t res s) = xs_world s"
proof (cases "body_bytes res")
  case (Inl e)
  obtain pc' where "exec_failed codec t s = s\<lparr>xs_handler := set_pc t pc' (xs_handler s)\<rparr>" "settled pc'"
    using exec_failed_settles by blast
  with Inl assms show ?thesis by (simp add: exec_respond_def)
next
  case (Inr b)
  with assms show ?thesis by (simp add: exec_respond_def Let_def split: sum.split)
qed

lemma exec_failed_pc:
  "t < length (xh_tasks (xs_handler s)) \<Longrightarrow> settled (et_pc (task_of (exec_failed codec t s) t)) \<and> xs_world (exec_failed codec t s) = xs_world s"
  using exec_failed_settles [of codec t s] by auto

text \<open>Running the function is the only step that changes the user's state, and it leads to its response; no other step
  leads to one.\<close>

lemma exec_step_runs:
  assumes "exec_step codec post now r t s = Some s'" and "t < length (xh_tasks (xs_handler s))" and "et_pc (task_of s t) = RunningFn"
  shows "xs_world s' = snd (run_job post (job_of (task_of s t)) (xs_world s))"
    "et_pc (task_of s' t) = Responding (fst (run_job post (job_of (task_of s t)) (xs_world s)))"
  using assms by (auto simp: exec_step_def Let_def run_job_def job_of_def split: prod.splits)

lemma exec_step_progress:
  assumes step: "exec_step codec post now r t s = Some s'" and t: "t < length (xh_tasks (xs_handler s))" and "et_pc (task_of s t) \<noteq> RunningFn"
  shows "xs_world s' = xs_world s \<and> (settled (et_pc (task_of s' t)) \<or> early (et_pc (task_of s t)) \<and> early (et_pc (task_of s' t)))"
proof -
  have failed: ?thesis if "s' = exec_failed codec t s1" "xs_handler s1 = xs_handler s" "xs_world s1 = xs_world s" for s1
    using exec_failed_pc [of t s1 codec] that t by simp
  have respond: ?thesis if "s' = exec_respond codec now t res s1" "xs_handler s1 = xs_handler s" "xs_world s1 = xs_world s" for s1 res
    using exec_respond_settles [of t s1 codec now res] that t by simp
  show ?thesis
  proof (cases "et_pc (task_of s t)")
    case AwaitingWs
    with step t show ?thesis by (auto simp: exec_step_def Let_def split: if_splits)
  next
    case SendAck
    then show ?thesis
    proof (cases "send_target (xs_state s)")
      case (Inl e)
      with step SendAck show ?thesis by (intro respond [of "from_error e 500" s]) (simp_all add: exec_step_def Let_def)
    next
      case (Inr ws)
      with step SendAck t show ?thesis by (auto simp: exec_step_def Let_def)
    qed
  next
    case SendingAck
    define s1 where "s1 = s\<lparr>xs_state := snd (safe_send_result r (xs_state s)),
       xs_sent := (if r = SendOk then xs_sent s @ [ack_message codec (et_request (task_of s t))] else xs_sent s)\<rparr>"
    have s1: "xs_handler s1 = xs_handler s" "xs_world s1 = xs_world s" by (simp_all add: s1_def)
    show ?thesis
    proof (cases "fst (safe_send_result r (xs_state s))")
      case None
      show ?thesis
      proof (cases "xh_main_loop_set (xs_handler s)")
        case True
        with step SendingAck None t show ?thesis by (auto simp: exec_step_def Let_def)
      next
        case False
        with step SendingAck None show ?thesis by (intro failed [OF _ s1]) (simp add: exec_step_def Let_def s1_def)
      qed
    next
      case (Some e)
      with step SendingAck show ?thesis by (intro respond [OF _ s1, of "from_error e 500"]) (simp add: exec_step_def Let_def s1_def)
    qed
  next
    case (Responding res)
    show ?thesis
    proof (cases res)
      case (Inl e)
      with step Responding show ?thesis by (intro failed [of s]) (simp_all add: exec_step_def Let_def)
    next
      case (Inr res1)
      with step Responding show ?thesis by (intro respond [of res1 s]) (simp_all add: exec_step_def Let_def)
    qed
  qed (use assms in \<open>auto simp: exec_step_def Let_def\<close>)
qed

section \<open>The invariant\<close>

abbreviation jobs_of :: "'w exec_system \<Rightarrow> nat list \<Rightarrow> (string \<times> comm_request) list" where
  "jobs_of s ts \<equiv> map (\<lambda>t. job_of (task_of s t)) ts"

definition linear_inv :: "codec \<Rightarrow> (string \<Rightarrow> comm_request \<Rightarrow> 'w \<Rightarrow> (exc + comm_response) \<times> 'w) \<Rightarrow> 'w \<Rightarrow> 'w exec_system \<Rightarrow> nat list \<Rightarrow> bool" where
  "linear_inv codec post w0 s ts = (distinct ts
     \<and> (\<forall>t\<in>set ts. t < length (xh_tasks (xs_handler s)) \<and> \<not> early (et_pc (task_of s t))
          \<and> ack_message codec (et_request (task_of s t)) \<in> set (xs_sent s))
     \<and> xs_world s = run_jobs post (jobs_of s ts) w0
     \<and> (\<forall>t < length (xh_tasks (xs_handler s)). \<forall>res. et_pc (task_of s t) = Responding res \<longrightarrow>
          (\<exists>pre suf. ts = pre @ t # suf \<and> res = fst (run_job post (job_of (task_of s t)) (run_jobs post (jobs_of s pre) w0)))))"

lemma linear_inv_D:
  assumes "linear_inv codec post w0 s ts"
  shows "distinct ts" "t \<in> set ts \<Longrightarrow> t < length (xh_tasks (xs_handler s))" "t \<in> set ts \<Longrightarrow> \<not> early (et_pc (task_of s t))"
    "t \<in> set ts \<Longrightarrow> ack_message codec (et_request (task_of s t)) \<in> set (xs_sent s)"
    "xs_world s = run_jobs post (jobs_of s ts) w0"
    "t < length (xh_tasks (xs_handler s)) \<Longrightarrow> et_pc (task_of s t) = Responding res \<Longrightarrow>
      \<exists>pre suf. ts = pre @ t # suf \<and> res = fst (run_job post (job_of (task_of s t)) (run_jobs post (jobs_of s pre) w0))"
  using assms unfolding linear_inv_def by blast+

text \<open>What a step that runs no function does to the tasks.\<close>

definition calm_task :: "codec \<Rightarrow> exec_task \<Rightarrow> exec_task \<Rightarrow> bool" where
  "calm_task codec task task' = (job_of task' = job_of task
     \<and> ack_message codec (et_request task') = ack_message codec (et_request task)
     \<and> (\<not> early (et_pc task) \<longrightarrow> \<not> early (et_pc task')) \<and> (\<forall>res. et_pc task' = Responding res \<longrightarrow> et_pc task = Responding res))"

definition calm :: "codec \<Rightarrow> 'w exec_system \<Rightarrow> 'w exec_system \<Rightarrow> bool" where
  "calm codec s s' = (xs_world s' = xs_world s \<and> set (xs_sent s) \<subseteq> set (xs_sent s')
     \<and> length (xh_tasks (xs_handler s)) \<le> length (xh_tasks (xs_handler s'))
     \<and> (\<forall>t < length (xh_tasks (xs_handler s)). calm_task codec (task_of s t) (task_of s' t))
     \<and> (\<forall>t < length (xh_tasks (xs_handler s')). t < length (xh_tasks (xs_handler s)) \<or> early (et_pc (task_of s' t))))"

lemma linear_inv_calm:
  assumes inv: "linear_inv codec post w0 s ts" and calm: "calm codec s s'"
  shows "linear_inv codec post w0 s' ts"
proof -
  have ts: "t < length (xh_tasks (xs_handler s))" "calm_task codec (task_of s t) (task_of s' t)" if "t \<in> set ts" for t
    using inv calm that by (auto simp: linear_inv_def calm_def)
  then have jobs: "jobs_of s' us = jobs_of s us" if "set us \<subseteq> set ts" for us
    using that by (auto simp: calm_task_def)
  show ?thesis
    unfolding linear_inv_def
  proof (intro conjI ballI allI impI)
    fix t res assume t: "t < length (xh_tasks (xs_handler s'))" "et_pc (task_of s' t) = Responding res"
    then have old: "t < length (xh_tasks (xs_handler s))" using calm by (auto simp: calm_def)
    then have c: "calm_task codec (task_of s t) (task_of s' t)" using calm by (simp add: calm_def)
    then have "et_pc (task_of s t) = Responding res" using t(2) by (simp add: calm_task_def)
    from linear_inv_D(6) [OF inv old this] obtain pre suf where "ts = pre @ t # suf"
      "res = fst (run_job post (job_of (task_of s t)) (run_jobs post (jobs_of s pre) w0))" by blast
    moreover from this(1) have "jobs_of s' pre = jobs_of s pre" by (intro jobs) auto
    moreover have "job_of (task_of s' t) = job_of (task_of s t)" using c by (simp add: calm_task_def)
    ultimately have "ts = pre @ t # suf \<and> res = fst (run_job post (job_of (task_of s' t)) (run_jobs post (jobs_of s' pre) w0))"
      by (simp del: map_eq_conv)
    then show "\<exists>pre suf. ts = pre @ t # suf \<and> res = fst (run_job post (job_of (task_of s' t)) (run_jobs post (jobs_of s' pre) w0))"
      by blast
  next
    show "xs_world s' = run_jobs post (jobs_of s' ts) w0"
      unfolding jobs [OF subset_refl] using inv calm by (simp add: linear_inv_def calm_def)
  next
    fix t assume t: "t \<in> set ts"
    show "t < length (xh_tasks (xs_handler s'))" using ts(1) [OF t] calm by (simp add: calm_def)
    show "\<not> early (et_pc (task_of s' t))" using ts(2) [OF t] linear_inv_D(3) [OF inv t] by (simp add: calm_task_def)
    show "ack_message codec (et_request (task_of s' t)) \<in> set (xs_sent s')"
      using ts(2) [OF t] linear_inv_D(4) [OF inv t] calm by (auto simp: calm_task_def calm_def)
  qed (rule linear_inv_D(1) [OF inv])
qed

lemma linear_inv_run:
  assumes inv: "linear_inv codec post w0 s ts" and ack: "ack_inv codec s"
    and t: "t < length (xh_tasks (xs_handler s))" and run: "et_pc (task_of s t) = RunningFn" and step: "exec_step codec post now r t s = Some s'"
  shows "linear_inv codec post w0 s' (ts @ [t])"
proof -
  note after = exec_step_runs [OF step t run]
  obtain pc' where shape: "step_shape codec t s s' pc'" using exec_step_shape [OF step] by blast
  then have tasks: "xh_tasks (xs_handler s') = (xh_tasks (xs_handler s))[t := (task_of s t)\<lparr>et_pc := pc'\<rparr>]"
    and sent: "set (xs_sent s) \<subseteq> set (xs_sent s')" by (simp_all add: step_shape_def)
  have task: "task_of s' u = (if u = t then (task_of s t)\<lparr>et_pc := pc'\<rparr> else task_of s u)" for u
    using t by (simp add: tasks)
  have len: "length (xh_tasks (xs_handler s')) = length (xh_tasks (xs_handler s))" by (simp add: tasks)
  have pc': "pc' = Responding (fst (run_job post (job_of (task_of s t)) (xs_world s)))" using after(2) by (simp add: task)
  have job: "job_of (task_of s' u) = job_of (task_of s u)" for u by (simp add: task job_of_def)
  have fresh: "t \<notin> set ts" using inv run by (auto simp: linear_inv_def)
  have "ack_message codec (et_request (task_of s t)) \<in> set (xs_sent s')" using ack t run sent by (auto simp: ack_inv_def)
  moreover have "\<exists>pre suf. ts @ [t] = pre @ u # suf \<and> res = fst (run_job post (job_of (task_of s' u)) (run_jobs post (jobs_of s' pre) w0))"
    if u: "u < length (xh_tasks (xs_handler s'))" "et_pc (task_of s' u) = Responding res" for u res
  proof (cases "u = t")
    case True
    with u(2) have "res = fst (run_job post (job_of (task_of s t)) (xs_world s))" by (simp add: task pc')
    then have "ts @ [t] = ts @ u # [] \<and> res = fst (run_job post (job_of (task_of s' u)) (run_jobs post (jobs_of s' ts) w0))"
      by (simp add: True job linear_inv_D(5) [OF inv])
    then show ?thesis by blast
  next
    case False
    with u have "u < length (xh_tasks (xs_handler s))" "et_pc (task_of s u) = Responding res" by (simp_all add: task len)
    from linear_inv_D(6) [OF inv this] obtain pre suf where "ts = pre @ u # suf"
      "res = fst (run_job post (job_of (task_of s u)) (run_jobs post (jobs_of s pre) w0))" by blast
    then have "ts @ [t] = pre @ u # (suf @ [t]) \<and> res = fst (run_job post (job_of (task_of s' u)) (run_jobs post (jobs_of s' pre) w0))"
      by (simp add: job)
    then show ?thesis by blast
  qed
  moreover have "u < length (xh_tasks (xs_handler s')) \<and> \<not> early (et_pc (task_of s' u))
      \<and> ack_message codec (et_request (task_of s' u)) \<in> set (xs_sent s')" if "u \<in> set ts" for u
    using linear_inv_D(2-4) [OF inv that] sent by (auto simp: task len pc')
  moreover have "xs_world s' = run_jobs post (jobs_of s' (ts @ [t])) w0" by (simp add: after(1) job linear_inv_D(5) [OF inv])
  ultimately show ?thesis
    unfolding linear_inv_def using fresh t linear_inv_D(1) [OF inv] by (auto simp: task len pc')
qed

section \<open>Every run\<close>

lemma calm_refl: "calm_task codec task task"
  by (simp add: calm_task_def)

lemma calm_updateI:
  assumes "xh_tasks (xs_handler s') = (xh_tasks (xs_handler s))[t := task]" and "calm_task codec (task_of s t) task"
    and "xs_world s' = xs_world s" and "set (xs_sent s) \<subseteq> set (xs_sent s')"
  shows "calm codec s s'"
proof -
  have "calm_task codec (task_of s u) (task_of s' u)" if "u < length (xh_tasks (xs_handler s))" for u
    using assms(1,2) that by (cases "u = t") (simp_all add: calm_refl)
  then show ?thesis using assms by (simp add: calm_def)
qed

lemma touched_calm: "touched codec task task' \<Longrightarrow> calm_task codec task task'"
  by (auto simp: touched_def calm_task_def job_of_def)

lemma exec_step_calm:
  assumes step: "exec_step codec post now r t s = Some s'" and t: "t < length (xh_tasks (xs_handler s))" and pc: "et_pc (task_of s t) \<noteq> RunningFn"
  shows "calm codec s s'"
proof -
  obtain pc' where shape: "step_shape codec t s s' pc'" using exec_step_shape [OF step] by blast
  then have tasks: "xh_tasks (xs_handler s') = (xh_tasks (xs_handler s))[t := (task_of s t)\<lparr>et_pc := pc'\<rparr>]"
    and sent: "set (xs_sent s) \<subseteq> set (xs_sent s')" by (simp_all add: step_shape_def)
  note progress = exec_step_progress [OF step t pc]
  have "et_pc (task_of s' t) = pc'" using t by (simp add: tasks)
  then have "calm_task codec (task_of s t) ((task_of s t)\<lparr>et_pc := pc'\<rparr>)"
    using progress by (auto simp: calm_task_def job_of_def settled_def)
  from calm_updateI [OF tasks this] progress sent show ?thesis by blast
qed

lemma calm_quiet:
  assumes "xh_tasks (xs_handler s') = xh_tasks (xs_handler s)" and "xs_world s' = xs_world s" and "set (xs_sent s) \<subseteq> set (xs_sent s')"
  shows "calm codec s s'"
  using assms by (simp add: calm_def calm_refl)

section \<open>The history\<close>

text \<open>The tasks whose function ran in a step, and the reachable states with the user's state at the start and with the
  tasks whose functions have run, in the order in which they ran.\<close>

definition ran :: "'w exec_system \<Rightarrow> 'w exec_system \<Rightarrow> nat list" where
  "ran s s' = filter (\<lambda>t. et_pc (task_of s t) = RunningFn \<and> (\<exists>res. et_pc (task_of s' t) = Responding res))
     [0..<length (xh_tasks (xs_handler s))]"

inductive exec_history :: "codec \<Rightarrow> string set \<Rightarrow> (string \<Rightarrow> comm_request \<Rightarrow> 'w \<Rightarrow> (exc + comm_response) \<times> 'w) \<Rightarrow> bool
    \<Rightarrow> 'w \<Rightarrow> nat list \<Rightarrow> 'w exec_system \<Rightarrow> bool" for codec apps post dup where
  start: "exec_history codec apps post dup w [] (exec_initial w main_loop_set)"
| step: "exec_history codec apps post dup w ts s \<Longrightarrow> exec_sys_step codec apps post dup s s' \<Longrightarrow>
    exec_history codec apps post dup w (ts @ ran s s') s'"

lemma history_reachable: "exec_history codec apps post dup w ts s \<Longrightarrow> exec_reachable codec apps post dup s"
  by (induction rule: exec_history.induct) (auto intro: exec_reachable.intros)

lemma reachable_history: "exec_reachable codec apps post dup s \<Longrightarrow> \<exists>w ts. exec_history codec apps post dup w ts s"
  by (induction rule: exec_reachable.induct) (blast intro: exec_history.intros)+

lemma ran_calm: "calm codec s s' \<Longrightarrow> ran s s' = []"
  by (auto simp: ran_def calm_def calm_task_def filter_empty_conv)

lemma ran_run:
  assumes step: "exec_step codec post now r t s = Some s'" and t: "t < length (xh_tasks (xs_handler s))"
    and run: "et_pc (task_of s t) = RunningFn"
  shows "ran s s' = [t]"
proof -
  obtain pc' where "step_shape codec t s s' pc'" using exec_step_shape [OF step] by blast
  then have "xh_tasks (xs_handler s') = (xh_tasks (xs_handler s))[t := (task_of s t)\<lparr>et_pc := pc'\<rparr>]" by (simp add: step_shape_def)
  then have same: "task_of s' u = task_of s u" if "u \<noteq> t" for u using that by simp
  let ?P = "\<lambda>u. et_pc (task_of s u) = RunningFn \<and> (\<exists>res. et_pc (task_of s' u) = Responding res)"
  have "?P u \<longleftrightarrow> u = t" for u
    using exec_step_runs(2) [OF step t run] run same [of u] by (cases "u = t") auto
  then have "ran s s' = filter (\<lambda>u. u = t) [0..<length (xh_tasks (xs_handler s))]" by (simp add: ran_def)
  also have "\<dots> = [t]"
  proof -
    have "[0..<length (xh_tasks (xs_handler s))] = [0..<t] @ t # [Suc t..<length (xh_tasks (xs_handler s))]"
      using t by (metis less_imp_le_nat upt_add_eq_append upt_conv_Cons le_add_diff_inverse zero_le)
    then show ?thesis by (simp add: filter_empty_conv)
  qed
  finally show ?thesis .
qed

lemma linear_inv_step:
  assumes step: "exec_sys_step codec apps post dup s s'" and inv: "linear_inv codec post w0 s ts" and ack: "ack_inv codec s"
  shows "linear_inv codec post w0 s' (ts @ ran s s')"
proof -
  have calm: ?thesis if "calm codec s s'" using linear_inv_calm [OF inv that] ran_calm [OF that] by simp
  from step show ?thesis
  proof cases
    case own
    then show ?thesis
    proof (cases rule: exec_own_cases)
      case (task t now r)
      show ?thesis
      proof (cases "et_pc (task_of s t) = RunningFn")
        case True
        from linear_inv_run [OF inv ack task(1) True task(2)] ran_run [OF task(2,1) True] show ?thesis by simp
      next
        case False
        from calm [OF exec_step_calm [OF task(2,1) False]] show ?thesis .
      qed
    next
      case quiet
      from calm [OF calm_quiet [OF quiet(1,4,7)]] show ?thesis .
    qed
  next
    case (msg kind payload x' st')
    from msg(3) show ?thesis
    proof (cases rule: exec_handle_msg_cases)
      case (add req)
      have "calm codec s s'" by (auto simp: calm_def msg(1) add nth_append calm_refl)
      then show ?thesis by (rule calm)
    next
      case (touch t task)
      have "calm codec s s'" by (rule calm_updateI [OF _ touched_calm [OF touch(2)]]) (simp_all add: msg(1) touch(1))
      then show ?thesis by (rule calm)
    qed
  qed (intro calm calm_quiet; simp)+
qed

lemma linear_inv_init: "linear_inv codec post w (exec_initial w main_loop_set) []"
  by (simp add: linear_inv_def exec_initial_def exec_start_def exec_init_def run_jobs_def)

lemma linear_inv_history: "exec_history codec apps post dup w ts s \<Longrightarrow> linear_inv codec post w s ts"
  by (induction rule: exec_history.induct)
    (blast intro: linear_inv_init linear_inv_step ack_inv_reachable history_reachable)+

text \<open>C10: Each accepted request runs at most once, and is answered with its own result.  Take any run of the execution handler,
  whatever the interleaving of its tasks with messages, lease extensions, repeated requests and closing (every reachable
  state has such a run); let \<open>w\<close> be the user's state at its start and \<open>ts\<close> the tasks (a task is one accepted
  request) whose functions ran in it, in order.  Then no task is twice in \<open>ts\<close>; each was acknowledged before; the user's
  state is what the functions of \<open>ts\<close>, run one after the other from \<open>w\<close>, make of it; and a task that is about to
  answer is in \<open>ts\<close> and answers with what its own run returned at its place in this order.  The run of a function
  on the main loop is one step of the model, and a task that is cancelled meanwhile counts as not run: what is shown is the order and the number
  of the runs, not how functions that await one another's effects interleave.\<close>

theorem executions_linearize:
  assumes "exec_history codec apps post dup w ts s"
  shows "distinct ts \<and> set ts \<subseteq> {..<length (xh_tasks (xs_handler s))}
    \<and> (\<forall>t\<in>set ts. ack_message codec (et_request (task_of s t)) \<in> set (xs_sent s))
    \<and> xs_world s = run_jobs post (jobs_of s ts) w
    \<and> (\<forall>t < length (xh_tasks (xs_handler s)). \<forall>res. et_pc (task_of s t) = Responding res \<longrightarrow>
        (\<exists>pre suf. ts = pre @ t # suf \<and> res = fst (run_job post (job_of (task_of s t)) (run_jobs post (jobs_of s pre) w))))"
  using linear_inv_D [OF linear_inv_history [OF assms]] by blast

definition demo_responding :: "nat exec_system" where
  "demo_responding = (demo_exec RunningFn (Some 7) [''ack r1''] 0)\<lparr>xs_world := 1,
     xs_handler := set_pc 0 (Responding (Inr (mk_CommResponse PNone [] 200))) (xs_handler (demo_exec RunningFn (Some 7) [''ack r1''] 0))\<rparr>"

lemma demo_responding_step: "exec_sys_step demo_codec {''app''} demo_post False (demo_exec RunningFn (Some 7) [''ack r1''] 0) demo_responding"
proof -
  have "exec_step demo_codec demo_post 0 SendOk 0 (demo_exec RunningFn (Some 7) [''ack r1''] 0) = Some demo_responding"
    by (simp add: exec_step_def demo_responding_def demo_exec_simps demo_post_def)
  then show ?thesis by (rule exec_sys_step.own [OF exec_own_step.task [rotated]]) (simp add: demo_exec_simps)
qed

text \<open>The history of a request that has run: it is the only one, and the user's state was 0 before it.\<close>

theorem executions_linearize_witness:
  "\<exists>w ts. exec_history demo_codec {''app''} demo_post False w ts demo_responding
    \<and> ts = [0] \<and> run_jobs demo_post (jobs_of demo_responding [0]) w = 1"
proof -
  have one: "length (xh_tasks (xs_handler demo_responding)) = 1" "et_pc (task_of demo_responding 0) = Responding (Inr (mk_CommResponse PNone [] 200))"
    by (simp_all add: demo_responding_def demo_exec_simps set_pc_def)
  obtain w ts where "exec_history demo_codec {''app''} demo_post False w ts (demo_exec RunningFn (Some 7) [''ack r1''] 0)"
    using reachable_history [OF demo_exec_running] by blast
  from exec_history.step [OF this demo_responding_step] obtain ts' where
    hist: "exec_history demo_codec {''app''} demo_post False w ts' demo_responding" by blast
  note facts = executions_linearize [OF hist]
  obtain pre suf where "ts' = pre @ 0 # suf" using facts one by auto
  moreover from this facts one(1) have "pre = []" "suf = []" by (cases pre; cases suf; auto)+
  ultimately have "ts' = [0]" by simp
  moreover have "xs_world demo_responding = 1" by (simp add: demo_responding_def)
  ultimately show ?thesis using hist facts by auto
qed

end
