(* ===== verification/Watcher.thy ===== *)
theory Watcher
  imports Prelude
begin

text \<open>
  \<open>connect/_internal/value_watcher.py\<close>: a value that any thread may set and that coroutines wait on.  Every wait
  has a queue of its own; setting a value takes a snapshot of the queues under the lock and notifies them later, in no
  particular order with respect to other setters.  The operations on the watcher are functions; the waits and the
  deliveries are steps of \<open>vw_step\<close>, one for each stretch of code between two points at which another thread
  or coroutine can act.
\<close>

section \<open>The watcher\<close>

text \<open>A queue is named together with its event loop; a callback by a number.\<close>

record 't watcher =
  vw_value :: 't
  vw_watch_queues :: "(nat \<times> nat) list"
  vw_on_changes :: "nat list"

datatype 't notice = ToQueue nat nat 't 't | Callback nat 't 't

definition ValueWatcher :: "'t \<Rightarrow> nat option \<Rightarrow> 't watcher" where
  "ValueWatcher initial_value on_change =
     \<lparr>vw_value = initial_value, vw_watch_queues = [], vw_on_changes = (case on_change of None \<Rightarrow> [] | Some c \<Rightarrow> [c])\<rparr>"

text \<open>What a setter sends after it has released the lock: to the queues first, then to the callbacks.\<close>

definition notices :: "'t watcher \<Rightarrow> 't \<Rightarrow> 't notice list" where
  "notices w new_value = map (\<lambda>(loop, queue). ToQueue loop queue (vw_value w) new_value) (vw_watch_queues w)
     @ map (\<lambda>c. Callback c (vw_value w) new_value) (vw_on_changes w)"

definition set_value :: "'t \<Rightarrow> 't watcher \<Rightarrow> 't notice list \<times> 't watcher" where
  "set_value new_value w =
     (if new_value = vw_value w then ([], w) else (notices w new_value, w\<lparr>vw_value := new_value\<rparr>))"

definition set_if :: "'t \<Rightarrow> ('t \<Rightarrow> bool) \<Rightarrow> 't watcher \<Rightarrow> bool \<times> 't notice list \<times> 't watcher" where
  "set_if new_value condition w =
     (if \<not> condition (vw_value w) then (False, [], w)
      else if new_value = vw_value w then (True, [], w)
      else (True, notices w new_value, w\<lparr>vw_value := new_value\<rparr>))"

definition on_change :: "nat \<Rightarrow> 't watcher \<Rightarrow> 't watcher" where
  "on_change callback w = w\<lparr>vw_on_changes := vw_on_changes w @ [callback]\<rparr>"

definition watch :: "nat \<Rightarrow> nat \<Rightarrow> 't watcher \<Rightarrow> 't watcher" where
  "watch loop queue w = w\<lparr>vw_watch_queues := vw_watch_queues w @ [(loop, queue)]\<rparr>"

definition remove_queue :: "nat \<Rightarrow> 't watcher \<Rightarrow> 't watcher" where
  "remove_queue queue w = w\<lparr>vw_watch_queues := filter (\<lambda>entry. snd entry \<noteq> queue) (vw_watch_queues w)\<rparr>"

section \<open>Waits\<close>

record 't wait =
  wt_condition :: "'t \<Rightarrow> bool"
  wt_immediate :: bool

definition wait_for :: "'t \<Rightarrow> bool \<Rightarrow> 't wait" where
  "wait_for v immediate = \<lparr>wt_condition = (\<lambda>x. x = v), wt_immediate = immediate\<rparr>"

definition wait_for_not :: "'t \<Rightarrow> bool \<Rightarrow> 't wait" where
  "wait_for_not v immediate = \<lparr>wt_condition = (\<lambda>x. x \<noteq> v), wt_immediate = immediate\<rparr>"

definition wait_for_not_none :: "bool \<Rightarrow> 't option wait" where
  "wait_for_not_none immediate = \<lparr>wt_condition = (\<lambda>x. x \<noteq> None), wt_immediate = immediate\<rparr>"

definition wait_for_change :: "'t wait" where
  "wait_for_change = \<lparr>wt_condition = (\<lambda>x. True), wt_immediate = False\<rparr>"

text \<open>
  Where a wait stands: before its fast path, after it, with its queue registered, blocked on its queue, and its two
  ends.
\<close>

datatype 't wait_state = Start | Subscribing | Registered | Waiting | Returned 't | TimedOut

record 't vw_system =
  sy_watcher :: "'t watcher"
  sy_notices :: "'t notice list"
  sy_queue :: "nat \<Rightarrow> ('t \<times> 't) list"
  sy_wait :: "nat \<Rightarrow> 't wait_state"

text \<open>
  One stretch of the wait on queue \<open>q\<close>, on loop \<open>l\<close>; \<open>None\<close> when it is blocked or has ended.  A wait that
  ends leaves the \<open>with\<close> block and so removes its queue.
\<close>

definition leave :: "nat \<Rightarrow> 't wait_state \<Rightarrow> 't vw_system \<Rightarrow> 't vw_system" where
  "leave q r s = s\<lparr>sy_watcher := remove_queue q (sy_watcher s), sy_wait := (sy_wait s)(q := r)\<rparr>"

definition wait_step :: "'t wait \<Rightarrow> nat \<Rightarrow> nat \<Rightarrow> 't vw_system \<Rightarrow> 't vw_system option" where
  "wait_step wt l q s = (let current = vw_value (sy_watcher s) in
     case sy_wait s q of
       Start \<Rightarrow> Some (s\<lparr>sy_wait := (sy_wait s)
                     (q := if wt_immediate wt \<and> wt_condition wt current then Returned current else Subscribing)\<rparr>)
     | Subscribing \<Rightarrow> Some (s\<lparr>sy_watcher := watch l q (sy_watcher s), sy_wait := (sy_wait s)(q := Registered)\<rparr>)
     | Registered \<Rightarrow>
         Some (if wt_immediate wt \<and> wt_condition wt current then leave q (Returned current) s
               else s\<lparr>sy_wait := (sy_wait s)(q := Waiting)\<rparr>)
     | Waiting \<Rightarrow>
         (case sy_queue s q of
            [] \<Rightarrow> None
          | (old, new) # items \<Rightarrow>
              (let s' = s\<lparr>sy_queue := (sy_queue s)(q := items)\<rparr> in
               Some (if wt_condition wt new then leave q (Returned new) s' else s')))
     | _ \<Rightarrow> None)"

definition put_notice :: "'t notice \<Rightarrow> 't vw_system \<Rightarrow> 't vw_system" where
  "put_notice n s = (case n of
     ToQueue l q old new \<Rightarrow> s\<lparr>sy_queue := (sy_queue s)(q := sy_queue s q @ [(old, new)])\<rparr>
   | Callback c old new \<Rightarrow> s)"

definition send_notices :: "'t notice list \<times> 't watcher \<Rightarrow> 't vw_system \<Rightarrow> 't vw_system" where
  "send_notices r s = s\<lparr>sy_watcher := snd r, sy_notices := sy_notices s @ fst r\<rparr>"

text \<open>
  \<open>qs\<close> are the queues of the waits that the program makes, \<open>waits\<close> gives the wait on each and \<open>loops\<close> its loop.  Deliveries and the waits' own steps are internal;
  what sets the value or ends a wait by its timeout comes from outside.
\<close>

inductive internal_step :: "nat set \<Rightarrow> (nat \<Rightarrow> 't wait) \<Rightarrow> (nat \<Rightarrow> nat) \<Rightarrow> 't vw_system \<Rightarrow> 't vw_system \<Rightarrow> bool"
  for qs waits loops where
  deliver: "sy_notices s = ns @ n # ns' \<Longrightarrow> internal_step qs waits loops s (put_notice n (s\<lparr>sy_notices := ns @ ns'\<rparr>))"
| wait: "q \<in> qs \<Longrightarrow> wait_step (waits q) (loops q) q s = Some s' \<Longrightarrow> internal_step qs waits loops s s'"

inductive vw_step :: "nat set \<Rightarrow> (nat \<Rightarrow> 't wait) \<Rightarrow> (nat \<Rightarrow> nat) \<Rightarrow> 't vw_system \<Rightarrow> 't vw_system \<Rightarrow> bool"
  for qs waits loops where
  internal: "internal_step qs waits loops s s' \<Longrightarrow> vw_step qs waits loops s s'"
| set: "vw_step qs waits loops s (send_notices (set_value v (sy_watcher s)) s)"
| set_cond: "vw_step qs waits loops s (send_notices (snd (set_if v condition (sy_watcher s))) s)"
| timeout: "sy_wait s q \<in> {Subscribing, Registered, Waiting} \<Longrightarrow> vw_step qs waits loops s (leave q TimedOut s)"

definition vw_initial :: "'t \<Rightarrow> 't vw_system" where
  "vw_initial v = \<lparr>sy_watcher = ValueWatcher v None, sy_notices = [], sy_queue = (\<lambda>q. []), sy_wait = (\<lambda>q. Start)\<rparr>"

inductive vw_reachable :: "nat set \<Rightarrow> (nat \<Rightarrow> 't wait) \<Rightarrow> (nat \<Rightarrow> nat) \<Rightarrow> 't vw_system \<Rightarrow> bool"
  for qs waits loops where
  init: "vw_reachable qs waits loops (vw_initial v)"
| step: "vw_reachable qs waits loops s \<Longrightarrow> vw_step qs waits loops s s' \<Longrightarrow> vw_reachable qs waits loops s'"

inductive_cases internal_stepE: "internal_step qs waits loops s s'"
inductive_cases vw_stepE: "vw_step qs waits loops s s'"

section \<open>No wake-up is lost\<close>

text \<open>A value that is on its way to the queue \<open>q\<close> or in it.\<close>

definition pending :: "'t vw_system \<Rightarrow> nat \<Rightarrow> 't \<Rightarrow> bool" where
  "pending s q v = (v \<in> snd ` set (sy_queue s q) \<or> (\<exists>l old. ToQueue l q old v \<in> set (sy_notices s)))"

definition registered :: "'t vw_system \<Rightarrow> nat \<Rightarrow> bool" where
  "registered s q = (q \<in> snd ` set (vw_watch_queues (sy_watcher s)))"

text \<open>
  A wait that has registered its queue finds it among the watcher's; one that is blocked, whose first look at the
  value failed, has a change to every value that the watcher then takes on its way; one that returned a value got one
  that satisfies its condition.
\<close>

definition wait_inv :: "'t wait \<Rightarrow> 't vw_system \<Rightarrow> nat \<Rightarrow> bool" where
  "wait_inv wt s q = (case sy_wait s q of
     Registered \<Rightarrow> registered s q
   | Waiting \<Rightarrow> registered s q \<and>
       (wt_immediate wt \<longrightarrow> wt_condition wt (vw_value (sy_watcher s)) \<longrightarrow> pending s q (vw_value (sy_watcher s)))
   | Returned v \<Rightarrow> wt_condition wt v
   | _ \<Rightarrow> True)"

lemma registered_simps [simp]:
  "registered (s\<lparr>sy_wait := w\<rparr>) q = registered s q" "registered (s\<lparr>sy_queue := f\<rparr>) q = registered s q"
  "registered (s\<lparr>sy_watcher := watch l q (sy_watcher s)\<rparr>) q" "registered (s\<lparr>sy_watcher := watch l q (sy_watcher s), sy_wait := w\<rparr>) q"
  by (simp_all add: registered_def watch_def)

lemma registered_remove: "registered s q \<Longrightarrow> q \<noteq> q'
    \<Longrightarrow> q \<in> snd ` set (vw_watch_queues (remove_queue q' (sy_watcher s)))"
  by (force simp: registered_def remove_queue_def)

lemma wait_inv_leave:
  assumes "wait_inv wt s q" and "q \<noteq> q'"
  shows "wait_inv wt (leave q' r s) q"
  using assms registered_remove [of s q q']
  by (auto simp: wait_inv_def leave_def registered_def pending_def remove_queue_def split: wait_state.splits)

lemma wait_inv_send:
  assumes "wait_inv wt s q" and "r = ([], sy_watcher s) \<or> r = (notices (sy_watcher s) v, (sy_watcher s)\<lparr>vw_value := v\<rparr>)"
  shows "wait_inv wt (send_notices r s) q"
  using assms by (force simp: wait_inv_def send_notices_def registered_def pending_def notices_def split: wait_state.splits)

lemma wait_inv_deliver:
  assumes "wait_inv wt s q" and "sy_notices s = ns @ n # ns'"
  shows "wait_inv wt (put_notice n (s\<lparr>sy_notices := ns @ ns'\<rparr>)) q"
  using assms by (cases n) (auto simp: wait_inv_def put_notice_def registered_def pending_def image_iff split: wait_state.splits)

lemma wait_inv_own:
  assumes inv: "wait_inv wt s q" and step: "wait_step wt l q s = Some s'"
  shows "wait_inv wt s' q"
proof (cases "sy_wait s q")
  case Waiting
  with step obtain old new items where q: "sy_queue s q = (old, new) # items"
    by (auto simp: wait_step_def Let_def split: list.splits)
  show ?thesis
  proof (cases "wt_condition wt new")
    case True
    with step show ?thesis by (auto simp: wait_step_def Let_def Waiting q wait_inv_def leave_def)
  next
    case False
    with step have s': "s' = s\<lparr>sy_queue := (sy_queue s)(q := items)\<rparr>" by (simp add: wait_step_def Let_def Waiting q)
    have "pending s q v \<Longrightarrow> v = new \<or> pending s' q v" for v by (auto simp: pending_def q s')
    with inv False show ?thesis by (auto simp: wait_inv_def Waiting s' registered_def)
  qed
qed (use inv step in \<open>auto simp: wait_step_def Let_def wait_inv_def leave_def pending_def split: if_splits\<close>)

lemma wait_inv_watch:
  assumes "wait_inv wt s q"
  shows "wait_inv wt (s\<lparr>sy_watcher := watch l q' (sy_watcher s), sy_wait := (sy_wait s)(q' := r)\<rparr>) q \<or> q = q'"
  using assms by (auto simp: wait_inv_def watch_def registered_def pending_def split: wait_state.splits)

lemma wait_inv_other:
  assumes inv: "wait_inv wt s q" and step: "wait_step wt' l q' s = Some s'" and neq: "q \<noteq> q'"
  shows "wait_inv wt s' q"
proof (cases "sy_wait s q'")
  case Subscribing
  with step wait_inv_watch [OF inv, where l = l and q' = q' and r = Registered] neq show ?thesis by (auto simp: wait_step_def Let_def)
next
  case Waiting
  with step obtain old new items where q: "sy_queue s q' = (old, new) # items"
    by (auto simp: wait_step_def Let_def split: list.splits)
  have "wait_inv wt (s\<lparr>sy_queue := (sy_queue s)(q' := items)\<rparr>) q"
    using inv neq by (auto simp: wait_inv_def registered_def pending_def split: wait_state.splits)
  with step Waiting q wait_inv_leave [OF this neq] show ?thesis by (auto simp: wait_step_def Let_def split: if_splits)
next
  case Registered
  have "wait_inv wt (s\<lparr>sy_wait := (sy_wait s)(q' := Waiting)\<rparr>) q"
    using inv neq by (auto simp: wait_inv_def registered_def pending_def split: wait_state.splits)
  with step Registered wait_inv_leave [OF inv neq] show ?thesis by (auto simp: wait_step_def Let_def split: if_splits)
next
  case Start
  have "wait_inv wt (s\<lparr>sy_wait := (sy_wait s)(q' := r)\<rparr>) q" for r
    using inv neq by (auto simp: wait_inv_def registered_def pending_def split: wait_state.splits)
  with step Start show ?thesis by (auto simp: wait_step_def Let_def)
qed (use step in \<open>simp_all add: wait_step_def Let_def\<close>)

lemma wait_inv_step:
  assumes "vw_step qs waits loops s s'" and inv: "\<And>q. wait_inv (waits q) s q"
  shows "wait_inv (waits q) s' q"
  using assms(1)
proof cases
  case internal
  then show ?thesis
  proof cases
    case (deliver ns n ns')
    with wait_inv_deliver [OF inv] show ?thesis by blast
  next
    case (wait q')
    with wait_inv_own [OF inv, of q'] wait_inv_other [OF inv, of "waits q'" "loops q'" q' s' q] show ?thesis
      by (cases "q = q'") auto
  qed
next
  case (set v)
  have "set_value v (sy_watcher s) = ([], sy_watcher s)
      \<or> set_value v (sy_watcher s) = (notices (sy_watcher s) v, (sy_watcher s)\<lparr>vw_value := v\<rparr>)"
    by (simp add: set_value_def)
  with wait_inv_send [OF inv] show ?thesis unfolding set by blast
next
  case (set_cond v condition)
  have "snd (set_if v condition (sy_watcher s)) = ([], sy_watcher s)
      \<or> snd (set_if v condition (sy_watcher s)) = (notices (sy_watcher s) v, (sy_watcher s)\<lparr>vw_value := v\<rparr>)"
    by (simp add: set_if_def)
  with wait_inv_send [OF inv] show ?thesis unfolding set_cond by blast
next
  case (timeout q')
  then show ?thesis
    using wait_inv_leave [OF inv, where q' = q' and r = TimedOut] by (cases "q = q'") (auto simp: wait_inv_def leave_def)
qed

lemma reachable_wait_inv: "vw_reachable qs waits loops s \<Longrightarrow> wait_inv (waits q) s q"
proof (induction arbitrary: q rule: vw_reachable.induct)
  case (init v)
  then show ?case by (simp add: wait_inv_def vw_initial_def)
next
  case (step s s')
  then show ?case using wait_inv_step by blast
qed

text \<open>C16: No wake-up is lost, whatever threads set the value and however their notifications are ordered: when nothing
  is left to deliver and a wait with \<open>immediate\<close> is blocked on its empty queue, the value does not satisfy its
  condition; and what a wait returns always satisfies its condition.\<close>

theorem no_lost_wakeup:
  assumes "vw_reachable qs waits loops s" and "wt_immediate (waits q)"
  shows "(sy_notices s = [] \<and> sy_queue s q = [] \<and> sy_wait s q = Waiting \<longrightarrow> \<not> wt_condition (waits q) (vw_value (sy_watcher s)))
    \<and> (\<forall>v. sy_wait s q = Returned v \<longrightarrow> wt_condition (waits q) v)"
  using reachable_wait_inv [OF assms(1), of q] assms(2) by (auto simp: wait_inv_def pending_def)

section \<open>Waits come to an end\<close>

text \<open>
  For the finitely many waits that are under way, a measure that every internal step lowers: notices count more
  than queued items, and every stage of a wait more than the next.
\<close>

fun stage :: "'t wait_state \<Rightarrow> nat" where
  "stage Start = 3"
| "stage Subscribing = 2"
| "stage Registered = 1"
| "stage _ = 0"

definition work :: "nat set \<Rightarrow> 't vw_system \<Rightarrow> nat" where
  "work qs s = 2 * length (sy_notices s) + (\<Sum>q\<in>qs. length (sy_queue s q)) + (\<Sum>q\<in>qs. stage (sy_wait s q))"

lemma sum_upd: "finite qs \<Longrightarrow> q \<in> qs \<Longrightarrow> (\<Sum>x\<in>qs. g ((f(q := y)) x)) = (\<Sum>x\<in>qs - {q}. g (f x)) + (g y :: nat)"
  by (simp add: sum.remove)

lemma sum_old: "finite qs \<Longrightarrow> q \<in> qs \<Longrightarrow> (\<Sum>x\<in>qs. g (f x)) = (\<Sum>x\<in>qs - {q}. g (f x)) + (g (f q) :: nat)"
  by (simp add: sum.remove)

lemma wait_step_work:
  assumes "finite qs" and "q \<in> qs" and step: "wait_step wt l q s = Some s'"
  shows "work qs s' < work qs s"
proof -
  note sums = sum_upd [OF assms(1,2)] sum_old [OF assms(1,2), of length "sy_queue s"] sum_old [OF assms(1,2), of stage "sy_wait s"]
  show ?thesis
  proof (cases "sy_wait s q")
    case Waiting
    with step obtain old new items where q: "sy_queue s q = (old, new) # items"
      by (auto simp: wait_step_def Let_def split: list.splits)
    show ?thesis
      using step by (auto simp: wait_step_def Let_def Waiting q leave_def work_def sums simp del: fun_upd_apply split: if_splits)
  qed (use step in \<open>auto simp: wait_step_def Let_def leave_def work_def sums simp del: fun_upd_apply split: if_splits\<close>)
qed

lemma deliver_work:
  assumes "finite qs" and "sy_notices s = ns @ n # ns'"
  shows "work qs (put_notice n (s\<lparr>sy_notices := ns @ ns'\<rparr>)) < work qs s"
proof (cases n)
  case (ToQueue l q old new)
  show ?thesis
  proof (cases "q \<in> qs")
    case True
    note sums = sum_upd [OF assms(1) True] sum_old [OF assms(1) True, of length "sy_queue s"]
    show ?thesis by (simp add: ToQueue put_notice_def work_def sums assms(2) del: fun_upd_apply)
  next
    case False
    then have "(\<Sum>x\<in>qs. length (((sy_queue s)(q := y)) x)) = (\<Sum>x\<in>qs. length (sy_queue s x))" for y
      by (intro sum.cong) auto
    then show ?thesis by (simp add: ToQueue put_notice_def work_def assms(2))
  qed
qed (simp add: put_notice_def work_def assms(2))

text \<open>C17: Every wait whose condition comes to hold ends: without new sets of the value, deliveries and the steps of finitely
  many waits cannot go on for ever, and once none is possible, every wait with \<open>immediate\<close> whose condition the value
  satisfies has returned a value that satisfies it, unless its timeout ended it.\<close>

theorem waits_return:
  assumes "finite qs"
  shows "wf {(s', s). internal_step qs waits loops s s'} \<and>
    (vw_reachable qs waits loops s \<and> (\<nexists>s'. internal_step qs waits loops s s') \<and> q \<in> qs \<and> wt_immediate (waits q)
       \<and> wt_condition (waits q) (vw_value (sy_watcher s)) \<longrightarrow>
       sy_wait s q = TimedOut \<or> (\<exists>v. sy_wait s q = Returned v \<and> wt_condition (waits q) v))"
proof (intro conjI impI)
  have "internal_step qs waits loops s s' \<Longrightarrow> work qs s' < work qs s" for s s'
    by (auto elim!: internal_stepE simp: deliver_work [OF assms] wait_step_work [OF assms])
  then show "wf {(s', s). internal_step qs waits loops s s'}"
    by (intro wf_subset [OF wf_measure [of "work qs"]]) auto
next
  assume s: "vw_reachable qs waits loops s \<and> (\<nexists>s'. internal_step qs waits loops s s') \<and> q \<in> qs \<and> wt_immediate (waits q)
    \<and> wt_condition (waits q) (vw_value (sy_watcher s))"
  then have "sy_notices s = []"
    using s internal_step.deliver [of s "[]" "hd (sy_notices s)" "tl (sy_notices s)" qs waits loops] by (cases "sy_notices s") auto
  moreover have none: "wait_step (waits q) (loops q) q s = None"
    using s internal_step.wait [of q qs waits loops s] by (cases "wait_step (waits q) (loops q) q s") auto
  moreover have "wait_inv (waits q) s q" using s reachable_wait_inv by blast
  ultimately show "sy_wait s q = TimedOut \<or> (\<exists>v. sy_wait s q = Returned v \<and> wt_condition (waits q) v)"
    using s by (auto simp: wait_inv_def wait_step_def Let_def pending_def split: wait_state.splits list.splits prod.splits)
qed

text \<open>A wait for 1 on a value that another thread sets from 0 to 1 while the wait is registering.\<close>

definition demo_waits :: "nat \<Rightarrow> int wait" where
  "demo_waits q = wait_for 1 True"

definition demo_waiting :: "int vw_system" where
  "demo_waiting = (let s1 = (vw_initial 0)\<lparr>sy_wait := (\<lambda>q. Start)(0 := Subscribing)\<rparr>;
     s2 = s1\<lparr>sy_watcher := watch 0 0 (sy_watcher s1), sy_wait := (sy_wait s1)(0 := Registered)\<rparr>;
     s3 = s2\<lparr>sy_wait := (sy_wait s2)(0 := Waiting)\<rparr> in s3)"

lemma demo_waiting_reachable: "vw_reachable {0} demo_waits (\<lambda>q. 0) demo_waiting"
proof -
  let ?R = "vw_reachable {0} demo_waits (\<lambda>q. 0)"
  have by_wait: "?R s \<Longrightarrow> wait_step (demo_waits 0) 0 0 s = Some s' \<Longrightarrow> ?R s'" for s s'
    by (rule vw_reachable.step [OF _ vw_step.internal [OF internal_step.wait [of 0]]]) auto
  let ?s0 = "vw_initial 0 :: int vw_system"
  let ?s1 = "?s0\<lparr>sy_wait := (sy_wait ?s0)(0 := Subscribing)\<rparr>"
  let ?s2 = "?s1\<lparr>sy_watcher := watch 0 0 (sy_watcher ?s1), sy_wait := (sy_wait ?s1)(0 := Registered)\<rparr>"
  have "?R ?s1" by (rule by_wait [OF vw_reachable.init [of _ _ _ 0]])
    (simp add: wait_step_def vw_initial_def demo_waits_def wait_for_def ValueWatcher_def)
  then have "?R ?s2" by (rule by_wait) (simp add: wait_step_def)
  then have "?R (?s2\<lparr>sy_wait := (sy_wait ?s2)(0 := Waiting)\<rparr>)"
    by (rule by_wait) (simp add: wait_step_def vw_initial_def demo_waits_def wait_for_def ValueWatcher_def watch_def)
  then show ?thesis by (simp add: demo_waiting_def vw_initial_def)
qed

theorem no_lost_wakeup_witness:
  "\<not> wt_condition (demo_waits 0) (vw_value (sy_watcher demo_waiting))"
  using no_lost_wakeup [OF demo_waiting_reachable, of 0]
  by (simp add: demo_waiting_def vw_initial_def demo_waits_def wait_for_def)

text \<open>The other thread sets the value, the notice is delivered and the wait takes it.\<close>

definition demo_set :: "int vw_system" where
  "demo_set = send_notices (set_value 1 (sy_watcher demo_waiting)) demo_waiting"

definition demo_delivered :: "int vw_system" where
  "demo_delivered = put_notice (ToQueue 0 0 0 1) (demo_set\<lparr>sy_notices := []\<rparr>)"

definition demo_done :: "int vw_system" where
  "demo_done = leave 0 (Returned 1) (demo_delivered\<lparr>sy_queue := (sy_queue demo_delivered)(0 := [])\<rparr>)"

lemmas demo_states = demo_done_def demo_delivered_def demo_set_def demo_waiting_def vw_initial_def ValueWatcher_def
  send_notices_def set_value_def notices_def watch_def put_notice_def leave_def remove_queue_def Let_def

theorem waits_return_witness:
  "\<exists>v. sy_wait demo_done 0 = Returned v \<and> wt_condition (demo_waits 0) v"
proof -
  let ?R = "vw_reachable {0} demo_waits (\<lambda>q. 0)"
  have set: "?R demo_set"
    unfolding demo_set_def by (rule vw_reachable.step [OF demo_waiting_reachable vw_step.set])
  have "sy_notices demo_set = [] @ ToQueue 0 0 0 1 # []" by (simp add: demo_states)
  from vw_reachable.step [OF set vw_step.internal [OF internal_step.deliver [OF this]]]
  have delivered: "?R demo_delivered" by (simp add: demo_delivered_def)
  have "wait_step (demo_waits 0) 0 0 demo_delivered = Some demo_done"
    by (simp add: wait_step_def demo_states demo_waits_def wait_for_def)
  then have "internal_step {0} demo_waits (\<lambda>q. 0) demo_delivered demo_done"
    by (intro internal_step.wait [where q = 0]) auto
  from vw_reachable.step [OF delivered vw_step.internal [OF this]] have "?R demo_done" .
  moreover have "\<nexists>s'. internal_step {0} demo_waits (\<lambda>q. 0) demo_done s'"
    by (auto elim!: internal_stepE simp: demo_states wait_step_def)
  moreover have "wt_immediate (demo_waits 0)" "wt_condition (demo_waits 0) (vw_value (sy_watcher demo_done))"
    "sy_wait demo_done 0 \<noteq> TimedOut"
    by (simp_all add: demo_states demo_waits_def wait_for_def)
  ultimately show ?thesis using waits_return [of "{0}" demo_waits "\<lambda>q. 0" demo_done 0] by blast
qed

end
