(* ===== verification/Json.thy ===== *)
theory Json
  imports PyObj
begin

text \<open>
  \<open>json.loads\<close> of the standard library with its default arguments, as the encryption and remote-state
  middleware use it.  A value is read from the front of a text; what is left is given back.  The recursion of
  the reader runs on fuel, and \<open>json_loads\<close> gives enough of it.  \<open>fl\<close> reads and prints again the text of a
  number with a fraction or an exponent.  A text whose escapes denote characters above 255, which the model
  has no characters for, gives \<open>OutsideModel\<close>; the interpreter's limits on nesting and on the
  length of numbers are not modelled.
\<close>

datatype json_fail = DecodeError | OutsideModel | NoFuel

definition code :: "char \<Rightarrow> nat" where
  "code c = of_char c"

definition is_json_ws :: "char \<Rightarrow> bool" where
  "is_json_ws c = (code c \<in> {32, 9, 10, 13})"

definition skip_ws :: "string \<Rightarrow> string" where
  "skip_ws s = dropWhile is_json_ws s"

section \<open>Strings\<close>

definition hex_digit_val :: "char \<Rightarrow> nat option" where
  "hex_digit_val c = (let n = code c in
     if 48 \<le> n \<and> n \<le> 57 then Some (n - 48)
     else if 97 \<le> n \<and> n \<le> 102 then Some (n - 87)
     else if 65 \<le> n \<and> n \<le> 70 then Some (n - 55) else None)"

text \<open>The four digits after \<open>\u\<close>.\<close>

definition hex4 :: "char \<Rightarrow> char \<Rightarrow> char \<Rightarrow> char \<Rightarrow> nat option" where
  "hex4 a b c d = (case (hex_digit_val a, hex_digit_val b, hex_digit_val c, hex_digit_val d) of
     (Some w, Some x, Some y, Some z) \<Rightarrow> Some (((w * 16 + x) * 16 + y) * 16 + z) | _ \<Rightarrow> None)"

text \<open>The character that a one-letter escape stands for.\<close>

definition simple_escape :: "char \<Rightarrow> char option" where
  "simple_escape e = (let n = code e in
     if n \<in> {34, 92, 47} then Some e
     else if n = 98 then Some (char_of (8::nat)) else if n = 102 then Some (char_of (12::nat))
     else if n = 110 then Some (char_of (10::nat)) else if n = 114 then Some (char_of (13::nat))
     else if n = 116 then Some (char_of (9::nat)) else None)"

definition on_string :: "(string \<Rightarrow> string) \<Rightarrow> json_fail + string \<times> string \<Rightarrow> json_fail + string \<times> string" where
  "on_string f r = (case r of Inl e \<Rightarrow> Inl e | Inr (s, rest) \<Rightarrow> Inr (f s, rest))"

text \<open>The character that an escape denotes, and what follows it.\<close>

definition scan_escape :: "string \<Rightarrow> json_fail + char \<times> string" where
  "scan_escape s =
     (case s of
        [] \<Rightarrow> Inl DecodeError
      | e # r \<Rightarrow>
          if code e = 117 then
            (case r of
               x1 # x2 # x3 # x4 # r' \<Rightarrow>
                 (case hex4 x1 x2 x3 x4 of
                    None \<Rightarrow> Inl DecodeError
                  | Some n \<Rightarrow> if n < 256 then Inr (char_of n, r') else Inl OutsideModel)
             | _ \<Rightarrow> Inl DecodeError)
          else (case simple_escape e of None \<Rightarrow> Inl DecodeError | Some x \<Rightarrow> Inr (x, r)))"

lemma scan_escape_consumes: "scan_escape s = Inr (x, r) \<Longrightarrow> length r < length s"
  by (auto simp: scan_escape_def split: list.splits option.splits if_splits)

text \<open>The rest of a string after its opening quote.\<close>

function scan_string :: "string \<Rightarrow> json_fail + string \<times> string" where
  "scan_string [] = Inl DecodeError"
| "scan_string (c # cs) =
     (if code c = 34 then Inr ([], cs)
      else if code c = 92 then
        (case scan_escape cs of Inl e \<Rightarrow> Inl e | Inr (x, r) \<Rightarrow> on_string ((#) x) (scan_string r))
      else if code c < 32 then Inl DecodeError
      else on_string ((#) c) (scan_string cs))"
  by pat_completeness auto

termination by (relation "measure length") (auto dest: scan_escape_consumes)

section \<open>Numbers\<close>

definition opt_minus :: "string \<Rightarrow> string \<times> string" where
  "opt_minus s = (case s of [] \<Rightarrow> ([], []) | c # cs \<Rightarrow> if code c = 45 then ([c], cs) else ([], c # cs))"

text \<open>A zero, or digits that do not begin with one.\<close>

definition int_part :: "string \<Rightarrow> string \<times> string" where
  "int_part s = (case s of c # cs \<Rightarrow> if code c = 48 then ([c], cs) else (takeWhile is_digit s, dropWhile is_digit s)
     | [] \<Rightarrow> ([], []))"

text \<open>A point and digits, if that is what follows; an exponent, if that is what follows.\<close>

definition frac_part :: "string \<Rightarrow> string \<times> string" where
  "frac_part s = (case s of
     c # cs \<Rightarrow> if code c = 46 \<and> takeWhile is_digit cs \<noteq> [] then (c # takeWhile is_digit cs, dropWhile is_digit cs)
               else ([], s)
   | [] \<Rightarrow> ([], []))"

definition opt_sign :: "string \<Rightarrow> string \<times> string" where
  "opt_sign s = (case s of c # cs \<Rightarrow> if code c \<in> {43, 45} then ([c], cs) else ([], s) | [] \<Rightarrow> ([], []))"

definition exp_part :: "string \<Rightarrow> string \<times> string" where
  "exp_part s = (case s of
     c # cs \<Rightarrow> (let (sgn, ds) = opt_sign cs in
        if code c \<in> {101, 69} \<and> takeWhile is_digit ds \<noteq> []
        then (c # sgn @ takeWhile is_digit ds, dropWhile is_digit ds) else ([], s))
   | [] \<Rightarrow> ([], []))"

definition scan_number :: "(string \<Rightarrow> string) \<Rightarrow> string \<Rightarrow> (pyobj \<times> string) option" where
  "scan_number fl s =
     (let (sgn, s1) = opt_minus s; (ds, s2) = int_part s1; (fr, s3) = frac_part s2; (ex, s4) = exp_part s3 in
      if ds = [] then None
      else if fr = [] \<and> ex = []
      then Some (PInt ((if sgn = [] then 1 else -1) * int (nat_of_digits 0 ds)), s4)
      else Some (PFloat (fl (sgn @ ds @ fr @ ex)), s4))"

text \<open>The constants; no number begins like one of them.\<close>

definition constants :: "(string \<times> pyobj) list" where
  "constants = [(''null'', PNone), (''true'', PBool True), (''false'', PBool False),
     (''NaN'', PFloat ''NaN''), (''Infinity'', PFloat ''Infinity''), (''-Infinity'', PFloat ''-Infinity'')]"

definition scan_constant :: "string \<Rightarrow> (pyobj \<times> string) option" where
  "scan_constant s = map_option (\<lambda>(w, v). (v, drop (length w) s)) (find (\<lambda>(w, v). starts_with s w) constants)"

definition scan_atom :: "(string \<Rightarrow> string) \<Rightarrow> string \<Rightarrow> json_fail + pyobj \<times> string" where
  "scan_atom fl s = (case scan_constant s of Some r \<Rightarrow> Inr r
     | None \<Rightarrow> (case scan_number fl s of Some r \<Rightarrow> Inr r | None \<Rightarrow> Inl DecodeError))"

section \<open>Values\<close>

fun scan_value :: "(string \<Rightarrow> string) \<Rightarrow> nat \<Rightarrow> string \<Rightarrow> json_fail + pyobj \<times> string"
  and scan_elements :: "(string \<Rightarrow> string) \<Rightarrow> nat \<Rightarrow> pyobj list \<Rightarrow> string \<Rightarrow> json_fail + pyobj \<times> string"
  and scan_members :: "(string \<Rightarrow> string) \<Rightarrow> nat \<Rightarrow> (string, pyobj) dict \<Rightarrow> string \<Rightarrow> json_fail + pyobj \<times> string"
where
  "scan_value fl 0 s = Inl NoFuel"
| "scan_value fl (Suc n) s =
     (case s of
        [] \<Rightarrow> Inl DecodeError
      | c # cs \<Rightarrow>
          if code c = 34 then (case scan_string cs of Inl e \<Rightarrow> Inl e | Inr (t, r) \<Rightarrow> Inr (PStr t, r))
          else if code c = 123 then
            (case skip_ws cs of
               [] \<Rightarrow> Inl DecodeError
             | d # r \<Rightarrow> if code d = 125 then Inr (PDict [], r) else scan_members fl n [] (d # r))
          else if code c = 91 then
            (case skip_ws cs of
               [] \<Rightarrow> Inl DecodeError
             | d # r \<Rightarrow> if code d = 93 then Inr (PList [], r) else scan_elements fl n [] (d # r))
          else scan_atom fl s)"
| "scan_elements fl 0 acc s = Inl NoFuel"
| "scan_elements fl (Suc n) acc s =
     (case scan_value fl n s of
        Inl e \<Rightarrow> Inl e
      | Inr (v, r) \<Rightarrow>
          (case skip_ws r of
             [] \<Rightarrow> Inl DecodeError
           | d # r' \<Rightarrow> if code d = 93 then Inr (PList (acc @ [v]), r')
                       else if code d = 44 then scan_elements fl n (acc @ [v]) (skip_ws r')
                       else Inl DecodeError))"
| "scan_members fl 0 acc s = Inl NoFuel"
| "scan_members fl (Suc n) acc s =
     (case s of
        [] \<Rightarrow> Inl DecodeError
      | c # cs \<Rightarrow>
          if code c \<noteq> 34 then Inl DecodeError
          else (case scan_string cs of
            Inl e \<Rightarrow> Inl e
          | Inr (k, r) \<Rightarrow>
              (case skip_ws r of
                 [] \<Rightarrow> Inl DecodeError
               | d # r' \<Rightarrow>
                   if code d \<noteq> 58 then Inl DecodeError
                   else (case scan_value fl n (skip_ws r') of
                     Inl e \<Rightarrow> Inl e
                   | Inr (v, r2) \<Rightarrow>
                       (case skip_ws r2 of
                          [] \<Rightarrow> Inl DecodeError
                        | d2 # r3 \<Rightarrow>
                            if code d2 = 125 then Inr (PDict (dset acc k v), r3)
                            else if code d2 = 44 then scan_members fl n (dset acc k v) (skip_ws r3)
                            else Inl DecodeError)))))"

definition json_loads :: "(string \<Rightarrow> string) \<Rightarrow> string \<Rightarrow> json_fail + pyobj" where
  "json_loads fl s =
     (case scan_value fl (2 * length s + 1) (skip_ws s) of
        Inl e \<Rightarrow> Inl e
      | Inr (v, r) \<Rightarrow> if skip_ws r = [] then Inr v else Inl DecodeError)"

text \<open>
  \<open>bytes.decode()\<close>: a lead byte of a character above 255 is where the model stops.  \<open>loads_bytes\<close> is
  \<open>json.loads(b.decode())\<close>.
\<close>

fun utf8_decode :: "bytes \<Rightarrow> json_fail + string" where
  "utf8_decode [] = Inr []"
| "utf8_decode (c # cs) =
     (if code c < 128 then map_sum (\<lambda>f. f) ((#) c) (utf8_decode cs)
      else if code c < 194 \<or> 244 < code c then Inl DecodeError
      else if 195 < code c then Inl OutsideModel
      else (case cs of
          [] \<Rightarrow> Inl DecodeError
        | d # ds \<Rightarrow>
            if code d < 128 \<or> 191 < code d then Inl DecodeError
            else map_sum (\<lambda>f. f) ((#) (char_of ((code c - 192) * 64 + (code d - 128)))) (utf8_decode ds)))"

definition loads_bytes :: "(string \<Rightarrow> string) \<Rightarrow> bytes \<Rightarrow> json_fail + pyobj" where
  "loads_bytes fl b = (case utf8_decode b of Inl f \<Rightarrow> Inl f | Inr s \<Rightarrow> json_loads fl s)"

lemma utf8_decode_utf8: "utf8_decode (utf8 s) = Inr s"
proof (induction s)
  case (Cons c s)
  define n where "n = code c"
  have n: "n < 256" "c = char_of n" by (auto simp: n_def code_def)
  show ?case
  proof (cases "n < 128")
    case True
    then have "utf8 (c # s) = c # utf8 s" by (simp add: utf8_def utf8_char_def n_def code_def)
    with Cons True show ?thesis by (simp add: n_def [symmetric])
  next
    case False
    then have "utf8 (c # s) = char_of (192 + n div 64) # char_of (128 + n mod 64) # utf8 s"
      by (simp add: utf8_def utf8_char_def n_def code_def Let_def)
    moreover have "n div 64 \<in> {2, 3}" using n(1) False by auto
    moreover have "n div 64 * 64 + n mod 64 = n" by simp
    ultimately show ?thesis using Cons n by (auto simp: code_def)
  qed
qed (simp add: utf8_def)

lemma utf8_code_ascii: "list_all (\<lambda>c. code c < 128) s \<Longrightarrow> utf8 s = s"
  by (simp add: code_def utf8_ascii)

lemma utf8_decode_ascii: "list_all (\<lambda>c. code c < 128) s \<Longrightarrow> utf8_decode s = Inr s"
  using utf8_decode_utf8 [of s] by (simp add: utf8_code_ascii)

section \<open>The fuel suffices\<close>

lemma length_skip_ws: "length (skip_ws s) \<le> length s"
  by (simp add: skip_ws_def length_dropWhile_le)

lemma skip_ws_Cons: "skip_ws s = c # r \<Longrightarrow> Suc (length r) \<le> length s"
  using length_skip_ws [of s] by simp

lemma on_string_Inr: "on_string f x = Inr (t, r) \<longleftrightarrow> (\<exists>u. x = Inr (u, r) \<and> t = f u)"
  by (cases x) (auto simp: on_string_def)

lemma scan_string_consumes: "scan_string s = Inr (t, r) \<Longrightarrow> length r < length s"
proof (induction s arbitrary: t r rule: scan_string.induct)
  case (2 c cs)
  then show ?case
    by (fastforce simp: on_string_Inr dest: scan_escape_consumes split: if_splits sum.splits)
qed simp

lemma dropWhile_shorter: "takeWhile P xs \<noteq> [] \<Longrightarrow> length (dropWhile P xs) < length xs"
  by (cases xs) (auto simp: le_imp_less_Suc length_dropWhile_le split: if_splits)

lemma opt_minus_length: "opt_minus s = (a, r) \<Longrightarrow> length r \<le> length s"
  by (auto simp: opt_minus_def split: list.splits if_splits)

lemma int_part_length: "int_part s = (a, r) \<Longrightarrow> a \<noteq> [] \<Longrightarrow> length r < length s"
  by (cases s) (auto simp: int_part_def le_imp_less_Suc length_dropWhile_le split: if_splits)

lemma frac_part_length: "frac_part s = (a, r) \<Longrightarrow> length r \<le> length s"
  by (auto simp: frac_part_def le_SucI length_dropWhile_le split: list.splits if_splits)

lemma opt_sign_length: "opt_sign s = (a, r) \<Longrightarrow> length r \<le> length s"
  by (auto simp: opt_sign_def split: list.splits if_splits)

lemma exp_part_length: "exp_part s = (a, r) \<Longrightarrow> length r \<le> length s"
proof (cases s)
  case (Cons c cs)
  obtain sgn ds where ds: "opt_sign cs = (sgn, ds)" by force
  assume "exp_part s = (a, r)"
  then have "r = s \<or> r = dropWhile is_digit ds" by (auto simp: exp_part_def Cons ds split: if_splits)
  then show ?thesis
    using opt_sign_length [OF ds] length_dropWhile_le [of is_digit ds] by (auto simp: Cons)
qed (auto simp: exp_part_def)

lemma scan_number_consumes:
  assumes "scan_number fl s = Some (v, r)"
  shows "length r < length s"
proof -
  obtain sgn s1 ds s2 fr s3 ex s4 where parts: "opt_minus s = (sgn, s1)" "int_part s1 = (ds, s2)"
    "frac_part s2 = (fr, s3)" "exp_part s3 = (ex, s4)" by (metis surj_pair)
  with assms have "ds \<noteq> []" "r = s4" by (auto simp: scan_number_def split: if_splits)
  then show ?thesis
    using opt_minus_length [OF parts(1)] int_part_length [OF parts(2) \<open>ds \<noteq> []\<close>] frac_part_length [OF parts(3)]
      exp_part_length [OF parts(4)] by simp
qed

lemma starts_with_length: "starts_with s w \<Longrightarrow> length w \<le> length s"
  by (induction s w rule: starts_with.induct) auto

lemma scan_constant_consumes: "scan_constant s = Some (v, r) \<Longrightarrow> length r < length s"
  by (auto simp: scan_constant_def constants_def dest: starts_with_length split: if_splits)

lemma scan_atom_consumes: "scan_atom fl s = Inr (v, r) \<Longrightarrow> length r < length s"
  by (auto simp: scan_atom_def scan_constant_consumes scan_number_consumes split: option.splits)

text \<open>The ways in which reading a value, elements or members can succeed.\<close>

lemma scan_value_Inr:
  assumes "scan_value fl n s = Inr (v, r)"
  obtains (str) m c cs t where "n = Suc m" "s = c # cs" "scan_string cs = Inr (t, r)" "v = PStr t"
    | (no_members) m c cs d where "n = Suc m" "s = c # cs" "skip_ws cs = d # r" "v = PDict []"
    | (members) m c cs d r1 where "n = Suc m" "s = c # cs" "skip_ws cs = d # r1" "scan_members fl m [] (d # r1) = Inr (v, r)"
    | (no_elements) m c cs d where "n = Suc m" "s = c # cs" "skip_ws cs = d # r" "v = PList []"
    | (elements) m c cs d r1 where "n = Suc m" "s = c # cs" "skip_ws cs = d # r1" "scan_elements fl m [] (d # r1) = Inr (v, r)"
    | (atom) m where "n = Suc m" "scan_atom fl s = Inr (v, r)"
proof (cases n)
  case (Suc m)
  obtain c cs where s: "s = c # cs" using assms Suc by (cases s) auto
  consider "code c = 34" | "code c = 123" | "code c = 91" | "code c \<noteq> 34" "code c \<noteq> 123" "code c \<noteq> 91" by blast
  then show thesis
  proof cases
    case 1
    with assms str [OF Suc s] show ?thesis by (auto simp: Suc s split: sum.splits)
  next
    case 2
    with assms no_members [OF Suc s] members [OF Suc s] show ?thesis by (auto simp: Suc s split: list.splits if_splits)
  next
    case 3
    with assms no_elements [OF Suc s] elements [OF Suc s] show ?thesis by (auto simp: Suc s split: list.splits if_splits)
  next
    case 4
    with assms atom [OF Suc] show ?thesis by (auto simp: Suc s)
  qed
qed (use assms in simp)

lemma scan_elements_Inr:
  assumes "scan_elements fl n acc s = Inr (v, r)"
  obtains (last) m x r1 d where "n = Suc m" "scan_value fl m s = Inr (x, r1)" "skip_ws r1 = d # r" "v = PList (acc @ [x])"
    | (more) m x r1 d r2 where "n = Suc m" "scan_value fl m s = Inr (x, r1)" "skip_ws r1 = d # r2"
        "scan_elements fl m (acc @ [x]) (skip_ws r2) = Inr (v, r)"
proof (cases n)
  case (Suc m)
  obtain x r1 where x: "scan_value fl m s = Inr (x, r1)"
    using assms Suc by (auto split: sum.splits)
  obtain d r2 where d: "skip_ws r1 = d # r2"
    using assms x Suc by (auto split: list.splits)
  from assms x d last [OF Suc x] more [OF Suc x d] Suc show thesis by (auto split: if_splits)
qed (use assms in simp)

lemma scan_members_Inr:
  assumes "scan_members fl n acc s = Inr (v, r)"
  obtains (last) m c cs k r1 d r2 x r3 d2 where "n = Suc m" "s = c # cs" "scan_string cs = Inr (k, r1)"
        "skip_ws r1 = d # r2" "scan_value fl m (skip_ws r2) = Inr (x, r3)" "skip_ws r3 = d2 # r" "v = PDict (dset acc k x)"
    | (more) m c cs k r1 d r2 x r3 d2 r4 where "n = Suc m" "s = c # cs" "scan_string cs = Inr (k, r1)"
        "skip_ws r1 = d # r2" "scan_value fl m (skip_ws r2) = Inr (x, r3)" "skip_ws r3 = d2 # r4"
        "scan_members fl m (dset acc k x) (skip_ws r4) = Inr (v, r)"
proof (cases n)
  case (Suc m)
  obtain c cs where s: "s = c # cs" using assms Suc by (cases s) auto
  have c: "code c = 34" using assms by (auto simp: Suc s split: if_splits)
  obtain k r1 where k: "scan_string cs = Inr (k, r1)" using assms by (auto simp: Suc s c split: sum.splits)
  obtain d r2 where d: "skip_ws r1 = d # r2" using assms by (auto simp: Suc s c k split: list.splits)
  have d58: "code d = 58" using assms by (auto simp: Suc s c k d split: if_splits)
  obtain x r3 where x: "scan_value fl m (skip_ws r2) = Inr (x, r3)" using assms by (auto simp: Suc s c k d d58 split: sum.splits)
  obtain d2 r4 where d2: "skip_ws r3 = d2 # r4" using assms by (auto simp: Suc s c k d d58 x split: list.splits)
  from assms last [OF Suc s k d x] more [OF Suc s k d x d2] show thesis
    by (auto simp: Suc s c k d d58 x d2 split: if_splits)
qed (use assms in simp)

lemma scan_consumes:
  "scan_value fl n s = Inr (v, r) \<Longrightarrow> length r < length s"
  "scan_elements fl n acc s = Inr (v, r) \<Longrightarrow> length r < length s"
  "scan_members fl n d s = Inr (v, r) \<Longrightarrow> length r < length s"
proof (induction n arbitrary: s v r acc d)
  case (Suc n)
  {
    case 1
    then show ?case
    proof (cases rule: scan_value_Inr)
      case str
      then show ?thesis using scan_string_consumes by fastforce
    next
      case members
      then show ?thesis using Suc.IH(3) skip_ws_Cons by fastforce
    next
      case elements
      then show ?thesis using Suc.IH(2) skip_ws_Cons by fastforce
    next
      case atom
      then show ?thesis by (simp add: scan_atom_consumes)
    qed (use skip_ws_Cons in fastforce)+
  next
    case 2
    then show ?case
    proof (cases rule: scan_elements_Inr)
      case (last m x r1 d)
      then have "length r1 < length s" using Suc.IH(1) by simp
      with last show ?thesis using skip_ws_Cons [of r1 d r] by simp
    next
      case (more m x r1 d r2)
      then have "length r1 < length s" "length r < length (skip_ws r2)" using Suc.IH(1,2) by simp_all
      with more show ?thesis using skip_ws_Cons [of r1 d r2] length_skip_ws [of r2] by simp
    qed
  next
    case 3
    then show ?case
    proof (cases rule: scan_members_Inr)
      case (last m c cs k r1 d r2 x r3 d2)
      then have "length r3 < length (skip_ws r2)" using Suc.IH(1) by simp
      with last show ?thesis
        using skip_ws_Cons [of r3 d2 r] length_skip_ws [of r2] skip_ws_Cons [of r1 d r2] scan_string_consumes [of cs k r1] by simp
    next
      case (more m c cs k r1 d r2 x r3 d2 r4)
      then have "length r3 < length (skip_ws r2)" "length r < length (skip_ws r4)" using Suc.IH(1,3) by simp_all
      with more show ?thesis
        using skip_ws_Cons [of r3 d2 r4] length_skip_ws [of r2] length_skip_ws [of r4] skip_ws_Cons [of r1 d r2]
          scan_string_consumes [of cs k r1] by simp
    qed
  }
qed simp_all

lemma on_string_Inl: "on_string f x = Inl e \<longleftrightarrow> x = Inl e"
  by (cases x) (auto simp: on_string_def)

lemma scan_escape_fuel: "scan_escape s \<noteq> Inl NoFuel"
  by (auto simp: scan_escape_def split: list.splits option.splits if_splits)

lemma scan_string_fuel: "scan_string s \<noteq> Inl NoFuel"
proof (induction s rule: scan_string.induct)
  case (2 c cs)
  then show ?case using scan_escape_fuel [of cs] by (auto simp: on_string_Inl split: sum.split)
qed simp

lemma scan_enough:
  "2 * length s < n \<Longrightarrow> scan_value fl n s \<noteq> Inl NoFuel"
  "2 * length s + 1 < n \<Longrightarrow> scan_elements fl n acc s \<noteq> Inl NoFuel"
  "2 * length s + 1 < n \<Longrightarrow> scan_members fl n d s \<noteq> Inl NoFuel"
proof (induction n arbitrary: s acc d)
  case (Suc n)
  {
    case 1
    show ?case
    proof (cases s)
      case (Cons c cs)
      have inner: "2 * length (d # r) + 1 < n" if "skip_ws cs = d # r" for d r
        using 1 Cons that skip_ws_Cons [of cs d r] by simp
      have "scan_elements fl n [] (d # r) \<noteq> Inl NoFuel" "scan_members fl n [] (d # r) \<noteq> Inl NoFuel"
        if "skip_ws cs = d # r" for d r
        using Suc.IH(2,3) [OF inner [OF that]] by simp_all
      with scan_string_fuel [of cs] Cons show ?thesis
        by (auto simp: scan_atom_def split: list.split option.split sum.split)
    qed simp
  next
    case 2
    have v: "scan_value fl n s \<noteq> Inl NoFuel" using Suc.IH(1) 2 by simp
    have "scan_elements fl n a (skip_ws r2) \<noteq> Inl NoFuel"
      if "scan_value fl n s = Inr (x, r1)" "skip_ws r1 = d # r2" for x r1 d r2 a
      using 2 Suc.IH(2) [of "skip_ws r2" a] scan_consumes(1) [OF that(1)] skip_ws_Cons [OF that(2)] length_skip_ws [of r2] by simp
    with v show ?case by (auto split: sum.split list.split)
  next
    case 3
    show ?case
    proof (cases s)
      case (Cons c cs)
      note s = Cons
      show ?thesis
      proof (cases "scan_string cs")
        case (Inr p)
        obtain k r1 where p: "p = (k, r1)" by force
        show ?thesis
        proof (cases "skip_ws r1")
          case (Cons e r2)
          have r2: "length (skip_ws r2) < length s"
            using scan_string_consumes [OF Inr [unfolded p]] skip_ws_Cons [OF Cons] length_skip_ws [of r2] s by simp
          show ?thesis
          proof (cases "scan_value fl n (skip_ws r2)")
            case (Inl x)
            then have "x \<noteq> NoFuel" using Suc.IH(1) [of "skip_ws r2"] 3 r2 by auto
            with Inl show ?thesis by (simp add: s Inr p Cons)
          next
            case x: (Inr q)
            obtain v r3 where q: "q = (v, r3)" by force
            have "scan_members fl n a (skip_ws r4) \<noteq> Inl NoFuel" if "skip_ws r3 = e2 # r4" for e2 r4 a
              using scan_consumes(1) [OF x [unfolded q]] skip_ws_Cons [OF that] length_skip_ws [of r4] r2 3
              by (intro Suc.IH(3)) simp
            then show ?thesis by (auto simp: s Inr p Cons x q split: list.split)
          qed
        qed (simp add: s Inr p)
      qed (use scan_string_fuel [of cs] s in auto)
    qed simp
  }
qed simp_all

text \<open>Reading a text always ends: the fuel that \<open>json_loads\<close> starts with is never used up, on any text.\<close>

lemma json_loads_terminates: "json_loads fl s \<noteq> Inl NoFuel"
  using scan_enough(1) [of "skip_ws s" "2 * length s + 1" fl] length_skip_ws [of s]
  by (auto simp: json_loads_def split: sum.split)

section \<open>What is read is a JSON value\<close>

text \<open>Values of JSON types whose dictionaries have each key once.\<close>

fun json_wf :: "pyobj \<Rightarrow> bool" where
  "json_wf (PList xs) = list_all json_wf xs"
| "json_wf (PDict d) = (dict_inv d \<and> list_all (\<lambda>(k, v). json_wf v) d)"
| "json_wf PEmpty = False"
| "json_wf (POpaque t) = False"
| "json_wf v = True"

lemma list_all_dset: "list_all (\<lambda>(k, v). P v) d \<Longrightarrow> P v \<Longrightarrow> list_all (\<lambda>(k, v). P v) (dset d k v)"
  by (induction d k v rule: dset.induct) auto

lemma scan_atom_wf: "scan_atom fl s = Inr (v, r) \<Longrightarrow> json_wf v"
  by (auto simp: scan_atom_def scan_constant_def constants_def scan_number_def Let_def
      split: option.splits if_splits prod.splits)

lemma scan_wf:
  "scan_value fl n s = Inr (v, r) \<Longrightarrow> json_wf v"
  "scan_elements fl n acc s = Inr (v, r) \<Longrightarrow> json_wf (PList acc) \<Longrightarrow> json_wf v"
  "scan_members fl n d s = Inr (v, r) \<Longrightarrow> json_wf (PDict d) \<Longrightarrow> json_wf v"
proof (induction n arbitrary: s v r acc d)
  case (Suc n)
  {
    case 1
    then show ?case
      by (cases rule: scan_value_Inr) (use Suc.IH(2,3) scan_atom_wf in auto)
  next
    case 2
    from 2(1) show ?case
    proof (cases rule: scan_elements_Inr)
      case (more m x r1 d r2)
      with Suc.IH(1,2) 2(2) show ?thesis by auto
    qed (use Suc.IH(1) 2(2) in auto)
  next
    case 3
    from 3(1) show ?case
    proof (cases rule: scan_members_Inr)
      case (last m c cs k r1 e r2 x r3 e2)
      with Suc.IH(1) 3(2) show ?thesis by (auto simp: list_all_dset)
    next
      case (more m c cs k r1 e r2 x r3 e2 r4)
      then have "json_wf x" using Suc.IH(1) by auto
      with more Suc.IH(3) 3(2) show ?thesis by (auto simp: list_all_dset)
    qed
  }
qed simp_all

text \<open>What \<open>json.loads\<close> returns is a value of a JSON type, at every depth, in which no dictionary has a key twice,
  so that it can be dumped again.\<close>

lemma json_loads_type: "json_loads fl s = Inr v \<Longrightarrow> json_wf v \<and> serializable v"
proof -
  assume "json_loads fl s = Inr v"
  then have "json_wf v" by (auto simp: json_loads_def scan_wf(1) simp del: scan_value.simps split: sum.splits if_splits)
  moreover have "json_wf v \<Longrightarrow> serializable v" for v
    by (induction v rule: serializable.induct) (auto simp: list_all_iff)
  ultimately show ?thesis by blast
qed

section \<open>Reading what was written\<close>

text \<open>What may follow a value inside a dumped text.\<close>

definition delim :: "string \<Rightarrow> bool" where
  "delim rest = (rest = [] \<or> code (hd rest) \<in> {44, 93, 125})"

lemma delimE: "delim rest \<Longrightarrow> rest = [] \<or> (\<exists>c r. rest = c # r \<and> code c \<in> {44, 93, 125})"
  by (cases rest) (auto simp: delim_def)

lemma is_digit_code: "is_digit c \<longleftrightarrow> 48 \<le> code c \<and> code c \<le> 57"
  by (simp add: is_digit_def code_def Let_def)

lemma digits_delim:
  assumes "delim rest"
  shows "takeWhile is_digit (xs @ rest) = takeWhile is_digit xs" "dropWhile is_digit (xs @ rest) = dropWhile is_digit xs @ rest"
  using delimE [OF assms] by (induction xs) (auto simp: is_digit_code)

lemma opt_delim:
  assumes "delim rest"
  shows "opt_minus s = (a, r) \<Longrightarrow> opt_minus (s @ rest) = (a, r @ rest)"
    "opt_sign s = (a, r) \<Longrightarrow> opt_sign (s @ rest) = (a, r @ rest)"
  using delimE [OF assms] by (cases s; auto simp: opt_minus_def opt_sign_def split: if_splits)+

lemma int_part_delim:
  assumes "delim rest" and "int_part s = (a, r)"
  shows "int_part (s @ rest) = (a, r @ rest)"
proof (cases s)
  case Nil
  with assms(2) delimE [OF assms(1)] show ?thesis by (auto simp: int_part_def is_digit_code)
next
  case (Cons c cs)
  with assms(2) digits_delim [OF assms(1), of "c # cs"] show ?thesis
    by (cases "code c = 48") (auto simp: int_part_def simp del: takeWhile.simps dropWhile.simps)
qed

lemma frac_part_delim:
  assumes "delim rest" and "frac_part s = (a, r)"
  shows "frac_part (s @ rest) = (a, r @ rest)"
proof (cases s)
  case Nil
  with assms(2) delimE [OF assms(1)] show ?thesis by (auto simp: frac_part_def)
next
  case (Cons c cs)
  with assms(2) digits_delim [OF assms(1), of cs] show ?thesis
    by (auto simp: frac_part_def split: if_splits)
qed

lemma exp_part_delim:
  assumes "delim rest" and "exp_part s = (a, r)"
  shows "exp_part (s @ rest) = (a, r @ rest)"
proof (cases s)
  case Nil
  with assms delimE [OF assms(1)] show ?thesis by (auto simp: exp_part_def split: prod.split)
next
  case (Cons c cs)
  obtain sgn ds where "opt_sign cs = (sgn, ds)" by force
  with assms Cons opt_delim(2) [OF assms(1) this] digits_delim [OF assms(1)] show ?thesis
    by (auto simp: exp_part_def split: if_splits)
qed

lemma scan_number_delim:
  assumes "delim rest" and "scan_number fl s = Some (v, r)"
  shows "scan_number fl (s @ rest) = Some (v, r @ rest)"
proof -
  obtain sgn s1 ds s2 fr s3 ex s4 where parts: "opt_minus s = (sgn, s1)" "int_part s1 = (ds, s2)"
    "frac_part s2 = (fr, s3)" "exp_part s3 = (ex, s4)" by (metis surj_pair)
  note delims = opt_delim(1) [OF assms(1) parts(1)] int_part_delim [OF assms(1) parts(2)]
    frac_part_delim [OF assms(1) parts(3)] exp_part_delim [OF assms(1) parts(4)]
  from assms(2) show ?thesis
    unfolding scan_number_def delims parts Let_def prod.case by (auto split: if_splits)
qed

lemma scan_number_head:
  assumes "scan_number fl s = Some (v, r)"
  shows "\<exists>c cs. s = c # cs \<and> (is_digit c \<or> code c = 45 \<and> cs \<noteq> [] \<and> is_digit (hd cs))"
proof -
  obtain sgn s1 where m: "opt_minus s = (sgn, s1)" by force
  obtain ds s2 where d: "int_part s1 = (ds, s2)" by force
  from assms have "ds \<noteq> []" by (auto simp: scan_number_def m d Let_def split: prod.splits if_splits)
  with d obtain c cs where c: "s1 = c # cs" "is_digit c"
    by (cases s1) (auto simp: int_part_def is_digit_code split: if_splits)
  with m show ?thesis by (cases s) (auto simp: opt_minus_def split: if_splits)
qed

lemma code_lits: "code (CHR ''n'') = 110" "code (CHR ''t'') = 116" "code (CHR ''f'') = 102" "code (CHR ''N'') = 78"
  "code (CHR ''I'') = 73" "code (CHR ''-'') = 45"
  by (simp_all add: code_def)

lemma scan_constant_number:
  assumes "s = c # cs" and "is_digit c \<or> code c = 45 \<and> cs \<noteq> [] \<and> is_digit (hd cs)"
  shows "scan_constant s = None"
proof -
  have c: "c \<noteq> CHR ''n''" "c \<noteq> CHR ''t''" "c \<noteq> CHR ''f''" "c \<noteq> CHR ''N''" "c \<noteq> CHR ''I''"
    using assms(2) code_lits by (auto simp: is_digit_code)
  have "\<not> starts_with s ''-Infinity''"
  proof (cases "code c = 45")
    case True
    with assms obtain d ds where "cs = d # ds" "is_digit d" by (cases cs) (auto simp: is_digit_code)
    moreover have "d \<noteq> CHR ''I''" using \<open>is_digit d\<close> code_lits by (auto simp: is_digit_code)
    ultimately show ?thesis by (simp add: assms(1))
  next
    case False
    then have "c \<noteq> CHR ''-''" using code_lits by auto
    then show ?thesis by (simp add: assms(1))
  qed
  with c show ?thesis by (simp add: scan_constant_def constants_def assms(1))
qed

lemma scan_atom_number: "scan_number fl s = Some (v, r) \<Longrightarrow> scan_atom fl s = Inr (v, r)"
  using scan_number_head [of fl s v r] scan_constant_number by (auto simp: scan_atom_def)

text \<open>Integers.\<close>

lemma code_char_of: "code (char_of n) = n mod 256"
  by (simp add: code_def)

lemma str_of_nat_zero: "str_of_nat n = c # cs \<Longrightarrow> code c = 48 \<Longrightarrow> n = 0"
proof (induction n arbitrary: cs rule: str_of_nat.induct)
  case (1 n)
  show ?case
  proof (cases "n < 10")
    case True
    with 1(2) have "c = char_of (48 + n)" by (subst (asm) str_of_nat.simps) simp
    with 1(3) True show ?thesis by (simp add: code_char_of)
  next
    case False
    obtain d ds where d: "str_of_nat (n div 10) = d # ds" by (cases "str_of_nat (n div 10)") auto
    with 1(2) False have "d = c" by (subst (asm) str_of_nat.simps) simp
    with 1(1) [OF False, of ds] 1(3) d False show ?thesis by simp
  qed
qed

lemma int_part_str_of_nat:
  assumes "delim rest"
  shows "int_part (str_of_nat n @ rest) = (str_of_nat n, rest)"
proof -
  obtain c cs where c: "str_of_nat n = c # cs" by (cases "str_of_nat n") auto
  have digits: "takeWhile is_digit (str_of_nat n) = str_of_nat n" "dropWhile is_digit (str_of_nat n) = []"
    using str_of_nat_digits [of n] by (simp_all add: list_all_iff takeWhile_eq_all_conv dropWhile_eq_Nil_conv)
  show ?thesis
  proof (cases "code c = 48")
    case True
    with str_of_nat_zero [OF c] have "str_of_nat n = [char_of (48::nat)]" by (subst str_of_nat.simps) simp
    then show ?thesis by (simp add: int_part_def code_char_of)
  next
    case False
    with digits_delim [OF assms, of "str_of_nat n"] digits c show ?thesis
      by (simp add: int_part_def del: takeWhile.simps dropWhile.simps)
  qed
qed

lemma scan_int:
  assumes "delim rest"
  shows "scan_number fl (str_of_int i @ rest) = Some (PInt i, rest)"
proof -
  have tail: "frac_part rest = ([], rest)" "exp_part rest = ([], rest)"
    using frac_part_delim [OF assms, of "[]"] exp_part_delim [OF assms, of "[]"] by (simp_all add: frac_part_def exp_part_def)
  have sgn: "opt_minus (str_of_nat n @ rest) = ([], str_of_nat n @ rest)" for n
    using str_of_nat_digits [of n] by (cases "str_of_nat n") (auto simp: opt_minus_def is_digit_code split: if_splits)
  have minus: "opt_minus (CHR ''-'' # str_of_nat n @ rest) = (''-'', str_of_nat n @ rest)" for n
    by (simp add: opt_minus_def code_lits)
  show ?thesis
    by (cases "i < 0") (simp_all add: str_of_int_def scan_number_def sgn minus int_part_str_of_nat [OF assms] tail nat_of_str_of_nat)
qed

text \<open>Strings.\<close>

lemma hex_digit_val_digit: "n < 16 \<Longrightarrow> hex_digit_val (hex_digit n) = Some n"
  by (simp add: hex_digit_val_def hex_digit_def code_char_of Let_def)

lemma char_of_code: "char_of (code c) = c"
  by (simp add: code_def)

lemma scan_escaped: "scan_string (json_escape_char c @ r) = on_string ((#) c) (scan_string r)"
proof -
  have c: "code c < 256" by (simp add: code_def nat_of_char_less_256)
  have hex: "hex4 (CHR ''0'') (CHR ''0'') (hex_digit (code c div 16)) (hex_digit (code c mod 16)) = Some (code c)"
  proof -
    have "hex_digit_val (CHR ''0'') = Some 0" by (simp add: hex_digit_val_def code_def)
    moreover have "hex_digit_val (hex_digit (code c div 16)) = Some (code c div 16)"
      by (rule hex_digit_val_digit) (use c in simp)
    moreover have "hex_digit_val (hex_digit (code c mod 16)) = Some (code c mod 16)"
      by (rule hex_digit_val_digit) simp
    ultimately show ?thesis by (simp add: hex4_def)
  qed
  have simple: "scan_string ([char_of (92::nat), char_of n] @ r) = on_string ((#) c) (scan_string r)"
    if "simple_escape (char_of n) = Some c" "n \<noteq> 117" "n < 256" for n :: nat
    using that by (simp add: code_char_of scan_escape_def)
  consider "code c = 34" | "code c = 92" | "code c = 10" | "code c = 13" | "code c = 9" | "code c = 12" | "code c = 8"
    | "code c \<notin> {34, 92, 10, 13, 9, 12, 8}" by blast
  then show ?thesis
  proof cases
    case 8
    show ?thesis
    proof (cases "code c < 32 \<or> 126 < code c")
      case True
      with 8 hex c show ?thesis
        by (simp add: json_escape_char_def code_def [symmetric] scan_escape_def code_char_of char_of_code Let_def)
           (simp add: code_def)
    next
      case False
      with 8 show ?thesis by (simp add: json_escape_char_def code_def [symmetric] Let_def)
    qed
  qed (use char_of_code [of c] in \<open>simp add: json_escape_char_def code_def [symmetric] Let_def scan_escape_def
      simple_escape_def code_char_of code_lits; simp add: code_def\<close>)+
qed

lemma scan_json_string: "scan_string (tl (json_string s) @ rest) = Inr (s, rest)"
proof -
  have "scan_string (concat (map json_escape_char s) @ [char_of (34::nat)] @ rest) = Inr (s, rest)"
    by (induction s) (simp_all add: scan_escaped on_string_def code_char_of)
  then show ?thesis by (simp add: json_string_def)
qed

text \<open>Values whose floats are texts that the reader takes for the float they print.\<close>

definition float_ok :: "(string \<Rightarrow> string) \<Rightarrow> string \<Rightarrow> bool" where
  "float_ok fl r = (r \<in> {''NaN'', ''Infinity'', ''-Infinity''} \<or> scan_number fl r = Some (PFloat r, []))"

fun json_ok :: "(string \<Rightarrow> string) \<Rightarrow> pyobj \<Rightarrow> bool" where
  "json_ok fl (PFloat r) = float_ok fl r"
| "json_ok fl (PList xs) = list_all (json_ok fl) xs"
| "json_ok fl (PDict d) = (dict_inv d \<and> list_all (\<lambda>(k, v). json_ok fl v) d)"
| "json_ok fl PEmpty = False"
| "json_ok fl (POpaque t) = False"
| "json_ok fl v = True"

text \<open>The first character of an atom's text, and of a value's.\<close>

definition atom_head :: "string \<Rightarrow> bool" where
  "atom_head w = (\<exists>c cs. w = c # cs \<and> (48 \<le> code c \<and> code c \<le> 57 \<or> code c \<in> {45, 110, 116, 102, 78, 73}))"

definition value_head :: "string \<Rightarrow> bool" where
  "value_head w = (atom_head w \<or> (\<exists>c cs. w = c # cs \<and> code c \<in> {34, 91, 123}))"

lemma head_Cons: "atom_head (c # cs) \<longleftrightarrow> 48 \<le> code c \<and> code c \<le> 57 \<or> code c \<in> {45, 110, 116, 102, 78, 73}"
    "value_head (c # cs) \<longleftrightarrow> atom_head (c # cs) \<or> code c \<in> {34, 91, 123}"
  by (simp_all add: atom_head_def value_head_def)

lemma value_head_cases:
  assumes "value_head w"
  obtains c cs where "w = c # cs" "\<not> is_json_ws c" "code c \<notin> {93, 125}"
  using assms by (auto simp: value_head_def atom_head_def is_json_ws_def)

lemma scan_value_atom:
  assumes "atom_head w" and "scan_atom fl (w @ rest) = Inr (v, rest)"
  shows "scan_value fl (Suc n) (w @ rest) = Inr (v, rest)"
  using assms by (auto simp: atom_head_def)

lemma scan_constants:
  "scan_atom fl (''null'' @ r) = Inr (PNone, r)" "scan_atom fl (''true'' @ r) = Inr (PBool True, r)"
  "scan_atom fl (''false'' @ r) = Inr (PBool False, r)" "scan_atom fl (''NaN'' @ r) = Inr (PFloat ''NaN'', r)"
  "scan_atom fl (''Infinity'' @ r) = Inr (PFloat ''Infinity'', r)"
  "scan_atom fl (''-Infinity'' @ r) = Inr (PFloat ''-Infinity'', r)"
  by (simp_all add: scan_atom_def scan_constant_def constants_def)

lemma number_head: "scan_number fl w = Some (v, r) \<Longrightarrow> atom_head w"
  using scan_number_head [of fl w v r] by (auto simp: atom_head_def is_digit_code)

lemma scan_float:
  assumes "float_ok fl t" and "delim rest"
  shows "scan_atom fl (t @ rest) = Inr (PFloat t, rest)" "atom_head t"
proof -
  show "scan_atom fl (t @ rest) = Inr (PFloat t, rest)"
    using assms scan_constants(4-6) [of fl rest] scan_atom_number [OF scan_number_delim [OF assms(2), of fl t "PFloat t" "[]"]]
    by (auto simp: float_ok_def)
  have "atom_head ''NaN''" "atom_head ''Infinity''" "atom_head ''-Infinity''"
    by (simp_all add: head_Cons code_lits)
  with assms(1) number_head [of fl t] show "atom_head t" unfolding float_ok_def by blast
qed

lemma int_head: "atom_head (str_of_int i)"
  using number_head scan_int [of "[]" "\<lambda>t. t" i] by (force simp: delim_def)

lemma json_string_Cons: "json_string s = char_of (34::nat) # tl (json_string s)"
  by (simp add: json_string_def)

lemma dumps_head:
  assumes "json_dumps v = Inr w" and "json_ok fl v"
  shows "value_head w"
proof (cases v)
  case (PInt i)
  with assms int_head [of i] show ?thesis by (auto simp: value_head_def)
next
  case (PFloat t)
  with assms scan_float(2) [of fl t "[]"] show ?thesis by (simp add: value_head_def delim_def)
next
  case (PStr t)
  with assms show ?thesis by (auto simp: json_string_def head_Cons code_char_of)
qed (use assms in \<open>auto simp: head_Cons code_lits code_def split: sum.splits\<close>)

lemma skip_ws_value: "value_head w \<Longrightarrow> skip_ws (w @ r) = w @ r" "value_head w \<Longrightarrow> skip_ws (CHR '' '' # w @ r) = w @ r"
  by (auto elim!: value_head_cases simp: skip_ws_def is_json_ws_def code_def)

lemma delim_Cons: "code c \<in> {44, 93, 125} \<Longrightarrow> delim (c # r)" "delim []"
  by (simp_all add: delim_def)

lemma scan_const_values:
  "scan_value fl (Suc n) (''null'' @ r) = Inr (PNone, r)" "scan_value fl (Suc n) (''true'' @ r) = Inr (PBool True, r)"
  "scan_value fl (Suc n) (''false'' @ r) = Inr (PBool False, r)"
  by (rule scan_value_atom, simp add: head_Cons code_lits, rule scan_constants)+

lemma join_Cons: "ws \<noteq> [] \<Longrightarrow> join_with sep (w # ws) = w @ sep @ join_with sep ws"
  by (cases ws) simp_all

lemma join_head: "ws \<noteq> [] \<Longrightarrow> value_head (hd ws) \<Longrightarrow> value_head (join_with sep ws)"
  by (cases ws rule: remdups_adj.cases) (auto simp: value_head_def atom_head_def)

lemma skip_ws_code: "\<not> is_json_ws c \<Longrightarrow> skip_ws (c # r) = c # r"
  by (simp add: skip_ws_def)

lemma code_punct: "code (CHR '','') = 44" "code (CHR '']'') = 93" "code (CHR ''}'') = 125" "code (CHR '':'') = 58"
  "code (CHR ''['') = 91" "code (CHR ''{'') = 123" "code (CHR '' '') = 32"
  by (simp_all add: code_def)

lemma dumps_list_Nil: "json_dumps_list xs = Inr ws \<Longrightarrow> ws = [] \<longleftrightarrow> xs = []"
  by (cases xs) (auto split: sum.splits)

lemma dumps_items_Nil: "json_dumps_items d = Inr ws \<Longrightarrow> ws = [] \<longleftrightarrow> d = []"
  by (cases d rule: list.exhaust) (auto split: sum.splits)

text \<open>Reading back: a value, the elements of a list and the members of a dictionary.\<close>

lemma json_roundtrip_parts:
  shows "json_dumps v = Inr w \<Longrightarrow> json_ok fl v \<Longrightarrow> delim rest \<Longrightarrow> 2 * length w < n \<Longrightarrow>
      scan_value fl n (w @ rest) = Inr (v, rest)"
    and "json_dumps_list xs = Inr ws \<Longrightarrow> list_all (json_ok fl) xs \<Longrightarrow> xs \<noteq> [] \<Longrightarrow> 2 * length (join_with '', '' ws) + 1 < n \<Longrightarrow>
      scan_elements fl n acc (join_with '', '' ws @ CHR '']'' # rest) = Inr (PList (acc @ xs), rest)"
    and "json_dumps_items d = Inr ws \<Longrightarrow> list_all (\<lambda>(k, v). json_ok fl v) d \<Longrightarrow> d \<noteq> [] \<Longrightarrow> dict_inv (acc' @ d) \<Longrightarrow>
      2 * length (join_with '', '' ws) + 1 < n \<Longrightarrow>
      scan_members fl n acc' (join_with '', '' ws @ CHR ''}'' # rest) = Inr (PDict (acc' @ d), rest)"
proof (induction v and xs and d arbitrary: w rest n and ws acc rest n and ws acc' rest n
    rule: json_dumps_json_dumps_list_json_dumps_items.induct)
  case 1
  then show ?case using scan_const_values(1) by (cases n) (auto simp del: scan_value.simps)
next
  case (2 b)
  then show ?case using scan_const_values(2,3) by (cases n; cases b) (auto simp del: scan_value.simps)
next
  case (3 i)
  then have "w = str_of_int i" by simp
  with 3 scan_value_atom [OF int_head scan_atom_number [OF scan_int]] show ?case
    by (cases n) (simp_all del: scan_value.simps)
next
  case (4 r)
  then have "w = r" by simp
  with 4 scan_float [of fl r rest] scan_value_atom [of r fl rest "PFloat r"] show ?case
    by (cases n) (simp_all del: scan_value.simps)
next
  case (5 s)
  then show ?case
    using scan_json_string [of s rest] by (cases n) (auto simp: json_string_def code_char_of)
next
  case (6 xs)
  then obtain ws where ws: "json_dumps_list xs = Inr ws" and w: "w = ''['' @ join_with '', '' ws @ '']''"
    by (auto split: sum.splits)
  obtain m where n: "n = Suc m" using 6 by (cases n) auto
  show ?case
  proof (cases xs)
    case Nil
    with ws w n show ?thesis by (simp add: code_def skip_ws_def is_json_ws_def)
  next
    case (Cons x xs')
    obtain wx ws' where ws': "ws = wx # ws'" "json_dumps x = Inr wx"
      using ws by (auto simp: Cons split: sum.splits)
    have "value_head wx" using dumps_head [OF ws'(2), of fl] 6 Cons by auto
    then obtain c cs where c: "wx = c # cs" "\<not> is_json_ws c" "code c \<notin> {93, 125}" by (rule value_head_cases)
    then obtain cs' where j: "join_with '', '' ws = c # cs'" by (cases ws') (auto simp: ws')
    have "scan_elements fl m [] (join_with '', '' ws @ CHR '']'' # rest) = Inr (PList xs, rest)"
      using 6 ws w n by (subst 6(1)) (auto simp: Cons)
    with j c n w show ?thesis by (simp add: code_def skip_ws_def is_json_ws_def)
  qed
next
  case (7 d)
  then obtain ws where ws: "json_dumps_items d = Inr ws" and w: "w = ''{'' @ join_with '', '' ws @ ''}''"
    by (auto split: sum.splits)
  obtain m where n: "n = Suc m" using 7 by (cases n) auto
  show ?case
  proof (cases d)
    case Nil
    with ws w n show ?thesis by (simp add: code_def skip_ws_def is_json_ws_def)
  next
    case (Cons p d')
    obtain k v where p: "p = (k, v)" by force
    obtain wx ws' where ws': "ws = (json_string k @ '': '' @ wx) # ws'"
      using ws by (auto simp: Cons p split: sum.splits)
    then obtain cs' where j: "join_with '', '' ws = char_of (34::nat) # cs'"
      by (cases ws') (auto simp: json_string_def)
    have "scan_members fl m [] (join_with '', '' ws @ CHR ''}'' # rest) = Inr (PDict d, rest)"
      using 7 ws w n by (subst 7(1)) (auto simp: Cons)
    with j n w show ?thesis by (simp add: code_def skip_ws_def is_json_ws_def)
  qed
next
  case (11 x xs)
  then obtain wx ws' where ws: "ws = wx # ws'" "json_dumps x = Inr wx" "json_dumps_list xs = Inr ws'"
    by (auto split: sum.splits)
  obtain m where n: "n = Suc m" using 11 by (cases n) auto
  show ?case
  proof (cases "xs = []")
    case True
    then have "ws' = []" using ws(3) dumps_list_Nil by blast
    with 11 ws n True have "scan_value fl m (wx @ CHR '']'' # rest) = Inr (x, CHR '']'' # rest)"
      by (intro 11(1)) (simp_all add: delim_Cons code_punct)
    then show ?thesis by (simp add: n ws \<open>ws' = []\<close> True skip_ws_code is_json_ws_def code_punct)
  next
    case False
    then have ne: "ws' \<noteq> []" using ws(3) dumps_list_Nil by blast
    have len: "length (join_with '', '' ws) = length wx + 2 + length (join_with '', '' ws')"
      by (simp add: ws join_Cons [OF ne])
    have first: "scan_value fl m (wx @ CHR '','' # CHR '' '' # join_with '', '' ws' @ CHR '']'' # rest)
        = Inr (x, CHR '','' # CHR '' '' # join_with '', '' ws' @ CHR '']'' # rest)"
      using 11 ws n len by (intro 11(1)) (simp_all add: delim_Cons code_punct)
    have more: "scan_elements fl m (acc @ [x]) (join_with '', '' ws' @ CHR '']'' # rest) = Inr (PList ((acc @ [x]) @ xs), rest)"
      using 11(3,4,6) ws(3) n len False by (intro 11(2)) (simp_all add: ws(2))
    obtain wy ws'' where wy: "ws' = wy # ws''" using ne by (cases ws') auto
    have "value_head wy"
      using 11(4) ws(3) dumps_head False wy by (cases xs) (auto split: sum.splits)
    then have "value_head (join_with '', '' ws')" using join_head [OF ne] wy by simp
    from skip_ws_value(2) [OF this] first more show ?thesis
      by (simp add: n ws(1) join_Cons [OF ne] skip_ws_code is_json_ws_def code_punct)
  qed
next
  case (13 k v d)
  then obtain wv ws' where ws: "ws = (json_string k @ '': '' @ wv) # ws'" "json_dumps v = Inr wv" "json_dumps_items d = Inr ws'"
    by (auto split: sum.splits)
  obtain m where n: "n = Suc m" using 13 by (cases n) auto
  obtain t where t: "json_string k = char_of (34::nat) # t" and key: "\<And>r. scan_string (t @ r) = Inr (k, r)"
    using json_string_Cons [of k] scan_json_string [of k] by metis
  have head: "value_head wv" using dumps_head [OF ws(2), of fl] 13(4) by simp
  have fresh: "dset acc' k v = acc' @ [(k, v)]"
    using 13(6) by (intro dset_fresh) (auto simp: dict_inv_def dhas_def dkeys_def)
  show ?case
  proof (cases "d = []")
    case True
    then have "ws' = []" using ws(3) dumps_items_Nil by blast
    have "scan_value fl m (wv @ CHR ''}'' # rest) = Inr (v, CHR ''}'' # rest)"
      using 13 ws n \<open>ws' = []\<close> by (intro 13(1)) (simp_all add: delim_Cons code_punct)
    then show ?thesis
      using key skip_ws_value(2) [OF head] fresh
      by (simp add: n ws \<open>ws' = []\<close> True skip_ws_code is_json_ws_def code_punct t code_char_of)
  next
    case False
    then have ne: "ws' \<noteq> []" using ws(3) dumps_items_Nil by blast
    have len: "length (join_with '', '' ws) = length (json_string k) + 4 + length wv + length (join_with '', '' ws')"
      by (simp add: ws join_Cons [OF ne])
    have val: "scan_value fl m (wv @ CHR '','' # CHR '' '' # join_with '', '' ws' @ CHR ''}'' # rest)
        = Inr (v, CHR '','' # CHR '' '' # join_with '', '' ws' @ CHR ''}'' # rest)"
      using 13 ws n len by (intro 13(1)) (simp_all add: delim_Cons code_punct)
    have more: "scan_members fl m (acc' @ [(k, v)]) (join_with '', '' ws' @ CHR ''}'' # rest) = Inr (PDict ((acc' @ [(k, v)]) @ d), rest)"
      using 13(4,6,7) ws(3) n len False by (intro 13(2)) (simp_all add: ws(2))
    obtain k2 v2 d2 where d: "d = (k2, v2) # d2" using False by (cases d) auto
    have "value_head (hd ws')"
      using ws(3) json_string_Cons [of k2] by (auto simp: d head_Cons code_char_of json_string_def split: sum.splits)
    then have "value_head (join_with '', '' ws')" using join_head [OF ne] by simp
    from skip_ws_value(2) [OF this] val more key skip_ws_value(2) [OF head] fresh show ?thesis
      by (simp add: n ws(1) join_Cons [OF ne] skip_ws_code is_json_ws_def code_punct t code_char_of)
  qed
qed auto

text \<open>What \<open>json.dumps\<close> writes, \<open>json.loads\<close> reads back: every value of JSON types without repeated keys, whose
  floats are printed as they are read, is the result of loading its own dump.\<close>

lemma json_roundtrip:
  assumes "json_ok fl v" and "json_dumps v = Inr w"
  shows "json_loads fl w = Inr v"
proof -
  have "scan_value fl (2 * length w + 1) (w @ []) = Inr (v, [])"
    using assms by (intro json_roundtrip_parts(1)) (simp_all add: delim_Cons)
  moreover have "skip_ws (w @ []) = w @ []"
    using dumps_head [OF assms(2,1)] by (rule skip_ws_value(1))
  ultimately show ?thesis by (simp add: json_loads_def skip_ws_def del: scan_value.simps)
qed

lemma json_ok_serializable: "json_ok fl v \<Longrightarrow> serializable v"
  by (induction v rule: serializable.induct) (auto simp: list_all_iff)

lemma loads_bytes_dumps: "json_ok fl v \<Longrightarrow> json_dumps v = Inr w \<Longrightarrow> loads_bytes fl (utf8 w) = Inr v"
  by (simp add: loads_bytes_def utf8_decode_utf8 json_roundtrip)

definition demo_json :: pyobj where
  "demo_json = PDict [(''a'', PList [PInt (-10), PFloat ''1.5e+16'', PBool True, PNone]), (''b'', PStr [char_of (34::nat)])]"

end
