(* ===== verification/Encryption.thy ===== *)
theory Encryption
  imports Json Middleware
begin

text \<open>
  \<open>inngest_encryption/main.py\<close>: the middleware that encrypts event fields, step outputs and invoke data before
  they leave the process, and decrypts what comes back.  PyNaCl is a parameter: \<open>generichash\<close> with its digest
  size, the constructor of \<open>SecretBox\<close> (which raises on a bad key), \<open>SecretBox.encrypt\<close> with the Base64
  encoder as a function of box, nonce and message, \<open>SecretBox.decrypt\<close>, which raises on a text that is not
  authentic, and the nonce drawn from the outside.  \<open>num\<close> is the \<open>fl\<close> of \<open>json_loads\<close>.  A plaintext that the
  model has no characters for raises \<open>outside_model\<close>.
\<close>

section \<open>Keys and boxes\<close>

record ('b, 'u) nacl =
  nc_generichash :: "bytes \<Rightarrow> bytes"
  nc_box :: "bytes \<Rightarrow> exc + 'b"
  nc_nonce :: "'u \<Rightarrow> bytes \<times> 'u"
  nc_encrypt :: "'b \<Rightarrow> bytes \<Rightarrow> bytes \<Rightarrow> bytes"
  nc_decrypt :: "'b \<Rightarrow> bytes \<Rightarrow> exc + bytes"

datatype secret_key = KeyBytes bytes | KeyStr string

definition encryption_marker :: string where
  "encryption_marker = ''__ENCRYPTED__''"

definition strategy_marker :: string where
  "strategy_marker = ''__STRATEGY__''"

definition strategy_identifier :: string where
  "strategy_identifier = ''inngest/libsodium''"

definition default_event_encryption_field :: string where
  "default_event_encryption_field = ''encrypted''"

fun ensure_key_bytes :: "('b, 'u) nacl \<Rightarrow> secret_key \<Rightarrow> bytes" where
  "ensure_key_bytes nc (KeyStr s) = nc_generichash nc (utf8 s)"
| "ensure_key_bytes nc (KeyBytes b) = b"

record 'b encryption =
  en_box :: 'b
  en_decrypt_only :: bool
  en_event_encryption_field :: string
  en_fallback_decryption_boxes :: "'b list"

definition EncryptionMiddleware_init ::
  "('b, 'u) nacl \<Rightarrow> secret_key \<Rightarrow> bool \<Rightarrow> string \<Rightarrow> secret_key list option \<Rightarrow> exc + 'b encryption" where
  "EncryptionMiddleware_init nc secret_key decrypt_only event_encryption_field fallback_decryption_keys =
     bindE (nc_box nc (ensure_key_bytes nc secret_key)) (\<lambda>box.
     bindE (map_sum_list (\<lambda>key. nc_box nc (ensure_key_bytes nc key))
              (case fallback_decryption_keys of None \<Rightarrow> [] | Some keys \<Rightarrow> keys)) (\<lambda>fallback_boxes.
       Inr \<lparr>en_box = box, en_decrypt_only = decrypt_only, en_event_encryption_field = event_encryption_field,
            en_fallback_decryption_boxes = fallback_boxes\<rparr>))"

section \<open>Values\<close>

definition is_encrypted :: "pyobj \<Rightarrow> bool" where
  "is_encrypted value = (case value of
     PDict d \<Rightarrow> dget d encryption_marker = Some (PBool True) \<and> dget d strategy_marker = Some (PStr strategy_identifier)
   | _ \<Rightarrow> False)"

text \<open>The test with which \<open>_encrypt\<close> skips; it does not look at the strategy.\<close>

definition is_marked :: "pyobj \<Rightarrow> bool" where
  "is_marked data = (case data of PDict d \<Rightarrow> dget d encryption_marker = Some (PBool True) | _ \<Rightarrow> False)"

definition encrypt :: "('b, 'u) nacl \<Rightarrow> 'b encryption \<Rightarrow> pyobj \<Rightarrow> ('u outside, exc, pyobj) M" where
  "encrypt nc en data = (\<lambda>w.
     if is_marked data then (Inr data, logger_call False ''Skipping encryption since data is already encrypted'' w)
     else (case json_dumps data of
         Inl t \<Rightarrow> (Inl (PyExc ''TypeError'' (''Object of type '' @ t @ '' is not JSON serializable'')), w)
       | Inr s \<Rightarrow> (case nc_nonce nc (user w) of (nonce, u') \<Rightarrow>
           (case utf8_decode (nc_encrypt nc (en_box en) nonce (utf8 s)) of
              Inl f \<Rightarrow> (Inl (if f = OutsideModel then outside_model else PyExc ''UnicodeDecodeError'' ''invalid utf-8''), w\<lparr>user := u'\<rparr>)
            | Inr ciphertext \<Rightarrow>
                (Inr (PDict [(encryption_marker, PBool True), (strategy_marker, PStr strategy_identifier),
                             (''data'', PStr ciphertext)]), w\<lparr>user := u'\<rparr>)))))"

text \<open>The loop over the boxes; an exception of one turns to the next.\<close>

fun decrypt_boxes :: "(string \<Rightarrow> string) \<Rightarrow> ('b, 'u) nacl \<Rightarrow> 'b list \<Rightarrow> string \<Rightarrow> exc + pyobj" where
  "decrypt_boxes num nc [] encrypted = Inl (Exception ''Failed to decrypt data'')"
| "decrypt_boxes num nc (box # boxes) encrypted =
     (case nc_decrypt nc box (utf8 encrypted) of
        Inl e \<Rightarrow> decrypt_boxes num nc boxes encrypted
      | Inr byt \<Rightarrow>
          (case loads_bytes num byt of
             Inr v \<Rightarrow> Inr v
           | Inl OutsideModel \<Rightarrow> Inl outside_model
           | Inl _ \<Rightarrow> decrypt_boxes num nc boxes encrypted))"

definition decrypt :: "(string \<Rightarrow> string) \<Rightarrow> ('b, 'u) nacl \<Rightarrow> 'b encryption \<Rightarrow> pyobj \<Rightarrow> exc + pyobj" where
  "decrypt num nc en data =
     (if \<not> is_encrypted data then Inr data
      else (case data of
          PDict d \<Rightarrow> (case dget d ''data'' of
              Some (PStr encrypted) \<Rightarrow> decrypt_boxes num nc (en_box en # en_fallback_decryption_boxes en) encrypted
            | _ \<Rightarrow> Inr data)
        | _ \<Rightarrow> Inr data))"

definition decrypt_event_data ::
  "(string \<Rightarrow> string) \<Rightarrow> ('b, 'u) nacl \<Rightarrow> 'b encryption \<Rightarrow> (string, pyobj) dict \<Rightarrow> exc + (string, pyobj) dict" where
  "decrypt_event_data num nc en data =
     (let keys = sort_key (\<lambda>k. k \<noteq> en_event_encryption_field en) (dkeys data) in
      if is_encrypted (PDict data) then
        bindE (decrypt num nc en (PDict data)) (\<lambda>v.
          case v of
            PDict decrypted \<Rightarrow>
              Inr (dmerge (filter (\<lambda>(k, v). k \<notin> {encryption_marker, strategy_marker, ''data''}) data) decrypted)
          | _ \<Rightarrow> Inl (Exception ''decrypted data is not a dict''))
      else (case find (\<lambda>k. case dget data k of None \<Rightarrow> False | Some v \<Rightarrow> is_encrypted v) keys of
          None \<Rightarrow> Inr data
        | Some k \<Rightarrow> (case dget data k of None \<Rightarrow> Inr data
            | Some encrypted \<Rightarrow> bindE (decrypt num nc en encrypted) (\<lambda>v. Inr (dset data k v)))))"

section \<open>Hooks\<close>

text \<open>The loop of \<open>before_send_events\<close>; events before one that raises stay changed.\<close>

fun encrypt_events :: "('b, 'u) nacl \<Rightarrow> 'b encryption \<Rightarrow> event list \<Rightarrow> 'u outside \<Rightarrow> (exc + unit) \<times> event list \<times> 'u outside" where
  "encrypt_events nc en [] w = (Inr (), [], w)"
| "encrypt_events nc en (event # events) w =
     (let field = en_event_encryption_field en;
          go = (\<lambda>event' w'. case encrypt_events nc en events w' of (r, events', w'') \<Rightarrow> (r, event' # events', w'')) in
      case dget (ev_data event) field of
        None \<Rightarrow> go event w
      | Some decrypted \<Rightarrow>
          if decrypted = PNone then go event w
          else (case encrypt nc en decrypted w of
              (Inl e, w') \<Rightarrow> (Inl e, event # events, w')
            | (Inr v, w') \<Rightarrow> go (event\<lparr>ev_data := dset (ev_data event) field v\<rparr>) w'))"

definition en_before_send_events :: "('b, 'u) nacl \<Rightarrow> 'b encryption \<Rightarrow> (event list \<times> 'u outside, exc, unit) M" where
  "en_before_send_events nc en = (\<lambda>(events, w).
     if en_decrypt_only en then (Inr (), (events, w)) else encrypt_events nc en events w)"

fun decrypt_memos :: "(string \<Rightarrow> string) \<Rightarrow> ('b, 'u) nacl \<Rightarrow> 'b encryption \<Rightarrow> memos \<Rightarrow> (exc + unit) \<times> memos" where
  "decrypt_memos num nc en [] = (Inr (), [])"
| "decrypt_memos num nc en ((k, step) # steps) =
     (case decrypt num nc en (out_data step) of
        Inl e \<Rightarrow> (Inl e, (k, step) # steps)
      | Inr v \<Rightarrow> (case decrypt_memos num nc en steps of (r, steps') \<Rightarrow> (r, (k, step\<lparr>out_data := v\<rparr>) # steps')))"

fun decrypt_events :: "(string \<Rightarrow> string) \<Rightarrow> ('b, 'u) nacl \<Rightarrow> 'b encryption \<Rightarrow> event list \<Rightarrow> (exc + unit) \<times> event list" where
  "decrypt_events num nc en [] = (Inr (), [])"
| "decrypt_events num nc en (event # events) =
     (case decrypt_event_data num nc en (ev_data event) of
        Inl e \<Rightarrow> (Inl e, event # events)
      | Inr d \<Rightarrow> (case decrypt_events num nc en events of (r, events') \<Rightarrow> (r, event\<lparr>ev_data := d\<rparr> # events')))"

definition en_transform_input ::
  "(string \<Rightarrow> string) \<Rightarrow> ('b, 'u) nacl \<Rightarrow> 'b encryption \<Rightarrow> ((fn_context \<times> memos) \<times> 'u outside, exc, unit) M" where
  "en_transform_input num nc en = (\<lambda>((ctx, steps), w).
     case decrypt_memos num nc en steps of
       (Inl e, steps') \<Rightarrow> (Inl e, ((ctx, steps'), w))
     | (Inr _, steps') \<Rightarrow>
         (case decrypt_event_data num nc en (ev_data (cx_event ctx)) of
            Inl e \<Rightarrow> (Inl e, ((ctx, steps'), w))
          | Inr d \<Rightarrow>
              (let ctx1 = ctx\<lparr>cx_event := (cx_event ctx)\<lparr>ev_data := d\<rparr>\<rparr> in
               case decrypt_events num nc en (cx_events ctx1) of
                 (r, events') \<Rightarrow> (r, ((ctx1\<lparr>cx_events := events'\<rparr>, steps'), w)))))"

text \<open>The payload data of an \<open>INVOKE\<close> step that holds the field to encrypt, if there is one.\<close>

definition invoke_field :: "'b encryption \<Rightarrow> transform_output_result
    \<Rightarrow> (transform_output_step_info \<times> (string, pyobj) dict \<times> (string, pyobj) dict \<times> (string, pyobj) dict \<times> pyobj) option" where
  "invoke_field en result =
     (case tr_step result of
        None \<Rightarrow> None
      | Some s \<Rightarrow>
          if ts_op s \<noteq> OP_INVOKE then None
          else (case ts_opts s of
              None \<Rightarrow> None
            | Some opts \<Rightarrow>
                (case dget opts ''payload'' of
                   Some (PDict payload) \<Rightarrow>
                     (case dget payload ''data'' of
                        Some (PDict data) \<Rightarrow> map_option (\<lambda>v. (s, opts, payload, data, v)) (dget data (en_event_encryption_field en))
                      | _ \<Rightarrow> None)
                 | _ \<Rightarrow> None)))"

definition en_transform_output ::
  "('b, 'u) nacl \<Rightarrow> 'b encryption \<Rightarrow> (transform_output_result \<times> 'u outside, exc, unit) M" where
  "en_transform_output nc en = (\<lambda>(result, w).
     if en_decrypt_only en then (Inr (), (result, w))
     else
       (case (if has_output result then encrypt nc en (tr_output result) w else (Inr (tr_output result), w)) of
          (Inl e, w1) \<Rightarrow> (Inl e, (result, w1))
        | (Inr v, w1) \<Rightarrow>
            (let result1 = result\<lparr>tr_output := v\<rparr> in
             case invoke_field en result1 of
               None \<Rightarrow> (Inr (), (result1, w1))
             | Some (s, opts, payload, data, x) \<Rightarrow>
                 (case encrypt nc en x w1 of
                    (Inl e, w2) \<Rightarrow> (Inl e, (result1, w2))
                  | (Inr c, w2) \<Rightarrow>
                      (let payload' = dset payload ''data'' (PDict (dset data (en_event_encryption_field en) c));
                           s' = s\<lparr>ts_opts := Some (dset opts ''payload'' (PDict payload'))\<rparr> in
                       (Inr (), (result1\<lparr>tr_step := Some s'\<rparr>, w2)))))))"

definition EncryptionMiddleware ::
  "(string \<Rightarrow> string) \<Rightarrow> ('b, 'u) nacl \<Rightarrow> secret_key \<Rightarrow> bool \<Rightarrow> string \<Rightarrow> secret_key list option \<Rightarrow> 'u uninit" where
  "EncryptionMiddleware num nc secret_key decrypt_only event_encryption_field fallback_decryption_keys =
     raise_ifM (\<lambda>e. e)
       (map_sum (\<lambda>e. e) (\<lambda>en. base_MiddlewareSync\<lparr>
            mw_before_send_events := en_before_send_events nc en,
            mw_transform_input := en_transform_input num nc en,
            mw_transform_output := en_transform_output nc en\<rparr>)
         (EncryptionMiddleware_init nc secret_key decrypt_only event_encryption_field fallback_decryption_keys))"

section \<open>What the hooks guarantee\<close>

text \<open>
  What is relied on of PyNaCl: a box opens what a box of the same key sealed; a box of another key raises on it;
  the Base64 encoder yields ASCII.
\<close>

definition opens :: "('b, 'u) nacl \<Rightarrow> 'b \<Rightarrow> 'b \<Rightarrow> bool" where
  "opens nc sealer b = (\<forall>n m. nc_decrypt nc b (nc_encrypt nc sealer n m) = Inr m)"

definition rejects :: "('b, 'u) nacl \<Rightarrow> 'b \<Rightarrow> 'b \<Rightarrow> bool" where
  "rejects nc sealer b = (\<forall>n m. isl (nc_decrypt nc b (nc_encrypt nc sealer n m)))"

definition ascii_output :: "('b, 'u) nacl \<Rightarrow> 'b \<Rightarrow> bool" where
  "ascii_output nc sealer = (\<forall>n m. list_all (\<lambda>c. code c < 128) (nc_encrypt nc sealer n m))"

text \<open>
  The reader \<open>en'\<close> has the writer's key: as its own, or as one of its fallback keys after any number of
  other keys.
\<close>

definition shares_key :: "('b, 'u) nacl \<Rightarrow> 'b encryption \<Rightarrow> 'b encryption \<Rightarrow> bool" where
  "shares_key nc en en' = (ascii_output nc (en_box en) \<and>
     (\<exists>bs b cs. en_box en' # en_fallback_decryption_boxes en' = bs @ b # cs \<and> list_all (rejects nc (en_box en)) bs
        \<and> opens nc (en_box en) b))"

lemma encrypt_Inr:
  assumes "\<not> is_marked v" and "encrypt nc en v w = (Inr c, w')" and ascii: "ascii_output nc (en_box en)"
  obtains n s where "json_dumps v = Inr s"
    "c = PDict [(encryption_marker, PBool True), (strategy_marker, PStr strategy_identifier),
       (''data'', PStr (nc_encrypt nc (en_box en) n (utf8 s)))]"
proof -
  obtain s where s: "json_dumps v = Inr s" using assms by (cases "json_dumps v") (auto simp: encrypt_def)
  obtain n u where n: "nc_nonce nc (user w) = (n, u)" by force
  from ascii have "utf8_decode (nc_encrypt nc (en_box en) n (utf8 s)) = Inr (nc_encrypt nc (en_box en) n (utf8 s))"
    by (simp add: ascii_output_def utf8_decode_ascii)
  with assms s n that show thesis by (auto simp: encrypt_def)
qed

lemma encrypt_total:
  assumes "serializable v" and ascii: "ascii_output nc (en_box en)"
  shows "\<exists>c w'. encrypt nc en v w = (Inr c, w')"
proof -
  obtain s where s: "json_dumps v = Inr s" using assms json_dumps_serializable(1) [of v] by blast
  obtain n u where n: "nc_nonce nc (user w) = (n, u)" by force
  show ?thesis
    using ascii by (auto simp: encrypt_def s n ascii_output_def utf8_decode_ascii)
qed

lemma decrypt_boxes_skip:
  assumes "utf8 (nc_encrypt nc k n m) = nc_encrypt nc k n m"
  shows "list_all (rejects nc k) bs \<Longrightarrow>
    decrypt_boxes num nc (bs @ cs) (nc_encrypt nc k n m) = decrypt_boxes num nc cs (nc_encrypt nc k n m)"
proof (induction bs)
  case (Cons b bs)
  then obtain e where "nc_decrypt nc b (nc_encrypt nc k n m) = Inl e"
    by (auto simp: rejects_def isl_def)
  with Cons assms show ?case by simp
qed simp

lemma encrypted_shape [simp]:
  "is_encrypted (PDict [(encryption_marker, PBool True), (strategy_marker, PStr strategy_identifier), (''data'', PStr t)])"
  by (simp add: is_encrypted_def encryption_marker_def strategy_marker_def)

lemma marker_keys [simp]:
  "encryption_marker \<noteq> ''data''" "strategy_marker \<noteq> ''data''" "encryption_marker \<noteq> strategy_marker"
  by (simp_all add: encryption_marker_def strategy_marker_def)

lemma decrypt_encrypt:
  assumes key: "shares_key nc en en'" and v: "json_ok num v" "\<not> is_marked v"
    and enc: "encrypt nc en v w = (Inr c, w')"
  shows "is_encrypted c \<and> decrypt num nc en' c = Inr v"
proof -
  from key obtain bs b cs where boxes: "en_box en' # en_fallback_decryption_boxes en' = bs @ b # cs"
    and bs: "list_all (rejects nc (en_box en)) bs" and b: "opens nc (en_box en) b" and ascii: "ascii_output nc (en_box en)"
    unfolding shares_key_def by blast
  from encrypt_Inr [OF v(2) enc ascii] obtain n s where s: "json_dumps v = Inr s"
    and c: "c = PDict [(encryption_marker, PBool True), (strategy_marker, PStr strategy_identifier),
       (''data'', PStr (nc_encrypt nc (en_box en) n (utf8 s)))]" .
  have "utf8 (nc_encrypt nc (en_box en) n (utf8 s)) = nc_encrypt nc (en_box en) n (utf8 s)"
    using ascii by (simp add: ascii_output_def utf8_code_ascii)
  then have "decrypt_boxes num nc (bs @ b # cs) (nc_encrypt nc (en_box en) n (utf8 s)) = Inr v"
    using b loads_bytes_dumps [OF v(1) s] by (simp add: decrypt_boxes_skip [OF _ bs] opens_def)
  then show ?thesis by (simp add: c decrypt_def boxes)
qed

lemma transform_output_seals:
  assumes "en_transform_output nc en (r, w) = (Inr (), (r', w'))" and "\<not> en_decrypt_only en" and "has_output r"
  shows "\<exists>w1. encrypt nc en (tr_output r) w = (Inr (tr_output r'), w1)"
  using assms by (auto simp: en_transform_output_def Let_def split: prod.splits sum.splits option.splits)

text \<open>The memo \<open>m'\<close> holds what a \<open>transform_output\<close> hook made of the output in the memo \<open>m\<close>.\<close>

definition sealed_memo :: "(string \<Rightarrow> string) \<Rightarrow> ('b, 'u) nacl \<Rightarrow> 'b encryption \<Rightarrow> step_output \<Rightarrow> step_output \<Rightarrow> bool" where
  "sealed_memo num nc en m m' = (out_error m' = out_error m \<and> json_ok num (out_data m) \<and> \<not> is_marked (out_data m) \<and>
     (\<exists>r w r' w'. tr_output r = out_data m \<and> en_transform_output nc en (r, w) = (Inr (), (r', w')) \<and> tr_output r' = out_data m'))"

lemma sealed_memoI:
  assumes "en_transform_output nc en (r, w) = (Inr (), (r', w'))" and "json_ok num (tr_output r)" and "\<not> is_marked (tr_output r)"
  shows "sealed_memo num nc en \<lparr>out_data = tr_output r, out_error = e\<rparr> \<lparr>out_data = tr_output r', out_error = e\<rparr>"
  using assms by (auto simp: sealed_memo_def)

lemma decrypt_sealed_memo:
  assumes "sealed_memo num nc en m m'" and key: "shares_key nc en en'" and on: "\<not> en_decrypt_only en"
  shows "decrypt num nc en' (out_data m') = Inr (out_data m) \<and> is_encrypted (out_data m')"
proof -
  from assms(1) obtain r w r' w' where r: "tr_output r = out_data m" "en_transform_output nc en (r, w) = (Inr (), (r', w'))"
    "tr_output r' = out_data m'" and v: "json_ok num (out_data m)" "\<not> is_marked (out_data m)"
    unfolding sealed_memo_def by blast
  have "has_output r" using r(1) v(1) by (auto simp: has_output_def)
  from transform_output_seals [OF r(2) on this] r obtain w1 where "encrypt nc en (out_data m) w = (Inr (out_data m'), w1)"
    by auto
  from decrypt_encrypt [OF key v this] show ?thesis by blast
qed

text \<open>C23: Encrypted step outputs come back: when every memo that the server returns holds what the \<open>transform_output\<close>
  hook of a writer made of a JSON output (which is then encrypted), the \<open>transform_input\<close> hook of a reader that has the
  writer's key as its own or among its fallback keys restores every memo as it was before encryption.\<close>

theorem step_output_encryption_roundtrip:
  assumes on: "\<not> en_decrypt_only en" and key: "shares_key nc en en'"
    and "list_all2 (\<lambda>(k, m) (k', m'). k' = k \<and> sealed_memo num nc en m m') plain sealed"
  shows "decrypt_memos num nc en' sealed = (Inr (), plain) \<and> list_all (\<lambda>(k, m). is_encrypted (out_data m)) sealed"
  using assms(3)
proof (induction rule: list_all2_induct)
  case (Cons x xs y ys)
  obtain k m m' where xy: "x = (k, m)" "y = (k, m')" and m: "sealed_memo num nc en m m'"
    using Cons by (cases x; cases y) auto
  from decrypt_sealed_memo [OF m key on] Cons m show ?case
    by (simp add: xy sealed_memo_def)
qed simp

section \<open>Event data\<close>

lemma sort_key_partition: "sort_key (\<lambda>k. k \<noteq> f) ks = filter (\<lambda>k. k = f) ks @ filter (\<lambda>k. k \<noteq> f) ks"
proof (induction ks)
  case (Cons k ks)
  have first: "insort_key (\<lambda>k. k \<noteq> f) f xs = f # xs" for xs by (cases xs) auto
  have later: "insort_key (\<lambda>k. k \<noteq> f) k (filter (\<lambda>k. k = f) xs @ ys) = filter (\<lambda>k. k = f) xs @ k # ys"
    if "k \<noteq> f" "\<forall>y \<in> set ys. y \<noteq> f" for xs ys
    using that by (induction xs) (auto simp: le_bool_def intro: insort_is_Cons)
  show ?case using Cons first later by (cases "k = f") auto
qed simp

lemma find_event_field:
  assumes "dget d f = Some v" and "P f"
  shows "find P (sort_key (\<lambda>k. k \<noteq> f) (dkeys d)) = Some f"
proof -
  have "f \<in> set (dkeys d)" using assms(1) dget_None_iff [of d f] by auto
  then have "filter (\<lambda>k. k = f) (dkeys d) \<noteq> []" by (auto simp: filter_empty_conv)
  then obtain ks where "filter (\<lambda>k. k = f) (dkeys d) = f # ks"
    by (cases "filter (\<lambda>k. k = f) (dkeys d)") (auto dest: filter_eq_ConsD)
  with assms(2) show ?thesis by (simp add: sort_key_partition)
qed

definition none_encrypted :: "(string, pyobj) dict \<Rightarrow> bool" where
  "none_encrypted d = list_all (\<lambda>(k, v). \<not> is_encrypted v) d"

lemma dget_mem: "dget d k = Some v \<Longrightarrow> (k, v) \<in> set d"
  by (induction d k rule: dget.induct) (auto split: if_splits)

lemma decrypt_event_data_none:
  assumes "\<not> is_encrypted (PDict d)" and "none_encrypted d"
  shows "decrypt_event_data num nc en d = Inr d"
proof -
  have "find (\<lambda>k. case dget d k of None \<Rightarrow> False | Some v \<Rightarrow> is_encrypted v) ks = None" for ks
    using assms(2) by (auto simp: find_None_iff none_encrypted_def list_all_iff dest!: dget_mem split: option.splits)
  with assms(1) show ?thesis by (simp add: decrypt_event_data_def)
qed

text \<open>What the event data must be for encrypting and decrypting it to be inverse.\<close>

definition event_sealable :: "(string \<Rightarrow> string) \<Rightarrow> 'b encryption \<Rightarrow> event \<Rightarrow> bool" where
  "event_sealable num en event = (let d = ev_data event in \<not> is_encrypted (PDict d) \<and>
     (case dget d (en_event_encryption_field en) of
        None \<Rightarrow> none_encrypted d
      | Some v \<Rightarrow> if v = PNone then none_encrypted d else json_ok num v \<and> \<not> is_marked v))"

lemma decrypt_event_data_field:
  assumes key: "shares_key nc en en'" and field: "en_event_encryption_field en' = en_event_encryption_field en"
    and d: "\<not> is_encrypted (PDict d)" "dget d (en_event_encryption_field en) = Some v"
    and v: "json_ok num v" "\<not> is_marked v" and c: "encrypt nc en v w = (Inr c, w')"
  shows "decrypt_event_data num nc en' (dset d (en_event_encryption_field en) c) = Inr d"
proof -
  define f where "f = en_event_encryption_field en"
  have enc: "is_encrypted c" "decrypt num nc en' c = Inr v" using decrypt_encrypt [OF key v c] by auto
  then have "\<not> is_encrypted (PDict (dset d f c))"
    using d(1) by (auto simp: is_encrypted_def split: pyobj.splits if_splits)
  moreover have "find (\<lambda>k. case dget (dset d f c) k of None \<Rightarrow> False | Some v \<Rightarrow> is_encrypted v)
      (sort_key (\<lambda>k. k \<noteq> f) (dkeys (dset d f c))) = Some f"
    using enc(1) by (intro find_event_field) auto
  ultimately show ?thesis
    using enc(2) d(2) by (simp add: decrypt_event_data_def field bindE_def dset_dset_same dset_same flip: f_def)
qed

lemma encrypt_events_roundtrip:
  assumes key: "shares_key nc en en'" and field: "en_event_encryption_field en' = en_event_encryption_field en"
    and "list_all (event_sealable num en) events"
  shows "\<exists>events' w'. encrypt_events nc en events w = (Inr (), (events', w')) \<and> decrypt_events num nc en' events' = (Inr (), events)
    \<and> list_all (\<lambda>e. case dget (ev_data e) (en_event_encryption_field en) of None \<Rightarrow> True | Some v \<Rightarrow> v = PNone \<or> is_encrypted v) events'"
  using assms(3)
proof (induction events arbitrary: w)
  case (Cons e es)
  define f where "f = en_event_encryption_field en"
  have e: "event_sealable num en e" and es: "list_all (event_sealable num en) es" using Cons.prems by auto
  show ?case
  proof (cases "dget (ev_data e) f = None \<or> dget (ev_data e) f = Some PNone")
    case True
    with e have "decrypt_event_data num nc en' (ev_data e) = Inr (ev_data e)"
      by (intro decrypt_event_data_none) (auto simp: event_sealable_def Let_def f_def)
    moreover obtain events' w' where "encrypt_events nc en es w = (Inr (), (events', w'))"
        "decrypt_events num nc en' events' = (Inr (), es)"
        "list_all (\<lambda>e. case dget (ev_data e) f of None \<Rightarrow> True | Some v \<Rightarrow> v = PNone \<or> is_encrypted v) events'"
      using Cons.IH [OF es] unfolding f_def by blast
    ultimately show ?thesis using True by (auto simp flip: f_def)
  next
    case False
    then obtain v where v: "dget (ev_data e) f = Some v" "v \<noteq> PNone" by auto
    with e have ok: "json_ok num v" "\<not> is_marked v" and d: "\<not> is_encrypted (PDict (ev_data e))"
      by (auto simp: event_sealable_def Let_def f_def)
    obtain c w1 where c: "encrypt nc en v w = (Inr c, w1)"
      using encrypt_total [OF json_ok_serializable [OF ok(1)], of nc en w] key unfolding shares_key_def by blast
    obtain events' w' where es': "encrypt_events nc en es w1 = (Inr (), (events', w'))"
        "decrypt_events num nc en' events' = (Inr (), es)"
        "list_all (\<lambda>e. case dget (ev_data e) f of None \<Rightarrow> True | Some v \<Rightarrow> v = PNone \<or> is_encrypted v) events'"
      using Cons.IH [OF es, of w1] unfolding f_def by blast
    have "decrypt_event_data num nc en' (dset (ev_data e) f c) = Inr (ev_data e)"
      unfolding f_def by (rule decrypt_event_data_field [OF key field d _ ok c]) (use v in \<open>simp add: f_def\<close>)
    moreover have "is_encrypted c" using decrypt_encrypt [OF key ok c] by blast
    ultimately show ?thesis using v c es' by (simp flip: f_def)
  qed
qed simp

text \<open>C24: Encrypted event fields come back: for events whose configured field holds a JSON value (or is absent or
  null, with nothing else encrypted), \<open>before_send_events\<close> succeeds, leaves no plaintext in that field, and what a
  reader with the writer's key (its own or a fallback key) decrypts is the events as they were.\<close>

theorem event_encryption_roundtrip:
  assumes on: "\<not> en_decrypt_only en" and key: "shares_key nc en en'"
    and field: "en_event_encryption_field en' = en_event_encryption_field en"
    and events: "list_all (event_sealable num en) events"
  shows "\<exists>events' w'. en_before_send_events nc en (events, w) = (Inr (), (events', w'))
    \<and> decrypt_events num nc en' events' = (Inr (), events)
    \<and> list_all (\<lambda>e. case dget (ev_data e) (en_event_encryption_field en) of None \<Rightarrow> True | Some v \<Rightarrow> v = PNone \<or> is_encrypted v) events'"
  using encrypt_events_roundtrip [OF key field events] on by (simp add: en_before_send_events_def)

text \<open>A box that \<open>_decrypt\<close> passes over: it does not open the text, or what it opens is not JSON.\<close>

definition unusable :: "(string \<Rightarrow> string) \<Rightarrow> ('b, 'u) nacl \<Rightarrow> string \<Rightarrow> 'b \<Rightarrow> bool" where
  "unusable num nc ct box = (case nc_decrypt nc box (utf8 ct) of
     Inl e \<Rightarrow> True
   | Inr byt \<Rightarrow> (case loads_bytes num byt of Inl f \<Rightarrow> f \<noteq> OutsideModel | Inr v \<Rightarrow> False))"

text \<open>The first box that is not passed over, with the plaintext it gives.\<close>

definition first_box :: "(string \<Rightarrow> string) \<Rightarrow> ('b, 'u) nacl \<Rightarrow> string \<Rightarrow> 'b list \<Rightarrow> bytes \<Rightarrow> bool" where
  "first_box num nc ct boxes byt = (\<exists>pre box suf. boxes = pre @ box # suf \<and> list_all (unusable num nc ct) pre
     \<and> \<not> unusable num nc ct box \<and> nc_decrypt nc box (utf8 ct) = Inr byt)"

lemma first_box_Cons:
  "first_box num nc ct (box # boxes) byt = (if unusable num nc ct box then first_box num nc ct boxes byt
     else nc_decrypt nc box (utf8 ct) = Inr byt)"
proof (cases "unusable num nc ct box")
  case True
  have "first_box num nc ct (box # boxes) byt" if "first_box num nc ct boxes byt"
  proof -
    from that obtain pre box' suf where "boxes = pre @ box' # suf" "list_all (unusable num nc ct) pre"
      "\<not> unusable num nc ct box'" "nc_decrypt nc box' (utf8 ct) = Inr byt" unfolding first_box_def by blast
    with True show ?thesis
      unfolding first_box_def by (intro exI [of _ "box # pre"] exI [of _ box'] exI [of _ suf]) simp
  qed
  moreover have "first_box num nc ct boxes byt" if "first_box num nc ct (box # boxes) byt"
    using that True unfolding first_box_def by (auto simp: Cons_eq_append_conv) blast
  ultimately show ?thesis using True by auto
next
  case False
  then show ?thesis unfolding first_box_def by (auto simp: Cons_eq_append_conv intro: exI [of _ "[]"])
qed

lemma decrypt_boxes_outcome:
  "case decrypt_boxes num nc boxes ct of
     Inr v \<Rightarrow> \<exists>byt. first_box num nc ct boxes byt \<and> loads_bytes num byt = Inr v
   | Inl e \<Rightarrow> e = Exception ''Failed to decrypt data'' \<and> list_all (unusable num nc ct) boxes
       \<or> e = outside_model \<and> (\<exists>byt. first_box num nc ct boxes byt \<and> loads_bytes num byt = Inl OutsideModel)"
proof (induction boxes)
  case (Cons box boxes)
  show ?case
  proof (cases "unusable num nc ct box")
    case True
    then have "decrypt_boxes num nc (box # boxes) ct = decrypt_boxes num nc boxes ct"
      by (auto simp: unusable_def split: sum.splits json_fail.splits)
    with Cons.IH True show ?thesis by (auto simp: first_box_Cons simp del: decrypt_boxes.simps split: sum.splits)
  next
    case False
    then obtain byt where byt: "nc_decrypt nc box (utf8 ct) = Inr byt"
      "loads_bytes num byt = Inl OutsideModel \<or> (\<exists>v. loads_bytes num byt = Inr v)"
      by (auto simp: unusable_def split: sum.splits)
    with False show ?thesis by (auto simp: first_box_Cons)
  qed
qed simp

text \<open>C25: Decryption uses the first key that works.  An encrypted value decrypts to the JSON value of the plaintext that the first
  usable box gives, the own key before the fallback keys in their order, where a box is usable when it opens the text
  and what it opens is JSON; it fails with \<open>Failed to decrypt data\<close> exactly when none of all these boxes is
  usable (a plaintext that the model has no characters for aside).  Any other value is returned as it is.\<close>

theorem decrypt_first_box:
  assumes "is_encrypted (PDict d)" and "dget d ''data'' = Some (PStr ct)" and "\<not> is_encrypted other"
  shows "(case decrypt num nc en (PDict d) of
      Inr v \<Rightarrow> \<exists>byt. first_box num nc ct (en_box en # en_fallback_decryption_boxes en) byt \<and> loads_bytes num byt = Inr v
    | Inl e \<Rightarrow> e = Exception ''Failed to decrypt data''
          \<and> list_all (unusable num nc ct) (en_box en # en_fallback_decryption_boxes en)
        \<or> e = outside_model \<and> (\<exists>byt. first_box num nc ct (en_box en # en_fallback_decryption_boxes en) byt
          \<and> loads_bytes num byt = Inl OutsideModel))
    \<and> decrypt num nc en other = Inr other"
  using assms decrypt_boxes_outcome [of num nc ct "en_box en # en_fallback_decryption_boxes en"]
  by (simp add: decrypt_def del: decrypt_boxes.simps)

section \<open>A toy PyNaCl for the witnesses\<close>

fun unhex :: "bytes \<Rightarrow> exc + bytes" where
  "unhex (a # b # r) = (case (hex_digit_val a, hex_digit_val b) of
     (Some x, Some y) \<Rightarrow> map_sum (\<lambda>e. e) ((#) (char_of (16 * x + y))) (unhex r)
   | _ \<Rightarrow> Inl (PyExc ''ValueError'' []))"
| "unhex [] = Inr []"
| "unhex [a] = Inl (PyExc ''ValueError'' [])"

definition tohex :: "bytes \<Rightarrow> bytes" where
  "tohex m = concat (map (\<lambda>c. [hex_digit (code c div 16), hex_digit (code c mod 16)]) m)"

definition demo_nacl :: "(char, nat) nacl" where
  "demo_nacl = \<lparr>nc_generichash = (\<lambda>b. take 1 b), nc_box = (\<lambda>k. case k of [c] \<Rightarrow> Inr c | _ \<Rightarrow> Inl (PyExc ''ValueError'' [])),
     nc_nonce = (\<lambda>u. ([], Suc u)), nc_encrypt = (\<lambda>k n m. k # tohex m),
     nc_decrypt = (\<lambda>k c. if take 1 c = [k] then unhex (drop 1 c) else Inl (PyExc ''CryptoError'' []))\<rparr>"

lemma unhex_tohex: "unhex (tohex m) = Inr m"
proof (induction m)
  case (Cons c m)
  have "code c < 256" by (simp add: code_def)
  then have "hex_digit_val (hex_digit (code c div 16)) = Some (code c div 16)"
    "hex_digit_val (hex_digit (code c mod 16)) = Some (code c mod 16)"
    by (auto intro!: hex_digit_val_digit)
  with Cons show ?case by (simp add: tohex_def code_def)
qed (simp add: tohex_def)

lemma hex_digit_ascii: "n < 16 \<Longrightarrow> code (hex_digit n) < 128"
  by (auto simp: hex_digit_def code_def)

lemma tohex_ascii: "list_all (\<lambda>c. code c < 128) (tohex m)"
proof (induction m)
  case (Cons c m)
  have "code c < 256" by (simp add: code_def)
  then have "code (hex_digit (code c div 16)) < 128" "code (hex_digit (code c mod 16)) < 128"
    by (auto intro!: hex_digit_ascii)
  with Cons show ?case by (simp add: tohex_def)
qed (simp add: tohex_def)

definition demo_writer :: "char encryption" where
  "demo_writer = \<lparr>en_box = CHR ''a'', en_decrypt_only = False, en_event_encryption_field = default_event_encryption_field,
     en_fallback_decryption_boxes = []\<rparr>"

text \<open>The reader has rotated its key.\<close>

definition demo_reader :: "char encryption" where
  "demo_reader = demo_writer\<lparr>en_box := CHR ''b'', en_fallback_decryption_boxes := [CHR ''a'']\<rparr>"

lemma demo_shares_key: "shares_key demo_nacl demo_writer demo_reader"
  unfolding shares_key_def
proof (intro conjI exI)
  show "ascii_output demo_nacl (en_box demo_writer)"
    by (simp add: ascii_output_def demo_nacl_def demo_writer_def tohex_ascii) (simp add: code_def)
  show "en_box demo_reader # en_fallback_decryption_boxes demo_reader = [CHR ''b''] @ CHR ''a'' # []"
    by (simp add: demo_reader_def demo_writer_def)
  show "list_all (rejects demo_nacl (en_box demo_writer)) [CHR ''b'']"
    by (simp add: rejects_def demo_nacl_def demo_writer_def)
  show "opens demo_nacl (en_box demo_writer) (CHR ''a'')"
    by (simp add: opens_def demo_nacl_def demo_writer_def unhex_tohex)
qed

definition demo_outside :: "nat outside" where
  "demo_outside = \<lparr>logging_enabled = True, logged = [], user = 0\<rparr>"

definition demo_sealed :: transform_output_result where
  "demo_sealed = fst (snd (en_transform_output demo_nacl demo_writer
     (\<lparr>tr_error = None, tr_output = PInt 7, tr_step = None\<rparr>, demo_outside)))"

theorem step_output_encryption_roundtrip_witness:
  "decrypt_memos (\<lambda>r. r) demo_nacl demo_reader [(''s1'', \<lparr>out_data = tr_output demo_sealed, out_error = None\<rparr>)]
   = (Inr (), [(''s1'', \<lparr>out_data = PInt 7, out_error = None\<rparr>)])"
proof (rule step_output_encryption_roundtrip [THEN conjunct1, OF _ demo_shares_key])
  have "en_transform_output demo_nacl demo_writer (\<lparr>tr_error = None, tr_output = PInt 7, tr_step = None\<rparr>, demo_outside)
      = (Inr (), (demo_sealed, demo_outside\<lparr>user := 1\<rparr>))"
    by (simp add: demo_sealed_def) code_simp
  from sealed_memoI [OF this, of "\<lambda>r. r" None]
  show "list_all2 (\<lambda>(k, m) (k', m'). k' = k \<and> sealed_memo (\<lambda>r. r) demo_nacl demo_writer m m')
      [(''s1'', \<lparr>out_data = PInt 7, out_error = None\<rparr>)] [(''s1'', \<lparr>out_data = tr_output demo_sealed, out_error = None\<rparr>)]"
    by (simp add: is_marked_def)
qed (simp add: demo_writer_def)

definition demo_events :: "event list" where
  "demo_events = [\<lparr>ev_data = [(''a'', PInt 1), (''encrypted'', PStr ''secret'')], ev_id = ''1'', ev_name = ''n'', ev_ts = 0\<rparr>,
     \<lparr>ev_data = [], ev_id = ''2'', ev_name = ''n'', ev_ts = 0\<rparr>]"

theorem event_encryption_roundtrip_witness:
  "\<exists>events' w'. en_before_send_events demo_nacl demo_writer (demo_events, demo_outside) = (Inr (), (events', w'))
    \<and> decrypt_events (\<lambda>r. r) demo_nacl demo_reader events' = (Inr (), demo_events)"
proof -
  have "list_all (event_sealable (\<lambda>r. r) demo_writer) demo_events" by code_simp
  from event_encryption_roundtrip [OF _ demo_shares_key _ this] show ?thesis
    by (auto simp: demo_writer_def demo_reader_def) blast
qed

text \<open>The reader with the rotated key reads what the writer sealed; a reader without the writer's key fails.\<close>

theorem decrypt_first_box_witness:
  "(\<exists>byt. first_box (\<lambda>r. r) demo_nacl ''a37'' [CHR ''b'', CHR ''a''] byt \<and> loads_bytes (\<lambda>r. r) byt = Inr (PInt 7))
   \<and> tr_output demo_sealed = PDict [(encryption_marker, PBool True), (strategy_marker, PStr strategy_identifier), (''data'', PStr ''a37'')]
   \<and> list_all (unusable (\<lambda>r. r) demo_nacl ''a37'') [CHR ''b'']"
proof -
  let ?d = "[(encryption_marker, PBool True), (strategy_marker, PStr strategy_identifier), (''data'', PStr ''a37'')]"
  have sealed: "tr_output demo_sealed = PDict ?d" "is_encrypted (PDict ?d)" "dget ?d ''data'' = Some (PStr ''a37'')" by code_simp+
  have reads: "decrypt (\<lambda>r. r) demo_nacl demo_reader (PDict ?d) = Inr (PInt 7)"
    "decrypt (\<lambda>r. r) demo_nacl (demo_reader\<lparr>en_fallback_decryption_boxes := []\<rparr>) (PDict ?d) = Inl (Exception ''Failed to decrypt data'')"
    "outside_model \<noteq> Exception ''Failed to decrypt data''" by code_simp+
  have other: "\<not> is_encrypted PNone" by (simp add: is_encrypted_def)
  note facts = decrypt_first_box [OF sealed(2,3) other, of "\<lambda>r. r" demo_nacl]
  from facts [of demo_reader] have "\<exists>byt. first_box (\<lambda>r. r) demo_nacl ''a37'' [CHR ''b'', CHR ''a''] byt \<and> loads_bytes (\<lambda>r. r) byt = Inr (PInt 7)"
    unfolding reads by (simp add: demo_reader_def demo_writer_def)
  moreover from facts [of "demo_reader\<lparr>en_fallback_decryption_boxes := []\<rparr>"] have "list_all (unusable (\<lambda>r. r) demo_nacl ''a37'') [CHR ''b'']"
    unfolding reads(2) using reads(3) by (simp add: demo_reader_def demo_writer_def)
  ultimately show ?thesis using sealed(1) by blast
qed

end
