(* ===== verification/RemoteState.thy ===== *)
theory RemoteState
  imports Json Middleware
begin

text \<open>
  \<open>experimental/remote_state_middleware\<close>: step outputs are kept in a store of the user's choosing and only a
  placeholder goes to the Inngest server.  A \<open>StateDriver\<close> is a record of its two operations on the driver's state.
  The middleware's own state is the driver's and \<open>_run_id\<close>.  \<open>secrets.choice\<close> (\<open>choice\<close>) and the boto3 client
  are parameters.
\<close>

section \<open>The driver interface\<close>

record 'd state_driver =
  drv_load_steps :: "(memos \<times> 'd, exc, unit) M"
  drv_save_step :: "string \<Rightarrow> pyobj \<Rightarrow> ('d, exc, (string, pyobj) dict) M"

text \<open>The loop of both drivers' \<open>load_steps\<close>: memos before one that raises stay changed.\<close>

fun load_each :: "(pyobj \<Rightarrow> exc + pyobj) \<Rightarrow> memos \<Rightarrow> (exc + unit) \<times> memos" where
  "load_each load [] = (Inr (), [])"
| "load_each load ((k, step) # steps) =
     (case load (out_data step) of
        Inl e \<Rightarrow> (Inl e, (k, step) # steps)
      | Inr v \<Rightarrow> (case load_each load steps of (r, steps') \<Rightarrow> (r, (k, step\<lparr>out_data := v\<rparr>) # steps')))"

definition driver_of ::
  "('d \<Rightarrow> pyobj \<Rightarrow> exc + pyobj) \<Rightarrow> (string \<Rightarrow> pyobj \<Rightarrow> ('d, exc, (string, pyobj) dict) M) \<Rightarrow> 'd state_driver" where
  "driver_of load save = \<lparr>drv_load_steps = (\<lambda>(steps, st). case load_each (load st) steps of (r, steps') \<Rightarrow> (r, (steps', st))),
     drv_save_step = save\<rparr>"

section \<open>The middleware\<close>

definition rs_transform_input ::
  "'d state_driver \<Rightarrow> ((fn_context \<times> memos) \<times> ('d \<times> string option) outside, exc, unit) M" where
  "rs_transform_input driver = (\<lambda>((ctx, steps), w).
     case drv_load_steps driver (steps, fst (user w)) of
       (Inl e, (steps', st)) \<Rightarrow> (Inl e, ((ctx, steps'), w\<lparr>user := (st, snd (user w))\<rparr>))
     | (Inr _, (steps', st)) \<Rightarrow> (Inr (), ((ctx, steps'), w\<lparr>user := (st, Some (cx_run_id ctx))\<rparr>)))"

definition rs_transform_output ::
  "'d state_driver \<Rightarrow> (transform_output_result \<times> ('d \<times> string option) outside, exc, unit) M" where
  "rs_transform_output driver = (\<lambda>(result, w).
     case tr_step result of
       None \<Rightarrow> (Inr (), (result, w))
     | Some s \<Rightarrow>
         if ts_op s \<noteq> OP_STEP_RUN then (Inr (), (result, w))
         else if \<not> has_output result then (Inr (), (result, w))
         else (case snd (user w) of
             None \<Rightarrow> (Inl (Exception ''missing run ID''), (result, w))
           | Some run_id \<Rightarrow>
               (case drv_save_step driver run_id (tr_output result) (fst (user w)) of
                  (Inl e, st) \<Rightarrow> (Inl e, (result, w\<lparr>user := (st, Some run_id)\<rparr>))
                | (Inr d, st) \<Rightarrow> (Inr (), (result\<lparr>tr_output := PDict d\<rparr>, w\<lparr>user := (st, Some run_id)\<rparr>)))))"

text \<open>A fresh instance: \<open>_run_id\<close> is the class attribute \<open>None\<close>.\<close>

definition RemoteStateMiddleware :: "'d state_driver \<Rightarrow> ('d \<times> string option) uninit" where
  "RemoteStateMiddleware driver = seqM (modifyM (\<lambda>w. w\<lparr>user := (fst (user w), None)\<rparr>))
     (retM (base_MiddlewareSync\<lparr>mw_transform_input := rs_transform_input driver,
        mw_transform_output := rs_transform_output driver\<rparr>))"

section \<open>The drivers\<close>

definition remote_marker :: string where
  "remote_marker = ''__REMOTE_STATE__''"

definition remote_strategy_marker :: string where
  "remote_strategy_marker = ''__STRATEGY__''"

definition memory_identifier :: string where
  "memory_identifier = ''inngest/memory''"

definition s3_identifier :: string where
  "s3_identifier = ''inngest/s3''"

definition key_chars :: string where
  "key_chars = ''abcdefghijklmnopqrstuvwxyzABCDEFGHIJKLMNOPQRSTUVWXYZ0123456789''"

primrec draw_chars :: "(string \<Rightarrow> 'r \<Rightarrow> char \<times> 'r) \<Rightarrow> nat \<Rightarrow> 'r \<Rightarrow> string \<times> 'r" where
  "draw_chars choice 0 r = ([], r)"
| "draw_chars choice (Suc n) r = (case choice key_chars r of (c, r1) \<Rightarrow> (case draw_chars choice n r1 of (s, r2) \<Rightarrow> (c # s, r2)))"

definition create_key :: "(string \<Rightarrow> 'r \<Rightarrow> char \<times> 'r) \<Rightarrow> 'r \<Rightarrow> string \<times> 'r" where
  "create_key choice = draw_chars choice 32"

definition is_remote :: "string \<Rightarrow> (string, pyobj) dict \<Rightarrow> bool" where
  "is_remote identifier d = (dhas d remote_marker \<and> dhas d remote_strategy_marker
     \<and> dget d remote_strategy_marker = Some (PStr identifier))"

text \<open>\<open>InMemoryDriver\<close>: its dictionary \<open>_data\<close>, with the source of its random keys.\<close>

record 'r in_memory =
  im_data :: "(string, pyobj) dict"
  im_random :: 'r

definition InMemoryDriver_load :: "'r in_memory \<Rightarrow> pyobj \<Rightarrow> exc + pyobj" where
  "InMemoryDriver_load st data = (case data of
     PDict d \<Rightarrow>
       if \<not> is_remote memory_identifier d then Inr data
       else bindE (required as_str d ''key'') (\<lambda>key.
         (case dget (im_data st) key of None \<Rightarrow> Inl (PyExc ''KeyError'' key) | Some v \<Rightarrow> Inr v))
   | _ \<Rightarrow> Inr data)"

definition InMemoryDriver_save_step ::
  "(string \<Rightarrow> 'r \<Rightarrow> char \<times> 'r) \<Rightarrow> string \<Rightarrow> pyobj \<Rightarrow> ('r in_memory, exc, (string, pyobj) dict) M" where
  "InMemoryDriver_save_step choice run_id v = (\<lambda>st.
     case create_key choice (im_random st) of (key, r) \<Rightarrow>
       (Inr [(remote_marker, PBool True), (remote_strategy_marker, PStr memory_identifier), (''key'', PStr key)],
        \<lparr>im_data = dset (im_data st) key v, im_random = r\<rparr>))"

definition InMemoryDriver :: "(string \<Rightarrow> 'r \<Rightarrow> char \<times> 'r) \<Rightarrow> 'r in_memory state_driver" where
  "InMemoryDriver choice = driver_of InMemoryDriver_load (InMemoryDriver_save_step choice)"

text \<open>
  \<open>S3Driver\<close>: the state is that of the service and the source of random keys.  \<open>get_object\<close> reads a bucket's
  object, \<open>put_object\<close> writes one; both may raise.
\<close>

record 's s3_client =
  s3_get_object :: "string \<Rightarrow> string \<Rightarrow> 's \<Rightarrow> exc + bytes"
  s3_put_object :: "string \<Rightarrow> string \<Rightarrow> string \<Rightarrow> 's \<Rightarrow> (exc + unit) \<times> 's"

definition S3Driver_load :: "(string \<Rightarrow> string) \<Rightarrow> 's s3_client \<Rightarrow> 's \<times> 'r \<Rightarrow> pyobj \<Rightarrow> exc + pyobj" where
  "S3Driver_load num client st data = (case data of
     PDict d \<Rightarrow>
       if \<not> is_remote s3_identifier d then Inr data
       else bindE (required as_str d ''bucket'') (\<lambda>bucket.
            bindE (required as_str d ''key'') (\<lambda>key.
            bindE (s3_get_object client bucket key (fst st)) (\<lambda>body.
              (case loads_bytes num body of
                 Inl f \<Rightarrow> Inl (PyExc (if f = OutsideModel then ''OutsideModel'' else ''ValueError'') ''invalid JSON'')
               | Inr v \<Rightarrow> Inr v))))
   | _ \<Rightarrow> Inr data)"

definition S3Driver_save_step ::
  "(string \<Rightarrow> 'r \<Rightarrow> char \<times> 'r) \<Rightarrow> 's s3_client \<Rightarrow> string \<Rightarrow> string \<Rightarrow> pyobj \<Rightarrow> ('s \<times> 'r, exc, (string, pyobj) dict) M" where
  "S3Driver_save_step choice client bucket run_id v = (\<lambda>(s, r).
     case create_key choice r of (k, r') \<Rightarrow>
       (let key = ''inngest/remote_state/'' @ run_id @ ''/'' @ k in
        case json_dumps v of
          Inl t \<Rightarrow> (Inl (PyExc ''TypeError'' (''Object of type '' @ t @ '' is not JSON serializable'')), (s, r'))
        | Inr body \<Rightarrow>
            (case s3_put_object client body bucket key s of
               (Inl e, s') \<Rightarrow> (Inl e, (s', r'))
             | (Inr _, s') \<Rightarrow>
                 (Inr [(remote_marker, PBool True), (remote_strategy_marker, PStr s3_identifier),
                       (''bucket'', PStr bucket), (''key'', PStr key)], (s', r')))))"

definition S3Driver ::
  "(string \<Rightarrow> string) \<Rightarrow> (string \<Rightarrow> 'r \<Rightarrow> char \<times> 'r) \<Rightarrow> 's s3_client \<Rightarrow> string \<Rightarrow> ('s \<times> 'r) state_driver" where
  "S3Driver num choice client bucket = driver_of (S3Driver_load num client) (S3Driver_save_step choice client bucket)"

text \<open>
  The \<open>transform_output\<close> hook on the results of steps that ran one after the other, with what goes to the server
  for each, and the memos that the server makes of outputs.
\<close>

fun save_outputs :: "'d state_driver \<Rightarrow> (string \<times> pyobj) list
    \<Rightarrow> (('d \<times> string option) outside, exc, (string \<times> pyobj) list) M" where
  "save_outputs driver [] w = (Inr [], w)"
| "save_outputs driver ((k, v) # outs) w =
     (case rs_transform_output driver
         (\<lparr>tr_error = None, tr_output = v, tr_step = Some \<lparr>ts_id = k, ts_op = OP_STEP_RUN, ts_opts = None\<rparr>\<rparr>, w) of
        (Inl e, (result, w')) \<Rightarrow> (Inl e, w')
      | (Inr _, (result, w')) \<Rightarrow>
          (case save_outputs driver outs w' of
             (Inl e, w'') \<Rightarrow> (Inl e, w'') | (Inr ps, w'') \<Rightarrow> (Inr ((k, tr_output result) # ps), w'')))"

definition memos_of :: "(string \<times> pyobj) list \<Rightarrow> memos" where
  "memos_of outs = map (\<lambda>(k, v). (k, \<lparr>out_data = v, out_error = None\<rparr>)) outs"

text \<open>At every save of a run the store is fresh.\<close>

fun fresh_throughout :: "(string \<Rightarrow> 'd \<Rightarrow> bool) \<Rightarrow> 'd state_driver \<Rightarrow> string \<Rightarrow> 'd \<Rightarrow> (string \<times> pyobj) list \<Rightarrow> bool" where
  "fresh_throughout fresh driver run_id st [] = True"
| "fresh_throughout fresh driver run_id st ((k, v) # outs) =
     (fresh run_id st \<and> fresh_throughout fresh driver run_id (snd (drv_save_step driver run_id v st)) outs)"

section \<open>What the middleware relies on\<close>

text \<open>
  \<open>load\<close> reads one output back, \<open>save\<close> stores one.  \<open>storable\<close> are the outputs that the driver can hold and
  \<open>fresh\<close> says that the next save overwrites nothing.  A saved output is read back from what \<open>save\<close> returns, and a
  save disturbs nothing that could be read before.
\<close>

locale step_store =
  fixes load :: "'d \<Rightarrow> pyobj \<Rightarrow> exc + pyobj"
    and save :: "string \<Rightarrow> pyobj \<Rightarrow> ('d, exc, (string, pyobj) dict) M"
    and storable :: "pyobj \<Rightarrow> bool"
    and fresh :: "string \<Rightarrow> 'd \<Rightarrow> bool"
  assumes load_save: "storable v \<Longrightarrow> save run_id v st = (Inr d, st') \<Longrightarrow> load st' (PDict d) = Inr v"
    and load_other: "fresh run_id st \<Longrightarrow> save run_id v st = (Inr d, st') \<Longrightarrow> load st x = Inr y \<Longrightarrow> load st' x = Inr y"
begin

text \<open>Outputs of one run saved one after the other, each when the store is fresh, with what came back.\<close>

inductive saved :: "string \<Rightarrow> 'd \<Rightarrow> (string \<times> pyobj) list \<Rightarrow> (string \<times> pyobj) list \<Rightarrow> 'd \<Rightarrow> bool" where
  saved_Nil: "saved run_id st [] [] st"
| saved_Cons: "storable v \<Longrightarrow> fresh run_id st \<Longrightarrow> save run_id v st = (Inr d, st1) \<Longrightarrow> saved run_id st1 outs ps st'
    \<Longrightarrow> saved run_id st ((k, v) # outs) ((k, PDict d) # ps) st'"

lemma saved_keeps: "saved run_id st outs ps st' \<Longrightarrow> load st x = Inr y \<Longrightarrow> load st' x = Inr y"
  by (induction rule: saved.induct) (auto dest: load_other)

lemma saved_restored: "saved run_id st outs ps st' \<Longrightarrow> load_each (load st') (memos_of ps) = (Inr (), memos_of outs)"
proof (induction rule: saved.induct)
  case (saved_Cons v run_id st d st1 outs ps st' k)
  have "load st' (PDict d) = Inr v"
    using saved_keeps [OF saved_Cons.hyps(4)] load_save [OF saved_Cons.hyps(1,3)] by blast
  with saved_Cons.IH show ?case by (simp add: memos_of_def)
qed (simp add: memos_of_def)

lemma save_outputs_saved:
  assumes "save_outputs (driver_of load save) outs w = (Inr ps, w')" and "user w = (st, Some run_id)"
    and "list_all (\<lambda>(k, v). storable v \<and> v \<noteq> PEmpty) outs" and "fresh_throughout fresh (driver_of load save) run_id st outs"
  shows "saved run_id st outs ps (fst (user w'))"
  using assms
proof (induction outs arbitrary: w st ps)
  case (Cons x outs)
  obtain k v where o: "x = (k, v)" by force
  obtain r st1 where save: "save run_id v st = (r, st1)" by force
  with Cons.prems o obtain d where r: "r = Inr d"
    by (cases r) (auto simp: rs_transform_output_def has_output_def driver_of_def)
  define w1 where "w1 = w\<lparr>user := (st1, Some run_id)\<rparr>"
  have hook: "rs_transform_output (driver_of load save)
      (\<lparr>tr_error = None, tr_output = v, tr_step = Some \<lparr>ts_id = k, ts_op = OP_STEP_RUN, ts_opts = None\<rparr>\<rparr>, w)
      = (Inr (), (\<lparr>tr_error = None, tr_output = PDict d, tr_step = Some \<lparr>ts_id = k, ts_op = OP_STEP_RUN, ts_opts = None\<rparr>\<rparr>, w1))"
    using Cons.prems save r by (simp add: o rs_transform_output_def has_output_def driver_of_def w1_def)
  with Cons.prems(1) obtain ps1 where rest: "save_outputs (driver_of load save) outs w1 = (Inr ps1, w')" "ps = (k, PDict d) # ps1"
    by (auto simp: o split: prod.splits sum.splits)
  have "user w1 = (st1, Some run_id)" by (simp add: w1_def)
  moreover have "fresh_throughout fresh (driver_of load save) run_id st1 outs"
    using Cons.prems(4) save by (simp add: o driver_of_def)
  ultimately have "saved run_id st1 outs ps1 (fst (user w'))"
    using Cons.prems(3) by (intro Cons.IH [OF rest(1)]) simp_all
  then show ?case
    using Cons.prems(3,4) save r by (auto simp: o rest(2) intro: saved_Cons)
qed (auto intro: saved_Nil)

lemma hooks_roundtrip:
  assumes "save_outputs (driver_of load save) outs w = (Inr ps, w')" and "user w = (st, Some run_id)"
    and "list_all (\<lambda>(k, v). storable v \<and> v \<noteq> PEmpty) outs" and "fresh_throughout fresh (driver_of load save) run_id st outs"
    and "fst (user w2) = fst (user w')"
  shows "rs_transform_input (driver_of load save) ((ctx, memos_of ps), w2)
    = (Inr (), ((ctx, memos_of outs), w2\<lparr>user := (fst (user w2), Some (cx_run_id ctx))\<rparr>))"
  using saved_restored [OF save_outputs_saved [OF assms(1-4)]] assms(5)
  by (simp add: rs_transform_input_def driver_of_def)

end

lemma required_str: "required as_str d k = (case dget d k of
    None \<Rightarrow> Inl (ValidationError (k @ '': Field required''))
  | Some (PStr s) \<Rightarrow> Inr s | Some v \<Rightarrow> Inl (ValidationError (k @ '': Input should be a valid string'')))"
  by (simp add: required_def field_or_missing_def as_str_def split: option.split pyobj.split)

lemma remote_keys [simp]:
  "remote_marker \<noteq> ''key''" "remote_strategy_marker \<noteq> ''key''" "remote_marker \<noteq> remote_strategy_marker"
  "remote_marker \<noteq> ''bucket''" "remote_strategy_marker \<noteq> ''bucket''"
  by (simp_all add: remote_marker_def remote_strategy_marker_def)

definition memory_fresh :: "(string \<Rightarrow> 'r \<Rightarrow> char \<times> 'r) \<Rightarrow> string \<Rightarrow> 'r in_memory \<Rightarrow> bool" where
  "memory_fresh choice run_id st = (\<not> dhas (im_data st) (fst (create_key choice (im_random st))))"

interpretation memory: step_store InMemoryDriver_load "InMemoryDriver_save_step choice" "\<lambda>v. True" "memory_fresh choice"
proof unfold_locales
  fix v run_id st d st'
  assume "InMemoryDriver_save_step choice run_id v st = (Inr d, st')"
  then show "InMemoryDriver_load st' (PDict d) = Inr v"
    by (auto simp: InMemoryDriver_save_step_def InMemoryDriver_load_def is_remote_def dhas_iff_dget required_str split: prod.splits)
next
  fix run_id st v d st' x y
  assume "memory_fresh choice run_id st" and "InMemoryDriver_save_step choice run_id v st = (Inr d, st')"
    and "InMemoryDriver_load st x = Inr y"
  then show "InMemoryDriver_load st' x = Inr y"
    by (auto simp: InMemoryDriver_save_step_def InMemoryDriver_load_def memory_fresh_def dhas_iff_dget required_str bindE_def
        split: prod.splits pyobj.splits option.splits if_splits sum.splits)
qed

text \<open>
  What is relied on of the service: an object that was written is what is read under its name, and other objects
  stay as they are.
\<close>

definition s3_laws :: "'s s3_client \<Rightarrow> bool" where
  "s3_laws client = (\<forall>body bucket key s s'. s3_put_object client body bucket key s = (Inr (), s') \<longrightarrow>
     s3_get_object client bucket key s' = Inr (utf8 body) \<and>
     (\<forall>b k. (b, k) \<noteq> (bucket, key) \<longrightarrow> s3_get_object client b k s' = s3_get_object client b k s))"

definition s3_key :: "(string \<Rightarrow> 'r \<Rightarrow> char \<times> 'r) \<Rightarrow> string \<Rightarrow> 'r \<Rightarrow> string" where
  "s3_key choice run_id r = ''inngest/remote_state/'' @ run_id @ ''/'' @ fst (create_key choice r)"

definition s3_fresh :: "(string \<Rightarrow> 'r \<Rightarrow> char \<times> 'r) \<Rightarrow> 's s3_client \<Rightarrow> string \<Rightarrow> string \<Rightarrow> 's \<times> 'r \<Rightarrow> bool" where
  "s3_fresh choice client bucket run_id = (\<lambda>(s, r). isl (s3_get_object client bucket (s3_key choice run_id r) s))"

lemma S3_save_Inr:
  assumes "S3Driver_save_step choice client bucket run_id v (s, r) = (Inr d, st')"
  obtains body s' where "json_dumps v = Inr body" "s3_put_object client body bucket (s3_key choice run_id r) s = (Inr (), s')"
    "st' = (s', snd (create_key choice r))"
    "d = [(remote_marker, PBool True), (remote_strategy_marker, PStr s3_identifier), (''bucket'', PStr bucket),
       (''key'', PStr (s3_key choice run_id r))]"
  using assms that by (auto simp: S3Driver_save_step_def s3_key_def Let_def split: prod.splits sum.splits)

lemma S3_step_store:
  assumes laws: "s3_laws client"
  shows "step_store (S3Driver_load num client) (S3Driver_save_step choice client bucket) (json_ok num) (s3_fresh choice client bucket)"
proof
  fix v run_id st d st'
  assume v: "json_ok num v" and save: "S3Driver_save_step choice client bucket run_id v st = (Inr d, st')"
  obtain s r where st: "st = (s, r)" by force
  from S3_save_Inr [OF save [unfolded st]] obtain body s' where body: "json_dumps v = Inr body"
    and put: "s3_put_object client body bucket (s3_key choice run_id r) s = (Inr (), s')"
    and d: "st' = (s', snd (create_key choice r))" "d = [(remote_marker, PBool True), (remote_strategy_marker, PStr s3_identifier),
       (''bucket'', PStr bucket), (''key'', PStr (s3_key choice run_id r))]" .
  have "s3_get_object client bucket (s3_key choice run_id r) s' = Inr (utf8 body)"
    using laws put unfolding s3_laws_def by blast
  then show "S3Driver_load num client st' (PDict d) = Inr v"
    using loads_bytes_dumps [OF v body] by (simp add: d S3Driver_load_def is_remote_def dhas_iff_dget required_str)
next
  fix run_id st v d st' x y
  assume fresh: "s3_fresh choice client bucket run_id st" and save: "S3Driver_save_step choice client bucket run_id v st = (Inr d, st')"
    and load: "S3Driver_load num client st x = Inr y"
  obtain s r where st: "st = (s, r)" by force
  from S3_save_Inr [OF save [unfolded st]] obtain body s' where
    put: "s3_put_object client body bucket (s3_key choice run_id r) s = (Inr (), s')"
    and st': "st' = (s', snd (create_key choice r))" .
  have same: "s3_get_object client b k s = Inr z \<Longrightarrow> s3_get_object client b k s' = Inr z" for b k z
    using laws put fresh unfolding s3_laws_def s3_fresh_def st by (cases "(b, k) = (bucket, s3_key choice run_id r)") (auto simp: isl_def)
  from load show "S3Driver_load num client st' x = Inr y"
    by (auto simp: S3Driver_load_def st st' bindE_def same split: pyobj.splits if_splits sum.splits)
qed

section \<open>Round trips of the middleware\<close>

text \<open>C26: Step outputs kept in S3 come back: when the \<open>transform_output\<close> hook has replaced the JSON outputs of a
  run's steps by surrogates, each under a key that named no object, the \<open>transform_input\<close> hook of a later request
  turns the memos made of the surrogates into memos of the original outputs.\<close>

theorem s3_outputs_roundtrip:
  assumes laws: "s3_laws client"
    and saved: "save_outputs (S3Driver num choice client bucket) outs w = (Inr ps, w')"
    and user: "user w = (st, Some run_id)"
    and outs: "list_all (\<lambda>(k, v). json_ok num v) outs"
    and fresh: "fresh_throughout (s3_fresh choice client bucket) (S3Driver num choice client bucket) run_id st outs"
    and later: "fst (user w2) = fst (user w')"
  shows "rs_transform_input (S3Driver num choice client bucket) ((ctx, memos_of ps), w2)
    = (Inr (), ((ctx, memos_of outs), w2\<lparr>user := (fst (user w2), Some (cx_run_id ctx))\<rparr>))"
proof -
  have "list_all (\<lambda>(k, v). json_ok num v \<and> v \<noteq> PEmpty) outs" using outs by (auto simp: list_all_iff)
  with step_store.hooks_roundtrip [OF S3_step_store [OF laws]] saved user fresh later show ?thesis
    unfolding S3Driver_def by blast
qed

text \<open>Step outputs kept in memory come back, opaque objects included: the same round trip through the reference
  driver, when no random key is drawn twice.\<close>

theorem memory_outputs_roundtrip:
  assumes saved: "save_outputs (InMemoryDriver choice) outs w = (Inr ps, w')"
    and user: "user w = (st, Some run_id)"
    and outs: "list_all (\<lambda>(k, v). v \<noteq> PEmpty) outs"
    and fresh: "fresh_throughout (memory_fresh choice) (InMemoryDriver choice) run_id st outs"
    and later: "fst (user w2) = fst (user w')"
  shows "rs_transform_input (InMemoryDriver choice) ((ctx, memos_of ps), w2)
    = (Inr (), ((ctx, memos_of outs), w2\<lparr>user := (fst (user w2), Some (cx_run_id ctx))\<rparr>))"
  using memory.hooks_roundtrip [OF saved [unfolded InMemoryDriver_def] user _ fresh [unfolded InMemoryDriver_def] later] outs
  by (simp add: InMemoryDriver_def)

text \<open>A service that keeps its objects in a dictionary, and keys drawn in order.\<close>

definition demo_s3 :: "(string \<times> string, bytes) dict s3_client" where
  "demo_s3 = \<lparr>s3_get_object = (\<lambda>b k s. case dget s (b, k) of None \<Rightarrow> Inl (PyExc ''NoSuchKey'' k) | Some v \<Rightarrow> Inr v),
     s3_put_object = (\<lambda>body b k s. (Inr (), dset s (b, k) (utf8 body)))\<rparr>"

definition demo_choice :: "string \<Rightarrow> nat \<Rightarrow> char \<times> nat" where
  "demo_choice cs r = (cs ! (r mod length cs), Suc r)"

definition demo_outs :: "(string \<times> pyobj) list" where
  "demo_outs = [(''s1'', PInt 7), (''s2'', PDict [(''a'', PStr ''x'')])]"

lemma demo_s3_laws: "s3_laws demo_s3"
  by (simp add: s3_laws_def demo_s3_def)

definition demo_s3_outside :: "(((string \<times> string, bytes) dict \<times> nat) \<times> string option) outside" where
  "demo_s3_outside = \<lparr>logging_enabled = True, logged = [], user = (([], 0), Some ''run1'')\<rparr>"

definition demo_s3_saved where
  "demo_s3_saved = save_outputs (S3Driver (\<lambda>r. r) demo_choice demo_s3 ''bucket1'') demo_outs demo_s3_outside"

definition demo_ctx :: fn_context where
  "demo_ctx = \<lparr>cx_attempt = 0, cx_event = \<lparr>ev_data = [], ev_id = [], ev_name = ''n'', ev_ts = 0\<rparr>, cx_events = [],
     cx_logger_filtered = True, cx_run_id = ''run1''\<rparr>"

theorem s3_outputs_roundtrip_witness:
  "rs_transform_input (S3Driver (\<lambda>r. r) demo_choice demo_s3 ''bucket1'')
     ((demo_ctx, memos_of (projr (fst demo_s3_saved))), snd demo_s3_saved)
   = (Inr (), ((demo_ctx, memos_of demo_outs), (snd demo_s3_saved)\<lparr>user := (fst (user (snd demo_s3_saved)), Some (cx_run_id demo_ctx))\<rparr>))"
proof (rule s3_outputs_roundtrip [OF demo_s3_laws])
  have "isl (fst demo_s3_saved) = False" by code_simp
  then show "save_outputs (S3Driver (\<lambda>r. r) demo_choice demo_s3 ''bucket1'') demo_outs demo_s3_outside
      = (Inr (projr (fst demo_s3_saved)), snd demo_s3_saved)"
    unfolding demo_s3_saved_def by (metis prod.collapse sum.collapse(2))
  show "user demo_s3_outside = (([], 0), Some ''run1'')" by (simp add: demo_s3_outside_def)
  show "list_all (\<lambda>(k, v). json_ok (\<lambda>r. r) v) demo_outs" by code_simp
  show "fresh_throughout (s3_fresh demo_choice demo_s3 ''bucket1'') (S3Driver (\<lambda>r. r) demo_choice demo_s3 ''bucket1'') ''run1'' ([], 0) demo_outs"
    by code_simp
qed simp

definition demo_memory_outside :: "(nat in_memory \<times> string option) outside" where
  "demo_memory_outside = \<lparr>logging_enabled = True, logged = [], user = (\<lparr>im_data = [], im_random = 0\<rparr>, Some ''run1'')\<rparr>"

definition demo_memory_saved where
  "demo_memory_saved = save_outputs (InMemoryDriver demo_choice) demo_outs demo_memory_outside"

theorem memory_outputs_roundtrip_witness:
  "rs_transform_input (InMemoryDriver demo_choice)
     ((demo_ctx, memos_of (projr (fst demo_memory_saved))), snd demo_memory_saved)
   = (Inr (), ((demo_ctx, memos_of demo_outs),
       (snd demo_memory_saved)\<lparr>user := (fst (user (snd demo_memory_saved)), Some (cx_run_id demo_ctx))\<rparr>))"
proof (rule memory_outputs_roundtrip)
  have "isl (fst demo_memory_saved) = False" by code_simp
  then show "save_outputs (InMemoryDriver demo_choice) demo_outs demo_memory_outside
      = (Inr (projr (fst demo_memory_saved)), snd demo_memory_saved)"
    unfolding demo_memory_saved_def by (metis prod.collapse sum.collapse(2))
  show "user demo_memory_outside = (\<lparr>im_data = [], im_random = 0\<rparr>, Some ''run1'')" by (simp add: demo_memory_outside_def)
  show "list_all (\<lambda>(k, v). v \<noteq> PEmpty) demo_outs" by code_simp
  show "fresh_throughout (memory_fresh demo_choice) (InMemoryDriver demo_choice) ''run1'' \<lparr>im_data = [], im_random = 0\<rparr> demo_outs"
    by code_simp
qed simp

end
