(* ===== verification/Adapters.thy ===== *)
theory Adapters
  imports SyncProps Json
begin

text \<open>
  The framework adapters \<open>flask.py\<close>, \<open>django.py\<close>, \<open>fast_api.py\<close>, \<open>tornado.py\<close> and \<open>digital_ocean.py\<close>: each makes a
  \<open>CommRequest\<close> of the framework's request, calls the method of the \<open>CommHandler\<close> and makes the framework's response
  of the result.  How a framework presents the query parameters to its adapter is an argument (\<open>items\<close>).
\<close>

section \<open>Requests and responses of a framework\<close>

record web_request =
  wq_method :: string
  wq_body :: bytes
  wq_headers :: headers
  wq_query :: "(string \<times> bytes list) list"
  wq_url :: string

record web_response =
  wp_body :: bytes
  wp_headers :: headers
  wp_status :: int
  wp_stream :: "bytes list option"

type_synonym query_items = "(string \<times> bytes list) list \<Rightarrow> (string \<times> header_in) list"

text \<open>The settings of \<open>serve\<close>.\<close>

record serve_options =
  so_public_path :: "string option"
  so_serve_origin :: "string option"
  so_serve_path :: "string option"

definition route :: "environ \<Rightarrow> serve_options \<Rightarrow> string" where
  "route env opts = (case get_serve_path env (so_serve_path opts) of
     None \<Rightarrow> DEFAULT_SERVE_PATH | Some p \<Rightarrow> if p = [] then DEFAULT_SERVE_PATH else p)"

definition web_comm_request :: "serve_options \<Rightarrow> (string \<times> header_in) list \<Rightarrow> web_request \<Rightarrow> comm_request" where
  "web_comm_request opts query q = \<lparr>cq_body = wq_body q, cq_headers = wq_headers q, cq_is_connect = False,
     cq_public_path = so_public_path opts, cq_query_params = query, cq_request_url = wq_url q,
     cq_serve_origin = so_serve_origin opts, cq_serve_path = so_serve_path opts\<rparr>"

definition async_mode :: "'u inngest_fn list \<Rightarrow> bool" where
  "async_mode functions = (\<exists>f \<in> set functions. is_handler_async f \<or> is_on_failure_handler_async f = Some True)"

text \<open>\<open>json.dumps\<close> of the body of an error response cannot fail.\<close>

definition dumped_error :: "exc \<Rightarrow> comm_response \<times> string" where
  "dumped_error e = (let r = from_error e 500 in (r, case json_dumps (cp_body r) of Inr s \<Rightarrow> s | Inl t \<Rightarrow> []))"

definition plain_response :: "bytes \<Rightarrow> comm_response \<Rightarrow> web_response" where
  "plain_response body r = \<lparr>wp_body = body, wp_headers = cp_headers r, wp_status = cp_status r, wp_stream = None\<rparr>"

section \<open>Flask\<close>

definition flask_to_response :: "comm_response \<Rightarrow> web_response" where
  "flask_to_response res = (case body_bytes res of
     Inl e \<Rightarrow> (case dumped_error e of (r, body) \<Rightarrow> plain_response (utf8 body) r)
   | Inr body \<Rightarrow> plain_response body res)"

definition flask_handler_async ::
  "comm_env \<Rightarrow> 'u comm_handler \<Rightarrow> serve_options \<Rightarrow> query_items \<Rightarrow> web_request \<Rightarrow> ('u, web_response) comm_m" where
  "flask_handler_async ce h opts items q = (let req = web_comm_request opts (items (wq_query q)) q in
     if wq_method q = ''GET'' then bindM (CommHandler_get_sync ce h req) (\<lambda>r. retM (flask_to_response r))
     else if wq_method q = ''POST'' then bindM (CommHandler_post ce h req) (\<lambda>r. retM (flask_to_response r))
     else if wq_method q = ''PUT'' then bindM (CommHandler_put ce h req) (\<lambda>r. retM (flask_to_response r))
     else retM \<lparr>wp_body = [], wp_headers = [], wp_status = 200, wp_stream = None\<rparr>)"

definition flask_handler_sync ::
  "comm_env \<Rightarrow> 'u comm_handler \<Rightarrow> serve_options \<Rightarrow> query_items \<Rightarrow> web_request \<Rightarrow> ('u, web_response) comm_m" where
  "flask_handler_sync ce h opts items q = (let req = web_comm_request opts (items (wq_query q)) q in
     if wq_method q = ''GET'' then bindM (CommHandler_get_sync ce h req) (\<lambda>r. retM (flask_to_response r))
     else if wq_method q = ''POST'' then bindM (CommHandler_post_sync ce h req) (\<lambda>r. retM (flask_to_response r))
     else if wq_method q = ''PUT'' then bindM (CommHandler_put_sync ce h req) (\<lambda>r. retM (flask_to_response r))
     else retM \<lparr>wp_body = [], wp_headers = [], wp_status = 200, wp_stream = None\<rparr>)"

text \<open>What \<open>serve\<close> installs: the route and its handler, or what the constructor of \<open>CommHandler\<close> raises.\<close>

definition flask_serve :: "comm_env \<Rightarrow> 'u outside http \<Rightarrow> 'u client \<Rightarrow> 'u inngest_fn list \<Rightarrow> serve_options \<Rightarrow> query_items
    \<Rightarrow> exc + string \<times> (web_request \<Rightarrow> ('u, web_response) comm_m)" where
  "flask_serve ce http client functions opts items =
     bindE (CommHandler_init (ce_environ ce) http client FW_FLASK functions (Some ST_DISABLE)) (\<lambda>handler.
     Inr (route (ce_environ ce) opts,
          if async_mode functions then flask_handler_async ce handler opts items else flask_handler_sync ce handler opts items))"

section \<open>Django\<close>

definition django_to_response :: "comm_response \<Rightarrow> web_response" where
  "django_to_response res = (case dump_json (cp_body res) of
     Inl e \<Rightarrow> (case dumped_error e of (r, body) \<Rightarrow> plain_response (utf8 body) r)
   | Inr body \<Rightarrow> plain_response (utf8 body) res)"

text \<open>Django's \<open>JsonResponse\<close> for another method.\<close>

definition django_unsupported :: web_response where
  "django_unsupported = \<lparr>wp_body = utf8 (projr (json_dumps (PDict [(''error'', PStr ''Unsupported method'')]))),
     wp_headers = [(''Content-Type'', ''application/json'')], wp_status = 405, wp_stream = None\<rparr>"

definition django_handler_sync ::
  "comm_env \<Rightarrow> 'u comm_handler \<Rightarrow> serve_options \<Rightarrow> query_items \<Rightarrow> web_request \<Rightarrow> ('u, web_response) comm_m" where
  "django_handler_sync ce h opts items q = (let req = web_comm_request opts (items (wq_query q)) q in
     if wq_method q = ''GET'' then bindM (CommHandler_get_sync ce h req) (\<lambda>r. retM (django_to_response r))
     else if wq_method q = ''POST'' then bindM (CommHandler_post_sync ce h req) (\<lambda>r. retM (django_to_response r))
     else if wq_method q = ''PUT'' then bindM (CommHandler_put_sync ce h req) (\<lambda>r. retM (django_to_response r))
     else retM django_unsupported)"

definition django_handler_async ::
  "comm_env \<Rightarrow> 'u comm_handler \<Rightarrow> serve_options \<Rightarrow> query_items \<Rightarrow> web_request \<Rightarrow> ('u, web_response) comm_m" where
  "django_handler_async ce h opts items q = (let req = web_comm_request opts (items (wq_query q)) q in
     if wq_method q = ''GET'' then bindM (CommHandler_get_sync ce h req) (\<lambda>r. retM (django_to_response r))
     else if wq_method q = ''POST'' then bindM (CommHandler_post ce h req) (\<lambda>r. retM (django_to_response r))
     else if wq_method q = ''PUT'' then bindM (CommHandler_put ce h req) (\<lambda>r. retM (django_to_response r))
     else retM django_unsupported)"

definition trim_leading_slash :: "string \<Rightarrow> string" where
  "trim_leading_slash value = dropWhile (\<lambda>c. c = CHR ''/'') value"

text \<open>A version that is no number is logged and accepted.\<close>

definition django_serve :: "comm_env \<Rightarrow> string \<Rightarrow> 'u outside http \<Rightarrow> 'u client \<Rightarrow> 'u inngest_fn list \<Rightarrow> serve_options \<Rightarrow> query_items
    \<Rightarrow> exc + string \<times> (web_request \<Rightarrow> ('u, web_response) comm_m)" where
  "django_serve ce version http client functions opts items =
     bindE (CommHandler_init (ce_environ ce) http client FW_DJANGO functions (Some ST_DISABLE)) (\<lambda>handler.
     let path = trim_leading_slash (route (ce_environ ce) opts) in
     if async_mode functions then
       (case get_major_version version of
          Inr major \<Rightarrow> if major < 5 then Inl (Exception ''Django version 5 or higher is required for async mode'')
            else Inr (path, django_handler_async ce handler opts items)
        | Inl e \<Rightarrow> Inr (path, django_handler_async ce handler opts items))
     else Inr (path, django_handler_sync ce handler opts items))"

section \<open>FastAPI\<close>

definition fast_api_to_response :: "comm_response \<Rightarrow> web_response" where
  "fast_api_to_response res = (case cp_stream res of
     Some chunks \<Rightarrow> \<lparr>wp_body = concat chunks, wp_headers = cp_headers res, wp_status = cp_status res, wp_stream = Some chunks\<rparr>
   | None \<Rightarrow> (case dump_json (cp_body res) of
       Inl e \<Rightarrow> (case dumped_error e of (r, body) \<Rightarrow> plain_response (utf8 body) r)
     | Inr body \<Rightarrow> plain_response (utf8 body) res))"

definition fast_api_get ::
  "comm_env \<Rightarrow> 'u comm_handler \<Rightarrow> serve_options \<Rightarrow> query_items \<Rightarrow> web_request \<Rightarrow> ('u, web_response) comm_m" where
  "fast_api_get ce h opts items q =
     bindM (CommHandler_get_sync ce h (web_comm_request opts (items (wq_query q)) q)) (\<lambda>r. retM (fast_api_to_response r))"

definition fast_api_post ::
  "comm_env \<Rightarrow> 'u comm_handler \<Rightarrow> serve_options \<Rightarrow> query_items \<Rightarrow> web_request \<Rightarrow> ('u, web_response) comm_m" where
  "fast_api_post ce h opts items q =
     bindM (CommHandler_post ce h (web_comm_request opts (items (wq_query q)) q)) (\<lambda>r. retM (fast_api_to_response r))"

definition fast_api_put ::
  "comm_env \<Rightarrow> 'u comm_handler \<Rightarrow> serve_options \<Rightarrow> query_items \<Rightarrow> web_request \<Rightarrow> ('u, web_response) comm_m" where
  "fast_api_put ce h opts items q =
     bindM (CommHandler_put ce h (web_comm_request opts (items (wq_query q)) q)) (\<lambda>r. retM (fast_api_to_response r))"

text \<open>The three routes, each for one method.\<close>

definition fast_api_serve :: "comm_env \<Rightarrow> 'u outside http \<Rightarrow> 'u client \<Rightarrow> 'u inngest_fn list \<Rightarrow> serve_options \<Rightarrow> streaming option
    \<Rightarrow> query_items \<Rightarrow> exc + string \<times> (string \<times> (web_request \<Rightarrow> ('u, web_response) comm_m)) list" where
  "fast_api_serve ce http client functions opts streaming items =
     bindE (CommHandler_init (ce_environ ce) http client FW_FAST_API functions streaming) (\<lambda>handler.
     Inr (route (ce_environ ce) opts,
       [(''GET'', fast_api_get ce handler opts items), (''POST'', fast_api_post ce handler opts items),
        (''PUT'', fast_api_put ce handler opts items)]))"

section \<open>Tornado\<close>

fun tornado_query :: "(string \<times> bytes list) list \<Rightarrow> exc + (string \<times> header_in) list" where
  "tornado_query [] = Inr []"
| "tornado_query ((k, []) # raw) = Inl (PyExc ''IndexError'' ''list index out of range'')"
| "tornado_query ((k, v # vs) # raw) = (case utf8_decode v of
     Inl f \<Rightarrow> Inl (if f = OutsideModel then outside_model else PyExc ''UnicodeDecodeError'' ''invalid utf-8'')
   | Inr s \<Rightarrow> bindE (tornado_query raw) (\<lambda>rest. Inr ((k, HStr s) # rest)))"

text \<open>The headers are added to those that Tornado sets itself.\<close>

definition tornado_write :: "comm_response \<Rightarrow> web_response" where
  "tornado_write res = (case dump_json (cp_body res) of
     Inl e \<Rightarrow> (case dumped_error e of (r, body) \<Rightarrow> plain_response (utf8 body) r)
   | Inr body \<Rightarrow> plain_response (utf8 body) res)"

definition tornado_get :: "comm_env \<Rightarrow> 'u comm_handler \<Rightarrow> serve_options \<Rightarrow> web_request \<Rightarrow> ('u, web_response) comm_m" where
  "tornado_get ce h opts q = bindM (raise_ifM Raised (tornado_query (wq_query q))) (\<lambda>query.
     bindM (CommHandler_get_sync ce h (web_comm_request opts query q)) (\<lambda>r. retM (tornado_write r)))"

definition tornado_post :: "comm_env \<Rightarrow> 'u comm_handler \<Rightarrow> serve_options \<Rightarrow> web_request \<Rightarrow> ('u, web_response) comm_m" where
  "tornado_post ce h opts q = bindM (raise_ifM Raised (tornado_query (wq_query q))) (\<lambda>query.
     bindM (CommHandler_post_sync ce h (web_comm_request opts query q)) (\<lambda>r. retM (tornado_write r)))"

definition tornado_put :: "comm_env \<Rightarrow> 'u comm_handler \<Rightarrow> serve_options \<Rightarrow> web_request \<Rightarrow> ('u, web_response) comm_m" where
  "tornado_put ce h opts q = bindM (raise_ifM Raised (tornado_query (wq_query q))) (\<lambda>query.
     bindM (CommHandler_put_sync ce h (web_comm_request opts query q)) (\<lambda>r. retM (tornado_write r)))"

definition tornado_serve :: "comm_env \<Rightarrow> 'u outside http \<Rightarrow> 'u client \<Rightarrow> 'u inngest_fn list \<Rightarrow> serve_options
    \<Rightarrow> exc + string \<times> (string \<times> (web_request \<Rightarrow> ('u, web_response) comm_m)) list" where
  "tornado_serve ce http client functions opts =
     bindE (CommHandler_init (ce_environ ce) http client FW_TORNADO functions (Some ST_DISABLE)) (\<lambda>handler.
     Inr (route (ce_environ ce) opts,
       [(''GET'', tornado_get ce handler opts), (''POST'', tornado_post ce handler opts), (''PUT'', tornado_put ce handler opts)]))"

section \<open>DigitalOcean\<close>

record event_http =
  eh_body :: "string option"
  eh_headers :: "headers option"
  eh_method :: "string option"
  eh_path :: "string option"
  eh_queryString :: "string option"

fun header_items :: "(string \<times> pyobj) list \<Rightarrow> exc + headers" where
  "header_items [] = Inr []"
| "header_items ((k, v) # d) = bindE (as_str k v) (\<lambda>s. bindE (header_items d) (\<lambda>rest. Inr ((k, s) # rest)))"

definition EventHTTP_validate :: "pyobj \<Rightarrow> exc + event_http" where
  "EventHTTP_validate v =
     bindE (as_dict ''_EventHTTP'' v) (\<lambda>d.
     bindE (optional as_str d ''body'') (\<lambda>body.
     bindE (optional (\<lambda>k x. bindE (as_dict k x) header_items) d ''headers'') (\<lambda>headers.
     bindE (optional as_str d ''method'') (\<lambda>method.
     bindE (optional as_str d ''path'') (\<lambda>path.
     bindE (optional as_str d ''queryString'') (\<lambda>queryString.
       Inr \<lparr>eh_body = body, eh_headers = headers, eh_method = method, eh_path = path, eh_queryString = queryString\<rparr>))))))"

text \<open>\<open>parse_qs\<close>, with the UTF-8 bytes of what is percent-encoded.\<close>

definition parse_qs :: "string \<Rightarrow> (string \<times> string list) list" where
  "parse_qs qs = foldl (\<lambda>d (k, v). dset d k ((case dget d k of None \<Rightarrow> [] | Some vs \<Rightarrow> vs) @ [v])) [] (parse_qsl qs)"

record do_context =
  dc_api_host :: string
  dc_function_name :: string

record do_response =
  do_body :: pyobj
  do_headers :: headers
  do_status_code :: int

definition do_to_response :: "comm_response \<Rightarrow> do_response" where
  "do_to_response res = \<lparr>do_body = cp_body res, do_headers = cp_headers res, do_status_code = cp_status res\<rparr>"

definition get_first :: "'a list option \<Rightarrow> 'a option" where
  "get_first items = (case items of None \<Rightarrow> None | Some [] \<Rightarrow> None | Some (x # xs) \<Rightarrow> Some x)"

definition to_body_bytes :: "string option \<Rightarrow> bytes" where
  "to_body_bytes body = (case body of None \<Rightarrow> [] | Some s \<Rightarrow> utf8 s)"

definition body_invalid :: "string \<Rightarrow> exc" where
  "body_invalid m = LibErr C_BodyInvalidError m"

text \<open>\<open>main\<close> up to its dispatch on the method.\<close>

definition do_request :: "serve_options \<Rightarrow> (string, pyobj) dict \<Rightarrow> do_context
    \<Rightarrow> exc + event_http \<times> (string \<times> string list) list \<times> comm_request" where
  "do_request opts event context =
     (case dget event ''http'' of
        None \<Rightarrow> Inl (body_invalid ''missing \"http\" key in event'')
      | Some raw \<Rightarrow>
          (case EventHTTP_validate raw of
             Inl e \<Rightarrow> Inl (body_invalid (exc_str e))
           | Inr http \<Rightarrow>
               (case (eh_headers http, eh_queryString http) of
                  (None, _) \<Rightarrow> Inl (body_invalid ''missing \"headers\" event.http; have you set \"web: raw\"?'')
                | (Some headers, None) \<Rightarrow> Inl (body_invalid ''missing \"queryString\" event.http; have you set \"web: raw\"?'')
                | (Some headers, Some queryString) \<Rightarrow>
                    bindE (join_url (dc_api_host context) (''/api/v1/web'' @ dc_function_name context)) (\<lambda>request_url.
                    let query_params = parse_qs queryString in
                    Inr (http, query_params, \<lparr>cq_body = to_body_bytes (eh_body http), cq_headers = headers, cq_is_connect = False,
                      cq_public_path = so_public_path opts, cq_query_params = map (\<lambda>(k, vs). (k, HList vs)) query_params,
                      cq_request_url = request_url, cq_serve_origin = so_serve_origin opts, cq_serve_path = so_serve_path opts\<rparr>)))))"

text \<open>The checks of a \<open>POST\<close> before the handler is called; \<open>num\<close> and \<open>ce_json\<close> are those of the two JSON readers.\<close>

definition do_check_post :: "(string \<Rightarrow> string) \<Rightarrow> comm_env \<Rightarrow> event_http \<Rightarrow> (string \<times> string list) list \<Rightarrow> exc + unit" where
  "do_check_post num ce http query_params =
     (case eh_body http of
        None \<Rightarrow> Inl (body_invalid ''missing \"body\" event.http; have you set \"web: raw\"?'')
      | Some text \<Rightarrow>
          (case json_loads num text of
             Inl f \<Rightarrow> Inl (if f = OutsideModel then outside_model else PyExc ''JSONDecodeError'' ''invalid JSON'')
           | Inr body \<Rightarrow>
               if \<not> is_PDict body then Inl (body_invalid ''body must be an object'')
               else if get_first (dget query_params (query_param_key_value QP_FUNCTION_ID)) = None
               then Inl (LibErr C_QueryParamMissingError (query_param_key_value QP_FUNCTION_ID))
               else if get_first (dget query_params (query_param_key_value QP_STEP_ID)) = None
               then Inl (LibErr C_QueryParamMissingError (query_param_key_value QP_STEP_ID))
               else bindE (from_raw (ce_json ce) ServerRequest_validate body) (\<lambda>call. Inr ())))"

definition do_dispatch :: "(string \<Rightarrow> string) \<Rightarrow> comm_env \<Rightarrow> 'u comm_handler \<Rightarrow> event_http \<times> (string \<times> string list) list \<times> comm_request
    \<Rightarrow> ('u, comm_response) comm_m" where
  "do_dispatch num ce h = (\<lambda>(http, query_params, req).
     if eh_method http = Some ''GET'' then CommHandler_get_sync ce h req
     else if eh_method http = Some ''POST''
     then bindM (raise_ifM Raised (do_check_post num ce http query_params)) (\<lambda>_. CommHandler_post_sync ce h req)
     else if eh_method http = Some ''PUT'' then CommHandler_put_sync ce h req
     else raiseM (Raised (Exception (''unsupported method: '' @ (case eh_method http of None \<Rightarrow> ''None'' | Some s \<Rightarrow> s)))))"

definition do_error :: "exc \<Rightarrow> comm_response" where
  "do_error e = (let r = from_error e 500 in
     case e of LibErr c m \<Rightarrow> if c \<in> {C_BodyInvalidError, C_QueryParamMissingError} then r\<lparr>cp_status := 400\<rparr> else r | _ \<Rightarrow> r)"

text \<open>What is raised other than an exception (a step's interrupt) is not caught.\<close>

definition digital_ocean_main :: "(string \<Rightarrow> string) \<Rightarrow> comm_env \<Rightarrow> 'u comm_handler \<Rightarrow> serve_options \<Rightarrow> (string, pyobj) dict
    \<Rightarrow> do_context \<Rightarrow> ('u, do_response) comm_m" where
  "digital_ocean_main num ce h opts event context =
     bindM (catchM (bindM (raise_ifM Raised (do_request opts event context)) (do_dispatch num ce h))
       (\<lambda>r. case r of Raised e \<Rightarrow> retM (do_error e) | _ \<Rightarrow> raiseM r))
     (\<lambda>res. retM (do_to_response res))"

definition digital_ocean_serve :: "(string \<Rightarrow> string) \<Rightarrow> comm_env \<Rightarrow> 'u outside http \<Rightarrow> 'u client \<Rightarrow> 'u inngest_fn list \<Rightarrow> serve_options
    \<Rightarrow> exc + ((string, pyobj) dict \<Rightarrow> do_context \<Rightarrow> ('u, do_response) comm_m)" where
  "digital_ocean_serve num ce http client functions opts =
     bindE (CommHandler_init (ce_environ ce) http client FW_DIGITAL_OCEAN functions (Some ST_DISABLE)) (\<lambda>handler.
     Inr (digital_ocean_main num ce handler opts))"

section \<open>What the adapters send\<close>

text \<open>Every adapter that sends bytes makes them in the same way.\<close>

lemma to_response_eqs:
  "django_to_response res = flask_to_response res" "tornado_write res = flask_to_response res"
  "cp_stream res = None \<Longrightarrow> fast_api_to_response res = flask_to_response res"
  by (simp_all add: django_to_response_def tornado_write_def fast_api_to_response_def flask_to_response_def body_bytes_def split: sum.split)

text \<open>So the non-async adapters of Flask, Django and Tornado agree on the three methods.\<close>

lemma sync_adapters_agree:
  assumes "tornado_query (wq_query q) = Inr (items (wq_query q))"
  shows "wq_method q \<in> {''GET'', ''POST'', ''PUT''} \<Longrightarrow> django_handler_sync ce h opts items q = flask_handler_sync ce h opts items q"
    "wq_method q = ''GET'' \<Longrightarrow> tornado_get ce h opts q = flask_handler_sync ce h opts items q"
    "wq_method q = ''POST'' \<Longrightarrow> tornado_post ce h opts q = flask_handler_sync ce h opts items q"
    "wq_method q = ''PUT'' \<Longrightarrow> tornado_put ce h opts q = flask_handler_sync ce h opts items q"
  using assms
  by (auto simp: django_handler_sync_def flask_handler_sync_def tornado_get_def tornado_post_def tornado_put_def to_response_eqs Let_def
      monad_simps)

lemma flask_to_response_cases:
  obtains (sent) b where "body_bytes res = Inr b" "flask_to_response res = plain_response b res"
    | (error) e where "wp_status (flask_to_response res) = 500"
      "dget (wp_headers (flask_to_response res)) (header_key_value HK_SIGNATURE) = None"
proof (cases "body_bytes res")
  case (Inl e)
  then have "wp_status (flask_to_response res) = 500" "dget (wp_headers (flask_to_response res)) (header_key_value HK_SIGNATURE) = None"
    by (simp_all add: flask_to_response_def dumped_error_def plain_response_def from_error_def mk_CommResponse_def Let_def)
  then show thesis by (rule error)
qed (use sent in \<open>simp add: flask_to_response_def\<close>)

text \<open>A response of an adapter to a \<open>POST\<close> comes from one of the two methods of the handler.\<close>

definition answers_post :: "comm_env \<Rightarrow> 'u comm_handler \<Rightarrow> serve_options \<Rightarrow> web_request \<Rightarrow> 'u outside \<Rightarrow> web_response \<Rightarrow> 'u outside \<Rightarrow> bool" where
  "answers_post ce h opts q w r w' = (\<exists>query res. r = flask_to_response res \<and>
     (CommHandler_post ce h (web_comm_request opts query q) w = (Inr res, w')
      \<or> CommHandler_post_sync ce h (web_comm_request opts query q) w = (Inr res, w')))"

lemma bindM_ret_Inr:
  assumes "bindM m (\<lambda>x. retM (f x)) w = (Inr r, w')"
  obtains x where "m w = (Inr x, w')" "r = f x"
  using assms by (cases "m w"; cases "fst (m w)") (auto simp: monad_simps)

lemma answers_postI:
  assumes "bindM (CommHandler_post ce h (web_comm_request opts query q)) (\<lambda>r. retM (flask_to_response r)) w = (Inr r, w')
    \<or> bindM (CommHandler_post_sync ce h (web_comm_request opts query q)) (\<lambda>r. retM (flask_to_response r)) w = (Inr r, w')"
  shows "answers_post ce h opts q w r w'"
  using assms unfolding answers_post_def by (auto elim!: bindM_ret_Inr)

lemma flask_answers:
  assumes "wq_method q = ''POST''"
    and "flask_handler_async ce h opts items q w = (Inr r, w') \<or> flask_handler_sync ce h opts items q w = (Inr r, w')"
  shows "answers_post ce h opts q w r w'"
  by (rule answers_postI [where query = "items (wq_query q)"])
    (use assms in \<open>simp add: flask_handler_async_def flask_handler_sync_def Let_def\<close>)

lemma django_answers:
  assumes "wq_method q = ''POST''"
    and "django_handler_async ce h opts items q w = (Inr r, w') \<or> django_handler_sync ce h opts items q w = (Inr r, w')"
  shows "answers_post ce h opts q w r w'"
  by (rule answers_postI [where query = "items (wq_query q)"])
    (use assms in \<open>simp add: django_handler_async_def django_handler_sync_def to_response_eqs Let_def\<close>)

lemma fast_api_answers:
  assumes "fast_api_post ce h opts items q w = (Inr r, w')" and "wp_stream r = None"
  shows "answers_post ce h opts q w r w'"
proof -
  from assms(1) obtain res where res: "CommHandler_post ce h (web_comm_request opts (items (wq_query q)) q) w = (Inr res, w')"
    "r = fast_api_to_response res" unfolding fast_api_post_def by (rule bindM_ret_Inr)
  with assms(2) have "cp_stream res = None" by (auto simp: fast_api_to_response_def split: option.splits)
  with res to_response_eqs(3) show ?thesis unfolding answers_post_def by blast
qed

lemma tornado_answers:
  assumes "tornado_post ce h opts q w = (Inr r, w')"
  shows "answers_post ce h opts q w r w'"
proof (cases "tornado_query (wq_query q)")
  case (Inl e)
  with assms show ?thesis by (simp add: tornado_post_def monad_simps)
next
  case (Inr query)
  with assms have "bindM (CommHandler_post_sync ce h (web_comm_request opts query q)) (\<lambda>r. retM (flask_to_response r)) w = (Inr r, w')"
    by (simp add: tornado_post_def to_response_eqs monad_simps)
  then show ?thesis by (rule answers_postI [OF disjI2])
qed

text \<open>C29: What an app sends back for a \<open>POST\<close> in cloud mode is signed as it is sent.  Whatever the framework (Flask and Django
  with either kind of handler, FastAPI, Tornado), the bytes of a response that is not streamed validate against its own
  headers with one of the configured keys, with two exceptions: the 401 for a request whose own signature was refused,
  and the unsigned 500 that stands in for a response of the handler whose body does not serialize.  (FastAPI streams the
  responses of an app with forced streaming; what is signed there is not what is sent.)\<close>

theorem served_post_is_signed:
  assumes digest: "\<And>k m. is_hex_digest (ce_hmac ce k m)" and now: "0 < ce_now_s ce"
    and serve: "serve \<in> {flask_handler_async ce h opts items, flask_handler_sync ce h opts items, django_handler_async ce h opts items,
      django_handler_sync ce h opts items, fast_api_post ce h opts items, tornado_post ce h opts}"
    and post: "wq_method q = ''POST''" and run: "serve q w = (Inr r, w')" and plain: "wp_stream r = None"
    and mode: "cl_mode (ch_client h) = SK_CLOUD"
  shows "(\<exists>headers e. normalize_headers (map (\<lambda>(k, v). (k, HStr v)) (wq_headers q)) = Inr headers
        \<and> validate_request_sig (ce_hmac ce) (ce_jcs ce) (wq_body q) headers SK_CLOUD (ch_signing_key h) (ch_signing_key_fallback h)
            = Inr (Inl e)
        \<and> r = flask_to_response (from_error e 401) \<and> wp_status r = 401)
    \<or> (\<exists>query res e. (CommHandler_post ce h (web_comm_request opts query q) w = (Inr res, w')
            \<or> CommHandler_post_sync ce h (web_comm_request opts query q) w = (Inr res, w'))
        \<and> body_bytes res = Inl e \<and> r = flask_to_response res
        \<and> wp_status r = 500 \<and> dget (wp_headers r) (header_key_value HK_SIGNATURE) = None)
    \<or> (\<exists>key. Some key \<in> {ch_signing_key h, ch_signing_key_fallback h}
        \<and> validate_response_sig (ce_hmac ce) (wp_body r) (wp_headers r) SK_CLOUD key = Inr (Inr (Some key)))"
proof -
  have "answers_post ce h opts q w r w'"
    using serve flask_answers [OF post, of ce h opts items w r w'] django_answers [OF post, of ce h opts items w r w']
      fast_api_answers [of ce h opts items q w r w'] tornado_answers [of ce h opts q w r w'] run plain by blast
  then obtain query f res where res: "f \<in> {CommHandler_post ce h, CommHandler_post_sync ce h}"
    "f (web_comm_request opts query q) w = (Inr res, w')" "r = flask_to_response res"
    unfolding answers_post_def by blast
  have conn: "cq_is_connect (web_comm_request opts query q) = False" by (simp add: web_comm_request_def)
  from digest now res(1,2) conn mode show ?thesis
  proof (cases rule: post_response_cases)
    case (refused headers e)
    moreover obtain b where "body_bytes (from_error e 401) = Inr b" using from_error_serializes by blast
    then have "wp_status r = 401"
      using refused(3) res(3) by (simp add: flask_to_response_def plain_response_def) (simp add: from_error_def mk_CommResponse_def)
    ultimately show ?thesis
      using res(3) by (auto simp: web_comm_request_def)
  next
    case (unserializable e)
    then have "wp_status r = 500" "dget (wp_headers r) (header_key_value HK_SIGNATURE) = None"
      by (simp_all add: res(3) flask_to_response_def dumped_error_def plain_response_def from_error_def mk_CommResponse_def Let_def)
    with unserializable res show ?thesis by auto
  next
    case (signed b key)
    then have "wp_body r = b" "wp_headers r = cp_headers res" by (simp_all add: res(3) flask_to_response_def plain_response_def)
    with signed show ?thesis by auto
  qed
qed

definition demo_web_request :: web_request where
  "demo_web_request = \<lparr>wq_method = ''POST'', wq_body = cq_body demo_signed_request, wq_headers = cq_headers demo_signed_request,
     wq_query = [], wq_url = cq_request_url demo_signed_request\<rparr>"

definition demo_options :: serve_options where
  "demo_options = \<lparr>so_public_path = cq_public_path demo_signed_request, so_serve_origin = cq_serve_origin demo_signed_request,
     so_serve_path = cq_serve_path demo_signed_request\<rparr>"

text \<open>A signed request without a function identifier: its 500 is signed.\<close>

theorem served_post_is_signed_witness:
  "\<exists>r w' key. flask_handler_async demo_ce (demo_comm []) demo_options (\<lambda>_. cq_query_params demo_signed_request) demo_web_request
       \<lparr>logging_enabled = True, logged = [], user = []\<rparr> = (Inr r, w') \<and> wp_status r = 500
    \<and> Some key \<in> {ch_signing_key (demo_comm []), ch_signing_key_fallback (demo_comm [])}
    \<and> validate_response_sig toy_hmac (wp_body r) (wp_headers r) SK_CLOUD key = Inr (Inr (Some key))"
proof -
  let ?w = "\<lparr>logging_enabled = True, logged = [], user = []\<rparr>"
  let ?serve = "flask_handler_async demo_ce (demo_comm []) demo_options (\<lambda>_. cq_query_params demo_signed_request)"
  have req: "web_comm_request demo_options (cq_query_params demo_signed_request) demo_web_request = demo_signed_request"
    by (simp add: web_comm_request_def demo_web_request_def demo_options_def demo_signed_request_def)
  obtain res w' b where res: "CommHandler_post demo_ce (demo_comm []) demo_signed_request ?w = (Inr res, w')"
    "cp_status res = 500" "body_bytes res = Inr b" "cp_stream res = None" "dget (cp_headers res) (header_key_value HK_SIGNATURE) \<noteq> None"
    using demo_post_answer by blast
  let ?r = "flask_to_response res"
  have run: "?serve demo_web_request ?w = (Inr ?r, w')"
    using res(1) req by (simp add: flask_handler_async_def demo_web_request_def Let_def monad_simps)
  have r: "wp_stream ?r = None" "wp_status ?r = 500" "dget (wp_headers ?r) (header_key_value HK_SIGNATURE) \<noteq> None"
    using res by (simp_all add: flask_to_response_def plain_response_def)
  from served_post_is_signed [where serve = ?serve and ce = demo_ce and h = "demo_comm []" and opts = demo_options
      and items = "\<lambda>_. cq_query_params demo_signed_request", OF _ _ _ _ run r(1)]
  have "\<exists>key. Some key \<in> {ch_signing_key (demo_comm []), ch_signing_key_fallback (demo_comm [])}
        \<and> validate_response_sig toy_hmac (wp_body ?r) (wp_headers ?r) SK_CLOUD key = Inr (Inr (Some key))"
    using r(2,3) by (auto simp: demo_ce_def toy_hmac_hex demo_web_request_def demo_comm_def demo_client_def)
  with run r(2) show ?thesis by blast
qed

section \<open>What DigitalOcean is answered\<close>

lemma do_error_status: "cp_status (do_error e) = (if \<exists>m. e = LibErr C_BodyInvalidError m \<or> e = LibErr C_QueryParamMissingError m then 400 else 500)"
  by (auto simp: do_error_def from_error_def mk_CommResponse_def Let_def split: exc.splits)

text \<open>An event without a usable \<open>http\<close> entry is answered with a 400, and nothing happens.\<close>

lemma do_bad_event:
  assumes "do_request opts event context = Inl (body_invalid m)"
  shows "digital_ocean_main num ce h opts event context w = (Inr (do_to_response (do_error (body_invalid m))), w)"
    "do_status_code (do_to_response (do_error (body_invalid m))) = 400"
  by (simp_all add: digital_ocean_main_def assms monad_simps do_to_response_def do_error_status body_invalid_def)

lemma do_missing_http: "dget event ''http'' = None \<Longrightarrow> do_request opts event context = Inl (body_invalid ''missing \"http\" key in event'')"
  by (simp add: do_request_def)

text \<open>A \<open>POST\<close> that fails its checks does not reach the handler.\<close>

lemma do_refused_post:
  assumes "do_request opts event context = Inr (http, query_params, req)" and "eh_method http = Some ''POST''"
    and "do_check_post num ce http query_params = Inl e"
  shows "digital_ocean_main num ce h opts event context w = (Inr (do_to_response (do_error e)), w)"
  by (simp add: digital_ocean_main_def do_dispatch_def assms monad_simps)

lemma do_invalid_json_is_500:
  assumes "eh_body http = Some text" and "json_loads num text = Inl f"
  obtains e where "do_check_post num ce http query_params = Inl e" "do_status_code (do_to_response (do_error e)) = 500"
  by (rule that, simp add: do_check_post_def assms, cases "f = OutsideModel")
    (simp_all add: do_to_response_def do_error_status outside_model_def)

text \<open>Every exception becomes a response.\<close>

lemma do_never_raises: "digital_ocean_main num ce h opts event context w \<noteq> (Inl (Raised e), w')"
  by (auto simp: digital_ocean_main_def monad_simps split: prod.splits sum.splits raised.splits)

end
