(* ===== verification/Simulator.thy ===== *)
theory Simulator
  imports Adapters
begin

text \<open>
  \<open>experimental/digital_ocean_simulator.py\<close>: a Flask app around the \<open>main\<close> of a DigitalOcean function.  What the app
  raises is answered by Flask.
\<close>

definition SIMULATOR_PATH_PREFIX :: string where "SIMULATOR_PATH_PREFIX = ''/api/v1/web''"

definition SIMULATOR_NAMESPACE :: string where "SIMULATOR_NAMESPACE = ''fn-00000000''"

definition SIMULATOR_FUNCTION_NAME :: string where "SIMULATOR_FUNCTION_NAME = ''fake-name''"

definition FULL_PATH :: string where
  "FULL_PATH = SIMULATOR_PATH_PREFIX @ ''/'' @ SIMULATOR_NAMESPACE @ ''/'' @ SIMULATOR_FUNCTION_NAME"

text \<open>Flask's request: its raw query string and the root of its URL besides what an adapter reads.\<close>

definition decoded :: "bytes \<Rightarrow> exc + string" where
  "decoded b = (case utf8_decode b of
     Inl f \<Rightarrow> Inl (if f = OutsideModel then outside_model else PyExc ''UnicodeDecodeError'' ''invalid utf-8'') | Inr s \<Rightarrow> Inr s)"

definition simulator_event :: "string \<Rightarrow> headers \<Rightarrow> string \<Rightarrow> string \<Rightarrow> (string, pyobj) dict" where
  "simulator_event body headers http_method query_string = [(''http'', PDict [(''body'', PStr body),
     (''headers'', PDict (map (\<lambda>(k, v). (k, PStr v)) headers)), (''method'', PStr http_method), (''path'', PStr []),
     (''queryString'', PStr query_string)])]"

definition simulator_response :: "pyobj \<Rightarrow> exc + web_response" where
  "simulator_response res = (case res of
     PDict d \<Rightarrow>
       bindE (case dget d ''body'' of None \<Rightarrow> Inr []
              | Some b \<Rightarrow> (case json_dumps b of Inl t \<Rightarrow> Inl (PyExc ''TypeError'' (''Object of type '' @ t @ '' is not JSON serializable''))
                           | Inr s \<Rightarrow> Inr (utf8 s))) (\<lambda>body.
       (case dget d ''headers'' of
          Some v \<Rightarrow>
            (case v of PDict hs \<Rightarrow> bindE (header_items hs) (\<lambda>headers.
               (case dget d ''statusCode'' of
                  None \<Rightarrow> Inr \<lparr>wp_body = body, wp_headers = headers, wp_status = 200, wp_stream = None\<rparr>
                | Some (PInt n) \<Rightarrow> Inr \<lparr>wp_body = body, wp_headers = headers, wp_status = n, wp_stream = None\<rparr>
                | Some _ \<Rightarrow> Inl (PyExc ''ValueError'' ''statusCode must be an int'')))
             | _ \<Rightarrow> Inl (PyExc ''ValueError'' ''headers must be a dict''))
        | None \<Rightarrow> (case dget d ''statusCode'' of
                  None \<Rightarrow> Inr \<lparr>wp_body = body, wp_headers = [], wp_status = 200, wp_stream = None\<rparr>
                | Some (PInt n) \<Rightarrow> Inr \<lparr>wp_body = body, wp_headers = [], wp_status = n, wp_stream = None\<rparr>
                | Some _ \<Rightarrow> Inl (PyExc ''ValueError'' ''statusCode must be an int''))))
   | _ \<Rightarrow> Inl (PyExc ''ValueError'' ''response must be a dict''))"

definition simulator_handler :: "((string, pyobj) dict \<Rightarrow> do_context \<Rightarrow> ('u, pyobj) comm_m) \<Rightarrow> string \<Rightarrow> bytes \<Rightarrow> web_request
    \<Rightarrow> ('u, web_response) comm_m" where
  "simulator_handler main url_root query_string q =
     bindM (raise_ifM Raised (decoded (wq_body q))) (\<lambda>body.
     bindM (raise_ifM Raised (decoded query_string)) (\<lambda>query.
     bindM (main (simulator_event body (wq_headers q) (wq_method q) query)
        \<lparr>dc_api_host = url_root, dc_function_name = ''/'' @ SIMULATOR_NAMESPACE @ ''/'' @ SIMULATOR_FUNCTION_NAME\<rparr>) (\<lambda>res.
     raise_ifM Raised (simulator_response res))))"

text \<open>The two routes have the same handler.\<close>

definition DigitalOceanSimulator :: "((string, pyobj) dict \<Rightarrow> do_context \<Rightarrow> ('u, pyobj) comm_m)
    \<Rightarrow> (string \<times> (string \<Rightarrow> bytes \<Rightarrow> web_request \<Rightarrow> ('u, web_response) comm_m)) list" where
  "DigitalOceanSimulator main = [(''/'', simulator_handler main), (FULL_PATH, simulator_handler main)]"

text \<open>The response of the SDK's \<open>main\<close> as the dictionary it is.\<close>

definition do_response_obj :: "do_response \<Rightarrow> pyobj" where
  "do_response_obj r = PDict [(''body'', do_body r), (''headers'', PDict (map (\<lambda>(k, v). (k, PStr v)) (do_headers r))),
     (''statusCode'', PInt (do_status_code r))]"

definition simulated_main :: "(string \<Rightarrow> string) \<Rightarrow> comm_env \<Rightarrow> 'u comm_handler \<Rightarrow> serve_options \<Rightarrow> (string, pyobj) dict
    \<Rightarrow> do_context \<Rightarrow> ('u, pyobj) comm_m" where
  "simulated_main num ce h opts event context = bindM (digital_ocean_main num ce h opts event context) (\<lambda>r. retM (do_response_obj r))"

section \<open>The simulator and the SDK\<close>

lemma header_items_strings: "header_items (map (\<lambda>(k, v). (k, PStr v)) hs) = Inr hs"
  by (induction hs) (auto simp: as_str_def)

text \<open>The event that the simulator makes of a request is what \<open>main\<close> reads.\<close>

lemma simulator_event_reads_back:
  "dget (simulator_event body headers meth qs) ''http'' = Some v \<Longrightarrow> EventHTTP_validate v
    = Inr \<lparr>eh_body = Some body, eh_headers = Some headers, eh_method = Some meth, eh_path = Some [], eh_queryString = Some qs\<rparr>"
  by (auto simp: simulator_event_def EventHTTP_validate_def optional_def as_dict_def as_str_def header_items_strings)

lemma simulator_response_of_main:
  "simulator_response (do_response_obj r) = (case json_dumps (do_body r) of
     Inl t \<Rightarrow> Inl (PyExc ''TypeError'' (''Object of type '' @ t @ '' is not JSON serializable''))
   | Inr s \<Rightarrow> Inr \<lparr>wp_body = utf8 s, wp_headers = do_headers r, wp_status = do_status_code r, wp_stream = None\<rparr>)"
  by (simp add: simulator_response_def do_response_obj_def header_items_strings split: sum.split)

lemma raise_ifM_Inr: "raise_ifM f x w = (Inr y, w') \<longleftrightarrow> x = Inr y \<and> w' = w"
  by (cases x) (auto simp: monad_simps)

lemma bindM_Inr: "bindM m f w = (Inr y, w') \<longleftrightarrow> (\<exists>x w1. m w = (Inr x, w1) \<and> f x w1 = (Inr y, w'))"
  by (auto simp: bindM_def split: prod.splits sum.splits)

text \<open>What \<open>main\<close> answers a \<open>POST\<close> with is the response of the handler or that for an error.\<close>

lemma digital_ocean_main_post:
  assumes run: "digital_ocean_main num ce h opts (simulator_event body headers ''POST'' qs) ctx w = (Inr d, w')"
  obtains (handler) req w1 res where "CommHandler_post_sync ce h req w1 = (Inr res, w')" "cq_is_connect req = False" "d = do_to_response res"
    | (error) e where "d = do_to_response (do_error e)"
proof -
  let ?m = "bindM (raise_ifM Raised (do_request opts (simulator_event body headers ''POST'' qs) ctx)) (do_dispatch num ce h)"
  obtain res w2 where res: "catchM ?m (\<lambda>r. case r of Raised e \<Rightarrow> retM (do_error e) | _ \<Rightarrow> raiseM r) w = (Inr res, w')" "d = do_to_response res"
    using run by (auto simp: digital_ocean_main_def bindM_Inr retM_def)
  obtain r w1 where r: "?m w = (r, w1)" by fastforce
  show thesis
  proof (cases r)
    case (Inl e)
    with res r show thesis by (cases e) (auto simp: catchM_def retM_def raiseM_def intro: error)
  next
    case (Inr res')
    with res r have res': "?m w = (Inr res, w')" by (simp add: catchM_def)
    then obtain http query req where req: "do_request opts (simulator_event body headers ''POST'' qs) ctx = Inr (http, query, req)"
      "do_dispatch num ce h (http, query, req) w = (Inr res, w')"
      by (auto simp: bindM_Inr raise_ifM_Inr)
    from req(1) have "eh_method http = Some ''POST''" "cq_is_connect req = False"
      using simulator_event_reads_back [of body headers "''POST''" qs]
      by (auto simp: do_request_def bindE_def simulator_event_def Let_def split: option.splits sum.splits)
    with req(2) handler [OF _ _ res(2)] show thesis by (auto simp: do_dispatch_def bindM_Inr raise_ifM_Inr)
  qed
qed

text \<open>
  So what DigitalOcean sends for a \<open>POST\<close> in cloud mode is signed as it is sent, too: its platform turns the body into JSON
  text in the way in which the SDK did it for the signature.  A refusal and an error of the adapter itself are unsigned.
\<close>

lemma simulated_post_is_signed:
  assumes digest: "\<And>k m. is_hex_digest (ce_hmac ce k m)" and now: "0 < ce_now_s ce"
    and run: "simulator_handler (simulated_main num ce h opts) url_root query_string q w = (Inr r, w')"
    and post: "wq_method q = ''POST''" and mode: "cl_mode (ch_client h) = SK_CLOUD"
  shows "wp_status r = 401 \<or> wp_status r \<in> {400, 500} \<and> dget (wp_headers r) (header_key_value HK_SIGNATURE) = None
    \<or> (\<exists>key. Some key \<in> {ch_signing_key h, ch_signing_key_fallback h}
        \<and> validate_response_sig (ce_hmac ce) (wp_body r) (wp_headers r) SK_CLOUD key = Inr (Inr (Some key)))"
proof -
  from run post obtain body qs ctx w1 d w2 where main: "digital_ocean_main num ce h opts (simulator_event body (wq_headers q) ''POST'' qs) ctx w1 = (Inr d, w2)"
    and resp: "simulator_response (do_response_obj d) = Inr r"
    by (auto simp: simulator_handler_def simulated_main_def bindM_Inr raise_ifM_Inr retM_def)
  from resp obtain s where s: "json_dumps (do_body d) = Inr s" "wp_body r = utf8 s" "wp_headers r = do_headers d" "wp_status r = do_status_code d"
    by (auto simp: simulator_response_of_main split: sum.splits)
  from main show ?thesis
  proof (cases rule: digital_ocean_main_post)
    case (handler req w3 res)
    have b: "body_bytes res = Inr (wp_body r)" "wp_headers r = cp_headers res" "wp_status r = cp_status res"
      using s handler(3) by (simp_all add: body_bytes_def dump_json_def do_to_response_def)
    show ?thesis
    proof (cases "cp_status res = 401")
      case False
      have "CommHandler_post_sync ce h \<in> {CommHandler_post ce h, CommHandler_post_sync ce h}" by simp
      from post_response_is_signed [OF digest now this handler(1) False b(1) handler(2) mode] show ?thesis by (simp add: b)
    qed (simp add: b)
  next
    case (error e)
    have "wp_status r \<in> {400, 500}" by (simp add: s(4) error do_to_response_def do_error_status)
    moreover have "wp_headers r = [(header_key_value HK_CONTENT_TYPE, ''application/json'')]"
      by (simp add: s(3) error do_to_response_def do_error_def from_error_def mk_CommResponse_def Let_def split: exc.splits)
    ultimately show ?thesis by simp
  qed
qed

end
