(* ===== verification/Timings.thy ===== *)
theory Timings
  imports Transforms Complex_Main "HOL-Library.Multiset"
begin

text \<open>
  The server timings of \<open>net.py\<close>: the stopwatches of a request and the \<open>Server-Timing\<close> header made of them.  A reading of
  \<open>time.perf_counter\<close> is a double, that is a rational number; arithmetic on doubles rounds.  The header's value is the
  argument \<open>ce_timing\<close> of the handlers.
\<close>

section \<open>Doubles\<close>

type_synonym double = rat

definition fl_rat :: "rat \<Rightarrow> double" where
  "fl_rat r = (case quotient_of \<bar>r\<bar> of (n, d) \<Rightarrow>
     (let x = fl n d in sgn r * of_int (fl_num x) / of_int (fl_den x)))"

text \<open>\<open>int\<close> of a double cuts off its fraction.\<close>

definition int_of_double :: "double \<Rightarrow> int" where
  "int_of_double x = (if 0 \<le> x then \<lfloor>x\<rfloor> else - \<lfloor>- x\<rfloor>)"

section \<open>A stopwatch\<close>

record server_timing =
  st_name :: string
  st_start_counter :: "double option"
  st_end_counter :: "double option"

definition ServerTiming :: "string \<Rightarrow> server_timing" where
  "ServerTiming name = \<lparr>st_name = name, st_start_counter = None, st_end_counter = None\<rparr>"

definition timing_enter :: "double \<Rightarrow> server_timing \<Rightarrow> server_timing" where
  "timing_enter now t = (if st_start_counter t = None then t\<lparr>st_start_counter := Some now\<rparr> else t)"

definition timing_exit :: "double \<Rightarrow> server_timing \<Rightarrow> server_timing" where
  "timing_exit now t = (if st_end_counter t = None then t\<lparr>st_end_counter := Some now\<rparr> else t)"

definition timing_to_header :: "server_timing \<Rightarrow> string" where
  "timing_to_header t = (case (st_start_counter t, st_end_counter t) of
     (Some start, Some stop) \<Rightarrow> st_name t @ '';dur='' @ str_of_int (int_of_double (fl_rat (fl_rat (stop - start) * 1000)))
   | _ \<Rightarrow> [])"

section \<open>The time the event loop is blocked\<close>

text \<open>The tracker is a task: created, asleep since its last reading, or cancelled.\<close>

datatype tracker = TrackerCreated | TrackerAsleep double | TrackerCancelled

record async_block_timing =
  ab_block_dur :: double
  ab_name :: string
  ab_start_counter :: "double option"
  ab_tracker_task :: "tracker option"

definition AsyncBlockServerTiming :: "string \<Rightarrow> async_block_timing" where
  "AsyncBlockServerTiming name = \<lparr>ab_block_dur = 0, ab_name = name, ab_start_counter = None, ab_tracker_task = None\<rparr>"

definition async_enter :: "double \<Rightarrow> async_block_timing \<Rightarrow> async_block_timing" where
  "async_enter now t =
     (let t = (if ab_start_counter t = None then t\<lparr>ab_start_counter := Some now\<rparr> else t)
      in if ab_tracker_task t = None then t\<lparr>ab_tracker_task := Some TrackerCreated\<rparr> else t)"

definition async_exit :: "async_block_timing \<Rightarrow> async_block_timing" where
  "async_exit t = (case ab_tracker_task t of None \<Rightarrow> t | Some _ \<Rightarrow> t\<lparr>ab_tracker_task := Some TrackerCancelled\<rparr>)"

text \<open>What \<open>_tracker\<close> does from one \<open>await\<close> to the next.\<close>

definition tracker_interval :: double where
  "tracker_interval = fl_rat (1 / 10)"

definition tracker_step :: "double \<Rightarrow> async_block_timing \<Rightarrow> async_block_timing" where
  "tracker_step now t = (case ab_tracker_task t of
     Some TrackerCreated \<Rightarrow> t\<lparr>ab_tracker_task := Some (TrackerAsleep now)\<rparr>
   | Some (TrackerAsleep before) \<Rightarrow>
       t\<lparr>ab_block_dur := fl_rat (ab_block_dur t + max (fl_rat (fl_rat (now - before) - tracker_interval)) 0),
         ab_tracker_task := Some (TrackerAsleep now)\<rparr>
   | _ \<Rightarrow> t)"

definition async_to_header :: "async_block_timing \<Rightarrow> string" where
  "async_to_header t = (case ab_tracker_task t of
     None \<Rightarrow> [] | Some _ \<Rightarrow> ab_name t @ '';dur='' @ str_of_int (int_of_double (fl_rat (ab_block_dur t * 1000))))"

section \<open>The timings of a request\<close>

record server_timings =
  tm_async_block :: async_block_timing
  tm_comm_handler :: server_timing
  tm_function :: server_timing
  tm_mw_transform_input :: server_timing
  tm_mw_transform_output :: server_timing
  tm_use_api :: server_timing

definition ServerTimings :: server_timings where
  "ServerTimings = \<lparr>tm_async_block = AsyncBlockServerTiming ''async_block'', tm_comm_handler = ServerTiming ''comm_handler'',
     tm_function = ServerTiming ''function'', tm_mw_transform_input = ServerTiming ''mw.transform_input'',
     tm_mw_transform_output = ServerTiming ''mw.transform_output'', tm_use_api = ServerTiming ''use_api''\<rparr>"

text \<open>A timing of the list that is sorted, as its start and its entry of the header.\<close>

definition timing_entry :: "server_timing \<Rightarrow> double option \<times> string" where
  "timing_entry t = (st_start_counter t, timing_to_header t)"

definition timing_entries :: "server_timings \<Rightarrow> (double option \<times> string) list" where
  "timing_entries t = (ab_start_counter (tm_async_block t), async_to_header (tm_async_block t))
     # map timing_entry [tm_comm_handler t, tm_function t, tm_mw_transform_input t, tm_mw_transform_output t, tm_use_api t]"

definition start_or_zero :: "double option \<times> string \<Rightarrow> double" where
  "start_or_zero x = (case fst x of None \<Rightarrow> 0 | Some s \<Rightarrow> s)"

definition timings_to_header :: "server_timings \<Rightarrow> string" where
  "timings_to_header t = join_with '', '' (filter (\<lambda>v. v \<noteq> []) (map snd (sort_key start_or_zero (timing_entries t))))"

section \<open>What the header says\<close>

lemma fl_fst_nonneg:
  assumes "0 \<le> n" and "0 < d"
  shows "0 \<le> fst (fl n d)"
proof -
  have rhe: "0 \<le> round_half_even a b" if "0 \<le> a" and "0 < b" for a b
    using pos_imp_zdiv_nonneg_iff [OF that(2), of a] that(1) by (simp add: round_half_even_def Let_def)
  show ?thesis
  proof (cases "n mod d = 0 \<and> n div d \<le> 2 ^ 53")
    case True
    then show ?thesis using pos_imp_zdiv_nonneg_iff [OF assms(2), of n] assms(1) by (simp add: fl_def)
  next
    case False
    show ?thesis unfolding fl_def Let_def if_not_P [OF False] fst_conv
      by (intro rhe mult_nonneg_nonneg mult_pos_pos assms) simp_all
  qed
qed

lemma fl_rat_nonneg: "0 \<le> r \<Longrightarrow> 0 \<le> fl_rat r"
proof -
  assume r: "0 \<le> r"
  obtain n d where q: "quotient_of r = (n, d)" by fastforce
  have d: "0 < d" using quotient_of_denom_pos [OF q] .
  from quotient_of_div [OF q] r have "0 \<le> rat_of_int n / rat_of_int d" by simp
  with d have "0 \<le> n" by (simp add: zero_le_divide_iff)
  with d have "0 \<le> fl_num (fl n d)" by (simp add: fl_num_def fl_fst_nonneg)
  moreover have "0 < fl_den (fl n d)" by (simp add: fl_den_def)
  ultimately show ?thesis using r q by (simp add: fl_rat_def Let_def sgn_if)
qed

text \<open>A stopwatch that is used again keeps its first measurement.\<close>

definition use_timing :: "(double \<times> double) list \<Rightarrow> server_timing \<Rightarrow> server_timing" where
  "use_timing uses t = foldl (\<lambda>t (a, b). timing_exit b (timing_enter a t)) t uses"

lemma use_timing_first:
  "use_timing ((a, b) # uses) (ServerTiming name) = \<lparr>st_name = name, st_start_counter = Some a, st_end_counter = Some b\<rparr>"
proof -
  have "foldl (\<lambda>t (a, b). timing_exit b (timing_enter a t)) \<lparr>st_name = name, st_start_counter = Some a, st_end_counter = Some b\<rparr> uses
    = \<lparr>st_name = name, st_start_counter = Some a, st_end_counter = Some b\<rparr>"
    by (induction uses) (auto simp: timing_exit_def timing_enter_def)
  then show ?thesis by (simp add: use_timing_def timing_exit_def timing_enter_def ServerTiming_def)
qed

text \<open>A measurement by a clock that does not run backwards is not negative.\<close>

lemma timing_to_header_use:
  assumes "a \<le> b"
  shows "\<exists>n. timing_to_header (use_timing ((a, b) # uses) (ServerTiming name)) = name @ '';dur='' @ str_of_nat n"
proof -
  let ?x = "fl_rat (fl_rat (b - a) * 1000)"
  have "0 \<le> ?x" using assms by (intro fl_rat_nonneg mult_nonneg_nonneg) simp_all
  then have "0 \<le> int_of_double ?x" by (simp add: int_of_double_def)
  then have "str_of_int (int_of_double ?x) = str_of_nat (nat (int_of_double ?x))" by (simp add: str_of_int_def)
  then show ?thesis by (auto simp: use_timing_first timing_to_header_def)
qed

text \<open>Whatever the readings, the tracker adds no negative amount to a block time that is not negative.\<close>

lemma tracker_step_nonneg: "0 \<le> ab_block_dur t \<Longrightarrow> 0 \<le> ab_block_dur (tracker_step now t)"
  by (auto simp: tracker_step_def intro!: fl_rat_nonneg add_nonneg_nonneg split: option.splits tracker.splits)

lemma tracker_runs_nonneg: "0 \<le> ab_block_dur (foldl (\<lambda>t now. tracker_step now t) (async_enter now (AsyncBlockServerTiming name)) readings)"
proof -
  have "0 \<le> ab_block_dur t \<Longrightarrow> 0 \<le> ab_block_dur (foldl (\<lambda>t now. tracker_step now t) t readings)" for t
    by (induction readings arbitrary: t) (simp_all add: tracker_step_nonneg)
  then show ?thesis by (simp add: async_enter_def AsyncBlockServerTiming_def)
qed

text \<open>The header lists exactly the timings that have an entry, each once, in the order of their start.\<close>

lemma header_lists_timings:
  "\<exists>entries. mset entries = mset (filter (\<lambda>x. snd x \<noteq> []) (timing_entries t)) \<and> sorted (map start_or_zero entries)
    \<and> timings_to_header t = join_with '', '' (map snd entries)"
proof (intro exI conjI)
  let ?es = "filter (\<lambda>x. snd x \<noteq> []) (sort_key start_or_zero (timing_entries t))"
  show "mset ?es = mset (filter (\<lambda>x. snd x \<noteq> []) (timing_entries t))" by (metis mset_filter mset_sort)
  show "sorted (map start_or_zero ?es)" by (rule sorted_filter) (rule sorted_sort_key)
  show "timings_to_header t = join_with '', '' (map snd ?es)" by (simp add: timings_to_header_def filter_map comp_def)
qed

lemma no_timings_no_header: "timings_to_header ServerTimings = []"
proof -
  have "snd x = []" if "x \<in> set (timing_entries ServerTimings)" for x
    using that by (auto simp: timing_entries_def ServerTimings_def timing_entry_def timing_to_header_def ServerTiming_def
        async_to_header_def AsyncBlockServerTiming_def)
  then have "filter (\<lambda>v. v \<noteq> []) (map snd (sort_key start_or_zero (timing_entries ServerTimings))) = []"
    by (auto simp: filter_empty_conv)
  then show ?thesis by (simp add: timings_to_header_def)
qed

end
