(* ===== verification/Ai.thy ===== *)
theory Ai
  imports Steps
begin

text \<open>
  The adapters of \<open>experimental/ai\<close>: Anthropic, DeepSeek, Gemini, Grok and OpenAI, each an instance of the record \<open>adapter\<close>
  that \<open>step.ai.infer\<close> works with.
\<close>

section \<open>What the adapters share\<close>

definition or_text :: "string option \<Rightarrow> string \<Rightarrow> string" where
  "or_text v d = (case v of None \<Rightarrow> d | Some s \<Rightarrow> if s = [] then d else s)"

definition or_headers :: "(string, string) dict option \<Rightarrow> (string, string) dict \<Rightarrow> (string, string) dict" where
  "or_headers v d = (case v of None \<Rightarrow> d | Some h \<Rightarrow> if h = [] then d else h)"

definition rstrip_slash :: "string \<Rightarrow> string" where
  "rstrip_slash url = rev (dropWhile (\<lambda>c. c = CHR ''/'') (rev url))"

text \<open>\<open>on_call\<close> writes the model into the body of the caller unless it names one.\<close>

definition on_call :: "string \<Rightarrow> (string, pyobj) dict \<Rightarrow> (string, pyobj) dict" where
  "on_call model body = (if (case dget body ''model'' of None \<Rightarrow> False | Some v \<Rightarrow> truthy v) then body
     else dset body ''model'' (PStr model))"

section \<open>The adapters\<close>

definition anthropic_adapter :: "string \<Rightarrow> string option \<Rightarrow> (string, string) dict option \<Rightarrow> string \<Rightarrow> adapter" where
  "anthropic_adapter auth_key base_url headers model =
     (let url = or_text base_url ''https://api.anthropic.com/v1'' in
      \<lparr>ad_auth_key = auth_key, ad_format = ''anthropic'',
       ad_headers = or_headers headers [(''anthropic-version'', ''2023-06-01'')],
       ad_on_call = on_call model, ad_url_infer = rstrip_slash url @ ''/messages''\<rparr>)"

definition deepseek_adapter :: "string \<Rightarrow> string option \<Rightarrow> (string, string) dict option \<Rightarrow> string \<Rightarrow> adapter" where
  "deepseek_adapter auth_key base_url headers model =
     (let url = or_text base_url ''https://api.deepseek.com/v1'' in
      \<lparr>ad_auth_key = auth_key, ad_format = ''openai-chat'', ad_headers = or_headers headers [],
       ad_on_call = on_call model, ad_url_infer = rstrip_slash url @ ''/chat/completions''\<rparr>)"

definition gemini_adapter :: "string \<Rightarrow> string option \<Rightarrow> (string, string) dict option \<Rightarrow> string \<Rightarrow> adapter" where
  "gemini_adapter auth_key base_url headers model =
     (let url = or_text base_url ''https://generativelanguage.googleapis.com/v1beta/'' in
      \<lparr>ad_auth_key = auth_key, ad_format = ''gemini'', ad_headers = or_headers headers [],
       ad_on_call = on_call model,
       ad_url_infer = rstrip_slash url @ ''/models/'' @ model @ '':generateContent?key='' @ auth_key\<rparr>)"

definition grok_adapter :: "string \<Rightarrow> string option \<Rightarrow> (string, string) dict option \<Rightarrow> string \<Rightarrow> adapter" where
  "grok_adapter auth_key base_url headers model =
     (let url = or_text base_url ''https://api.x.ai/v1'' in
      \<lparr>ad_auth_key = auth_key, ad_format = ''openai-chat'', ad_headers = or_headers headers [],
       ad_on_call = on_call model, ad_url_infer = rstrip_slash url @ ''/chat/completions''\<rparr>)"

definition openai_adapter :: "string \<Rightarrow> string option \<Rightarrow> (string, string) dict option \<Rightarrow> string \<Rightarrow> adapter" where
  "openai_adapter auth_key base_url headers model =
     (let url = or_text base_url ''https://api.openai.com/v1'' in
      \<lparr>ad_auth_key = auth_key, ad_format = ''openai-chat'', ad_headers = or_headers headers [],
       ad_on_call = on_call model, ad_url_infer = rstrip_slash url @ ''/chat/completions''\<rparr>)"

section \<open>What an adapter promises\<close>

lemma to_dict_json_same: "to_dict_json d = Inr d' \<Longrightarrow> d' = d"
  by (simp add: to_dict_json_def split: sum.splits)

text \<open>The contract of an adapter that \<open>step.ai.infer\<close> relies on: after \<open>on_call\<close> the body names a model, the one it had when
  it had one, nothing else has changed, and calling again changes nothing.\<close>

locale ai_adapter =
  fixes a :: adapter and model :: string
  assumes keeps_model: "dget body ''model'' = Some v \<Longrightarrow> truthy v \<Longrightarrow> ad_on_call a body = body"
    and sets_model: "(\<And>v. dget body ''model'' = Some v \<Longrightarrow> \<not> truthy v) \<Longrightarrow> dget (ad_on_call a body) ''model'' = Some (PStr model)"
    and keeps_rest: "k \<noteq> ''model'' \<Longrightarrow> dget (ad_on_call a body) k = dget body k"
    and keeps_inv: "dict_inv body \<Longrightarrow> dict_inv (ad_on_call a body)"
begin

lemma model_named:
  assumes "model \<noteq> []"
  shows "\<exists>v. dget (ad_on_call a body) ''model'' = Some v \<and> truthy v"
proof (cases "\<exists>v. dget body ''model'' = Some v \<and> truthy v")
  case True
  with keeps_model show ?thesis by auto
next
  case False
  with sets_model [of body] assms show ?thesis by auto
qed

lemma on_call_idem:
  assumes "model \<noteq> []"
  shows "ad_on_call a (ad_on_call a body) = ad_on_call a body"
  using model_named [OF assms, of body] keeps_model by blast

text \<open>The options of the step carry the body with its model, unless some value of the body is not JSON.\<close>

lemma infer_options:
  assumes "AIInferOpts_to_dict a (ad_on_call a body) = Inr opts"
  shows "dget opts ''url'' = Some (PStr (ad_url_infer a)) \<and> dget opts ''auth_key'' = Some (PStr (ad_auth_key a))
    \<and> dget opts ''body'' = Some (PDict (ad_on_call a body)) \<and> dget opts ''type'' = Some (PStr ''step.ai.infer'')"
proof -
  have "opts = [(''auth_key'', PStr (ad_auth_key a)), (''body'', PDict (ad_on_call a body)), (''format'', PStr (ad_format a)),
      (''headers'', PDict (map (\<lambda>(k, v). (k, PStr v)) (ad_headers a))), (''type'', PStr ''step.ai.infer''),
      (''url'', PStr (ad_url_infer a))]"
    using to_dict_json_same [OF assms [unfolded AIInferOpts_to_dict_def]] .
  then show ?thesis by simp
qed

end

lemma on_call_contract:
  assumes "ad_on_call a = on_call model"
  shows "ai_adapter a model"
  by unfold_locales (auto simp: assms on_call_def dget_dset dict_inv_dset split: option.splits if_splits)

interpretation anthropic: ai_adapter "anthropic_adapter auth_key base_url headers model" model for auth_key base_url headers model
  by (rule on_call_contract) (simp add: anthropic_adapter_def Let_def)

interpretation deepseek: ai_adapter "deepseek_adapter auth_key base_url headers model" model for auth_key base_url headers model
  by (rule on_call_contract) (simp add: deepseek_adapter_def Let_def)

interpretation gemini: ai_adapter "gemini_adapter auth_key base_url headers model" model for auth_key base_url headers model
  by (rule on_call_contract) (simp add: gemini_adapter_def Let_def)

interpretation grok: ai_adapter "grok_adapter auth_key base_url headers model" model for auth_key base_url headers model
  by (rule on_call_contract) (simp add: grok_adapter_def Let_def)

interpretation openai: ai_adapter "openai_adapter auth_key base_url headers model" model for auth_key base_url headers model
  by (rule on_call_contract) (simp add: openai_adapter_def Let_def)

text \<open>A body that is shared between two calls keeps the model of the first adapter.\<close>

lemma shared_body_keeps_first_model:
  assumes "m \<noteq> []"
  shows "ad_on_call (openai_adapter k u h m') (ad_on_call (anthropic_adapter k' u' h' m) body) = ad_on_call (anthropic_adapter k' u' h' m) body"
proof -
  obtain v where "dget (ad_on_call (anthropic_adapter k' u' h' m) body) ''model'' = Some v" "truthy v"
    using anthropic.model_named [OF assms] by blast
  then show ?thesis by (rule openai.keeps_model)
qed

text \<open>Headers of the caller replace the version that Anthropic's API requires instead of being added to it.\<close>

lemma anthropic_headers:
  "ad_headers (anthropic_adapter k u headers m) = (case headers of None \<Rightarrow> [(''anthropic-version'', ''2023-06-01'')]
     | Some h \<Rightarrow> if h = [] then [(''anthropic-version'', ''2023-06-01'')] else h)"
  by (simp add: anthropic_adapter_def or_headers_def Let_def)

end
