(* ===== verification/Realtime.thy ===== *)
theory Realtime
  imports Client
begin

text \<open>
  \<open>experimental/realtime\<close>: publishing a message to a channel and asking for a subscription token, in both modes.  What is
  raised is the left result.
\<close>

section \<open>Publishing\<close>

definition publish_url :: "'u client \<Rightarrow> string \<Rightarrow> string \<Rightarrow> exc + string" where
  "publish_url client channel topic =
     join_url (cl_api_origin client) (''/v1/realtime/publish?'' @ urlencode [(''channel'', channel), (''topic'', topic)])"

definition publish :: "'s http \<Rightarrow> 'u client \<Rightarrow> string \<Rightarrow> string \<Rightarrow> (string, pyobj) dict \<Rightarrow> ('s, exc, unit) M" where
  "publish http client channel topic payload =
     bindM (raise_ifM (\<lambda>e. e) (publish_url client channel topic)) (\<lambda>url.
     bindM (http_post http (client_http client) url (PDict payload)) (\<lambda>res.
     case res of Inl e \<Rightarrow> raiseM e | Inr _ \<Rightarrow> retM ()))"

definition publish_sync :: "'s http \<Rightarrow> 'u client \<Rightarrow> string \<Rightarrow> string \<Rightarrow> (string, pyobj) dict \<Rightarrow> ('s, exc, unit) M" where
  "publish_sync http client channel topic payload =
     bindM (raise_ifM (\<lambda>e. e) (publish_url client channel topic)) (\<lambda>url.
     bindM (http_post_sync http (client_http client) url (PDict payload)) (\<lambda>res.
     case res of Inl e \<Rightarrow> raiseM e | Inr _ \<Rightarrow> retM ()))"

section \<open>Subscription tokens\<close>

definition TokenResponse_validate :: "pyobj \<Rightarrow> exc + string" where
  "TokenResponse_validate v = bindE (as_dict ''_TokenResponse'' v) (\<lambda>d. required as_str d ''jwt'')"

definition token_request :: "string \<Rightarrow> string list \<Rightarrow> pyobj" where
  "token_request channel topics = PList (map (\<lambda>topic.
     PDict [(''channel'', PStr channel), (''name'', PStr topic), (''kind'', PStr ''run'')]) topics)"

definition token_result :: "string \<Rightarrow> string list \<Rightarrow> http_response \<Rightarrow> exc + (string, pyobj) dict" where
  "token_result channel topics res = bindE (hp_json res) (\<lambda>data. bindE (TokenResponse_validate data) (\<lambda>jwt.
     Inr [(''channel'', PStr channel), (''topics'', PList (map PStr topics)), (''key'', PStr jwt)]))"

definition get_subscription_token :: "'s http \<Rightarrow> 'u client \<Rightarrow> string \<Rightarrow> string list \<Rightarrow> ('s, exc, (string, pyobj) dict) M" where
  "get_subscription_token http client channel topics =
     bindM (raise_ifM (\<lambda>e. e) (join_url (cl_api_origin client) ''/v1/realtime/token'')) (\<lambda>url.
     bindM (http_post http (client_http client) url (token_request channel topics)) (\<lambda>res.
     case res of Inl e \<Rightarrow> raiseM e | Inr r \<Rightarrow> raise_ifM (\<lambda>e. e) (token_result channel topics r)))"

definition get_subscription_token_sync :: "'s http \<Rightarrow> 'u client \<Rightarrow> string \<Rightarrow> string list \<Rightarrow> ('s, exc, (string, pyobj) dict) M" where
  "get_subscription_token_sync http client channel topics =
     bindM (raise_ifM (\<lambda>e. e) (join_url (cl_api_origin client) ''/v1/realtime/token'')) (\<lambda>url.
     bindM (http_post_sync http (client_http client) url (token_request channel topics)) (\<lambda>res.
     case res of Inl e \<Rightarrow> raiseM e | Inr r \<Rightarrow> raise_ifM (\<lambda>e. e) (token_result channel topics r)))"

section \<open>Properties\<close>

text \<open>Over a network that answers both kinds of requests alike, the two modes do the same.\<close>

lemma post_twins:
  assumes "hx_send http = hx_send_sync http"
  shows "http_post_sync http = http_post http"
proof -
  have "fetch_with_thready_safety http = hx_send_sync http" by (rule ext) (simp add: fetch_with_thready_safety_def assms)
  then have "fetch_with_auth_fallback_sync http = fetch_with_auth_fallback http"
    by (intro ext) (simp only: fetch_with_auth_fallback_def fetch_with_auth_fallback_sync_def)
  then show ?thesis by (intro ext) (simp only: http_post_def http_post_sync_def)
qed

lemma realtime_twins:
  assumes "hx_send http = hx_send_sync http"
  shows "publish_sync http = publish http" "get_subscription_token_sync http = get_subscription_token http"
  by (intro ext, simp only: publish_def publish_sync_def get_subscription_token_def get_subscription_token_sync_def
      post_twins [OF assms])+

text \<open>The query of the published URL reads back as the channel and the topic, whatever characters they hold.\<close>

lemma publish_query:
  assumes "channel \<noteq> []" and "topic \<noteq> []"
  shows "parse_qsl (urlencode [(''channel'', channel), (''topic'', topic)]) = [(''channel'', utf8 channel), (''topic'', utf8 topic)]"
proof -
  have "parse_qsl (urlencode [(''channel'', channel), (''topic'', topic)])
    = map (\<lambda>(k, v). (utf8 k, utf8 v)) [(''channel'', channel), (''topic'', topic)]"
    by (rule parse_qsl_urlencode) (use assms in auto)
  then show ?thesis by (simp add: utf8_is_ascii is_ascii_def)
qed

lemma http_post_refuses:
  assumes "http_post http c url body s = (Inr (Inr res), s')"
  shows "hp_status res < 400"
  using assms by (auto simp: http_post_def monad_simps check_status_def split: prod.splits sum.splits if_splits)

text \<open>A message counts as published only when the API has answered with a status below 400.\<close>

lemma publish_succeeds:
  assumes "publish http client channel topic payload s = (Inr (), s')"
  shows "\<exists>url res. publish_url client channel topic = Inr url
    \<and> http_post http (client_http client) url (PDict payload) s = (Inr (Inr res), s') \<and> hp_status res < 400"
proof -
  obtain url where url: "publish_url client channel topic = Inr url"
    using assms by (cases "publish_url client channel topic") (auto simp: publish_def monad_simps)
  obtain r s1 where r: "http_post http (client_http client) url (PDict payload) s = (r, s1)" by fastforce
  with assms url obtain res where "s1 = s'" "r = Inr (Inr res)"
    by (auto simp: publish_def monad_simps split: sum.splits)
  with r have post: "http_post http (client_http client) url (PDict payload) s = (Inr (Inr res), s')" by simp
  show ?thesis by (intro exI conjI, rule url, rule post, rule http_post_refuses [OF post])
qed

text \<open>The token names the given channel and topics and carries the text that the API returned.\<close>

lemma token_result_Inr:
  assumes "token_result channel topics res = Inr d"
  shows "\<exists>jwt. dget d ''key'' = Some (PStr jwt) \<and> dget d ''channel'' = Some (PStr channel)
    \<and> dget d ''topics'' = Some (PList (map PStr topics))"
  using assms by (auto simp: token_result_def bindE_def split: sum.splits)

end
