(* ===== verification/Sentry.thy ===== *)
theory Sentry
  imports Execution
begin

text \<open>
  \<open>experimental/sentry_middleware.py\<close>.  The third-party \<open>sentry_sdk\<close> is a record of the calls that the code makes; they act
  on the outside and may raise.  The function of the request, which the hook gets, is given to the factory.
\<close>

record 'u sentry_sdk =
  sn_set_tag :: "string \<Rightarrow> pyobj \<Rightarrow> ('u outside, exc, unit) M"
  sn_capture_exception :: "exc \<Rightarrow> ('u outside, exc, unit) M"
  sn_flush :: "('u outside, exc, unit) M"

text \<open>A call that leaves the hook's argument alone.\<close>

definition beside :: "('w, 'e, unit) M \<Rightarrow> ('x \<times> 'w, 'e, unit) M" where
  "beside m = (\<lambda>(x, w). case m w of (r, w') \<Rightarrow> (r, (x, w')))"

fun set_tags :: "'u sentry_sdk \<Rightarrow> (string \<times> pyobj) list \<Rightarrow> ('u outside, exc, unit) M" where
  "set_tags sdk [] = retM ()"
| "set_tags sdk ((k, v) # tags) = seqM (sn_set_tag sdk k v) (set_tags sdk tags)"

definition input_tags :: "string \<Rightarrow> string \<Rightarrow> fn_context \<Rightarrow> (string \<times> pyobj) list" where
  "input_tags local_id name ctx =
     [(''inngest.event.count'', PInt (int (length (cx_events ctx)))), (''inngest.event.id'', PStr (ev_id (cx_event ctx))),
      (''inngest.event.name'', PStr (ev_name (cx_event ctx))), (''inngest.function.id'', PStr local_id),
      (''inngest.function.name'', PStr name), (''inngest.run.id'', PStr (cx_run_id ctx))]"

definition sentry_transform_input :: "'u sentry_sdk \<Rightarrow> string \<Rightarrow> string \<Rightarrow> ((fn_context \<times> memos) \<times> 'u outside, exc, unit) M" where
  "sentry_transform_input sdk local_id name = (\<lambda>((ctx, steps), w). beside (set_tags sdk (input_tags local_id name ctx)) ((ctx, steps), w))"

definition sentry_transform_output :: "'u sentry_sdk \<Rightarrow> (transform_output_result \<times> 'u outside, exc, unit) M" where
  "sentry_transform_output sdk = (\<lambda>(res, w). case tr_error res of
     None \<Rightarrow> (Inr (), (res, w)) | Some e \<Rightarrow> beside (sn_capture_exception sdk e) (res, w))"

definition SentryMiddleware :: "'u sentry_sdk \<Rightarrow> string \<Rightarrow> string \<Rightarrow> 'u client \<Rightarrow> 'u uninit" where
  "SentryMiddleware sdk local_id name client = seqM (sn_set_tag sdk ''inngest.app.id'' (PStr (cl_app_id client)))
     (retM (base_MiddlewareSync\<lparr>mw_before_response := sn_flush sdk,
        mw_transform_input := sentry_transform_input sdk local_id name,
        mw_transform_output := sentry_transform_output sdk\<rparr>))"

text \<open>The middleware only watches: whatever Sentry does, the context, the memos and the result pass through unchanged.\<close>

lemma beside_keeps: "beside m (x, w) = (r, (x', w')) \<Longrightarrow> x' = x \<and> m w = (r, w')"
  by (auto simp: beside_def split: prod.splits)

lemma sentry_only_watches:
  assumes "SentryMiddleware sdk local_id name client w = (Inr mw, w1)"
  shows "mw_transform_input mw ((ctx, steps), w2) = (r, (x, w3)) \<Longrightarrow> x = (ctx, steps)"
    and "mw_transform_output mw (res, w2) = (r', (res', w4)) \<Longrightarrow> res' = res"
    and "mw_isinstance_Middleware mw = False" and "mw_is_coroutine mw h = False"
proof -
  have mw: "mw = base_MiddlewareSync\<lparr>mw_before_response := sn_flush sdk,
        mw_transform_input := sentry_transform_input sdk local_id name, mw_transform_output := sentry_transform_output sdk\<rparr>"
    using assms by (auto simp: SentryMiddleware_def monad_simps split: prod.splits sum.splits)
  show "x = (ctx, steps)" if "mw_transform_input mw ((ctx, steps), w2) = (r, (x, w3))"
  proof -
    from that have "beside (set_tags sdk (input_tags local_id name ctx)) ((ctx, steps), w2) = (r, (x, w3))"
      by (simp add: mw sentry_transform_input_def)
    from beside_keeps [OF this] show ?thesis by simp
  qed
  show "res' = res" if out: "mw_transform_output mw (res, w2) = (r', (res', w4))"
  proof (cases "tr_error res")
    case None
    with out show ?thesis by (simp add: mw sentry_transform_output_def)
  next
    case (Some e)
    with out have "beside (sn_capture_exception sdk e) (res, w2) = (r', (res', w4))" by (simp add: mw sentry_transform_output_def)
    from beside_keeps [OF this] show ?thesis by simp
  qed
  show "mw_isinstance_Middleware mw = False" "mw_is_coroutine mw h = False" by (simp_all add: mw base_MiddlewareSync_def)
qed

text \<open>An error is reported exactly once, and nothing is reported of a result without error.\<close>

lemma sentry_reports:
  "sentry_transform_output sdk (res, w) = (case tr_error res of None \<Rightarrow> (Inr (), (res, w))
     | Some e \<Rightarrow> (case sn_capture_exception sdk e w of (r, w') \<Rightarrow> (r, (res, w'))))"
  by (simp add: sentry_transform_output_def beside_def split: option.splits)

end
