(* ===== verification/DevServer.thy ===== *)
theory DevServer
  imports Errors
begin

text \<open>
  \<open>experimental/dev_server\<close>: the process of the development server that tests start and stop
  (\<open>command_runner.py\<close>), and the object around it (\<open>dev_server.py\<close>).  What the operating system answers is an
  argument: how \<open>Popen\<close> ends, the lines a stream gives, whether the process still runs, and the answers to the polls.
  What is printed about the runner itself is left out; the lines of the process are not.
\<close>

section \<open>The command runner\<close>

text \<open>\<open>cr_process\<close> is whether the process runs; \<open>cr_printed\<close> and \<open>cr_log\<close> are the console and the log file.\<close>

record command_runner =
  cr_command :: string
  cr_log_path :: "string option"
  cr_process :: "bool option"
  cr_stdout_queue :: "string list"
  cr_stderr_queue :: "string list"
  cr_stop_printing_flag :: bool
  cr_running :: bool
  cr_printers :: nat
  cr_printed :: "string list"
  cr_log :: string

definition CommandRunner :: "string \<Rightarrow> string option \<Rightarrow> command_runner" where
  "CommandRunner command log_path = \<lparr>cr_command = command, cr_log_path = log_path, cr_process = None, cr_stdout_queue = [],
     cr_stderr_queue = [], cr_stop_printing_flag = False, cr_running = False, cr_printers = 0, cr_printed = [], cr_log = []\<rparr>"

text \<open>\<open>run\<close>: every exception of \<open>Popen\<close> is caught.\<close>

definition runner_run :: "exc + unit \<Rightarrow> command_runner \<Rightarrow> command_runner" where
  "runner_run popen r =
     (if cr_running r then r
      else (case popen of
              Inl e \<Rightarrow> r\<lparr>cr_running := False\<rparr>
            | Inr _ \<Rightarrow> r\<lparr>cr_running := True, cr_process := Some True, cr_printers := cr_printers r + 1\<rparr>))"

text \<open>One line of a stream, in its reader's thread.\<close>

definition enqueue_output :: "bool \<Rightarrow> string \<Rightarrow> command_runner \<Rightarrow> command_runner" where
  "enqueue_output stdout line r =
     (let r1 = (if stdout then r\<lparr>cr_stdout_queue := cr_stdout_queue r @ [py_strip line]\<rparr>
                else r\<lparr>cr_stderr_queue := cr_stderr_queue r @ [py_strip line]\<rparr>)
      in if cr_log_path r = None \<or> cr_log_path r = Some [] then r1 else r1\<lparr>cr_log := cr_log r @ line\<rparr>)"

definition print_queue :: "string list \<Rightarrow> command_runner \<Rightarrow> command_runner" where
  "print_queue q r = (if cr_stop_printing_flag r then r else r\<lparr>cr_printed := cr_printed r @ q\<rparr>)"

definition print_queues :: "command_runner \<Rightarrow> command_runner" where
  "print_queues r = print_queue (cr_stderr_queue r) (print_queue (cr_stdout_queue r) r)\<lparr>cr_stdout_queue := [], cr_stderr_queue := []\<rparr>"

text \<open>One turn of \<open>_print_output\<close>, in a printer's thread; the last one takes the runner to be done.\<close>

definition print_output :: "command_runner \<Rightarrow> command_runner" where
  "print_output r =
     (if cr_printers r = 0 then r
      else if cr_process r \<noteq> None \<and> (cr_process r = Some True \<or> cr_stdout_queue r \<noteq> [] \<or> cr_stderr_queue r \<noteq> [])
      then print_queues r
      else (print_queues r)\<lparr>cr_running := False, cr_printers := cr_printers r - 1\<rparr>)"

definition runner_stop_printing :: "command_runner \<Rightarrow> command_runner" where
  "runner_stop_printing r = r\<lparr>cr_stop_printing_flag := True\<rparr>"

text \<open>\<open>wait\<close> returns when there is no process or it has ended.\<close>

definition runner_wait_returns :: "command_runner \<Rightarrow> bool" where
  "runner_wait_returns r = (cr_process r \<noteq> Some True)"

text \<open>\<open>kill\<close> signals the process, which ends some time later; a failure to do so is caught.\<close>

definition runner_kill :: "command_runner \<Rightarrow> command_runner" where
  "runner_kill r = (if cr_process r = None then r else r\<lparr>cr_running := False\<rparr>)"

section \<open>The server\<close>

record dev_server =
  ds_port :: int
  ds_runner :: command_runner
  ds_enabled :: bool
  ds_ready :: bool

definition dev_server_version :: "(string \<Rightarrow> string option) \<Rightarrow> string" where
  "dev_server_version env = (case env ''DEV_SERVER_VERSION'' of None \<Rightarrow> ''latest'' | Some v \<Rightarrow> v)"

definition dev_server_port :: "(string \<Rightarrow> string option) \<Rightarrow> exc + int" where
  "dev_server_port env = (case env ''DEV_SERVER_PORT'' of
     Some (c # cs) \<Rightarrow> (case py_int (c # cs) of
         None \<Rightarrow> Inl (PyExc ''ValueError'' (''invalid literal for int() with base 10: '' @ (c # cs)))
       | Some port \<Rightarrow> Inr port)
   | _ \<Rightarrow> Inr 8288)"

definition dev_server_command :: "string \<Rightarrow> int \<Rightarrow> string" where
  "dev_server_command version port = ''npx --ignore-scripts=false --yes inngest-cli@'' @ version
     @ '' dev --no-discovery --no-poll --port '' @ str_of_int port"

text \<open>\<open>artifacts\<close> is the absolute path of the directory of that name.\<close>

definition DevServer :: "(string \<Rightarrow> string option) \<Rightarrow> string \<Rightarrow> exc + dev_server" where
  "DevServer env artifacts =
     (case dev_server_port env of
        Inl e \<Rightarrow> Inl e
      | Inr port \<Rightarrow> Inr \<lparr>ds_port = port,
          ds_runner = CommandRunner (dev_server_command (dev_server_version env) port)
            (if env ''DEV_SERVER_LOGS'' = Some ''1'' then Some (artifacts @ ''/dev_server.log'') else None),
          ds_enabled = (env ''DEV_SERVER_ENABLED'' \<noteq> Some ''0''), ds_ready = False\<rparr>)"

definition dev_server_origin :: "dev_server \<Rightarrow> string" where
  "dev_server_origin s = ''http://0.0.0.0:'' @ str_of_int (ds_port s)"

text \<open>
  \<open>_wait_for_server\<close>: \<open>polls i\<close> is the answer to the \<open>i\<close>-th poll, a status or an error of \<open>httpx\<close>.  The result is the number
  of polls made and how often it slept; \<open>None\<close> is a wait that does not end.
\<close>

partial_function (option) wait_for_server :: "(nat \<Rightarrow> exc + int) \<Rightarrow> bool \<Rightarrow> nat \<Rightarrow> nat \<Rightarrow> (nat \<times> nat) option" where
  "wait_for_server polls ready i slept =
     (if ready then Some (i, slept)
      else (case polls i of
              Inl e \<Rightarrow> wait_for_server polls False (Suc i) (Suc slept)
            | Inr status \<Rightarrow> if status = 200 then Some (Suc i, slept) else wait_for_server polls False (Suc i) slept))"

text \<open>\<open>start\<close>; that the version cannot be printed is caught.\<close>

definition dev_server_start :: "exc + unit \<Rightarrow> (nat \<Rightarrow> exc + int) \<Rightarrow> dev_server \<Rightarrow> ((exc + unit) \<times> dev_server) option" where
  "dev_server_start popen polls s =
     (if ds_enabled s = False then Some (Inr (), s)
      else if cr_running (ds_runner s) then Some (Inl (Exception ''Dev Server is already running''), s)
      else (let r = runner_run popen (ds_runner s) in
            case wait_for_server polls (ds_ready s) 0 0 of
              None \<Rightarrow> None
            | Some _ \<Rightarrow> Some (Inr (), s\<lparr>ds_runner := runner_stop_printing r, ds_ready := True\<rparr>)))"

definition dev_server_stop :: "dev_server \<Rightarrow> (exc + unit) \<times> dev_server" where
  "dev_server_stop s =
     (if ds_enabled s = False then (Inr (), s)
      else if \<not> cr_running (ds_runner s) then (Inl (Exception ''Dev Server is not running''), s)
      else (Inr (), s\<lparr>ds_runner := runner_kill (ds_runner s)\<rparr>))"

section \<open>Lemmas\<close>

text \<open>The wait ends exactly when some poll is answered with 200, at the first such poll.\<close>

lemma wait_for_server_ends:
  assumes "polls n = Inr 200" and "\<forall>j. i \<le> j \<and> j < n \<longrightarrow> polls j \<noteq> Inr 200" and "i \<le> n"
  shows "\<exists>slept'. wait_for_server polls False i slept = Some (Suc n, slept')"
  using assms
proof (induction "n - i" arbitrary: i slept)
  case 0
  then show ?case by (simp add: wait_for_server.simps)
next
  case (Suc m)
  then have i: "i < n" "polls i \<noteq> Inr 200" by auto
  have "\<exists>slept'. wait_for_server polls False (Suc i) slept1 = Some (Suc n, slept')" for slept1
    using Suc.hyps(1) [of "Suc i" slept1] Suc.hyps(2) Suc.prems i by auto
  with i show ?case by (cases "polls i") (auto simp: wait_for_server.simps [of polls False i])
qed

lemma wait_for_server_200:
  assumes "wait_for_server polls ready i slept = Some r"
  shows "ready \<or> (\<exists>n \<ge> i. polls n = Inr 200)"
proof (rule wait_for_server.raw_induct [where P = "\<lambda>polls ready i slept r. ready \<or> (\<exists>n \<ge> i. polls n = Inr 200)", OF _ assms])
  fix f and polls :: "nat \<Rightarrow> exc + int" and ready :: bool and i slept :: nat and r :: "nat \<times> nat"
  assume IH: "\<And>polls ready i slept r. f polls ready i slept = Some r \<Longrightarrow> ready \<or> (\<exists>n \<ge> i. polls n = Inr 200)"
    and step: "(if ready then Some (i, slept) else case polls i of Inl e \<Rightarrow> f polls False (Suc i) (Suc slept)
       | Inr status \<Rightarrow> if status = 200 then Some (Suc i, slept) else f polls False (Suc i) slept) = Some r"
  have later: "\<exists>n \<ge> i. polls n = Inr 200" if "f polls False (Suc i) k = Some r" for k
    using IH [OF that] Suc_leD by blast
  show "ready \<or> (\<exists>n \<ge> i. polls n = Inr 200)"
  proof (cases "ready \<or> polls i = Inr 200")
    case False
    with step later show ?thesis by (auto split: sum.splits if_splits)
  qed auto
qed

text \<open>\<open>start\<close> returns exactly when the server answers at last, also when its process could not be started.\<close>

lemma dev_server_start_returns:
  assumes "ds_enabled s" and "\<not> cr_running (ds_runner s)"
  shows "(\<exists>r. dev_server_start popen polls s = Some r) \<longleftrightarrow> ds_ready s \<or> (\<exists>n. polls n = Inr 200)"
proof
  assume "\<exists>r. dev_server_start popen polls s = Some r"
  with assms obtain r where "wait_for_server polls (ds_ready s) 0 0 = Some r"
    by (auto simp: dev_server_start_def Let_def split: option.splits)
  from wait_for_server_200 [OF this] show "ds_ready s \<or> (\<exists>n. polls n = Inr 200)" by blast
next
  assume "ds_ready s \<or> (\<exists>n. polls n = Inr 200)"
  then show "\<exists>r. dev_server_start popen polls s = Some r"
  proof
    assume "ds_ready s"
    with assms show ?thesis by (simp add: dev_server_start_def wait_for_server.simps Let_def)
  next
    assume ex: "\<exists>n. polls n = Inr 200"
    define n where "n = (LEAST n. polls n = Inr 200)"
    have n: "polls n = Inr 200" unfolding n_def using ex by (rule LeastI_ex)
    have "\<forall>j. 0 \<le> j \<and> j < n \<longrightarrow> polls j \<noteq> Inr 200" unfolding n_def using not_less_Least by blast
    from wait_for_server_ends [OF n this, of 0] obtain k where "wait_for_server polls False 0 0 = Some (Suc n, k)" by auto
    moreover have "wait_for_server polls True 0 0 = Some (0, 0)" by (simp add: wait_for_server.simps)
    ultimately show ?thesis using assms by (cases "ds_ready s") (auto simp: dev_server_start_def Let_def)
  qed
qed

text \<open>Polls that are answered with another status follow each other without a pause.\<close>

lemma busy_polling:
  "\<forall>j. i \<le> j \<and> j < i + n \<longrightarrow> polls j = Inr 503 \<Longrightarrow> polls (i + n) = Inr 200 \<Longrightarrow>
   wait_for_server polls False i slept = Some (Suc (i + n), slept)"
proof (induction n arbitrary: i)
  case 0
  then show ?case by (simp add: wait_for_server.simps)
next
  case (Suc n)
  from Suc.prems(1) have "polls i = Inr 503" by simp
  moreover have "wait_for_server polls False (Suc i) slept = Some (Suc (Suc i + n), slept)"
    by (rule Suc.IH) (use Suc.prems in simp_all)
  ultimately show ?case by (simp add: wait_for_server.simps [of polls False i])
qed

text \<open>A server that is started a second time is not waited for: the ready event stays set.\<close>

lemma second_start_does_not_wait:
  assumes start: "dev_server_start (Inr ()) polls s = Some (Inr (), s1)" and s: "ds_enabled s" "\<not> cr_running (ds_runner s)"
    and stop: "dev_server_stop s1 = (r, s2)"
  shows "r = Inr () \<and> (\<exists>s3. dev_server_start (Inr ()) polls' s2 = Some (Inr (), s3) \<and> cr_running (ds_runner s3))"
proof -
  from start s have s1: "ds_enabled s1" "ds_ready s1" "cr_running (ds_runner s1)" "cr_process (ds_runner s1) = Some True"
    by (auto simp: dev_server_start_def runner_run_def runner_stop_printing_def Let_def split: option.splits)
  with stop have "r = Inr ()" "ds_enabled s2" "ds_ready s2" "\<not> cr_running (ds_runner s2)"
    by (auto simp: dev_server_stop_def runner_kill_def)
  then show ?thesis by (simp add: dev_server_start_def wait_for_server.simps runner_run_def runner_stop_printing_def Let_def)
qed

text \<open>Once the printing is stopped, nothing that the process writes is printed, in later runs neither.\<close>

inductive runner_step :: "command_runner \<Rightarrow> command_runner \<Rightarrow> bool" where
  run: "runner_step r (runner_run popen r)"
| line: "runner_step r (enqueue_output stdout line r)"
| print: "runner_step r (print_output r)"
| stop: "runner_step r (runner_stop_printing r)"
| kill: "runner_step r (runner_kill r)"
| exits: "cr_process r = Some True \<Longrightarrow> runner_step r (r\<lparr>cr_process := Some False\<rparr>)"

lemma stopped_printing_is_final:
  assumes "runner_step\<^sup>*\<^sup>* r r'" and "cr_stop_printing_flag r"
  shows "cr_stop_printing_flag r' \<and> cr_printed r' = cr_printed r"
  using assms(1)
proof induction
  case (step r1 r2)
  have flag: "cr_stop_printing_flag r1" using step.IH assms(2) by simp
  from step(2) have "cr_stop_printing_flag r2 \<and> cr_printed r2 = cr_printed r1"
    by cases (use flag in \<open>auto simp: runner_run_def enqueue_output_def print_output_def print_queues_def print_queue_def
        runner_stop_printing_def runner_kill_def Let_def split: sum.split\<close>)
  with step.IH show ?case by simp
qed (use assms(2) in simp)

end
