(* ===== verification/TestSupport.thy ===== *)
theory TestSupport
  imports DevServer Comm Json
begin

text \<open>
  \<open>pkg/test_core\<close>, what the repository's tests share: the GraphQL client of the Dev Server's API and the helpers that poll
  it, the assertions that are repeated until they hold, the HTTP proxy between the Dev Server and an app, and the inspection
  that the tests expect.  The clock is read from the state, in microseconds; what runs in the meantime, a request or a sleep,
  moves it.  A loop is a partial function to an option, whose \<open>None\<close> is a loop that does not end.
\<close>

section \<open>GraphQL\<close>

record gql_query =
  gq_query :: string
  gq_variables :: "(string, pyobj) dict option"

record gql_response =
  gr_data :: "(string, pyobj) dict"
  gr_errors :: "(string, pyobj) dict list option"

record gql_error =
  ge_response :: "gql_response option"
  ge_message :: string

definition payload :: "gql_query \<Rightarrow> pyobj" where
  "payload q = PDict [(''query'', PStr (gq_query q)),
     (''variables'', case gq_variables q of None \<Rightarrow> PNone | Some d \<Rightarrow> PDict d)]"

definition GqlResponse_validate :: "pyobj \<Rightarrow> exc + gql_response" where
  "GqlResponse_validate v =
     bindE (as_dict ''Response'' v) (\<lambda>d.
     bindE (required as_dict d ''data'') (\<lambda>data.
     bindE (optional (\<lambda>k v. bindE (as_list k v) (map_sum_list (as_dict k))) d ''errors'') (\<lambda>errors.
       Inr \<lparr>gr_data = data, gr_errors = errors\<rparr>)))"

definition gql_failed :: "string \<Rightarrow> gql_error" where
  "gql_failed m = \<lparr>ge_response = None, ge_message = m\<rparr>"

text \<open>\<open>show\<close> is \<open>str\<close> on the value of a message; an error of the request itself is raised.\<close>

definition gql_answer :: "(pyobj \<Rightarrow> string) \<Rightarrow> http_response \<Rightarrow> gql_error + gql_response" where
  "gql_answer show res =
     (if hp_status res \<noteq> 200
      then Inl (gql_failed (''API call failed with status code '' @ str_of_int (hp_status res)))
      else (case bindE (hp_json res) GqlResponse_validate of
          Inl e \<Rightarrow> Inl (gql_failed (''failed to parse response as JSON: '' @ exc_str e))
        | Inr gql_res \<Rightarrow> (case gr_errors gql_res of
              None \<Rightarrow> Inr gql_res
            | Some errors \<Rightarrow> Inl \<lparr>ge_response = Some gql_res,
                ge_message = ''GraphQL error'' @ (case errors of [] \<Rightarrow> [] | e # _ \<Rightarrow>
                  '': '' @ show (case dget e ''message'' of None \<Rightarrow> PNone | Some m \<Rightarrow> m))\<rparr>)))"

definition query :: "'s http \<Rightarrow> (pyobj \<Rightarrow> string) \<Rightarrow> string \<Rightarrow> gql_query \<Rightarrow> ('s, exc, gql_error + gql_response) M" where
  "query http show endpoint q =
     bindM (raise_ifM (\<lambda>e. e) (hx_build http \<lparr>hq_method = ''POST'', hq_url = endpoint, hq_headers = [],
       hq_json = Some (payload q), hq_timeout = Some 30000000, hq_params = [], hq_content = None\<rparr>)) (\<lambda>request.
     bindM (hx_send http request) (\<lambda>http_res. retM (gql_answer show http_res)))"

section \<open>Polling\<close>

text \<open>
  What the polling loops have in common.  \<open>attempt\<close> ends the loop with a result (a value or what is raised) or goes on with
  what it remembers; then \<open>expired\<close> looks at the clock, and may raise; then \<open>pause\<close>.
\<close>

partial_function (option) poll_loop ::
  "('e \<Rightarrow> 's \<Rightarrow> ('r + 'e) \<times> 's) \<Rightarrow> ('e \<Rightarrow> 's \<Rightarrow> 'r option) \<Rightarrow> ('s \<Rightarrow> 's) \<Rightarrow> 'e \<Rightarrow> 's \<Rightarrow> ('r \<times> 's) option" where
  "poll_loop attempt expired pause e s =
     (case attempt e s of
        (Inl r, s1) \<Rightarrow> Some (r, s1)
      | (Inr e1, s1) \<Rightarrow> (case expired e1 s1 of
            Some r \<Rightarrow> Some (r, s1)
          | None \<Rightarrow> poll_loop attempt expired pause e1 (pause s1)))"

text \<open>The loop ends when the clock never goes back, a pause moves it and it expires after a deadline.\<close>

lemma poll_loop_ends:
  fixes now :: "'s \<Rightarrow> int"
  assumes attempt: "\<And>e s. now s \<le> now (snd (attempt e s))" and pause: "\<And>s. now s + d \<le> now (pause s)" "0 < d"
    and expired: "\<And>e s. deadline < now s \<Longrightarrow> expired e s \<noteq> None"
  shows "\<exists>r s'. poll_loop attempt expired pause e s = Some (r, s')"
proof (induction "nat (deadline + d - now s)" arbitrary: e s rule: less_induct)
  case less
  obtain x s1 where s1: "attempt e s = (x, s1)" by fastforce
  have t1: "now s \<le> now s1" using attempt [of s e] s1 by simp
  show ?case
  proof (cases x)
    case (Inr e1)
    show ?thesis
    proof (cases "expired e1 s1")
      case None
      then have "now s1 \<le> deadline" using expired [of s1 e1] by force
      with t1 pause(1) [of s1] pause(2) have "nat (deadline + d - now (pause s1)) < nat (deadline + d - now s)" by linarith
      from less.hyps [OF this, of e1] show ?thesis using s1 Inr None by (simp add: poll_loop.simps)
    qed (use s1 Inr in \<open>simp add: poll_loop.simps\<close>)
  qed (use s1 in \<open>simp add: poll_loop.simps\<close>)
qed

text \<open>A result is that of an attempt or of an expiry, in states that the loop passes through.\<close>

lemma poll_loop_result:
  assumes loop: "poll_loop attempt expired pause e s = Some (r, s')" and start: "I e s"
    and step: "\<And>e s e1 s1. I e s \<Longrightarrow> attempt e s = (Inr e1, s1) \<Longrightarrow> expired e1 s1 = None \<Longrightarrow> I e1 (pause s1)"
    and attempt: "\<And>e s r s1. I e s \<Longrightarrow> attempt e s = (Inl r, s1) \<Longrightarrow> P r s1"
    and expired: "\<And>e s e1 s1 r. I e s \<Longrightarrow> attempt e s = (Inr e1, s1) \<Longrightarrow> expired e1 s1 = Some r \<Longrightarrow> P r s1"
  shows "P r s'"
proof -
  have "attempt = attempt \<longrightarrow> expired = expired \<longrightarrow> pause = pause \<longrightarrow> I e s \<longrightarrow> P (fst (r, s')) (snd (r, s'))"
  proof (rule poll_loop.raw_induct [where P = "\<lambda>a x p e s r. a = attempt \<longrightarrow> x = expired \<longrightarrow> p = pause \<longrightarrow> I e s
      \<longrightarrow> P (fst r) (snd r)", OF _ loop], intro impI)
    fix f a x p e s r
    assume IH: "\<And>a x p e s r. f a x p e s = Some r \<Longrightarrow> a = attempt \<longrightarrow> x = expired \<longrightarrow> p = pause \<longrightarrow> I e s \<longrightarrow> P (fst r) (snd r)"
      and now: "(case a e s of (Inl r, s1) \<Rightarrow> Some (r, s1)
          | (Inr e1, s1) \<Rightarrow> (case x e1 s1 of Some r \<Rightarrow> Some (r, s1) | None \<Rightarrow> f a x p e1 (p s1))) = Some r"
      and eqs: "a = attempt" "x = expired" "p = pause" and I: "I e s"
    obtain y s1 where s1: "attempt e s = (y, s1)" by fastforce
    show "P (fst r) (snd r)"
    proof (cases y)
      case (Inl r1)
      then have "r = (r1, s1)" using now s1 eqs by simp
      with assms(4) [OF I] s1 Inl show ?thesis by simp
    next
      case (Inr e1)
      note att = s1 [unfolded Inr]
      show ?thesis
      proof (cases "expired e1 s1")
        case None
        then have "f a x p e1 (p s1) = Some r" using now att eqs by simp
        from IH [OF this] step [OF I att None] eqs show ?thesis by simp
      next
        case (Some r1)
        then have "r = (r1, s1)" using now att eqs by simp
        with assms(5) [OF I att Some] show ?thesis by simp
      qed
    qed
  qed
  with start show ?thesis by simp
qed

section \<open>The Dev Server's API\<close>

datatype run_status = RS_CANCELLED | RS_COMPLETED | RS_FAILED | RS_RUNNING

fun run_status_value :: "run_status \<Rightarrow> string" where
  "run_status_value RS_CANCELLED = ''CANCELLED''"
| "run_status_value RS_COMPLETED = ''COMPLETED''"
| "run_status_value RS_FAILED = ''FAILED''"
| "run_status_value RS_RUNNING = ''RUNNING''"

definition ended_statuses :: "run_status list" where
  "ended_statuses = [RS_CANCELLED, RS_COMPLETED, RS_FAILED]"

record history_step =
  hs_name :: string
  hs_output_id :: "string option"

text \<open>The field with the alias \<open>outputID\<close> may be \<open>None\<close>, but not missing.\<close>

definition Step_validate :: "pyobj \<Rightarrow> exc + history_step" where
  "Step_validate v =
     bindE (as_dict ''_Step'' v) (\<lambda>d.
     bindE (required as_str d ''name'') (\<lambda>name.
     bindE (required (\<lambda>k v. if v = PNone then Inr None else bindE (as_str k v) (\<lambda>s. Inr (Some s))) d ''outputID'') (\<lambda>output_id.
       Inr \<lparr>hs_name = name, hs_output_id = output_id\<rparr>)))"

text \<open>
  What the helpers use: the Dev Server's origin, \<open>httpx\<close>, \<open>str\<close> for messages, the clock and \<open>sleep\<close>, pydantic's JSON parser
  and \<open>float\<close> of a JSON number.
\<close>

record 's test_env =
  te_origin :: string
  te_http :: "'s http"
  te_show :: "pyobj \<Rightarrow> string"
  te_now :: "'s \<Rightarrow> int"
  te_sleep :: "int \<Rightarrow> 's \<Rightarrow> 's"
  te_json :: "bytes \<Rightarrow> exc + pyobj"
  te_float :: "string \<Rightarrow> string"

definition client_query :: "'s test_env \<Rightarrow> string \<Rightarrow> (string, pyobj) dict \<Rightarrow> ('s, exc, gql_error + gql_response) M" where
  "client_query env text variables =
     query (te_http env) (te_show env) (te_origin env @ ''/v0/gql'') \<lparr>gq_query = text, gq_variables = Some variables\<rparr>"

definition py_item :: "(string, pyobj) dict \<Rightarrow> string \<Rightarrow> exc + pyobj" where
  "py_item d k = (case dget d k of
     None \<Rightarrow> Inl (PyExc ''KeyError'' ([char_of (39::nat)] @ k @ [char_of (39::nat)])) | Some v \<Rightarrow> Inr v)"

definition py_get :: "(string, pyobj) dict \<Rightarrow> string \<Rightarrow> pyobj" where
  "py_get d k = (case dget d k of None \<Rightarrow> PNone | Some v \<Rightarrow> v)"

definition expect_dict :: "pyobj \<Rightarrow> exc + (string, pyobj) dict" where
  "expect_dict v = (case v of PDict d \<Rightarrow> Inr d | _ \<Rightarrow> Inl (Exception ''unexpected response''))"

definition expect_list :: "pyobj \<Rightarrow> exc + pyobj list" where
  "expect_list v = (case v of PList xs \<Rightarrow> Inr xs | _ \<Rightarrow> Inl (Exception ''unexpected response''))"

text \<open>The queries, with their white space collapsed.\<close>

definition steps_query :: string where
  "steps_query = ''query GetHistory($run_id: String!) { run(runID: $run_id) { trace { childrenSpans { name outputID } } } }''"

definition output_query :: string where
  "output_query = ''query GetHistory($output_id: String!) { runTraceSpanOutputByID(outputID: $output_id) { data error { message name stack } } }''"

definition event_query :: string where
  "event_query = ''query GetRunFromEventID($event_id: ID!) { event(query: {eventId: $event_id}) { functionRuns { id } } }''"

definition run_query :: string where
  "run_query = ''query GetRun($run_id: String!) { run(runID: $run_id) { output status } runTrigger(runID: $run_id) { payloads } }''"

subsection \<open>Step outputs\<close>

definition steps_answer :: "gql_response \<Rightarrow> exc + history_step list" where
  "steps_answer res =
     bindE (bindE (py_item (gr_data res) ''run'') expect_dict) (\<lambda>run.
     bindE (bindE (py_item run ''trace'') expect_dict) (\<lambda>trace.
     bindE (bindE (py_item trace ''childrenSpans'') expect_list) (\<lambda>children_spans.
     map_sum_list Step_validate children_spans)))"

definition or_raise :: "(gql_response \<Rightarrow> exc + 'a) \<Rightarrow> gql_error + gql_response \<Rightarrow> ('s, exc, 'a) M" where
  "or_raise f res = (case res of Inl e \<Rightarrow> raiseM (Exception (ge_message e)) | Inr res \<Rightarrow> raise_ifM (\<lambda>e. e) (f res))"

definition get_steps_history :: "'s test_env \<Rightarrow> string \<Rightarrow> ('s, exc, history_step list) M" where
  "get_steps_history env run_id =
     bindM (client_query env steps_query [(''run_id'', PStr run_id)]) (or_raise steps_answer)"

text \<open>The loop over the history.\<close>

fun find_output_id :: "int \<Rightarrow> int \<Rightarrow> string \<Rightarrow> history_step list \<Rightarrow> string option" where
  "find_output_id expected found step_id [] = None"
| "find_output_id expected found step_id (s # ss) =
     (if hs_name s = step_id then
        (if found + 1 = expected then hs_output_id s else find_output_id expected (found + 1) step_id ss)
      else find_output_id expected found step_id ss)"

definition loads_value :: "(string \<Rightarrow> string) \<Rightarrow> pyobj \<Rightarrow> exc + pyobj" where
  "loads_value num v = (case v of
     PStr s \<Rightarrow> (case json_loads num s of Inr x \<Rightarrow> Inr x
       | Inl DecodeError \<Rightarrow> Inl (PyExc ''JSONDecodeError'' s) | Inl _ \<Rightarrow> Inl outside_model)
   | _ \<Rightarrow> Inl (PyExc ''TypeError'' ''the JSON object must be str, bytes or bytearray''))"

definition dumps_value :: "pyobj \<Rightarrow> exc + string" where
  "dumps_value v = (case json_dumps v of Inr s \<Rightarrow> Inr s
     | Inl t \<Rightarrow> Inl (PyExc ''TypeError'' (''Object of type '' @ t @ '' is not JSON serializable'')))"

definition output_text :: "(string \<Rightarrow> string) \<Rightarrow> gql_response \<Rightarrow> exc + string" where
  "output_text num res =
     bindE (bindE (py_item (gr_data res) ''runTraceSpanOutputByID'') expect_dict) (\<lambda>run.
     bindE (py_item run ''error'') (\<lambda>err.
     let run = (if err = PNone then ddel run ''error'' else run) in
     bindE (py_item run ''data'') (\<lambda>data.
     bindE (if data = PNone then Inr run else bindE (loads_value num data) (\<lambda>v. Inr (dset run ''data'' v))) (\<lambda>run.
     dumps_value (PDict run)))))"

definition get_step_output :: "'s test_env \<Rightarrow> string \<Rightarrow> string \<Rightarrow> int option \<Rightarrow> ('s, exc, string) M" where
  "get_step_output env run_id step_id index =
     bindM (get_steps_history env run_id) (\<lambda>history.
     let output_id = find_output_id (case index of None \<Rightarrow> 1 | Some i \<Rightarrow> i + 1) 0 step_id history in
     if \<not> truthy_str output_id then
       (let quoted = [char_of (34::nat)] @ step_id @ [char_of (34::nat)] in
        case index of
          None \<Rightarrow> raiseM (Exception (''step '' @ quoted @ '' not found in history''))
        | Some i \<Rightarrow> raiseM (Exception (''step '' @ quoted @ '' index='' @ str_of_int i @ '' not found in history'')))
     else bindM (client_query env output_query [(''output_id'', opt_str output_id)]) (or_raise (output_text (te_float env))))"

text \<open>The loop finds the step of that name with the given index.\<close>

lemma find_output_id_nth:
  assumes "i < length (filter (\<lambda>s. hs_name s = step_id) steps)"
  shows "find_output_id (found + int i + 1) found step_id steps = hs_output_id (filter (\<lambda>s. hs_name s = step_id) steps ! i)"
  using assms
proof (induction steps arbitrary: found i)
  case (Cons a steps)
  show ?case
  proof (cases "hs_name a = step_id \<and> i \<noteq> 0")
    case True
    then obtain j where j: "i = Suc j" by (cases i) auto
    with Cons.IH [of j "found + 1"] Cons.prems True show ?thesis by (simp add: add.assoc)
  next
    case False
    with Cons.IH [of i found] Cons.prems show ?thesis by auto
  qed
qed simp

subsection \<open>Waiting for runs\<close>

text \<open>A number of runs is waited for: \<open>None\<close> is an answer with another number of them.\<close>

definition py_subscript :: "pyobj \<Rightarrow> string \<Rightarrow> exc + pyobj" where
  "py_subscript v k = (case v of
     PDict d \<Rightarrow> py_item d k
   | PList xs \<Rightarrow> Inl (PyExc ''TypeError'' ''list indices must be integers or slices, not str'')
   | PStr s \<Rightarrow> Inl (PyExc ''TypeError'' ''string indices must be integers'')
   | _ \<Rightarrow> Inl (PyExc ''TypeError'' ''object is not subscriptable''))"

definition run_ids_answer :: "int \<Rightarrow> gql_response \<Rightarrow> exc + pyobj list option" where
  "run_ids_answer run_count res =
     bindE (expect_dict (py_get (gr_data res) ''event'')) (\<lambda>event.
     bindE (expect_list (if truthy (py_get event ''functionRuns'') then py_get event ''functionRuns'' else PList [])) (\<lambda>runs.
     if int (length runs) = run_count then bindE (map_sum_list (\<lambda>run. py_subscript run ''id'') runs) (\<lambda>ids. Inr (Some ids))
     else Inr None))"

text \<open>An answer of the API settles a polling loop or not; its errors do not, what the request or the check raises does.\<close>

definition settle :: "('e \<Rightarrow> gql_response \<Rightarrow> (exc + 'a) + 'e) \<Rightarrow> ('s, exc, gql_error + gql_response) M \<Rightarrow> 'e \<Rightarrow> 's
    \<Rightarrow> ((exc + 'a) + 'e) \<times> 's" where
  "settle check ask e s = (case ask s of
     (Inl x, s1) \<Rightarrow> (Inl (Inl x), s1)
   | (Inr (Inl gql_err), s1) \<Rightarrow> (Inr e, s1)
   | (Inr (Inr res), s1) \<Rightarrow> (check e res, s1))"

definition timed_out :: "'s test_env \<Rightarrow> int \<Rightarrow> int \<Rightarrow> ('e \<Rightarrow> string) \<Rightarrow> 'e \<Rightarrow> 's \<Rightarrow> (exc + 'a) option" where
  "timed_out env start timeout msg e s =
     (if te_now env s - start > timeout * 1000000 then Some (Inl (Exception (msg e))) else None)"

definition get_run_ids_from_event_id :: "'s test_env \<Rightarrow> string \<Rightarrow> int \<Rightarrow> int \<Rightarrow> 's \<Rightarrow> ((exc + pyobj list) \<times> 's) option" where
  "get_run_ids_from_event_id env event_id run_count timeout s =
     poll_loop (settle (\<lambda>e res. case run_ids_answer run_count res of Inl x \<Rightarrow> Inl (Inl x) | Inr None \<Rightarrow> Inr e | Inr (Some ids) \<Rightarrow> Inl (Inr ids))
         (client_query env event_query [(''event_id'', PStr event_id)]))
       (timed_out env (te_now env s) timeout (\<lambda>e. ''timed out waiting for run status'')) (te_sleep env 200000) () s"

record test_run =
  tr_event :: event
  tr_id :: string
  tr_output :: "string option"
  tr_status :: run_status

definition model_validate_json :: "(bytes \<Rightarrow> exc + pyobj) \<Rightarrow> pyobj \<Rightarrow> exc + event" where
  "model_validate_json json v = (case v of
     PStr s \<Rightarrow> bindE (json s) Event_validate
   | _ \<Rightarrow> Inl (ValidationError ''JSON input should be string, bytes or bytearray''))"

definition Run :: "event \<Rightarrow> string \<Rightarrow> pyobj \<Rightarrow> run_status \<Rightarrow> exc + test_run" where
  "Run event run_id output_v status =
     bindE (if output_v = PNone then Inr None else bindE (as_str ''output'' output_v) (\<lambda>s. Inr (Some s))) (\<lambda>out.
       Inr \<lparr>tr_event = event, tr_id = run_id, tr_output = out, tr_status = status\<rparr>)"

text \<open>One answer: the run, or the status to be remembered.\<close>

definition run_status_answer :: "'s test_env \<Rightarrow> string \<Rightarrow> run_status \<Rightarrow> gql_response \<Rightarrow> exc + test_run + pyobj" where
  "run_status_answer env run_id expected res =
     bindE (expect_dict (py_get (gr_data res) ''run'')) (\<lambda>run.
     bindE (py_item run ''status'') (\<lambda>actual.
     bindE (expect_dict (py_get (gr_data res) ''runTrigger'')) (\<lambda>run_trigger.
     bindE (expect_list (py_get run_trigger ''payloads'')) (\<lambda>payloads.
     bindE (case payloads of [] \<Rightarrow> Inl (PyExc ''IndexError'' ''list index out of range'')
            | p # _ \<Rightarrow> model_validate_json (te_json env) p) (\<lambda>event.
     if actual = PStr (run_status_value expected) then
       bindE (py_item run ''output'') (\<lambda>out. bindE (Run event run_id out expected) (\<lambda>r. Inr (Inl r)))
     else if \<exists>st \<in> set ended_statuses. actual = PStr (run_status_value st)
     then Inl (Exception (''run ended with a different status: '' @ te_show env actual))
     else Inr (Inr actual))))))"

definition run_timeout_message :: "'s test_env \<Rightarrow> string \<Rightarrow> pyobj \<Rightarrow> string" where
  "run_timeout_message env run_id actual = ''timed out waiting for run '' @ run_id @
     (if actual = PNone then '' status: no status available'' else '' status: actual status is '' @ te_show env actual)"

definition wait_for_run_status :: "'s test_env \<Rightarrow> string \<Rightarrow> run_status \<Rightarrow> int \<Rightarrow> 's \<Rightarrow> ((exc + test_run) \<times> 's) option" where
  "wait_for_run_status env run_id expected timeout s =
     poll_loop (settle (\<lambda>actual res. case run_status_answer env run_id expected res of
           Inl x \<Rightarrow> Inl (Inl x) | Inr (Inl run) \<Rightarrow> Inl (Inr run) | Inr (Inr actual) \<Rightarrow> Inr actual)
         (client_query env run_query [(''run_id'', PStr run_id)]))
       (timed_out env (te_now env s) timeout (run_timeout_message env run_id)) (te_sleep env 200000) PNone s"

section \<open>Assertions that are repeated\<close>

definition wait_for_assertion :: "'s test_env \<Rightarrow> ('s, exc, unit) M \<Rightarrow> int \<Rightarrow> 's \<Rightarrow> ((exc + unit) \<times> 's) option" where
  "wait_for_assertion env assertion timeout s =
     poll_loop (\<lambda>e s. case assertion s of (Inl err, s1) \<Rightarrow> (Inr err, s1) | (Inr _, s1) \<Rightarrow> (Inl (Inr ()), s1))
       (\<lambda>err s1. if te_now env s1 > te_now env s + timeout then Some (Inl err) else None)
       (te_sleep env 200000) (Exception []) s"

definition py_assert :: "('s \<Rightarrow> bool) \<Rightarrow> ('s, exc, unit) M" where
  "py_assert p = (\<lambda>s. if p s then (Inr (), s) else (Inl (PyExc ''AssertionError'' []), s))"

definition wait_for_len :: "'s test_env \<Rightarrow> ('s \<Rightarrow> 'a list) \<Rightarrow> int \<Rightarrow> int \<Rightarrow> 's \<Rightarrow> ((exc + unit) \<times> 's) option" where
  "wait_for_len env get_value len timeout = wait_for_assertion env (py_assert (\<lambda>s. int (length (get_value s)) = len)) timeout"

definition wait_for_truthy :: "'s test_env \<Rightarrow> ('s \<Rightarrow> pyobj) \<Rightarrow> int \<Rightarrow> 's \<Rightarrow> ((exc + unit) \<times> 's) option" where
  "wait_for_truthy env get_value timeout = wait_for_assertion env (py_assert (\<lambda>s. truthy (get_value s))) timeout"

text \<open>\<open>run_id\<close> reads the attribute of a \<open>BaseState\<close>.\<close>

definition wait_for_run_id :: "'s test_env \<Rightarrow> ('s \<Rightarrow> string option) \<Rightarrow> int \<Rightarrow> 's \<Rightarrow> ((exc + string) \<times> 's) option" where
  "wait_for_run_id env run_id timeout s =
     (case wait_for_assertion env (py_assert (\<lambda>s. run_id s \<noteq> None)) timeout s of
        None \<Rightarrow> None
      | Some (Inl e, s1) \<Rightarrow> Some (Inl e, s1)
      | Some (Inr _, s1) \<Rightarrow> Some (case run_id s1 of None \<Rightarrow> Inl (PyExc ''AssertionError'' []) | Some r \<Rightarrow> Inr r, s1))"

text \<open>\<open>register\<close> asks the app to register itself, until it does or five seconds have passed; \<open>put\<close> is the request's status.\<close>

partial_function (option) register_loop :: "('s \<Rightarrow> int) \<Rightarrow> (int \<Rightarrow> 's \<Rightarrow> 's) \<Rightarrow> ('s, exc, int) M \<Rightarrow> int \<Rightarrow> 's \<Rightarrow> 's option" where
  "register_loop now pause put start s =
     (if now s < start + 5000000 then
        (case put s of
           (Inr status, s1) \<Rightarrow> if status = 200 then Some s1 else register_loop now pause put start (pause 100000 s1)
         | (Inl e, s1) \<Rightarrow> register_loop now pause put start (pause 100000 s1))
      else Some s)"

definition register :: "'s test_env \<Rightarrow> ('s, exc, int) M \<Rightarrow> 's \<Rightarrow> 's option" where
  "register env put s = register_loop (te_now env) (te_sleep env) put (te_now env s) s"

section \<open>Names and dictionaries\<close>

text \<open>\<open>str.replace(".py", "")\<close>.\<close>

function remove_py :: "string \<Rightarrow> string" where
  "remove_py s = (if starts_with s ''.py'' then remove_py (drop 3 s) else case s of [] \<Rightarrow> [] | c # cs \<Rightarrow> c # remove_py cs)"
  by pat_completeness auto
termination
proof (relation "measure length")
  show "starts_with s ''.py'' \<Longrightarrow> (drop 3 s, s) \<in> measure length" for s by (cases s) auto
qed auto

declare remove_py.simps [simp del]

definition basename :: "string \<Rightarrow> string" where
  "basename file = last (split_all (CHR ''/'') file)"

definition create_test_name :: "string \<Rightarrow> string" where
  "create_test_name file = (let name = remove_py (basename file) in
     if starts_with name ''test_'' then drop 5 name else name)"

text \<open>\<open>draw n\<close> are the \<open>n\<close> characters that \<open>random.choices\<close> gives.\<close>

definition random_suffix :: "(nat \<Rightarrow> 's \<Rightarrow> string \<times> 's) \<Rightarrow> string \<Rightarrow> 's \<Rightarrow> string \<times> 's" where
  "random_suffix draw v s = (case draw 16 s of (r, s1) \<Rightarrow> (v @ ''-'' @ r, s1))"

definition worker_suffix :: "(string \<Rightarrow> string option) \<Rightarrow> string \<Rightarrow> string" where
  "worker_suffix env v = (let worker_id = env ''PYTEST_XDIST_WORKER'' in
     v @ (if truthy_str worker_id then ''-'' @ the worker_id else []))"

fun py_type :: "pyobj \<Rightarrow> string" where
  "py_type PNone = ''NoneType''"
| "py_type (PBool b) = ''bool''"
| "py_type (PInt i) = ''int''"
| "py_type (PFloat r) = ''float''"
| "py_type (PStr s) = ''str''"
| "py_type (PList xs) = ''list''"
| "py_type (PDict d) = ''dict''"
| "py_type PEmpty = ''EmptySentinel''"
| "py_type (POpaque t) = t"

text \<open>The loop of \<open>get_nested\<close> over the parts of the key; it never gets to its end.\<close>

fun get_nested_keys :: "(string, pyobj) dict \<Rightarrow> string list \<Rightarrow> exc + pyobj" where
  "get_nested_keys d [] = Inl (Exception ''unreachable'')"
| "get_nested_keys d (k # ks) = bindE (py_item d k) (\<lambda>v.
     if ks = [] then Inr v
     else case v of PDict d' \<Rightarrow> get_nested_keys d' ks
       | _ \<Rightarrow> Inl (PyExc ''TypeError'' (''expected dict, got '' @ ''<class '' @ [char_of (39::nat)] @ py_type v @ [char_of (39::nat)] @ ''>'')))"

definition get_nested :: "(string, pyobj) dict \<Rightarrow> string \<Rightarrow> exc + pyobj" where
  "get_nested d key = get_nested_keys d (split_all (CHR ''.'') key)"

section \<open>The HTTP proxy\<close>

text \<open>
  A request of the Dev Server is answered by \<open>on_request\<close>.  \<open>lookup\<close> is \<open>headers.get\<close> of the server's message, \<open>read\<close> its
  \<open>rfile.read\<close>; the result is what the handler writes.
\<close>

record proxy_response =
  px_body :: "bytes option"
  px_headers :: "(string, string) dict"
  px_status :: int

record proxied =
  pd_body :: "bytes option"
  pd_headers :: "(string, string list) dict"
  pd_method :: string
  pd_path :: string

definition proxy_headers :: "(string \<times> string) list \<Rightarrow> (string, string list) dict" where
  "proxy_headers items = foldl (\<lambda>headers (key, v). case dget headers key of
     Some vs \<Rightarrow> dset headers key (vs @ [v]) | None \<Rightarrow> dset headers key [v]) [] items"

datatype proxy_write = W_Status int | W_Header string string | W_End | W_Body bytes

definition set_response :: "proxy_response \<Rightarrow> proxy_write list" where
  "set_response res = W_Status (px_status res) # map (\<lambda>(k, v). W_Header k v) (px_headers res) @ [W_End]
     @ (case px_body res of None \<Rightarrow> [] | Some b \<Rightarrow> [W_Body b])"

definition read_body :: "(string \<Rightarrow> string option) \<Rightarrow> (int \<Rightarrow> bytes) \<Rightarrow> exc + bytes option" where
  "read_body lookup read = (case lookup ''Content-Length'' of
     None \<Rightarrow> Inr None
   | Some n \<Rightarrow> (case py_int n of
         None \<Rightarrow> Inl (PyExc ''ValueError'' (''invalid literal for int() with base 10: '' @ n))
       | Some i \<Rightarrow> Inr (Some (read i))))"

text \<open>\<open>do_GET\<close> and the four methods with a body; another method is refused by the server.\<close>

definition proxy_do :: "(proxied \<Rightarrow> ('s, exc, proxy_response) M) \<Rightarrow> (string \<Rightarrow> string option) \<Rightarrow> (int \<Rightarrow> bytes)
    \<Rightarrow> (string \<times> string) list \<Rightarrow> string \<Rightarrow> string \<Rightarrow> ('s, exc, proxy_write list) M" where
  "proxy_do on_request lookup read items meth path =
     bindM (raise_ifM (\<lambda>e. e) (if meth = ''GET'' then Inr None else read_body lookup read)) (\<lambda>body.
     bindM (on_request \<lparr>pd_body = body, pd_headers = proxy_headers items, pd_method = meth, pd_path = path\<rparr>) (\<lambda>res.
     retM (set_response res)))"

text \<open>The requests to the apps under test; \<open>send\<close> is the test client's.\<close>

record app_request =
  ar_method :: string
  ar_path :: string
  ar_content :: "bytes option"
  ar_headers :: "(string \<times> header_in) list"

definition first_values :: "(string, string list) dict \<Rightarrow> exc + (string, string) dict" where
  "first_values headers = map_sum_list (\<lambda>(k, vs). case vs of
     [] \<Rightarrow> Inl (PyExc ''IndexError'' ''list index out of range'') | v # _ \<Rightarrow> Inr (k, v)) headers"

definition on_proxy_fast_api_request :: "(app_request \<Rightarrow> ('s, exc, proxy_response) M) \<Rightarrow> proxied \<Rightarrow> ('s, exc, proxy_response) M" where
  "on_proxy_fast_api_request send req =
     (let body = (case pd_body req of None \<Rightarrow> ''{}'' | Some [] \<Rightarrow> ''{}'' | Some b \<Rightarrow> b) in
      bindM (raise_ifM (\<lambda>e. e) (first_values (pd_headers req))) (\<lambda>new_headers.
      if pd_method req = ''POST'' \<or> pd_method req = ''PUT''
      then send \<lparr>ar_method = pd_method req, ar_path = pd_path req, ar_content = Some body,
          ar_headers = map (\<lambda>(k, v). (k, HStr v)) new_headers\<rparr>
      else raiseM (Exception (''unsupported method: '' @ pd_method req))))"

definition on_proxy_flask_request :: "(app_request \<Rightarrow> ('s, exc, proxy_response) M) \<Rightarrow> proxied \<Rightarrow> ('s, exc, proxy_response) M" where
  "on_proxy_flask_request send req =
     send \<lparr>ar_method = pd_method req, ar_path = pd_path req, ar_content = pd_body req,
       ar_headers = map (\<lambda>(k, vs). (k, HList vs)) (pd_headers req)\<rparr>"

subsection \<open>Its threads\<close>

text \<open>
  The thread of \<open>serve_forever\<close> and the caller of \<open>stop\<close>, over what they share: the flag and the event of
  \<open>socketserver.BaseServer\<close>.  \<open>shutdown\<close> sets the flag and waits for the event, which only an ending \<open>serve_forever\<close> sets.
\<close>

datatype serve_pc = Not_Started | Serve_Starting | Serve_Loop | Served
datatype proxy_stop_pc = Not_Stopping | Shutting_Down | Joining | Stopped | Stop_Raised exc

record proxy =
  px_serve :: serve_pc
  px_thread :: bool
  px_stop :: proxy_stop_pc
  px_shutdown_request :: bool
  px_is_shut_down :: bool

definition Proxy :: proxy where
  "Proxy = \<lparr>px_serve = Not_Started, px_thread = False, px_stop = Not_Stopping, px_shutdown_request = False, px_is_shut_down = False\<rparr>"

inductive proxy_step :: "proxy \<Rightarrow> proxy \<Rightarrow> bool" where
  start: "px_serve p = Not_Started \<Longrightarrow> proxy_step p (p\<lparr>px_serve := Serve_Starting, px_thread := True\<rparr>)"
| serve: "px_serve p = Serve_Starting \<Longrightarrow> proxy_step p (p\<lparr>px_serve := Serve_Loop, px_is_shut_down := False\<rparr>)"
| serve_ends: "px_serve p = Serve_Loop \<Longrightarrow> px_shutdown_request p \<Longrightarrow>
    proxy_step p (p\<lparr>px_serve := Served, px_shutdown_request := False, px_is_shut_down := True\<rparr>)"
| stop: "px_stop p = Not_Stopping \<Longrightarrow> proxy_step p (p\<lparr>px_stop := Shutting_Down, px_shutdown_request := True\<rparr>)"
| shut_down: "px_stop p = Shutting_Down \<Longrightarrow> px_is_shut_down p \<Longrightarrow>
    proxy_step p (p\<lparr>px_stop := if px_thread p then Joining else Stop_Raised (Exception ''missing thread'')\<rparr>)"
| joined: "px_stop p = Joining \<Longrightarrow> proxy_step p (p\<lparr>px_stop := Stopped\<rparr>)"

inductive_cases proxy_stepE: "proxy_step p q"

definition proxy_inv :: "proxy \<Rightarrow> bool" where
  "proxy_inv p = (px_thread p = (px_serve p \<noteq> Not_Started) \<and> px_is_shut_down p = (px_serve p = Served)
     \<and> (\<forall>e. px_stop p \<noteq> Stop_Raised e)
     \<and> (px_stop p = Shutting_Down \<longrightarrow> px_serve p \<noteq> Served \<longrightarrow> px_shutdown_request p)
     \<and> (px_stop p \<in> {Joining, Stopped} \<longrightarrow> px_serve p = Served)
     \<and> (px_stop p = Not_Stopping \<longrightarrow> \<not> px_shutdown_request p \<and> px_serve p \<noteq> Served))"

lemma proxy_inv_step: "proxy_step p q \<Longrightarrow> proxy_inv p \<Longrightarrow> proxy_inv q"
  by (erule proxy_stepE) (auto simp: proxy_inv_def split: if_splits)

lemma proxy_reachable: "proxy_step\<^sup>*\<^sup>* Proxy p \<Longrightarrow> proxy_inv p"
proof (induction rule: rtranclp_induct)
  case base
  show ?case by (simp add: proxy_inv_def Proxy_def)
qed (rule proxy_inv_step)

text \<open>\<open>stop\<close> before \<open>start\<close> waits for an event that nobody sets, before it gets to its own check; the exception
  \<open>missing thread\<close> is never raised.\<close>

lemma missing_thread_never_raised: "proxy_step\<^sup>*\<^sup>* Proxy p \<Longrightarrow> px_stop p \<noteq> Stop_Raised e"
  by (drule proxy_reachable) (simp add: proxy_inv_def)

lemma stop_before_start_waits:
  assumes "proxy_step\<^sup>*\<^sup>* Proxy p" and "px_stop p = Shutting_Down" "px_serve p = Not_Started" and "proxy_step p q"
  shows "q = p\<lparr>px_serve := Serve_Starting, px_thread := True\<rparr>"
proof -
  have "\<not> px_is_shut_down p" using proxy_reachable [OF assms(1)] assms(3) by (simp add: proxy_inv_def)
  with assms show ?thesis by (auto elim: proxy_stepE)
qed

lemma started_proxy_stops:
  assumes "proxy_step\<^sup>*\<^sup>* Proxy p" and "px_stop p \<noteq> Not_Stopping" "px_thread p"
  shows "\<exists>q. proxy_step\<^sup>*\<^sup>* p q \<and> px_stop q = Stopped"
proof -
  have join: "\<exists>q. proxy_step\<^sup>*\<^sup>* p q \<and> px_stop q = Stopped" if "px_stop p = Joining" for p
    using proxy_step.joined [OF that] by (intro exI [of _ "p\<lparr>px_stop := Stopped\<rparr>"]) auto
  have down: "\<exists>q. proxy_step\<^sup>*\<^sup>* p q \<and> px_stop q = Stopped"
    if "px_stop p = Shutting_Down" "px_is_shut_down p" "px_thread p" for p
    using proxy_step.shut_down [OF that(1,2)] join [of "p\<lparr>px_stop := Joining\<rparr>"] that(3)
    by (auto intro: converse_rtranclp_into_rtranclp)
  have serving: "\<exists>q. proxy_step\<^sup>*\<^sup>* p q \<and> px_stop q = Stopped"
    if "px_stop p = Shutting_Down" "px_serve p = Serve_Loop" "px_shutdown_request p" "px_thread p" for p
    using proxy_step.serve_ends [OF that(2,3)] down [of "p\<lparr>px_serve := Served, px_shutdown_request := False, px_is_shut_down := True\<rparr>"]
      that(1,4) by (auto intro: converse_rtranclp_into_rtranclp)
  have starting: "\<exists>q. proxy_step\<^sup>*\<^sup>* p q \<and> px_stop q = Stopped"
    if "px_stop p = Shutting_Down" "px_serve p = Serve_Starting" "px_shutdown_request p" "px_thread p" for p
    using proxy_step.serve [OF that(2)] serving [of "p\<lparr>px_serve := Serve_Loop, px_is_shut_down := False\<rparr>"] that
    by (auto intro: converse_rtranclp_into_rtranclp)
  note inv = proxy_reachable [OF assms(1), unfolded proxy_inv_def]
  show ?thesis
  proof (cases "px_stop p")
    case Shutting_Down
    then show ?thesis
      using inv assms(3) down [of p] serving [of p] starting [of p] by (cases "px_serve p") auto
  qed (use inv assms(2) join in auto)
qed

section \<open>What the helpers guarantee\<close>

text \<open>Time does not go back, and a sleep lasts.\<close>

definition clock_ok :: "'s test_env \<Rightarrow> bool" where
  "clock_ok env = ((\<forall>q s. te_now env s \<le> te_now env (snd (hx_send (te_http env) q s)))
     \<and> (\<forall>d s. te_now env s + d \<le> te_now env (te_sleep env d s)))"

lemma clock_query: "clock_ok env \<Longrightarrow> te_now env s \<le> te_now env (snd (client_query env qtext vars s))"
  by (auto simp: clock_ok_def client_query_def query_def monad_simps split: prod.split sum.split)
     (metis snd_conv)+

lemma clock_settle:
  assumes "clock_ok env"
  shows "te_now env s \<le> te_now env (snd (settle check (client_query env qtext vars) e s))"
  using clock_query [OF assms, of s qtext vars] by (auto simp: settle_def split: prod.split sum.split)

lemma polling_ends:
  assumes "clock_ok env"
  shows "\<exists>r s'. poll_loop (settle check (client_query env qtext vars)) (timed_out env start timeout msg) (te_sleep env 200000) e s = Some (r, s')"
  by (rule poll_loop_ends [where now = "te_now env" and d = 200000 and deadline = "start + timeout * 1000000"])
     (use assms clock_settle [OF assms] in \<open>auto simp: clock_ok_def timed_out_def\<close>)

text \<open>What one attempt gives: the expected status, or an error that is not the end of the wait.\<close>

lemma run_status_answer_run: "run_status_answer env run_id expected res = Inr (Inl run) \<Longrightarrow> tr_id run = run_id \<and> tr_status run = expected"
  by (auto simp: run_status_answer_def Run_def bindE_def split: sum.splits if_splits)

text \<open>\<open>wait_for_run_status\<close> comes back, whatever the API answers.  A run that it returns has the expected status; an exception
  is that of a request, or of the check of an answer, or it comes after the timeout.\<close>

lemma wait_for_run_status_ends:
  fixes env :: "'s test_env" and run_id :: string
  assumes "clock_ok env"
  defines "ask \<equiv> client_query env run_query [(''run_id'', PStr run_id)]"
  shows "\<exists>r s'. wait_for_run_status env run_id expected timeout s = Some (r, s')
    \<and> (case r of Inr run \<Rightarrow> tr_id run = run_id \<and> tr_status run = expected
       | Inl e \<Rightarrow> (\<exists>s1. fst (ask s1) = Inl e)
           \<or> (\<exists>s1 res. fst (ask s1) = Inr (Inr res) \<and> run_status_answer env run_id expected res = Inl e)
           \<or> timeout * 1000000 < te_now env s' - te_now env s \<and> (\<exists>actual. e = Exception (run_timeout_message env run_id actual)))"
proof -
  obtain r s' where r: "wait_for_run_status env run_id expected timeout s = Some (r, s')"
    using polling_ends [OF assms(1)] unfolding wait_for_run_status_def by fastforce
  have "case r of Inr run \<Rightarrow> tr_id run = run_id \<and> tr_status run = expected
       | Inl e \<Rightarrow> (\<exists>s1. fst (ask s1) = Inl e)
           \<or> (\<exists>s1 res. fst (ask s1) = Inr (Inr res) \<and> run_status_answer env run_id expected res = Inl e)
           \<or> timeout * 1000000 < te_now env s' - te_now env s \<and> (\<exists>actual. e = Exception (run_timeout_message env run_id actual))"
    by (rule poll_loop_result [OF r [unfolded wait_for_run_status_def, folded ask_def], where I = "\<lambda>e s. True"])
       (auto simp: settle_def timed_out_def dest: run_status_answer_run split: prod.splits sum.splits if_splits, (metis fst_conv)+)
  with r show ?thesis by blast
qed

lemma get_run_ids_ends:
  assumes "clock_ok env"
  shows "\<exists>r s'. get_run_ids_from_event_id env event_id run_count timeout s = Some (r, s')
    \<and> (case r of Inr ids \<Rightarrow> int (length ids) = run_count | Inl e \<Rightarrow> True)"
proof -
  obtain r s' where r: "get_run_ids_from_event_id env event_id run_count timeout s = Some (r, s')"
    using polling_ends [OF assms] unfolding get_run_ids_from_event_id_def by fastforce
  have len: "map_sum_list f xs = Inr ys \<Longrightarrow> length ys = length xs" for f :: "pyobj \<Rightarrow> exc + pyobj" and xs ys
    by (induction xs arbitrary: ys) (auto split: sum.splits)
  have "case r of Inr ids \<Rightarrow> int (length ids) = run_count | Inl e \<Rightarrow> True"
    by (rule poll_loop_result [OF r [unfolded get_run_ids_from_event_id_def], where I = "\<lambda>e s. True"])
       (auto simp: settle_def timed_out_def run_ids_answer_def bindE_def dest: len split: prod.splits sum.splits if_splits option.splits)
  with r show ?thesis by blast
qed

text \<open>An assertion is tried at least once, and its last outcome is the result.\<close>

lemma wait_for_settles:
  assumes "\<And>s. te_now env s \<le> te_now env (snd (assertion s))" and "\<And>d s. te_now env s + d \<le> te_now env (te_sleep env d s)"
  shows "\<exists>r s'. wait_for_assertion env assertion timeout s = Some (r, s') \<and> (\<exists>s1. assertion s1 = (r, s'))
    \<and> (isl r \<longrightarrow> te_now env s + timeout < te_now env s')"
proof -
  let ?att = "\<lambda>e s. case assertion s of (Inl err, s1) \<Rightarrow> (Inr err, s1) | (Inr _, s1) \<Rightarrow> (Inl (Inr ()), s1)"
  have "te_now env s \<le> te_now env (snd (?att e s))" for e :: exc and s
    using assms(1) [of s] by (auto split: prod.split sum.split)
  then have "\<exists>r s'. wait_for_assertion env assertion timeout s = Some (r, s')"
    unfolding wait_for_assertion_def
    by (rule poll_loop_ends [where now = "te_now env" and d = 200000 and deadline = "te_now env s + timeout"]) (use assms(2) in auto)
  then obtain r s' where r: "wait_for_assertion env assertion timeout s = Some (r, s')" by blast
  have "(\<exists>s1. assertion s1 = (r, s')) \<and> (isl r \<longrightarrow> te_now env s + timeout < te_now env s')"
    by (rule poll_loop_result [OF r [unfolded wait_for_assertion_def], where I = "\<lambda>e s. True"])
       (auto split: prod.splits sum.splits if_splits)
  with r show ?thesis by blast
qed

text \<open>\<open>register\<close> returns in either case: when the app answered 200, and silently when five seconds have passed.\<close>

lemma register_returns:
  assumes "\<And>s. te_now env s \<le> te_now env (snd (put s))" and "\<And>d s. te_now env s + d \<le> te_now env (te_sleep env d s)"
  shows "\<exists>s'. register env put s = Some s' \<and> ((\<exists>s1. put s1 = (Inr 200, s')) \<or> te_now env s + 5000000 \<le> te_now env s')"
proof -
  have "\<exists>s'. register_loop (te_now env) (te_sleep env) put start s = Some s'
      \<and> ((\<exists>s1. put s1 = (Inr 200, s')) \<or> start + 5000000 \<le> te_now env s')" for start s
  proof (induction "nat (start + 5000000 - te_now env s)" arbitrary: s rule: less_induct)
    case less
    obtain x s1 where s1: "put s = (x, s1)" by fastforce
    show ?case
    proof (cases "te_now env s < start + 5000000 \<and> x \<noteq> Inr 200")
      case True
      then have "nat (start + 5000000 - te_now env (te_sleep env 100000 s1)) < nat (start + 5000000 - te_now env s)"
        using assms(1) [of s] assms(2) [of s1 100000] s1 by simp
      from less.hyps [OF this] True s1 show ?thesis
        by (cases x) (simp_all add: register_loop.simps [of "te_now env" "te_sleep env" put start s])
    next
      case False
      with s1 show ?thesis by (auto simp: register_loop.simps [of "te_now env" "te_sleep env" put start s])
    qed
  qed
  then show ?thesis by (simp add: register_def)
qed

text \<open>The proxy keeps every value of a header, in order, and the FastAPI client sees the first one of each.\<close>

lemma proxy_headers_get:
  "dget (proxy_headers items) k = (let vs = map snd (filter (\<lambda>(k', v). k' = k) items) in if vs = [] then None else Some vs)"
proof (induction items rule: rev_induct)
  case (snoc x items)
  obtain k' v where x: "x = (k', v)" by fastforce
  have "proxy_headers (items @ [x]) = (case dget (proxy_headers items) k' of
      Some vs \<Rightarrow> dset (proxy_headers items) k' (vs @ [v]) | None \<Rightarrow> dset (proxy_headers items) k' [v])"
    unfolding proxy_headers_def x by simp
  with snoc.IH x show ?case
    by (cases "dget (proxy_headers items) k'"; cases "k' = k") (auto simp: Let_def dget_dset split: if_splits)
qed (simp add: proxy_headers_def)

lemma first_values_get:
  "(\<And>k vs. (k, vs) \<in> set d \<Longrightarrow> vs \<noteq> []) \<Longrightarrow> \<exists>d'. first_values d = Inr d' \<and> (\<forall>k. dget d' k = map_option hd (dget d k))"
proof (induction d)
  case (Cons a d)
  obtain k v vs where a: "a = (k, v # vs)" using Cons.prems [of "fst a" "snd a"] by (cases a; cases "snd a") auto
  from Cons obtain d' where "first_values d = Inr d'" "\<forall>k. dget d' k = map_option hd (dget d k)" by auto
  with a show ?case by (simp add: first_values_def)
qed (simp add: first_values_def)

text \<open>A dotted key always has a last part, so the end of \<open>get_nested\<close> is not reached.\<close>

lemma get_nested_reachable: "get_nested d key \<noteq> Inl (Exception ''unreachable'')"
proof -
  have "split_all c s \<noteq> []" for c s by (induction s) (auto split: list.split)
  moreover have "ks \<noteq> [] \<Longrightarrow> get_nested_keys d ks \<noteq> Inl (Exception ''unreachable'')" for ks
    by (induction ks arbitrary: d) (auto simp: bindE_def py_item_def split: option.split sum.split pyobj.split)
  ultimately show ?thesis by (simp add: get_nested_def)
qed

section \<open>The inspection that the tests expect\<close>

definition expected_unauthed_body :: "(string, pyobj) dict" where
  "expected_unauthed_body =
     [(''function_count'', PInt 1), (''has_event_key'', PBool True), (''has_signing_key'', PBool True),
      (''has_signing_key_fallback'', PBool False), (''mode'', PStr ''cloud''), (''schema_version'', PStr ''2024-05-24'')]"

definition expected_authed_body :: "framework \<Rightarrow> string \<Rightarrow> (string, pyobj) dict" where
  "expected_authed_body framework version = dmerge expected_unauthed_body
     [(''api_origin'', PStr ''https://api.inngest.com/''), (''app_id'', PStr ''my-app''), (''authentication_succeeded'', PBool True),
      (''capabilities'', PDict [(''connect'', PStr ''v1''), (''in_band_sync'', PStr ''v1''), (''trust_probe'', PStr ''v1'')]),
      (''env'', PNone), (''event_api_origin'', PStr ''https://inn.gs/''),
      (''event_key_hash'', PStr ''9f86d081884c7d659a2feaa0c55ad015a3bf4f1b2b0b822cd15d6c15b0f00a08''),
      (''framework'', PStr (framework_value framework)), (''sdk_language'', PStr LANGUAGE), (''sdk_version'', PStr version),
      (''serve_origin'', PNone), (''serve_path'', PNone),
      (''signing_key_fallback_hash'', PStr ''a820760dee6119fcf76498ab8d94be2f8cf04e786add2a4569e427462a84dd47''),
      (''signing_key_hash'', PStr ''94bab7f22b92278ccab46e15da43a9fb8b079c05fa099d4134c6c39bbcee49f6'')]"

text \<open>The app of the introspection tests, and the hashes of its keys.\<close>

definition introspected :: "'u comm_handler \<Rightarrow> bool" where
  "introspected h = (let c = ch_client h in length (ch_fns h) = 1 \<and> ch_mode h = SK_CLOUD \<and> cl_app_id c = ''my-app''
     \<and> cl_event_key c = Some ''test'' \<and> cl_env c = None \<and> cl_api_origin c = DEFAULT_API_ORIGIN
     \<and> cl_event_api_origin c = DEFAULT_EVENT_API_ORIGIN \<and> ch_signing_key h = Some ''signkey-prod-123abc'')"

definition test_hashes :: "(bytes \<Rightarrow> string) \<Rightarrow> bool" where
  "test_hashes sha256 =
     (hash_event_key sha256 ''test'' = ''9f86d081884c7d659a2feaa0c55ad015a3bf4f1b2b0b822cd15d6c15b0f00a08''
      \<and> hash_signing_key sha256 ''signkey-prod-123abc'' = Inr ''94bab7f22b92278ccab46e15da43a9fb8b079c05fa099d4134c6c39bbcee49f6''
      \<and> hash_signing_key sha256 ''signkey-prod-456def'' = Inr ''a820760dee6119fcf76498ab8d94be2f8cf04e786add2a4569e427462a84dd47'')"

text \<open>An unsigned inspection of that app is what the tests expect; so is a signed one, with the fallback key that they set
  and the flag that they correct for it.\<close>

lemma unsigned_inspection_expected:
  assumes "introspected h" and "ch_signing_key_fallback h = None"
  shows "\<exists>u. build_inspection h req False = Inr (Inr u) \<and> set (UnauthenticatedInspection_to_dict u) = set expected_unauthed_body"
  using assms by (auto simp: build_inspection_def introspected_def expected_unauthed_body_def UnauthenticatedInspection_to_dict_def Let_def)

lemma signed_inspection_expected:
  assumes "introspected h" and "ch_signing_key_fallback h = Some ''signkey-prod-456def''" and "test_hashes (hx_sha256 (ch_http h))"
    and "cq_serve_origin req = None" "cq_serve_path req = None"
  shows "\<exists>a. build_inspection h req True = Inr (Inl a)
    \<and> set (AuthenticatedInspection_to_dict version a)
      = set (dset (expected_authed_body (ch_framework h) version) ''has_signing_key_fallback'' (PBool True))"
  using assms by (auto simp: build_inspection_def introspected_def test_hashes_def expected_authed_body_def expected_unauthed_body_def
      AuthenticatedInspection_to_dict_def Let_def hash_if_set_def truthy_str_def opt_str_def dmerge_def Capabilities_to_dict_def
      DEFAULT_API_ORIGIN_def DEFAULT_EVENT_API_ORIGIN_def)

text \<open>A test's name.\<close>

lemma create_test_name_plain:
  assumes "CHR ''.'' \<notin> set name" "CHR ''/'' \<notin> set name"
  shows "create_test_name (dir @ ''/test_'' @ name @ ''.py'') = name"
proof -
  have split: "CHR ''/'' \<notin> set s \<Longrightarrow> split_all (CHR ''/'') s = [s]" for s by (induction s) auto
  have "\<exists>ws. ws \<noteq> [] \<and> split_all (CHR ''/'') (dir @ ''/'' @ s) = ws @ [s]" if "CHR ''/'' \<notin> set s" for s
  proof (induction dir)
    case Nil
    show ?case using split [OF that] by (intro exI [of _ "[[]]"]) simp
  next
    case (Cons c cs)
    then obtain w ws where "split_all (CHR ''/'') (cs @ ''/'' @ s) = (w # ws) @ [s]" by (metis neq_Nil_conv)
    then show ?case
      by (intro exI [of _ "if c = CHR ''/'' then [] # w # ws else (c # w) # ws"]) simp
  qed
  then have "last (split_all (CHR ''/'') (dir @ ''/'' @ s)) = s" if "CHR ''/'' \<notin> set s" for s
    using that by (metis last_snoc)
  then have base: "basename (dir @ ''/test_'' @ name @ ''.py'') = ''test_'' @ name @ ''.py''"
    using assms(2) by (simp add: basename_def)
  have remove: "remove_py (s @ ''.py'') = s" if "CHR ''.'' \<notin> set s" for s
    using that by (induction s) (auto simp: remove_py.simps [of "_ # _"] remove_py.simps [of "[]"])
  show ?thesis
    unfolding create_test_name_def base using remove [of "''test_'' @ name"] assms(1) by (simp add: Let_def)
qed

section \<open>Test cases\<close>

definition HOST :: string where
  "HOST = ''127.0.0.1''"

definition proxy_origin :: "int \<Rightarrow> string" where
  "proxy_origin port = ''http://'' @ HOST @ '':'' @ str_of_int port"

text \<open>A test case's proxy is started before each test and stopped after it.\<close>

definition set_up :: proxy where
  "set_up = Proxy\<lparr>px_serve := Serve_Starting, px_thread := True\<rparr>"

definition tear_down :: "proxy \<Rightarrow> proxy" where
  "tear_down p = p\<lparr>px_stop := Shutting_Down, px_shutdown_request := True\<rparr>"

lemma tear_down_stops:
  assumes "proxy_step\<^sup>*\<^sup>* set_up p" and "px_stop p = Not_Stopping"
  shows "\<exists>q. proxy_step\<^sup>*\<^sup>* (tear_down p) q \<and> px_stop q = Stopped"
proof -
  have start: "proxy_step Proxy set_up" unfolding set_up_def by (rule proxy_step.start) (simp add: Proxy_def)
  have down: "proxy_step p (tear_down p)" unfolding tear_down_def by (rule proxy_step.stop) (rule assms(2))
  have reach: "proxy_step\<^sup>*\<^sup>* Proxy p" using start assms(1) by (rule converse_rtranclp_into_rtranclp)
  have thread: "px_thread q" if "proxy_step\<^sup>*\<^sup>* set_up q" for q
    using that by (induction rule: rtranclp_induct) (auto simp: set_up_def elim!: proxy_stepE)
  show ?thesis
    using reach down thread [OF assms(1)] by (intro started_proxy_stops) (auto simp: tear_down_def)
qed

text \<open>The key, the environment with it, and the clean-up, which pops the variable.\<close>

definition set_signing_key_fallback_env_var :: "environ \<Rightarrow> string \<times> environ" where
  "set_signing_key_fallback_env_var env = (let k = ''signkey-prod-456def'' in
     (k, env(env_key_value EK_SIGNING_KEY_FALLBACK := Some k)))"

definition clean_up_env :: "environ \<Rightarrow> exc + environ" where
  "clean_up_env env = (if env (env_key_value EK_SIGNING_KEY_FALLBACK) = None
     then Inl (PyExc ''KeyError'' (env_key_value EK_SIGNING_KEY_FALLBACK))
     else Inr (env(env_key_value EK_SIGNING_KEY_FALLBACK := None)))"

lemma env_cleaned_up:
  "env (env_key_value EK_SIGNING_KEY_FALLBACK) = None \<Longrightarrow> clean_up_env (snd (set_signing_key_fallback_env_var env)) = Inr env"
  by (auto simp: clean_up_env_def set_signing_key_fallback_env_var_def Let_def)

end
