(* ===== verification/WsProxy.thy ===== *)
theory WsProxy
  imports Errors "HOL-Library.Sublist"
begin

text \<open>
  \<open>pkg/test_core/ws_proxy.py\<close>: the WebSocket proxy that the tests put between a worker and its gateway.  A connection has two
  endpoints, each read by its own task; a step is what a coroutine does between two awaits, or an event of the network, and any
  interleaving is a run.  The fields below the line in the record are what the network and the peers see, and the history.
\<close>

section \<open>The state\<close>

datatype side = Client_Side | Server_Side

type_synonym endpoint = "nat \<times> side"

fun other :: "endpoint \<Rightarrow> endpoint" where
  "other (c, Client_Side) = (c, Server_Side)"
| "other (c, Server_Side) = (c, Client_Side)"

datatype ws_msg = Text string | Binary bytes

fun bmsg :: "ws_msg \<Rightarrow> bytes" where
  "bmsg (Text s) = utf8 s"
| "bmsg (Binary b) = b"

datatype handler_pc = H_Absent | H_Connecting | H_Waiting | H_Done
datatype task_pc = T_Absent | T_Reading | T_Sending ws_msg | T_Done
datatype sender_pc = SC_Idle | SC_At ws_msg "nat list" nat | SC_Raised exc
datatype stop_pc = Stop_Idle | Stop_Closing | Stop_Done

record ws_proxy =
  wp_conns :: "(nat, endpoint \<times> endpoint) dict"
  wp_tasks :: "endpoint set"
  wp_forwarded :: "bytes list"
  wp_handlers :: "nat \<Rightarrow> handler_pc"
  wp_pcs :: "endpoint \<Rightarrow> task_pc"
  wp_sender :: sender_pc
  wp_stop :: stop_pc
  \<comment> \<open>the network: unread messages, closed connections, what was sent to an endpoint and whether it was forwarded, raw writes\<close>
  wp_inbox :: "endpoint \<Rightarrow> ws_msg list"
  wp_closed :: "endpoint \<Rightarrow> bool"
  wp_outbox :: "endpoint \<Rightarrow> (bool \<times> ws_msg) list"
  wp_raw :: "endpoint \<Rightarrow> bytes list"
  \<comment> \<open>the history: what arrived, and what was read, over all connections\<close>
  wp_arrived :: "endpoint \<Rightarrow> ws_msg list"
  wp_reads :: "(endpoint \<times> ws_msg) list"

definition WebSocketProxy :: ws_proxy where
  "WebSocketProxy = \<lparr>wp_conns = [], wp_tasks = {}, wp_forwarded = [], wp_handlers = (\<lambda>c. H_Absent), wp_pcs = (\<lambda>e. T_Absent),
     wp_sender = SC_Idle, wp_stop = Stop_Idle, wp_inbox = (\<lambda>e. []), wp_closed = (\<lambda>e. False), wp_outbox = (\<lambda>e. []),
     wp_raw = (\<lambda>e. []), wp_arrived = (\<lambda>e. []), wp_reads = []\<rparr>"

section \<open>Forwarding\<close>

text \<open>\<open>_handle_client\<close>: up to the connection to the server, from there to the first end of a task, and the rest.\<close>

definition handle_client_connected :: "nat \<Rightarrow> ws_proxy \<Rightarrow> ws_proxy" where
  "handle_client_connected c p = p\<lparr>
     wp_conns := dset (wp_conns p) c ((c, Client_Side), (c, Server_Side)),
     wp_pcs := (wp_pcs p)((c, Client_Side) := T_Reading, (c, Server_Side) := T_Reading),
     wp_tasks := wp_tasks p \<union> {(c, Client_Side), (c, Server_Side)},
     wp_handlers := (wp_handlers p)(c := H_Waiting)\<rparr>"

definition handle_client_ends :: "nat \<Rightarrow> ws_proxy \<Rightarrow> ws_proxy" where
  "handle_client_ends c p = p\<lparr>
     wp_pcs := (wp_pcs p)((c, Client_Side) := T_Done, (c, Server_Side) := T_Done),
     wp_tasks := wp_tasks p - {(c, Client_Side), (c, Server_Side)},
     wp_conns := ddel (wp_conns p) c,
     wp_handlers := (wp_handlers p)(c := H_Done)\<rparr>"

text \<open>\<open>_forward_messages\<close>: the message is logged when it is read, before it is sent on.\<close>

definition forward_read :: "endpoint \<Rightarrow> ws_msg \<Rightarrow> ws_msg list \<Rightarrow> ws_proxy \<Rightarrow> ws_proxy" where
  "forward_read e m ms p = p\<lparr>
     wp_inbox := (wp_inbox p)(e := ms),
     wp_forwarded := wp_forwarded p @ [bmsg m],
     wp_reads := wp_reads p @ [(e, m)],
     wp_pcs := (wp_pcs p)(e := T_Sending m)\<rparr>"

definition forward_send :: "endpoint \<Rightarrow> ws_msg \<Rightarrow> ws_proxy \<Rightarrow> ws_proxy" where
  "forward_send e m p = p\<lparr>
     wp_outbox := (wp_outbox p)(other e := wp_outbox p (other e) @ [(True, m)]),
     wp_pcs := (wp_pcs p)(e := T_Reading)\<rparr>"

section \<open>What the tests do\<close>

text \<open>\<open>send_to_clients\<close> iterates over the dictionary itself.\<close>

definition dict_changed :: exc where
  "dict_changed = PyExc ''RuntimeError'' ''dictionary changed size during iteration''"

definition send_to_client :: "ws_msg \<Rightarrow> nat list \<Rightarrow> nat \<Rightarrow> ws_proxy \<Rightarrow> ws_proxy" where
  "send_to_client m ids i p = (let e = (ids ! i, Client_Side) in
     p\<lparr>wp_outbox := (wp_outbox p)(e := wp_outbox p e @ [(False, m)]), wp_sender := SC_At m ids (Suc i)\<rparr>)"

definition abort_conns :: "ws_proxy \<Rightarrow> ws_proxy" where
  "abort_conns p = p\<lparr>wp_closed := (\<lambda>e. wp_closed p e \<or> fst e \<in> set (dkeys (wp_conns p))), wp_conns := []\<rparr>"

text \<open>\<open>send_invalid_frame\<close> and \<open>close_with_code\<close> write to the transports of the clients.\<close>

definition write_to_clients :: "bytes \<Rightarrow> ws_proxy \<Rightarrow> ws_proxy" where
  "write_to_clients b p = p\<lparr>
     wp_raw := (\<lambda>e. if fst e \<in> set (dkeys (wp_conns p)) \<and> snd e = Client_Side then wp_raw p e @ [b] else wp_raw p e),
     wp_conns := []\<rparr>"

definition send_invalid_frame :: "ws_proxy \<Rightarrow> ws_proxy" where
  "send_invalid_frame = write_to_clients (map char_of [136::nat, 255, 0, 0, 0, 0])"

definition close_with_code :: "ws_proxy \<Rightarrow> ws_proxy" where
  "close_with_code = write_to_clients (map char_of [136::nat, 2, 3, 232])"

text \<open>\<open>_async_stop\<close>: the server closes its connections; when all handlers have ended, the tasks that are left are cancelled.\<close>

definition async_stop_closes :: "ws_proxy \<Rightarrow> ws_proxy" where
  "async_stop_closes p = p\<lparr>wp_stop := Stop_Closing, wp_closed := (\<lambda>e. wp_closed p e \<or> snd e = Client_Side)\<rparr>"

definition async_stop_cancels :: "ws_proxy \<Rightarrow> ws_proxy" where
  "async_stop_cancels p = p\<lparr>wp_stop := Stop_Done, wp_pcs := (\<lambda>e. if e \<in> wp_tasks p then T_Done else wp_pcs p e)\<rparr>"

section \<open>Runs\<close>

inductive ws_step :: "ws_proxy \<Rightarrow> ws_proxy \<Rightarrow> bool" where
  accept: "wp_stop p = Stop_Idle \<Longrightarrow> wp_handlers p c = H_Absent \<Longrightarrow> ws_step p (p\<lparr>wp_handlers := (wp_handlers p)(c := H_Connecting)\<rparr>)"
| connect_fails: "wp_handlers p c = H_Connecting \<Longrightarrow> ws_step p (p\<lparr>wp_handlers := (wp_handlers p)(c := H_Done)\<rparr>)"
| connected: "wp_handlers p c = H_Connecting \<Longrightarrow> ws_step p (handle_client_connected c p)"
| arrives: "\<not> wp_closed p e \<Longrightarrow>
    ws_step p (p\<lparr>wp_inbox := (wp_inbox p)(e := wp_inbox p e @ [m]), wp_arrived := (wp_arrived p)(e := wp_arrived p e @ [m])\<rparr>)"
| closes: "ws_step p (p\<lparr>wp_closed := (wp_closed p)(e := True)\<rparr>)"
| reads: "wp_pcs p e = T_Reading \<Longrightarrow> wp_inbox p e = m # ms \<Longrightarrow> ws_step p (forward_read e m ms p)"
| sends: "wp_pcs p e = T_Sending m \<Longrightarrow> \<not> wp_closed p (other e) \<Longrightarrow> ws_step p (forward_send e m p)"
| send_fails: "wp_pcs p e = T_Sending m \<Longrightarrow> wp_closed p (other e) \<Longrightarrow> ws_step p (p\<lparr>wp_pcs := (wp_pcs p)(e := T_Reading)\<rparr>)"
| read_ends: "wp_pcs p e = T_Reading \<Longrightarrow> wp_inbox p e = [] \<Longrightarrow> wp_closed p e \<Longrightarrow> ws_step p (p\<lparr>wp_pcs := (wp_pcs p)(e := T_Done)\<rparr>)"
| handler_ends: "wp_handlers p c = H_Waiting \<Longrightarrow> wp_pcs p (c, s) = T_Done \<Longrightarrow> ws_step p (handle_client_ends c p)"
| send_begins: "\<forall>m' ids i. wp_sender p \<noteq> SC_At m' ids i \<Longrightarrow> ws_step p (p\<lparr>wp_sender := SC_At m (dkeys (wp_conns p)) 0\<rparr>)"
| send_next: "wp_sender p = SC_At m ids i \<Longrightarrow> dkeys (wp_conns p) = ids \<Longrightarrow> i < length ids \<Longrightarrow> \<not> wp_closed p (ids ! i, Client_Side) \<Longrightarrow>
    ws_step p (send_to_client m ids i p)"
| send_closed: "wp_sender p = SC_At m ids i \<Longrightarrow> dkeys (wp_conns p) = ids \<Longrightarrow> i < length ids \<Longrightarrow> wp_closed p (ids ! i, Client_Side) \<Longrightarrow>
    ws_step p (p\<lparr>wp_sender := SC_Raised (PyExc ''ConnectionClosed'' [])\<rparr>)"
| send_changed: "wp_sender p = SC_At m ids i \<Longrightarrow> length (wp_conns p) \<noteq> length ids \<Longrightarrow> ws_step p (p\<lparr>wp_sender := SC_Raised dict_changed\<rparr>)"
| send_swapped: "wp_sender p = SC_At m ids i \<Longrightarrow> length (wp_conns p) = length ids \<Longrightarrow> dkeys (wp_conns p) \<noteq> ids \<Longrightarrow>
    ws_step p (p\<lparr>wp_sender := SC_At m (dkeys (wp_conns p)) j\<rparr>)"
| send_ends: "wp_sender p = SC_At m ids i \<Longrightarrow> dkeys (wp_conns p) = ids \<Longrightarrow> length ids \<le> i \<Longrightarrow> ws_step p (p\<lparr>wp_sender := SC_Idle\<rparr>)"
| aborts: "ws_step p (abort_conns p)"
| invalid: "ws_step p (send_invalid_frame p)"
| code: "ws_step p (close_with_code p)"
| stop_closes: "wp_stop p = Stop_Idle \<Longrightarrow> ws_step p (async_stop_closes p)"
| stop_cancels: "wp_stop p = Stop_Closing \<Longrightarrow> \<forall>c. wp_handlers p c \<in> {H_Absent, H_Done} \<Longrightarrow> ws_step p (async_stop_cancels p)"

inductive_cases ws_stepE: "ws_step p q"

lemmas ws_defs = handle_client_connected_def handle_client_ends_def forward_read_def forward_send_def send_to_client_def
  abort_conns_def write_to_clients_def send_invalid_frame_def close_with_code_def async_stop_closes_def async_stop_cancels_def Let_def

section \<open>Invariants\<close>

lemma other_simps [simp]: "other e \<noteq> e" "e \<noteq> other e" "other (other e) = e" "fst (other e) = fst e" "(other e = other e') = (e = e')"
  by (cases e rule: other.cases; simp; cases e' rule: other.cases; simp)+

text \<open>The handlers, their tasks and the registered connections.\<close>

definition books :: "ws_proxy \<Rightarrow> bool" where
  "books p = (wp_tasks p = {e. wp_handlers p (fst e) = H_Waiting}
     \<and> set (dkeys (wp_conns p)) \<subseteq> {c. wp_handlers p c = H_Waiting} \<and> dict_inv (wp_conns p)
     \<and> (\<forall>e. wp_handlers p (fst e) \<in> {H_Absent, H_Connecting} \<longrightarrow> wp_pcs p e = T_Absent)
     \<and> (\<forall>e. wp_handlers p (fst e) = H_Waiting \<longrightarrow> wp_pcs p e \<noteq> T_Absent)
     \<and> (\<forall>e. wp_handlers p (fst e) = H_Done \<longrightarrow> wp_pcs p e \<in> {T_Absent, T_Done}))"

definition in_flight :: "task_pc \<Rightarrow> ws_msg list" where
  "in_flight pc = (case pc of T_Sending m \<Rightarrow> [m] | _ \<Rightarrow> [])"

definition read_from :: "ws_proxy \<Rightarrow> endpoint \<Rightarrow> ws_msg list" where
  "read_from p e = map snd (filter (\<lambda>(e', m). e' = e) (wp_reads p))"

definition forwarded_to :: "ws_proxy \<Rightarrow> endpoint \<Rightarrow> ws_msg list" where
  "forwarded_to p e = map snd (filter fst (wp_outbox p e))"

definition in_order :: "ws_proxy \<Rightarrow> bool" where
  "in_order p = (wp_forwarded p = map (\<lambda>(e, m). bmsg m) (wp_reads p)
     \<and> (\<forall>e. wp_arrived p e = read_from p e @ wp_inbox p e)
     \<and> (\<forall>e. subseq (forwarded_to p (other e) @ in_flight (wp_pcs p e)) (read_from p e))
     \<and> (\<forall>e. wp_handlers p (fst e) \<noteq> H_Done \<longrightarrow> \<not> wp_closed p (other e)
          \<longrightarrow> forwarded_to p (other e) @ in_flight (wp_pcs p e) = read_from p e))"

lemma side_simps [simp]: "s \<noteq> Client_Side \<longleftrightarrow> s = Server_Side" "s \<noteq> Server_Side \<longleftrightarrow> s = Client_Side"
  by (cases s; simp)+

lemma conns_keys: "set (dkeys (dset d k v)) = insert k (set (dkeys d))" "set (dkeys (ddel d k)) = set (dkeys d) - {k}"
  by (auto simp: dkeys_dset dhas_def) (auto simp: dkeys_def ddel_def)

lemma handler_tasks: "e \<in> {(c, Client_Side), (c, Server_Side)} \<longleftrightarrow> fst e = c"
  by (cases e; cases "snd e") auto

lemma active_waits: "books p \<Longrightarrow> wp_pcs p e \<in> {T_Reading, T_Sending m} \<Longrightarrow> wp_handlers p (fst e) = H_Waiting"
  unfolding books_def by (cases "wp_handlers p (fst e)") (force dest: spec [of _ e] simp del: split_paired_All)+

text \<open>A step of a task that is active leaves the books as they are.\<close>

lemma books_task:
  assumes "books p" and "wp_pcs p e \<in> {T_Reading, T_Sending m}" and "wp_pcs q = (wp_pcs p)(e := pc)" "pc \<noteq> T_Absent"
    and "wp_handlers q = wp_handlers p" "wp_tasks q = wp_tasks p" "wp_conns q = wp_conns p"
  shows "books q"
  using assms(1) active_waits [OF assms(1,2)] assms(3-) by (cases e) (auto simp: books_def)

lemma books_step: "ws_step p q \<Longrightarrow> books p \<Longrightarrow> books q"
proof (induction rule: ws_step.induct)
  case (connected p c)
  then show ?case
    by (auto simp: books_def handle_client_connected_def handler_tasks conns_keys)
next
  case (handler_ends p c s)
  then show ?case
    by (auto simp: books_def handle_client_ends_def handler_tasks conns_keys)
next
  case (stop_cancels p)
  then have "wp_tasks p = {}" by (auto simp: books_def) (metis handler_pc.distinct)
  with stop_cancels show ?case by (auto simp: books_def async_stop_cancels_def)
next
  case (reads p e m ms)
  then show ?case by (auto intro!: books_task [of p e] simp: forward_read_def)
next
  case (sends p e m)
  then show ?case by (auto intro!: books_task [of p e m] simp: forward_send_def)
next
  case (send_fails p e m)
  then show ?case by (auto intro!: books_task [of p e m])
next
  case (read_ends p e)
  then show ?case by (auto intro!: books_task [of p e])
qed (auto simp: books_def ws_defs dkeys_def)

text \<open>An endpoint's part of the state decides its part of the order.\<close>

definition end_in_order :: "ws_proxy \<Rightarrow> endpoint \<Rightarrow> bool" where
  "end_in_order p e = (wp_arrived p e = read_from p e @ wp_inbox p e
     \<and> subseq (forwarded_to p (other e) @ in_flight (wp_pcs p e)) (read_from p e)
     \<and> (wp_handlers p (fst e) \<noteq> H_Done \<longrightarrow> \<not> wp_closed p (other e)
          \<longrightarrow> forwarded_to p (other e) @ in_flight (wp_pcs p e) = read_from p e))"

lemma in_order_ends: "in_order p \<longleftrightarrow> wp_forwarded p = map (\<lambda>(e, m). bmsg m) (wp_reads p) \<and> (\<forall>e. end_in_order p e)"
  by (auto simp: in_order_def end_in_order_def)

lemma forward_read_fields:
  "read_from (forward_read e m ms p) e' = read_from p e' @ (if e' = e then [m] else [])"
  "forwarded_to (forward_read e m ms p) e' = forwarded_to p e'" "wp_arrived (forward_read e m ms p) = wp_arrived p"
  "wp_handlers (forward_read e m ms p) = wp_handlers p" "wp_closed (forward_read e m ms p) = wp_closed p"
  "wp_inbox (forward_read e m ms p) = (wp_inbox p)(e := ms)" "wp_pcs (forward_read e m ms p) = (wp_pcs p)(e := T_Sending m)"
  by (auto simp: read_from_def forwarded_to_def forward_read_def)

lemma subseq_front: "subseq (xs @ ys) zs \<Longrightarrow> subseq xs zs"
  using list_emb_append_mono [of "(=)" xs xs "[]" ys] subseq_order.order_trans [of xs "xs @ ys" zs] by simp

text \<open>Most steps leave an endpoint's part alone or only close connections.\<close>

lemma end_in_order_keep:
  assumes "end_in_order p e" and "wp_arrived q e = wp_arrived p e" "wp_reads q = wp_reads p" "wp_inbox q e = wp_inbox p e"
    and "forwarded_to q (other e) = forwarded_to p (other e)"
    and "in_flight (wp_pcs q e) = in_flight (wp_pcs p e) \<or> in_flight (wp_pcs q e) = [] \<and> (wp_handlers q (fst e) = H_Done \<or> wp_closed q (other e))"
    and "wp_handlers q (fst e) \<noteq> H_Done \<longrightarrow> wp_handlers p (fst e) \<noteq> H_Done" "wp_closed p (other e) \<longrightarrow> wp_closed q (other e)"
  shows "end_in_order q e"
proof -
  let ?xs = "forwarded_to p (other e)" and ?r = "read_from p e"
  have p: "wp_arrived p e = ?r @ wp_inbox p e" "subseq (?xs @ in_flight (wp_pcs p e)) ?r"
    "wp_handlers p (fst e) \<noteq> H_Done \<Longrightarrow> \<not> wp_closed p (other e) \<Longrightarrow> ?xs @ in_flight (wp_pcs p e) = ?r"
    using assms(1) by (simp_all add: end_in_order_def)
  have read: "read_from q e = ?r" using assms(3) by (simp add: read_from_def)
  from assms(6) show ?thesis
  proof (rule disjE)
    assume "in_flight (wp_pcs q e) = in_flight (wp_pcs p e)"
    with p assms(2,4,5,7,8) read show ?thesis by (auto simp: end_in_order_def)
  next
    assume "in_flight (wp_pcs q e) = [] \<and> (wp_handlers q (fst e) = H_Done \<or> wp_closed q (other e))"
    with p(1) subseq_front [OF p(2)] assms(2,4,5) read show ?thesis by (auto simp: end_in_order_def)
  qed
qed

lemma in_order_keep:
  assumes "in_order p" and "wp_forwarded q = wp_forwarded p" "wp_reads q = wp_reads p" "wp_arrived q = wp_arrived p" "wp_inbox q = wp_inbox p"
    and "\<And>e. forwarded_to q e = forwarded_to p e"
    and "\<And>e. in_flight (wp_pcs q e) = in_flight (wp_pcs p e) \<or> in_flight (wp_pcs q e) = [] \<and> (wp_handlers q (fst e) = H_Done \<or> wp_closed q (other e))"
    and "\<And>e :: endpoint. wp_handlers q (fst e) \<noteq> H_Done \<longrightarrow> wp_handlers p (fst e) \<noteq> H_Done" "\<And>e. wp_closed p (other e) \<longrightarrow> wp_closed q (other e)"
  shows "in_order q"
  unfolding in_order_ends
proof (intro conjI allI)
  show "wp_forwarded q = map (\<lambda>(e, m). bmsg m) (wp_reads q)" using assms(1-3) by (simp add: in_order_ends)
  show "end_in_order q e" for e
  proof (rule end_in_order_keep [of p])
    show "end_in_order p e" using assms(1) by (simp add: in_order_ends del: split_paired_All)
    show "wp_arrived q e = wp_arrived p e" by (simp add: assms(4))
    show "wp_reads q = wp_reads p" by (rule assms(3))
    show "wp_inbox q e = wp_inbox p e" by (simp add: assms(5))
    show "forwarded_to q (other e) = forwarded_to p (other e)" by (rule assms(6))
  qed (rule assms(7), rule assms(8), rule assms(9))
qed

lemma in_order_step: "ws_step p q \<Longrightarrow> books p \<Longrightarrow> in_order p \<Longrightarrow> in_order q"
proof (induction rule: ws_step.induct)
  case (arrives p e m)
  then show ?case by (auto simp: in_order_ends end_in_order_def read_from_def forwarded_to_def)
next
  case (reads p e m ms)
  let ?q = "forward_read e m ms p"
  have "end_in_order ?q e'" for e'
  proof (cases "e' = e")
    case True
    from reads have "end_in_order p e" by (simp add: in_order_ends del: split_paired_All)
    with reads(1,2) show ?thesis
      by (auto simp: True end_in_order_def forward_read_fields in_flight_def)
  next
    case False
    with reads show ?thesis
      by (simp add: in_order_ends end_in_order_def forward_read_fields del: split_paired_All)
  qed
  with reads show ?case by (simp add: in_order_ends forward_read_def)
next
  case (sends p e m)
  let ?q = "forward_send e m p"
  have "end_in_order ?q e'" for e'
  proof -
    have p: "end_in_order p e'" using sends by (simp add: in_order_ends del: split_paired_All)
    then show ?thesis
      using sends(1) by (cases "e' = e") (auto simp: end_in_order_def forward_send_def forwarded_to_def read_from_def in_flight_def)
  qed
  with sends show ?case by (simp add: in_order_ends forward_send_def)
next
  case (connected p c)
  then have "\<forall>e. fst e = c \<longrightarrow> wp_pcs p e = T_Absent" by (auto simp: books_def)
  then show ?case
    by (intro in_order_keep [OF connected(3)]) (use connected(1) in \<open>auto simp: handle_client_connected_def in_flight_def forwarded_to_def\<close>)
next
  case (stop_cancels p)
  then have none: "wp_tasks p = {}" by (auto simp: books_def) (metis handler_pc.distinct)
  have "end_in_order (async_stop_cancels p) e" for e
  proof (rule end_in_order_keep [of p])
    show "end_in_order p e" using stop_cancels(4) by (simp add: in_order_ends del: split_paired_All)
  qed (simp_all add: async_stop_cancels_def none forwarded_to_def)
  moreover have "wp_forwarded (async_stop_cancels p) = map (\<lambda>(e, m). bmsg m) (wp_reads (async_stop_cancels p))"
    using stop_cancels(4) by (simp add: in_order_ends async_stop_cancels_def)
  ultimately show ?case by (simp add: in_order_ends)
qed (erule in_order_keep; auto simp: ws_defs in_flight_def forwarded_to_def)+

definition stopped :: "ws_proxy \<Rightarrow> bool" where
  "stopped p = (wp_stop p = Stop_Done \<longrightarrow> (\<forall>c. wp_handlers p c \<in> {H_Absent, H_Done}))"

lemma stopped_step: "ws_step p q \<Longrightarrow> stopped p \<Longrightarrow> stopped q"
proof (induction rule: ws_step.induct)
  case (connect_fails p c)
  then show ?case by (auto simp: stopped_def)
next
  case (connected p c)
  then show ?case by (auto simp: stopped_def handle_client_connected_def) (metis handler_pc.distinct)+
next
  case (handler_ends p c s)
  then show ?case by (auto simp: stopped_def handle_client_ends_def)
qed (auto simp: stopped_def ws_defs)

lemma ws_reachable: "ws_step\<^sup>*\<^sup>* WebSocketProxy p \<Longrightarrow> books p \<and> in_order p \<and> stopped p"
proof (induction rule: rtranclp_induct)
  case base
  show ?case
    by (simp add: books_def in_order_def stopped_def WebSocketProxy_def read_from_def forwarded_to_def in_flight_def dkeys_def dict_inv_def)
qed (blast intro: books_step in_order_step stopped_step)

text \<open>C40: The proxy forwards in order.  Whatever the interleaving of the connections' tasks with the network and with what the
  tests do, the log of forwarded messages is the sequence of the messages read, encoded; what was forwarded to an endpoint is a
  subsequence of what arrived at the other one, and, while that endpoint is open and its handler has not ended, it is all of it
  but for what is being sent and what is still unread; a task is registered exactly while its handler waits, and a connection
  at most so long; when the proxy has stopped, none is left.\<close>

theorem forwarding_in_order:
  assumes "ws_step\<^sup>*\<^sup>* WebSocketProxy p"
  shows "wp_forwarded p = map (\<lambda>(e, m). bmsg m) (wp_reads p)
    \<and> (\<forall>e. \<exists>unread. wp_arrived p e = map snd (filter (\<lambda>(e', m). e' = e) (wp_reads p)) @ unread)
    \<and> (\<forall>e. subseq (forwarded_to p (other e)) (wp_arrived p e))
    \<and> (\<forall>e. wp_handlers p (fst e) \<noteq> H_Done \<longrightarrow> \<not> wp_closed p (other e)
         \<longrightarrow> forwarded_to p (other e) @ in_flight (wp_pcs p e) @ wp_inbox p e = wp_arrived p e)
    \<and> wp_tasks p = {e. wp_handlers p (fst e) = H_Waiting}
    \<and> (\<forall>c. dhas (wp_conns p) c \<longrightarrow> wp_handlers p c = H_Waiting)
    \<and> (wp_stop p = Stop_Done \<longrightarrow> wp_tasks p = {} \<and> wp_conns p = [])"
proof (intro conjI allI impI)
  note inv = ws_reachable [OF assms]
  then have e: "end_in_order p e" for e by (simp add: in_order_ends del: split_paired_All)
  show "wp_forwarded p = map (\<lambda>(e, m). bmsg m) (wp_reads p)" using inv by (simp add: in_order_ends)
  show "\<exists>unread. wp_arrived p e = map snd (filter (\<lambda>(e', m). e' = e) (wp_reads p)) @ unread" for e
    using e [of e] by (auto simp: end_in_order_def read_from_def)
  show "subseq (forwarded_to p (other e)) (wp_arrived p e)" for e
    using e [of e] subseq_front [of _ "in_flight (wp_pcs p e)"] by (auto simp: end_in_order_def intro: list_emb_append_mono [of _ _ _ "[]", simplified])
  show "forwarded_to p (other e) @ in_flight (wp_pcs p e) @ wp_inbox p e = wp_arrived p e"
    if "wp_handlers p (fst e) \<noteq> H_Done" "\<not> wp_closed p (other e)" for e
    using e [of e] that by (simp add: end_in_order_def flip: append_assoc)
  show tasks: "wp_tasks p = {e. wp_handlers p (fst e) = H_Waiting}" using inv by (simp add: books_def)
  show conns: "wp_handlers p c = H_Waiting" if "dhas (wp_conns p) c" for c using inv that by (auto simp: books_def dhas_def)
  assume "wp_stop p = Stop_Done"
  then have none: "wp_handlers p c \<noteq> H_Waiting" for c using inv by (auto simp: stopped_def) (metis handler_pc.distinct)
  then show "wp_tasks p = {}" using tasks by simp
  have "\<not> dhas (wp_conns p) c" for c using conns none by blast
  then show "wp_conns p = []" by (cases "wp_conns p") (auto simp: dhas_def dkeys_def)
qed

text \<open>One client that sends one text.\<close>

definition demo_connected :: ws_proxy where
  "demo_connected = handle_client_connected 0 (WebSocketProxy\<lparr>wp_handlers := (wp_handlers WebSocketProxy)(0 := H_Connecting)\<rparr>)"

definition demo_arrived :: ws_proxy where
  "demo_arrived = (let e = (0, Client_Side); m = Text ''a'' in demo_connected\<lparr>
     wp_inbox := (wp_inbox demo_connected)(e := wp_inbox demo_connected e @ [m]),
     wp_arrived := (wp_arrived demo_connected)(e := wp_arrived demo_connected e @ [m])\<rparr>)"

definition demo_sent :: ws_proxy where
  "demo_sent = forward_send (0, Client_Side) (Text ''a'') (forward_read (0, Client_Side) (Text ''a'') [] demo_arrived)"

lemmas demo_ws_defs = demo_connected_def demo_arrived_def demo_sent_def ws_defs WebSocketProxy_def

lemma demo_sent_reachable: "ws_step\<^sup>*\<^sup>* WebSocketProxy demo_sent"
proof -
  let ?p1 = "WebSocketProxy\<lparr>wp_handlers := (wp_handlers WebSocketProxy)(0 := H_Connecting)\<rparr>"
  let ?p4 = "forward_read (0, Client_Side) (Text ''a'') [] demo_arrived"
  have "ws_step WebSocketProxy ?p1" by (rule ws_step.accept) (simp_all add: WebSocketProxy_def)
  moreover have "ws_step ?p1 demo_connected" unfolding demo_connected_def by (rule ws_step.connected) simp
  moreover have "ws_step demo_connected demo_arrived"
    unfolding demo_arrived_def Let_def by (rule ws_step.arrives) (simp add: demo_connected_def ws_defs WebSocketProxy_def)
  moreover have "ws_step demo_arrived ?p4" by (rule ws_step.reads) (simp_all add: demo_ws_defs)
  moreover have "ws_step ?p4 demo_sent" unfolding demo_sent_def by (rule ws_step.sends) (simp_all add: demo_ws_defs)
  ultimately show ?thesis by (meson converse_rtranclp_into_rtranclp rtranclp.rtrancl_refl)
qed

theorem forwarding_in_order_witness:
  "wp_forwarded demo_sent = [''a''] \<and> wp_tasks demo_sent = {e. wp_handlers demo_sent (fst e) = H_Waiting}
    \<and> forwarded_to demo_sent (0, Server_Side) = wp_arrived demo_sent (0, Client_Side)"
proof -
  note facts = forwarding_in_order [OF demo_sent_reachable]
  have "wp_forwarded demo_sent = [''a'']"
    using conjunct1 [OF facts] by (simp add: demo_ws_defs utf8_def utf8_char_def)
  moreover have "forwarded_to demo_sent (other e) @ in_flight (wp_pcs demo_sent e) @ wp_inbox demo_sent e = wp_arrived demo_sent e"
    if "wp_handlers demo_sent (fst e) \<noteq> H_Done" "\<not> wp_closed demo_sent (other e)" for e
    using facts that by blast
  from this [of "(0, Client_Side)"] have "forwarded_to demo_sent (0, Server_Side) = wp_arrived demo_sent (0, Client_Side)"
    by (simp add: demo_ws_defs in_flight_def)
  ultimately show ?thesis using facts by blast
qed

text \<open>A client that leaves between two of its sends makes \<open>send_to_clients\<close> raise where it is, with the remaining clients unserved;
  the other operations iterate over a copy of the values.\<close>

lemma send_to_clients_interrupted:
  assumes "books p" and "wp_sender p = SC_At m ids i" "dkeys (wp_conns p) = ids" and "c \<in> set ids" "wp_pcs p (c, s) = T_Done"
  shows "ws_step p (handle_client_ends c p)
    \<and> (\<forall>q. ws_step (handle_client_ends c p) q \<longrightarrow> wp_sender q \<in> {wp_sender p, SC_Raised dict_changed})"
proof (intro conjI allI impI)
  have "wp_handlers p c = H_Waiting" using assms by (auto simp: books_def)
  then show "ws_step p (handle_client_ends c p)" using assms(5) by (rule ws_step.handler_ends)
  obtain v where "dget (wp_conns p) c = Some v" using assms(3,4) by (metis dget_None_iff not_None_eq)
  then have len: "length (ddel (wp_conns p) c) \<noteq> length ids"
    using assms(1,3) length_ddel [of "wp_conns p" c v] by (auto simp: books_def dkeys_def)
  have keys: "dkeys (ddel (wp_conns p) c) \<noteq> ids" using len by (auto simp: dkeys_def)
  show "wp_sender q \<in> {wp_sender p, SC_Raised dict_changed}" if "ws_step (handle_client_ends c p) q" for q
    using that len keys assms(2) by (cases rule: ws_step.cases) (auto simp: ws_defs)
qed

section \<open>The proxy's thread\<close>

text \<open>\<open>result\<close> is what the coroutine on the proxy's loop comes to within five seconds, \<open>joined\<close> whether the thread ends in time.\<close>

record ws_thread =
  wt_loop :: bool
  wt_thread :: bool

definition ws_start :: "exc + unit \<Rightarrow> ws_thread \<Rightarrow> (exc + unit) \<times> ws_thread" where
  "ws_start result t = (result, t\<lparr>wt_loop := True, wt_thread := True\<rparr>)"

definition ws_stop :: "exc + unit \<Rightarrow> bool \<Rightarrow> ws_thread \<Rightarrow> (exc + unit) \<times> ws_thread" where
  "ws_stop result joined t =
     (let outcome = (if wt_loop t then result else Inr ()) in
      if wt_loop t \<and> wt_thread t \<and> \<not> joined then (Inl (PyExc ''RuntimeError'' ''Cannot close a running event loop''), t)
      else (outcome, t\<lparr>wt_loop := False, wt_thread := False\<rparr>))"

definition on_proxy_loop :: "exc + unit \<Rightarrow> ws_thread \<Rightarrow> exc + unit" where
  "on_proxy_loop result t =
     (if \<not> wt_loop t then Inl (PyExc ''RuntimeError'' ''WebSocketProxy loop is None; was start() called?'') else result)"

lemma ws_stop_twice: "ws_stop r True t = (x, t') \<Longrightarrow> ws_stop r' j t' = (Inr (), t')"
  by (auto simp: ws_stop_def Let_def split: if_splits)

end
