(* ===== verification/Spec2Isabelle.thy ===== *)
theory Spec2Isabelle
  imports DurableGroups UserCode Twins StepProps Serving Seed Closing ExecOrder Watcher Encryption RemoteState Simulator Timings Ai Realtime Sentry DevServer TestSupport WsProxy
begin

text \<open>
  A verification development for the Inngest Python SDK (\<open>pkg/inngest/inngest\<close>, \<open>pkg/inngest_encryption\<close>).

  The program.  An app registers functions with the Inngest server and serves them over HTTP.  The server
  calls a function many times for one run: each call replays the outputs of the steps the run has
  finished (the memos in the request), executes at most one new step, and interrupts the function there;
  its response reports the step, and the next request carries its output.  When every step is memoized
  the function returns, and the response carries its result.  Requests and responses are signed.
  Instead of serving HTTP an app can connect a worker: it asks the API for a gateway, opens a WebSocket to it,
  registers its functions in a handshake, and runs the requests that arrive, each acknowledged first and answered
  by a reply that is kept until the gateway acknowledges it.

  Theories and code.
    \<^item> \<open>Prelude\<close>, \<open>PyObj\<close>: Python's strings, insertion-ordered dictionaries, values and \<open>json.dumps\<close>; the
      monad of state and exceptions, whose left results are raised.
    \<^item> \<open>Consts\<close> (\<open>server_lib/consts.py\<close>, \<open>const.py\<close>), \<open>Errors\<close> (\<open>errors.py\<close>), \<open>Transforms\<close> (\<open>transforms.py\<close>),
      \<open>Server\<close> (\<open>types.py\<close> and the wire types of \<open>server_lib\<close>).
    \<^item> \<open>StepBase\<close> (\<open>step_lib/base.py\<close>): memos, step identifiers and their counts, step descriptions and the
      interrupts.  \<open>Middleware\<close> (\<open>middleware_lib\<close>, \<open>log.py\<close>): hooks and the manager that runs them.
    \<^item> \<open>Execution\<close> (\<open>execution_lib\<close>): the record \<open>world\<close> is what one call of a function shares (memos, counts,
      the parallel, in-step and context flags, the middleware manager, the outside); \<open>report_step\<close> decides
      what happens to a step, \<open>ExecutionV0_run\<close> turns what the handler does into a call result.
    \<^item> \<open>Steps\<close>, \<open>StepsSync\<close> (\<open>step_async.py\<close>, \<open>step_sync.py\<close>, \<open>group.py\<close>, \<open>experimental/ai/base.py\<close>): the step
      methods and groups of both kinds.  \<open>Func\<close> (\<open>function.py\<close>): functions, their calls and registration.
    \<^item> \<open>Urls\<close> (what the SDK uses of \<open>urllib.parse\<close>), \<open>Net\<close> (\<open>net.py\<close>, \<open>env_lib.py\<close>, \<open>config_lib.py\<close>,
      \<open>client_lib/utils.py\<close>), \<open>Client\<close> (\<open>client_lib/client.py\<close>), \<open>Comm\<close> (\<open>comm_lib\<close>): environment, URLs, signatures,
      authenticated requests; the client with its event sending; the handlers for \<open>POST\<close>, \<open>GET\<close> and \<open>PUT\<close>.
    \<^item> \<open>MockTrigger\<close> (\<open>experimental/mocked\<close>): the executor loop of the SDK's tests, which plays the server.
    \<^item> \<open>Json\<close>: Python's \<open>json.loads\<close> and UTF-8.  \<open>Encryption\<close> (\<open>inngest_encryption/main.py\<close>) and \<open>RemoteState\<close>
      (\<open>experimental/remote_state_middleware\<close>): the two middlewares that replace step outputs.
    \<^item> \<open>Adapters\<close> (\<open>flask.py\<close>, \<open>django.py\<close>, \<open>fast_api.py\<close>, \<open>tornado.py\<close>, \<open>digital_ocean.py\<close>): what a framework's
      request becomes for \<open>Comm\<close>, and what its answer becomes for the framework.  \<open>Simulator\<close>
      (\<open>experimental/digital_ocean_simulator.py\<close>): DigitalOcean's runtime around its adapter.
    \<^item> \<open>Ai\<close> (\<open>experimental/ai\<close>), \<open>Realtime\<close> (\<open>experimental/realtime\<close>), \<open>Sentry\<close> (\<open>experimental/sentry_middleware.py\<close>),
      \<open>DevServer\<close> (\<open>experimental/dev_server\<close>: the process that tests start, with its threads).
    \<^item> The worker (\<open>connect/_internal\<close>): \<open>Watcher\<close> (\<open>value_watcher.py\<close>), \<open>Buffer\<close> (\<open>buffer.py\<close>), \<open>ConnState\<close>
      (\<open>models.py\<close>, \<open>ws_utils.py\<close>, \<open>base_handler.py\<close> and the two small handlers), \<open>ExecHandler\<close>
      (\<open>execution_handler.py\<close>), \<open>Handshake\<close> (\<open>init_handshake_handler.py\<close>), \<open>ConnInit\<close> (\<open>conn_init_starter.py\<close>), \<open>Worker\<close>
      (\<open>isolated_worker.py\<close>), \<open>Connection\<close> (\<open>connect.py\<close>, \<open>connection.py\<close>: its construction and the main thread).  A
      coroutine is a program counter, a step of the system what it does between two awaits; any interleaving of the
      steps is a run.
    \<^item> \<open>Timings\<close> (\<open>net.py\<close>): the stopwatches behind the \<open>Server-Timing\<close> header, with rounding doubles.
    \<^item> \<open>TestSupport\<close> (\<open>pkg/test_core\<close>: its GraphQL client, polling helpers, HTTP proxy and expected inspections) and
      \<open>WsProxy\<close> (its \<open>ws_proxy.py\<close>, the interleaved tasks of the WebSocket proxy): what the repository's tests stand on.

  What the lemmas show.
    \<^item> \<open>StepProps\<close>: \<open>step.run\<close> replays a memo without running its handler and runs a new handler at most once.
      Its lemmas are proved in the locale \<open>step_reporter\<close>, the contract of \<open>report_step\<close>, interpreted on both kinds.
      \<open>StepBase\<close>: when the hashed identifiers of a request's steps collide: an identifier with a colon can imitate the
      suffix that a repeated one gets (\<open>reused_id_collides\<close>); without such identifiers all are different.
    \<^item> \<open>UserCode\<close>: any code built of steps, groups, effects and \<open>try\<close> blocks keeps the request's invariant; what a call of
      a function returns, and that only a factory of the function's middleware can raise out of it.
    \<^item> \<open>Twins\<close>: \<open>twin_code\<close> pairs code over the async methods with the same code over the non-async ones, at every depth;
      both do the same under synchronous middleware, and so do the two calls of a function.
    \<^item> \<open>Durable\<close>: sequential functions are a deep embedding \<open>prog\<close> with a direct semantics; the executor loop
      refines it, where a direct run retries what \<open>is_retriable\<close> says.  The loop retries every error, so the theorems are about
      runs that no error with \<open>is_retriable = False\<close> ends; \<open>non_retriable_step_retried\<close> shows that the loop calls such a
      step again.  The loop is a partial function to an option; the theorem says that it ends.  \<open>DurableGroups\<close> extends this
      to parallel groups, for every order in which the loop picks planned steps: \<open>group_direct\<close> is the relation of the direct runs.
    \<^item> \<open>Net\<close>, \<open>CommProps\<close>, \<open>SyncProps\<close>: signatures round-trip and are needed; registered URLs lead back to their
      handlers; responses keep the meaning of results and are signed; synchronization and inspection.  \<open>Serving\<close>: a signed
      request to a registered URL runs the registered handler on the memos that the request carries, in both kinds of framework.
    \<^item> \<open>Client\<close>: construction and the retry loop of \<open>send\<close>; \<open>Seed\<close>: the event seeds of different calls differ.
    \<^item> \<open>DevServer\<close>: \<open>start\<close> returns exactly when a poll is answered with 200; what a second start does not do.
    \<^item> \<open>Json\<close>, \<open>Encryption\<close>, \<open>RemoteState\<close>: \<open>loads\<close> inverts \<open>dumps\<close>; encrypted or remote outputs come back, and
      decryption takes the plaintext of the first key that opens a text.  The locale
      \<open>step_store\<close> is the contract of a state driver, which the in-memory driver interprets and the S3 driver meets.
    \<^item> \<open>Watcher\<close>, \<open>Buffer\<close>: no wake-up is lost and waits end; the buffer refines a bounded queue.
    \<^item> \<open>ExecProps\<close>, \<open>Handshake\<close>, \<open>ConnInit\<close>, \<open>WorkerProps\<close>: invariants of the step relations, from the pending
      requests of one handler to the graceful shutdown of the worker with all of them.  A step of the handshake carries the
      message that it dispatches, so that its order is an order of messages.
    \<^item> \<open>ExecOrder\<close>: the interleaved executions of a worker's requests run each accepted request at most once: \<open>exec_history\<close>
      records the runs in their order, and the state is what \<open>run_jobs\<close> makes of the initial one in that order.
    \<^item> \<open>Connection\<close>: \<open>start\<close> returns only when all has ended; what the handshake announces, the handlers serve.
    \<^item> \<open>Closing\<close>: a connection that was asked to close ends in every fair execution, by a rank of the steps that are left;
      the exception is a close that ends while the WebSocket is being opened, which leaves \<open>run\<close> waiting for ever.  The
      locale \<open>ranked_progress\<close> of \<open>Fairness\<close> is the principle, interpreted on the steps of the connection.
    \<^item> \<open>Adapters\<close>, \<open>Simulator\<close>: every framework sends the bytes that were signed; \<open>Timings\<close>: no stopwatch reports a
      negative time; \<open>Ai\<close>: the locale \<open>ai_adapter\<close> is the contract of \<open>on_call\<close>, which all five adapters interpret.
    \<^item> \<open>TestSupport\<close>, \<open>WsProxy\<close>: the polling loops end once the clock does not stand still, and what their results mean; the
      inspections that the tests expect are those of \<open>Comm\<close>; the WebSocket proxy forwards in order and cleans up.

  Parameters.  SHA-1, SHA-256 and HMAC are functions to hexadecimal texts; the packages \<open>jcs\<close> (canonical JSON),
  \<open>httpx\<close> (requests over a state of the network) and pydantic's JSON parser are arguments; so are the clock,
  the environment variables, traceback texts, the timing header and the choice \<open>set.pop\<close> makes.  A character
  is a code point below 256 and a byte string is a text of such characters.

  PyNaCl, the S3 client and the random choice of key characters are arguments too, with the laws that the round trips
  need as hypotheses; so are the protobuf codec and what becomes of a frame given to the WebSocket.

  Bounds.  A round of start requests makes at most five; \<open>send\<close> makes at most five attempts; neither model has fuel.

  Not modelled: the test cases themselves, log messages, the concurrency of the event loop and of thread pools inside one HTTP request, the interleaving of
  functions that the worker runs on the main loop (a run is one step, which a cancellation comes before or after), the places
  where the handlers start and stop the stopwatches, generated protobuf code, and the passing of time, so that the
  worker's timeouts may fire at any moment or never.
\<close>

end
